(* ===== verification/Prelude.thy ===== *)
theory Prelude
  imports Main "HOL-Library.Word"
begin

text \<open>
  Shared vocabulary of the development: the machine types of the C sources, the ways a C
  execution can go wrong (as values of a sum type), character arrays whose cells may be
  indeterminate, and the functions of \<^verbatim>\<open><string.h>\<close> and \<^verbatim>\<open><stdlib.h>\<close> the sources call.

  A computation that can fail has type \<open>cerror + 'a\<close>: \<open>Inl\<close> is undefined behaviour or an
  abort, \<open>Inr\<close> the ordinary result. Sequencing is \<open>cbind\<close>, so everything after a failure
  is skipped, as it is in the running program.
\<close>

section \<open>Types and failures\<close>

type_synonym size_t = "64 word"
type_synonym off_t = "64 word" \<comment> \<open>signed: read with \<open>sint\<close>\<close>
type_synonym carr = "char option list" \<comment> \<open>a character array; \<open>None\<close> is an indeterminate byte\<close>

datatype cerror =
    OutOfBounds      \<comment> \<open>a read or write outside an object\<close>
  | NullDeref        \<comment> \<open>a null pointer, or one computed from it, is accessed\<close>
  | Uninit           \<comment> \<open>an indeterminate value decides what the program does\<close>
  | SignedOverflow   \<comment> \<open>an \<^verbatim>\<open>int\<close> operation leaves the range of \<^verbatim>\<open>int\<close>\<close>
  | AssertFail       \<comment> \<open>\<^verbatim>\<open>assert\<close> or \<^verbatim>\<open>abort\<close>\<close>
  | InvalidFree      \<comment> \<open>a pointer is freed that is not the start of an allocated block\<close>
  | Diverge          \<comment> \<open>a loop that does not end\<close>

named_theorems csimps \<open>evaluation of the C-level primitives\<close>

definition cbind :: "cerror + 'a \<Rightarrow> ('a \<Rightarrow> cerror + 'b) \<Rightarrow> cerror + 'b" where
  "cbind m f = (case m of Inl e \<Rightarrow> Inl e | Inr x \<Rightarrow> f x)"

lemma cbind_simps [simp]:
  "cbind (Inl e) f = Inl e"
  "cbind (Inr x) f = f x"
  by (simp_all add: cbind_def)

lemma cbind_assoc: "cbind (cbind m f) g = cbind m (\<lambda>x. cbind (f x) g)"
  by (cases m) simp_all

lemma cbind_Inr_iff: "cbind m f = Inr y \<longleftrightarrow> (\<exists>x. m = Inr x \<and> f x = Inr y)"
  by (cases m) simp_all

lemma cbind_InrE [elim]:
  assumes "cbind m f = Inr y"
  obtains x where "m = Inr x" "f x = Inr y"
  using assms by (cases m) auto

lemma cbind_cong [fundef_cong]:
  "m = m' \<Longrightarrow> (\<And>x. m' = Inr x \<Longrightarrow> f x = f' x) \<Longrightarrow> cbind m f = cbind m' f'"
  by (cases m') simp_all

section \<open>Error numbers\<close>

definition ENOENT :: int where "ENOENT = 2"
definition EAGAIN :: int where "EAGAIN = 11"
definition ENOMEM :: int where "ENOMEM = 12"
definition EEXIST :: int where "EEXIST = 17"
definition ENOTDIR :: int where "ENOTDIR = 20"
definition EISDIR :: int where "EISDIR = 21"
definition EINVAL :: int where "EINVAL = 22"
definition EBUSY :: int where "EBUSY = 16"
definition EIO :: int where "EIO = 5"
definition EPERM :: int where "EPERM = 1"
definition ENOLCK :: int where "ENOLCK = 37"
definition ENOSYS :: int where "ENOSYS = 38"
definition ESTALE :: int where "ESTALE = 116"

lemmas errno_defs = ENOENT_def EAGAIN_def ENOMEM_def EEXIST_def ENOTDIR_def EISDIR_def
  EINVAL_def EBUSY_def EIO_def EPERM_def ENOLCK_def ENOSYS_def ESTALE_def

section \<open>Signed integers\<close>

definition INT_MAX :: int where "INT_MAX = 2147483647"
definition INT_MIN :: int where "INT_MIN = -2147483648"

text \<open>The value of an \<^verbatim>\<open>int\<close> expression: undefined when it does not fit.\<close>

definition c_int :: "int \<Rightarrow> cerror + int" where
  "c_int i = (if INT_MIN \<le> i \<and> i \<le> INT_MAX then Inr i else Inl SignedOverflow)"

lemma c_int_Inr [simp]: "INT_MIN \<le> i \<Longrightarrow> i \<le> INT_MAX \<Longrightarrow> c_int i = Inr i"
  by (simp add: c_int_def)

text \<open>Conversion of an unsigned 64-bit value to \<^verbatim>\<open>int\<close>, as a function returning \<^verbatim>\<open>int\<close>
  does with a \<^verbatim>\<open>size_t\<close>: the low 32 bits, read as two's complement.\<close>

definition int_of_size :: "size_t \<Rightarrow> int" where
  "int_of_size n = sint (ucast n :: 32 word)"

lemma int_of_size_small:
  assumes "unat n < 2 ^ 31"
  shows "int_of_size n = int (unat n)"
proof -
  have "uint n < 2 ^ 31"
    using assms by (metis nat_less_numeral_power_cancel_iff unat_eq_nat_uint)
  then have "signed_take_bit 31 (uint n) = uint n"
    by (intro signed_take_bit_int_eq_self) (auto intro: order_trans [of _ 0])
  then show ?thesis
    by (simp add: int_of_size_def signed_ucast_eq)
qed

lemma sint_size_small:
  assumes "unat (w :: size_t) < 2 ^ 63"
  shows "sint w = int (unat w)"
proof -
  have "uint w < 2 ^ 63"
    using assms by (metis nat_less_numeral_power_cancel_iff unat_eq_nat_uint)
  then have "signed_take_bit 63 (uint w) = uint w"
    by (intro signed_take_bit_int_eq_self) (auto intro: order_trans [of _ 0])
  then show ?thesis by (simp add: sint_uint)
qed

lemma unat_add_nowrap:
  "unat a + unat b < 2 ^ 64 \<Longrightarrow> unat (a + b :: size_t) = unat a + unat b"
  by (simp add: unat_word_ariths)

lemma unat_of_nat_size [simp]: "n < 2 ^ 64 \<Longrightarrow> unat (of_nat n :: size_t) = n"
  by (simp add: unat_of_nat)

section \<open>Memory cells\<close>

definition memcpy_cells :: "carr \<Rightarrow> nat \<Rightarrow> carr \<Rightarrow> cerror + carr" where
  "memcpy_cells dst off src =
     (if off + length src \<le> length dst
      then Inr (take off dst @ src @ drop (off + length src) dst)
      else Inl OutOfBounds)"

text \<open>Reading \<open>n\<close> cells from an array or object, the source operand of \<^verbatim>\<open>memcpy\<close>.\<close>

definition read_cells :: "'a list \<Rightarrow> nat \<Rightarrow> nat \<Rightarrow> cerror + 'a list" where
  "read_cells src off n =
     (if off + n \<le> length src then Inr (take n (drop off src)) else Inl OutOfBounds)"

definition write_cell :: "carr \<Rightarrow> nat \<Rightarrow> char \<Rightarrow> cerror + carr" where
  "write_cell dst i c = (if i < length dst then Inr (dst[i := Some c]) else Inl OutOfBounds)"

text \<open>
  \<^verbatim>\<open>realloc\<close>: \<open>alloc n\<close> says whether the allocator grants \<open>n\<close> bytes. Old contents are kept up
  to the new length and fresh cells are indeterminate. \<^verbatim>\<open>malloc\<close> is \<^verbatim>\<open>realloc\<close> of nothing.
\<close>

definition realloc_cells ::
    "(nat \<Rightarrow> bool) \<Rightarrow> nat \<Rightarrow> 'a option list option \<Rightarrow> nat \<Rightarrow> 'a option list option" where
  "realloc_cells alloc width p n =
     (if alloc (width * n)
      then let old = (case p of None \<Rightarrow> [] | Some xs \<Rightarrow> xs)
           in Some (take n old @ replicate (n - length old) None)
      else None)"

lemma length_realloc_cells:
  "realloc_cells alloc w p n = Some xs \<Longrightarrow> length xs = n"
  by (auto simp: realloc_cells_def Let_def split: if_splits option.splits)

lemma memcpy_cells_Inr:
  "memcpy_cells dst off src = Inr r \<longleftrightarrow>
     off + length src \<le> length dst \<and> r = take off dst @ src @ drop (off + length src) dst"
  by (auto simp: memcpy_cells_def)

lemma length_memcpy_cells: "memcpy_cells dst off src = Inr r \<Longrightarrow> length r = length dst"
  by (auto simp: memcpy_cells_Inr)

section \<open>C strings\<close>

abbreviation NUL :: char where "NUL \<equiv> CHR 0x00"

text \<open>The text of the string an array holds: up to the first NUL, which must be there.\<close>

fun cstr :: "carr \<Rightarrow> cerror + string" where
  "cstr [] = Inl OutOfBounds"
| "cstr (None # xs) = Inl Uninit"
| "cstr (Some c # xs) = (if c = NUL then Inr [] else cbind (cstr xs) (\<lambda>s. Inr (c # s)))"

definition c_string :: "string \<Rightarrow> bool" where
  "c_string s \<longleftrightarrow> NUL \<notin> set s"

definition zeros :: "nat \<Rightarrow> carr" where
  "zeros n = replicate n (Some NUL)"

definition strcpy :: "carr \<Rightarrow> string \<Rightarrow> cerror + carr" where
  "strcpy dst s = memcpy_cells dst 0 (map Some (s @ [NUL]))"

definition strchr :: "string \<Rightarrow> char \<Rightarrow> nat option" where
  "strchr s c = (if c \<in> set s then Some (length (takeWhile (\<lambda>d. d \<noteq> c) s)) else None)"

definition strrchr :: "string \<Rightarrow> char \<Rightarrow> nat option" where
  "strrchr s c =
     (if c \<in> set s then Some (length s - 1 - length (takeWhile (\<lambda>d. d \<noteq> c) (rev s))) else None)"

definition strpbrk :: "string \<Rightarrow> string \<Rightarrow> nat option" where
  "strpbrk s cs =
     (if \<exists>c \<in> set cs. c \<in> set s then Some (length (takeWhile (\<lambda>d. d \<notin> set cs) s)) else None)"

fun strstr :: "string \<Rightarrow> string \<Rightarrow> nat option" where
  "strstr [] n = (if n = [] then Some 0 else None)"
| "strstr (c # h) n =
     (if take (length n) (c # h) = n then Some 0 else map_option Suc (strstr h n))"

text \<open>\<^verbatim>\<open>strncpy\<close> writes exactly \<open>n\<close> bytes: the text of the source, cut or padded with NULs.\<close>

definition strncpy :: "carr \<Rightarrow> string \<Rightarrow> nat \<Rightarrow> cerror + carr" where
  "strncpy dst s n = memcpy_cells dst 0 (map Some (take n s) @ zeros (n - length s))"

text \<open>\<^verbatim>\<open>strcmp(a, s) == 0\<close> for an array \<open>a\<close> and the text \<open>s\<close> of another string.\<close>

definition strcmp_eq :: "carr \<Rightarrow> string \<Rightarrow> cerror + bool" where
  "strcmp_eq a s = cbind (cstr a) (\<lambda>t. Inr (t = s))"

subsection \<open>Lemmas on C strings\<close>

lemma cstr_append_NUL:
  "c_string s \<Longrightarrow> cstr (map Some s @ Some NUL # xs) = Inr s"
  by (induction s) (auto simp: c_string_def)

lemma cstr_Inr_decomp:
  "cstr a = Inr s \<Longrightarrow> \<exists>xs. a = map Some s @ Some NUL # xs \<and> c_string s"
proof (induction a arbitrary: s rule: cstr.induct)
  case (3 c xs)
  then show ?case
    by (cases "c = NUL") (fastforce simp: c_string_def)+
qed simp_all

lemma cstr_Inr_iff:
  "cstr a = Inr s \<longleftrightarrow> c_string s \<and> (\<exists>xs. a = map Some s @ Some NUL # xs)"
  using cstr_Inr_decomp cstr_append_NUL by blast

lemma cstr_zeros [simp]: "0 < n \<Longrightarrow> cstr (zeros n) = Inr []"
  by (cases n) (simp_all add: zeros_def)

lemma length_zeros [simp]: "length (zeros n) = n"
  by (simp add: zeros_def)

lemma cstr_length_less: "cstr a = Inr s \<Longrightarrow> length s < length a"
  by (auto dest: cstr_Inr_decomp)

lemma strcpy_Inr:
  "length s < length dst \<Longrightarrow>
     strcpy dst s = Inr (map Some s @ Some NUL # drop (Suc (length s)) dst)"
  by (simp add: strcpy_def memcpy_cells_def)

lemma strcpy_overflow: "length dst \<le> length s \<Longrightarrow> strcpy dst s = Inl OutOfBounds"
  by (simp add: strcpy_def memcpy_cells_def)

lemma cstr_strcpy: "strcpy dst s = Inr a \<Longrightarrow> c_string s \<Longrightarrow> cstr a = Inr s"
  by (auto simp: strcpy_def memcpy_cells_Inr cstr_append_NUL)

lemma length_strcpy: "strcpy dst s = Inr a \<Longrightarrow> length a = length dst"
  unfolding strcpy_def by (rule length_memcpy_cells)

lemma takeWhile_neq [simp]: "c \<notin> set t \<Longrightarrow> takeWhile (\<lambda>d. d \<noteq> c) t = t"
  by (induction t) auto

lemma takeWhile_neq_first [simp]:
  "c \<notin> set t \<Longrightarrow> takeWhile (\<lambda>d. d \<noteq> c) (t @ c # u) = t"
  by (induction t) auto

lemma strchr_Some:
  "strchr s c = Some i \<longleftrightarrow> (\<exists>t u. s = t @ c # u \<and> c \<notin> set t \<and> i = length t)"
proof
  assume "strchr s c = Some i"
  then have c: "c \<in> set s" and i: "i = length (takeWhile (\<lambda>d. d \<noteq> c) s)"
    by (auto simp: strchr_def split: if_splits)
  from c obtain t u where s: "s = t @ c # u" "c \<notin> set t"
    by (meson split_list_first)
  then have "takeWhile (\<lambda>d. d \<noteq> c) s = t"
    by (auto)
  with s i show "\<exists>t u. s = t @ c # u \<and> c \<notin> set t \<and> i = length t"
    by auto
next
  assume "\<exists>t u. s = t @ c # u \<and> c \<notin> set t \<and> i = length t"
  then show "strchr s c = Some i"
    by (auto simp: strchr_def)
qed

lemma strchr_None: "strchr s c = None \<longleftrightarrow> c \<notin> set s"
  by (simp add: strchr_def)

lemma strrchr_Some:
  "strrchr s c = Some i \<longleftrightarrow> (\<exists>t u. s = t @ c # u \<and> c \<notin> set u \<and> i = length t)"
proof
  assume "strrchr s c = Some i"
  then have c: "c \<in> set s" and i: "i = length s - 1 - length (takeWhile (\<lambda>d. d \<noteq> c) (rev s))"
    by (auto simp: strrchr_def split: if_splits)
  from c obtain t u where s: "s = t @ c # u" "c \<notin> set u"
    by (meson split_list_last)
  then have "takeWhile (\<lambda>d. d \<noteq> c) (rev s) = rev u"
    by (auto)
  with s i show "\<exists>t u. s = t @ c # u \<and> c \<notin> set u \<and> i = length t"
    by auto
next
  assume "\<exists>t u. s = t @ c # u \<and> c \<notin> set u \<and> i = length t"
  then show "strrchr s c = Some i"
    by (auto simp: strrchr_def)
qed

lemma strpbrk_first:
  "\<forall>d \<in> set t. d \<notin> set cs \<Longrightarrow> c \<in> set cs \<Longrightarrow> strpbrk (t @ c # u) cs = Some (length t)"
  by (auto simp: strpbrk_def takeWhile_tail)

lemma strstr_Some:
  "strstr h n = Some i \<Longrightarrow> \<exists>t u. h = t @ n @ u \<and> length t = i"
proof (induction h arbitrary: i)
  case Nil
  then show ?case by (auto split: if_splits)
next
  case (Cons c h)
  show ?case
  proof (cases "take (length n) (c # h) = n")
    case True
    with Cons.prems have "i = 0" by simp
    moreover have "c # h = n @ drop (length n) (c # h)"
      using True by (metis append_take_drop_id)
    ultimately show ?thesis by (metis append_Nil list.size(3))
  next
    case False
    with Cons.prems obtain j where j: "strstr h n = Some j" "i = Suc j"
      by auto
    from Cons.IH [OF j(1)] obtain t u where "h = t @ n @ u" "length t = j"
      by blast
    with j(2) have "c # h = (c # t) @ n @ u \<and> length (c # t) = i" by simp
    then show ?thesis by blast
  qed
qed

lemma strstr_None: "strstr h n = None \<Longrightarrow> h \<noteq> t @ n @ u"
proof (induction h arbitrary: t)
  case Nil
  then show ?case by (auto split: if_splits)
next
  case (Cons c h)
  then show ?case
    by (cases t) (auto split: if_splits)
qed

section \<open>Lists\<close>

fun find_index :: "('a \<Rightarrow> bool) \<Rightarrow> 'a list \<Rightarrow> nat option" where
  "find_index P [] = None"
| "find_index P (x # xs) = (if P x then Some 0 else map_option Suc (find_index P xs))"

text \<open>Removal that fills the hole with the last element.\<close>

definition swap_remove :: "'a list \<Rightarrow> nat \<Rightarrow> 'a list" where
  "swap_remove xs i = butlast (xs[i := last xs])"

lemma find_index_None: "find_index P xs = None \<longleftrightarrow> (\<forall>x \<in> set xs. \<not> P x)"
  by (induction xs) auto

lemma find_index_Some:
  "find_index P xs = Some i \<longleftrightarrow> i < length xs \<and> P (xs ! i) \<and> (\<forall>j < i. \<not> P (xs ! j))"
proof (induction xs arbitrary: i)
  case Nil
  then show ?case by simp
next
  case (Cons x xs)
  show ?case
    by (cases i) (auto simp: Cons.IH nth_Cons' less_Suc_eq_0_disj split: if_splits)
qed

lemma find_index_append:
  "find_index P (xs @ ys) =
     (case find_index P xs of Some i \<Rightarrow> Some i | None \<Rightarrow> map_option (\<lambda>j. j + length xs) (find_index P ys))"
  by (induction xs) (auto split: option.splits simp: option.map_comp comp_def option.map_ident)

lemma length_swap_remove [simp]: "length (swap_remove xs i) = length xs - 1"
  by (simp add: swap_remove_def)

lemma swap_remove_split:
  assumes "i < length xs"
  obtains "i = length xs - 1" "swap_remove xs i = butlast xs"
  | us vs y z where "xs = us @ y # vs @ [z]" "length us = i" "swap_remove xs i = us @ z # vs"
proof (cases "i = length xs - 1")
  case True
  with assms have "swap_remove xs i = butlast xs"
    by (metis append_butlast_last_id length_0_conv less_nat_zero_code list_update_length
        list_update_same_conv nth_append_length length_butlast swap_remove_def)
  with True that show ?thesis by blast
next
  case False
  let ?us = "take i xs" and ?vs = "butlast (drop (Suc i) xs)"
  have ne: "drop (Suc i) xs \<noteq> []" using False assms by simp
  then have xs: "xs = ?us @ xs ! i # ?vs @ [last xs]"
    using assms by (metis append_butlast_last_id id_take_nth_drop last_drop not_less_iff_gr_or_eq
        drop_eq_Nil not_le)
  moreover have us: "length ?us = i" using assms by simp
  ultimately have "swap_remove xs i = ?us @ last xs # ?vs"
    unfolding swap_remove_def
    by (metis (no_types, lifting) butlast_append butlast_snoc list.discI list_update_length append_Cons append_assoc)
  with xs us that show ?thesis by blast
qed

lemma mset_swap_remove_set:
  assumes "i < length xs" "distinct (map g xs)"
  shows "distinct (map g (swap_remove xs i)) \<and>
    set (swap_remove xs i) = set xs - {xs ! i}"
  using assms(1)
proof (cases rule: swap_remove_split)
  case 1
  from assms(1) have "xs \<noteq> []" by auto
  then obtain ys z where xs: "xs = ys @ [z]" by (cases xs rule: rev_cases) auto
  with 1 assms show ?thesis by (auto simp: nth_append)
next
  case (2 us vs y z)
  with assms(2) show ?thesis by (auto simp: nth_append)
qed

end
