(* ===== verification/Fuse_Fields.thy ===== *)
theory Fuse_Fields
  imports Prelude
begin

text \<open>
  Fields of the structures exchanged with the kernel: integers of two, four and eight bytes in the byte
  order of the machine, which is taken to be little-endian, and strings with their terminator, at
  byte offsets of a character array.
\<close>

section \<open>Reading\<close>

fun le_value :: "string \<Rightarrow> nat" where
  "le_value [] = 0"
| "le_value (c # cs) = of_char c + 256 * le_value cs"

definition get_le :: "carr \<Rightarrow> nat \<Rightarrow> nat \<Rightarrow> cerror + nat" where
  "get_le a off n =
     cbind (read_cells a off n) (\<lambda>cells. if None \<in> set cells then Inl Uninit else Inr (le_value (map the cells)))"

definition get32 :: "carr \<Rightarrow> nat \<Rightarrow> cerror + 32 word" where
  "get32 a off = cbind (get_le a off 4) (\<lambda>n. Inr (of_nat n))"

definition get64 :: "carr \<Rightarrow> nat \<Rightarrow> cerror + 64 word" where
  "get64 a off = cbind (get_le a off 8) (\<lambda>n. Inr (of_nat n))"

section \<open>Writing\<close>

fun le_bytes :: "nat \<Rightarrow> nat \<Rightarrow> string" where
  "le_bytes 0 v = []"
| "le_bytes (Suc n) v = char_of v # le_bytes n (v div 256)"

lemma length_le_bytes [simp]: "length (le_bytes n v) = n"
  by (induction n arbitrary: v) simp_all

lemma le_value_le_bytes: "le_value (le_bytes n v) = v mod 256 ^ n"
proof (induction n arbitrary: v)
  case (Suc n)
  have "v mod 256 + 256 * (v div 256 mod 256 ^ n) = v mod (256 * 256 ^ n)"
    by (simp add: mod_mult2_eq)
  with Suc show ?case by simp
qed simp

definition put16 :: "16 word \<Rightarrow> carr" where "put16 w = map Some (le_bytes 2 (unat w))"
definition put32 :: "32 word \<Rightarrow> carr" where "put32 w = map Some (le_bytes 4 (unat w))"
definition put64 :: "64 word \<Rightarrow> carr" where "put64 w = map Some (le_bytes 8 (unat w))"
definition put_str :: "string \<Rightarrow> carr" where "put_str s = map Some (s @ [NUL])"

lemma length_put [simp]:
  "length (put16 h) = 2" "length (put32 w) = 4" "length (put64 v) = 8" "length (put_str s) = length s + 1"
  by (simp_all add: put16_def put32_def put64_def put_str_def)

lemma get_le_here: "length xs = n \<Longrightarrow> get_le (map Some xs @ a) 0 n = Inr (le_value xs)"
  by (auto simp: get_le_def read_cells_def)

lemma get_le_skip: "length xs \<le> off \<Longrightarrow> get_le (xs @ a) off n = get_le a (off - length xs) n"
  by (auto simp: get_le_def read_cells_def)

lemma get_here [simp]: "get32 (put32 w @ a) 0 = Inr w" "get64 (put64 v @ a) 0 = Inr v"
proof -
  have "unat w < 2 ^ LENGTH(32)" by (rule unsigned_less)
  then have "unat w mod 256 ^ 4 = unat w" by simp
  then show "get32 (put32 w @ a) 0 = Inr w"
    by (simp add: get32_def put32_def get_le_here le_value_le_bytes)
  have "unat v < 2 ^ LENGTH(64)" by (rule unsigned_less)
  then have "unat v mod 256 ^ 8 = unat v" by simp
  then show "get64 (put64 v @ a) 0 = Inr v"
    by (simp add: get64_def put64_def get_le_here le_value_le_bytes)
qed

lemma get_skip [simp]:
  "2 \<le> off \<Longrightarrow> get32 (put16 h @ a) off = get32 a (off - 2)" "2 \<le> off \<Longrightarrow> get64 (put16 h @ a) off = get64 a (off - 2)"
  "4 \<le> off \<Longrightarrow> get32 (put32 w @ a) off = get32 a (off - 4)" "8 \<le> off \<Longrightarrow> get32 (put64 v @ a) off = get32 a (off - 8)"
  "4 \<le> off \<Longrightarrow> get64 (put32 w @ a) off = get64 a (off - 4)" "8 \<le> off \<Longrightarrow> get64 (put64 v @ a) off = get64 a (off - 8)"
  by (simp_all add: get32_def get64_def get_le_skip)

lemma drop_put [simp]:
  "4 \<le> off \<Longrightarrow> drop off (put32 w @ a) = drop (off - 4) a" "8 \<le> off \<Longrightarrow> drop off (put64 v @ a) = drop (off - 8) a"
  "drop (Suc (length s)) (put_str s @ a) = a"
  by simp_all

lemma cstr_put [simp]: "c_string s \<Longrightarrow> cstr (put_str s @ a) = Inr s"
  using cstr_append_NUL [of s a] by (simp add: put_str_def)

end
