(* ===== verification/Buffer.thy ===== *)
theory Buffer
  imports Prelude
begin

text \<open>
  The growable byte buffer of \<^verbatim>\<open>src/buffer.c\<close>: its struct, its five operations, the
  invariant that the block has \<open>capacity\<close> cells of which \<open>size\<close> are in use, and the
  contents (\<open>bytes\<close>) each operation produces. \<open>alloc\<close> is the allocator: \<open>alloc n\<close> says
  whether a request for \<open>n\<close> bytes is granted.
\<close>

section \<open>The struct and its operations\<close>

record buffer =
  b_ptr :: "carr option"
  b_capacity :: size_t
  b_size :: size_t

definition buffer_new :: "(nat \<Rightarrow> bool) \<Rightarrow> buffer" where
  "buffer_new alloc = \<lparr>b_ptr = realloc_cells alloc 1 None 100, b_capacity = 100, b_size = 0\<rparr>"

definition buffer_free :: "buffer \<Rightarrow> buffer" where
  "buffer_free buf = \<lparr>b_ptr = None, b_capacity = 0, b_size = 0\<rparr>"

definition buffer_push :: "(nat \<Rightarrow> bool) \<Rightarrow> buffer \<Rightarrow> char \<Rightarrow> cerror + buffer" where
  "buffer_push alloc st c =
     (let st1 = (if b_capacity st \<le> b_size st
                 then st\<lparr>b_capacity := b_capacity st * 2 + 1,
                         b_ptr := realloc_cells alloc 1 (b_ptr st) (unat (b_capacity st * 2 + 1))\<rparr>
                 else st)
      in case b_ptr st1 of
           None \<Rightarrow> Inl NullDeref
         | Some cells \<Rightarrow>
             cbind (write_cell cells (unat (b_size st1)) c)
               (\<lambda>cells'. Inr (st1\<lparr>b_ptr := Some cells', b_size := b_size st1 + 1\<rparr>)))"

definition buffer_append ::
    "(nat \<Rightarrow> bool) \<Rightarrow> buffer \<Rightarrow> carr \<Rightarrow> size_t \<Rightarrow> cerror + buffer" where
  "buffer_append alloc st data sz =
     (let st1 = (if b_capacity st \<le> b_size st + sz
                 then st\<lparr>b_capacity := b_capacity st + sz,
                         b_ptr := realloc_cells alloc 1 (b_ptr st) (unat (b_capacity st + sz))\<rparr>
                 else st)
      in cbind (read_cells data 0 (unat sz))
           (\<lambda>src. case b_ptr st1 of
                None \<Rightarrow> Inl NullDeref
              | Some cells \<Rightarrow>
                  cbind (memcpy_cells cells (unat (b_size st1)) src)
                    (\<lambda>cells'. Inr (st1\<lparr>b_ptr := Some cells', b_size := b_size st1 + sz\<rparr>))))"

definition buffer_insert ::
    "(nat \<Rightarrow> bool) \<Rightarrow> buffer \<Rightarrow> size_t \<Rightarrow> carr \<Rightarrow> size_t \<Rightarrow> cerror + buffer" where
  "buffer_insert alloc st pos data sz =
     (let st1 = (if b_capacity st \<le> pos + sz
                 then st\<lparr>b_capacity := pos + sz,
                         b_ptr := realloc_cells alloc 1 (b_ptr st) (unat (pos + sz))\<rparr>
                 else st)
      in cbind (read_cells data 0 (unat sz))
           (\<lambda>src. case b_ptr st1 of
                None \<Rightarrow> Inl NullDeref
              | Some cells \<Rightarrow>
                  cbind (memcpy_cells cells (unat pos) src)
                    (\<lambda>cells'.
                       let st2 = st1\<lparr>b_ptr := Some cells'\<rparr>
                       in Inr (if b_size st2 < pos + sz then st2\<lparr>b_size := pos + sz\<rparr> else st2))))"

section \<open>Invariant and contents\<close>

definition buf_ok :: "buffer \<Rightarrow> bool" where
  "buf_ok st \<longleftrightarrow>
     (case b_ptr st of
        None \<Rightarrow> b_capacity st = 0 \<and> b_size st = 0
      | Some cells \<Rightarrow> length cells = unat (b_capacity st) \<and> b_size st \<le> b_capacity st)"

definition bytes :: "buffer \<Rightarrow> carr" where
  "bytes st = (case b_ptr st of None \<Rightarrow> [] | Some cells \<Rightarrow> take (unat (b_size st)) cells)"

lemma bytes_Some: "b_ptr st = Some cells \<Longrightarrow> bytes st = take (unat (b_size st)) cells"
  by (simp add: bytes_def)

lemma length_bytes: "buf_ok st \<Longrightarrow> length (bytes st) = unat (b_size st)"
  by (auto simp: buf_ok_def bytes_def word_le_nat_alt split: option.splits)

lemma buf_ok_new: "alloc 100 \<Longrightarrow> buf_ok (buffer_new alloc) \<and> bytes (buffer_new alloc) = []"
  by (simp add: buf_ok_def bytes_def buffer_new_def realloc_cells_def)

lemma buf_ok_free: "buf_ok (buffer_free st) \<and> bytes (buffer_free st) = []"
  by (simp add: buf_ok_def bytes_def buffer_free_def)

text \<open>
  The step every growing operation shares: a block that is made long enough keeps its
  cells, and the cells past the old block are indeterminate.
\<close>

definition grow_ok :: "buffer \<Rightarrow> nat \<Rightarrow> buffer \<Rightarrow> bool" where
  "grow_ok st n st1 \<longleftrightarrow>
     (\<exists>cells. b_ptr st1 = Some cells \<and> length cells = unat (b_capacity st1) \<and>
        n \<le> length cells \<and> b_size st1 = b_size st \<and>
        take (unat (b_size st)) cells = bytes st)"

lemma grow_ok_realloc:
  assumes "buf_ok st" "alloc (unat c)" "b_capacity st \<le> c"
  shows "grow_ok st (unat c)
           (st\<lparr>b_capacity := c, b_ptr := realloc_cells alloc 1 (b_ptr st) (unat c)\<rparr>)"
proof (cases "b_ptr st")
  case None
  with assms show ?thesis
    by (simp add: grow_ok_def realloc_cells_def buf_ok_def bytes_def)
next
  case (Some cells)
  with assms have "length cells \<le> unat c" "unat (b_size st) \<le> length cells"
    by (auto simp: buf_ok_def word_le_nat_alt)
  with Some assms show ?thesis
    by (simp add: grow_ok_def realloc_cells_def bytes_def)
qed

lemma grow_ok_keep:
  assumes "buf_ok st" "0 < b_capacity st"
  shows "grow_ok st (unat (b_capacity st)) st"
  using assms
  by (auto simp: grow_ok_def buf_ok_def bytes_def split: option.splits)

section \<open>What the operations do\<close>

lemma buffer_append_spec:
  assumes ok: "buf_ok st" and nowrap: "unat (b_capacity st) + length xs < 2 ^ 64"
    and mem: "alloc (unat (b_capacity st) + length xs)"
  shows "\<exists>st'. buffer_append alloc st xs (of_nat (length xs)) = Inr st' \<and> buf_ok st' \<and>
           bytes st' = bytes st @ xs \<and>
           unat (b_capacity st') \<le> unat (b_capacity st) + length xs"
proof -
  let ?n = "of_nat (length xs) :: size_t"
  define st1 where "st1 = (if b_capacity st \<le> b_size st + ?n
    then st\<lparr>b_capacity := b_capacity st + ?n,
            b_ptr := realloc_cells alloc 1 (b_ptr st) (unat (b_capacity st + ?n))\<rparr>
    else st)"
  have n: "unat ?n = length xs" using nowrap by simp
  have szcap: "unat (b_size st) \<le> unat (b_capacity st)"
    using ok by (auto simp: buf_ok_def word_le_nat_alt split: option.splits)
  have cap: "unat (b_capacity st + ?n) = unat (b_capacity st) + length xs"
    using nowrap n by (simp add: unat_add_nowrap)
  have sz: "unat (b_size st + ?n) = unat (b_size st) + length xs"
    using nowrap n szcap by (simp add: unat_add_nowrap)
  have "grow_ok st (unat (b_size st) + length xs) st1"
  proof (cases "b_capacity st \<le> b_size st + ?n")
    case True
    have "grow_ok st (unat (b_capacity st + ?n)) st1"
      using True ok mem cap grow_ok_realloc [of st alloc "b_capacity st + ?n"]
      by (simp add: st1_def word_le_nat_alt)
    with szcap cap show ?thesis by (auto simp: grow_ok_def)
  next
    case False
    then have "unat (b_size st) + length xs < unat (b_capacity st)"
      using sz by (simp add: word_le_nat_alt)
    moreover from this have "grow_ok st (unat (b_capacity st)) st"
      using ok by (intro grow_ok_keep) (auto simp: word_less_nat_alt)
    ultimately show ?thesis using False by (auto simp: grow_ok_def st1_def)
  qed
  then obtain cells where c: "b_ptr st1 = Some cells" "length cells = unat (b_capacity st1)"
      "unat (b_size st) + length xs \<le> length cells" "b_size st1 = b_size st"
      "take (unat (b_size st)) cells = bytes st"
    by (auto simp: grow_ok_def)
  let ?cells = "take (unat (b_size st)) cells @ xs @ drop (unat (b_size st) + length xs) cells"
  let ?st' = "st1\<lparr>b_ptr := Some ?cells, b_size := b_size st + ?n\<rparr>"
  have "buffer_append alloc st xs ?n = Inr ?st'"
    using c n unfolding buffer_append_def st1_def [symmetric] Let_def
    by (simp add: read_cells_def memcpy_cells_def)
  moreover have "buf_ok ?st'"
    using c sz length_bytes [OF ok] by (simp add: buf_ok_def word_le_nat_alt)
  moreover have "bytes ?st' = bytes st @ xs"
    using c sz length_bytes [OF ok] by (simp add: bytes_Some)
  moreover have "unat (b_capacity ?st') \<le> unat (b_capacity st) + length xs"
    using cap by (simp add: st1_def)
  ultimately show ?thesis by blast
qed

text \<open>
  \<^verbatim>\<open>buffer_insert\<close> overwrites the bytes at \<open>pos\<close>. When \<open>pos\<close> lies past the end, the cells
  between the old end and \<open>pos\<close> become part of the contents without having been written:
  \<open>gap\<close> below is whatever the block held there.
\<close>

definition overwrite :: "'a list \<Rightarrow> nat \<Rightarrow> 'a list \<Rightarrow> 'a list \<Rightarrow> 'a list" where
  "overwrite old pos gap xs = take pos (old @ gap) @ xs @ drop (pos + length xs) old"

lemma overwrite_inside:
  "pos \<le> length old \<Longrightarrow> overwrite old pos gap xs = take pos old @ xs @ drop (pos + length xs) old"
  by (simp add: overwrite_def)

lemma take_overwrite_cells:
  assumes "pos + length xs \<le> length cells" "sz \<le> length cells"
  shows "take (max sz (pos + length xs)) (take pos cells @ xs @ drop (pos + length xs) cells) =
     overwrite (take sz cells) pos (take (pos - sz) (drop sz cells)) xs"
proof -
  have 1: "take pos cells = take pos (take sz cells @ take (pos - sz) (drop sz cells))"
  proof (cases "pos \<le> sz")
    case False
    then have "take pos cells = take sz cells @ take (pos - sz) (drop sz cells)"
      by (metis le_add_diff_inverse nat_le_linear take_add)
    then show ?thesis using False by (simp add: min_def)
  qed (simp add: min_def)
  have 2: "take (max sz (pos + length xs) - (pos + length xs)) (drop (pos + length xs) cells) =
      drop (pos + length xs) (take sz cells)"
    by (simp add: drop_take max_def)
  show ?thesis
    unfolding overwrite_def 1 [symmetric] 2 [symmetric]
    using assms by (simp add: min_absorb2 take_all)
qed

lemma buffer_insert_spec:
  assumes ok: "buf_ok st" and nowrap: "unat pos + length xs < 2 ^ 64"
    and mem: "alloc (unat pos + length xs)" and ptr: "0 < b_capacity st"
  shows "\<exists>st' gap. buffer_insert alloc st pos xs (of_nat (length xs)) = Inr st' \<and> buf_ok st' \<and>
           b_ptr st' \<noteq> None \<and>
           length gap = unat pos - length (bytes st) \<and>
           bytes st' = overwrite (bytes st) (unat pos) gap xs"
proof -
  let ?n = "of_nat (length xs) :: size_t"
  define st1 where "st1 = (if b_capacity st \<le> pos + ?n
    then st\<lparr>b_capacity := pos + ?n,
            b_ptr := realloc_cells alloc 1 (b_ptr st) (unat (pos + ?n))\<rparr>
    else st)"
  have n: "unat ?n = length xs" using nowrap by simp
  have pn: "unat (pos + ?n) = unat pos + length xs"
    using nowrap n by (simp add: unat_add_nowrap)
  have "grow_ok st (unat pos + length xs) st1"
  proof (cases "b_capacity st \<le> pos + ?n")
    case True
    then show ?thesis
      using ok mem pn grow_ok_realloc [of st alloc "pos + ?n"]
      by (simp add: st1_def)
  next
    case False
    moreover have "grow_ok st (unat (b_capacity st)) st"
      using ok ptr by (rule grow_ok_keep)
    ultimately show ?thesis
      using pn by (auto simp: grow_ok_def st1_def word_le_nat_alt)
  qed
  then obtain cells where c: "b_ptr st1 = Some cells" "length cells = unat (b_capacity st1)"
      "unat pos + length xs \<le> length cells" "b_size st1 = b_size st"
      "take (unat (b_size st)) cells = bytes st"
    by (auto simp: grow_ok_def)
  let ?cells = "take (unat pos) cells @ xs @ drop (unat pos + length xs) cells"
  let ?size = "if b_size st < pos + ?n then pos + ?n else b_size st"
  let ?st' = "st1\<lparr>b_ptr := Some ?cells, b_size := ?size\<rparr>"
  let ?gap = "take (unat pos - unat (b_size st)) (drop (unat (b_size st)) cells)"
  have szle: "unat (b_size st) \<le> length cells"
    using c(5) length_bytes [OF ok] by (metis length_take min_def nat_le_linear)
  have size: "unat ?size = max (unat (b_size st)) (unat pos + length xs)"
    using pn by (auto simp: word_less_nat_alt max_def)
  have run: "buffer_insert alloc st pos xs ?n = Inr ?st'"
    using c n unfolding buffer_insert_def st1_def [symmetric] Let_def
    by (simp add: read_cells_def memcpy_cells_def)
  have ok': "buf_ok ?st'"
    using c size szle by (simp add: buf_ok_def word_le_nat_alt del: unat_eq_zero)
  have "bytes ?st' = overwrite (bytes st) (unat pos) ?gap xs"
    using take_overwrite_cells [OF c(3) szle] size
    by (simp add: bytes_Some c(5) del: take_append)
  with run ok' length_bytes [OF ok] c(3) szle show ?thesis
    by (intro exI [of _ ?st'] exI [of _ ?gap]) auto
qed

lemma buffer_push_spec:
  assumes ok: "buf_ok st" and nowrap: "2 * unat (b_capacity st) + 1 < 2 ^ 64"
    and mem: "alloc (2 * unat (b_capacity st) + 1)"
  shows "\<exists>st'. buffer_push alloc st c = Inr st' \<and> buf_ok st' \<and> bytes st' = bytes st @ [Some c]"
proof -
  let ?c = "b_capacity st * 2 + 1"
  define st1 where "st1 = (if b_capacity st \<le> b_size st
    then st\<lparr>b_capacity := ?c, b_ptr := realloc_cells alloc 1 (b_ptr st) (unat ?c)\<rparr> else st)"
  have cap: "unat ?c = 2 * unat (b_capacity st) + 1"
    using nowrap by (simp add: unat_word_ariths)
  have szcap: "unat (b_size st) \<le> unat (b_capacity st)"
    using ok by (auto simp: buf_ok_def word_le_nat_alt split: option.splits)
  have sz: "unat (b_size st + 1) = unat (b_size st) + 1"
    using szcap nowrap by (simp add: unat_add_nowrap)
  have "grow_ok st (unat (b_size st) + 1) st1"
  proof (cases "b_capacity st \<le> b_size st")
    case True
    have "grow_ok st (unat ?c) st1"
      using True ok mem cap grow_ok_realloc [of st alloc ?c]
      by (simp add: st1_def word_le_nat_alt)
    with szcap cap show ?thesis by (auto simp: grow_ok_def)
  next
    case False
    moreover have "grow_ok st (unat (b_capacity st)) st"
      using False ok by (intro grow_ok_keep) (auto simp: word_less_nat_alt word_le_nat_alt)
    ultimately show ?thesis by (auto simp: grow_ok_def st1_def word_le_nat_alt)
  qed
  then obtain cells where c: "b_ptr st1 = Some cells" "length cells = unat (b_capacity st1)"
      "unat (b_size st) < length cells" "b_size st1 = b_size st"
      "take (unat (b_size st)) cells = bytes st"
    by (auto simp: grow_ok_def)
  let ?st' = "st1\<lparr>b_ptr := Some (cells[unat (b_size st) := Some c]), b_size := b_size st + 1\<rparr>"
  have "buffer_push alloc st c = Inr ?st'"
    using c unfolding buffer_push_def st1_def [symmetric] Let_def
    by (simp add: write_cell_def)
  moreover have "buf_ok ?st'"
    using c sz by (simp add: buf_ok_def word_le_nat_alt)
  moreover have "bytes ?st' = bytes st @ [Some c]"
    using c sz by (simp add: bytes_Some take_Suc_conv_app_nth)
  ultimately show ?thesis by blast
qed

text \<open>
  A fresh buffer's block has never been written, so the gap is indeterminate: inserting into
  a fresh buffer at \<open>pos > 0\<close> makes the contents start with \<open>pos\<close> bytes of whatever the heap
  block held.
\<close>

lemma buffer_insert_fresh:
  assumes "alloc 100" "alloc (unat pos + length xs)" "unat pos + length xs < 2 ^ 64"
  shows "\<exists>st'. buffer_insert alloc (buffer_new alloc) pos xs (of_nat (length xs)) = Inr st' \<and>
           bytes st' = replicate (unat pos) None @ xs"
proof -
  let ?n = "of_nat (length xs) :: size_t"
  define m where "m = max 100 (unat pos + length xs)"
  have pn: "unat (pos + ?n) = unat pos + length xs"
    using assms by (simp add: unat_add_nowrap)
  have grown: "(if b_capacity (buffer_new alloc) \<le> pos + ?n
      then buffer_new alloc\<lparr>b_capacity := pos + ?n,
             b_ptr := realloc_cells alloc 1 (b_ptr (buffer_new alloc)) (unat (pos + ?n))\<rparr>
      else buffer_new alloc) =
      \<lparr>b_ptr = Some (replicate m None), b_capacity = max 100 (pos + ?n), b_size = 0\<rparr>"
    using assms pn
    by (auto simp: buffer_new_def realloc_cells_def m_def word_le_nat_alt max_def
        replicate_add [symmetric])
  have "0 < pos + ?n \<or> pos + ?n = 0" by (simp add: word_gt_0)
  then show ?thesis
  proof
    assume pos: "0 < pos + ?n"
    show ?thesis
      using assms(3) pn pos unfolding buffer_insert_def grown Let_def
      by (simp add: read_cells_def memcpy_cells_def m_def bytes_Some max_def)
  next
    assume "pos + ?n = 0"
    then have "unat pos = 0" "xs = []" using pn by auto
    then show ?thesis
      using grown unfolding buffer_insert_def Let_def
      by (auto simp: read_cells_def memcpy_cells_def bytes_def m_def)
  qed
qed

section \<open>Byte sinks\<close>

text \<open>
  What a consumer of a stream of chunks relies on: the sink can be appended to, until its
  limit, and keeps everything in order. \<open>deliver\<close> is the consumer: it hands over chunk after
  chunk and stops at the first failure.
\<close>

fun deliver :: "('b \<Rightarrow> 'c \<Rightarrow> cerror + 'b) \<Rightarrow> 'b \<Rightarrow> 'c list \<Rightarrow> cerror + 'b" where
  "deliver put b [] = Inr b"
| "deliver put b (x # xs) = cbind (put b x) (\<lambda>b'. deliver put b' xs)"

locale byte_sink =
  fixes put :: "'b \<Rightarrow> carr \<Rightarrow> cerror + 'b"
    and invar :: "'b \<Rightarrow> bool"
    and content :: "'b \<Rightarrow> carr"
    and limit :: nat
  assumes put_law:
    "invar b \<Longrightarrow> length (content b) + length xs \<le> limit \<Longrightarrow>
       \<exists>b'. put b xs = Inr b' \<and> invar b' \<and> content b' = content b @ xs"
begin

lemma deliver_concat:
  "invar b \<Longrightarrow> length (content b) + length (concat chunks) \<le> limit \<Longrightarrow>
     \<exists>b'. deliver put b chunks = Inr b' \<and> invar b' \<and> content b' = content b @ concat chunks"
proof (induction chunks arbitrary: b)
  case Nil
  then show ?case by simp
next
  case (Cons x xs)
  then obtain b' where b': "put b x = Inr b'" "invar b'" "content b' = content b @ x"
    using put_law [of b x] by auto
  with Cons.IH [of b'] Cons.prems(2) show ?case by simp
qed

end

definition sink_ok :: "(nat \<Rightarrow> bool) \<Rightarrow> nat \<Rightarrow> buffer \<Rightarrow> bool" where
  "sink_ok alloc L b \<longleftrightarrow> buf_ok b \<and> unat (b_capacity b) \<le> 100 + length (bytes b) \<and>
     L + 100 < 2 ^ 64 \<and> (\<forall>n \<le> L + 100. alloc n)"

interpretation buf: byte_sink "\<lambda>b xs. buffer_append alloc b xs (of_nat (length xs))"
  "sink_ok alloc L" bytes L for alloc L
proof unfold_locales
  fix alloc :: "nat \<Rightarrow> bool" and L :: nat and b :: buffer and xs :: carr
  assume ok: "sink_ok alloc L b" and fits: "length (bytes b) + length xs \<le> L"
  then obtain b' where "buffer_append alloc b xs (of_nat (length xs)) = Inr b'" "buf_ok b'"
      "bytes b' = bytes b @ xs" "unat (b_capacity b') \<le> unat (b_capacity b) + length xs"
    using buffer_append_spec [of b xs alloc] by (auto simp: sink_ok_def)
  with ok show "\<exists>b'. buffer_append alloc b xs (of_nat (length xs)) = Inr b' \<and>
      sink_ok alloc L b' \<and> bytes b' = bytes b @ xs"
    by (auto simp: sink_ok_def)
qed

lemma sink_ok_new: "L + 100 < 2 ^ 64 \<Longrightarrow> (\<forall>n \<le> L + 100. alloc n) \<Longrightarrow> sink_ok alloc L (buffer_new alloc)"
  using buf_ok_new [of alloc] by (auto simp: sink_ok_def buffer_new_def)

section \<open>Properties\<close>

text \<open>Appending to a well-formed buffer succeeds, keeps it well-formed, and its contents become
  the old contents followed by the new bytes, as long as the new capacity neither wraps nor is
  refused by the allocator.\<close>

theorem append_extends:
  assumes "buf_ok st" "unat (b_capacity st) + length xs < 2 ^ 64"
    "alloc (unat (b_capacity st) + length xs)"
  shows "\<exists>st'. buffer_append alloc st xs (of_nat (length xs)) = Inr st' \<and> buf_ok st' \<and>
    bytes st' = bytes st @ xs"
  using buffer_append_spec [of st xs alloc] assms by blast

theorem append_extends_witness:
  "\<exists>st'. buffer_append (\<lambda>_. True) (buffer_new (\<lambda>_. True)) [Some CHR ''a'', Some CHR ''b''] 2 = Inr st' \<and>
    buf_ok st' \<and> bytes st' = [Some CHR ''a'', Some CHR ''b'']"
  using append_extends [of "buffer_new (\<lambda>_. True)" "[Some CHR ''a'', Some CHR ''b'']" "\<lambda>_. True"]
    buf_ok_new [of "\<lambda>_. True"]
  by (simp add: buffer_new_def)



text \<open>Writing into a fresh buffer at a position past its start makes never-written heap bytes
  part of the contents: the first \<open>pos\<close> bytes are indeterminate, where a file system owes zeros.\<close>

theorem insert_gap_is_indeterminate:
  assumes "alloc 100" "alloc (unat pos + length xs)" "unat pos + length xs < 2 ^ 64"
  shows "\<exists>st'. buffer_insert alloc (buffer_new alloc) pos xs (of_nat (length xs)) = Inr st' \<and>
    bytes st' = replicate (unat pos) None @ xs"
  using assms by (rule buffer_insert_fresh)

theorem insert_gap_is_indeterminate_witness:
  "\<exists>st'. buffer_insert (\<lambda>_. True) (buffer_new (\<lambda>_. True)) 2 [Some CHR ''x''] 1 = Inr st' \<and>
    bytes st' = replicate 2 None @ [Some CHR ''x'']"
  using insert_gap_is_indeterminate [of "\<lambda>_. True" 2 "[Some CHR ''x'']"]
  by simp

end
