(* ===== verification/Json_Field.thy ===== *)
theory Json_Field
  imports Prelude
begin

text \<open>
  The two functions of \<^verbatim>\<open>src/buffer.c\<close> that read a field out of a JSON response by text
  search: \<^verbatim>\<open>parse_response_field_from_json\<close> and \<^verbatim>\<open>check_ok_status_in_json\<close>. The source string
  is a character array; a pointer into it is an index. The lemmas give the value a well-formed
  response yields, and what happens when the field is missing or too long.
\<close>

section \<open>The functions\<close>

abbreviation dquote :: char where "dquote \<equiv> CHR 0x22"

text \<open>
  \<open>p\<close> is the index after \<open>field\<close>, its closing quote and the colon. A missing field makes the
  pointer a null pointer plus an offset, which is then read. The count \<open>e - p - 2\<close> is turned
  into a \<^verbatim>\<open>size_t\<close>: below zero it exceeds every array.
\<close>

definition parse_response_field_from_json :: "carr \<Rightarrow> carr \<Rightarrow> string \<Rightarrow> cerror + carr \<times> int" where
  "parse_response_field_from_json dst src field =
     cbind (cstr src) (\<lambda>s.
       case strstr s field of
         None \<Rightarrow> Inl NullDeref
       | Some i \<Rightarrow>
           let p = i + length field + 2 in
           if length src \<le> p then Inl OutOfBounds
           else case src ! p of
             None \<Rightarrow> Inl Uninit
           | Some c \<Rightarrow>
               let is_quoted = (c = dquote) in
               cbind (cstr (drop p src)) (\<lambda>t.
                 case strpbrk t '',}'' of
                   None \<Rightarrow> Inr (dst, 1)
                 | Some n \<Rightarrow>
                     if is_quoted
                     then if n < 2 then Inl OutOfBounds
                          else cbind (strncpy dst (drop 1 t) (n - 2)) (\<lambda>d. Inr (d, 0))
                     else cbind (strncpy dst t n) (\<lambda>d. Inr (d, 0))))"

definition check_ok_status_in_json :: "carr \<Rightarrow> cerror + bool" where
  "check_ok_status_in_json json_response_buf =
     cbind (parse_response_field_from_json (zeros 100) json_response_buf ''ok'') (\<lambda>(is_ok, res).
       if res \<noteq> 0 then Inr False
       else strcmp_eq is_ok ''true'')"

section \<open>Where the field is\<close>

text \<open>
  \<open>field_at s field v post\<close>: the text after the first occurrence of \<open>field\<close>, its closing
  quote and the colon is \<open>v\<close>, then a comma or closing brace, then \<open>post\<close>; \<open>v\<close> has neither.
\<close>

definition field_at :: "string \<Rightarrow> string \<Rightarrow> string \<Rightarrow> bool" where
  "field_at s field v \<longleftrightarrow>
     (case strstr s field of
        None \<Rightarrow> False
      | Some i \<Rightarrow>
          (let r = drop (i + length field + 2) s
           in i + length field + 2 < length s \<and> length v < length r \<and> take (length v) r = v \<and>
              r ! length v \<in> set '',}'' \<and> (\<forall>c \<in> set v. c \<notin> set '',}'')))"

lemma field_atE:
  assumes "field_at s field v"
  obtains i d post where "strstr s field = Some i"
    "drop (i + length field + 2) s = v @ d # post" "d \<in> set '',}''"
    "\<forall>c \<in> set v. c \<notin> set '',}''"
proof -
  from assms obtain i where i: "strstr s field = Some i"
    by (cases "strstr s field") (simp_all add: field_at_def)
  from assms have r: "length v < length (drop (i + length field + 2) s)"
      "take (length v) (drop (i + length field + 2) s) = v"
      "drop (i + length field + 2) s ! length v \<in> set '',}''" "\<forall>c \<in> set v. c \<notin> set '',}''"
    unfolding field_at_def Let_def i option.case by blast+
  have "drop (i + length field + 2) s =
      v @ drop (i + length field + 2) s ! length v # drop (Suc (length v)) (drop (i + length field + 2) s)"
    using id_take_nth_drop [OF r(1)] unfolding r(2) .
  with i r(3,4) that show ?thesis by blast
qed

text \<open>Reading an array that holds the text \<open>s\<close>, from an index inside \<open>s\<close>.\<close>

lemma cstr_drop:
  assumes "cstr src = Inr s" "p \<le> length s"
  shows "cstr (drop p src) = Inr (drop p s)"
proof -
  from assms(1) obtain xs where "src = map Some s @ Some NUL # xs" "c_string s"
    by (auto simp: cstr_Inr_iff)
  moreover from this have "c_string (drop p s)"
    by (auto simp: c_string_def dest: in_set_dropD)
  ultimately show ?thesis
    using assms(2) by (simp add: cstr_append_NUL drop_map)
qed

lemma cstr_nth: "cstr src = Inr s \<Longrightarrow> p < length s \<Longrightarrow> src ! p = Some (s ! p)"
  by (auto simp: cstr_Inr_iff nth_append)

lemma parse_field_step:
  assumes "cstr src = Inr s" "field_at s field v"
  shows "parse_response_field_from_json dst src field =
     (if v = [] then cbind (strncpy dst v 0) (\<lambda>d. Inr (d, 0))
      else if hd v = dquote
      then if length v < 2 then Inl OutOfBounds
           else cbind (strncpy dst (butlast (tl v)) (length v - 2)) (\<lambda>d. Inr (d, 0))
      else cbind (strncpy dst v (length v)) (\<lambda>d. Inr (d, 0)))"
proof -
  from assms(2) obtain i d post where at: "strstr s field = Some i"
    "drop (i + length field + 2) s = v @ d # post" "d \<in> set '',}''" "\<forall>c \<in> set v. c \<notin> set '',}''"
    by (rule field_atE)
  define p where "p = i + length field + 2"
  have ps: "p < length s" using at(2) unfolding p_def by (metis append_is_Nil_conv drop_all
        linorder_not_le list.distinct(1))
  have src: "p < length src" using ps cstr_length_less [OF assms(1)] by simp
  have sp: "src ! p = Some ((v @ d # post) ! 0)"
    using cstr_nth [OF assms(1) ps] at(2) ps unfolding p_def
    by (metis add.right_neutral less_imp_le nth_drop)
  have dp: "cstr (drop p src) = Inr (v @ d # post)"
    using cstr_drop [OF assms(1)] ps at(2) by (simp add: p_def)
  have br: "strpbrk (v @ d # post) '',}'' = Some (length v)"
    using at(3,4) by (intro strpbrk_first) auto
  have nq: "d \<noteq> dquote" using at(3) by auto
  have cut: "strncpy dst (drop 1 (v @ d # post)) (length v - 2) =
      strncpy dst (butlast (tl v)) (length v - 2)" if "2 \<le> length v"
    using that by (cases v) (auto simp: strncpy_def take_butlast butlast_conv_take)
  have all: "strncpy dst (v @ d # post) (length v) = strncpy dst v (length v)"
    by (simp add: strncpy_def)
  show ?thesis
    unfolding parse_response_field_from_json_def assms(1) cbind_simps at(1) option.case
      Let_def p_def [symmetric] sp dp br
    using src nq cut all by (cases v) (simp_all add: not_le Suc_le_eq)
qed

section \<open>Well-formed fields\<close>

lemma strncpy_exact:
  "length v \<le> length dst \<Longrightarrow> strncpy dst v (length v) = Inr (map Some v @ drop (length v) dst)"
  by (simp add: strncpy_def memcpy_cells_def zeros_def)

lemma parse_quoted_field:
  assumes "cstr src = Inr s" "field_at s field (dquote # v @ [dquote])" "length v \<le> length dst"
  shows "parse_response_field_from_json dst src field = Inr (map Some v @ drop (length v) dst, 0)"
  using assms(3) by (simp add: parse_field_step [OF assms(1,2)] strncpy_exact)

lemma parse_plain_field:
  assumes "cstr src = Inr s" "field_at s field v" "v \<noteq> []" "hd v \<noteq> dquote"
    "length v \<le> length dst"
  shows "parse_response_field_from_json dst src field = Inr (map Some v @ drop (length v) dst, 0)"
  using assms(3-5) by (simp add: parse_field_step [OF assms(1,2)] strncpy_exact)

lemma parse_long_field:
  assumes "cstr src = Inr s" "field_at s field (dquote # v @ [dquote])" "length dst < length v"
  shows "parse_response_field_from_json dst src field = Inl OutOfBounds"
  using assms(3) by (simp add: parse_field_step [OF assms(1,2)] strncpy_def memcpy_cells_def)

lemma parse_missing_field:
  assumes "cstr src = Inr s" "strstr s field = None"
  shows "parse_response_field_from_json dst src field = Inl NullDeref"
  using assms by (simp add: parse_response_field_from_json_def)

lemma cstr_parsed_zeros:
  assumes "c_string v" "length v < n"
  shows "cstr (map Some v @ drop (length v) (zeros n)) = Inr v"
proof -
  have "drop (length v) (zeros n) = Some NUL # zeros (n - Suc (length v))"
    using assms(2) by (simp add: zeros_def Suc_diff_Suc flip: replicate_Suc)
  then show ?thesis using assms(1) by (simp add: cstr_append_NUL)
qed

lemma field_at_c_string:
  assumes "c_string s" "field_at s field v"
  shows "c_string v"
proof -
  from assms(2) obtain i d post where "drop (i + length field + 2) s = v @ d # post"
    by (rule field_atE)
  then have "set v \<subseteq> set s"
    by (metis Un_upper1 set_append set_drop_subset subset_trans)
  with assms(1) show ?thesis by (auto simp: c_string_def)
qed

lemma check_ok_plain:
  assumes "cstr J = Inr s" "field_at s ''ok'' v" "v \<noteq> []" "hd v \<noteq> dquote" "length v < 100"
  shows "check_ok_status_in_json J = Inr (v = ''true'')"
proof -
  have "c_string v"
    using assms(1,2) field_at_c_string by (auto simp: cstr_Inr_iff)
  then have "cstr (map Some v @ drop (length v) (zeros 100)) = Inr v"
    using assms(5) by (rule cstr_parsed_zeros)
  then show ?thesis
    using parse_plain_field [OF assms(1-4), of "zeros 100"] assms(5)
    by (simp add: check_ok_status_in_json_def strcmp_eq_def)
qed

section \<open>Properties\<close>


definition sample_reply :: string where
  "sample_reply = ''{'' @ [dquote] @ ''ok'' @ [dquote] @ '':true,'' @ [dquote] @ ''result'' @ [dquote] @ '':{'' @
     [dquote] @ ''message_id'' @ [dquote] @ '':17,'' @
     [dquote] @ ''file_id'' @ [dquote] @ '':'' @ [dquote] @ ''AbC'' @ [dquote] @ '',x}}''"


text \<open>When the response does not contain the field, the null pointer \<^verbatim>\<open>strstr\<close> returns is
  advanced and dereferenced: the program crashes.\<close>

theorem missing_field_crashes:
  assumes "cstr src = Inr s" "strstr s field = None"
  shows "parse_response_field_from_json dst src field = Inl NullDeref"
  using parse_missing_field [OF assms] .

theorem missing_field_crashes_witness:
  "parse_response_field_from_json (zeros 10) [Some CHR ''{'', Some CHR ''}'', Some NUL] ''ok'' = Inl NullDeref"
  by (rule missing_field_crashes [of _ "''{}''"]) simp_all

text \<open>A string longer than the destination array is written past its end.\<close>

theorem long_field_overflows:
  assumes "cstr src = Inr s" "field_at s field (dquote # v @ [dquote])" "length dst < length v"
  shows "parse_response_field_from_json dst src field = Inl OutOfBounds"
  using parse_long_field [OF assms] .

theorem long_field_overflows_witness:
  "parse_response_field_from_json (zeros 2) (map Some sample_reply @ [Some NUL]) ''file_id'' = Inl OutOfBounds"
proof (rule long_field_overflows)
  show "cstr (map Some sample_reply @ [Some NUL]) = Inr sample_reply"
    by (rule cstr_append_NUL) (simp add: c_string_def sample_reply_def)
  show "field_at sample_reply ''file_id'' (dquote # ''AbC'' @ [dquote])" by code_simp
qed simp

end
