(* ===== verification/Tg_File.thy ===== *)
theory Tg_File
  imports Buffer Json_Field
begin

text \<open>
  Configuration and file records (\<^verbatim>\<open>src/tg_config.c\<close>, \<^verbatim>\<open>src/tg_file.c\<close>): the structs, the
  constructors, the two path helpers, the write callbacks handed to libcurl, and the three
  exchanges with the Telegram server (upload, download, delete).

  libcurl and the server are not part of the program: they are the record \<open>env\<close>, an argument
  of every operation that talks to them. \<open>e_perform\<close> maps a request and the state \<open>'w\<close> of the
  outside world to a result code, the chunks handed to the write callback, and the new state.
\<close>

section \<open>Structs\<close>

record tg_config =
  cfg_chat_id :: carr
  cfg_token :: carr

datatype tg_file_type = TG_FILE | TG_DIR

record tg_file =
  tf_path :: carr
  tf_file_id :: carr
  tf_message_id :: carr
  tf_file_size :: size_t
  tf_type :: tg_file_type

definition CHAT_ID_SIZE :: nat where "CHAT_ID_SIZE = 100"
definition TOKEN_SIZE :: nat where "TOKEN_SIZE = 100"
definition FILE_ID_SIZE :: nat where "FILE_ID_SIZE = 100"
definition MESSAGE_ID_SIZE :: nat where "MESSAGE_ID_SIZE = 100"
definition FILE_PATH_SIZE :: nat where "FILE_PATH_SIZE = 100"
definition JSON_RESPONSE_BUF_SIZE :: nat where "JSON_RESPONSE_BUF_SIZE = 1024"
definition URL_SIZE :: nat where "URL_SIZE = 1000"

lemmas size_consts = CHAT_ID_SIZE_def TOKEN_SIZE_def FILE_ID_SIZE_def MESSAGE_ID_SIZE_def
  FILE_PATH_SIZE_def JSON_RESPONSE_BUF_SIZE_def URL_SIZE_def

definition tg_config_new :: "string \<Rightarrow> string \<Rightarrow> cerror + tg_config" where
  "tg_config_new chat_id token =
     cbind (strcpy (replicate CHAT_ID_SIZE None) chat_id) (\<lambda>c.
     cbind (strcpy (replicate TOKEN_SIZE None) token) (\<lambda>t.
     Inr \<lparr>cfg_chat_id = c, cfg_token = t\<rparr>))"

text \<open>\<^verbatim>\<open>(tg_file){0}\<close>: every byte zero, and the first enumerator as the type.\<close>

definition tg_file_zero :: tg_file where
  "tg_file_zero = \<lparr>tf_path = zeros FILE_PATH_SIZE, tf_file_id = zeros FILE_ID_SIZE,
     tf_message_id = zeros MESSAGE_ID_SIZE, tf_file_size = 0, tf_type = TG_FILE\<rparr>"

definition tg_file_new_file :: "string \<Rightarrow> size_t \<Rightarrow> cerror + tg_file" where
  "tg_file_new_file path file_size =
     (let file = tg_file_zero\<lparr>tf_type := TG_FILE, tf_file_size := file_size\<rparr>
      in cbind (strcpy (tf_path file) path) (\<lambda>p. Inr (file\<lparr>tf_path := p\<rparr>)))"

definition tg_file_new_dir :: "string \<Rightarrow> cerror + tg_file" where
  "tg_file_new_dir path =
     (let file = tg_file_zero\<lparr>tf_type := TG_DIR\<rparr>
      in cbind (strcpy (tf_path file) path) (\<lambda>p. Inr (file\<lparr>tf_path := p\<rparr>)))"

section \<open>Path helpers\<close>

abbreviation slash :: char where "slash \<equiv> CHR 0x2F"

definition tg_file_extract_filename :: "carr \<Rightarrow> tg_file \<Rightarrow> cerror + carr" where
  "tg_file_extract_filename dst file =
     cbind (cstr (tf_path file)) (\<lambda>p.
       case strrchr p slash of
         None \<Rightarrow> Inl NullDeref
       | Some ptr \<Rightarrow>
           let n = length p - ptr in
           cbind (read_cells (tf_path file) (ptr + 1) n) (\<lambda>src.
           cbind (memcpy_cells dst 0 src) (\<lambda>dst'.
           write_cell dst' n NUL)))"

definition tg_file_extract_directory :: "carr \<Rightarrow> tg_file \<Rightarrow> cerror + carr" where
  "tg_file_extract_directory dst file =
     cbind (cstr (tf_path file)) (\<lambda>p.
       case strchr p slash of
         None \<Rightarrow> Inl NullDeref
       | Some start \<Rightarrow>
           (case strchr (drop (start + 1) p) slash of
              None \<Rightarrow> cbind (write_cell dst 0 slash) (\<lambda>d. write_cell d 1 NUL)
            | Some k \<Rightarrow>
                let n = k + 1 in
                cbind (read_cells (tf_path file) start n) (\<lambda>src.
                cbind (memcpy_cells dst 0 src) (\<lambda>dst'.
                write_cell dst' n NUL))))"

section \<open>libcurl and the server\<close>

type_synonym CURLcode = nat

definition CURLE_OK :: CURLcode where "CURLE_OK = 0"

record mimepart =
  mp_name :: string
  mp_data :: carr
  mp_filename :: string

record request =
  rq_url :: string
  rq_mime :: "mimepart option"

record 'w env =
  e_alloc :: "nat \<Rightarrow> bool"
  e_init :: "'w \<Rightarrow> bool"
  e_mime_name :: "'w \<Rightarrow> CURLcode"
  e_mime_data :: "'w \<Rightarrow> CURLcode"
  e_mime_filename :: "'w \<Rightarrow> CURLcode"
  e_perform :: "request \<Rightarrow> 'w \<Rightarrow> CURLcode \<times> string list \<times> 'w"

definition abort_if_error :: "CURLcode \<Rightarrow> cerror + unit" where
  "abort_if_error code = (if code \<noteq> CURLE_OK then Inl AssertFail else Inr ())"

definition curl_response_file_writer ::
    "(nat \<Rightarrow> bool) \<Rightarrow> carr \<Rightarrow> size_t \<Rightarrow> size_t \<Rightarrow> buffer \<Rightarrow> cerror + buffer \<times> size_t" where
  "curl_response_file_writer alloc data sz nmemb p =
     cbind (buffer_append alloc p data (sz * nmemb)) (\<lambda>p'. Inr (p', sz * nmemb))"

definition curl_response_json_writer ::
    "carr \<Rightarrow> size_t \<Rightarrow> size_t \<Rightarrow> carr \<Rightarrow> cerror + carr \<times> size_t" where
  "curl_response_json_writer data sz nmemb p =
     cbind (read_cells data 0 (unat (sz * nmemb))) (\<lambda>src.
     cbind (memcpy_cells p 0 src) (\<lambda>p'. Inr (p', sz * nmemb)))"

text \<open>
  libcurl calls the write callback once per chunk with \<open>size = 1\<close>; both callbacks of the
  program report the whole chunk as taken, so the transfer goes on to the next chunk.
\<close>

definition put_file_chunk :: "(nat \<Rightarrow> bool) \<Rightarrow> buffer \<Rightarrow> string \<Rightarrow> cerror + buffer" where
  "put_file_chunk alloc p c =
     cbind (curl_response_file_writer alloc (map Some c) 1 (of_nat (length c)) p)
       (\<lambda>(p', n). Inr p')"

definition put_json_chunk :: "carr \<Rightarrow> string \<Rightarrow> cerror + carr" where
  "put_json_chunk p c =
     cbind (curl_response_json_writer (map Some c) 1 (of_nat (length c)) p) (\<lambda>(p', n). Inr p')"

definition perform_json ::
    "'w env \<Rightarrow> request \<Rightarrow> carr \<Rightarrow> 'w \<Rightarrow> cerror + CURLcode \<times> carr \<times> 'w" where
  "perform_json env rq J w =
     (case e_perform env rq w of (code, chunks, w') \<Rightarrow>
        cbind (deliver put_json_chunk J chunks) (\<lambda>J'. Inr (code, J', w')))"

definition perform_file ::
    "'w env \<Rightarrow> request \<Rightarrow> buffer \<Rightarrow> 'w \<Rightarrow> cerror + CURLcode \<times> buffer \<times> 'w" where
  "perform_file env rq b w =
     (case e_perform env rq w of (code, chunks, w') \<Rightarrow>
        cbind (deliver (put_file_chunk (e_alloc env)) b chunks) (\<lambda>b'. Inr (code, b', w')))"

definition sprintf_url :: "string \<Rightarrow> cerror + string" where
  "sprintf_url s = (if length s < URL_SIZE then Inr s else Inl OutOfBounds)"

section \<open>Exchanges\<close>

text \<open>The \<^verbatim>\<open>sendDocument\<close> branch of \<^verbatim>\<open>tg_put_file\<close>. The result code of the transfer is
  not looked at; whatever the response buffer holds is checked and parsed.\<close>

definition tg_put_file_send ::
    "'w env \<Rightarrow> tg_file \<Rightarrow> tg_config \<Rightarrow> mimepart \<Rightarrow> carr \<Rightarrow> 'w \<Rightarrow>
       cerror + tg_file \<times> carr \<times> 'w" where
  "tg_put_file_send env file config part J w =
     cbind (tg_file_extract_directory (replicate 100 None) file) (\<lambda>dirbuf.
     cbind (cstr (cfg_token config)) (\<lambda>token.
     cbind (cstr (cfg_chat_id config)) (\<lambda>chat_id.
     cbind (cstr dirbuf) (\<lambda>directory.
     cbind (sprintf_url (''https://api.telegram.org/bot'' @ token @ ''/sendDocument?chat_id='' @
              chat_id @ ''&caption='' @ directory)) (\<lambda>url.
     cbind (perform_json env \<lparr>rq_url = url, rq_mime = Some part\<rparr> J w) (\<lambda>(code, J', w').
     cbind (check_ok_status_in_json J') (\<lambda>ok.
       if \<not> ok then Inr (file, J', w')
       else
         cbind (parse_response_field_from_json (tf_file_id file) J' ''file_id'') (\<lambda>(fid, r).
         cbind (parse_response_field_from_json (tf_message_id file) J' ''message_id'') (\<lambda>(mid, r').
         Inr (file\<lparr>tf_file_id := fid, tf_message_id := mid\<rparr>, J', w'))))))))))"

definition media_text :: string where
  "media_text = ''{'' @ [dquote] @ ''type'' @ [dquote] @ '':'' @ [dquote] @ ''document'' @ [dquote] @
     '','' @ [dquote] @ ''media'' @ [dquote] @ '':'' @ [dquote] @ ''attach://document'' @ [dquote] @ ''}''"

text \<open>The \<^verbatim>\<open>editMessageMedia\<close> branch.\<close>

definition tg_put_file_edit ::
    "'w env \<Rightarrow> tg_file \<Rightarrow> tg_config \<Rightarrow> mimepart \<Rightarrow> carr \<Rightarrow> 'w \<Rightarrow>
       cerror + tg_file \<times> carr \<times> 'w" where
  "tg_put_file_edit env file config part J w =
     cbind (tg_file_extract_directory (replicate 100 None) file) (\<lambda>dirbuf.
     cbind (cstr (cfg_token config)) (\<lambda>token.
     cbind (cstr (cfg_chat_id config)) (\<lambda>chat_id.
     cbind (cstr (tf_message_id file)) (\<lambda>message_id.
     cbind (cstr dirbuf) (\<lambda>directory.
     cbind (sprintf_url (''https://api.telegram.org/bot'' @ token @ ''/editMessageMedia?chat_id='' @
              chat_id @ ''&message_id='' @ message_id @ ''&media='' @ media_text @
              ''&caption='' @ directory)) (\<lambda>url.
     cbind (perform_json env \<lparr>rq_url = url, rq_mime = Some part\<rparr> J w) (\<lambda>(code, J', w').
       if code \<noteq> CURLE_OK then Inl AssertFail
       else cbind (check_ok_status_in_json J') (\<lambda>ok.
         if \<not> ok then Inr (file, J', w')
         else
           cbind (parse_response_field_from_json (zeros FILE_ID_SIZE) J' ''file_id'') (\<lambda>(fid, r).
           Inr (file\<lparr>tf_file_id := fid\<rparr>, J', w'))))))))))"

definition tg_put_file ::
    "'w env \<Rightarrow> tg_file \<Rightarrow> tg_config \<Rightarrow> buffer \<Rightarrow> carr \<Rightarrow> 'w \<Rightarrow>
       cerror + tg_file \<times> carr \<times> 'w" where
  "tg_put_file env file config data J w =
     (if \<not> e_init env w then Inl AssertFail
      else
        cbind (abort_if_error (e_mime_name env w)) (\<lambda>_.
        cbind (abort_if_error (e_mime_data env w)) (\<lambda>_.
        cbind (tg_file_extract_filename (replicate 100 None) file) (\<lambda>filebuf.
        cbind (cstr filebuf) (\<lambda>filename.
        cbind (abort_if_error (e_mime_filename env w)) (\<lambda>_.
        cbind (cstr (tf_file_id file)) (\<lambda>file_id.
          let part = \<lparr>mp_name = ''document'', mp_data = bytes data, mp_filename = filename\<rparr> in
          if file_id = []
          then tg_put_file_send env file config part J w
          else tg_put_file_edit env file config part J w)))))))"

definition tg_file_load_contents ::
    "'w env \<Rightarrow> tg_config \<Rightarrow> tg_file \<Rightarrow> carr \<Rightarrow> 'w \<Rightarrow> cerror + buffer \<times> carr \<times> 'w" where
  "tg_file_load_contents env config src J w =
     (let J0 = zeros JSON_RESPONSE_BUF_SIZE;
          file_response_buf = buffer_new (e_alloc env)
      in if \<not> e_init env w then Inr (file_response_buf, J0, w)
         else
           cbind (cstr (cfg_token config)) (\<lambda>token.
           cbind (cstr (tf_file_id src)) (\<lambda>file_id.
           cbind (sprintf_url (''https://api.telegram.org/bot'' @ token @ ''/getFile?file_id='' @ file_id)) (\<lambda>url.
           cbind (perform_json env \<lparr>rq_url = url, rq_mime = None\<rparr> J0 w) (\<lambda>(code, J1, w1).
             if code \<noteq> CURLE_OK then Inr (file_response_buf, J1, w1)
             else cbind (check_ok_status_in_json J1) (\<lambda>ok.
               if \<not> ok then Inr (file_response_buf, J1, w1)
               else
                 cbind (parse_response_field_from_json (zeros FILE_PATH_SIZE) J1 ''file_path'') (\<lambda>(fp, r).
                 cbind (cstr fp) (\<lambda>file_path.
                 cbind (sprintf_url (''https://api.telegram.org/file/bot'' @ token @ ''/'' @ file_path)) (\<lambda>url2.
                 cbind (perform_file env \<lparr>rq_url = url2, rq_mime = None\<rparr>
                          (buffer_new (e_alloc env)) w1) (\<lambda>(code2, b, w2).
                 Inr (b, J1, w2)))))))))))"

definition tg_remove_message_with_file ::
    "'w env \<Rightarrow> tg_config \<Rightarrow> tg_file \<Rightarrow> carr \<Rightarrow> 'w \<Rightarrow> cerror + int \<times> carr \<times> 'w" where
  "tg_remove_message_with_file env config file J w =
     (if \<not> e_init env w then Inl AssertFail
      else
        cbind (cstr (cfg_token config)) (\<lambda>token.
        cbind (cstr (cfg_chat_id config)) (\<lambda>chat_id.
        cbind (cstr (tf_message_id file)) (\<lambda>message_id.
        cbind (sprintf_url (''https://api.telegram.org/bot'' @ token @ ''/deleteMessage?chat_id='' @
                 chat_id @ ''&message_id='' @ message_id)) (\<lambda>url.
        cbind (perform_json env \<lparr>rq_url = url, rq_mime = None\<rparr> J w) (\<lambda>(code, J', w').
          if code \<noteq> CURLE_OK then Inr (0, J', w')
          else cbind (check_ok_status_in_json J') (\<lambda>ok. Inr (0, J', w'))))))))"

section \<open>Well-formed records\<close>

definition text_of :: "carr \<Rightarrow> string" where
  "text_of a = (case cstr a of Inl e \<Rightarrow> [] | Inr s \<Rightarrow> s)"

definition arr_ok :: "nat \<Rightarrow> carr \<Rightarrow> bool" where
  "arr_ok n a \<longleftrightarrow> length a = n \<and> cstr a = Inr (text_of a)"

abbreviation fpath :: "tg_file \<Rightarrow> string" where "fpath f \<equiv> text_of (tf_path f)"
abbreviation fid :: "tg_file \<Rightarrow> string" where "fid f \<equiv> text_of (tf_file_id f)"
abbreviation fmid :: "tg_file \<Rightarrow> string" where "fmid f \<equiv> text_of (tf_message_id f)"

definition abs_path :: "string \<Rightarrow> bool" where
  "abs_path p \<longleftrightarrow> c_string p \<and> length p < FILE_PATH_SIZE \<and> (\<exists>q. p = slash # q)"

definition file_ok :: "tg_file \<Rightarrow> bool" where
  "file_ok f \<longleftrightarrow> arr_ok FILE_PATH_SIZE (tf_path f) \<and> length (tf_file_id f) = FILE_ID_SIZE \<and>
     length (tf_message_id f) = MESSAGE_ID_SIZE \<and> abs_path (fpath f)"

text \<open>The server chooses the ids; that they are terminated is not guaranteed by the code.\<close>

definition ids_ok :: "tg_file \<Rightarrow> bool" where
  "ids_ok f \<longleftrightarrow> arr_ok FILE_ID_SIZE (tf_file_id f) \<and> arr_ok MESSAGE_ID_SIZE (tf_message_id f)"

lemma file_ok_size_irrelevant [simp]:
  "file_ok (f\<lparr>tf_file_size := n\<rparr>) = file_ok f" "ids_ok (f\<lparr>tf_file_size := n\<rparr>) = ids_ok f"
  by (simp_all add: file_ok_def ids_ok_def)

text \<open>Arrays that were never written hold a parsed value exactly.\<close>

definition fresh_ids :: "tg_file \<Rightarrow> bool" where
  "fresh_ids f \<longleftrightarrow> tf_file_id f = zeros 100 \<and> tf_message_id f = zeros 100"

definition config_ok :: "tg_config \<Rightarrow> bool" where
  "config_ok c \<longleftrightarrow> arr_ok CHAT_ID_SIZE (cfg_chat_id c) \<and> arr_ok TOKEN_SIZE (cfg_token c)"

lemma text_of_cstr: "cstr a = Inr s \<Longrightarrow> text_of a = s"
  by (simp add: text_of_def)

lemma arr_okI: "cstr a = Inr s \<Longrightarrow> length a = n \<Longrightarrow> arr_ok n a"
  by (simp add: arr_ok_def text_of_def)

lemma arr_ok_cstr: "arr_ok n a \<Longrightarrow> cstr a = Inr (text_of a)"
  by (simp add: arr_ok_def)

lemma arr_ok_bound: "arr_ok n a \<Longrightarrow> length (text_of a) < n"
  by (auto simp: arr_ok_def dest: cstr_length_less)

lemma arr_ok_zeros [simp]: "0 < n \<Longrightarrow> arr_ok n (zeros n)"
  by (rule arr_okI [of _ "[]"]) simp_all

lemma text_of_zeros [simp]: "0 < n \<Longrightarrow> text_of (zeros n) = []"
  by (simp add: text_of_def)

lemma fresh_ids_ok: "fresh_ids f \<Longrightarrow> ids_ok f \<and> fid f = [] \<and> fmid f = []"
  by (simp add: fresh_ids_def ids_ok_def size_consts)

lemma arr_ok_strcpy:
  assumes "length s < length dst" "c_string s"
  shows "\<exists>a. strcpy dst s = Inr a \<and> arr_ok (length dst) a \<and> text_of a = s"
proof -
  obtain a where a: "strcpy dst s = Inr a" using strcpy_Inr [OF assms(1)] by blast
  then show ?thesis
    using assms cstr_strcpy length_strcpy by (metis arr_okI text_of_cstr)
qed

lemma tg_config_new_ok:
  assumes "length chat_id < CHAT_ID_SIZE" "length token < TOKEN_SIZE" "c_string chat_id" "c_string token"
  shows "\<exists>c. tg_config_new chat_id token = Inr c \<and> config_ok c \<and>
           text_of (cfg_chat_id c) = chat_id \<and> text_of (cfg_token c) = token"
  using arr_ok_strcpy [of chat_id "replicate CHAT_ID_SIZE None"]
    arr_ok_strcpy [of token "replicate TOKEN_SIZE None"] assms
  by (auto simp: tg_config_new_def config_ok_def)

lemma tg_file_new_file_ok:
  assumes "abs_path p"
  shows "\<exists>f. tg_file_new_file p n = Inr f \<and> file_ok f \<and> fpath f = p \<and> fresh_ids f \<and>
           tf_file_size f = n \<and> tf_type f = TG_FILE"
  using assms arr_ok_strcpy [of p "zeros FILE_PATH_SIZE"]
  by (auto simp: tg_file_new_file_def tg_file_zero_def file_ok_def abs_path_def size_consts fresh_ids_def)

lemma tg_file_new_dir_ok:
  assumes "abs_path p"
  shows "\<exists>f. tg_file_new_dir p = Inr f \<and> file_ok f \<and> fpath f = p \<and> fresh_ids f \<and>
           tf_file_size f = 0 \<and> tf_type f = TG_DIR"
  using assms arr_ok_strcpy [of p "zeros FILE_PATH_SIZE"]
  by (auto simp: tg_file_new_dir_def tg_file_zero_def file_ok_def abs_path_def size_consts fresh_ids_def)

lemma new_file_long_path:
  assumes "FILE_PATH_SIZE \<le> length p"
  shows "tg_file_new_file p n = Inl OutOfBounds" "tg_file_new_dir p = Inl OutOfBounds"
  using assms by (simp_all add: tg_file_new_file_def tg_file_new_dir_def tg_file_zero_def strcpy_overflow)

section \<open>Base name and top-level directory\<close>

definition base_name :: "string \<Rightarrow> string" where
  "base_name p = rev (takeWhile (\<lambda>c. c \<noteq> slash) (rev p))"

definition top_dir :: "string \<Rightarrow> string" where
  "top_dir p = (if slash \<in> set (tl p) then slash # takeWhile (\<lambda>c. c \<noteq> slash) (tl p) else [slash])"

lemma base_name_split: "slash \<notin> set n \<Longrightarrow> base_name (d @ slash # n) = n"
  by (simp add: base_name_def)

lemma top_dir_root [simp]: "top_dir [slash] = [slash]"
  by (simp add: top_dir_def)

lemma top_dir_entry: "slash \<notin> set n \<Longrightarrow> top_dir (slash # n) = [slash]"
  by (simp add: top_dir_def)

lemma top_dir_nested: "slash \<notin> set d \<Longrightarrow> top_dir (slash # d @ slash # n) = slash # d"
  by (simp add: top_dir_def)

lemma length_top_dir: "p = slash # q \<Longrightarrow> length (top_dir p) \<le> length p"
  using length_takeWhile_le [of "\<lambda>c. c \<noteq> slash" q] by (simp add: top_dir_def)

lemma write_cell_NUL_text:
  assumes "memcpy_cells dst 0 (map Some s) = Inr d" "length s < length dst" "c_string s"
  shows "\<exists>d'. write_cell d (length s) NUL = Inr d' \<and> cstr d' = Inr s \<and> length d' = length dst"
proof -
  from assms(1,2) have d: "d = map Some s @ drop (length s) dst"
    by (simp add: memcpy_cells_Inr)
  from assms(2) have "drop (length s) dst \<noteq> []" by simp
  then have "d[length s := Some NUL] = map Some s @ Some NUL # tl (drop (length s) dst)"
    by (cases "drop (length s) dst") (simp_all add: d list_update_append)
  moreover have "length d = length dst" using assms(2) d by simp
  ultimately show ?thesis
    using assms(2,3) by (simp add: write_cell_def cstr_append_NUL)
qed

text \<open>
  The file name copy takes the terminator along and then writes a second one, so the array
  must have two cells more than the name: with a path that fits its own array, 100 are enough.
\<close>

lemma extract_filename_ok:
  assumes "file_ok f" "length dst = 100"
  shows "\<exists>d. tg_file_extract_filename dst f = Inr d \<and> cstr d = Inr (base_name (fpath f)) \<and> length d = 100"
proof -
  from assms(1) have c: "cstr (tf_path f) = Inr (fpath f)" and len: "length (tf_path f) = 100"
    and p: "\<exists>q. fpath f = slash # q" "length (fpath f) < 100"
    by (auto simp: file_ok_def arr_ok_def abs_path_def size_consts)
  from p(1) have "slash \<in> set (fpath f)" by auto
  then obtain t u where tu: "fpath f = t @ slash # u" "slash \<notin> set u"
    by (meson split_list_last)
  then have r: "strrchr (fpath f) slash = Some (length t)" by (auto simp: strrchr_Some)
  from cstr_Inr_decomp [OF c] obtain xs where xs: "tf_path f = map Some (t @ slash # u) @ Some NUL # xs"
    and nn: "c_string (fpath f)" unfolding tu(1) by blast
  have n: "length (fpath f) - length t = Suc (length u)" using tu(1) by simp
  have src: "read_cells (tf_path f) (length t + 1) (Suc (length u)) = Inr (map Some u @ [Some NUL])"
    by (simp add: read_cells_def xs)
  have fits: "Suc (length u) < 100" using tu(1) p(2) by simp
  let ?d = "map Some u @ Some NUL # drop (Suc (length u)) dst"
  have cp: "memcpy_cells dst 0 (map Some u @ [Some NUL]) = Inr ?d"
    using assms(2) fits by (simp add: memcpy_cells_def)
  have u: "c_string u" using nn tu(1) by (simp add: c_string_def)
  have "?d[Suc (length u) := Some NUL] = map Some u @ Some NUL # (drop (Suc (length u)) dst)[0 := Some NUL]"
    by (simp add: list_update_append)
  then have "tg_file_extract_filename dst f =
      Inr (map Some u @ Some NUL # (drop (Suc (length u)) dst)[0 := Some NUL])"
    using assms(2) fits
    by (simp add: tg_file_extract_filename_def c r Let_def n src [simplified] cp write_cell_def)
  then show ?thesis
    using tu u assms(2) fits by (simp add: base_name_split cstr_append_NUL)
qed

lemma extract_directory_ok:
  assumes "file_ok f" "length dst = 100"
  shows "\<exists>d. tg_file_extract_directory dst f = Inr d \<and> cstr d = Inr (top_dir (fpath f)) \<and> length d = 100"
proof -
  from assms(1) have c: "cstr (tf_path f) = Inr (fpath f)" and len: "length (tf_path f) = 100"
    by (auto simp: file_ok_def arr_ok_def size_consts)
  from assms(1) obtain q where q: "fpath f = slash # q" "length q < 99" "c_string q"
    by (auto simp: file_ok_def abs_path_def size_consts c_string_def)
  have start: "strchr (slash # q) slash = Some 0" by (simp add: strchr_def)
  show ?thesis
  proof (cases "slash \<in> set q")
    case False
    then have "strchr q slash = None" by (simp add: strchr_None)
    with False assms(2) show ?thesis
      by (cases dst; cases "tl dst")
        (auto simp: tg_file_extract_directory_def c start q top_dir_def write_cell_def)
  next
    case True
    then obtain t u where tu: "q = t @ slash # u" "slash \<notin> set t"
      by (meson split_list_first)
    then have k: "strchr q slash = Some (length t)" by (auto simp: strchr_Some)
    have td: "top_dir (fpath f) = slash # t" using tu q(1) by (simp add: top_dir_nested)
    from cstr_Inr_decomp [OF c] obtain xs where
      xs: "tf_path f = map Some (slash # t @ slash # u) @ Some NUL # xs"
      unfolding q(1) tu(1) by blast
    have src: "read_cells (tf_path f) 0 (Suc (length t)) = Inr (map Some (slash # t))"
      by (simp add: read_cells_def xs)
    have "length (slash # t) < length dst" using q(2) tu(1) assms(2) by simp
    moreover from this obtain d where d: "memcpy_cells dst 0 (map Some (slash # t)) = Inr d"
      by (simp add: memcpy_cells_def)
    moreover have "c_string (slash # t)" using q(3) tu(1) by (simp add: c_string_def)
    ultimately obtain d' where "write_cell d (length (slash # t)) NUL = Inr d'"
      "cstr d' = Inr (slash # t)" "length d' = length dst"
      using write_cell_NUL_text by blast
    with d td assms(2) show ?thesis
      by (simp add: tg_file_extract_directory_def c start q(1) k Let_def src [simplified])
  qed
qed

section \<open>Records for given texts\<close>

text \<open>A 100-byte array holding a text, and the record made of four of them.\<close>

definition pad :: "string \<Rightarrow> carr" where
  "pad s = map Some s @ drop (length s) (zeros 100)"

definition record_for :: "string \<Rightarrow> string \<Rightarrow> string \<Rightarrow> size_t \<Rightarrow> tg_file_type \<Rightarrow> tg_file" where
  "record_for p i m n t = \<lparr>tf_path = pad p, tf_file_id = pad i, tf_message_id = pad m,
     tf_file_size = n, tf_type = t\<rparr>"

lemma pad_ok:
  assumes "c_string s" "length s < 100"
  shows "arr_ok 100 (pad s)" "text_of (pad s) = s"
proof -
  have "cstr (pad s) = Inr s" using assms by (simp add: pad_def cstr_parsed_zeros)
  then show "arr_ok 100 (pad s)" "text_of (pad s) = s"
    using assms by (auto intro!: arr_okI text_of_cstr simp: pad_def)
qed

lemma record_for_ok:
  assumes "abs_path p" "c_string i" "length i < 100" "c_string m" "length m < 100"
  shows "file_ok (record_for p i m n t)" "ids_ok (record_for p i m n t)"
    "fpath (record_for p i m n t) = p" "fid (record_for p i m n t) = i" "fmid (record_for p i m n t) = m"
    "tf_file_size (record_for p i m n t) = n" "tf_type (record_for p i m n t) = t"
  using assms pad_ok(1) [of p] pad_ok(2) [of p] pad_ok(1) [of i] pad_ok(2) [of i] pad_ok(1) [of m] pad_ok(2) [of m]
  by (auto simp: record_for_def file_ok_def ids_ok_def size_consts abs_path_def arr_ok_def)

lemma record_for_fresh: "fresh_ids (record_for p [] [] n t)"
  by (simp add: record_for_def fresh_ids_def pad_def)

section \<open>Properties\<close>

text \<open>Both path helpers stay inside a 100-byte array for every well-formed record and leave
  the expected text there: the name behind the last slash, and the directory part up to the second
  slash (the root when there is none).\<close>

theorem path_helpers_correct:
  assumes "file_ok f" "length dst = 100"
  shows "(\<exists>d. tg_file_extract_filename dst f = Inr d \<and> length d = 100 \<and>
      cstr d = Inr (rev (takeWhile (\<lambda>c. c \<noteq> slash) (rev (fpath f))))) \<and>
    (\<exists>d. tg_file_extract_directory dst f = Inr d \<and> length d = 100 \<and>
      cstr d = Inr (if slash \<in> set (tl (fpath f))
        then slash # takeWhile (\<lambda>c. c \<noteq> slash) (tl (fpath f)) else [slash]))"
  using extract_filename_ok [OF assms] extract_directory_ok [OF assms]
  unfolding base_name_def top_dir_def by blast

theorem path_helpers_correct_witness:
  "(\<exists>d. tg_file_extract_filename (replicate 100 None) (record_for ''/docs/a'' [] [] 3 TG_FILE) = Inr d \<and>
      cstr d = Inr ''a'') \<and>
   (\<exists>d. tg_file_extract_directory (replicate 100 None) (record_for ''/docs/a'' [] [] 3 TG_FILE) = Inr d \<and>
      cstr d = Inr ''/docs'')"
proof -
  have "abs_path ''/docs/a''" by (simp add: abs_path_def c_string_def size_consts)
  then have f: "file_ok (record_for ''/docs/a'' [] [] 3 TG_FILE)"
    "fpath (record_for ''/docs/a'' [] [] 3 TG_FILE) = ''/docs/a''"
    using record_for_ok [of "''/docs/a''" "[]" "[]" 3 TG_FILE] by (auto simp: c_string_def)
  from path_helpers_correct [OF f(1), of "replicate 100 None"] f(2) show ?thesis by auto
qed

end
