(* ===== verification/Tg_Storage.thy ===== *)
theory Tg_Storage
  imports Tg_File
begin

text \<open>
  The table of files (\<^verbatim>\<open>src/tg_storage.c\<close>): a growable array of \<open>tg_file\<close> records searched
  linearly by path. A pointer into the array is an index; slots past \<open>size\<close> are
  indeterminate. \<open>stor_rep st xs\<close> relates the array to the list \<open>xs\<close> of its records, and
  every operation is specified on that list.
\<close>

section \<open>The struct and its operations\<close>

record tg_storage =
  s_files :: "tg_file option list option"
  s_size :: int
  s_cap :: int

definition sizeof_tg_file :: nat where "sizeof_tg_file = 320"

definition load_file :: "tg_storage \<Rightarrow> int \<Rightarrow> cerror + tg_file" where
  "load_file st i =
     (case s_files st of
        None \<Rightarrow> Inl NullDeref
      | Some fs \<Rightarrow>
          if 0 \<le> i \<and> i < int (length fs)
          then (case fs ! nat i of None \<Rightarrow> Inl Uninit | Some f \<Rightarrow> Inr f)
          else Inl OutOfBounds)"

definition store_file :: "tg_storage \<Rightarrow> int \<Rightarrow> tg_file \<Rightarrow> cerror + tg_storage" where
  "store_file st i f =
     (case s_files st of
        None \<Rightarrow> Inl NullDeref
      | Some fs \<Rightarrow>
          if 0 \<le> i \<and> i < int (length fs)
          then Inr (st\<lparr>s_files := Some (fs[nat i := Some f])\<rparr>)
          else Inl OutOfBounds)"

definition tg_storage_new :: "(nat \<Rightarrow> bool) \<Rightarrow> tg_storage" where
  "tg_storage_new alloc = \<lparr>s_files = realloc_cells alloc sizeof_tg_file None 2, s_size = 0, s_cap = 2\<rparr>"

definition tg_storage_free :: "tg_storage \<Rightarrow> tg_storage" where
  "tg_storage_free st = \<lparr>s_files = None, s_size = 0, s_cap = 0\<rparr>"

definition tg_storage_push :: "(nat \<Rightarrow> bool) \<Rightarrow> tg_storage \<Rightarrow> tg_file \<Rightarrow> cerror + tg_storage" where
  "tg_storage_push alloc st f =
     cbind (if s_cap st \<le> s_size st
            then cbind (c_int (s_cap st * 2)) (\<lambda>c2. cbind (c_int (c2 + 1)) (\<lambda>cap.
                   Inr (st\<lparr>s_cap := cap,
                          s_files := realloc_cells alloc sizeof_tg_file (s_files st) (nat cap)\<rparr>)))
            else Inr st) (\<lambda>st1.
     cbind (store_file st1 (s_size st1) f) (\<lambda>st2.
     cbind (c_int (s_size st1 + 1)) (\<lambda>n.
     Inr (st2\<lparr>s_size := n\<rparr>))))"

definition tg_storage_pop :: "(nat \<Rightarrow> bool) \<Rightarrow> tg_storage \<Rightarrow> cerror + tg_file \<times> tg_storage" where
  "tg_storage_pop alloc st =
     (if s_size st \<le> 0 then Inl AssertFail
      else
        let st1 = (if s_size st < s_cap st div 2
                   then st\<lparr>s_cap := s_cap st div 2,
                           s_files := realloc_cells alloc sizeof_tg_file (s_files st) (nat (s_cap st div 2))\<rparr>
                   else st);
            n = s_size st1 - 1
        in cbind (load_file st1 n) (\<lambda>f. Inr (f, st1\<lparr>s_size := n\<rparr>)))"

function find_by_path_from :: "tg_storage \<Rightarrow> string \<Rightarrow> nat \<Rightarrow> cerror + nat option" where
  "find_by_path_from st path i =
     (if int i < s_size st
      then cbind (load_file st (int i)) (\<lambda>f.
           cbind (strcmp_eq (tf_path f) path) (\<lambda>eq.
             if eq then Inr (Some i) else find_by_path_from st path (Suc i)))
      else Inr None)"
  by pat_completeness auto
termination
  by (relation "measure (\<lambda>(st, path, i). nat (s_size st) - i)") auto

declare find_by_path_from.simps [simp del]

definition tg_storage_find_by_path :: "tg_storage \<Rightarrow> string \<Rightarrow> cerror + nat option" where
  "tg_storage_find_by_path st path = find_by_path_from st path 0"

text \<open>The record at the hole is overwritten by the last one, which also covers the case that
  the hole is the last slot.\<close>

function remove_by_path_from :: "tg_storage \<Rightarrow> string \<Rightarrow> nat \<Rightarrow> cerror + tg_file \<times> tg_storage" where
  "remove_by_path_from st path i =
     (if int i < s_size st
      then cbind (load_file st (int i)) (\<lambda>f.
           cbind (strcmp_eq (tf_path f) path) (\<lambda>eq.
             if eq
             then let n = s_size st - 1 in
                  cbind (load_file st n) (\<lambda>l.
                  cbind (store_file (st\<lparr>s_size := n\<rparr>) (int i) l) (\<lambda>st'.
                  Inr (f, st')))
             else remove_by_path_from st path (Suc i)))
      else Inr (tg_file_zero, st))"
  by pat_completeness auto
termination
  by (relation "measure (\<lambda>(st, path, i). nat (s_size st) - i)") auto

declare remove_by_path_from.simps [simp del]

definition tg_storage_remove_by_path :: "tg_storage \<Rightarrow> string \<Rightarrow> cerror + tg_file \<times> tg_storage" where
  "tg_storage_remove_by_path st path =
     (if s_size st = 0 then Inr (tg_file_zero, st) else remove_by_path_from st path 0)"

text \<open>The result \<open>None\<close> stands for \<^verbatim>\<open>-1\<close>.\<close>

function tg_storage_find_files_by_dir :: "tg_storage \<Rightarrow> string \<Rightarrow> nat \<Rightarrow> cerror + nat option" where
  "tg_storage_find_files_by_dir st dir i =
     (if int i < s_size st
      then cbind (load_file st (int i)) (\<lambda>f.
           cbind (strcmp_eq (tf_path f) dir) (\<lambda>eq.
             if \<not> eq
             then cbind (tg_file_extract_directory (replicate 100 None) f) (\<lambda>file_dir.
                  cbind (strcmp_eq file_dir dir) (\<lambda>eq'.
                    if eq' then Inr (Some i) else tg_storage_find_files_by_dir st dir (Suc i)))
             else tg_storage_find_files_by_dir st dir (Suc i)))
      else Inr None)"
  by pat_completeness auto
termination
  by (relation "measure (\<lambda>(st, dir, i). nat (s_size st) - i)") auto

declare tg_storage_find_files_by_dir.simps [simp del]

section \<open>The list a storage holds\<close>

definition stor_rep :: "tg_storage \<Rightarrow> tg_file list \<Rightarrow> bool" where
  "stor_rep st xs \<longleftrightarrow>
     (\<exists>rest. s_files st = Some (map Some xs @ rest) \<and>
        s_cap st = int (length xs + length rest)) \<and>
     s_size st = int (length xs) \<and> s_cap st \<le> INT_MAX \<and> (\<forall>f \<in> set xs. file_ok f)"

definition can_grow :: "(nat \<Rightarrow> bool) \<Rightarrow> tg_storage \<Rightarrow> bool" where
  "can_grow alloc st \<longleftrightarrow> s_cap st * 2 + 1 \<le> INT_MAX \<and> alloc (sizeof_tg_file * nat (s_cap st * 2 + 1))"

lemma stor_rep_new: "alloc (sizeof_tg_file * 2) \<Longrightarrow> stor_rep (tg_storage_new alloc) []"
  by (simp add: stor_rep_def tg_storage_new_def realloc_cells_def INT_MAX_def)

lemma load_file_rep: "stor_rep st xs \<Longrightarrow> i < length xs \<Longrightarrow> load_file st (int i) = Inr (xs ! i)"
  by (auto simp: stor_rep_def load_file_def nth_append)

lemma strcmp_file: "file_ok f \<Longrightarrow> strcmp_eq (tf_path f) p = Inr (fpath f = p)"
  by (simp add: strcmp_eq_def file_ok_def arr_ok_def)

lemma stor_rep_file_ok: "stor_rep st xs \<Longrightarrow> i < length xs \<Longrightarrow> file_ok (xs ! i)"
  by (auto simp: stor_rep_def)

lemma stor_rep_size: "stor_rep st xs \<Longrightarrow> s_size st = int (length xs)"
  by (simp add: stor_rep_def)

lemma push_rep:
  assumes rep: "stor_rep st xs" and f: "file_ok f" and g: "can_grow alloc st"
  shows "\<exists>st'. tg_storage_push alloc st f = Inr st' \<and> stor_rep st' (xs @ [f])"
proof -
  obtain rest where fs: "s_files st = Some (map Some xs @ rest)"
    and cap: "s_cap st = int (length xs + length rest)" and sz: "s_size st = int (length xs)"
    and ok: "\<forall>f \<in> set xs. file_ok f" and mx: "s_cap st \<le> INT_MAX"
    using rep by (auto simp: stor_rep_def)
  show ?thesis
  proof (cases rest)
    case Nil
    let ?cap = "2 * length xs + 1"
    from g have g': "int ?cap \<le> INT_MAX" "alloc (sizeof_tg_file * ?cap)"
      using cap Nil by (auto simp: can_grow_def nat_add_distrib nat_mult_distrib mult.commute)
    have nat: "nat (2 * int (length xs) + 1) = ?cap" by simp
    show ?thesis
      using fs cap sz ok f g' Nil nat
      by (simp add: tg_storage_push_def stor_rep_def store_file_def realloc_cells_def INT_MIN_def
          mult.commute list_update_append split: nat.splits)
  next
    case (Cons r rest')
    then show ?thesis
      using fs cap sz ok f mx
      by (simp add: tg_storage_push_def stor_rep_def store_file_def INT_MIN_def list_update_append)
  qed
qed

lemma find_from_rep:
  assumes "stor_rep st xs"
  shows "i \<le> length xs \<Longrightarrow> find_by_path_from st p i =
     Inr (map_option (\<lambda>j. j + i) (find_index (\<lambda>f. fpath f = p) (drop i xs)))"
proof (induction "length xs - i" arbitrary: i)
  case 0
  with stor_rep_size [OF assms] show ?case
    by (simp add: find_by_path_from.simps [of st p i])
next
  case (Suc n)
  then have i: "i < length xs" by simp
  then have "drop i xs = xs ! i # drop (Suc i) xs" by (simp add: Cons_nth_drop_Suc)
  with i Suc.hyps(1) [of "Suc i"] Suc.hyps(2) stor_rep_size [OF assms] show ?case
    by (simp add: find_by_path_from.simps [of st p i] load_file_rep [OF assms]
        strcmp_file [OF stor_rep_file_ok [OF assms]] option.map_comp comp_def)
qed

lemma find_rep:
  "stor_rep st xs \<Longrightarrow> tg_storage_find_by_path st p = Inr (find_index (\<lambda>f. fpath f = p) xs)"
  using find_from_rep [of st xs 0 p] by (simp add: tg_storage_find_by_path_def option.map_ident)

text \<open>The dual of \<open>push_rep\<close>: dropping the last record and filling the hole.\<close>

lemma swap_remove_rep:
  assumes rep: "stor_rep st xs" and i: "i < length xs"
  shows "\<exists>st'. store_file (st\<lparr>s_size := s_size st - 1\<rparr>) (int i) (last xs) = Inr st' \<and>
           stor_rep st' (swap_remove xs i)"
proof -
  obtain rest where fs: "s_files st = Some (map Some xs @ rest)"
    and r: "s_cap st = int (length xs + length rest)" "s_size st = int (length xs)"
      "\<forall>f \<in> set xs. file_ok f" "s_cap st \<le> INT_MAX"
    using rep by (auto simp: stor_rep_def)
  let ?ys = "xs[i := last xs]"
  have ne: "xs \<noteq> []" using i by auto
  then have "map Some ?ys = map Some (butlast ?ys) @ [Some (last ?ys)]"
    by (metis append_butlast_last_id length_0_conv length_list_update list.map(1,2) map_append)
  then have "map Some ?ys @ rest = map Some (swap_remove xs i) @ Some (last ?ys) # rest"
    by (simp add: swap_remove_def)
  moreover have "(map Some xs @ rest)[i := Some (last xs)] = map Some ?ys @ rest"
    using i by (simp add: list_update_append map_update)
  ultimately have upd: "(map Some xs @ rest)[i := Some (last xs)] =
      map Some (swap_remove xs i) @ Some (last ?ys) # rest" by simp
  have "set (swap_remove xs i) \<subseteq> insert (last xs) (set xs)"
    unfolding swap_remove_def using set_update_subset_insert in_set_butlastD by fastforce
  then have "\<forall>f \<in> set (swap_remove xs i). file_ok f" using r(3) ne by auto
  then show ?thesis
    using fs r i ne
    by (simp add: store_file_def stor_rep_def upd of_nat_diff Suc_leI)
qed

definition removed :: "tg_file list \<Rightarrow> string \<Rightarrow> tg_file \<times> tg_file list" where
  "removed xs p = (case find_index (\<lambda>f. fpath f = p) xs of
     None \<Rightarrow> (tg_file_zero, xs) | Some i \<Rightarrow> (xs ! i, swap_remove xs i))"

lemma remove_from_rep:
  assumes "stor_rep st xs"
  shows "i \<le> length xs \<Longrightarrow> (\<forall>j < i. fpath (xs ! j) \<noteq> p) \<Longrightarrow>
     \<exists>st'. remove_by_path_from st p i = Inr (fst (removed xs p), st') \<and> stor_rep st' (snd (removed xs p))"
proof (induction "length xs - i" arbitrary: i)
  case 0
  then have "find_index (\<lambda>f. fpath f = p) xs = None"
    by (auto simp: find_index_None in_set_conv_nth)
  with 0 assms stor_rep_size [OF assms] show ?case
    by (simp add: remove_by_path_from.simps [of st p i] removed_def)
next
  case (Suc n)
  then have i: "i < length xs" by simp
  note run = remove_by_path_from.simps [of st p i] load_file_rep [OF assms i]
    strcmp_file [OF stor_rep_file_ok [OF assms i]] stor_rep_size [OF assms]
  show ?case
  proof (cases "fpath (xs ! i) = p")
    case True
    then have "find_index (\<lambda>f. fpath f = p) xs = Some i"
      using i Suc.prems(2) by (auto simp: find_index_Some)
    moreover have "load_file st (int (length xs) - 1) = Inr (last xs)"
      using load_file_rep [OF assms, of "length xs - 1"] i
      by (cases "xs = []") (simp_all add: of_nat_diff last_conv_nth)
    ultimately show ?thesis
      using swap_remove_rep [OF assms i] i True
      by (auto simp: run removed_def Let_def)
  next
    case False
    with Suc.prems(2) have "\<forall>j < Suc i. fpath (xs ! j) \<noteq> p" by (simp add: less_Suc_eq)
    with Suc.hyps i False show ?thesis by (simp add: run)
  qed
qed

lemma remove_rep:
  assumes "stor_rep st xs"
  shows "\<exists>st'. tg_storage_remove_by_path st p = Inr (fst (removed xs p), st') \<and>
           stor_rep st' (snd (removed xs p))"
proof (cases "s_size st = 0")
  case True
  with stor_rep_size [OF assms] assms show ?thesis
    by (simp add: tg_storage_remove_by_path_def removed_def)
next
  case False
  then show ?thesis
    using remove_from_rep [OF assms, of 0 p] by (simp add: tg_storage_remove_by_path_def)
qed

definition in_dir :: "string \<Rightarrow> tg_file \<Rightarrow> bool" where
  "in_dir dir f \<longleftrightarrow> fpath f \<noteq> dir \<and> top_dir (fpath f) = dir"

lemma find_files_rep:
  assumes "stor_rep st xs"
  shows "i \<le> length xs \<Longrightarrow> tg_storage_find_files_by_dir st dir i =
     Inr (map_option (\<lambda>j. j + i) (find_index (in_dir dir) (drop i xs)))"
proof (induction "length xs - i" arbitrary: i)
  case 0
  with stor_rep_size [OF assms] show ?case
    by (simp add: tg_storage_find_files_by_dir.simps [of st dir i])
next
  case (Suc n)
  then have i: "i < length xs" by simp
  then have d: "drop i xs = xs ! i # drop (Suc i) xs" by (simp add: Cons_nth_drop_Suc)
  obtain a where a: "tg_file_extract_directory (replicate 100 None) (xs ! i) = Inr a"
    "cstr a = Inr (top_dir (fpath (xs ! i)))"
    using extract_directory_ok [OF stor_rep_file_ok [OF assms i], of "replicate 100 None"] by auto
  from i Suc.hyps(1) [of "Suc i"] Suc.hyps(2) stor_rep_size [OF assms] show ?case
    by (simp add: tg_storage_find_files_by_dir.simps [of st dir i] load_file_rep [OF assms] d
        strcmp_file [OF stor_rep_file_ok [OF assms]] option.map_comp comp_def a
        strcmp_eq_def [of a] in_dir_def)
qed

lemma pop_rep:
  assumes rep: "stor_rep st (xs @ [f])" and mem: "alloc (sizeof_tg_file * nat (s_cap st div 2))"
  shows "\<exists>st'. tg_storage_pop alloc st = Inr (f, st') \<and> stor_rep st' xs"
proof -
  obtain rest where fs: "s_files st = Some (map Some xs @ Some f # rest)"
    and r: "s_cap st = int (length xs + 1 + length rest)" "s_size st = int (length xs) + 1"
      "\<forall>f \<in> set xs. file_ok f" "s_cap st \<le> INT_MAX"
    using rep by (auto simp: stor_rep_def)
  show ?thesis
  proof (cases "s_size st < s_cap st div 2")
    case False
    then show ?thesis
      using fs r by (auto simp: tg_storage_pop_def load_file_def stor_rep_def Let_def nth_append)
  next
    case True
    let ?c = "(length xs + 1 + length rest) div 2"
    have c: "nat (s_cap st div 2) = ?c" "s_cap st div 2 = int ?c"
      using r(1) by (simp_all add: zdiv_int nat_div_distrib)
    have lt: "length xs + 1 < ?c" using True r(1,2) by (simp add: zdiv_int)
    have take: "take ?c (map Some xs @ Some f # rest) = map Some xs @ Some f # take (?c - length xs - 1) rest"
      using lt by (simp add: take_Cons' )
    have "?c \<le> length xs + 1 + length rest" by simp
    then show ?thesis
      using True fs r c lt mem
      by (simp add: tg_storage_pop_def load_file_def stor_rep_def Let_def nth_append
          realloc_cells_def take)
  qed
qed

section \<open>The table as a map from paths\<close>

definition path_map :: "tg_file list \<Rightarrow> string \<Rightarrow> tg_file option" where
  "path_map xs p = map_option ((!) xs) (find_index (\<lambda>f. fpath f = p) xs)"

definition uniq :: "tg_file list \<Rightarrow> bool" where
  "uniq xs \<longleftrightarrow> distinct (map fpath xs)"

lemma path_map_Some_in: "path_map xs p = Some f \<Longrightarrow> f \<in> set xs \<and> fpath f = p"
  by (auto simp: path_map_def find_index_Some)

lemma path_map_None: "path_map xs p = None \<longleftrightarrow> p \<notin> fpath ` set xs"
  by (auto simp: path_map_def find_index_None)

lemma path_map_uniq:
  assumes "uniq xs"
  shows "path_map xs p = Some f \<longleftrightarrow> f \<in> set xs \<and> fpath f = p"
proof
  assume f: "f \<in> set xs \<and> fpath f = p"
  then obtain g where g: "path_map xs p = Some g"
    using path_map_None [of xs p] by (cases "path_map xs p") auto
  with f assms show "path_map xs p = Some f"
    using path_map_Some_in [OF g] by (auto simp: uniq_def distinct_map dest: inj_onD)
qed (rule path_map_Some_in)

lemma path_map_eqI:
  assumes "uniq xs" "\<And>f. f \<in> set xs \<longleftrightarrow> m (fpath f) = Some f" "\<And>p f. m p = Some f \<Longrightarrow> fpath f = p"
  shows "path_map xs = m"
proof
  fix p
  show "path_map xs p = m p"
  proof (cases "m p")
    case None
    then show ?thesis using assms(2) by (auto simp: path_map_None)
  next
    case (Some f)
    then show ?thesis using assms by (auto simp: path_map_uniq)
  qed
qed

lemma path_map_add:
  assumes "uniq xs" "path_map xs (fpath f) = None"
  shows "uniq (xs @ [f])" "path_map (xs @ [f]) = (path_map xs)(fpath f \<mapsto> f)"
proof -
  show u: "uniq (xs @ [f])" using assms by (simp add: uniq_def path_map_None)
  show "path_map (xs @ [f]) = (path_map xs)(fpath f \<mapsto> f)"
  proof (rule path_map_eqI [OF u])
    fix g
    show "g \<in> set (xs @ [f]) \<longleftrightarrow> ((path_map xs)(fpath f \<mapsto> f)) (fpath g) = Some g"
      using assms(2) by (auto simp: path_map_uniq [OF assms(1)] path_map_None) (metis image_eqI)
  qed (use path_map_uniq [OF assms(1)] in \<open>auto split: if_splits\<close>)
qed

lemma removed_None: "path_map xs p = None \<Longrightarrow> removed xs p = (tg_file_zero, xs)"
  by (auto simp: path_map_def removed_def)

lemma path_map_removed:
  assumes "uniq xs"
  shows "uniq (snd (removed xs p))" "path_map (snd (removed xs p)) = (path_map xs)(p := None)"
    "fst (removed xs p) = (case path_map xs p of None \<Rightarrow> tg_file_zero | Some f \<Rightarrow> f)"
proof -
  have "uniq (snd (removed xs p)) \<and> path_map (snd (removed xs p)) = (path_map xs)(p := None) \<and>
    fst (removed xs p) = (case path_map xs p of None \<Rightarrow> tg_file_zero | Some f \<Rightarrow> f)"
  proof (cases "find_index (\<lambda>f. fpath f = p) xs")
    case None
    then have "path_map xs p = None" by (simp add: path_map_def)
    with None assms show ?thesis by (auto simp: removed_def)
  next
    case (Some i)
    then have i: "i < length xs" "fpath (xs ! i) = p" by (auto simp: find_index_Some)
    have sw: "distinct (map fpath (swap_remove xs i))" "set (swap_remove xs i) = set xs - {xs ! i}"
      using mset_swap_remove_set [OF i(1), of fpath] assms by (auto simp: uniq_def)
    have inj: "fpath f = p \<longleftrightarrow> f = xs ! i" if "f \<in> set xs" for f
      using that i assms by (auto simp: uniq_def distinct_map dest: inj_onD)
    have "path_map (swap_remove xs i) = (path_map xs)(p := None)"
    proof (rule path_map_eqI)
      fix f
      show "f \<in> set (swap_remove xs i) \<longleftrightarrow> ((path_map xs)(p := None)) (fpath f) = Some f"
        using inj i(2) by (auto simp: sw(2) path_map_uniq [OF assms])
    qed (use sw(1) path_map_uniq [OF assms] in \<open>auto simp: uniq_def split: if_splits\<close>)
    with sw Some show ?thesis by (simp add: removed_def uniq_def path_map_def)
  qed
  then show "uniq (snd (removed xs p))" "path_map (snd (removed xs p)) = (path_map xs)(p := None)"
    "fst (removed xs p) = (case path_map xs p of None \<Rightarrow> tg_file_zero | Some f \<Rightarrow> f)" by auto
qed

text \<open>
  The interface the file-system handlers rely on: a table of records with search, insertion
  and removal by path, seen as a list, and (when paths are unique) as a map.
\<close>

locale file_table =
  fixes rep :: "'s \<Rightarrow> tg_file list \<Rightarrow> bool"
    and room :: "'s \<Rightarrow> bool"
    and find :: "'s \<Rightarrow> string \<Rightarrow> cerror + nat option"
    and add :: "'s \<Rightarrow> tg_file \<Rightarrow> cerror + 's"
    and del :: "'s \<Rightarrow> string \<Rightarrow> cerror + tg_file \<times> 's"
  assumes find_law: "rep s xs \<Longrightarrow> find s p = Inr (find_index (\<lambda>f. fpath f = p) xs)"
    and add_law: "rep s xs \<Longrightarrow> room s \<Longrightarrow> file_ok f \<Longrightarrow> \<exists>s'. add s f = Inr s' \<and> rep s' (xs @ [f])"
    and del_law: "rep s xs \<Longrightarrow> \<exists>s'. del s p = Inr (fst (removed xs p), s') \<and> rep s' (snd (removed xs p))"
begin

definition view :: "'s \<Rightarrow> (string \<rightharpoonup> tg_file) \<Rightarrow> bool" where
  "view s m \<longleftrightarrow> (\<exists>xs. rep s xs \<and> uniq xs \<and> path_map xs = m)"

lemma find_view:
  assumes "view s m"
  shows "\<exists>r. find s p = Inr r \<and> (r = None \<longleftrightarrow> m p = None)"
  using assms by (auto simp: view_def find_law path_map_def)

lemma add_view:
  assumes "view s m" "room s" "file_ok f" "m (fpath f) = None"
  shows "\<exists>s'. add s f = Inr s' \<and> view s' (m(fpath f \<mapsto> f))"
proof -
  from assms(1) obtain xs where xs: "rep s xs" "uniq xs" "path_map xs = m"
    by (auto simp: view_def)
  from add_law [OF xs(1) assms(2,3)] obtain s' where "add s f = Inr s'" "rep s' (xs @ [f])"
    by blast
  moreover have "uniq (xs @ [f])" "path_map (xs @ [f]) = m(fpath f \<mapsto> f)"
    using path_map_add [OF xs(2)] assms(4) xs(3) by auto
  ultimately show ?thesis by (auto simp: view_def)
qed

lemma del_view:
  assumes "view s m"
  shows "\<exists>s'. del s p = Inr (case m p of None \<Rightarrow> tg_file_zero | Some f \<Rightarrow> f, s') \<and> view s' (m(p := None))"
proof -
  from assms obtain xs where xs: "rep s xs" "uniq xs" "path_map xs = m"
    by (auto simp: view_def)
  with del_law [OF xs(1), of p] path_map_removed [OF xs(2), of p] show ?thesis
    by (auto simp: view_def)
qed

end

interpretation tab: file_table stor_rep "can_grow alloc" tg_storage_find_by_path
  "tg_storage_push alloc" tg_storage_remove_by_path for alloc
  by unfold_locales (simp_all add: find_rep push_rep remove_rep)

lemma tab_view: "tab.view st m \<longleftrightarrow> (\<exists>xs. stor_rep st xs \<and> uniq xs \<and> path_map xs = m)"
  by (rule tab.view_def)

text \<open>A full array holding the given records.\<close>

definition table_of :: "tg_file list \<Rightarrow> tg_storage" where
  "table_of xs = \<lparr>s_files = Some (map Some xs), s_size = int (length xs), s_cap = int (length xs)\<rparr>"

lemma table_of_rep: "\<forall>f \<in> set xs. file_ok f \<Longrightarrow> int (length xs) \<le> INT_MAX \<Longrightarrow> stor_rep (table_of xs) xs"
  by (simp add: stor_rep_def table_of_def)

section \<open>Properties\<close>

lemma path_map_load:
  assumes "stor_rep st xs" "find_index (\<lambda>f. fpath f = p) xs = Some i"
  shows "\<exists>f. load_file st (int i) = Inr f \<and> path_map xs p = Some f"
  using assms load_file_rep [OF assms(1), of i] by (auto simp: path_map_def find_index_Some)

text \<open>C8: the array of records implements a finite map from paths to records. Searching finds a
  slot exactly when the map is defined, and the slot holds that record; pushing a record with a new
  path adds it, growing the array when it is full; removing a path deletes it from the map and
  returns its record, or the zeroed record when there is none.\<close>

theorem table_refines_map:
  assumes "stor_rep st xs" "uniq xs" "can_grow alloc st" "file_ok f" "path_map xs (fpath f) = None"
  shows "(\<exists>r. tg_storage_find_by_path st p = Inr r \<and> (case r of None \<Rightarrow> path_map xs p = None
        | Some i \<Rightarrow> \<exists>g. load_file st (int i) = Inr g \<and> path_map xs p = Some g)) \<and>
    (\<exists>st' ys. tg_storage_push alloc st f = Inr st' \<and> stor_rep st' ys \<and> uniq ys \<and>
        path_map ys = (path_map xs)(fpath f \<mapsto> f)) \<and>
    (\<exists>st' ys. tg_storage_remove_by_path st p =
          Inr (case path_map xs p of None \<Rightarrow> tg_file_zero | Some g \<Rightarrow> g, st') \<and>
        stor_rep st' ys \<and> uniq ys \<and> path_map ys = (path_map xs)(p := None))"
proof (intro conjI)
  have v: "tab.view st (path_map xs)" using assms(1,2) by (auto simp: tab_view)
  show "\<exists>r. tg_storage_find_by_path st p = Inr r \<and> (case r of None \<Rightarrow> path_map xs p = None
        | Some i \<Rightarrow> \<exists>g. load_file st (int i) = Inr g \<and> path_map xs p = Some g)"
    using path_map_load [OF assms(1), of p]
    by (auto simp: find_rep [OF assms(1)] path_map_def split: option.split)
  show "\<exists>st' ys. tg_storage_push alloc st f = Inr st' \<and> stor_rep st' ys \<and> uniq ys \<and>
        path_map ys = (path_map xs)(fpath f \<mapsto> f)"
    using tab.add_view [OF v assms(3,4,5)] unfolding tab_view by blast
  show "\<exists>st' ys. tg_storage_remove_by_path st p =
          Inr (case path_map xs p of None \<Rightarrow> tg_file_zero | Some g \<Rightarrow> g, st') \<and>
        stor_rep st' ys \<and> uniq ys \<and> path_map ys = (path_map xs)(p := None)"
    using tab.del_view [OF v, of p] unfolding tab_view by blast
qed

lemma sample_a: "abs_path ''/a''" "file_ok (record_for ''/a'' [] [] 0 TG_FILE)"
    "fpath (record_for ''/a'' [] [] 0 TG_FILE) = ''/a''"
proof -
  show a: "abs_path ''/a''" by (simp add: abs_path_def c_string_def size_consts)
  show "file_ok (record_for ''/a'' [] [] 0 TG_FILE)" "fpath (record_for ''/a'' [] [] 0 TG_FILE) = ''/a''"
    using record_for_ok [OF a, of "[]" "[]" 0 TG_FILE] by (auto simp: c_string_def)
qed

lemma sample_new: "stor_rep (tg_storage_new (\<lambda>_. True)) []" "can_grow (\<lambda>_. True) (tg_storage_new (\<lambda>_. True))"
  by (rule stor_rep_new) (simp_all add: can_grow_def tg_storage_new_def INT_MAX_def)

theorem table_refines_map_witness:
  "\<exists>st' ys. tg_storage_push (\<lambda>_. True) (tg_storage_new (\<lambda>_. True)) (record_for ''/a'' [] [] 0 TG_FILE) = Inr st' \<and>
     stor_rep st' ys \<and> path_map ys = [''/a'' \<mapsto> record_for ''/a'' [] [] 0 TG_FILE]"
proof -
  have e: "path_map [] = Map.empty" by (auto simp: path_map_def)
  from table_refines_map [of "tg_storage_new (\<lambda>_. True)" "[]" "\<lambda>_. True" "record_for ''/a'' [] [] 0 TG_FILE" "''/b''"]
    sample_new sample_a show ?thesis by (auto simp: uniq_def e)
qed

text \<open>Popping undoes pushing: it returns the record pushed last and leaves a table with the
  records before it, also when one of the two calls resizes the array.\<close>

theorem pop_undoes_push:
  assumes "stor_rep st xs" "can_grow alloc st" "file_ok f" "\<forall>n. alloc n"
  shows "\<exists>st1 st2. tg_storage_push alloc st f = Inr st1 \<and> tg_storage_pop alloc st1 = Inr (f, st2) \<and>
    stor_rep st2 xs"
  using push_rep [OF assms(1,3,2)] pop_rep [of _ xs f alloc] assms(4) by blast

theorem pop_undoes_push_witness:
  "\<exists>st1 st2. tg_storage_push (\<lambda>_. True) (tg_storage_new (\<lambda>_. True)) (record_for ''/a'' [] [] 0 TG_FILE) = Inr st1 \<and>
     tg_storage_pop (\<lambda>_. True) st1 = Inr (record_for ''/a'' [] [] 0 TG_FILE, st2) \<and> stor_rep st2 []"
  using pop_undoes_push [of "tg_storage_new (\<lambda>_. True)" "[]" "\<lambda>_. True" "record_for ''/a'' [] [] 0 TG_FILE"]
    sample_new sample_a by blast

text \<open>The directory scan returns the first slot at or behind the given one whose record lies
  in the directory, that is, whose path is not the directory itself and whose part up to the second
  slash is; and \<^verbatim>\<open>-1\<close> when there is none.\<close>

theorem dir_scan_finds_first:
  assumes "stor_rep st xs" "i \<le> length xs"
  shows "(\<exists>r. tg_storage_find_files_by_dir st dir i = Inr r \<and> (case r of
      None \<Rightarrow> \<forall>k. i \<le> k \<and> k < length xs \<longrightarrow> fpath (xs ! k) = dir \<or> top_dir (fpath (xs ! k)) \<noteq> dir
    | Some k \<Rightarrow> i \<le> k \<and> k < length xs \<and> fpath (xs ! k) \<noteq> dir \<and> top_dir (fpath (xs ! k)) = dir \<and>
        (\<forall>l. i \<le> l \<and> l < k \<longrightarrow> fpath (xs ! l) = dir \<or> top_dir (fpath (xs ! l)) \<noteq> dir)))"
proof (cases "find_index (in_dir dir) (drop i xs)")
  case None
  then have "\<not> in_dir dir (xs ! k)" if "i \<le> k" "k < length xs" for k
    using that nth_drop [of i xs "k - i"] nth_mem [of "k - i" "drop i xs"] by (auto simp: find_index_None)
  with None find_files_rep [OF assms, of dir] show ?thesis by (auto simp: in_dir_def)
next
  case (Some j)
  then have j: "j < length xs - i" "in_dir dir (xs ! (i + j))" "\<forall>l < j. \<not> in_dir dir (xs ! (i + l))"
    using assms(2) by (auto simp: find_index_Some)
  have "\<not> in_dir dir (xs ! l)" if "i \<le> l" "l < j + i" for l
    using j(3) that by (metis add.commute le_Suc_ex less_diff_conv2 add_diff_cancel_left')
  with Some j find_files_rep [OF assms, of dir] show ?thesis by (auto simp: in_dir_def add.commute)
qed

theorem dir_scan_finds_first_witness:
  "\<exists>r. tg_storage_find_files_by_dir (table_of [record_for ''/'' [] [] 0 TG_DIR, record_for ''/d/x'' [] [] 0 TG_FILE])
      ''/d'' 0 = Inr r \<and> r = Some 1"
proof -
  let ?xs = "[record_for ''/'' [] [] 0 TG_DIR, record_for ''/d/x'' [] [] 0 TG_FILE]"
  have p: "abs_path ''/''" "abs_path ''/d/x''" by (simp_all add: abs_path_def c_string_def size_consts)
  have f: "fpath (record_for ''/'' [] [] 0 TG_DIR) = ''/''" "fpath (record_for ''/d/x'' [] [] 0 TG_FILE) = ''/d/x''"
    using record_for_ok(3) [OF p(1), of "[]" "[]"] record_for_ok(3) [OF p(2), of "[]" "[]"]
    by (auto simp: c_string_def)
  have "stor_rep (table_of ?xs) ?xs"
    using record_for_ok(1) [OF p(1), of "[]" "[]"] record_for_ok(1) [OF p(2), of "[]" "[]"]
    by (intro table_of_rep) (auto simp: c_string_def INT_MAX_def)
  note scan = dir_scan_finds_first [OF this, of 0 "''/d''"]
  have t: "top_dir ''/'' = ''/''" "top_dir ''/d/x'' = ''/d''" by (simp_all add: top_dir_def)
  from scan obtain r where r: "tg_storage_find_files_by_dir (table_of ?xs) ''/d'' 0 = Inr r"
    "case r of
      None \<Rightarrow> \<forall>k. 0 \<le> k \<and> k < length ?xs \<longrightarrow> fpath (?xs ! k) = ''/d'' \<or> top_dir (fpath (?xs ! k)) \<noteq> ''/d''
    | Some k \<Rightarrow> 0 \<le> k \<and> k < length ?xs \<and> fpath (?xs ! k) \<noteq> ''/d'' \<and> top_dir (fpath (?xs ! k)) = ''/d'' \<and>
        (\<forall>l. 0 \<le> l \<and> l < k \<longrightarrow> fpath (?xs ! l) = ''/d'' \<or> top_dir (fpath (?xs ! l)) \<noteq> ''/d'')" by blast
  have "r = Some 1"
  proof (cases r)
    case None
    then have "\<forall>k. k < Suc (Suc 0) \<longrightarrow> fpath (?xs ! k) = ''/d'' \<or> top_dir (fpath (?xs ! k)) \<noteq> ''/d''"
      using r(2) by simp
    from spec [OF this, of 1] f t show ?thesis by simp
  next
    case (Some k)
    with r(2) have "k < Suc (Suc 0)" "top_dir (fpath (?xs ! k)) = ''/d''" by simp_all
    with Some f t show ?thesis by (cases k) auto
  qed
  with r(1) show ?thesis by blast
qed

end
