(* ===== verification/Fuse_Ops.thy ===== *)
theory Fuse_Ops
  imports Tg_Storage
begin

unbundle bit_operations_syntax

text \<open>
  The file-system callbacks of \<^verbatim>\<open>main.c\<close> over the program's global state: the table of files,
  the configuration, the response buffer shared by all JSON requests, and the outside world.
  Each callback returns the \<^verbatim>\<open>int\<close> libfuse receives (zero or a negated error number) and the
  new state; \<open>Inl\<close> is a crash. A \<^verbatim>\<open>tg_file *\<close> into the table is an index.
\<close>

section \<open>State\<close>

record 'w fs =
  g_storage :: tg_storage
  g_config :: tg_config
  g_json :: carr
  g_world :: 'w

record stat =
  st_mode :: "32 word"
  st_nlink :: "64 word"
  st_size :: off_t

definition S_IFDIR :: "32 word" where "S_IFDIR = 0x4000"
definition S_IFREG :: "32 word" where "S_IFREG = 0x8000"
definition mode_0777 :: "32 word" where "mode_0777 = 0x1FF"

definition stat_zero :: stat where
  "stat_zero = \<lparr>st_mode = 0, st_nlink = 0, st_size = 0\<rparr>"

section \<open>Start-up\<close>

text \<open>
  \<^verbatim>\<open>main\<close> up to the call of \<^verbatim>\<open>fuse_main\<close>, for any chat id and token in place of the two
  string literals.
\<close>

definition main_init :: "'w env \<Rightarrow> string \<Rightarrow> string \<Rightarrow> 'w \<Rightarrow> cerror + 'w fs" where
  "main_init env chat_id token w =
     cbind (tg_config_new chat_id token) (\<lambda>config.
     cbind (tg_file_new_dir [slash]) (\<lambda>root.
     cbind (tg_storage_push (e_alloc env) (tg_storage_new (e_alloc env)) root) (\<lambda>storage.
     Inr \<lparr>g_storage = storage, g_config = config, g_json = zeros JSON_RESPONSE_BUF_SIZE, g_world = w\<rparr>)))"

section \<open>Queries\<close>

definition hello_getattr :: "'w fs \<Rightarrow> string \<Rightarrow> cerror + int \<times> stat" where
  "hello_getattr s path =
     (if path = [slash]
      then Inr (0, stat_zero\<lparr>st_mode := S_IFDIR OR mode_0777, st_nlink := 2\<rparr>)
      else
        cbind (tg_storage_find_by_path (g_storage s) path) (\<lambda>r.
          case r of
            None \<Rightarrow> Inr (- ENOENT, stat_zero)
          | Some i \<Rightarrow>
              cbind (load_file (g_storage s) (int i)) (\<lambda>file.
                case tf_type file of
                  TG_FILE \<Rightarrow> Inr (0, stat_zero\<lparr>st_mode := S_IFREG OR mode_0777, st_nlink := 1,
                                     st_size := tf_file_size file\<rparr>)
                | TG_DIR \<Rightarrow> Inr (0, stat_zero\<lparr>st_mode := S_IFDIR OR mode_0777, st_nlink := 1\<rparr>))))"

definition hello_open :: "'w fs \<Rightarrow> string \<Rightarrow> cerror + int" where
  "hello_open s path =
     cbind (tg_storage_find_by_path (g_storage s) path) (\<lambda>r.
       case r of None \<Rightarrow> Inr (- ENOENT) | Some i \<Rightarrow> Inr 0)"

text \<open>A directory scan only moves forward, which is why the loops over it end.\<close>

lemma find_files_bound:
  "tg_storage_find_files_by_dir st dir i = Inr (Some k) \<Longrightarrow> i \<le> k \<and> int k < s_size st"
proof (induction "nat (s_size st) - i" arbitrary: i rule: less_induct)
  case less
  have step: "i \<le> k \<and> int k < s_size st"
    if "int i < s_size st" "tg_storage_find_files_by_dir st dir (Suc i) = Inr (Some k)"
  proof -
    have "nat (s_size st) - Suc i < nat (s_size st) - i" using that(1) by linarith
    from less.hyps [OF this that(2)] show ?thesis by simp
  qed
  from less.prems show ?case
    by (subst (asm) tg_storage_find_files_by_dir.simps)
      (auto split: if_splits dest!: step [rotated] elim!: cbind_InrE)
qed

text \<open>The names \<^verbatim>\<open>readdir\<close> hands to the filler, from slot \<open>i\<close> on.\<close>

function readdir_loop :: "tg_storage \<Rightarrow> string \<Rightarrow> nat \<Rightarrow> cerror + string list" where
  "readdir_loop st path i =
     cbind (tg_storage_find_files_by_dir st path i) (\<lambda>r.
       case r of
         None \<Rightarrow> Inr []
       | Some k \<Rightarrow>
           cbind (load_file st (int k)) (\<lambda>cur.
           cbind (tg_file_extract_filename (replicate 100 None) cur) (\<lambda>filebuf.
           cbind (cstr filebuf) (\<lambda>filename.
           cbind (readdir_loop st path (Suc k)) (\<lambda>names.
           Inr (filename # names))))))"
  by pat_completeness auto
termination
  by (relation "measure (\<lambda>(st, path, i). nat (s_size st) - i)") (auto dest!: find_files_bound)

declare readdir_loop.simps [simp del]

definition hello_readdir :: "'w fs \<Rightarrow> string \<Rightarrow> cerror + int \<times> string list" where
  "hello_readdir s path =
     cbind (tg_storage_find_by_path (g_storage s) path) (\<lambda>r.
       case r of
         None \<Rightarrow> Inr (- ENOENT, [])
       | Some i \<Rightarrow>
           cbind (load_file (g_storage s) (int i)) (\<lambda>tg_dir.
             if tf_type tg_dir \<noteq> TG_DIR then Inr (- ENOENT, [])
             else cbind (readdir_loop (g_storage s) path 0) (\<lambda>names.
                  Inr (0, [''.'', ''..''] @ names))))"

section \<open>Creation and removal\<close>

definition hello_create :: "'w env \<Rightarrow> 'w fs \<Rightarrow> string \<Rightarrow> cerror + int \<times> 'w fs" where
  "hello_create env s path =
     cbind (tg_storage_find_by_path (g_storage s) path) (\<lambda>r.
     cbind (case r of
              None \<Rightarrow> Inr False
            | Some i \<Rightarrow> cbind (load_file (g_storage s) (int i)) (\<lambda>file. Inr (tf_type file = TG_DIR)))
       (\<lambda>is_dir.
          if is_dir then Inr (- EISDIR, s)
          else
            cbind (tg_file_new_file path 0) (\<lambda>new_file.
            cbind (tg_storage_push (e_alloc env) (g_storage s) new_file) (\<lambda>st'.
            Inr (0, s\<lparr>g_storage := st'\<rparr>)))))"

definition hello_mkdir :: "'w env \<Rightarrow> 'w fs \<Rightarrow> string \<Rightarrow> cerror + int \<times> 'w fs" where
  "hello_mkdir env s path =
     cbind (tg_file_new_dir path) (\<lambda>dir.
     cbind (tg_storage_push (e_alloc env) (g_storage s) dir) (\<lambda>st'.
     Inr (0, s\<lparr>g_storage := st'\<rparr>)))"

definition remote_delete :: "'w env \<Rightarrow> 'w fs \<Rightarrow> tg_file \<Rightarrow> cerror + 'w fs" where
  "remote_delete env s file =
     cbind (tg_remove_message_with_file env (g_config s) file (g_json s) (g_world s))
       (\<lambda>(r, J, w). Inr (s\<lparr>g_json := J, g_world := w\<rparr>))"

definition hello_unlink :: "'w env \<Rightarrow> 'w fs \<Rightarrow> string \<Rightarrow> cerror + int \<times> 'w fs" where
  "hello_unlink env s path =
     cbind (tg_storage_remove_by_path (g_storage s) path) (\<lambda>(file, st').
       let s1 = s\<lparr>g_storage := st'\<rparr> in
       cbind (cstr (tf_path file)) (\<lambda>p.
         if p = [] then Inr (- ENOENT, s1)
         else cbind (remote_delete env s1 file) (\<lambda>s2. Inr (0, s2))))"

lemma store_file_size: "store_file st i f = Inr st' \<Longrightarrow> s_size st' = s_size st"
  by (auto simp: store_file_def split: option.splits if_splits)

lemma remove_from_size:
  "remove_by_path_from st p i = Inr (f, st') \<Longrightarrow> s_size st' \<le> s_size st"
proof (induction "nat (s_size st) - i" arbitrary: i rule: less_induct)
  case less
  have step: "s_size st' \<le> s_size st"
    if "int i < s_size st" "remove_by_path_from st p (Suc i) = Inr (f, st')"
  proof -
    have "nat (s_size st) - Suc i < nat (s_size st) - i" using that(1) by linarith
    from less.hyps [OF this that(2)] show ?thesis by simp
  qed
  from less.prems show ?case
    by (subst (asm) remove_by_path_from.simps)
      (auto simp: Let_def split: if_splits dest!: step [rotated] dest!: store_file_size elim!: cbind_InrE)
qed

lemma remove_size:
  "tg_storage_remove_by_path st p = Inr (f, st') \<Longrightarrow> s_size st' \<le> s_size st"
  by (auto simp: tg_storage_remove_by_path_def split: if_splits dest: remove_from_size)

text \<open>One turn of the loop of \<^verbatim>\<open>hello_rmdir\<close>: the file at slot \<open>k\<close> is deleted at the server if
  it has contents, and then removed from the table.\<close>

definition rmdir_body :: "'w env \<Rightarrow> 'w fs \<Rightarrow> nat \<Rightarrow> cerror + 'w fs" where
  "rmdir_body env s k =
     cbind (load_file (g_storage s) (int k)) (\<lambda>file.
     cbind (if 0 < tf_file_size file then remote_delete env s file else Inr s) (\<lambda>s1.
     cbind (cstr (tf_path file)) (\<lambda>p.
     cbind (tg_storage_remove_by_path (g_storage s1) p) (\<lambda>(f, st').
     Inr (s1\<lparr>g_storage := st'\<rparr>)))))"

lemma rmdir_body_size:
  "rmdir_body env s k = Inr s' \<Longrightarrow> s_size (g_storage s') \<le> s_size (g_storage s)"
  by (auto simp: rmdir_body_def remote_delete_def split: if_splits prod.splits
      dest!: remove_size elim!: cbind_InrE)

function rmdir_loop :: "'w env \<Rightarrow> string \<Rightarrow> 'w fs \<Rightarrow> nat \<Rightarrow> cerror + 'w fs" where
  "rmdir_loop env path s i =
     cbind (tg_storage_find_files_by_dir (g_storage s) path i) (\<lambda>r.
       case r of
         None \<Rightarrow> Inr s
       | Some k \<Rightarrow> cbind (rmdir_body env s k) (\<lambda>s'. rmdir_loop env path s' (Suc k)))"
  by pat_completeness auto
termination
  by (relation "measure (\<lambda>(env, path, s, i). nat (s_size (g_storage s)) - i)")
    (auto dest!: find_files_bound rmdir_body_size)

declare rmdir_loop.simps [simp del]

definition hello_rmdir :: "'w env \<Rightarrow> 'w fs \<Rightarrow> string \<Rightarrow> cerror + int \<times> 'w fs" where
  "hello_rmdir env s path =
     cbind (tg_storage_find_by_path (g_storage s) path) (\<lambda>r.
       case r of
         None \<Rightarrow> Inr (- ENOTDIR, s)
       | Some i \<Rightarrow>
           cbind (load_file (g_storage s) (int i)) (\<lambda>dir.
             if tf_type dir = TG_FILE then Inr (- ENOTDIR, s)
             else
               cbind (rmdir_loop env path s 0) (\<lambda>s1.
               cbind (tg_storage_remove_by_path (g_storage s1) path) (\<lambda>(f, st').
               Inr (0, s1\<lparr>g_storage := st'\<rparr>)))))"

section \<open>Reading and writing\<close>

text \<open>
  The bytes copied to the caller's buffer, for the contents \<open>src\<close> of the file. Comparison of
  the offset is signed, addition and the second comparison are unsigned.
\<close>

definition read_slice :: "buffer \<Rightarrow> size_t \<Rightarrow> off_t \<Rightarrow> cerror + size_t \<times> carr" where
  "read_slice src sz offset =
     (let len = b_size src in
      if sint offset < sint len
      then let n = (if len < offset + sz then len - offset else sz) in
           (case b_ptr src of
              None \<Rightarrow> Inl NullDeref
            | Some cells \<Rightarrow>
                cbind (read_cells cells (unat offset) (unat n)) (\<lambda>out.
                  if sz < n then Inl OutOfBounds else Inr (n, out)))
      else Inr (0, []))"

definition hello_read ::
    "'w env \<Rightarrow> 'w fs \<Rightarrow> string \<Rightarrow> size_t \<Rightarrow> off_t \<Rightarrow> cerror + int \<times> carr \<times> 'w fs" where
  "hello_read env s path sz offset =
     cbind (tg_storage_find_by_path (g_storage s) path) (\<lambda>r.
       case r of
         None \<Rightarrow> Inr (- ENOENT, [], s)
       | Some i \<Rightarrow>
           cbind (load_file (g_storage s) (int i)) (\<lambda>file.
           cbind (cstr (tf_file_id file)) (\<lambda>file_id.
             if file_id = [] then Inr (0, [], s)
             else
               cbind (tg_file_load_contents env (g_config s) file (g_json s) (g_world s)) (\<lambda>(src, J, w).
                 let s1 = s\<lparr>g_json := J, g_world := w\<rparr> in
                 if b_size src = 0 then Inr (- ENOENT, [], s1)
                 else cbind (read_slice src sz offset) (\<lambda>(n, out). Inr (int_of_size n, out, s1))))))"

text \<open>
  \<^verbatim>\<open>hello_write\<close>. When the path is unknown, the record pushed to the table is a copy: the
  upload that follows changes the local record \<open>if_no\<close> only. The steps after the choice of
  \<open>file\<close> and \<open>data\<close> are \<open>write_back\<close>, which returns the record \<open>file\<close> points to.
\<close>

definition write_back ::
    "'w env \<Rightarrow> 'w fs \<Rightarrow> tg_file \<Rightarrow> buffer \<Rightarrow> carr \<Rightarrow> size_t \<Rightarrow> off_t \<Rightarrow> cerror + tg_file \<times> 'w fs" where
  "write_back env s file data buf sz offset =
     cbind (buffer_insert (e_alloc env) data offset buf sz) (\<lambda>data'.
     cbind (tg_put_file env file (g_config s) data' (g_json s) (g_world s)) (\<lambda>(file', J, w).
     Inr (file'\<lparr>tf_file_size := b_size data'\<rparr>, s\<lparr>g_json := J, g_world := w\<rparr>)))"

definition hello_write ::
    "'w env \<Rightarrow> 'w fs \<Rightarrow> string \<Rightarrow> carr \<Rightarrow> size_t \<Rightarrow> off_t \<Rightarrow> cerror + int \<times> 'w fs" where
  "hello_write env s path buf sz offset =
     cbind (tg_storage_find_by_path (g_storage s) path) (\<lambda>r.
       case r of
         None \<Rightarrow>
           cbind (tg_file_new_file path (offset + sz)) (\<lambda>if_no.
           cbind (tg_storage_push (e_alloc env) (g_storage s) if_no) (\<lambda>st'.
           cbind (write_back env (s\<lparr>g_storage := st'\<rparr>) if_no (buffer_new (e_alloc env)) buf sz offset)
             (\<lambda>(if_no', s1). Inr (int_of_size sz, s1))))
       | Some i \<Rightarrow>
           cbind (load_file (g_storage s) (int i)) (\<lambda>file.
             if tf_type file = TG_DIR then Inr (- ENOENT, s)
             else
               cbind (if 0 < tf_file_size file
                      then cbind (tg_file_load_contents env (g_config s) file (g_json s) (g_world s))
                             (\<lambda>(data, J, w). Inr (data, s\<lparr>g_json := J, g_world := w\<rparr>))
                      else Inr (buffer_new (e_alloc env), s)) (\<lambda>(data, s1).
               cbind (write_back env s1 file data buf sz offset) (\<lambda>(file', s2).
               cbind (store_file (g_storage s2) (int i) file') (\<lambda>st'.
               Inr (int_of_size sz, s2\<lparr>g_storage := st'\<rparr>))))))"

section \<open>The remaining callbacks\<close>

definition hello_destroy :: "'w fs \<Rightarrow> 'w fs" where
  "hello_destroy s = s\<lparr>g_storage := tg_storage_free (g_storage s)\<rparr>"

definition hello_setxattr :: "'w fs \<Rightarrow> string \<Rightarrow> string \<Rightarrow> string \<Rightarrow> size_t \<Rightarrow> int \<Rightarrow> int \<times> 'w fs" where
  "hello_setxattr s path name val sz flags = (0, s)"

definition hello_utimens :: "'w fs \<Rightarrow> string \<Rightarrow> int \<times> 'w fs" where
  "hello_utimens s path = (0, s)"

text \<open>The fields of the connection and configuration that \<^verbatim>\<open>hello_init\<close> touches.\<close>

record conn_info =
  capable_ext :: "64 word"
  want_ext :: "64 word"

definition fuse_set_feature_flag :: "'a conn_info_scheme \<Rightarrow> 64 word \<Rightarrow> bool \<times> 'a conn_info_scheme" where
  "fuse_set_feature_flag conn flag =
     (if capable_ext conn AND flag \<noteq> 0
      then (True, conn\<lparr>want_ext := want_ext conn OR flag\<rparr>)
      else (False, conn))"

definition fuse_unset_feature_flag :: "'a conn_info_scheme \<Rightarrow> 64 word \<Rightarrow> 'a conn_info_scheme" where
  "fuse_unset_feature_flag conn flag = conn\<lparr>want_ext := want_ext conn AND NOT flag\<rparr>"

definition fuse_get_feature_flag :: "'a conn_info_scheme \<Rightarrow> 64 word \<Rightarrow> bool" where
  "fuse_get_feature_flag conn flag \<longleftrightarrow> capable_ext conn AND flag \<noteq> 0"

definition FUSE_CAP_ASYNC_READ :: "64 word" where "FUSE_CAP_ASYNC_READ = 1"

text \<open>Returns the connection and the new value of \<^verbatim>\<open>cfg->kernel_cache\<close>.\<close>

definition hello_init :: "'a conn_info_scheme \<Rightarrow> 'a conn_info_scheme \<times> int" where
  "hello_init conn =
     (let conn1 = snd (fuse_set_feature_flag conn FUSE_CAP_ASYNC_READ)
      in (fuse_unset_feature_flag conn1 FUSE_CAP_ASYNC_READ, 1))"

end
