(* ===== verification/Fuse_Buf.thy ===== *)
theory Fuse_Buf
  imports Prelude
begin

unbundle bit_operations_syntax

text \<open>
  Data buffers of libfuse (\<^verbatim>\<open>fuse-3.17.2/lib/buffer.c\<close>): a vector of buffers, each a memory block or a
  file descriptor, and the copy between two vectors, which advances through both at its own pace.
  The data of a write request reaches the file system through it.

  A memory block is a character array of its own (the null pointer is the empty array), so blocks
  do not overlap. The system calls on file descriptors are a parameter. Sizes are 64-bit words and
  a result of type \<^verbatim>\<open>ssize_t\<close> is an \<open>int\<close>.
\<close>

section \<open>Buffers and system calls\<close>

record fuse_buf =
  fb_size :: size_t
  fb_flags :: "32 word"
  fb_mem :: carr
  fb_fd :: int
  fb_pos :: off_t

record fuse_bufvec =
  bv_idx :: size_t
  bv_off :: size_t
  bv_buf :: "fuse_buf list"

definition FUSE_BUF_IS_FD :: "32 word" where "FUSE_BUF_IS_FD = 2"
definition FUSE_BUF_FD_SEEK :: "32 word" where "FUSE_BUF_FD_SEEK = 4"
definition FUSE_BUF_FD_RETRY :: "32 word" where "FUSE_BUF_FD_RETRY = 8"

definition FUSE_BUF_NO_SPLICE :: "32 word" where "FUSE_BUF_NO_SPLICE = 2"
definition FUSE_BUF_FORCE_SPLICE :: "32 word" where "FUSE_BUF_FORCE_SPLICE = 4"
definition FUSE_BUF_SPLICE_MOVE :: "32 word" where "FUSE_BUF_SPLICE_MOVE = 8"
definition FUSE_BUF_SPLICE_NONBLOCK :: "32 word" where "FUSE_BUF_SPLICE_NONBLOCK = 16"

abbreviation flagged :: "fuse_buf \<Rightarrow> 32 word \<Rightarrow> bool" where
  "flagged b flag \<equiv> fb_flags b AND flag \<noteq> 0"

text \<open>\<^verbatim>\<open>FUSE_BUFVEC_INIT\<close>: one memory buffer of the given size, its pointer still null. The field \<^verbatim>\<open>count\<close>
  is the length of the list.\<close>

definition fuse_bufvec_init :: "size_t \<Rightarrow> fuse_bufvec" where
  "fuse_bufvec_init n =
     \<lparr>bv_idx = 0, bv_off = 0, bv_buf = [\<lparr>fb_size = n, fb_flags = 0, fb_mem = [], fb_fd = -1, fb_pos = 0\<rparr>]\<rparr>"

definition bv_count :: "fuse_bufvec \<Rightarrow> size_t" where
  "bv_count v = of_nat (length (bv_buf v))"

text \<open>The system calls: a position means \<^verbatim>\<open>pwrite\<close> or \<^verbatim>\<open>pread\<close>; \<open>Inl\<close> is the error number. \<^verbatim>\<open>splice\<close> also
  returns the advanced positions.\<close>

record 'w sys =
  sys_write :: "'w \<Rightarrow> int \<Rightarrow> carr \<Rightarrow> off_t option \<Rightarrow> (int + size_t) \<times> 'w"
  sys_read :: "'w \<Rightarrow> int \<Rightarrow> size_t \<Rightarrow> off_t option \<Rightarrow> (int + carr) \<times> 'w"
  sys_splice :: "'w \<Rightarrow> int \<Rightarrow> off_t option \<Rightarrow> int \<Rightarrow> off_t option \<Rightarrow> size_t \<Rightarrow> 32 word \<Rightarrow>
    (int + size_t \<times> off_t option \<times> off_t option) \<times> 'w"

section \<open>Size\<close>

fun buf_size_from :: "size_t \<Rightarrow> fuse_buf list \<Rightarrow> size_t" where
  "buf_size_from n [] = n"
| "buf_size_from n (b # bs) =
     (if (- 1) - n \<le> fb_size b then - 1 else buf_size_from (n + fb_size b) bs)"

definition fuse_buf_size :: "fuse_bufvec \<Rightarrow> size_t" where
  "fuse_buf_size v = buf_size_from 0 (bv_buf v)"

definition min_size :: "size_t \<Rightarrow> size_t \<Rightarrow> size_t" where
  "min_size s1 s2 = (if s1 < s2 then s1 else s2)"

section \<open>File descriptors\<close>

text \<open>The loops transfer at least one byte per turn, so as many turns as bytes are enough.\<close>

definition at_pos :: "fuse_buf \<Rightarrow> size_t \<Rightarrow> off_t option" where
  "at_pos b off = (if flagged b FUSE_BUF_FD_SEEK then Some (fb_pos b + off) else None)"

fun buf_write_loop ::
    "'w sys \<Rightarrow> nat \<Rightarrow> fuse_buf \<Rightarrow> size_t \<Rightarrow> fuse_buf \<Rightarrow> size_t \<Rightarrow> size_t \<Rightarrow> size_t \<Rightarrow> 'w \<Rightarrow> cerror + int \<times> 'w" where
  "buf_write_loop sys 0 dst dst_off src src_off len copied w = Inl Diverge"
| "buf_write_loop sys (Suc fuel) dst dst_off src src_off len copied w =
     (if len = 0 then Inr (sint copied, w)
      else cbind (read_cells (fb_mem src) (unat src_off) (unat len)) (\<lambda>data.
        case sys_write sys w (fb_fd dst) data (at_pos dst dst_off) of
          (Inl errno, w1) \<Rightarrow> Inr (if copied = 0 then - errno else sint copied, w1)
        | (Inr res, w1) \<Rightarrow>
            if res = 0 then Inr (sint copied, w1)
            else if \<not> flagged dst FUSE_BUF_FD_RETRY then Inr (sint (copied + res), w1)
            else buf_write_loop sys fuel dst (dst_off + res) src (src_off + res) (len - res) (copied + res) w1))"

definition fuse_buf_write ::
    "'w sys \<Rightarrow> fuse_buf \<Rightarrow> size_t \<Rightarrow> fuse_buf \<Rightarrow> size_t \<Rightarrow> size_t \<Rightarrow> 'w \<Rightarrow> cerror + int \<times> 'w" where
  "fuse_buf_write sys dst dst_off src src_off len w =
     buf_write_loop sys (unat len + 1) dst dst_off src src_off len 0 w"

fun buf_read_loop ::
    "'w sys \<Rightarrow> nat \<Rightarrow> fuse_buf \<Rightarrow> size_t \<Rightarrow> fuse_buf \<Rightarrow> size_t \<Rightarrow> size_t \<Rightarrow> size_t \<Rightarrow> 'w \<Rightarrow>
       cerror + int \<times> fuse_buf \<times> 'w" where
  "buf_read_loop sys 0 dst dst_off src src_off len copied w = Inl Diverge"
| "buf_read_loop sys (Suc fuel) dst dst_off src src_off len copied w =
     (if len = 0 then Inr (sint copied, dst, w)
      else
        case sys_read sys w (fb_fd src) len (at_pos src src_off) of
          (Inl errno, w1) \<Rightarrow> Inr (if copied = 0 then - errno else sint copied, dst, w1)
        | (Inr data, w1) \<Rightarrow>
            if data = [] then Inr (sint copied, dst, w1)
            else cbind (memcpy_cells (fb_mem dst) (unat dst_off) data) (\<lambda>mem.
              let dst1 = dst\<lparr>fb_mem := mem\<rparr>; res = of_nat (length data)
              in if \<not> flagged src FUSE_BUF_FD_RETRY then Inr (sint (copied + res), dst1, w1)
                 else buf_read_loop sys fuel dst1 (dst_off + res) src (src_off + res) (len - res) (copied + res) w1))"

definition fuse_buf_read ::
    "'w sys \<Rightarrow> fuse_buf \<Rightarrow> size_t \<Rightarrow> fuse_buf \<Rightarrow> size_t \<Rightarrow> size_t \<Rightarrow> 'w \<Rightarrow> cerror + int \<times> fuse_buf \<times> 'w" where
  "fuse_buf_read sys dst dst_off src src_off len w =
     buf_read_loop sys (unat len + 1) dst dst_off src src_off len 0 w"

text \<open>From descriptor to descriptor through a block of 4096 bytes, which keeps what earlier turns left
  in it. A result of zero ends the loop, as does a turn that moved less than it asked for.\<close>

fun fd_to_fd_loop ::
    "'w sys \<Rightarrow> nat \<Rightarrow> fuse_buf \<Rightarrow> fuse_buf \<Rightarrow> size_t \<Rightarrow> fuse_buf \<Rightarrow> size_t \<Rightarrow> size_t \<Rightarrow> size_t \<Rightarrow> 'w \<Rightarrow>
       cerror + int \<times> 'w" where
  "fd_to_fd_loop sys 0 tmp dst dst_off src src_off len copied w = Inl Diverge"
| "fd_to_fd_loop sys (Suc fuel) tmp dst dst_off src src_off len copied w =
     (if len = 0 then Inr (sint copied, w)
      else let this_len = min_size (fb_size tmp) len
           in cbind (fuse_buf_read sys tmp 0 src src_off this_len w) (\<lambda>(res, tmp1, w1).
             if res < 0 then Inr (if copied = 0 then res else sint copied, w1)
             else if res = 0 then Inr (sint copied, w1)
             else cbind (fuse_buf_write sys dst dst_off tmp1 0 (of_int res) w1) (\<lambda>(res2, w2).
               if res2 < 0 then Inr (if copied = 0 then res2 else sint copied, w2)
               else if res2 = 0 then Inr (sint copied, w2)
               else let n = of_int res2
                    in if n < this_len then Inr (sint (copied + n), w2)
                       else fd_to_fd_loop sys fuel tmp1 dst (dst_off + n) src (src_off + n) (len - n) (copied + n) w2)))"

definition fuse_buf_fd_to_fd ::
    "'w sys \<Rightarrow> fuse_buf \<Rightarrow> size_t \<Rightarrow> fuse_buf \<Rightarrow> size_t \<Rightarrow> size_t \<Rightarrow> 'w \<Rightarrow> cerror + int \<times> 'w" where
  "fuse_buf_fd_to_fd sys dst dst_off src src_off len w =
     fd_to_fd_loop sys (unat len + 1)
       \<lparr>fb_size = 4096, fb_flags = 0, fb_mem = replicate 4096 None, fb_fd = 0, fb_pos = 0\<rparr>
       dst dst_off src src_off len 0 w"

definition SPLICE_F_MOVE :: "32 word" where "SPLICE_F_MOVE = 1"
definition SPLICE_F_NONBLOCK :: "32 word" where "SPLICE_F_NONBLOCK = 2"

definition splice_flags :: "32 word \<Rightarrow> 32 word" where
  "splice_flags flags =
     (if flags AND FUSE_BUF_SPLICE_MOVE \<noteq> 0 then SPLICE_F_MOVE else 0) OR
     (if flags AND FUSE_BUF_SPLICE_NONBLOCK \<noteq> 0 then SPLICE_F_NONBLOCK else 0)"

fun splice_loop ::
    "'w sys \<Rightarrow> nat \<Rightarrow> fuse_buf \<Rightarrow> size_t \<Rightarrow> off_t option \<Rightarrow> fuse_buf \<Rightarrow> size_t \<Rightarrow> off_t option \<Rightarrow>
       size_t \<Rightarrow> 32 word \<Rightarrow> size_t \<Rightarrow> 'w \<Rightarrow> cerror + int \<times> 'w" where
  "splice_loop sys 0 dst dst_off dstpos src src_off srcpos len flags copied w = Inl Diverge"
| "splice_loop sys (Suc fuel) dst dst_off dstpos src src_off srcpos len flags copied w =
     (if len = 0 then Inr (sint copied, w)
      else
        case sys_splice sys w (fb_fd src) srcpos (fb_fd dst) dstpos len (splice_flags flags) of
          (Inl errno, w1) \<Rightarrow>
            if copied \<noteq> 0 then Inr (sint copied, w1)
            else if errno \<noteq> EINVAL \<or> flags AND FUSE_BUF_FORCE_SPLICE \<noteq> 0 then Inr (- errno, w1)
            else fuse_buf_fd_to_fd sys dst dst_off src src_off len w1
        | (Inr (res, srcpos1, dstpos1), w1) \<Rightarrow>
            if res = 0 then Inr (sint copied, w1)
            else if \<not> flagged src FUSE_BUF_FD_RETRY \<and> \<not> flagged dst FUSE_BUF_FD_RETRY
            then Inr (sint (copied + res), w1)
            else splice_loop sys fuel dst dst_off dstpos1 src src_off srcpos1 (len - res) flags (copied + res) w1)"

definition fuse_buf_splice ::
    "'w sys \<Rightarrow> fuse_buf \<Rightarrow> size_t \<Rightarrow> fuse_buf \<Rightarrow> size_t \<Rightarrow> size_t \<Rightarrow> 32 word \<Rightarrow> 'w \<Rightarrow> cerror + int \<times> 'w" where
  "fuse_buf_splice sys dst dst_off src src_off len flags w =
     splice_loop sys (unat len + 1) dst dst_off (at_pos dst dst_off) src src_off (at_pos src src_off) len flags 0 w"

section \<open>Copying\<close>

text \<open>One piece, from one buffer to another; the destination changes when it is memory.\<close>

definition fuse_buf_copy_one ::
    "'w sys \<Rightarrow> fuse_buf \<Rightarrow> size_t \<Rightarrow> fuse_buf \<Rightarrow> size_t \<Rightarrow> size_t \<Rightarrow> 32 word \<Rightarrow> 'w \<Rightarrow>
       cerror + int \<times> fuse_buf \<times> 'w" where
  "fuse_buf_copy_one sys dst dst_off src src_off len flags w =
     (let src_is_fd = flagged src FUSE_BUF_IS_FD; dst_is_fd = flagged dst FUSE_BUF_IS_FD
      in if \<not> src_is_fd \<and> \<not> dst_is_fd
         then cbind (read_cells (fb_mem src) (unat src_off) (unat len)) (\<lambda>data.
              cbind (memcpy_cells (fb_mem dst) (unat dst_off) data) (\<lambda>mem.
              Inr (sint len, dst\<lparr>fb_mem := mem\<rparr>, w)))
         else if \<not> src_is_fd
         then cbind (fuse_buf_write sys dst dst_off src src_off len w) (\<lambda>(res, w1). Inr (res, dst, w1))
         else if \<not> dst_is_fd then fuse_buf_read sys dst dst_off src src_off len w
         else if flags AND FUSE_BUF_NO_SPLICE \<noteq> 0
         then cbind (fuse_buf_fd_to_fd sys dst dst_off src src_off len w) (\<lambda>(res, w1). Inr (res, dst, w1))
         else cbind (fuse_buf_splice sys dst dst_off src src_off len flags w) (\<lambda>(res, w1). Inr (res, dst, w1)))"

definition fuse_bufvec_current :: "fuse_bufvec \<Rightarrow> fuse_buf option" where
  "fuse_bufvec_current v = (if bv_idx v < bv_count v then Some (bv_buf v ! unat (bv_idx v)) else None)"

text \<open>Whether there is more, and the vector advanced.\<close>

definition fuse_bufvec_advance :: "fuse_bufvec \<Rightarrow> size_t \<Rightarrow> cerror + bool \<times> fuse_bufvec" where
  "fuse_bufvec_advance v len =
     (case fuse_bufvec_current v of
        None \<Rightarrow> Inr (False, v)
      | Some buf \<Rightarrow>
          let v1 = v\<lparr>bv_off := bv_off v + len\<rparr>
          in if fb_size buf < bv_off v1 then Inl AssertFail
             else if bv_off v1 = fb_size buf
             then if bv_count v1 \<le> bv_idx v1 then Inl AssertFail
                  else let v2 = v1\<lparr>bv_idx := bv_idx v1 + 1\<rparr>
                       in if bv_idx v2 = bv_count v2 then Inr (False, v2) else Inr (True, v2\<lparr>bv_off := 0\<rparr>)
             else Inr (True, v1))"

text \<open>Every turn that does not end the loop finishes a buffer of one of the two vectors. The result is
  the number of bytes or the error, both vectors and the world. The second \<^verbatim>\<open>advance\<close> is not reached
  when the first says that there is no more.\<close>

fun buf_copy_loop ::
    "'w sys \<Rightarrow> nat \<Rightarrow> fuse_bufvec \<Rightarrow> fuse_bufvec \<Rightarrow> 32 word \<Rightarrow> size_t \<Rightarrow> 'w \<Rightarrow>
       cerror + int \<times> fuse_bufvec \<times> fuse_bufvec \<times> 'w" where
  "buf_copy_loop sys 0 dstv srcv flags copied w = Inl Diverge"
| "buf_copy_loop sys (Suc fuel) dstv srcv flags copied w =
     (case (fuse_bufvec_current srcv, fuse_bufvec_current dstv) of
        (Some src, Some dst) \<Rightarrow>
          let src_len = fb_size src - bv_off srcv; dst_len = fb_size dst - bv_off dstv;
              len = min_size src_len dst_len
          in cbind (fuse_buf_copy_one sys dst (bv_off dstv) src (bv_off srcv) len flags w) (\<lambda>(res, dst1, w1).
               let dstv1 = dstv\<lparr>bv_buf := (bv_buf dstv)[unat (bv_idx dstv) := dst1]\<rparr>
               in if res < 0 then Inr (if copied = 0 then res else sint copied, dstv1, srcv, w1)
                  else let n = of_int res; copied1 = copied + n
                       in cbind (fuse_bufvec_advance srcv n) (\<lambda>(more_src, srcv1).
                            if \<not> more_src then Inr (sint copied1, dstv1, srcv1, w1)
                            else cbind (fuse_bufvec_advance dstv1 n) (\<lambda>(more_dst, dstv2).
                              if \<not> more_dst \<or> n < len then Inr (sint copied1, dstv2, srcv1, w1)
                              else buf_copy_loop sys fuel dstv2 srcv1 flags copied1 w1)))
      | _ \<Rightarrow> Inr (sint copied, dstv, srcv, w))"

text \<open>The two vectors are distinct objects.\<close>

definition fuse_buf_copy ::
    "'w sys \<Rightarrow> fuse_bufvec \<Rightarrow> fuse_bufvec \<Rightarrow> 32 word \<Rightarrow> 'w \<Rightarrow> cerror + int \<times> fuse_bufvec \<times> fuse_bufvec \<times> 'w" where
  "fuse_buf_copy sys dstv srcv flags w =
     buf_copy_loop sys (length (bv_buf dstv) + length (bv_buf srcv) + 1) dstv srcv flags 0 w"

section \<open>What a copy from memory to memory does\<close>

definition contents_of :: "fuse_buf \<Rightarrow> carr" where
  "contents_of b = take (unat (fb_size b)) (fb_mem b)"

definition in_memory :: "fuse_buf \<Rightarrow> bool" where
  "in_memory b \<longleftrightarrow> \<not> flagged b FUSE_BUF_IS_FD \<and> unat (fb_size b) \<le> length (fb_mem b)"

definition flat :: "fuse_buf list \<Rightarrow> carr" where
  "flat bs = concat (map contents_of bs)"

lemma flat_simps [simp]:
  "flat [] = []" "flat (b # bs) = contents_of b @ flat bs"
  by (simp_all add: flat_def)

lemma length_contents [simp]: "in_memory b \<Longrightarrow> length (contents_of b) = unat (fb_size b)"
  by (simp add: contents_of_def in_memory_def)

lemma size_is_flat:
  assumes "\<forall>b \<in> set bs. in_memory b" "unat n + length (flat bs) < 2 ^ 64 - 1"
  shows "buf_size_from n bs = n + of_nat (length (flat bs))"
  using assms
proof (induction bs arbitrary: n)
  case (Cons b bs)
  have len: "unat n + unat (fb_size b) + length (flat bs) < 2 ^ 64 - 1" using Cons.prems by simp
  then have nb: "unat (n + fb_size b) = unat n + unat (fb_size b)" by (simp add: unat_add_nowrap)
  have "unat ((- 1) - n :: size_t) = 2 ^ 64 - 1 - unat n"
    by (subst unat_sub) (simp_all add: unsigned_minus_1_eq_mask mask_eq_exp_minus_1)
  with len have "\<not> (- 1) - n \<le> fb_size b" by (simp add: word_le_nat_alt)
  with Cons.IH [of "n + fb_size b"] Cons.prems len nb show ?case by (simp add: add.assoc)
qed simp

lemma copy_one_memory:
  assumes "in_memory b" "\<not> flagged d FUSE_BUF_IS_FD" "unat doff + unat (fb_size b) \<le> length (fb_mem d)"
  shows "fuse_buf_copy_one sys d doff b 0 (fb_size b) flags w =
    Inr (sint (fb_size b),
      d\<lparr>fb_mem := take (unat doff) (fb_mem d) @ contents_of b @ drop (unat doff + unat (fb_size b)) (fb_mem d)\<rparr>, w)"
  using assms by (simp add: fuse_buf_copy_one_def Let_def in_memory_def read_cells_def memcpy_cells_def contents_of_def)

lemma copy_rest:
  assumes "\<forall>b \<in> set rest. in_memory b" "\<not> flagged d FUSE_BUF_IS_FD"
    and "length (pre @ rest) < 2 ^ 64" "length rest < fuel"
    and "unat doff + length (flat rest) \<le> unat (fb_size d)" "unat (fb_size d) \<le> length (fb_mem d)"
    and "unat doff = unat copied" "unat (fb_size d) < 2 ^ 63"
  shows "\<exists>v srcv d'. buf_copy_loop sys fuel \<lparr>bv_idx = 0, bv_off = doff, bv_buf = [d]\<rparr>
       \<lparr>bv_idx = of_nat (length pre), bv_off = 0, bv_buf = pre @ rest\<rparr> flags copied w
     = Inr (int (unat copied + length (flat rest)), v, srcv, w) \<and> bv_buf v = [d'] \<and>
       fb_mem d' = take (unat doff) (fb_mem d) @ flat rest @ drop (unat doff + length (flat rest)) (fb_mem d)"
  using assms
proof (induction rest arbitrary: pre fuel d doff copied)
  case Nil
  then obtain fu where "fuel = Suc fu" by (cases fuel) auto
  with Nil show ?case
    by (simp add: fuse_bufvec_current_def bv_count_def sint_size_small)
next
  case (Cons b rest)
  obtain fu where fuel: "fuel = Suc fu" using Cons.prems by (cases fuel) auto
  let ?src = "\<lparr>bv_idx = of_nat (length pre), bv_off = 0, bv_buf = pre @ b # rest\<rparr>"
  let ?dst = "\<lparr>bv_idx = 0, bv_off = doff, bv_buf = [d]\<rparr>"
  let ?m = "take (unat doff) (fb_mem d) @ contents_of b @ drop (unat doff + unat (fb_size b)) (fb_mem d)"
  let ?d = "d\<lparr>fb_mem := ?m\<rparr>"
  have b: "in_memory b" using Cons.prems(1) by simp
  have lens: "unat doff + unat (fb_size b) + length (flat rest) \<le> unat (fb_size d)"
    using Cons.prems(5) b by simp
  have idx: "unat (of_nat (length pre) :: size_t) = length pre" using Cons.prems(3) by simp
  have cnt: "unat (bv_count v) = length pre + Suc (length rest)" if "bv_buf v = pre @ b # rest" for v
    using that Cons.prems(3) unfolding bv_count_def by (subst unat_of_nat_size) auto
  have cs: "fuse_bufvec_current ?src = Some b" "fuse_bufvec_current ?dst = Some d"
    using cnt [of ?src] idx by (simp_all add: fuse_bufvec_current_def word_less_nat_alt) (simp add: bv_count_def)
  have dl: "unat (fb_size d - doff) = unat (fb_size d) - unat doff"
    using lens by (subst unat_sub) (auto simp: word_le_nat_alt)
  have len: "min_size (fb_size b) (fb_size d - doff) = fb_size b"
    using lens dl by (auto simp: min_size_def word_less_nat_alt intro: word_unat_eq_iff [THEN iffD2])
  have sb: "sint (fb_size b) = int (unat (fb_size b))" using lens Cons.prems(8) by (simp add: sint_size_small)
  have one: "fuse_buf_copy_one sys d doff b 0 (fb_size b) flags w = Inr (int (unat (fb_size b)), ?d, w)"
    using copy_one_memory [of b d doff sys flags w] b Cons.prems(2) lens Cons.prems(6) sb by simp
  have nd: "unat (doff + fb_size b) = unat doff + unat (fb_size b)"
    "unat (copied + fb_size b) = unat copied + unat (fb_size b)"
    using lens Cons.prems(7,8) by (auto simp: unat_add_nowrap)
  have sc: "sint (copied + fb_size b) = int (unat copied + unat (fb_size b))"
    using nd lens Cons.prems(7,8) by (subst sint_size_small) auto
  have m: "length ?m = length (fb_mem d)" using lens Cons.prems(6) b by simp
  have tk: "take (unat doff + unat (fb_size b)) ?m = take (unat doff) (fb_mem d) @ contents_of b"
    using lens Cons.prems(6) b by simp
  have dr: "drop (unat doff + unat (fb_size b) + k) ?m = drop (unat doff + unat (fb_size b) + k) (fb_mem d)" for k
    using lens Cons.prems(6) b by (simp add: add.commute)
  have more: "Suc (length pre) < 2 ^ 64" using Cons.prems(3) by simp
  then have ui: "unat (of_nat (length pre) + 1 :: size_t) = Suc (length pre)"
    using unat_of_nat_size [of "Suc (length pre)"] by (simp add: add.commute)
  have asrc: "fuse_bufvec_advance ?src (fb_size b) =
      Inr (if rest = [] then (False, ?src\<lparr>bv_off := fb_size b, bv_idx := of_nat (length pre) + 1\<rparr>)
           else (True, ?src\<lparr>bv_off := 0, bv_idx := of_nat (length pre) + 1\<rparr>))"
    using cs(1) cnt idx ui by (auto simp: fuse_bufvec_advance_def Let_def word_le_nat_alt word_unat_eq_iff)
  have adst: "fuse_bufvec_advance \<lparr>bv_idx = 0, bv_off = doff, bv_buf = [?d]\<rparr> (fb_size b) =
      Inr (if doff + fb_size b = fb_size d then (False, \<lparr>bv_idx = 1, bv_off = doff + fb_size b, bv_buf = [?d]\<rparr>)
           else (True, \<lparr>bv_idx = 0, bv_off = doff + fb_size b, bv_buf = [?d]\<rparr>))"
    using lens nd by (auto simp: fuse_bufvec_advance_def fuse_bufvec_current_def Let_def bv_count_def word_less_nat_alt)
  have step: "buf_copy_loop sys fuel ?dst ?src flags copied w =
      (if rest = [] \<or> doff + fb_size b = fb_size d
       then Inr (int (unat copied + unat (fb_size b)),
         (if rest = [] then \<lparr>bv_idx = 0, bv_off = doff, bv_buf = [?d]\<rparr>
          else \<lparr>bv_idx = 1, bv_off = doff + fb_size b, bv_buf = [?d]\<rparr>),
         (if rest = [] then ?src\<lparr>bv_off := fb_size b, bv_idx := of_nat (length pre) + 1\<rparr>
          else ?src\<lparr>bv_off := 0, bv_idx := of_nat (length pre) + 1\<rparr>), w)
       else buf_copy_loop sys fu \<lparr>bv_idx = 0, bv_off = doff + fb_size b, bv_buf = [?d]\<rparr>
              (?src\<lparr>bv_off := 0, bv_idx := of_nat (length pre) + 1\<rparr>) flags (copied + fb_size b) w)"
    by (simp add: fuel cs len one asrc adst sc Let_def)
  show ?case
  proof (cases "rest = [] \<or> doff + fb_size b = fb_size d")
    case True
    then have "length (flat rest) = 0" using lens nd by auto
    then have "flat rest = []" by simp
    with True step b show ?thesis by auto
  next
    case False
    have "\<exists>v srcv d'. buf_copy_loop sys fu \<lparr>bv_idx = 0, bv_off = doff + fb_size b, bv_buf = [?d]\<rparr>
        \<lparr>bv_idx = of_nat (length (pre @ [b])), bv_off = 0, bv_buf = (pre @ [b]) @ rest\<rparr> flags (copied + fb_size b) w
      = Inr (int (unat (copied + fb_size b) + length (flat rest)), v, srcv, w) \<and> bv_buf v = [d'] \<and>
        fb_mem d' = take (unat (doff + fb_size b)) (fb_mem ?d) @ flat rest @
          drop (unat (doff + fb_size b) + length (flat rest)) (fb_mem ?d)"
      by (rule Cons.IH) (use Cons.prems fuel lens nd m in auto)
    with False step nd tk dr [of "length (flat rest)"] b show ?thesis
      by (auto simp: add.assoc add.commute [of 1])
  qed
qed

lemma copy_to_block:
  assumes "\<forall>b \<in> set bs. in_memory b" "length bs < 2 ^ 63" "\<not> flagged d FUSE_BUF_IS_FD"
    and "length (flat bs) \<le> unat (fb_size d)" "unat (fb_size d) \<le> length (fb_mem d)" "unat (fb_size d) < 2 ^ 63"
  shows "\<exists>v srcv d'. fuse_buf_copy sys \<lparr>bv_idx = 0, bv_off = 0, bv_buf = [d]\<rparr> \<lparr>bv_idx = 0, bv_off = 0, bv_buf = bs\<rparr> flags w
     = Inr (int (length (flat bs)), v, srcv, w) \<and> bv_buf v = [d'] \<and>
       fb_mem d' = flat bs @ drop (length (flat bs)) (fb_mem d)"
  using copy_rest [of bs d "[]" "length bs + 2" 0 0 sys flags w] assms by (simp add: fuse_buf_copy_def)

text \<open>C35: copying a vector of memory buffers into one memory block that is large enough returns the
  sum of the sizes and leaves in the block the contents of the buffers one after the other, followed
  by what the block held; the size computed for the vector is that sum, and nothing outside the
  block changes. The copy always comes to an end.\<close>

theorem memory_copy_concatenates:
  assumes "\<forall>b \<in> set bs. in_memory b" "length bs < 2 ^ 63" "\<not> flagged d FUSE_BUF_IS_FD"
    and "length (flat bs) \<le> unat (fb_size d)" "unat (fb_size d) \<le> length (fb_mem d)" "unat (fb_size d) < 2 ^ 63"
  shows "unat (fuse_buf_size \<lparr>bv_idx = 0, bv_off = 0, bv_buf = bs\<rparr>) = length (flat bs) \<and>
    (\<exists>v srcv d'. fuse_buf_copy sys \<lparr>bv_idx = 0, bv_off = 0, bv_buf = [d]\<rparr> \<lparr>bv_idx = 0, bv_off = 0, bv_buf = bs\<rparr> flags w
     = Inr (int (length (flat bs)), v, srcv, w) \<and> bv_buf v = [d'] \<and>
       fb_mem d' = flat bs @ drop (length (flat bs)) (fb_mem d))"
  using copy_to_block [OF assms] size_is_flat [OF assms(1), of 0] assms(4,6)
  by (simp add: fuse_buf_size_def)

definition sample_buf :: "string \<Rightarrow> fuse_buf" where
  "sample_buf t = \<lparr>fb_size = of_nat (length t), fb_flags = 0, fb_mem = map Some t, fb_fd = -1, fb_pos = 0\<rparr>"

text \<open>System calls that all fail.\<close>

definition no_io :: "unit sys" where
  "no_io = \<lparr>sys_write = (\<lambda>w fd d p. (Inl EINVAL, w)), sys_read = (\<lambda>w fd n p. (Inl EINVAL, w)),
     sys_splice = (\<lambda>w i p j q n fl. (Inl EINVAL, w))\<rparr>"

theorem memory_copy_concatenates_witness:
  "\<exists>v srcv d'. fuse_buf_copy no_io \<lparr>bv_idx = 0, bv_off = 0, bv_buf = [sample_buf ''......'']\<rparr>
       \<lparr>bv_idx = 0, bv_off = 0, bv_buf = [sample_buf ''ab'', sample_buf '''', sample_buf ''cd'']\<rparr> 0 ()
     = Inr (4, v, srcv, ()) \<and> bv_buf v = [d'] \<and> fb_mem d' = map Some ''abcd..''"
  using memory_copy_concatenates [of "[sample_buf ''ab'', sample_buf '''', sample_buf ''cd'']"
      "sample_buf ''......''" no_io 0 "()"]
  by (simp add: sample_buf_def in_memory_def contents_of_def)

end
