(* ===== verification/Fuse_Fs.thy ===== *)
theory Fuse_Fs
  imports Fuse_Ops Fuse_Buf
begin

unbundle bit_operations_syntax

text \<open>
  The table of callbacks and its dispatch (\<^verbatim>\<open>fuse-3.17.2/lib/fuse.c\<close>, the functions \<^verbatim>\<open>fuse_fs_*\<close>): a file
  system fills in the callbacks it supports, and every call goes through a function that checks
  for a missing one. Reads and writes have two forms each, of which a file system may provide
  either.

  A callback takes the file system's state \<open>'s\<close> and returns the result, the objects it was
  given to fill in, and the new state; \<open>'d\<close> is the directory buffer the filler of \<^verbatim>\<open>readdir\<close> works on.
  A path is an option, since the library may pass the null pointer. The file information is
  returned by the callbacks that may change it: \<^verbatim>\<open>open\<close>, \<^verbatim>\<open>opendir\<close> and \<^verbatim>\<open>create\<close>. Debug output and the
  pointer to the private data in the thread's context are left out.
\<close>

section \<open>Data exchanged with the callbacks\<close>

record fuse_file_info =
  fi_flags :: "32 word"
  fi_writepage :: bool
  fi_direct_io :: bool
  fi_keep_cache :: bool
  fi_flush :: bool
  fi_nonseekable :: bool
  fi_flock_release :: bool
  fi_cache_readdir :: bool
  fi_noflush :: bool
  fi_parallel_direct_writes :: bool
  fi_fh :: "64 word"
  fi_lock_owner :: "64 word"
  fi_poll_events :: "32 word"
  fi_backing_id :: "32 word"

definition file_info_zero :: fuse_file_info where
  "file_info_zero = \<lparr>fi_flags = 0, fi_writepage = False, fi_direct_io = False, fi_keep_cache = False,
     fi_flush = False, fi_nonseekable = False, fi_flock_release = False, fi_cache_readdir = False,
     fi_noflush = False, fi_parallel_direct_writes = False, fi_fh = 0, fi_lock_owner = 0,
     fi_poll_events = 0, fi_backing_id = 0\<rparr>"

text \<open>The attributes of a file, with the fields beyond those the program sets; a time is a pair of
  seconds and nanoseconds.\<close>

type_synonym timespec = "64 word \<times> 64 word"

record file_stat = stat +
  st_ino :: "64 word"
  st_uid :: "32 word"
  st_gid :: "32 word"
  st_atim :: timespec
  st_mtim :: timespec
  st_ctim :: timespec
  st_rdev :: "64 word"
  st_blksize :: "64 word"
  st_blocks :: "64 word"

definition file_stat_zero :: file_stat where
  "file_stat_zero = \<lparr>st_mode = 0, st_nlink = 0, st_size = 0, st_ino = 0, st_uid = 0, st_gid = 0,
     st_atim = (0, 0), st_mtim = (0, 0), st_ctim = (0, 0), st_rdev = 0, st_blksize = 0, st_blocks = 0\<rparr>"

record statvfs =
  f_namemax :: "64 word"
  f_bsize :: "64 word"
  f_frsize :: "64 word"
  f_blocks :: "64 word"
  f_bfree :: "64 word"
  f_bavail :: "64 word"
  f_files :: "64 word"
  f_ffree :: "64 word"

definition statvfs_zero :: statvfs where
  "statvfs_zero = \<lparr>f_namemax = 0, f_bsize = 0, f_frsize = 0, f_blocks = 0, f_bfree = 0, f_bavail = 0, f_files = 0, f_ffree = 0\<rparr>"

record flock =
  l_type :: "16 word"
  l_whence :: "16 word"
  l_start :: off_t
  l_len :: off_t
  l_pid :: "32 word"

record dirent =
  d_name :: string
  d_stat :: "file_stat option"
  d_off :: off_t
  d_flags :: "32 word"

text \<open>The connection also carries the older 32-bit request word and the switch for interrupts.\<close>

record fuse_conn_info = conn_info +
  want :: "32 word"
  no_interrupt :: bool

text \<open>The configuration; the timeouts are whole nanoseconds. The tree of nodes keeps its own copy of \<^verbatim>\<open>remember\<close> and \<^verbatim>\<open>nullpath_ok\<close>, taken over after \<^verbatim>\<open>init\<close>.\<close>

record fuse_config =
  cf_set_gid :: bool
  cf_gid :: "32 word"
  cf_set_uid :: bool
  cf_uid :: "32 word"
  cf_set_mode :: bool
  cf_umask :: "32 word"
  cf_entry_timeout :: nat
  cf_negative_timeout :: nat
  cf_attr_timeout :: nat
  cf_intr :: bool
  cf_intr_signal :: int
  cf_remember :: int
  cf_hard_remove :: bool
  cf_use_ino :: bool
  cf_readdir_ino :: bool
  cf_direct_io :: bool
  cf_kernel_cache :: int
  cf_auto_cache :: bool
  cf_ac_attr_timeout_set :: bool
  cf_ac_attr_timeout :: nat
  cf_nullpath_ok :: bool
  cf_show_help :: bool
  cf_modules :: "string option"
  cf_debug :: bool
  cf_fmask :: "32 word"
  cf_dmask :: "32 word"
  cf_no_rofd_flush :: bool
  cf_parallel_direct_writes :: bool

section \<open>The callbacks\<close>

type_synonym 's op_path = "'s \<Rightarrow> string option \<Rightarrow> cerror + int \<times> 's"
type_synonym 's op_info = "'s \<Rightarrow> string option \<Rightarrow> fuse_file_info \<Rightarrow> cerror + int \<times> 's"
type_synonym 's op_open = "'s \<Rightarrow> string option \<Rightarrow> fuse_file_info \<Rightarrow> cerror + int \<times> fuse_file_info \<times> 's"
type_synonym ('d, 's) op_readdir = "'s \<Rightarrow> string option \<Rightarrow> ('d \<Rightarrow> dirent \<Rightarrow> cerror + int \<times> 'd) \<Rightarrow> 'd \<Rightarrow> off_t \<Rightarrow>
  fuse_file_info \<Rightarrow> 32 word \<Rightarrow> cerror + int \<times> 'd \<times> 's"

record ('d, 's) fuse_operations =
  op_getattr :: "('s \<Rightarrow> string option \<Rightarrow> file_stat \<Rightarrow> fuse_file_info option \<Rightarrow> cerror + int \<times> file_stat \<times> 's) option"
  op_readlink :: "('s \<Rightarrow> string option \<Rightarrow> size_t \<Rightarrow> cerror + int \<times> carr \<times> 's) option"
  op_mknod :: "('s \<Rightarrow> string option \<Rightarrow> 32 word \<Rightarrow> 64 word \<Rightarrow> cerror + int \<times> 's) option"
  op_mkdir :: "('s \<Rightarrow> string option \<Rightarrow> 32 word \<Rightarrow> cerror + int \<times> 's) option"
  op_unlink :: "'s op_path option"
  op_rmdir :: "'s op_path option"
  op_symlink :: "('s \<Rightarrow> string \<Rightarrow> string option \<Rightarrow> cerror + int \<times> 's) option"
  op_rename :: "('s \<Rightarrow> string option \<Rightarrow> string option \<Rightarrow> 32 word \<Rightarrow> cerror + int \<times> 's) option"
  op_link :: "('s \<Rightarrow> string option \<Rightarrow> string option \<Rightarrow> cerror + int \<times> 's) option"
  op_chmod :: "('s \<Rightarrow> string option \<Rightarrow> 32 word \<Rightarrow> fuse_file_info option \<Rightarrow> cerror + int \<times> 's) option"
  op_chown :: "('s \<Rightarrow> string option \<Rightarrow> 32 word \<Rightarrow> 32 word \<Rightarrow> fuse_file_info option \<Rightarrow> cerror + int \<times> 's) option"
  op_truncate :: "('s \<Rightarrow> string option \<Rightarrow> off_t \<Rightarrow> fuse_file_info option \<Rightarrow> cerror + int \<times> 's) option"
  op_open :: "'s op_open option"
  op_read :: "('s \<Rightarrow> string option \<Rightarrow> size_t \<Rightarrow> off_t \<Rightarrow> fuse_file_info \<Rightarrow> cerror + int \<times> carr \<times> 's) option"
  op_write :: "('s \<Rightarrow> string option \<Rightarrow> carr \<Rightarrow> size_t \<Rightarrow> off_t \<Rightarrow> fuse_file_info \<Rightarrow> cerror + int \<times> 's) option"
  op_statfs :: "('s \<Rightarrow> string option \<Rightarrow> statvfs \<Rightarrow> cerror + int \<times> statvfs \<times> 's) option"
  op_flush :: "'s op_info option"
  op_release :: "'s op_info option"
  op_fsync :: "('s \<Rightarrow> string option \<Rightarrow> int \<Rightarrow> fuse_file_info \<Rightarrow> cerror + int \<times> 's) option"
  op_setxattr :: "('s \<Rightarrow> string option \<Rightarrow> string \<Rightarrow> carr \<Rightarrow> size_t \<Rightarrow> int \<Rightarrow> cerror + int \<times> 's) option"
  op_getxattr :: "('s \<Rightarrow> string option \<Rightarrow> string \<Rightarrow> size_t \<Rightarrow> cerror + int \<times> carr \<times> 's) option"
  op_listxattr :: "('s \<Rightarrow> string option \<Rightarrow> size_t \<Rightarrow> cerror + int \<times> carr \<times> 's) option"
  op_removexattr :: "('s \<Rightarrow> string option \<Rightarrow> string \<Rightarrow> cerror + int \<times> 's) option"
  op_opendir :: "'s op_open option"
  op_readdir :: "('d, 's) op_readdir option"
  op_releasedir :: "'s op_info option"
  op_fsyncdir :: "('s \<Rightarrow> string option \<Rightarrow> int \<Rightarrow> fuse_file_info \<Rightarrow> cerror + int \<times> 's) option"
  op_init :: "('s \<Rightarrow> fuse_conn_info \<Rightarrow> fuse_config \<Rightarrow> cerror + fuse_conn_info \<times> fuse_config \<times> 's) option"
  op_destroy :: "('s \<Rightarrow> cerror + 's) option"
  op_access :: "('s \<Rightarrow> string option \<Rightarrow> int \<Rightarrow> cerror + int \<times> 's) option"
  op_create :: "('s \<Rightarrow> string option \<Rightarrow> 32 word \<Rightarrow> fuse_file_info \<Rightarrow> cerror + int \<times> fuse_file_info \<times> 's) option"
  op_lock :: "('s \<Rightarrow> string option \<Rightarrow> fuse_file_info \<Rightarrow> int \<Rightarrow> flock \<Rightarrow> cerror + int \<times> flock \<times> 's) option"
  op_utimens :: "('s \<Rightarrow> string option \<Rightarrow> timespec \<times> timespec \<Rightarrow> fuse_file_info option \<Rightarrow> cerror + int \<times> 's) option"
  op_bmap :: "('s \<Rightarrow> string option \<Rightarrow> size_t \<Rightarrow> 64 word \<Rightarrow> cerror + int \<times> 64 word \<times> 's) option"
  op_ioctl :: "('s \<Rightarrow> string option \<Rightarrow> 32 word \<Rightarrow> 64 word \<Rightarrow> fuse_file_info \<Rightarrow> 32 word \<Rightarrow> carr \<Rightarrow> cerror + int \<times> carr \<times> 's) option"
  op_poll :: "('s \<Rightarrow> string option \<Rightarrow> fuse_file_info \<Rightarrow> 64 word option \<Rightarrow> 32 word \<Rightarrow> cerror + int \<times> 32 word \<times> 's) option"
  op_write_buf :: "('s \<Rightarrow> string option \<Rightarrow> fuse_bufvec \<Rightarrow> off_t \<Rightarrow> fuse_file_info \<Rightarrow> cerror + int \<times> 's) option"
  op_read_buf :: "('s \<Rightarrow> string option \<Rightarrow> size_t \<Rightarrow> off_t \<Rightarrow> fuse_file_info \<Rightarrow> cerror + int \<times> fuse_bufvec option \<times> 's) option"
  op_flock :: "('s \<Rightarrow> string option \<Rightarrow> fuse_file_info \<Rightarrow> int \<Rightarrow> cerror + int \<times> 's) option"
  op_fallocate :: "('s \<Rightarrow> string option \<Rightarrow> int \<Rightarrow> off_t \<Rightarrow> off_t \<Rightarrow> fuse_file_info \<Rightarrow> cerror + int \<times> 's) option"
  op_copy_file_range :: "('s \<Rightarrow> string option \<Rightarrow> fuse_file_info \<Rightarrow> off_t \<Rightarrow> string option \<Rightarrow> fuse_file_info \<Rightarrow> off_t \<Rightarrow>
    size_t \<Rightarrow> int \<Rightarrow> cerror + int \<times> 's) option"
  op_lseek :: "('s \<Rightarrow> string option \<Rightarrow> off_t \<Rightarrow> int \<Rightarrow> fuse_file_info \<Rightarrow> cerror + int \<times> 's) option"

section \<open>Dispatch\<close>

text \<open>Opening, releasing and asking for the file system's size succeed when the callback is missing;
  everything else answers that the function is not implemented. A missing callback changes
  neither the state nor what it would have filled in.\<close>

definition fuse_fs_getattr ::
    "('d, 's) fuse_operations \<Rightarrow> 's \<Rightarrow> string option \<Rightarrow> file_stat \<Rightarrow> fuse_file_info option \<Rightarrow> cerror + int \<times> file_stat \<times> 's" where
  "fuse_fs_getattr ops s path buf fi =
     (case op_getattr ops of Some op_fn \<Rightarrow> op_fn s path buf fi | None \<Rightarrow> Inr (- ENOSYS, buf, s))"

definition fuse_fs_rename ::
    "('d, 's) fuse_operations \<Rightarrow> 's \<Rightarrow> string option \<Rightarrow> string option \<Rightarrow> 32 word \<Rightarrow> cerror + int \<times> 's" where
  "fuse_fs_rename ops s oldpath newpath flags =
     (case op_rename ops of Some op_fn \<Rightarrow> op_fn s oldpath newpath flags | None \<Rightarrow> Inr (- ENOSYS, s))"

definition fuse_fs_unlink ::
    "('d, 's) fuse_operations \<Rightarrow> 's \<Rightarrow> string option \<Rightarrow> cerror + int \<times> 's" where
  "fuse_fs_unlink ops s path =
     (case op_unlink ops of Some op_fn \<Rightarrow> op_fn s path | None \<Rightarrow> Inr (- ENOSYS, s))"

definition fuse_fs_rmdir ::
    "('d, 's) fuse_operations \<Rightarrow> 's \<Rightarrow> string option \<Rightarrow> cerror + int \<times> 's" where
  "fuse_fs_rmdir ops s path =
     (case op_rmdir ops of Some op_fn \<Rightarrow> op_fn s path | None \<Rightarrow> Inr (- ENOSYS, s))"

definition fuse_fs_symlink ::
    "('d, 's) fuse_operations \<Rightarrow> 's \<Rightarrow> string \<Rightarrow> string option \<Rightarrow> cerror + int \<times> 's" where
  "fuse_fs_symlink ops s linkname path =
     (case op_symlink ops of Some op_fn \<Rightarrow> op_fn s linkname path | None \<Rightarrow> Inr (- ENOSYS, s))"

definition fuse_fs_link ::
    "('d, 's) fuse_operations \<Rightarrow> 's \<Rightarrow> string option \<Rightarrow> string option \<Rightarrow> cerror + int \<times> 's" where
  "fuse_fs_link ops s oldpath newpath =
     (case op_link ops of Some op_fn \<Rightarrow> op_fn s oldpath newpath | None \<Rightarrow> Inr (- ENOSYS, s))"

definition fuse_fs_release ::
    "('d, 's) fuse_operations \<Rightarrow> 's \<Rightarrow> string option \<Rightarrow> fuse_file_info \<Rightarrow> cerror + int \<times> 's" where
  "fuse_fs_release ops s path fi =
     (case op_release ops of Some op_fn \<Rightarrow> op_fn s path fi | None \<Rightarrow> Inr (0, s))"

definition fuse_fs_opendir ::
    "('d, 's) fuse_operations \<Rightarrow> 's \<Rightarrow> string option \<Rightarrow> fuse_file_info \<Rightarrow> cerror + int \<times> fuse_file_info \<times> 's" where
  "fuse_fs_opendir ops s path fi =
     (case op_opendir ops of Some op_fn \<Rightarrow> op_fn s path fi | None \<Rightarrow> Inr (0, fi, s))"

definition fuse_fs_open ::
    "('d, 's) fuse_operations \<Rightarrow> 's \<Rightarrow> string option \<Rightarrow> fuse_file_info \<Rightarrow> cerror + int \<times> fuse_file_info \<times> 's" where
  "fuse_fs_open ops s path fi =
     (case op_open ops of Some op_fn \<Rightarrow> op_fn s path fi | None \<Rightarrow> Inr (0, fi, s))"

section \<open>Reading and writing\<close>

text \<open>A result of type \<^verbatim>\<open>ssize_t\<close> stored in an \<^verbatim>\<open>int\<close>.\<close>

definition int_of_ssize :: "int \<Rightarrow> int" where
  "int_of_ssize r = sint (word_of_int r :: 32 word)"

text \<open>The buffer vector returned is the one stored through \<open>bufp\<close>, also when the read fails after it was
  stored. The vector's own block has 72 bytes. \<open>mem\<close> says which allocations succeed.\<close>

definition fuse_fs_read_buf ::
    "(nat \<Rightarrow> bool) \<Rightarrow> ('d, 's) fuse_operations \<Rightarrow> 's \<Rightarrow> string option \<Rightarrow> fuse_bufvec option \<Rightarrow> size_t \<Rightarrow> off_t \<Rightarrow>
       fuse_file_info \<Rightarrow> cerror + int \<times> fuse_bufvec option \<times> 's" where
  "fuse_fs_read_buf mem ops s path bufp sz off fi =
     (case op_read_buf ops of
        Some read_buf \<Rightarrow>
          cbind (read_buf s path sz off fi) (\<lambda>(res, buf, s1).
            if res < 0 then Inr (res, buf, s1) else if buf = None then Inl NullDeref else Inr (0, buf, s1))
      | None \<Rightarrow>
          (case op_read ops of
             Some op_fn \<Rightarrow>
               if \<not> mem 72 \<or> \<not> mem (unat sz) then Inr (- ENOMEM, bufp, s)
               else cbind (op_fn s path sz off fi) (\<lambda>(res, out, s1).
                    cbind (memcpy_cells (replicate (unat sz) None) 0 out) (\<lambda>block.
                    let b = \<lparr>fb_size = (if 0 \<le> res then of_int res else sz), fb_flags = 0, fb_mem = block,
                             fb_fd = -1, fb_pos = 0\<rparr>
                    in Inr (if res < 0 then res else 0, Some \<lparr>bv_idx = 0, bv_off = 0, bv_buf = [b]\<rparr>, s1)))
           | None \<Rightarrow> Inr (- ENOSYS, bufp, s)))"

text \<open>The bytes returned are those in the caller's block of \<open>sz\<close> bytes, which is indeterminate before.\<close>

definition fuse_fs_read ::
    "'s sys \<Rightarrow> ('d, 's) fuse_operations \<Rightarrow> 's \<Rightarrow> string option \<Rightarrow> size_t \<Rightarrow> off_t \<Rightarrow> fuse_file_info \<Rightarrow>
       cerror + int \<times> carr \<times> 's" where
  "fuse_fs_read sys ops s path sz off fi =
     (case op_read_buf ops of
        Some read_buf \<Rightarrow>
          cbind (read_buf s path sz off fi) (\<lambda>(res, buf, s1).
            if res \<noteq> 0 then Inr (res, replicate (unat sz) None, s1)
            else case buf of
                   None \<Rightarrow> Inl NullDeref
                 | Some srcv \<Rightarrow>
                     let dst = \<lparr>fb_size = sz, fb_flags = 0, fb_mem = replicate (unat sz) None, fb_fd = -1, fb_pos = 0\<rparr>
                     in cbind (fuse_buf_copy sys \<lparr>bv_idx = 0, bv_off = 0, bv_buf = [dst]\<rparr> srcv 0 s1)
                          (\<lambda>(n, dstv, srcv1, s2). Inr (int_of_ssize n, fb_mem (bv_buf dstv ! 0), s2)))
      | None \<Rightarrow>
          (case op_read ops of
             Some op_fn \<Rightarrow>
               cbind (op_fn s path sz off fi) (\<lambda>(res, out, s1).
               cbind (memcpy_cells (replicate (unat sz) None) 0 out) (\<lambda>block. Inr (res, block, s1)))
           | None \<Rightarrow> Inr (- ENOSYS, replicate (unat sz) None, s)))"

text \<open>A single memory buffer is passed on as it is; anything else is first copied into one block.\<close>

definition fuse_fs_write_buf ::
    "(nat \<Rightarrow> bool) \<Rightarrow> 's sys \<Rightarrow> ('d, 's) fuse_operations \<Rightarrow> 's \<Rightarrow> string option \<Rightarrow> fuse_bufvec \<Rightarrow> off_t \<Rightarrow>
       fuse_file_info \<Rightarrow> cerror + int \<times> 's" where
  "fuse_fs_write_buf mem sys ops s path buf off fi =
     (if op_write_buf ops = None \<and> op_write ops = None then Inr (- ENOSYS, s)
      else if bv_idx buf \<noteq> 0 \<or> bv_off buf \<noteq> 0 then Inl AssertFail
      else case (op_write_buf ops, op_write ops) of
             (Some write_buf, _) \<Rightarrow> write_buf s path buf off fi
           | (None, None) \<Rightarrow> Inr (- ENOSYS, s)
           | (None, Some op_fn) \<Rightarrow>
               let sz = fuse_buf_size buf
               in if length (bv_buf buf) = 1 \<and> \<not> flagged (bv_buf buf ! 0) FUSE_BUF_IS_FD
                  then op_fn s path (fb_mem (bv_buf buf ! 0)) (fb_size (bv_buf buf ! 0)) off fi
                  else if \<not> mem (unat sz) then Inr (- ENOMEM, s)
                  else let tmp = \<lparr>fb_size = sz, fb_flags = 0, fb_mem = replicate (unat sz) None, fb_fd = -1, fb_pos = 0\<rparr>
                       in cbind (fuse_buf_copy sys \<lparr>bv_idx = 0, bv_off = 0, bv_buf = [tmp]\<rparr> buf 0 s)
                            (\<lambda>(n, tmpv, srcv, s1).
                               let res = int_of_ssize n
                               in if res \<le> 0 then Inr (res, s1)
                                  else op_fn s1 path (fb_mem (bv_buf tmpv ! 0)) (of_int res) off fi))"

definition fuse_fs_write ::
    "(nat \<Rightarrow> bool) \<Rightarrow> 's sys \<Rightarrow> ('d, 's) fuse_operations \<Rightarrow> 's \<Rightarrow> string option \<Rightarrow> carr \<Rightarrow> size_t \<Rightarrow> off_t \<Rightarrow>
       fuse_file_info \<Rightarrow> cerror + int \<times> 's" where
  "fuse_fs_write mem sys ops s path block sz off fi =
     fuse_fs_write_buf mem sys ops s path
       ((fuse_bufvec_init sz)\<lparr>bv_buf := [(bv_buf (fuse_bufvec_init sz) ! 0)\<lparr>fb_mem := block\<rparr>]\<rparr>) off fi"

section \<open>The remaining operations\<close>

definition fuse_fs_fsync ::
    "('d, 's) fuse_operations \<Rightarrow> 's \<Rightarrow> string option \<Rightarrow> int \<Rightarrow> fuse_file_info \<Rightarrow> cerror + int \<times> 's" where
  "fuse_fs_fsync ops s path datasync fi =
     (case op_fsync ops of Some op_fn \<Rightarrow> op_fn s path datasync fi | None \<Rightarrow> Inr (- ENOSYS, s))"

definition fuse_fs_fsyncdir ::
    "('d, 's) fuse_operations \<Rightarrow> 's \<Rightarrow> string option \<Rightarrow> int \<Rightarrow> fuse_file_info \<Rightarrow> cerror + int \<times> 's" where
  "fuse_fs_fsyncdir ops s path datasync fi =
     (case op_fsyncdir ops of Some op_fn \<Rightarrow> op_fn s path datasync fi | None \<Rightarrow> Inr (- ENOSYS, s))"

definition fuse_fs_flush ::
    "('d, 's) fuse_operations \<Rightarrow> 's \<Rightarrow> string option \<Rightarrow> fuse_file_info \<Rightarrow> cerror + int \<times> 's" where
  "fuse_fs_flush ops s path fi =
     (case op_flush ops of Some op_fn \<Rightarrow> op_fn s path fi | None \<Rightarrow> Inr (- ENOSYS, s))"

definition fuse_fs_statfs ::
    "('d, 's) fuse_operations \<Rightarrow> 's \<Rightarrow> string option \<Rightarrow> statvfs \<Rightarrow> cerror + int \<times> statvfs \<times> 's" where
  "fuse_fs_statfs ops s path buf =
     (case op_statfs ops of
        Some op_fn \<Rightarrow> op_fn s path buf
      | None \<Rightarrow> Inr (0, buf\<lparr>f_namemax := 255, f_bsize := 512\<rparr>, s))"

definition fuse_fs_releasedir ::
    "('d, 's) fuse_operations \<Rightarrow> 's \<Rightarrow> string option \<Rightarrow> fuse_file_info \<Rightarrow> cerror + int \<times> 's" where
  "fuse_fs_releasedir ops s path fi =
     (case op_releasedir ops of Some op_fn \<Rightarrow> op_fn s path fi | None \<Rightarrow> Inr (0, s))"

definition fuse_fs_readdir ::
    "('d, 's) fuse_operations \<Rightarrow> 's \<Rightarrow> string option \<Rightarrow> ('d \<Rightarrow> dirent \<Rightarrow> cerror + int \<times> 'd) \<Rightarrow> 'd \<Rightarrow> off_t \<Rightarrow> fuse_file_info \<Rightarrow> 32 word \<Rightarrow> cerror + int \<times> 'd \<times> 's" where
  "fuse_fs_readdir ops s path filler buf off fi flags =
     (case op_readdir ops of Some op_fn \<Rightarrow> op_fn s path filler buf off fi flags | None \<Rightarrow> Inr (- ENOSYS, buf, s))"

definition fuse_fs_create ::
    "('d, 's) fuse_operations \<Rightarrow> 's \<Rightarrow> string option \<Rightarrow> 32 word \<Rightarrow> fuse_file_info \<Rightarrow> cerror + int \<times> fuse_file_info \<times> 's" where
  "fuse_fs_create ops s path mode fi =
     (case op_create ops of Some op_fn \<Rightarrow> op_fn s path mode fi | None \<Rightarrow> Inr (- ENOSYS, fi, s))"

definition fuse_fs_lock ::
    "('d, 's) fuse_operations \<Rightarrow> 's \<Rightarrow> string option \<Rightarrow> fuse_file_info \<Rightarrow> int \<Rightarrow> flock \<Rightarrow> cerror + int \<times> flock \<times> 's" where
  "fuse_fs_lock ops s path fi cmd lock =
     (case op_lock ops of Some op_fn \<Rightarrow> op_fn s path fi cmd lock | None \<Rightarrow> Inr (- ENOSYS, lock, s))"

definition fuse_fs_flock ::
    "('d, 's) fuse_operations \<Rightarrow> 's \<Rightarrow> string option \<Rightarrow> fuse_file_info \<Rightarrow> int \<Rightarrow> cerror + int \<times> 's" where
  "fuse_fs_flock ops s path fi op =
     (case op_flock ops of Some op_fn \<Rightarrow> op_fn s path fi op | None \<Rightarrow> Inr (- ENOSYS, s))"

definition fuse_fs_chown ::
    "('d, 's) fuse_operations \<Rightarrow> 's \<Rightarrow> string option \<Rightarrow> 32 word \<Rightarrow> 32 word \<Rightarrow> fuse_file_info option \<Rightarrow> cerror + int \<times> 's" where
  "fuse_fs_chown ops s path uid gid fi =
     (case op_chown ops of Some op_fn \<Rightarrow> op_fn s path uid gid fi | None \<Rightarrow> Inr (- ENOSYS, s))"

definition fuse_fs_truncate ::
    "('d, 's) fuse_operations \<Rightarrow> 's \<Rightarrow> string option \<Rightarrow> off_t \<Rightarrow> fuse_file_info option \<Rightarrow> cerror + int \<times> 's" where
  "fuse_fs_truncate ops s path sz fi =
     (case op_truncate ops of Some op_fn \<Rightarrow> op_fn s path sz fi | None \<Rightarrow> Inr (- ENOSYS, s))"

definition fuse_fs_utimens ::
    "('d, 's) fuse_operations \<Rightarrow> 's \<Rightarrow> string option \<Rightarrow> timespec \<times> timespec \<Rightarrow> fuse_file_info option \<Rightarrow> cerror + int \<times> 's" where
  "fuse_fs_utimens ops s path tv fi =
     (case op_utimens ops of Some op_fn \<Rightarrow> op_fn s path tv fi | None \<Rightarrow> Inr (- ENOSYS, s))"

definition fuse_fs_access ::
    "('d, 's) fuse_operations \<Rightarrow> 's \<Rightarrow> string option \<Rightarrow> int \<Rightarrow> cerror + int \<times> 's" where
  "fuse_fs_access ops s path amode =
     (case op_access ops of Some op_fn \<Rightarrow> op_fn s path amode | None \<Rightarrow> Inr (- ENOSYS, s))"

definition fuse_fs_readlink ::
    "('d, 's) fuse_operations \<Rightarrow> 's \<Rightarrow> string option \<Rightarrow> size_t \<Rightarrow> cerror + int \<times> carr \<times> 's" where
  "fuse_fs_readlink ops s path len =
     (case op_readlink ops of Some op_fn \<Rightarrow> op_fn s path len | None \<Rightarrow> Inr (- ENOSYS, [], s))"

definition fuse_fs_mknod ::
    "('d, 's) fuse_operations \<Rightarrow> 's \<Rightarrow> string option \<Rightarrow> 32 word \<Rightarrow> 64 word \<Rightarrow> cerror + int \<times> 's" where
  "fuse_fs_mknod ops s path mode rdev =
     (case op_mknod ops of Some op_fn \<Rightarrow> op_fn s path mode rdev | None \<Rightarrow> Inr (- ENOSYS, s))"

definition fuse_fs_mkdir ::
    "('d, 's) fuse_operations \<Rightarrow> 's \<Rightarrow> string option \<Rightarrow> 32 word \<Rightarrow> cerror + int \<times> 's" where
  "fuse_fs_mkdir ops s path mode =
     (case op_mkdir ops of Some op_fn \<Rightarrow> op_fn s path mode | None \<Rightarrow> Inr (- ENOSYS, s))"

definition fuse_fs_setxattr ::
    "('d, 's) fuse_operations \<Rightarrow> 's \<Rightarrow> string option \<Rightarrow> string \<Rightarrow> carr \<Rightarrow> size_t \<Rightarrow> int \<Rightarrow> cerror + int \<times> 's" where
  "fuse_fs_setxattr ops s path name val sz flags =
     (case op_setxattr ops of Some op_fn \<Rightarrow> op_fn s path name val sz flags | None \<Rightarrow> Inr (- ENOSYS, s))"

definition fuse_fs_getxattr ::
    "('d, 's) fuse_operations \<Rightarrow> 's \<Rightarrow> string option \<Rightarrow> string \<Rightarrow> size_t \<Rightarrow> cerror + int \<times> carr \<times> 's" where
  "fuse_fs_getxattr ops s path name sz =
     (case op_getxattr ops of Some op_fn \<Rightarrow> op_fn s path name sz | None \<Rightarrow> Inr (- ENOSYS, [], s))"

definition fuse_fs_listxattr ::
    "('d, 's) fuse_operations \<Rightarrow> 's \<Rightarrow> string option \<Rightarrow> size_t \<Rightarrow> cerror + int \<times> carr \<times> 's" where
  "fuse_fs_listxattr ops s path sz =
     (case op_listxattr ops of Some op_fn \<Rightarrow> op_fn s path sz | None \<Rightarrow> Inr (- ENOSYS, [], s))"

definition fuse_fs_bmap ::
    "('d, 's) fuse_operations \<Rightarrow> 's \<Rightarrow> string option \<Rightarrow> size_t \<Rightarrow> 64 word \<Rightarrow> cerror + int \<times> 64 word \<times> 's" where
  "fuse_fs_bmap ops s path blocksz idx =
     (case op_bmap ops of Some op_fn \<Rightarrow> op_fn s path blocksz idx | None \<Rightarrow> Inr (- ENOSYS, idx, s))"

definition fuse_fs_removexattr ::
    "('d, 's) fuse_operations \<Rightarrow> 's \<Rightarrow> string option \<Rightarrow> string \<Rightarrow> cerror + int \<times> 's" where
  "fuse_fs_removexattr ops s path name =
     (case op_removexattr ops of Some op_fn \<Rightarrow> op_fn s path name | None \<Rightarrow> Inr (- ENOSYS, s))"

definition fuse_fs_ioctl ::
    "('d, 's) fuse_operations \<Rightarrow> 's \<Rightarrow> string option \<Rightarrow> 32 word \<Rightarrow> 64 word \<Rightarrow> fuse_file_info \<Rightarrow> 32 word \<Rightarrow> carr \<Rightarrow> cerror + int \<times> carr \<times> 's" where
  "fuse_fs_ioctl ops s path cmd arg fi flags data =
     (case op_ioctl ops of Some op_fn \<Rightarrow> op_fn s path cmd arg fi flags data | None \<Rightarrow> Inr (- ENOSYS, data, s))"

definition fuse_fs_poll ::
    "('d, 's) fuse_operations \<Rightarrow> 's \<Rightarrow> string option \<Rightarrow> fuse_file_info \<Rightarrow> 64 word option \<Rightarrow> 32 word \<Rightarrow> cerror + int \<times> 32 word \<times> 's" where
  "fuse_fs_poll ops s path fi ph revents =
     (case op_poll ops of Some op_fn \<Rightarrow> op_fn s path fi ph revents | None \<Rightarrow> Inr (- ENOSYS, revents, s))"

definition fuse_fs_fallocate ::
    "('d, 's) fuse_operations \<Rightarrow> 's \<Rightarrow> string option \<Rightarrow> int \<Rightarrow> off_t \<Rightarrow> off_t \<Rightarrow> fuse_file_info \<Rightarrow> cerror + int \<times> 's" where
  "fuse_fs_fallocate ops s path mode offset len fi =
     (case op_fallocate ops of Some op_fn \<Rightarrow> op_fn s path mode offset len fi | None \<Rightarrow> Inr (- ENOSYS, s))"

definition fuse_fs_copy_file_range ::
    "('d, 's) fuse_operations \<Rightarrow> 's \<Rightarrow> string option \<Rightarrow> fuse_file_info \<Rightarrow> off_t \<Rightarrow> string option \<Rightarrow> fuse_file_info \<Rightarrow> off_t \<Rightarrow> size_t \<Rightarrow> int \<Rightarrow> cerror + int \<times> 's" where
  "fuse_fs_copy_file_range ops s path_in fi_in off_in path_out fi_out off_out len flags =
     (case op_copy_file_range ops of Some op_fn \<Rightarrow> op_fn s path_in fi_in off_in path_out fi_out off_out len flags | None \<Rightarrow> Inr (- ENOSYS, s))"

definition fuse_fs_lseek ::
    "('d, 's) fuse_operations \<Rightarrow> 's \<Rightarrow> string option \<Rightarrow> off_t \<Rightarrow> int \<Rightarrow> fuse_file_info \<Rightarrow> cerror + int \<times> 's" where
  "fuse_fs_lseek ops s path off whence fi =
     (case op_lseek ops of Some op_fn \<Rightarrow> op_fn s path off whence fi | None \<Rightarrow> Inr (- ENOSYS, s))"

definition fuse_fs_chmod ::
    "('d, 's) fuse_operations \<Rightarrow> 's \<Rightarrow> string option \<Rightarrow> 32 word \<Rightarrow> fuse_file_info option \<Rightarrow> cerror + int \<times> 's" where
  "fuse_fs_chmod ops s path mode fi =
     (case op_chmod ops of Some op_fn \<Rightarrow> op_fn s path mode fi | None \<Rightarrow> Inr (- ENOSYS, s))"

section \<open>Start and end\<close>

definition FUSE_CAP_POSIX_LOCKS :: "64 word" where "FUSE_CAP_POSIX_LOCKS = 2"
definition FUSE_CAP_EXPORT_SUPPORT :: "64 word" where "FUSE_CAP_EXPORT_SUPPORT = 16"
definition FUSE_CAP_SPLICE_READ :: "64 word" where "FUSE_CAP_SPLICE_READ = 512"
definition FUSE_CAP_FLOCK_LOCKS :: "64 word" where "FUSE_CAP_FLOCK_LOCKS = 1024"

definition fuse_lower_32_bits :: "64 word \<Rightarrow> 32 word" where
  "fuse_lower_32_bits nr = ucast (nr AND 0xffffffff)"

definition fuse_higher_32_bits :: "64 word \<Rightarrow> 64 word" where
  "fuse_higher_32_bits nr = nr AND NOT 0xffffffff"

definition convert_to_conn_want_ext :: "fuse_conn_info \<Rightarrow> 64 word \<Rightarrow> 32 word \<Rightarrow> int \<times> fuse_conn_info" where
  "convert_to_conn_want_ext conn want_ext_default want_default =
     (let differs = want conn \<noteq> want_default \<and> fuse_lower_32_bits (want_ext conn) \<noteq> want conn
      in if differs \<and> want_ext conn \<noteq> want_ext_default then (- EINVAL, conn)
         else let conn1 = (if differs
                           then conn\<lparr>want_ext := fuse_higher_32_bits (want_ext conn) OR ucast (want conn)\<rparr>
                           else conn)
              in (0, conn1\<lparr>want := fuse_lower_32_bits (want_ext conn1)\<rparr>))"

text \<open>A file system that sets both request words ends the process.\<close>

definition fuse_fs_init ::
    "('d, 's) fuse_operations \<Rightarrow> 's \<Rightarrow> fuse_conn_info \<Rightarrow> fuse_config \<Rightarrow> cerror + fuse_conn_info \<times> fuse_config \<times> 's" where
  "fuse_fs_init ops s conn cfg =
     (let c1 = (if op_write_buf ops = None then fuse_unset_feature_flag conn FUSE_CAP_SPLICE_READ else conn);
          c2 = (if op_lock ops = None then fuse_unset_feature_flag c1 FUSE_CAP_POSIX_LOCKS else c1);
          c3 = (if op_flock ops = None then fuse_unset_feature_flag c2 FUSE_CAP_FLOCK_LOCKS else c2)
      in case op_init ops of
           None \<Rightarrow> Inr (c3, cfg, s)
         | Some op_fn \<Rightarrow>
             let want_ext_default = want_ext c3; want_default = fuse_lower_32_bits (want_ext c3)
             in cbind (op_fn s (c3\<lparr>want := want_default\<rparr>) cfg) (\<lambda>(c4, cfg1, s1).
                let (rc, c5) = convert_to_conn_want_ext c4 want_ext_default want_default
                in if rc \<noteq> 0 then Inl AssertFail else Inr (c5, cfg1, s1)))"

definition fuse_fs_destroy :: "('d, 's) fuse_operations \<Rightarrow> 's \<Rightarrow> cerror + 's" where
  "fuse_fs_destroy ops s = (case op_destroy ops of Some op_fn \<Rightarrow> op_fn s | None \<Rightarrow> Inr s)"

end
