(* ===== verification/Posix_Locks.thy ===== *)
theory Posix_Locks
  imports Fuse_Fs
begin

text \<open>
  Byte-range locks of libfuse (\<^verbatim>\<open>fuse-3.17.2/lib/fuse.c\<close>): every node has a list of locks, each a range
  of bytes held by an owner for reading or writing. A new lock or unlock replaces what its owner
  held in the range; locks of the same kind that touch are joined, and a lock that is partly
  covered is cut or split.

  Positions are \<^verbatim>\<open>off_t\<close>, modelled as \<open>int\<close>: with \<open>0 \<le> start \<le> end \<le> OFFSET_MAX\<close> none of the computations
  leaves its range.
\<close>

section \<open>Locks and the list of a node\<close>

definition F_RDLCK :: "16 word" where "F_RDLCK = 0"
definition F_WRLCK :: "16 word" where "F_WRLCK = 1"
definition F_UNLCK :: "16 word" where "F_UNLCK = 2"

record plock =
  k_type :: "16 word"
  k_start :: int
  k_end :: int
  k_pid :: "32 word"
  k_owner :: "64 word"

definition OFFSET_MAX :: int where "OFFSET_MAX = 0x7fffffffffffffff"

definition conflicts :: "plock \<Rightarrow> plock \<Rightarrow> bool" where
  "conflicts l lock \<longleftrightarrow> k_owner l \<noteq> k_owner lock \<and> k_start lock \<le> k_end l \<and> k_start l \<le> k_end lock \<and>
     (k_type l = F_WRLCK \<or> k_type lock = F_WRLCK)"

fun locks_conflict :: "plock list \<Rightarrow> plock \<Rightarrow> plock option" where
  "locks_conflict [] lock = None"
| "locks_conflict (l # ls) lock = (if conflicts l lock then Some l else locks_conflict ls lock)"

text \<open>What is put in front of the rest of the list when the search for the place ends.\<close>

definition insert_here :: "plock \<Rightarrow> plock list \<Rightarrow> plock list" where
  "insert_here lock ls = (if k_type lock \<noteq> F_UNLCK then lock # ls else ls)"

text \<open>The loop of \<^verbatim>\<open>locks_insert\<close>. \<open>spare\<close> tells whether the second block allocated before the loop is still
  there; a split uses it up.\<close>

function insert_loop :: "bool \<Rightarrow> plock \<Rightarrow> plock list \<Rightarrow> cerror + plock list" where
  "insert_loop spare lock [] = Inr (insert_here lock [])"
| "insert_loop spare lock (l # ls) =
     (let skip = (\<lambda>lock l. cbind (insert_loop spare lock ls) (\<lambda>r. Inr (l # r)))
      in if k_owner l \<noteq> k_owner lock then skip lock l
         else if k_type lock = k_type l
         then if k_end l < k_start lock - 1 then skip lock l
              else if k_end lock < k_start l - 1 then Inr (insert_here lock (l # ls))
              else if k_start l \<le> k_start lock \<and> k_end lock \<le> k_end l then Inr (l # ls)
              else insert_loop spare
                     (lock\<lparr>k_start := (if k_start l < k_start lock then k_start l else k_start lock),
                           k_end := (if k_end lock < k_end l then k_end l else k_end lock)\<rparr>) ls
         else if k_end l < k_start lock then skip lock l
         else if k_end lock < k_start l then Inr (insert_here lock (l # ls))
         else if k_start lock \<le> k_start l \<and> k_end l \<le> k_end lock then insert_loop spare lock ls
         else if k_end l \<le> k_end lock then skip lock (l\<lparr>k_end := k_start lock - 1\<rparr>)
         else if k_start lock \<le> k_start l then Inr (insert_here lock (l\<lparr>k_start := k_end lock + 1\<rparr> # ls))
         else if \<not> spare then Inl NullDeref
         else cbind (insert_loop False lock (l\<lparr>k_start := k_end lock + 1\<rparr> # ls)) (\<lambda>r.
              Inr (l\<lparr>k_end := k_start lock - 1\<rparr> # r)))"
  by pat_completeness auto
termination
  by (relation "measure (\<lambda>(spare, lock, ls). length ls + (if spare then 1 else 0))") auto

declare insert_loop.simps(2) [simp del]

text \<open>Both blocks are allocated unless everything is unlocked at once. The result is the error and the
  new list.\<close>

definition locks_insert :: "(nat \<Rightarrow> bool) \<Rightarrow> plock list \<Rightarrow> plock \<Rightarrow> cerror + int \<times> plock list" where
  "locks_insert mem ls lock =
     (let whole = k_type lock = F_UNLCK \<and> k_start lock = 0 \<and> k_end lock = OFFSET_MAX
      in if \<not> whole \<and> \<not> mem 48 then Inr (- ENOLCK, ls)
         else cbind (insert_loop (\<not> whole) lock ls) (\<lambda>r. Inr (0, r)))"

text \<open>The range given by \<^verbatim>\<open>fcntl\<close>'s structure and back; a length of zero stands for the rest of the file. The
  caller fills in the owner.\<close>

definition flock_to_lock :: "flock \<Rightarrow> plock" where
  "flock_to_lock fl =
     \<lparr>k_type = l_type fl, k_start = sint (l_start fl),
      k_end = (if l_len fl \<noteq> 0 then sint (l_start fl) + sint (l_len fl) - 1 else OFFSET_MAX),
      k_pid = l_pid fl, k_owner = 0\<rparr>"

definition lock_to_flock :: "plock \<Rightarrow> flock \<Rightarrow> flock" where
  "lock_to_flock l fl =
     fl\<lparr>l_type := k_type l, l_start := word_of_int (k_start l),
        l_len := (if k_end l = OFFSET_MAX then 0 else word_of_int (k_end l - k_start l + 1)), l_pid := k_pid l\<rparr>"

section \<open>The lock held on a byte\<close>

text \<open>A well-formed list: proper ranges, no unlock entries, and the locks of an owner in ascending
  order without overlap.\<close>

definition range_ok :: "plock \<Rightarrow> bool" where
  "range_ok l \<longleftrightarrow> 0 \<le> k_start l \<and> k_start l \<le> k_end l \<and> k_end l \<le> OFFSET_MAX"

definition before :: "plock \<Rightarrow> plock \<Rightarrow> bool" where
  "before a b \<longleftrightarrow> k_owner a = k_owner b \<longrightarrow> k_end a < k_start b"

definition locks_ok :: "plock list \<Rightarrow> bool" where
  "locks_ok ls \<longleftrightarrow> sorted_wrt before ls \<and> (\<forall>l \<in> set ls. range_ok l \<and> k_type l \<noteq> F_UNLCK)"

definition covers :: "64 word \<Rightarrow> int \<Rightarrow> plock \<Rightarrow> bool" where
  "covers ow b l \<longleftrightarrow> k_owner l = ow \<and> k_start l \<le> b \<and> b \<le> k_end l"

fun held :: "plock list \<Rightarrow> 64 word \<Rightarrow> int \<Rightarrow> 16 word" where
  "held [] ow b = F_UNLCK"
| "held (l # ls) ow b = (if covers ow b l then k_type l else held ls ow b)"


lemma held_none: "(\<And>y. y \<in> set ls \<Longrightarrow> k_owner y = ow \<Longrightarrow> b < k_start y) \<Longrightarrow> held ls ow b = F_UNLCK"
  by (induction ls) (auto simp: covers_def dest: leD)

lemma locks_ok_Cons:
  "locks_ok (l # ls) \<longleftrightarrow> (\<forall>y \<in> set ls. before l y) \<and> range_ok l \<and> k_type l \<noteq> F_UNLCK \<and> locks_ok ls"
  by (auto simp: locks_ok_def)

text \<open>What the loop has to achieve: a well-formed list in which the owner holds the new lock on its
  range and nothing else has changed, and which comes after everything the old list and the lock
  come after.\<close>

definition inserted :: "plock \<Rightarrow> plock list \<Rightarrow> plock list \<Rightarrow> bool" where
  "inserted lock ls r \<longleftrightarrow> locks_ok r \<and>
     (\<forall>ow b. held r ow b = (if covers ow b lock then k_type lock else held ls ow b)) \<and>
     (\<forall>x. (\<forall>y \<in> set ls. before x y) \<and> before x lock \<longrightarrow> (\<forall>y \<in> set r. before x y))"

lemma insertedI:
  assumes "locks_ok r" "\<And>ow b. held r ow b = (if covers ow b lock then k_type lock else held ls ow b)"
    and "\<And>x y. \<forall>y \<in> set ls. before x y \<Longrightarrow> before x lock \<Longrightarrow> y \<in> set r \<Longrightarrow> before x y"
  shows "inserted lock ls r"
  using assms unfolding inserted_def by blast

lemma insertedD:
  assumes "inserted lock ls r"
  shows "locks_ok r" "held r ow b = (if covers ow b lock then k_type lock else held ls ow b)"
    "\<forall>y \<in> set ls. before x y \<Longrightarrow> before x lock \<Longrightarrow> y \<in> set r \<Longrightarrow> before x y"
  using assms unfolding inserted_def by blast+

lemma inserted_here:
  assumes "locks_ok ls" "range_ok lock" "\<forall>y \<in> set ls. before lock y"
  shows "inserted lock ls (insert_here lock ls)"
proof (rule insertedI)
  show "locks_ok (insert_here lock ls)" using assms by (simp add: insert_here_def locks_ok_Cons)
  fix ow b
  have "covers ow b lock \<Longrightarrow> held ls ow b = F_UNLCK"
    using assms(3) by (intro held_none) (auto simp: covers_def before_def)
  then show "held (insert_here lock ls) ow b = (if covers ow b lock then k_type lock else held ls ow b)"
    by (cases "k_type lock = F_UNLCK") (simp_all add: insert_here_def)
next
  fix x y
  assume "\<forall>y \<in> set ls. before x y" "before x lock" "y \<in> set (insert_here lock ls)"
  then show "before x y" by (auto simp: insert_here_def split: if_splits)
qed

lemma inserted_skip:
  assumes ins: "inserted lock ls r" and ls: "\<forall>y \<in> set ls. before l' y" "before l' lock"
    and l': "range_ok l'" "k_type l' \<noteq> F_UNLCK" "k_type l' = k_type l"
    and cov: "\<And>ow b. covers ow b l' \<longleftrightarrow> covers ow b l \<and> \<not> covers ow b lock"
    and bef: "\<And>x. before x l \<Longrightarrow> before x l'"
  shows "inserted lock (l # ls) (l' # r)"
proof (rule insertedI)
  show "locks_ok (l' # r)"
    using insertedD(1,3) [OF ins] ls l'(1,2) unfolding locks_ok_Cons by blast
  show "held (l' # r) ow b = (if covers ow b lock then k_type lock else held (l # ls) ow b)" for ow b
    using cov [of ow b] l'(3) by (simp add: insertedD(2) [OF ins])
  show "before x y" if "\<forall>y \<in> set (l # ls). before x y" "before x lock" "y \<in> set (l' # r)" for x y
  proof (cases "y = l'")
    case True
    have "before x l" using that(1) by simp
    then show ?thesis unfolding True by (rule bef)
  next
    case False
    have "\<forall>y \<in> set ls. before x y" "y \<in> set r" using that(1,3) False by simp_all
    then show ?thesis using insertedD(3) [OF ins _ that(2)] by blast
  qed
qed

lemma inserted_cut_front:
  assumes ok: "locks_ok (l # ls)" "range_ok lock" "k_owner l = k_owner lock" "k_start lock \<le> k_start l"
    "k_start l \<le> k_end lock" "k_end lock < k_end l"
  shows "inserted lock (l # ls) (insert_here lock (l\<lparr>k_start := k_end lock + 1\<rparr> # ls))"
proof -
  let ?l = "l\<lparr>k_start := k_end lock + 1\<rparr>"
  have ins: "inserted lock (?l # ls) (insert_here lock (?l # ls))"
    using assms by (intro inserted_here) (auto simp: locks_ok_Cons before_def range_ok_def)
  have cov: "covers ow b ?l \<longleftrightarrow> covers ow b l \<and> \<not> covers ow b lock" for ow b
    using assms by (auto simp: covers_def range_ok_def)
  have bef: "before x l \<Longrightarrow> before x ?l" for x using assms by (auto simp: before_def)
  show ?thesis
  proof (rule insertedI)
    show "locks_ok (insert_here lock (?l # ls))" by (rule insertedD(1) [OF ins])
    show "held (insert_here lock (?l # ls)) ow b =
        (if covers ow b lock then k_type lock else held (l # ls) ow b)" for ow b
      unfolding insertedD(2) [OF ins] using cov [of ow b] by simp
    show "before x y" if "\<forall>y \<in> set (l # ls). before x y" "before x lock"
      "y \<in> set (insert_here lock (?l # ls))" for x y
    proof (rule insertedD(3) [OF ins _ that(2,3)])
      have "before x l" using that(1) by simp
      then have "before x ?l" by (rule bef)
      then show "\<forall>y \<in> set (?l # ls). before x y" using that(1) by simp
    qed
  qed
qed

lemma inserted_split:
  assumes ins: "inserted lock (l\<lparr>k_start := k_end lock + 1\<rparr> # ls) r" (is "inserted lock (?tail # ls) r")
    and ok: "\<forall>y \<in> set ls. before l y" "range_ok l" "k_type l \<noteq> F_UNLCK" "range_ok lock" "k_owner l = k_owner lock"
      "k_start l < k_start lock" "k_end lock < k_end l"
  shows "inserted lock (l # ls) (l\<lparr>k_end := k_start lock - 1\<rparr> # r)" (is "inserted lock _ (?head # r)")
proof (rule insertedI)
  have head: "\<forall>y \<in> set (?tail # ls). before ?head y" "before ?head lock" "range_ok ?head" "k_type ?head \<noteq> F_UNLCK"
    using ok by (auto simp: before_def range_ok_def)
  have "\<forall>y \<in> set r. before ?head y" using insertedD(3) [OF ins head(1,2)] by blast
  with head insertedD(1) [OF ins] show "locks_ok (?head # r)" unfolding locks_ok_Cons by blast
  have cov: "covers ow b ?head \<Longrightarrow> covers ow b l \<and> \<not> covers ow b lock"
    "\<not> covers ow b ?head \<Longrightarrow> \<not> covers ow b lock \<Longrightarrow> covers ow b l = covers ow b ?tail" for ow b
    using ok by (auto simp: covers_def range_ok_def)
  show "held (?head # r) ow b = (if covers ow b lock then k_type lock else held (l # ls) ow b)" for ow b
    using cov [of ow b] unfolding held.simps insertedD(2) [OF ins] by auto
  show "before x y" if "\<forall>y \<in> set (l # ls). before x y" "before x lock" "y \<in> set (?head # r)" for x y
  proof -
    have "before x l" using that(1) by simp
    then have "before x ?head" "before x ?tail" using ok by (auto simp: before_def range_ok_def)
    moreover have "y \<in> set r \<Longrightarrow> before x y"
      using insertedD(3) [OF ins _ that(2)] that(1) \<open>before x ?tail\<close> by simp
    ultimately show ?thesis using that(3) by auto
  qed
qed

text \<open>A lock of the same type that touches the new one is joined with it; a lock of another type that lies
  inside the new one disappears.\<close>

lemma inserted_join:
  assumes ins: "inserted w ls r" and w: "k_type w = k_type lock" "k_type l = k_type lock"
    and cov: "\<And>ow b. covers ow b w \<longleftrightarrow> covers ow b lock \<or> covers ow b l"
    and bef: "\<And>x. before x l \<Longrightarrow> before x lock \<Longrightarrow> before x w"
  shows "inserted lock (l # ls) r"
proof (rule insertedI)
  show "locks_ok r" by (rule insertedD(1) [OF ins])
  show "held r ow b = (if covers ow b lock then k_type lock else held (l # ls) ow b)" for ow b
    unfolding insertedD(2) [OF ins] cov using w by simp
  show "before x y" if "\<forall>y \<in> set (l # ls). before x y" "before x lock" "y \<in> set r" for x y
  proof (rule insertedD(3) [OF ins _ _ that(3)])
    show "\<forall>y \<in> set ls. before x y" using that(1) by simp
    have "before x l" using that(1) by simp
    then show "before x w" using that(2) by (rule bef)
  qed
qed

lemma inserted_delete:
  assumes ins: "inserted lock ls r" and cov: "\<And>ow b. covers ow b l \<Longrightarrow> covers ow b lock"
  shows "inserted lock (l # ls) r"
proof (rule insertedI)
  show "locks_ok r" by (rule insertedD(1) [OF ins])
  show "held r ow b = (if covers ow b lock then k_type lock else held (l # ls) ow b)" for ow b
    unfolding insertedD(2) [OF ins] using cov [of ow b] by auto
  show "before x y" if "\<forall>y \<in> set (l # ls). before x y" "before x lock" "y \<in> set r" for x y
    using insertedD(3) [OF ins _ that(2,3)] that(1) by simp
qed

text \<open>One turn of the loop keeps what the rest of the loop achieves. A second block is needed only for a
  lock that does not reach over everything.\<close>

abbreviation block_left :: "bool \<Rightarrow> plock \<Rightarrow> bool" where
  "block_left spare lock \<equiv> spare \<or> k_start lock = 0 \<and> k_end lock = OFFSET_MAX"

definition loop_works :: "bool \<Rightarrow> plock \<Rightarrow> plock list \<Rightarrow> bool" where
  "loop_works spare lock ls \<longleftrightarrow> (\<exists>r. insert_loop spare lock ls = Inr r \<and> inserted lock ls r)"

lemmas lock_defs = range_ok_def before_def covers_def

lemma loop_skip:
  assumes "loop_works spare lock ls" "\<forall>y \<in> set ls. before l' y" "before l' lock" "range_ok l'" "k_type l' = k_type l"
    "k_type l \<noteq> F_UNLCK" "\<And>ow b. covers ow b l' \<longleftrightarrow> covers ow b l \<and> \<not> covers ow b lock" "\<And>x. before x l \<Longrightarrow> before x l'"
    and "insert_loop spare lock (l # ls) = cbind (insert_loop spare lock ls) (\<lambda>r. Inr (l' # r))"
  shows "loop_works spare lock (l # ls)"
proof -
  from assms(1) obtain r where "insert_loop spare lock ls = Inr r" "inserted lock ls r" by (auto simp: loop_works_def)
  with assms(2-9) inserted_skip [of lock ls r l' l] show ?thesis by (simp add: loop_works_def)
qed

lemma loop_here:
  assumes "locks_ok (l # ls)" "range_ok lock" "before lock l" "k_owner l = k_owner lock"
    and "insert_loop spare lock (l # ls) = Inr (insert_here lock (l # ls))"
  shows "loop_works spare lock (l # ls)"
proof -
  have "inserted lock (l # ls) (insert_here lock (l # ls))"
    using assms(1-4) by (intro inserted_here) (auto simp: locks_ok_Cons lock_defs)
  with assms(5) show ?thesis by (simp add: loop_works_def)
qed

lemma loop_same_type:
  assumes ls: "locks_ok (l # ls)" and lock: "range_ok lock" "block_left spare lock"
    and own: "k_owner l = k_owner lock" and same: "k_type lock = k_type l"
    and ih: "\<And>w. range_ok w \<Longrightarrow> block_left spare w \<Longrightarrow> loop_works spare w ls"
  shows "loop_works spare lock (l # ls)"
proof -
  note ok = ls [unfolded locks_ok_Cons]
  let ?w = "lock\<lparr>k_start := (if k_start l < k_start lock then k_start l else k_start lock),
      k_end := (if k_end lock < k_end l then k_end l else k_end lock)\<rparr>"
  consider (skip) "k_end l < k_start lock - 1" | (here) "k_end lock < k_start l - 1"
    | (out) "k_start l \<le> k_start lock" "k_end lock \<le> k_end l"
    | (join) "\<not> (k_start l \<le> k_start lock \<and> k_end lock \<le> k_end l)"
      "\<not> k_end l < k_start lock - 1" "\<not> k_end lock < k_start l - 1" by blast
  then show ?thesis
  proof cases
    case skip
    with ok own same show ?thesis
      by (intro loop_skip [OF ih [OF lock], of l]) (auto simp: lock_defs insert_loop.simps(2) Let_def)
  next
    case here
    with ok own same lock(1) show ?thesis
      by (intro loop_here [OF ls lock(1)]) (auto simp: lock_defs insert_loop.simps(2) Let_def)
  next
    case out
    then have "covers ow b lock \<Longrightarrow> covers ow b l" for ow b using own by (auto simp: covers_def)
    then have "inserted lock (l # ls) (l # ls)" using ls same by (intro insertedI) auto
    moreover have "\<not> k_end l < k_start lock - 1" "\<not> k_end lock < k_start l - 1" using out lock(1) by (auto simp: lock_defs)
    ultimately show ?thesis using own same out by (simp add: loop_works_def insert_loop.simps(2) Let_def)
  next
    case join
    have w: "range_ok ?w" "block_left spare ?w" using ok lock by (auto simp: lock_defs)
    from ih [OF w] obtain r where r: "insert_loop spare ?w ls = Inr r" "inserted ?w ls r" by (auto simp: loop_works_def)
    have cov: "covers ow b ?w \<longleftrightarrow> covers ow b lock \<or> covers ow b l" for ow b
      using own join ok lock(1) by (auto simp: lock_defs)
    have "inserted lock (l # ls) r"
      by (rule inserted_join [OF r(2) _ _ cov]) (use own same in \<open>auto simp: before_def\<close>)
    with r(1) own same join show ?thesis unfolding loop_works_def by (subst insert_loop.simps(2)) (auto simp: Let_def)
  qed
qed

lemma loop_other_type:
  assumes ls: "locks_ok (l # ls)" and lock: "range_ok lock" "block_left spare lock"
    and own: "k_owner l = k_owner lock" and diff: "k_type lock \<noteq> k_type l" and ih: "loop_works spare lock ls"
  shows "loop_works spare lock (l # ls)"
proof -
  note ok = ls [unfolded locks_ok_Cons]
  let ?head = "l\<lparr>k_end := k_start lock - 1\<rparr>" and ?tail = "l\<lparr>k_start := k_end lock + 1\<rparr>"
  consider (skip) "k_end l < k_start lock" | (here) "k_end lock < k_start l"
    | (delete) "k_start lock \<le> k_start l" "k_end l \<le> k_end lock" "\<not> k_end l < k_start lock" "\<not> k_end lock < k_start l"
    | (cut_end) "k_start l < k_start lock" "k_start lock \<le> k_end l" "k_end l \<le> k_end lock"
    | (cut_start) "k_start lock \<le> k_start l" "k_start l \<le> k_end lock" "k_end lock < k_end l"
    | (split) "k_start l < k_start lock" "k_end lock < k_end l" by linarith
  then show ?thesis
  proof cases
    case skip
    with ok own diff show ?thesis
      by (intro loop_skip [OF ih, of l]) (auto simp: lock_defs insert_loop.simps(2) Let_def)
  next
    case here
    with ok own diff lock(1) show ?thesis
      by (intro loop_here [OF ls lock(1)]) (auto simp: lock_defs insert_loop.simps(2) Let_def)
  next
    case delete
    from ih obtain r where r: "insert_loop spare lock ls = Inr r" "inserted lock ls r" by (auto simp: loop_works_def)
    have "inserted lock (l # ls) r" by (rule inserted_delete [OF r(2)]) (use own delete in \<open>auto simp: covers_def\<close>)
    with r(1) own diff delete show ?thesis by (simp add: loop_works_def insert_loop.simps(2) Let_def)
  next
    case cut_end
    with ok own diff lock(1) show ?thesis
      by (intro loop_skip [OF ih, of ?head]) (auto simp: lock_defs insert_loop.simps(2) Let_def)
  next
    case cut_start
    then have "inserted lock (l # ls) (insert_here lock (?tail # ls))" using inserted_cut_front [OF ls lock(1) own] by simp
    with own diff cut_start lock(1) show ?thesis by (simp add: loop_works_def insert_loop.simps(2) Let_def lock_defs)
  next
    case split
    have "locks_ok (?tail # ls)" "before lock ?tail" using ok split lock(1) by (auto simp: locks_ok_Cons lock_defs)
    then have ins: "inserted lock (?tail # ls) (insert_here lock (?tail # ls))"
      using own ok lock(1) split by (intro inserted_here) (auto simp: lock_defs)
    have "insert_loop False lock (?tail # ls) = Inr (insert_here lock (?tail # ls))"
      using own diff split lock(1) by (simp add: insert_loop.simps(2) Let_def lock_defs)
    moreover have "spare" using lock(2) split ok by (auto simp: lock_defs)
    moreover have "inserted lock (l # ls) (?head # insert_here lock (?tail # ls))"
      by (rule inserted_split [OF ins]) (use ok own split lock(1) in auto)
    ultimately show ?thesis using own diff split lock(1) by (simp add: loop_works_def insert_loop.simps(2) Let_def lock_defs)
  qed
qed

lemma insert_loop_inserted:
  assumes "locks_ok ls" "range_ok lock" "block_left spare lock"
  shows "loop_works spare lock ls"
  using assms
proof (induction ls arbitrary: lock)
  case Nil
  then show ?case using inserted_here [of "[]" lock] by (simp add: loop_works_def)
next
  case (Cons l ls)
  have ih: "\<And>w. range_ok w \<Longrightarrow> block_left spare w \<Longrightarrow> loop_works spare w ls"
    using Cons.IH Cons.prems(1) by (simp add: locks_ok_Cons)
  consider "k_owner l \<noteq> k_owner lock" | "k_owner l = k_owner lock" "k_type lock = k_type l"
    | "k_owner l = k_owner lock" "k_type lock \<noteq> k_type l" by blast
  then show ?case
  proof cases
    case 1
    with Cons.prems(1) show ?thesis
      by (intro loop_skip [OF ih [OF Cons.prems(2,3)], of l]) (auto simp: locks_ok_Cons lock_defs insert_loop.simps(2) Let_def)
  next
    case 2
    with loop_same_type [OF Cons.prems _ _ ih] show ?thesis by blast
  next
    case 3
    with loop_other_type [OF Cons.prems _ _ ih [OF Cons.prems(2,3)]] show ?thesis by blast
  qed
qed

section \<open>What the operations achieve\<close>

lemma held_member: "locks_ok ls \<Longrightarrow> l \<in> set ls \<Longrightarrow> covers ow b l \<Longrightarrow> held ls ow b = k_type l"
  by (induction ls) (auto simp: locks_ok_Cons covers_def before_def)

lemma held_covered: "held ls ow b \<noteq> F_UNLCK \<Longrightarrow> \<exists>l \<in> set ls. covers ow b l \<and> held ls ow b = k_type l"
  by (induction ls) (auto split: if_splits)

lemma locks_conflict_Some: "locks_conflict ls lock = Some l \<Longrightarrow> l \<in> set ls \<and> conflicts l lock"
  by (induction ls) (auto split: if_splits)

lemma locks_conflict_None: "locks_conflict ls lock = None \<longleftrightarrow> (\<forall>l \<in> set ls. \<not> conflicts l lock)"
  by (induction ls) auto

text \<open>C22: setting a lock, or removing one, on a range of bytes changes exactly what the owner holds on
  that range: on every byte of it the owner then holds the new lock, on all other bytes and for
  all other owners nothing changes. The list of the node stays well-formed, and no step runs
  into a missing block. When memory is short the list is left alone.\<close>

theorem insert_sets_range:
  assumes "locks_ok ls" "range_ok lock"
  shows "if mem 48 \<or> k_type lock = F_UNLCK \<and> k_start lock = 0 \<and> k_end lock = OFFSET_MAX
    then \<exists>r. locks_insert mem ls lock = Inr (0, r) \<and> locks_ok r \<and>
           (\<forall>ow b. held r ow b = (if covers ow b lock then k_type lock else held ls ow b))
    else locks_insert mem ls lock = Inr (- ENOLCK, ls)"
proof -
  define whole where "whole \<longleftrightarrow> k_type lock = F_UNLCK \<and> k_start lock = 0 \<and> k_end lock = OFFSET_MAX"
  have "\<not> whole \<or> k_start lock = 0 \<and> k_end lock = OFFSET_MAX" by (simp add: whole_def)
  from insert_loop_inserted [OF assms this]
  obtain r where "insert_loop (\<not> whole) lock ls = Inr r" "inserted lock ls r" by (auto simp: loop_works_def)
  then show ?thesis
    unfolding locks_insert_def Let_def whole_def [symmetric] using insertedD(1,2) [of lock ls r]
    by (cases whole; cases "mem 48") simp_all
qed

definition sample_lock :: "16 word \<Rightarrow> int \<Rightarrow> int \<Rightarrow> 64 word \<Rightarrow> plock" where
  "sample_lock t i j ow = \<lparr>k_type = t, k_start = i, k_end = j, k_pid = 0, k_owner = ow\<rparr>"

theorem insert_sets_range_witness:
  "\<exists>r. locks_insert (\<lambda>n. True) [sample_lock F_WRLCK 0 99 7, sample_lock F_RDLCK 0 9 8] (sample_lock F_RDLCK 10 19 7) =
     Inr (0, r) \<and> held r 7 9 = F_WRLCK \<and> held r 7 10 = F_RDLCK \<and> held r 7 20 = F_WRLCK \<and> held r 8 10 = F_UNLCK"
proof -
  have "locks_ok [sample_lock F_WRLCK 0 99 7, sample_lock F_RDLCK 0 9 8]" "range_ok (sample_lock F_RDLCK 10 19 7)"
    by (simp_all add: locks_ok_def range_ok_def before_def sample_lock_def OFFSET_MAX_def F_RDLCK_def F_WRLCK_def F_UNLCK_def)
  from insert_sets_range [OF this, of "\<lambda>n. True"] show ?thesis
    by (auto simp: sample_lock_def covers_def)
qed

text \<open>C24: the search for a conflicting lock agrees with its meaning: one is reported exactly when some
  other owner holds, on a byte of the range asked for, a lock that excludes the one asked for,
  and the lock reported is such a lock of the list.\<close>

theorem conflict_iff_held:
  assumes "locks_ok ls" "range_ok lock"
  shows "(locks_conflict ls lock \<noteq> None \<longleftrightarrow>
      (\<exists>ow b. ow \<noteq> k_owner lock \<and> k_start lock \<le> b \<and> b \<le> k_end lock \<and> held ls ow b \<noteq> F_UNLCK \<and>
         (held ls ow b = F_WRLCK \<or> k_type lock = F_WRLCK))) \<and>
    (\<forall>l. locks_conflict ls lock = Some l \<longrightarrow> l \<in> set ls \<and> conflicts l lock)"
proof -
  have "\<exists>b. k_start lock \<le> b \<and> b \<le> k_end lock \<and> held ls (k_owner l) b = k_type l"
    if "l \<in> set ls" "conflicts l lock" for l
    using that assms held_member [OF assms(1) that(1), of "k_owner l" "max (k_start l) (k_start lock)"]
    by (intro exI [of _ "max (k_start l) (k_start lock)"])
      (auto simp: conflicts_def covers_def range_ok_def locks_ok_def)
  moreover have "k_type l \<noteq> F_UNLCK" if "l \<in> set ls" for l using that assms(1) by (simp add: locks_ok_def)
  moreover have "\<exists>l \<in> set ls. conflicts l lock"
    if "ow \<noteq> k_owner lock" "k_start lock \<le> b" "b \<le> k_end lock" "held ls ow b \<noteq> F_UNLCK"
      "held ls ow b = F_WRLCK \<or> k_type lock = F_WRLCK" for ow b
    using held_covered [OF that(4)] that by (auto simp: conflicts_def covers_def intro!: bexI)
  ultimately have "(\<exists>l \<in> set ls. conflicts l lock) \<longleftrightarrow>
      (\<exists>ow b. ow \<noteq> k_owner lock \<and> k_start lock \<le> b \<and> b \<le> k_end lock \<and> held ls ow b \<noteq> F_UNLCK \<and>
         (held ls ow b = F_WRLCK \<or> k_type lock = F_WRLCK))"
    unfolding conflicts_def by metis
  then show ?thesis using locks_conflict_None [of ls lock] locks_conflict_Some [of ls lock] by blast
qed

theorem conflict_iff_held_witness:
  "locks_conflict [sample_lock F_RDLCK 0 9 8] (sample_lock F_WRLCK 5 19 7) \<noteq> None \<and>
   locks_conflict [sample_lock F_RDLCK 0 9 8] (sample_lock F_RDLCK 5 19 7) = None"
proof -
  have ok: "locks_ok [sample_lock F_RDLCK 0 9 8]" "range_ok (sample_lock F_WRLCK 5 19 7)" "range_ok (sample_lock F_RDLCK 5 19 7)"
    by (simp_all add: locks_ok_def range_ok_def sample_lock_def OFFSET_MAX_def F_RDLCK_def F_UNLCK_def)
  have rd: "held [sample_lock F_RDLCK 0 9 8] 8 5 = F_RDLCK" by (simp add: sample_lock_def covers_def)
  have wr: "held [sample_lock F_RDLCK 0 9 8] ow b \<noteq> F_WRLCK" for ow b
    by (simp add: sample_lock_def covers_def F_RDLCK_def F_WRLCK_def F_UNLCK_def)
  have "locks_conflict [sample_lock F_RDLCK 0 9 8] (sample_lock F_WRLCK 5 19 7) \<noteq> None"
    unfolding conflict_iff_held [OF ok(1,2), THEN conjunct1] using rd
    by (intro exI [of _ 8] exI [of _ 5]) (simp add: sample_lock_def F_RDLCK_def F_UNLCK_def)
  moreover have "k_type (sample_lock F_RDLCK 5 19 7) \<noteq> F_WRLCK" by (simp add: sample_lock_def F_RDLCK_def F_WRLCK_def)
  then have "\<not> locks_conflict [sample_lock F_RDLCK 0 9 8] (sample_lock F_RDLCK 5 19 7) \<noteq> None"
    unfolding conflict_iff_held [OF ok(1,3), THEN conjunct1] using wr by blast
  ultimately show ?thesis by blast
qed

end
