(* ===== verification/Node_Table.thy ===== *)
theory Node_Table
  imports Prelude
begin

text \<open>
  The two hash tables of libfuse's high-level library (\<^verbatim>\<open>fuse-3.17.2/lib/fuse.c\<close>): linear hashing
  with an array of chains that is split and merged one bucket at a time. The code has two copies
  of every function, for the chains by node number and by name; they differ in the hash value and
  the link field, so here the operations take the hash value \<open>raw\<close> of a node as an argument, and a
  chain is the list of its nodes.
\<close>

section \<open>The table\<close>

type_synonym fuse_ino_t = "64 word"

record 'a node_table =
  t_array :: "'a list list"
  t_use :: nat
  t_size :: nat
  t_split :: nat

definition NODE_TABLE_MIN_SIZE :: nat where "NODE_TABLE_MIN_SIZE = 8192"

definition node_table_init :: "'a node_table" where
  "node_table_init = \<lparr>t_array = replicate NODE_TABLE_MIN_SIZE [], t_use = 0,
     t_size = NODE_TABLE_MIN_SIZE, t_split = 0\<rparr>"

text \<open>The bucket of a hash value: buckets before \<open>split\<close> are already spread over both halves.\<close>

definition slot :: "nat \<Rightarrow> nat \<Rightarrow> nat \<Rightarrow> nat" where
  "slot sz sp h =
     (let hash = h mod sz; oldhash = hash mod (sz div 2)
      in if sp \<le> oldhash then oldhash else hash)"

definition bucket_of :: "('a \<Rightarrow> nat) \<Rightarrow> 'a node_table \<Rightarrow> 'a \<Rightarrow> nat" where
  "bucket_of raw t x = slot (t_size t) (t_split t) (raw x)"

text \<open>The two hash values: a 32-bit product for node numbers, a 64-bit polynomial for names.\<close>

definition id_raw :: "fuse_ino_t \<Rightarrow> nat" where
  "id_raw ino = unat ((ucast ino :: 32 word) * 2654435761)"

definition id_hash :: "'a node_table \<Rightarrow> fuse_ino_t \<Rightarrow> nat" where
  "id_hash t ino = slot (t_size t) (t_split t) (id_raw ino)"

definition name_raw :: "fuse_ino_t \<Rightarrow> string \<Rightarrow> nat" where
  "name_raw parent name = unat (fold (\<lambda>c h. h * 31 + of_nat (of_char c)) name parent)"

definition name_hash :: "'a node_table \<Rightarrow> fuse_ino_t \<Rightarrow> string \<Rightarrow> nat" where
  "name_hash t parent name = slot (t_size t) (t_split t) (name_raw parent name)"

section \<open>Shrinking and growing\<close>

definition node_table_reduce :: "(nat \<Rightarrow> bool) \<Rightarrow> 'a node_table \<Rightarrow> 'a node_table" where
  "node_table_reduce mem t =
     (let newsize = t_size t div 2
      in if newsize < NODE_TABLE_MIN_SIZE then t
         else t\<lparr>t_array := (if mem (8 * newsize) then take newsize (t_array t) else t_array t),
                t_size := newsize, t_split := newsize div 2\<rparr>)"

fun remerge_loop :: "nat \<Rightarrow> 'a node_table \<Rightarrow> 'a node_table" where
  "remerge_loop 0 t = t"
| "remerge_loop (Suc iter) t =
     (if t_split t = 0 then t
      else
        let sp = t_split t - 1;
            upper = sp + t_size t div 2;
            t1 = t\<lparr>t_split := sp\<rparr>
        in if t_array t ! upper \<noteq> []
           then t1\<lparr>t_array := (t_array t)[sp := t_array t ! sp @ t_array t ! upper, upper := []]\<rparr>
           else remerge_loop iter t1)"

definition remerge :: "(nat \<Rightarrow> bool) \<Rightarrow> 'a node_table \<Rightarrow> 'a node_table" where
  "remerge mem t = remerge_loop 8 (if t_split t = 0 then node_table_reduce mem t else t)"

definition node_table_resize :: "(nat \<Rightarrow> bool) \<Rightarrow> 'a node_table \<Rightarrow> 'a node_table" where
  "node_table_resize mem t =
     (if mem (8 * (t_size t * 2))
      then t\<lparr>t_array := take (t_size t) (t_array t) @ replicate (t_size t) [],
             t_size := t_size t * 2, t_split := 0\<rparr>
      else t)"

text \<open>One pass over the chain of the bucket being split: nodes that now belong elsewhere move to the
  front of their new chain, the others stay in order.\<close>

fun rehash_chain :: "('a \<Rightarrow> nat) \<Rightarrow> nat \<Rightarrow> 'a list \<Rightarrow> 'a list \<Rightarrow> 'a node_table \<Rightarrow> 'a list \<times> 'a node_table" where
  "rehash_chain raw hash [] kept t = (kept, t)"
| "rehash_chain raw hash (n # ns) kept t =
     (let newhash = bucket_of raw t n
      in if newhash \<noteq> hash
         then rehash_chain raw hash ns kept (t\<lparr>t_array := (t_array t)[newhash := n # t_array t ! newhash]\<rparr>)
         else rehash_chain raw hash ns (kept @ [n]) t)"

definition rehash :: "(nat \<Rightarrow> bool) \<Rightarrow> ('a \<Rightarrow> nat) \<Rightarrow> 'a node_table \<Rightarrow> 'a node_table" where
  "rehash mem raw t =
     (if t_split t = t_size t div 2 then t
      else
        let hash = t_split t;
            t1 = t\<lparr>t_split := t_split t + 1\<rparr>;
            (kept, t2) = rehash_chain raw hash (t_array t ! hash) [] t1;
            t3 = t2\<lparr>t_array := (t_array t2)[hash := kept]\<rparr>
        in if t_split t3 = t_size t3 div 2 then node_table_resize mem t3 else t3)"

section \<open>Insertion, removal, search\<close>

definition hash_node :: "(nat \<Rightarrow> bool) \<Rightarrow> ('a \<Rightarrow> nat) \<Rightarrow> 'a node_table \<Rightarrow> 'a \<Rightarrow> 'a node_table" where
  "hash_node mem raw t x =
     (let hash = bucket_of raw t x;
          t1 = t\<lparr>t_array := (t_array t)[hash := x # t_array t ! hash], t_use := t_use t + 1\<rparr>
      in if t_size t1 div 2 \<le> t_use t1 then rehash mem raw t1 else t1)"

definition unhash_node :: "(nat \<Rightarrow> bool) \<Rightarrow> ('a \<Rightarrow> nat) \<Rightarrow> 'a node_table \<Rightarrow> 'a \<Rightarrow> 'a node_table" where
  "unhash_node mem raw t x =
     (let hash = bucket_of raw t x
      in if x \<in> set (t_array t ! hash)
         then let t1 = t\<lparr>t_array := (t_array t)[hash := remove1 x (t_array t ! hash)], t_use := t_use t - 1\<rparr>
              in if t_use t1 < t_size t1 div 4 then remerge mem t1 else t1
         else t)"

text \<open>The two halves of \<^verbatim>\<open>unhash_name\<close>, between which the parent is released.\<close>

definition unlink_chain :: "('a \<Rightarrow> nat) \<Rightarrow> 'a node_table \<Rightarrow> 'a \<Rightarrow> 'a node_table" where
  "unlink_chain raw t x =
     (let hash = bucket_of raw t x
      in t\<lparr>t_array := (t_array t)[hash := remove1 x (t_array t ! hash)]\<rparr>)"

definition drop_use :: "(nat \<Rightarrow> bool) \<Rightarrow> 'a node_table \<Rightarrow> 'a node_table" where
  "drop_use mem t =
     (let t1 = t\<lparr>t_use := t_use t - 1\<rparr>
      in if t_use t1 < t_size t1 div 4 then remerge mem t1 else t1)"

definition get_node_nocheck :: "('a \<Rightarrow> fuse_ino_t) \<Rightarrow> 'a node_table \<Rightarrow> fuse_ino_t \<Rightarrow> 'a option" where
  "get_node_nocheck ino t nodeid = find (\<lambda>x. ino x = nodeid) (t_array t ! id_hash t nodeid)"

definition lookup_node ::
    "('a \<Rightarrow> fuse_ino_t) \<Rightarrow> ('a \<Rightarrow> string) \<Rightarrow> 'a node_table \<Rightarrow> fuse_ino_t \<Rightarrow> string \<Rightarrow> 'a option" where
  "lookup_node pino nam t parent name =
     find (\<lambda>x. pino x = parent \<and> nam x = name) (t_array t ! name_hash t parent name)"

section \<open>The invariant\<close>

definition elems :: "'a node_table \<Rightarrow> 'a set" where
  "elems t = (\<Union>b \<in> set (t_array t). set b)"

definition tab_ok :: "('a \<Rightarrow> nat) \<Rightarrow> 'a node_table \<Rightarrow> bool" where
  "tab_ok raw t \<longleftrightarrow> (\<exists>j. t_size t = NODE_TABLE_MIN_SIZE * 2 ^ j) \<and> t_split t \<le> t_size t div 2 \<and>
     t_size t \<le> length (t_array t) \<and>
     (\<forall>i < length (t_array t). distinct (t_array t ! i) \<and> (\<forall>x \<in> set (t_array t ! i). bucket_of raw t x = i))"

lemma size_half:
  assumes "tab_ok raw t"
  obtains k where "t_size t = 2 * k" "0 < k" "t_size t div 2 = k" "4096 dvd k"
proof -
  from assms obtain j where j: "t_size t = NODE_TABLE_MIN_SIZE * 2 ^ j" by (auto simp: tab_ok_def)
  show ?thesis
    by (rule that [of "4096 * 2 ^ j"]) (simp_all add: j NODE_TABLE_MIN_SIZE_def)
qed

lemma slot_cases:
  assumes "0 < k"
  shows "slot (2 * k) s h = (if s \<le> h mod k then h mod k else h mod (2 * k))"
    "h mod (2 * k) = h mod k \<or> h mod (2 * k) = h mod k + k"
proof -
  have "h mod (2 * k) mod k = h mod k" by (simp add: mod_mod_cancel)
  then show "slot (2 * k) s h = (if s \<le> h mod k then h mod k else h mod (2 * k))"
    by (simp add: slot_def Let_def)
  have "h mod (k * 2) = k * (h div k mod 2) + h mod k" by (rule mod_mult2_eq)
  moreover have "h div k mod 2 = 0 \<or> h div k mod 2 = 1" by auto
  ultimately show "h mod (2 * k) = h mod k \<or> h mod (2 * k) = h mod k + k"
    by (auto simp: mult.commute)
qed

lemma slot_less:
  assumes "0 < k"
  shows "slot (2 * k) s h < 2 * k"
proof -
  have "h mod k < 2 * k" "h mod (2 * k) < 2 * k" using assms mod_less_divisor [OF assms, of h] by (linarith, simp)
  then show ?thesis unfolding slot_cases(1) [OF assms] by (cases "s \<le> h mod k") simp_all
qed

lemma bucket_less: "tab_ok raw t \<Longrightarrow> bucket_of raw t x < t_size t"
  by (elim size_half) (simp add: bucket_of_def slot_less)

lemma bucket_in_range: "tab_ok raw t \<Longrightarrow> bucket_of raw t x < length (t_array t)"
  using bucket_less [of raw t x] by (auto simp: tab_ok_def)

lemma elems_iff:
  assumes "tab_ok raw t"
  shows "x \<in> elems t \<longleftrightarrow> x \<in> set (t_array t ! bucket_of raw t x)"
proof
  assume "x \<in> elems t"
  then obtain b where "b \<in> set (t_array t)" "x \<in> set b" by (auto simp: elems_def)
  then obtain i where "i < length (t_array t)" "x \<in> set (t_array t ! i)"
    by (metis in_set_conv_nth)
  with assms show "x \<in> set (t_array t ! bucket_of raw t x)" by (auto simp: tab_ok_def)
next
  assume "x \<in> set (t_array t ! bucket_of raw t x)"
  with bucket_in_range [OF assms] show "x \<in> elems t" by (auto simp: elems_def)
qed

text \<open>Moving the split point by one only concerns the bucket it passes.\<close>

lemma slot_step:
  assumes "0 < k" "h mod k \<noteq> s"
  shows "slot (2 * k) (Suc s) h = slot (2 * k) s h"
  using assms by (auto simp: slot_cases)

lemma slot_at_split:
  assumes "0 < k" "s < k"
  shows "slot (2 * k) s h = s \<longleftrightarrow> h mod k = s"
proof -
  have "h mod k = s" if "h mod (2 * k) = s"
    using that assms(2) mod_mod_cancel [of k "2 * k" h] by simp
  then show ?thesis using assms by (auto simp: slot_cases)
qed

lemma slot_split_image:
  assumes "0 < k" "h mod k = s"
  shows "slot (2 * k) (Suc s) h = s \<or> slot (2 * k) (Suc s) h = s + k"
  using assms slot_cases(2) [of k h] by (auto simp: slot_cases(1))

lemma slot_upper:
  assumes "0 < k" "slot (2 * k) s h = u + k" "u < k"
  shows "h mod k = u" "u < s"
proof -
  have "h mod k \<noteq> u + k" using assms(1) mod_less_divisor [of k h] by linarith
  then have "\<not> s \<le> h mod k" "h mod (2 * k) = u + k"
    using assms(2) by (auto simp: slot_cases(1) [OF assms(1)] split: if_splits)
  moreover from this(2) have "h mod k = u"
    using assms(3) mod_mod_cancel [of k "2 * k" h] by simp
  ultimately show "h mod k = u" "u < s" by auto
qed

text \<open>A table is well-formed when its buckets are; two tables with the same buckets up to a
  relocation have the same elements.\<close>

lemma tab_okI:
  assumes "t_size t = NODE_TABLE_MIN_SIZE * 2 ^ j" "t_split t \<le> t_size t div 2" "t_size t \<le> length (t_array t)"
    "\<And>i. i < length (t_array t) \<Longrightarrow> distinct (t_array t ! i)"
    "\<And>i x. i < length (t_array t) \<Longrightarrow> x \<in> set (t_array t ! i) \<Longrightarrow> bucket_of raw t x = i"
  shows "tab_ok raw t"
  using assms by (auto simp: tab_ok_def)

lemma tab_okD:
  assumes "tab_ok raw t" "i < length (t_array t)"
  shows "distinct (t_array t ! i)" "x \<in> set (t_array t ! i) \<Longrightarrow> bucket_of raw t x = i"
  using assms by (auto simp: tab_ok_def)

lemma elems_nth: "x \<in> elems t \<longleftrightarrow> (\<exists>i < length (t_array t). x \<in> set (t_array t ! i))"
  unfolding elems_def by (metis UN_iff in_set_conv_nth)

lemma beyond_size_empty:
  assumes "tab_ok raw t" "t_size t \<le> i" "i < length (t_array t)"
  shows "t_array t ! i = []"
proof (rule ccontr)
  assume "t_array t ! i \<noteq> []"
  then obtain x where "x \<in> set (t_array t ! i)" by (cases "t_array t ! i") auto
  with tab_okD(2) [OF assms(1,3)] bucket_less [OF assms(1), of x] assms(2) show False by simp
qed

lemma elems_take:
  assumes "tab_ok raw t" "t_size t \<le> n"
  shows "elems t = (\<Union>b \<in> set (take n (t_array t)). set b)"
proof -
  have "b = []" if "b \<in> set (drop n (t_array t))" for b
  proof -
    from that obtain i where "i < length (t_array t) - n" "b = t_array t ! (n + i)"
      by (auto simp: in_set_conv_nth)
    with beyond_size_empty [OF assms(1), of "n + i"] assms(2) show ?thesis by simp
  qed
  then have "(\<Union>b \<in> set (drop n (t_array t)). set b) = {}" by auto
  moreover have "elems t = (\<Union>b \<in> set (take n (t_array t)). set b) \<union> (\<Union>b \<in> set (drop n (t_array t)). set b)"
    unfolding elems_def by (metis UN_Un append_take_drop_id set_append)
  ultimately show ?thesis by (simp only: Un_empty_right)
qed

lemma resize_ok:
  assumes "tab_ok raw t" "t_split t = t_size t div 2"
  shows "tab_ok raw (node_table_resize mem t) \<and> elems (node_table_resize mem t) = elems t"
proof (cases "mem (8 * (t_size t * 2))")
  case False
  then show ?thesis using assms(1) by (simp add: node_table_resize_def)
next
  case True
  let ?t = "node_table_resize mem t" let ?n = "t_size t"
  from assms(1) obtain j where j: "?n = NODE_TABLE_MIN_SIZE * 2 ^ j" and len: "?n \<le> length (t_array t)"
    by (auto simp: tab_ok_def)
  from assms(1) obtain k where k: "?n = 2 * k" "0 < k" "?n div 2 = k" by (rule size_half)
  have f: "t_size ?t = 2 * ?n" "t_split ?t = 0"
    "t_array ?t = take ?n (t_array t) @ replicate ?n []"
    using True by (simp_all add: node_table_resize_def)
  have "\<not> k \<le> h mod k" for h using k(2) mod_less_divisor [of k h] by linarith
  then have "slot (2 * k) k h = h mod (2 * k)" for h
    using k(2) by (simp add: slot_cases(1))
  moreover have "slot (2 * (2 * k)) 0 h = h mod (2 * k)" for h
    using k(2) slot_cases(1) [of "2 * k" 0 h] by simp
  ultimately have b: "bucket_of raw ?t x = bucket_of raw t x" for x
    using k assms(2) by (simp add: bucket_of_def f)
  have nth: "t_array ?t ! i = (if i < ?n then t_array t ! i else [])" if "i < length (t_array ?t)" for i
    using that len by (auto simp: f nth_append)
  have "tab_ok raw ?t"
  proof (rule tab_okI [of _ "Suc j"])
    fix i assume i: "i < length (t_array ?t)"
    show "distinct (t_array ?t ! i)" using nth [OF i] tab_okD(1) [OF assms(1), of i] len by auto
    show "bucket_of raw ?t x = i" if "x \<in> set (t_array ?t ! i)" for x
      using that nth [OF i] tab_okD(2) [OF assms(1), of i x] len b by (auto split: if_splits)
  qed (use f j len in auto)
  moreover have "elems ?t = elems t"
    using elems_take [OF assms(1) order_refl] by (auto simp: elems_def f)
  ultimately show ?thesis by blast
qed

lemma reduce_ok:
  assumes "tab_ok raw t" "t_split t = 0"
  shows "tab_ok raw (node_table_reduce mem t) \<and> elems (node_table_reduce mem t) = elems t"
proof (cases "t_size t div 2 < NODE_TABLE_MIN_SIZE")
  case True
  then show ?thesis using assms(1) by (simp add: node_table_reduce_def)
next
  case False
  let ?t = "node_table_reduce mem t"
  from assms(1) obtain j where j: "t_size t = NODE_TABLE_MIN_SIZE * 2 ^ j" and len: "t_size t \<le> length (t_array t)"
    by (auto simp: tab_ok_def)
  from False j obtain j' where j': "j = Suc j'" by (cases j) (auto simp: NODE_TABLE_MIN_SIZE_def)
  define k where "k = 4096 * (2 :: nat) ^ j'"
  have k: "t_size t = 2 * (2 * k)" "0 < k" "2 * k = NODE_TABLE_MIN_SIZE * 2 ^ j'"
    using j j' by (simp_all add: k_def NODE_TABLE_MIN_SIZE_def)
  define arr where "arr = (if mem (8 * (2 * k)) then take (2 * k) (t_array t) else t_array t)"
  have f: "t_size ?t = 2 * k" "t_split ?t = k" "t_array ?t = arr"
    using False k(1) by (simp_all add: node_table_reduce_def arr_def Let_def)
  have "\<not> k \<le> h mod k" for h using k(2) mod_less_divisor [of k h] by linarith
  then have "slot (2 * k) k h = h mod (2 * k)" for h using k(2) by (simp add: slot_cases(1))
  moreover have "slot (2 * (2 * k)) 0 h = h mod (2 * k)" for h
    using k(2) slot_cases(1) [of "2 * k" 0 h] by simp
  ultimately have b: "bucket_of raw ?t x = bucket_of raw t x" "bucket_of raw t x < 2 * k" for x
    using k(1,2) assms(2) by (simp_all add: bucket_of_def f)
  have nth: "arr ! i = t_array t ! i" "i < length (t_array t)" if "i < length arr" for i
    using that by (auto simp: arr_def split: if_splits)
  have "tab_ok raw ?t"
  proof (rule tab_okI [of _ j'])
    fix i assume i: "i < length (t_array ?t)"
    show "distinct (t_array ?t ! i)" using nth [of i] i tab_okD(1) [OF assms(1), of i] by (simp add: f)
    show "bucket_of raw ?t x = i" if "x \<in> set (t_array ?t ! i)" for x
      using that nth [of i] i tab_okD(2) [OF assms(1), of i x] b by (simp add: f)
  qed (use f k len in \<open>auto simp: arr_def\<close>)
  moreover have "elems ?t = elems t"
  proof -
    have "x \<in> elems ?t" if x: "x \<in> elems t" for x
    proof -
      have "x \<in> set (t_array t ! bucket_of raw t x)" using x elems_iff [OF assms(1)] by simp
      moreover have "bucket_of raw t x < length arr" using b(2) [of x] len k(1) by (auto simp: arr_def)
      ultimately show ?thesis using nth(1) unfolding elems_nth f by metis
    qed
    moreover have "x \<in> elems t" if "x \<in> elems ?t" for x
      using that nth unfolding elems_nth f by metis
    ultimately show ?thesis by blast
  qed
  ultimately show ?thesis by blast
qed

text \<open>One step of merging: the split point moves back and the upper bucket joins the lower one.\<close>

lemma merge_step_ok:
  assumes ok: "tab_ok raw t" and sp: "t_split t = Suc s" and up: "up = s + t_size t div 2"
  shows "let t' = t\<lparr>t_split := s, t_array := (t_array t)[s := t_array t ! s @ t_array t ! up, up := []]\<rparr>
    in tab_ok raw t' \<and> elems t' = elems t"
proof -
  let ?A = "t_array t"
  let ?t = "t\<lparr>t_split := s, t_array := ?A[s := ?A ! s @ ?A ! up, up := []]\<rparr>"
  from ok obtain j where j: "t_size t = NODE_TABLE_MIN_SIZE * 2 ^ j" and len: "t_size t \<le> length ?A"
    and spl: "t_split t \<le> t_size t div 2" unfolding tab_ok_def by blast
  from ok obtain k where k: "t_size t = 2 * k" "0 < k" "t_size t div 2 = k" by (rule size_half)
  have lt: "s < k" "up = s + k" "up < length ?A" "s < length ?A" "s \<noteq> up" using spl sp k up len by auto
  have old: "bucket_of raw t x = slot (2 * k) (Suc s) (raw x)" "bucket_of raw ?t x = slot (2 * k) s (raw x)" for x
    using k sp by (simp_all add: bucket_of_def)
  have moved: "bucket_of raw ?t x = s" if "bucket_of raw t x = up" for x
    using that slot_upper(1) [OF k(2), of "Suc s" "raw x" s] slot_at_split [OF k(2) lt(1)] lt old by simp
  have stay: "bucket_of raw ?t x = bucket_of raw t x" if "bucket_of raw t x \<noteq> up" for x
  proof (cases "raw x mod k = s")
    case True
    from slot_split_image [OF k(2) True] that lt(2) have "bucket_of raw t x = s" by (simp add: old)
    moreover have "bucket_of raw ?t x = s" using True slot_at_split [OF k(2) lt(1)] by (simp add: old)
    ultimately show ?thesis by simp
  next
    case False
    then show ?thesis by (simp only: old slot_step [OF k(2) False])
  qed
  note D = tab_okD [OF ok]
  have nth: "t_array ?t ! i = (if i = up then [] else if i = s then ?A ! s @ ?A ! up else ?A ! i)"
    if "i < length ?A" for i using that lt by (auto simp: nth_list_update)
  have "tab_ok raw ?t"
  proof (rule tab_okI [of _ j])
    fix i assume "i < length (t_array ?t)"
    then have i: "i < length ?A" by simp
    have "set (?A ! s) \<inter> set (?A ! up) = {}" using D(2) lt by blast
    then show "distinct (t_array ?t ! i)" using nth [OF i] D(1) [OF i] D(1) [OF lt(3)] D(1) [OF lt(4)] by simp
    show "bucket_of raw ?t x = i" if "x \<in> set (t_array ?t ! i)" for x
      using that nth [OF i] D(2) [OF i, of x] D(2) [OF lt(3), of x] D(2) [OF lt(4), of x] moved stay lt
      by (auto split: if_splits)
  qed (use j spl sp len in auto)
  moreover have "x \<in> elems ?t \<longleftrightarrow> x \<in> elems t" for x
  proof -
    have "(\<exists>i < length ?A. x \<in> set (t_array ?t ! i)) \<longleftrightarrow> (\<exists>i < length ?A. x \<in> set (?A ! i))"
      using nth lt by (metis Un_iff empty_iff empty_set set_append)
    then show ?thesis by (simp add: elems_nth)
  qed
  ultimately show ?thesis by (auto simp: Let_def)
qed

lemma remerge_loop_ok:
  "tab_ok raw t \<Longrightarrow> tab_ok raw (remerge_loop n t) \<and> elems (remerge_loop n t) = elems t \<and>
     t_use (remerge_loop n t) = t_use t"
proof (induction n arbitrary: t)
  case (Suc n)
  show ?case
  proof (cases "t_split t")
    case 0
    with Suc.prems show ?thesis by simp
  next
    case sp: (Suc s)
    let ?up = "s + t_size t div 2"
    from merge_step_ok [OF Suc.prems sp refl] have m:
      "tab_ok raw (t\<lparr>t_split := s, t_array := (t_array t)[s := t_array t ! s @ t_array t ! ?up, ?up := []]\<rparr>)"
      "elems (t\<lparr>t_split := s, t_array := (t_array t)[s := t_array t ! s @ t_array t ! ?up, ?up := []]\<rparr>) = elems t"
      by (simp_all add: Let_def)
    show ?thesis
    proof (cases "t_array t ! ?up = []")
      case False
      with sp m show ?thesis by (simp add: Let_def)
    next
      case True
      then have "(t_array t)[s := t_array t ! s @ t_array t ! ?up, ?up := []] = t_array t"
        by (metis append_Nil2 list_update_id)
      with m have "tab_ok raw (t\<lparr>t_split := s\<rparr>)" "elems (t\<lparr>t_split := s\<rparr>) = elems t" by simp_all
      with Suc.IH [of "t\<lparr>t_split := s\<rparr>"] sp True show ?thesis by (simp add: Let_def)
    qed
  qed
qed simp

lemma remerge_ok:
  assumes "tab_ok raw t"
  shows "tab_ok raw (remerge mem t) \<and> elems (remerge mem t) = elems t \<and> t_use (remerge mem t) = t_use t"
proof -
  let ?t = "if t_split t = 0 then node_table_reduce mem t else t"
  have "tab_ok raw ?t \<and> elems ?t = elems t \<and> t_use ?t = t_use t"
    using reduce_ok [OF assms, of mem] assms by (auto simp: node_table_reduce_def Let_def)
  with remerge_loop_ok [of raw ?t 8] show ?thesis by (simp add: remerge_def)
qed

lemma rehash_chain_eq:
  assumes "\<forall>n \<in> set ns. bucket_of raw t n = hash \<or> bucket_of raw t n = up" "hash \<noteq> up" "up < length (t_array t)"
  shows "rehash_chain raw hash ns kept t =
    (kept @ filter (\<lambda>n. bucket_of raw t n = hash) ns,
     t\<lparr>t_array := (t_array t)[up := rev (filter (\<lambda>n. bucket_of raw t n = up) ns) @ t_array t ! up]\<rparr>)"
  using assms
proof (induction ns arbitrary: kept t)
  case (Cons n ns)
  show ?case
  proof (cases "bucket_of raw t n = hash")
    case True
    with Cons.prems Cons.IH [of t "kept @ [n]"] show ?thesis by simp
  next
    case False
    then have up: "bucket_of raw t n = up" using Cons.prems(1) by simp
    let ?t = "t\<lparr>t_array := (t_array t)[up := n # t_array t ! up]\<rparr>"
    have "bucket_of raw ?t x = bucket_of raw t x" for x by (simp add: bucket_of_def)
    with Cons.prems Cons.IH [of ?t kept] up False show ?thesis by simp
  qed
qed simp

lemma rehash_ok:
  assumes ok: "tab_ok raw t"
  shows "tab_ok raw (rehash mem raw t) \<and> elems (rehash mem raw t) = elems t \<and> t_use (rehash mem raw t) = t_use t"
proof (cases "t_split t = t_size t div 2")
  case True
  then show ?thesis using ok by (simp add: rehash_def)
next
  case False
  let ?A = "t_array t" let ?s = "t_split t"
  from ok obtain j where j: "t_size t = NODE_TABLE_MIN_SIZE * 2 ^ j" and len: "t_size t \<le> length ?A"
    and spl: "?s \<le> t_size t div 2" unfolding tab_ok_def by blast
  from ok obtain k where k: "t_size t = 2 * k" "0 < k" "t_size t div 2 = k" by (rule size_half)
  let ?up = "?s + k"
  let ?t1 = "t\<lparr>t_split := Suc ?s\<rparr>"
  have lt: "?s < k" "?up < length ?A" "?s < length ?A" "?s \<noteq> ?up" using spl False k len by auto
  have old: "bucket_of raw t x = slot (2 * k) ?s (raw x)" "bucket_of raw ?t1 x = slot (2 * k) (Suc ?s) (raw x)" for x
    using k by (simp_all add: bucket_of_def)
  note D = tab_okD [OF ok]
  have two: "bucket_of raw ?t1 x = ?s \<or> bucket_of raw ?t1 x = ?up" if "bucket_of raw t x = ?s" for x
    using that slot_at_split [OF k(2) lt(1)] slot_split_image [OF k(2), of "raw x" ?s] by (simp add: old)
  have stay: "bucket_of raw ?t1 x = bucket_of raw t x" if "bucket_of raw t x \<noteq> ?s" for x
    using that slot_at_split [OF k(2) lt(1)] slot_step [OF k(2), of "raw x" ?s] by (simp add: old)
  let ?keep = "filter (\<lambda>n. bucket_of raw ?t1 n = ?s) (?A ! ?s)"
  let ?move = "filter (\<lambda>n. bucket_of raw ?t1 n = ?up) (?A ! ?s)"
  let ?t3 = "?t1\<lparr>t_array := ?A[?up := rev ?move @ ?A ! ?up, ?s := ?keep]\<rparr>"
  have "rehash_chain raw ?s (?A ! ?s) [] ?t1 = (?keep, ?t1\<lparr>t_array := ?A[?up := rev ?move @ ?A ! ?up]\<rparr>)"
    using rehash_chain_eq [of "?A ! ?s" raw ?t1 ?s ?up "[]"] D(2) [OF lt(3)] two lt by simp
  then have run: "rehash mem raw t = (if Suc ?s = k then node_table_resize mem ?t3 else ?t3)"
    using False k(3) by (simp add: rehash_def Let_def)
  have b3: "bucket_of raw ?t3 x = bucket_of raw ?t1 x" for x by (simp add: bucket_of_def)
  have nth: "t_array ?t3 ! i = (if i = ?s then ?keep else if i = ?up then rev ?move @ ?A ! ?up else ?A ! i)"
    if "i < length ?A" for i using that lt by (auto simp: nth_list_update)
  have ok3: "tab_ok raw ?t3"
  proof (rule tab_okI [of _ j])
    fix i assume "i < length (t_array ?t3)"
    then have i: "i < length ?A" by simp
    have "set (?A ! ?s) \<inter> set (?A ! ?up) = {}"
      using D(2) [OF lt(3)] D(2) [OF lt(2)] lt(4) by (metis disjoint_iff)
    then have "set ?move \<inter> set (?A ! ?up) = {}" by auto
    then show "distinct (t_array ?t3 ! i)" using nth [OF i] D(1) [OF i] D(1) [OF lt(2)] D(1) [OF lt(3)] by simp
    show "bucket_of raw ?t3 x = i" if "x \<in> set (t_array ?t3 ! i)" for x
      using that nth [OF i] D(2) [OF i, of x] D(2) [OF lt(2), of x] stay [of x] lt
      by (auto simp: b3 split: if_splits)
  qed (use j lt k len in auto)
  have el: "elems ?t3 = elems t"
  proof -
    have part: "set (?A ! ?s) = set ?keep \<union> set ?move" using D(2) [OF lt(3)] two by auto
    have "x \<in> elems ?t3 \<longleftrightarrow> (\<exists>i < length ?A. x \<in> set (t_array ?t3 ! i))" for x by (simp add: elems_nth)
    moreover have "(\<exists>i < length ?A. x \<in> set (t_array ?t3 ! i)) \<longleftrightarrow> (\<exists>i < length ?A. x \<in> set (?A ! i))" for x
    proof
      assume "\<exists>i < length ?A. x \<in> set (t_array ?t3 ! i)"
      then obtain i where i: "i < length ?A" "x \<in> set (t_array ?t3 ! i)" by blast
      then have "x \<in> set (?A ! i) \<or> x \<in> set (?A ! ?s)" unfolding nth [OF i(1)] by (auto split: if_splits)
      then show "\<exists>i < length ?A. x \<in> set (?A ! i)" using i(1) lt(3) by blast
    next
      assume "\<exists>i < length ?A. x \<in> set (?A ! i)"
      then obtain i where i: "i < length ?A" "x \<in> set (?A ! i)" by blast
      show "\<exists>i < length ?A. x \<in> set (t_array ?t3 ! i)"
      proof (cases "i = ?s \<and> x \<in> set ?move")
        case True
        then show ?thesis using nth [OF lt(2)] lt by (intro exI [of _ ?up]) simp
      next
        case False
        then have "i = ?s \<Longrightarrow> x \<in> set ?keep" using i(2) part by blast
        then have "x \<in> set (t_array ?t3 ! i)"
          unfolding nth [OF i(1)] using i(2) by (cases "i = ?s") auto
        then show ?thesis using i(1) by blast
      qed
    qed
    ultimately show ?thesis by (auto simp: elems_nth)
  qed
  show ?thesis
  proof (cases "Suc ?s = k")
    case True
    have "t_use (node_table_resize mem ?t3) = t_use t" by (simp add: node_table_resize_def)
    with resize_ok [OF ok3, of mem] True k el run show ?thesis by simp
  next
    case False
    with ok3 el run show ?thesis by simp
  qed
qed

lemma finite_elems: "finite (elems t)"
  by (simp add: elems_def)

text \<open>Writing one bucket.\<close>

lemma write_bucket:
  assumes ok: "tab_ok raw t" and b: "b < length (t_array t)" and d: "distinct c"
    and c: "\<forall>x \<in> set c. bucket_of raw t x = b"
  shows "tab_ok raw (t\<lparr>t_array := (t_array t)[b := c], t_use := n\<rparr>)"
    "elems (t\<lparr>t_array := (t_array t)[b := c], t_use := n\<rparr>) = (elems t - set (t_array t ! b)) \<union> set c"
proof -
  let ?t = "t\<lparr>t_array := (t_array t)[b := c], t_use := n\<rparr>"
  have bk: "bucket_of raw ?t x = bucket_of raw t x" for x by (simp add: bucket_of_def)
  from ok obtain j where j: "t_size t = NODE_TABLE_MIN_SIZE * 2 ^ j" and rest: "t_split t \<le> t_size t div 2"
    "t_size t \<le> length (t_array t)" unfolding tab_ok_def by blast
  show ok': "tab_ok raw ?t"
  proof (rule tab_okI [of _ j])
    fix i assume i: "i < length (t_array ?t)"
    then show "distinct (t_array ?t ! i)" using tab_okD(1) [OF ok, of i] d by (cases "i = b") simp_all
    show "bucket_of raw ?t x = i" if "x \<in> set (t_array ?t ! i)" for x
      using that i tab_okD(2) [OF ok, of i x] c b unfolding bk by (auto simp: nth_list_update split: if_splits)
  qed (use j rest in auto)
  have "x \<in> elems ?t \<longleftrightarrow> x \<in> (elems t - set (t_array t ! b)) \<union> set c" for x
  proof (cases "bucket_of raw t x = b")
    case True
    then show ?thesis using b by (simp add: elems_iff [OF ok'] elems_iff [OF ok] bk)
  next
    case False
    moreover from this have "x \<notin> set c" "x \<notin> set (t_array t ! b)" using c tab_okD(2) [OF ok b] by auto
    ultimately show ?thesis by (simp add: elems_iff [OF ok'] elems_iff [OF ok] bk)
  qed
  then show "elems ?t = (elems t - set (t_array t ! b)) \<union> set c" by blast
qed

definition idx_ok :: "('a \<Rightarrow> nat) \<Rightarrow> 'a node_table \<Rightarrow> bool" where
  "idx_ok raw t \<longleftrightarrow> tab_ok raw t \<and> t_use t = card (elems t)"

lemma idx_ok_init:
  fixes raw :: "'a \<Rightarrow> nat"
  shows "idx_ok raw node_table_init" "elems (node_table_init :: 'a node_table) = {}"
proof -
  show e: "elems (node_table_init :: 'a node_table) = {}" by (simp add: elems_def node_table_init_def)
  have "tab_ok raw node_table_init"
    by (rule tab_okI [of _ 0]) (simp_all add: node_table_init_def)
  with e show "idx_ok raw node_table_init" by (simp add: idx_ok_def node_table_init_def)
qed

lemma hash_node_ok:
  assumes "idx_ok raw t" "x \<notin> elems t"
  shows "idx_ok raw (hash_node mem raw t x) \<and> elems (hash_node mem raw t x) = insert x (elems t)"
proof -
  let ?b = "bucket_of raw t x" let ?c = "x # t_array t ! ?b"
  let ?t = "t\<lparr>t_array := (t_array t)[?b := ?c], t_use := t_use t + 1\<rparr>"
  have ok: "tab_ok raw t" and use: "t_use t = card (elems t)" using assms(1) by (simp_all add: idx_ok_def)
  note b = bucket_in_range [OF ok, of x]
  have "distinct ?c" using assms(2) elems_iff [OF ok, of x] tab_okD(1) [OF ok b] by simp
  moreover have "\<forall>y \<in> set ?c. bucket_of raw t y = ?b" using tab_okD(2) [OF ok b] by auto
  ultimately have t: "tab_ok raw ?t" "elems ?t = (elems t - set (t_array t ! ?b)) \<union> set ?c"
    using write_bucket [OF ok b] by blast+
  have "set (t_array t ! ?b) \<subseteq> elems t" using b by (auto simp: elems_nth)
  then have el: "elems ?t = insert x (elems t)" using t(2) by auto
  then have "t_use ?t = card (elems ?t)" using use assms(2) finite_elems [of t] by simp
  moreover have "hash_node mem raw t x = (if t_size t div 2 \<le> t_use t + 1 then rehash mem raw ?t else ?t)"
    by (simp add: hash_node_def Let_def)
  ultimately show ?thesis using rehash_ok [OF t(1), of mem] t(1) el by (simp add: idx_ok_def)
qed

lemma unhash_node_ok:
  assumes "idx_ok raw t"
  shows "idx_ok raw (unhash_node mem raw t x) \<and> elems (unhash_node mem raw t x) = elems t - {x}"
proof -
  let ?b = "bucket_of raw t x" let ?c = "remove1 x (t_array t ! ?b)"
  let ?t = "t\<lparr>t_array := (t_array t)[?b := ?c], t_use := t_use t - 1\<rparr>"
  have ok: "tab_ok raw t" and use: "t_use t = card (elems t)" using assms(1) by (simp_all add: idx_ok_def)
  note b = bucket_in_range [OF ok, of x]
  note dist = tab_okD(1) [OF ok b]
  show ?thesis
  proof (cases "x \<in> elems t")
    case False
    then have "unhash_node mem raw t x = t" using elems_iff [OF ok, of x] by (simp add: unhash_node_def Let_def)
    with False assms show ?thesis by simp
  next
    case True
    then have x: "x \<in> set (t_array t ! ?b)" using elems_iff [OF ok] by simp
    have "\<forall>y \<in> set ?c. bucket_of raw t y = ?b" using tab_okD(2) [OF ok b] by (auto simp: dist)
    note t = write_bucket [OF ok b distinct_remove1 [OF dist, of x] this, of "t_use t - 1"]
    have "set (t_array t ! ?b) \<subseteq> elems t" using b by (auto simp: elems_nth)
    moreover have "set ?c = set (t_array t ! ?b) - {x}" using dist by (rule set_remove1_eq)
    ultimately have el: "elems ?t = elems t - {x}" using t(2) x by blast
    then have "t_use ?t = card (elems ?t)" using use True finite_elems [of t] by simp
    moreover have "unhash_node mem raw t x = (if t_use t - 1 < t_size t div 4 then remerge mem ?t else ?t)"
      using x by (simp add: unhash_node_def Let_def)
    ultimately show ?thesis using remerge_ok [OF t(1), of mem] t(1) el by (simp add: idx_ok_def)
  qed
qed

section \<open>The interface of an index\<close>

text \<open>
  What the node layer relies on: an index is well-formed after every insertion of a new node and
  every removal, and holds exactly the nodes that were inserted and not removed.
\<close>

datatype 'a index_op = Hash 'a | Unhash 'a

text \<open>A run of operations (a node that is in the index is not hashed again), and what is left of it.\<close>

fun play :: "('t \<Rightarrow> 'a \<Rightarrow> 't) \<Rightarrow> ('t \<Rightarrow> 'a \<Rightarrow> 't) \<Rightarrow> ('t \<Rightarrow> 'a set) \<Rightarrow> 'a index_op list \<Rightarrow> 't \<Rightarrow> 't" where
  "play add del members [] t = t"
| "play add del members (Hash x # ops) t = play add del members ops (if x \<in> members t then t else add t x)"
| "play add del members (Unhash x # ops) t = play add del members ops (del t x)"

fun present :: "'a index_op list \<Rightarrow> 'a set \<Rightarrow> 'a set" where
  "present [] S = S"
| "present (Hash x # ops) S = present ops (insert x S)"
| "present (Unhash x # ops) S = present ops (S - {x})"

locale node_index =
  fixes ok :: "'t \<Rightarrow> bool" and members :: "'t \<Rightarrow> 'a set"
    and add :: "'t \<Rightarrow> 'a \<Rightarrow> 't" and del :: "'t \<Rightarrow> 'a \<Rightarrow> 't"
  assumes add_law: "ok t \<Longrightarrow> x \<notin> members t \<Longrightarrow> ok (add t x) \<and> members (add t x) = insert x (members t)"
    and del_law: "ok t \<Longrightarrow> ok (del t x) \<and> members (del t x) = members t - {x}"
begin

lemma play_refines:
  "ok t \<Longrightarrow> ok (play add del members ops t) \<and> members (play add del members ops t) = present ops (members t)"
proof (induction ops arbitrary: t)
  case (Cons op ops)
  show ?case
  proof (cases op)
    case (Hash x)
    then show ?thesis
      using Cons.IH [of t] Cons.IH [of "add t x"] Cons.prems add_law [of t x] by (auto simp: insert_absorb)
  next
    case (Unhash x)
    then show ?thesis using Cons.IH [of "del t x"] Cons.prems del_law [of t x] by auto
  qed
qed simp

end

interpretation idx: node_index "idx_ok raw" elems "hash_node mem raw" "unhash_node mem raw" for raw mem
  by unfold_locales (simp_all add: hash_node_ok unhash_node_ok)

section \<open>Searching\<close>

lemma find_Some_unique:
  assumes "x \<in> set xs" "P x" "\<And>y. y \<in> set xs \<Longrightarrow> P y \<Longrightarrow> y = x"
  shows "find P xs = Some x"
proof -
  obtain y where y: "find P xs = Some y" using assms(1,2) by (cases "find P xs") (auto simp: find_None_iff)
  then have "y \<in> set xs" "P y" by (auto simp: find_Some_iff)
  with y assms(3) show ?thesis by blast
qed

text \<open>Searching for a key with hash value \<open>h\<close> sees the whole table, not just one chain.\<close>

lemma find_in_bucket:
  assumes ok: "tab_ok raw t" and h: "\<And>x. P x \<Longrightarrow> raw x = h"
    and one: "\<And>x y. x \<in> elems t \<Longrightarrow> y \<in> elems t \<Longrightarrow> P x \<Longrightarrow> P y \<Longrightarrow> x = y"
  shows "find P (t_array t ! slot (t_size t) (t_split t) h) = Some x \<longleftrightarrow> x \<in> elems t \<and> P x"
proof -
  let ?b = "slot (t_size t) (t_split t) h"
  from ok obtain k where "t_size t = 2 * k" "0 < k" by (rule size_half)
  then have "?b < t_size t" by (simp add: slot_less)
  then have len: "?b < length (t_array t)" using ok by (simp add: tab_ok_def)
  have at: "y \<in> elems t \<and> P y \<longleftrightarrow> y \<in> set (t_array t ! ?b) \<and> P y" for y
  proof -
    have "bucket_of raw t y = ?b" if "P y" using h [OF that] by (simp add: bucket_of_def)
    then show ?thesis using elems_iff [OF ok, of y] len by (auto simp: elems_nth)
  qed
  show ?thesis
  proof
    assume "find P (t_array t ! ?b) = Some x"
    then have "x \<in> set (t_array t ! ?b)" "P x" by (auto simp: find_Some_iff)
    with at show "x \<in> elems t \<and> P x" by blast
  next
    assume "x \<in> elems t \<and> P x"
    then show "find P (t_array t ! ?b) = Some x" using at one by (intro find_Some_unique) auto
  qed
qed

section \<open>Properties\<close>

text \<open>Searching by node number finds exactly the nodes that were hashed and not unhashed since,
  through every split, merge, growth and shrinking of the table on the way, whether or not memory
  for a larger table was available, as long as node numbers are unique.\<close>

theorem id_table_lookup:
  assumes "inj ino" "t = play (hash_node mem (\<lambda>x. id_raw (ino x))) (unhash_node mem (\<lambda>x. id_raw (ino x))) elems
      ops node_table_init"
  shows "get_node_nocheck ino t nodeid = Some x \<longleftrightarrow> x \<in> present ops {} \<and> ino x = nodeid"
proof -
  from idx.play_refines [OF idx_ok_init(1), of "\<lambda>x. id_raw (ino x)" mem ops] assms(2)
  have t: "tab_ok (\<lambda>x. id_raw (ino x)) t" "elems t = present ops {}"
    by (auto simp: idx_ok_def idx_ok_init(2))
  show ?thesis
    using find_in_bucket [OF t(1), of "\<lambda>x. ino x = nodeid" "id_raw nodeid" x] assms(1)
    unfolding get_node_nocheck_def id_hash_def t(2) by (auto dest: injD)
qed

theorem id_table_lookup_witness:
  "get_node_nocheck (\<lambda>x. x) (play (hash_node (\<lambda>_. True) id_raw) (unhash_node (\<lambda>_. True) id_raw) elems
      [Hash 7, Hash 9, Unhash 9] node_table_init) 7 = Some 7"
  using id_table_lookup [of "\<lambda>x. x" _ "\<lambda>_. True" "[Hash 7, Hash 9, Unhash 9]" 7 7] by simp

text \<open>Searching by parent and name finds exactly the nodes in the name table with that parent
  and name, wherever splitting has put them, and the same holds after hashing one more node.\<close>

theorem name_table_lookup:
  assumes "idx_ok (\<lambda>x. name_raw (pino x) (nam x)) t" "new \<notin> elems t"
    "inj_on (\<lambda>x. (pino x, nam x)) (insert new (elems t))"
  shows "(lookup_node pino nam t parent name = Some x \<longleftrightarrow> x \<in> elems t \<and> pino x = parent \<and> nam x = name) \<and>
    (lookup_node pino nam (hash_node mem (\<lambda>x. name_raw (pino x) (nam x)) t new) parent name = Some x \<longleftrightarrow>
      (x = new \<or> x \<in> elems t) \<and> pino x = parent \<and> nam x = name)"
proof -
  let ?raw = "\<lambda>x. name_raw (pino x) (nam x)"
  have look: "lookup_node pino nam u parent name = Some x \<longleftrightarrow> x \<in> elems u \<and> pino x = parent \<and> nam x = name"
    if u: "tab_ok ?raw u" "elems u \<subseteq> insert new (elems t)" for u
    unfolding lookup_node_def name_hash_def
  proof (rule find_in_bucket [OF u(1)])
    fix y z assume "y \<in> elems u" "z \<in> elems u" "pino y = parent \<and> nam y = name" "pino z = parent \<and> nam z = name"
    with u(2) show "y = z" by (intro inj_onD [OF assms(3)]) auto
  qed simp
  from hash_node_ok [OF assms(1,2), of mem] have "tab_ok ?raw (hash_node mem ?raw t new)"
    "elems (hash_node mem ?raw t new) = insert new (elems t)" by (auto simp: idx_ok_def)
  with look [of t] look [of "hash_node mem ?raw t new"] assms(1) show ?thesis by (auto simp: idx_ok_def)
qed

theorem name_table_lookup_witness:
  "lookup_node (\<lambda>x. 1) (\<lambda>x. x) (hash_node (\<lambda>_. True) (\<lambda>x. name_raw 1 x) node_table_init ''a'') 1 ''a'' = Some ''a''"
  using name_table_lookup [of "\<lambda>_. 1" "\<lambda>x. x" node_table_init "''a''" 1 "''a''" "''a''" "\<lambda>_. True"]
  by (simp add: idx_ok_init)

end
