(* ===== verification/Node_Tree.thy ===== *)
theory Node_Tree
  imports Node_Table
begin

text \<open>
  The tree of nodes of libfuse's high-level library (\<^verbatim>\<open>fuse-3.17.2/lib/fuse.c\<close>): nodes live in a
  heap and are found by number or by parent and name; they are counted by the kernel's lookups
  and by their children. A request turns a node number into a path by walking to the root,
  locking the nodes on the way; requests that find a node locked wait in a queue.

  An address is a number; \<open>f_heap\<close> maps the addresses in use to nodes, and \<open>f_fresh\<close> is above all of
  them. The mutex around each operation is not modelled: operations are atomic. Walks to the root
  carry fuel, \<open>f_fresh + 1\<close> steps, which is enough for every walk that does not repeat a node.
\<close>

section \<open>Nodes and the library's state\<close>

type_synonym addr = nat

record node =
  n_nodeid :: fuse_ino_t
  n_generation :: "32 word"
  n_refctr :: int
  n_parent :: "addr option"
  n_name :: "string option"
  n_nlookup :: "64 word"
  n_open_count :: int
  n_is_hidden :: bool
  n_treelock :: int

record lock_queue_element =
  q_id :: nat
  q_nodeid1 :: fuse_ino_t
  q_name1 :: "string option"
  q_path1 :: bool
  q_wnode1 :: bool
  q_nodeid2 :: fuse_ino_t
  q_name2 :: "string option"
  q_path2 :: bool
  q_wnode2 :: bool
  q_err :: int
  q_done :: bool
  q_signals :: nat
  q_result :: "(string \<times> addr option) list"

record fuse =
  f_heap :: "addr \<rightharpoonup> node"
  f_fresh :: addr
  f_names :: "addr node_table"
  f_ids :: "addr node_table"
  f_lru :: "addr list"
  f_ctr :: "64 word"
  f_generation :: "32 word"
  f_remember :: int
  f_lockq :: "lock_queue_element list"
  f_nullpath_ok :: bool

definition FUSE_ROOT_ID :: fuse_ino_t where "FUSE_ROOT_ID = 1"
definition FUSE_UNKNOWN_INO :: fuse_ino_t where "FUSE_UNKNOWN_INO = 0xffffffff"
definition TREELOCK_WRITE :: int where "TREELOCK_WRITE = -1"
definition TREELOCK_WAIT_OFFSET :: int where "TREELOCK_WAIT_OFFSET = INT_MIN"

definition node_zero :: node where
  "node_zero = \<lparr>n_nodeid = 0, n_generation = 0, n_refctr = 0, n_parent = None, n_name = None,
     n_nlookup = 0, n_open_count = 0, n_is_hidden = False, n_treelock = 0\<rparr>"

definition deref :: "fuse \<Rightarrow> addr \<Rightarrow> cerror + node" where
  "deref f a = (case f_heap f a of None \<Rightarrow> Inl NullDeref | Some n \<Rightarrow> Inr n)"

definition update :: "addr \<Rightarrow> (node \<Rightarrow> node) \<Rightarrow> fuse \<Rightarrow> fuse" where
  "update a g f = f\<lparr>f_heap := (f_heap f)(a := map_option g (f_heap f a))\<rparr>"

text \<open>The keys of a node in the two tables.\<close>

definition node_at :: "fuse \<Rightarrow> addr \<Rightarrow> node" where
  "node_at f a = (case f_heap f a of None \<Rightarrow> node_zero | Some n \<Rightarrow> n)"

definition ino_of :: "fuse \<Rightarrow> addr \<Rightarrow> fuse_ino_t" where
  "ino_of f a = n_nodeid (node_at f a)"

definition parent_ino :: "fuse \<Rightarrow> addr \<Rightarrow> fuse_ino_t" where
  "parent_ino f a = (case n_parent (node_at f a) of None \<Rightarrow> 0 | Some p \<Rightarrow> ino_of f p)"

definition name_of :: "fuse \<Rightarrow> addr \<Rightarrow> string" where
  "name_of f a = (case n_name (node_at f a) of None \<Rightarrow> [] | Some s \<Rightarrow> s)"

abbreviation id_key :: "fuse \<Rightarrow> addr \<Rightarrow> nat" where
  "id_key f a \<equiv> id_raw (ino_of f a)"

abbreviation name_key :: "fuse \<Rightarrow> addr \<Rightarrow> nat" where
  "name_key f a \<equiv> name_raw (parent_ino f a) (name_of f a)"

definition find_id :: "fuse \<Rightarrow> fuse_ino_t \<Rightarrow> addr option" where
  "find_id f ino = get_node_nocheck (ino_of f) (f_ids f) ino"

definition get_node :: "fuse \<Rightarrow> fuse_ino_t \<Rightarrow> cerror + addr" where
  "get_node f ino = (case find_id f ino of None \<Rightarrow> Inl AssertFail | Some a \<Rightarrow> Inr a)"

definition find_name :: "fuse \<Rightarrow> fuse_ino_t \<Rightarrow> string \<Rightarrow> addr option" where
  "find_name f parent name = lookup_node (parent_ino f) (name_of f) (f_names f) parent name"

section \<open>Reference counts\<close>

definition lru_enabled :: "fuse \<Rightarrow> bool" where
  "lru_enabled f \<longleftrightarrow> 0 < f_remember f"

definition remove_node_lru :: "addr \<Rightarrow> fuse \<Rightarrow> fuse" where
  "remove_node_lru a f = f\<lparr>f_lru := remove1 a (f_lru f)\<rparr>"

definition set_forget_time :: "addr \<Rightarrow> fuse \<Rightarrow> fuse" where
  "set_forget_time a f = f\<lparr>f_lru := remove1 a (f_lru f) @ [a]\<rparr>"

definition unhash_id :: "(nat \<Rightarrow> bool) \<Rightarrow> fuse \<Rightarrow> addr \<Rightarrow> fuse" where
  "unhash_id mem f a = f\<lparr>f_ids := unhash_node mem (id_key f) (f_ids f) a\<rparr>"

definition hash_id :: "(nat \<Rightarrow> bool) \<Rightarrow> fuse \<Rightarrow> addr \<Rightarrow> fuse" where
  "hash_id mem f a = f\<lparr>f_ids := hash_node mem (id_key f) (f_ids f) a\<rparr>"

definition free_node :: "fuse \<Rightarrow> addr \<Rightarrow> fuse" where
  "free_node f a = f\<lparr>f_heap := (f_heap f)(a := None)\<rparr>"

text \<open>Releasing a node may delete it, which releases its parent, and so on up the tree.\<close>

fun unref_node :: "(nat \<Rightarrow> bool) \<Rightarrow> nat \<Rightarrow> fuse \<Rightarrow> addr \<Rightarrow> cerror + fuse"
  and delete_node :: "(nat \<Rightarrow> bool) \<Rightarrow> nat \<Rightarrow> fuse \<Rightarrow> addr \<Rightarrow> cerror + fuse"
  and unhash_name :: "(nat \<Rightarrow> bool) \<Rightarrow> nat \<Rightarrow> fuse \<Rightarrow> addr \<Rightarrow> cerror + fuse" where
  "unref_node mem 0 f a = Inl Diverge"
| "unref_node mem (Suc fuel) f a =
     cbind (deref f a) (\<lambda>n.
       if n_refctr n \<le> 0 then Inl AssertFail
       else let f1 = update a (\<lambda>n. n\<lparr>n_refctr := n_refctr n - 1\<rparr>) f
            in if n_refctr n - 1 = 0 then delete_node mem fuel f1 a else Inr f1)"
| "delete_node mem 0 f a = Inl Diverge"
| "delete_node mem (Suc fuel) f a =
     cbind (deref f a) (\<lambda>n.
       if n_treelock n \<noteq> 0 then Inl AssertFail
       else cbind (unhash_name mem fuel f a) (\<lambda>f1.
              let f2 = (if lru_enabled f1 then remove_node_lru a f1 else f1)
              in Inr (free_node (unhash_id mem f2 a) a)))"
| "unhash_name mem 0 f a = Inl Diverge"
| "unhash_name mem (Suc fuel) f a =
     cbind (deref f a) (\<lambda>n.
       case n_name n of
         None \<Rightarrow> Inr f
       | Some nm \<Rightarrow>
           (case n_parent n of
              None \<Rightarrow> Inl NullDeref
            | Some p \<Rightarrow>
                if a \<in> set (t_array (f_names f) ! bucket_of (name_key f) (f_names f) a)
                then cbind (unref_node mem fuel (f\<lparr>f_names := unlink_chain (name_key f) (f_names f) a\<rparr>) p)
                       (\<lambda>f1.
                          let f2 = update a (\<lambda>n. n\<lparr>n_name := None, n_parent := None\<rparr>) f1
                          in Inr (f2\<lparr>f_names := drop_use mem (f_names f2)\<rparr>))
                else Inl AssertFail))"

text \<open>Three calls per level of the tree.\<close>

definition fuel_of :: "fuse \<Rightarrow> nat" where
  "fuel_of f = 3 * f_fresh f + 3"

definition hash_name ::
    "(nat \<Rightarrow> bool) \<Rightarrow> fuse \<Rightarrow> addr \<Rightarrow> fuse_ino_t \<Rightarrow> string \<Rightarrow> cerror + int \<times> fuse" where
  "hash_name mem f a parentid name =
     cbind (get_node f parentid) (\<lambda>p.
       if 32 \<le> length name \<and> \<not> mem (length name + 1) then Inr (-1, f)
       else
         let f1 = update p (\<lambda>n. n\<lparr>n_refctr := n_refctr n + 1\<rparr>) f;
             f2 = update a (\<lambda>n. n\<lparr>n_name := Some name, n_parent := Some p\<rparr>) f1
         in Inr (0, f2\<lparr>f_names := hash_node mem (name_key f2) (f_names f2) a\<rparr>))"

text \<open>Node numbers are 32-bit, nonzero, not the unknown number, and not in use. The loop looks at
  each number at most once before it finds a free one.\<close>

fun next_id_loop :: "nat \<Rightarrow> fuse \<Rightarrow> cerror + fuse" where
  "next_id_loop 0 f = Inl Diverge"
| "next_id_loop (Suc fuel) f =
     (let ctr = and (f_ctr f + 1) 0xffffffff;
          f1 = f\<lparr>f_ctr := ctr, f_generation := (if ctr = 0 then f_generation f + 1 else f_generation f)\<rparr>
      in if ctr = 0 \<or> ctr = FUSE_UNKNOWN_INO \<or> find_id f1 ctr \<noteq> None then next_id_loop fuel f1
         else Inr f1)"

definition next_id :: "fuse \<Rightarrow> cerror + fuse_ino_t \<times> fuse" where
  "next_id f = cbind (next_id_loop (t_use (f_ids f) + 3) f) (\<lambda>f1. Inr (f_ctr f1, f1))"

definition inc_nlookup :: "node \<Rightarrow> node" where
  "inc_nlookup n = n\<lparr>n_refctr := (if n_nlookup n = 0 then n_refctr n + 1 else n_refctr n),
     n_nlookup := n_nlookup n + 1\<rparr>"

definition alloc_node :: "(nat \<Rightarrow> bool) \<Rightarrow> fuse \<Rightarrow> (addr \<times> fuse) option" where
  "alloc_node mem f =
     (if mem 128 then Some (f_fresh f, f\<lparr>f_heap := (f_heap f)(f_fresh f \<mapsto> node_zero), f_fresh := f_fresh f + 1\<rparr>)
      else None)"

text \<open>The tree that \<^verbatim>\<open>fuse_new\<close> sets up: two empty tables and the root, looked up once for the library itself.\<close>

definition new_tree :: "(nat \<Rightarrow> bool) \<Rightarrow> int \<Rightarrow> bool \<Rightarrow> fuse option" where
  "new_tree mem remember nullpath_ok =
     (if \<not> mem (8 * NODE_TABLE_MIN_SIZE) then None
      else case alloc_node mem \<lparr>f_heap = Map.empty, f_fresh = 0, f_names = node_table_init, f_ids = node_table_init,
                 f_lru = [], f_ctr = 0, f_generation = 0, f_remember = remember, f_lockq = [],
                 f_nullpath_ok = nullpath_ok\<rparr> of
             None \<Rightarrow> None
           | Some (root, f) \<Rightarrow>
               Some (hash_id mem (update root inc_nlookup
                 (update root (\<lambda>n. n\<lparr>n_name := Some ''/'', n_parent := None, n_nodeid := FUSE_ROOT_ID\<rparr>) f)) root))"

definition new_node ::
    "(nat \<Rightarrow> bool) \<Rightarrow> fuse \<Rightarrow> fuse_ino_t \<Rightarrow> string \<Rightarrow> cerror + addr option \<times> fuse" where
  "new_node mem f parent name =
     (case alloc_node mem f of
        None \<Rightarrow> Inr (None, f)
      | Some (a, f1) \<Rightarrow>
          cbind (next_id f1) (\<lambda>(ino, f2).
            let f3 = update a (\<lambda>n. n\<lparr>n_nodeid := ino, n_generation := f_generation f2\<rparr>) f2;
                f4 = (if f_remember f3 \<noteq> 0 then update a inc_nlookup f3 else f3)
            in cbind (hash_name mem f4 a parent name) (\<lambda>(res, f5).
                 if res = -1 then Inr (None, free_node f5 a)
                 else Inr (Some a, hash_id mem f5 a))))"

definition find_node ::
    "(nat \<Rightarrow> bool) \<Rightarrow> fuse \<Rightarrow> fuse_ino_t \<Rightarrow> string option \<Rightarrow> cerror + addr option \<times> fuse" where
  "find_node mem f parent name =
     cbind (case name of None \<Rightarrow> cbind (get_node f parent) (\<lambda>a. Inr (Some a))
                       | Some nm \<Rightarrow> Inr (find_name f parent nm)) (\<lambda>r.
       case r of
         None \<Rightarrow>
           cbind (new_node mem f parent (case name of None \<Rightarrow> [] | Some nm \<Rightarrow> nm)) (\<lambda>(r, f1).
             case r of None \<Rightarrow> Inr (None, f1) | Some a \<Rightarrow> Inr (Some a, update a inc_nlookup f1))
       | Some a \<Rightarrow>
           let f1 = (if lru_enabled f \<and> n_nlookup (node_at f a) = 1 then remove_node_lru a f else f)
           in Inr (Some a, update a inc_nlookup f1))"

text \<open>Elements of a path: the pieces between slashes, empty ones left out as \<^verbatim>\<open>strtok_r\<close> does.\<close>

fun path_elements :: "string \<Rightarrow> string \<Rightarrow> string list" where
  "path_elements cur [] = (if cur = [] then [] else [cur])"
| "path_elements cur (c # s) =
     (if c = CHR ''/'' then (if cur = [] then path_elements [] s else cur # path_elements [] s)
      else path_elements (cur @ [c]) s)"

fun walk_names :: "fuse \<Rightarrow> fuse_ino_t \<Rightarrow> string list \<Rightarrow> int \<times> fuse_ino_t" where
  "walk_names f ino [] = (0, ino)"
| "walk_names f ino (e # es) =
     (case find_name f ino e of None \<Rightarrow> (- ENOENT, ino) | Some a \<Rightarrow> walk_names f (ino_of f a) es)"

definition lookup_path_in_cache :: "(nat \<Rightarrow> bool) \<Rightarrow> fuse \<Rightarrow> string \<Rightarrow> int \<times> fuse_ino_t option" where
  "lookup_path_in_cache mem f path =
     (if \<not> mem (length path + 1) then (- ENOMEM, None)
      else case walk_names f FUSE_ROOT_ID (path_elements [] path) of
             (err, ino) \<Rightarrow> (err, if err = 0 then Some ino else None))"

end
