(* ===== verification/Node_Path.thy ===== *)
theory Node_Path
  imports Node_Tree
begin

text \<open>
  From node numbers to paths (\<^verbatim>\<open>fuse-3.17.2/lib/fuse.c\<close>): the path is written backwards into a
  growing buffer while walking from a node to the root; with locking, every node on the way is
  read-locked and the last component may be write-locked. \<open>treelock\<close> is positive for readers,
  \<^verbatim>\<open>TREELOCK_WRITE\<close> for a writer, and offset by \<^verbatim>\<open>TREELOCK_WAIT_OFFSET\<close> when a writer waits for readers.
\<close>

section \<open>The path buffer\<close>

text \<open>The size doubles until it is large enough. A size of zero, or a need above the largest
  \<^verbatim>\<open>unsigned\<close>, keeps the loop from ending.\<close>

function grow_bufsize :: "nat \<Rightarrow> nat \<Rightarrow> nat option" where
  "grow_bufsize n need =
     (if need \<le> n then Some n
      else if n = 0 \<or> 0xffffffff \<le> n then None
      else if 0x80000000 \<le> n then grow_bufsize 0xffffffff need
      else grow_bufsize (2 * n) need)"
  by pat_completeness auto
termination
  by (relation "measure (\<lambda>(n, need). if n = 0xffffffff then 0 else 0x100000000 - n)") auto

declare grow_bufsize.simps [simp del]

text \<open>The array \<open>buf\<close> holds the path from index \<open>s\<close> on; \<open>None\<close> stands for the null pointer.\<close>

definition add_name :: "(nat \<Rightarrow> bool) \<Rightarrow> carr \<Rightarrow> nat \<Rightarrow> string \<Rightarrow> cerror + (carr \<times> nat) option" where
  "add_name mem buf s name =
     (let len = length name; pathlen = length buf - s
      in cbind (if s \<le> len
                then (case grow_bufsize (length buf) (pathlen + len + 1) of
                        None \<Rightarrow> Inl Diverge
                      | Some n \<Rightarrow>
                          if \<not> mem n then Inr None
                          else let newbuf = buf @ replicate (n - length buf) None; s1 = n - pathlen
                               in cbind (read_cells newbuf (length buf - pathlen) pathlen) (\<lambda>old.
                                  cbind (memcpy_cells newbuf s1 old) (\<lambda>b. Inr (Some (b, s1)))))
                else Inr (Some (buf, s))) (\<lambda>r.
         case r of
           None \<Rightarrow> Inr None
         | Some (b, s1) \<Rightarrow>
             if s1 < len + 1 then Inl OutOfBounds
             else cbind (memcpy_cells b (s1 - len) (map Some name)) (\<lambda>b1.
                  cbind (write_cell b1 (s1 - len - 1) CHR ''/'') (\<lambda>b2.
                  Inr (Some (b2, s1 - len - 1))))))"

section \<open>Walking and locking\<close>

text \<open>The walk of \<^verbatim>\<open>unlock_path\<close> from a node (or the null pointer) up to \<open>end\<close> or the root.\<close>

fun unlock_walk :: "nat \<Rightarrow> fuse \<Rightarrow> addr option \<Rightarrow> addr option \<Rightarrow> cerror + fuse" where
  "unlock_walk 0 f a stop = Inl Diverge"
| "unlock_walk (Suc fuel) f a stop =
     (if a = stop then Inr f
      else case a of
             None \<Rightarrow> Inl NullDeref
           | Some x \<Rightarrow>
               cbind (deref f x) (\<lambda>n.
                 if n_nodeid n = FUSE_ROOT_ID then Inr f
                 else if n_treelock n = 0 \<or> n_treelock n = TREELOCK_WAIT_OFFSET \<or> n_treelock n = TREELOCK_WRITE
                 then Inl AssertFail
                 else let t = n_treelock n - 1;
                          t' = (if t = TREELOCK_WAIT_OFFSET then 0 else t)
                      in unlock_walk fuel (update x (\<lambda>n. n\<lparr>n_treelock := t'\<rparr>) f) (n_parent n) stop))"

definition unlock_path :: "fuse \<Rightarrow> fuse_ino_t \<Rightarrow> addr option \<Rightarrow> addr option \<Rightarrow> cerror + fuse" where
  "unlock_path f nodeid wnode stop =
     cbind (case wnode of
              None \<Rightarrow> Inr f
            | Some w \<Rightarrow> cbind (deref f w) (\<lambda>n.
                if n_treelock n \<noteq> TREELOCK_WRITE then Inl AssertFail
                else Inr (update w (\<lambda>n. n\<lparr>n_treelock := 0\<rparr>) f))) (\<lambda>f1.
     cbind (get_node f1 nodeid) (\<lambda>a. unlock_walk (f_fresh f1 + 1) f1 (Some a) stop))"

text \<open>The walk of \<^verbatim>\<open>try_get_path\<close>: the error (zero at the root), the state, the node reached and the
  path buffer.\<close>

fun path_walk ::
    "(nat \<Rightarrow> bool) \<Rightarrow> bool \<Rightarrow> nat \<Rightarrow> fuse \<Rightarrow> addr \<Rightarrow> carr \<Rightarrow> nat \<Rightarrow> cerror + int \<times> fuse \<times> addr \<times> carr \<times> nat" where
  "path_walk mem lck 0 f a buf s = Inl Diverge"
| "path_walk mem lck (Suc fuel) f a buf s =
     cbind (deref f a) (\<lambda>n.
       if n_nodeid n = FUSE_ROOT_ID then Inr (0, f, a, buf, s)
       else case (n_name n, n_parent n) of
              (Some nm, Some p) \<Rightarrow>
                cbind (add_name mem buf s nm) (\<lambda>r.
                  case r of
                    None \<Rightarrow> Inr (- ENOMEM, f, a, buf, s)
                  | Some (buf1, s1) \<Rightarrow>
                      if \<not> lck then path_walk mem lck fuel f p buf1 s1
                      else if n_treelock n < 0 then Inr (- EAGAIN, f, a, buf1, s1)
                      else path_walk mem lck fuel (update a (\<lambda>n. n\<lparr>n_treelock := n_treelock n + 1\<rparr>) f) p buf1 s1)
            | _ \<Rightarrow> Inr (- ESTALE, f, a, buf, s))"

text \<open>The write lock on the last component: \<open>Inl\<close> the state to give up with, or \<open>Inr\<close> the node locked.\<close>

definition lock_last :: "fuse \<Rightarrow> fuse_ino_t \<Rightarrow> string \<Rightarrow> fuse + addr option \<times> fuse" where
  "lock_last f nodeid name =
     (case find_name f nodeid name of
        None \<Rightarrow> Inr (None, f)
      | Some w \<Rightarrow>
          let t = n_treelock (node_at f w)
          in if t \<noteq> 0
             then Inl (if 0 < t then update w (\<lambda>n. n\<lparr>n_treelock := t + TREELOCK_WAIT_OFFSET\<rparr>) f else f)
             else Inr (Some w, update w (\<lambda>n. n\<lparr>n_treelock := TREELOCK_WRITE\<rparr>) f))"

definition finish_path :: "carr \<Rightarrow> nat \<Rightarrow> cerror + string" where
  "finish_path buf s = cbind (cstr (drop s buf)) (\<lambda>text. Inr (if text = [] then ''/'' else text))"

text \<open>The result is the error, the path and the write-locked node, and the new state.\<close>

definition try_get_path ::
    "(nat \<Rightarrow> bool) \<Rightarrow> fuse \<Rightarrow> fuse_ino_t \<Rightarrow> string option \<Rightarrow> bool \<Rightarrow> bool \<Rightarrow>
       cerror + int \<times> (string \<times> addr option) option \<times> fuse" where
  "try_get_path mem f nodeid name wr need_lock =
     (if \<not> mem 256 then Inr (- ENOMEM, None, f)
      else
        let buf0 = replicate 255 None @ [Some NUL]
        in cbind (case name of None \<Rightarrow> Inr (Some (buf0, 255)) | Some nm \<Rightarrow> add_name mem buf0 255 nm) (\<lambda>r.
           case r of
             None \<Rightarrow> Inr (- ENOMEM, None, f)
           | Some (buf, s) \<Rightarrow>
               cbind (if wr
                      then if \<not> need_lock then Inl AssertFail
                           else case name of None \<Rightarrow> Inl NullDeref | Some nm \<Rightarrow> Inr (lock_last f nodeid nm)
                      else Inr (Inr (None, f))) (\<lambda>lk.
                 case lk of
                   Inl f1 \<Rightarrow> Inr (- EAGAIN, None, f1)
                 | Inr (wnode, f1) \<Rightarrow>
                     cbind (get_node f1 nodeid) (\<lambda>a.
                     cbind (path_walk mem need_lock (f_fresh f1 + 1) f1 a buf s) (\<lambda>(err, f2, stop, buf2, s2).
                       if err \<noteq> 0
                       then if need_lock
                            then cbind (unlock_path f2 nodeid wnode (Some stop)) (\<lambda>f3. Inr (err, None, f3))
                            else Inr (err, None, f2)
                       else cbind (finish_path buf2 s2) (\<lambda>path. Inr (0, Some (path, wnode), f2)))))))"

definition try_get_path2 ::
    "(nat \<Rightarrow> bool) \<Rightarrow> fuse \<Rightarrow> fuse_ino_t \<Rightarrow> string option \<Rightarrow> fuse_ino_t \<Rightarrow> string option \<Rightarrow> bool \<Rightarrow> bool \<Rightarrow>
       cerror + int \<times> (string \<times> addr option) list \<times> fuse" where
  "try_get_path2 mem f nodeid1 name1 nodeid2 name2 wr1 wr2 =
     cbind (try_get_path mem f nodeid1 name1 wr1 True) (\<lambda>(err, r1, f1).
       case r1 of
         None \<Rightarrow> Inr (err, [], f1)
       | Some pw1 \<Rightarrow>
           cbind (try_get_path mem f1 nodeid2 name2 wr2 True) (\<lambda>(err2, r2, f2).
             case r2 of
               None \<Rightarrow> cbind (unlock_path f2 nodeid1 (snd pw1) None) (\<lambda>f3. Inr (err2, [], f3))
             | Some pw2 \<Rightarrow> Inr (0, [pw1, pw2], f2)))"

section \<open>The queue of waiting requests\<close>

definition queue_element_wakeup ::
    "(nat \<Rightarrow> bool) \<Rightarrow> fuse \<Rightarrow> lock_queue_element \<Rightarrow> cerror + lock_queue_element \<times> fuse" where
  "queue_element_wakeup mem f qe =
     (if \<not> q_path1 qe
      then cbind (get_node f (q_nodeid1 qe)) (\<lambda>a. cbind (deref f a) (\<lambda>n.
             Inr (if n_treelock n = 0 then qe\<lparr>q_signals := q_signals qe + 1\<rparr> else qe, f)))
      else if q_done qe then Inr (qe, f)
      else cbind (if \<not> q_path2 qe
                  then cbind (try_get_path mem f (q_nodeid1 qe) (q_name1 qe) (q_wnode1 qe) True)
                         (\<lambda>(err, r, f1). Inr (err, (case r of None \<Rightarrow> [] | Some pw \<Rightarrow> [pw]), f1))
                  else try_get_path2 mem f (q_nodeid1 qe) (q_name1 qe) (q_nodeid2 qe) (q_name2 qe)
                         (q_wnode1 qe) (q_wnode2 qe)) (\<lambda>(err, res, f1).
             if err = - EAGAIN then Inr (qe, f1)
             else Inr (qe\<lparr>q_err := err, q_done := True, q_signals := q_signals qe + 1, q_result := res\<rparr>, f1)))"

fun wake_list ::
    "(nat \<Rightarrow> bool) \<Rightarrow> fuse \<Rightarrow> lock_queue_element list \<Rightarrow> cerror + lock_queue_element list \<times> fuse" where
  "wake_list mem f [] = Inr ([], f)"
| "wake_list mem f (qe # qs) =
     cbind (queue_element_wakeup mem f qe) (\<lambda>(qe1, f1).
     cbind (wake_list mem f1 qs) (\<lambda>(qs1, f2). Inr (qe1 # qs1, f2)))"

definition wake_up_queued :: "(nat \<Rightarrow> bool) \<Rightarrow> fuse \<Rightarrow> cerror + fuse" where
  "wake_up_queued mem f = cbind (wake_list mem f (f_lockq f)) (\<lambda>(qs, f1). Inr (f1\<lparr>f_lockq := qs\<rparr>))"

definition queue_path :: "fuse \<Rightarrow> lock_queue_element \<Rightarrow> fuse" where
  "queue_path f qe = f\<lparr>f_lockq := f_lockq f @ [qe\<lparr>q_done := False\<rparr>]\<rparr>"

fun dequeue :: "nat \<Rightarrow> lock_queue_element list \<Rightarrow> cerror + lock_queue_element list" where
  "dequeue k [] = Inl NullDeref"
| "dequeue k (qe # qs) = (if q_id qe = k then Inr qs else cbind (dequeue k qs) (\<lambda>r. Inr (qe # r)))"

definition dequeue_path :: "fuse \<Rightarrow> lock_queue_element \<Rightarrow> cerror + fuse" where
  "dequeue_path f qe = cbind (dequeue (q_id qe) (f_lockq f)) (\<lambda>qs. Inr (f\<lparr>f_lockq := qs\<rparr>))"

text \<open>The first part of \<^verbatim>\<open>get_path_common\<close>, up to the point where it waits: an answer, or a place in the
  queue.\<close>

datatype path_reply = Answer int "(string \<times> addr option) list" | Waiting lock_queue_element

definition get_path_common ::
    "(nat \<Rightarrow> bool) \<Rightarrow> fuse \<Rightarrow> nat \<Rightarrow> fuse_ino_t \<Rightarrow> string option \<Rightarrow> bool \<Rightarrow> cerror + path_reply \<times> fuse" where
  "get_path_common mem f k nodeid name wr =
     cbind (try_get_path mem f nodeid name wr True) (\<lambda>(err, r, f1).
       if err = - EAGAIN
       then let qe = \<lparr>q_id = k, q_nodeid1 = nodeid, q_name1 = name, q_path1 = True, q_wnode1 = wr,
                      q_nodeid2 = 0, q_name2 = None, q_path2 = False, q_wnode2 = False, q_err = 0,
                      q_done = False, q_signals = 0, q_result = []\<rparr>
            in Inr (Waiting qe, queue_path f1 qe)
       else Inr (Answer err (case r of None \<Rightarrow> [] | Some pw \<Rightarrow> [pw]), f1))"

definition get_path :: "(nat \<Rightarrow> bool) \<Rightarrow> fuse \<Rightarrow> nat \<Rightarrow> fuse_ino_t \<Rightarrow> cerror + path_reply \<times> fuse" where
  "get_path mem f k nodeid = get_path_common mem f k nodeid None False"

definition get_path_nullok :: "(nat \<Rightarrow> bool) \<Rightarrow> fuse \<Rightarrow> nat \<Rightarrow> fuse_ino_t \<Rightarrow> cerror + path_reply \<times> fuse" where
  "get_path_nullok mem f k nodeid =
     (if f_nullpath_ok f then Inr (Answer 0 [], f)
      else cbind (get_path_common mem f k nodeid None False) (\<lambda>(r, f1).
             Inr (case r of Answer err ps \<Rightarrow> Answer (if err = - ESTALE then 0 else err) ps | Waiting qe \<Rightarrow> r, f1)))"

definition get_path_name ::
    "(nat \<Rightarrow> bool) \<Rightarrow> fuse \<Rightarrow> nat \<Rightarrow> fuse_ino_t \<Rightarrow> string option \<Rightarrow> cerror + path_reply \<times> fuse" where
  "get_path_name mem f k nodeid name = get_path_common mem f k nodeid name False"

definition get_path_wrlock ::
    "(nat \<Rightarrow> bool) \<Rightarrow> fuse \<Rightarrow> nat \<Rightarrow> fuse_ino_t \<Rightarrow> string \<Rightarrow> cerror + path_reply \<times> fuse" where
  "get_path_wrlock mem f k nodeid name = get_path_common mem f k nodeid (Some name) True"

definition get_path2 ::
    "(nat \<Rightarrow> bool) \<Rightarrow> fuse \<Rightarrow> nat \<Rightarrow> fuse_ino_t \<Rightarrow> string option \<Rightarrow> fuse_ino_t \<Rightarrow> string option \<Rightarrow> bool \<Rightarrow> bool \<Rightarrow>
       cerror + path_reply \<times> fuse" where
  "get_path2 mem f k nodeid1 name1 nodeid2 name2 wr1 wr2 =
     cbind (try_get_path2 mem f nodeid1 name1 nodeid2 name2 wr1 wr2) (\<lambda>(err, res, f1).
       if err = - EAGAIN
       then let qe = \<lparr>q_id = k, q_nodeid1 = nodeid1, q_name1 = name1, q_path1 = True, q_wnode1 = wr1,
                      q_nodeid2 = nodeid2, q_name2 = name2, q_path2 = True, q_wnode2 = wr2, q_err = 0,
                      q_done = False, q_signals = 0, q_result = []\<rparr>
            in Inr (Waiting qe, queue_path f1 qe)
       else Inr (Answer err res, f1))"

definition free_path_wrlock ::
    "(nat \<Rightarrow> bool) \<Rightarrow> fuse \<Rightarrow> fuse_ino_t \<Rightarrow> addr option \<Rightarrow> cerror + fuse" where
  "free_path_wrlock mem f nodeid wnode =
     cbind (unlock_path f nodeid wnode None) (\<lambda>f1.
       if f_lockq f1 \<noteq> [] then wake_up_queued mem f1 else Inr f1)"

definition free_path :: "(nat \<Rightarrow> bool) \<Rightarrow> fuse \<Rightarrow> fuse_ino_t \<Rightarrow> string option \<Rightarrow> cerror + fuse" where
  "free_path mem f nodeid path =
     (case path of None \<Rightarrow> Inr f | Some p \<Rightarrow> free_path_wrlock mem f nodeid None)"

definition free_path2 ::
    "(nat \<Rightarrow> bool) \<Rightarrow> fuse \<Rightarrow> fuse_ino_t \<Rightarrow> fuse_ino_t \<Rightarrow> addr option \<Rightarrow> addr option \<Rightarrow> cerror + fuse" where
  "free_path2 mem f nodeid1 nodeid2 wnode1 wnode2 =
     cbind (unlock_path f nodeid1 wnode1 None) (\<lambda>f1.
     cbind (unlock_path f1 nodeid2 wnode2 None) (\<lambda>f2. wake_up_queued mem f2))"

section \<open>Forgetting, removing and renaming\<close>

text \<open>\<^verbatim>\<open>forget_node\<close> once the node is not locked; the result \<open>None\<close> is a request that has to wait.\<close>

definition forget_node ::
    "(nat \<Rightarrow> bool) \<Rightarrow> fuse \<Rightarrow> fuse_ino_t \<Rightarrow> 64 word \<Rightarrow> cerror + fuse option" where
  "forget_node mem f nodeid nlookup =
     (if nodeid = FUSE_ROOT_ID then Inr (Some f)
      else cbind (get_node f nodeid) (\<lambda>a. cbind (deref f a) (\<lambda>n.
        if n_nlookup n = nlookup \<and> n_treelock n \<noteq> 0 then Inr None
        else if n_nlookup n < nlookup then Inl AssertFail
        else
          let left = n_nlookup n - nlookup;
              f1 = update a (\<lambda>n. n\<lparr>n_nlookup := left\<rparr>) f
          in if left = 0 then cbind (unref_node mem (fuel_of f1) f1 a) (\<lambda>f2. Inr (Some f2))
             else if lru_enabled f1 \<and> left = 1 then Inr (Some (set_forget_time a f1))
             else Inr (Some f1))))"

definition unlink_node :: "(nat \<Rightarrow> bool) \<Rightarrow> fuse \<Rightarrow> addr \<Rightarrow> cerror + fuse" where
  "unlink_node mem f a =
     cbind (deref f a) (\<lambda>n.
       if f_remember f \<noteq> 0
       then if n_nlookup n \<le> 1 then Inl AssertFail
            else let f1 = update a (\<lambda>n. n\<lparr>n_nlookup := n_nlookup n - 1\<rparr>) f
                 in unhash_name mem (fuel_of f1) f1 a
       else unhash_name mem (fuel_of f) f a)"

definition remove_node :: "(nat \<Rightarrow> bool) \<Rightarrow> fuse \<Rightarrow> fuse_ino_t \<Rightarrow> string \<Rightarrow> cerror + fuse" where
  "remove_node mem f dir name =
     (case find_name f dir name of None \<Rightarrow> Inr f | Some a \<Rightarrow> unlink_node mem f a)"

definition rename_node ::
    "(nat \<Rightarrow> bool) \<Rightarrow> fuse \<Rightarrow> fuse_ino_t \<Rightarrow> string \<Rightarrow> fuse_ino_t \<Rightarrow> string \<Rightarrow> bool \<Rightarrow> cerror + int \<times> fuse" where
  "rename_node mem f olddir oldname newdir newname hide =
     (case find_name f olddir oldname of
        None \<Rightarrow> Inr (0, f)
      | Some a \<Rightarrow>
          let newnode = find_name f newdir newname
          in if newnode \<noteq> None \<and> hide then Inr (- EBUSY, f)
             else cbind (case newnode of None \<Rightarrow> Inr f | Some b \<Rightarrow> unlink_node mem f b) (\<lambda>f1.
                  cbind (unhash_name mem (fuel_of f1) f1 a) (\<lambda>f2.
                  cbind (hash_name mem f2 a newdir newname) (\<lambda>(res, f3).
                    if res = -1 then Inr (- ENOMEM, f3)
                    else Inr (0, if hide then update a (\<lambda>n. n\<lparr>n_is_hidden := True\<rparr>) f3 else f3)))))"

definition exchange_node ::
    "(nat \<Rightarrow> bool) \<Rightarrow> fuse \<Rightarrow> fuse_ino_t \<Rightarrow> string \<Rightarrow> fuse_ino_t \<Rightarrow> string \<Rightarrow> cerror + int \<times> fuse" where
  "exchange_node mem f olddir oldname newdir newname =
     (let oldnode = find_name f olddir oldname; newnode = find_name f newdir newname;
          unhash = (\<lambda>x g. case x of None \<Rightarrow> Inr g | Some a \<Rightarrow> unhash_name mem (fuel_of g) g a);
          rehash = (\<lambda>x dir nm g. case x of None \<Rightarrow> Inr (0, g) | Some a \<Rightarrow> hash_name mem g a dir nm)
      in cbind (unhash oldnode f) (\<lambda>f1.
         cbind (unhash newnode f1) (\<lambda>f2.
         cbind (rehash oldnode newdir newname f2) (\<lambda>(r1, f3).
           if r1 = -1 then Inr (- ENOMEM, f3)
           else cbind (rehash newnode olddir oldname f3) (\<lambda>(r2, f4).
                  Inr (if r2 = -1 then - ENOMEM else 0, f4))))))"

end
