(* ===== verification/Fuse_Lib.thy ===== *)
theory Fuse_Lib
  imports Posix_Locks Node_Path
begin

unbundle bit_operations_syntax

text \<open>
  The request handlers of libfuse's high-level library (\<^verbatim>\<open>fuse-3.17.2/lib/fuse.c\<close>, \<^verbatim>\<open>fuse_lib_*\<close>): a request
  names a node, or a parent and a name; the handler computes the path and locks the way to the
  root, calls the file system through the dispatch of \<open>Fuse_Fs\<close>, updates the tree, releases the
  locks and answers.

  A handler whose path is locked waits in the queue: the outcome is then \<open>Wait\<close>, and \<open>resume\<close> continues
  with what the wake-up found. Everything a handler needs from outside is in \<open>lib_env\<close>: the allocator,
  the system calls of the buffer copy, the table of callbacks, the clock, whether the kernel
  has given up on the request when the answer is sent, and the address of a new directory handle. Thread interruption and debug output are
  left out.
\<close>

section \<open>State\<close>

text \<open>What a node remembers for \<^verbatim>\<open>auto_cache\<close>.\<close>

record node_cache =
  nc_valid :: bool
  nc_mtime :: timespec
  nc_size :: off_t
  nc_updated :: timespec

definition node_cache_zero :: node_cache where
  "node_cache_zero = \<lparr>nc_valid = False, nc_mtime = (0, 0), nc_size = 0, nc_updated = (0, 0)\<rparr>"

text \<open>An open directory: the entries collected from the file system, and the buffer for the kernel. The
  buffer is the list of the records packed into it, \<open>dh_len\<close> is their size in bytes and \<open>dh_size\<close> the size of
  the block.\<close>

record direntry =
  de_name :: string
  de_stat :: file_stat
  de_flags :: "32 word"

record fuse_entry_param =
  e_ino :: fuse_ino_t
  e_generation :: "64 word"
  e_attr :: file_stat
  e_attr_timeout :: nat
  e_entry_timeout :: nat

record packed =
  pk_entry :: "fuse_entry_param option"
  pk_ino :: "64 word"
  pk_off :: off_t
  pk_type :: "32 word"
  pk_name :: string

record fuse_dh =
  dh_contents :: "packed list"
  dh_first :: "direntry list"
  dh_len :: nat
  dh_size :: nat
  dh_needlen :: nat
  dh_filled :: bool
  dh_fh :: "64 word"
  dh_error :: int
  dh_nodeid :: fuse_ino_t

text \<open>The tree of nodes, the configuration, the counter for hidden names, the caches and byte-range locks
  by node address, the open directories by handle, forgets that wait for a lock, and the file system's own state.\<close>

record 's lib =
  l_f :: fuse
  l_conf :: fuse_config
  l_hidectr :: "32 word"
  l_cache :: "addr \<Rightarrow> node_cache"
  l_locks :: "addr \<Rightarrow> plock list"
  l_dirs :: "64 word \<rightharpoonup> fuse_dh"
  l_forgets :: "(fuse_ino_t \<times> 64 word) list"
  l_user :: 's

record ('d, 's) lib_env =
  le_mem :: "nat \<Rightarrow> bool"
  le_sys :: "'s sys"
  le_ops :: "('d, 's) fuse_operations"
  le_now :: timespec
  le_expired :: "timespec \<Rightarrow> timespec \<Rightarrow> bool"
  le_gone :: bool
  le_req :: nat
  le_handle :: "64 word"

definition entry_zero :: fuse_entry_param where
  "entry_zero = \<lparr>e_ino = 0, e_generation = 0, e_attr = file_stat_zero, e_attr_timeout = 0, e_entry_timeout = 0\<rparr>"

datatype reply =
    ReplyErr int
  | ReplyEntry fuse_entry_param
  | ReplyAttr file_stat nat
  | ReplyReadlink string
  | ReplyOpen fuse_file_info
  | ReplyCreate fuse_entry_param fuse_file_info
  | ReplyData fuse_bufvec
  | ReplyWrite int
  | ReplyStatfs statvfs
  | ReplyBuf carr
  | ReplyXattr int
  | ReplyLock flock
  | ReplyBmap "64 word"
  | ReplyIoctl int carr
  | ReplyPoll "32 word"
  | ReplyLseek int
  | ReplyDir "packed list"
  | ReplyNone

datatype outcome = Replied reply | Wait lock_queue_element

text \<open>Calls of the file system, and operations on the tree, lifted to the library's state.\<close>

definition user_call :: "('s \<Rightarrow> cerror + int \<times> 's) \<Rightarrow> 's lib \<Rightarrow> cerror + int \<times> 's lib" where
  "user_call g l = cbind (g (l_user l)) (\<lambda>(r, s). Inr (r, l\<lparr>l_user := s\<rparr>))"

definition user_fill :: "('s \<Rightarrow> cerror + int \<times> 'x \<times> 's) \<Rightarrow> 's lib \<Rightarrow> cerror + int \<times> 'x \<times> 's lib" where
  "user_fill g l = cbind (g (l_user l)) (\<lambda>(r, x, s). Inr (r, x, l\<lparr>l_user := s\<rparr>))"

definition on_tree :: "(fuse \<Rightarrow> cerror + fuse) \<Rightarrow> 's lib \<Rightarrow> cerror + 's lib" where
  "on_tree g l = cbind (g (l_f l)) (\<lambda>f. Inr (l\<lparr>l_f := f\<rparr>))"

definition on_tree_res :: "(fuse \<Rightarrow> cerror + int \<times> fuse) \<Rightarrow> 's lib \<Rightarrow> cerror + int \<times> 's lib" where
  "on_tree_res g l = cbind (g (l_f l)) (\<lambda>(r, f). Inr (r, l\<lparr>l_f := f\<rparr>))"

text \<open>A handler after the call that asked for its paths: it goes on with the answer, or waits. The
  list holds each path with the node locked for writing.\<close>

definition with_path ::
    "(fuse \<Rightarrow> cerror + path_reply \<times> fuse) \<Rightarrow>
       (int \<Rightarrow> (string \<times> addr option) list \<Rightarrow> 's lib \<Rightarrow> cerror + reply \<times> 's lib) \<Rightarrow> 's lib \<Rightarrow>
       cerror + outcome \<times> 's lib" where
  "with_path ask body l =
     cbind (ask (l_f l)) (\<lambda>(r, f1).
       case r of
         Waiting qe \<Rightarrow> Inr (Wait qe, l\<lparr>l_f := f1\<rparr>)
       | Answer err ps \<Rightarrow>
           cbind (body err ps (l\<lparr>l_f := f1\<rparr>)) (\<lambda>(rep, l1). Inr (Replied rep, l1)))"

definition resume ::
    "(int \<Rightarrow> (string \<times> addr option) list \<Rightarrow> 's lib \<Rightarrow> cerror + reply \<times> 's lib) \<Rightarrow> lock_queue_element \<Rightarrow>
       's lib \<Rightarrow> cerror + outcome \<times> 's lib" where
  "resume body qe l =
     (if \<not> q_done qe then Inr (Wait qe, l)
      else cbind (on_tree (\<lambda>f. dequeue_path f qe) l) (\<lambda>l1.
           cbind (body (q_err qe) (q_result qe) l1) (\<lambda>(rep, l2). Inr (Replied rep, l2))))"

definition path_in :: "(string \<times> addr option) list \<Rightarrow> string option" where
  "path_in ps = (case ps of [] \<Rightarrow> None | (p, w) # _ \<Rightarrow> Some p)"

definition wnode_in :: "(string \<times> addr option) list \<Rightarrow> addr option" where
  "wnode_in ps = (case ps of [] \<Rightarrow> None | (p, w) # _ \<Rightarrow> w)"

section \<open>Attributes and lookup\<close>

definition S_IFMT :: "32 word" where "S_IFMT = 0xF000"

definition S_ISDIR :: "32 word \<Rightarrow> bool" where "S_ISDIR m \<longleftrightarrow> m AND S_IFMT = S_IFDIR"
definition S_ISREG :: "32 word \<Rightarrow> bool" where "S_ISREG m \<longleftrightarrow> m AND S_IFMT = S_IFREG"

definition set_stat :: "fuse_config \<Rightarrow> fuse_ino_t \<Rightarrow> file_stat \<Rightarrow> file_stat" where
  "set_stat conf nodeid st =
     (let st1 = (if cf_use_ino conf then st else st\<lparr>st_ino := nodeid\<rparr>);
          st2 = (if cf_set_mode conf
                 then st1\<lparr>st_mode := (st_mode st1 AND S_IFMT) OR
                        (0x1FF AND NOT (if cf_dmask conf \<noteq> 0 \<and> S_ISDIR (st_mode st1) then cf_dmask conf
                                        else if cf_fmask conf \<noteq> 0 then cf_fmask conf else cf_umask conf))\<rparr>
                 else st1);
          st3 = (if cf_set_uid conf then st2\<lparr>st_uid := cf_uid conf\<rparr> else st2)
      in if cf_set_gid conf then st3\<lparr>st_gid := cf_gid conf\<rparr> else st3)"

definition mtime_eq :: "file_stat \<Rightarrow> timespec \<Rightarrow> bool" where
  "mtime_eq st ts \<longleftrightarrow> st_mtim st = ts"

definition update_stat :: "timespec \<Rightarrow> node_cache \<Rightarrow> file_stat \<Rightarrow> node_cache" where
  "update_stat now n st =
     \<lparr>nc_valid = nc_valid n \<and> mtime_eq st (nc_mtime n) \<and> st_size st = nc_size n,
      nc_mtime = st_mtim st, nc_size = st_size st, nc_updated = now\<rparr>"

definition do_lookup ::
    "(nat \<Rightarrow> bool) \<Rightarrow> timespec \<Rightarrow> 's lib \<Rightarrow> fuse_ino_t \<Rightarrow> string option \<Rightarrow> fuse_entry_param \<Rightarrow>
       cerror + int \<times> fuse_entry_param \<times> 's lib" where
  "do_lookup mem now l nodeid name e =
     cbind (find_node mem (l_f l) nodeid name) (\<lambda>(r, f1).
       let l1 = l\<lparr>l_f := f1\<rparr>
       in case r of
            None \<Rightarrow> Inr (- ENOMEM, e, l1)
          | Some a \<Rightarrow>
              cbind (deref f1 a) (\<lambda>n.
                let l2 = (if cf_auto_cache (l_conf l)
                          then l1\<lparr>l_cache := (l_cache l1)(a := update_stat now (l_cache l1 a) (e_attr e))\<rparr>
                          else l1)
                in Inr (0, e\<lparr>e_ino := n_nodeid n, e_generation := ucast (n_generation n),
                            e_entry_timeout := cf_entry_timeout (l_conf l), e_attr_timeout := cf_attr_timeout (l_conf l),
                            e_attr := set_stat (l_conf l) (n_nodeid n) (e_attr e)\<rparr>, l2)))"

definition lookup_path ::
    "('d, 's) lib_env \<Rightarrow> 's lib \<Rightarrow> fuse_ino_t \<Rightarrow> string option \<Rightarrow> string option \<Rightarrow> fuse_file_info option \<Rightarrow>
       cerror + int \<times> fuse_entry_param \<times> 's lib" where
  "lookup_path env l nodeid name path fi =
     cbind (user_fill (\<lambda>s. fuse_fs_getattr (le_ops env) s path (e_attr entry_zero) fi) l) (\<lambda>(res, attr, l1).
       let e = entry_zero\<lparr>e_attr := attr\<rparr>
       in if res = 0 then do_lookup (le_mem env) (le_now env) l1 nodeid name e else Inr (res, e, l1))"

section \<open>Forgetting and answering\<close>

text \<open>A forget that has to wait for a lock is kept for later.\<close>

definition do_forget :: "('d, 's) lib_env \<Rightarrow> 's lib \<Rightarrow> fuse_ino_t \<Rightarrow> 64 word \<Rightarrow> cerror + 's lib" where
  "do_forget env l ino nlookup =
     cbind (forget_node (le_mem env) (l_f l) ino nlookup) (\<lambda>r.
       case r of
         None \<Rightarrow> Inr (l\<lparr>l_forgets := l_forgets l @ [(ino, nlookup)]\<rparr>)
       | Some f1 \<Rightarrow> Inr (l\<lparr>l_f := f1\<rparr>))"

definition fuse_lib_forget ::
    "('d, 's) lib_env \<Rightarrow> 's lib \<Rightarrow> fuse_ino_t \<Rightarrow> 64 word \<Rightarrow> cerror + reply \<times> 's lib" where
  "fuse_lib_forget env l ino nlookup = cbind (do_forget env l ino nlookup) (\<lambda>l1. Inr (ReplyNone, l1))"

fun fuse_lib_forget_multi ::
    "('d, 's) lib_env \<Rightarrow> 's lib \<Rightarrow> (fuse_ino_t \<times> 64 word) list \<Rightarrow> cerror + reply \<times> 's lib" where
  "fuse_lib_forget_multi env l [] = Inr (ReplyNone, l)"
| "fuse_lib_forget_multi env l ((ino, nlookup) # fs) =
     cbind (do_forget env l ino nlookup) (\<lambda>l1. fuse_lib_forget_multi env l1 fs)"

definition reply_err :: "int \<Rightarrow> reply" where
  "reply_err err = ReplyErr (- err)"

text \<open>When the kernel no longer waits for the entry, the lookup it would have counted is undone.\<close>

definition reply_entry ::
    "('d, 's) lib_env \<Rightarrow> fuse_entry_param \<Rightarrow> int \<Rightarrow> 's lib \<Rightarrow> cerror + reply \<times> 's lib" where
  "reply_entry env e err l =
     (if err \<noteq> 0 then Inr (reply_err err, l)
      else if le_gone env \<and> e_ino e \<noteq> 0
      then cbind (do_forget env l (e_ino e) 1) (\<lambda>l1. Inr (ReplyEntry e, l1))
      else Inr (ReplyEntry e, l))"

section \<open>Lookup and attributes\<close>

definition lookup_body ::
    "('d, 's) lib_env \<Rightarrow> fuse_ino_t \<Rightarrow> string option \<Rightarrow> addr option \<Rightarrow> int \<Rightarrow> (string \<times> addr option) list \<Rightarrow>
       's lib \<Rightarrow> cerror + reply \<times> 's lib" where
  "lookup_body env parent name dot err ps l =
     cbind (if err \<noteq> 0 then Inr (err, entry_zero, l)
            else cbind (lookup_path env l parent name (path_in ps) None) (\<lambda>(err1, e, l1).
                 let negative = err1 = - ENOENT \<and> cf_negative_timeout (l_conf l1) \<noteq> 0;
                     e1 = (if negative then e\<lparr>e_ino := 0, e_entry_timeout := cf_negative_timeout (l_conf l1)\<rparr> else e)
                 in cbind (on_tree (\<lambda>f. free_path (le_mem env) f parent (path_in ps)) l1) (\<lambda>l2.
                    Inr (if negative then 0 else err1, e1, l2)))) (\<lambda>(err2, e, l2).
     cbind (case dot of
              None \<Rightarrow> Inr l2
            | Some a \<Rightarrow> on_tree (\<lambda>f. unref_node (le_mem env) (fuel_of f) f a) l2) (\<lambda>l3.
     reply_entry env e err2 l3))"

text \<open>The name \<^verbatim>\<open>.\<close> keeps the parent alive during the lookup, \<^verbatim>\<open>..\<close> starts from the parent's parent.\<close>

definition fuse_lib_lookup ::
    "('d, 's) lib_env \<Rightarrow> 's lib \<Rightarrow> fuse_ino_t \<Rightarrow> string \<Rightarrow> cerror + outcome \<times> 's lib" where
  "fuse_lib_lookup env l parent name =
     (let ask = (\<lambda>dir nm f. get_path_name (le_mem env) f (le_req env) dir nm)
      in if name = ''.''
         then (case find_id (l_f l) parent of
                 None \<Rightarrow> cbind (reply_entry env entry_zero (- ESTALE) l) (\<lambda>(r, l1). Inr (Replied r, l1))
               | Some a \<Rightarrow>
                   with_path (ask parent None) (lookup_body env parent None (Some a))
                     (l\<lparr>l_f := update a (\<lambda>n. n\<lparr>n_refctr := n_refctr n + 1\<rparr>) (l_f l)\<rparr>))
         else if name = ''..''
         then cbind (get_node (l_f l) parent) (\<lambda>a.
              cbind (deref (l_f l) a) (\<lambda>n.
                case n_parent n of
                  None \<Rightarrow> Inl NullDeref
                | Some p \<Rightarrow>
                    cbind (deref (l_f l) p) (\<lambda>pn.
                      with_path (ask (n_nodeid pn) None) (lookup_body env (n_nodeid pn) None None) l)))
         else with_path (ask parent (Some name)) (lookup_body env parent (Some name) None) l)"

text \<open>The path of an open file may be missing.\<close>

definition ask_path ::
    "('d, 's) lib_env \<Rightarrow> fuse_ino_t \<Rightarrow> bool \<Rightarrow> fuse \<Rightarrow> cerror + path_reply \<times> fuse" where
  "ask_path env ino nullok f =
     (if nullok then get_path_nullok (le_mem env) f (le_req env) ino else get_path (le_mem env) f (le_req env) ino)"

definition stale_ok :: "bool \<Rightarrow> int \<Rightarrow> int" where
  "stale_ok nullok err = (if nullok \<and> err = - ESTALE then 0 else err)"

definition getattr_body ::
    "('d, 's) lib_env \<Rightarrow> fuse_ino_t \<Rightarrow> fuse_file_info option \<Rightarrow> int \<Rightarrow> (string \<times> addr option) list \<Rightarrow>
       's lib \<Rightarrow> cerror + reply \<times> 's lib" where
  "getattr_body env ino fi err0 ps l =
     (let err = stale_ok (fi \<noteq> None) err0
      in cbind (if err \<noteq> 0 then Inr (err, file_stat_zero, l)
                else cbind (user_fill (\<lambda>s. fuse_fs_getattr (le_ops env) s (path_in ps) file_stat_zero fi) l)
                       (\<lambda>(err1, buf, l1).
                     cbind (on_tree (\<lambda>f. free_path (le_mem env) f ino (path_in ps)) l1) (\<lambda>l2.
                     Inr (err1, buf, l2)))) (\<lambda>(err1, buf, l1).
           if err1 \<noteq> 0 then Inr (reply_err err1, l1)
           else cbind (get_node (l_f l1) ino) (\<lambda>a.
                cbind (deref (l_f l1) a) (\<lambda>n.
                  let buf1 = (if n_is_hidden n \<and> 0 < st_nlink buf then buf\<lparr>st_nlink := st_nlink buf - 1\<rparr> else buf);
                      l2 = (if cf_auto_cache (l_conf l1)
                            then l1\<lparr>l_cache := (l_cache l1)(a := update_stat (le_now env) (l_cache l1 a) buf1)\<rparr>
                            else l1)
                  in Inr (ReplyAttr (set_stat (l_conf l2) ino buf1) (cf_attr_timeout (l_conf l2)), l2)))))"

definition fuse_lib_getattr ::
    "('d, 's) lib_env \<Rightarrow> 's lib \<Rightarrow> fuse_ino_t \<Rightarrow> fuse_file_info option \<Rightarrow> cerror + outcome \<times> 's lib" where
  "fuse_lib_getattr env l ino fi = with_path (ask_path env ino (fi \<noteq> None)) (getattr_body env ino fi) l"

definition FUSE_SET_ATTR_MODE :: "32 word" where "FUSE_SET_ATTR_MODE = 1"
definition FUSE_SET_ATTR_UID :: "32 word" where "FUSE_SET_ATTR_UID = 2"
definition FUSE_SET_ATTR_GID :: "32 word" where "FUSE_SET_ATTR_GID = 4"
definition FUSE_SET_ATTR_SIZE :: "32 word" where "FUSE_SET_ATTR_SIZE = 8"
definition FUSE_SET_ATTR_ATIME :: "32 word" where "FUSE_SET_ATTR_ATIME = 16"
definition FUSE_SET_ATTR_MTIME :: "32 word" where "FUSE_SET_ATTR_MTIME = 32"
definition FUSE_SET_ATTR_ATIME_NOW :: "32 word" where "FUSE_SET_ATTR_ATIME_NOW = 128"
definition FUSE_SET_ATTR_MTIME_NOW :: "32 word" where "FUSE_SET_ATTR_MTIME_NOW = 256"

definition UTIME_NOW :: "64 word" where "UTIME_NOW = 0x3fffffff"
definition UTIME_OMIT :: "64 word" where "UTIME_OMIT = 0x3ffffffe"

text \<open>One step of a sequence that stops at the first error.\<close>

definition and_then :: "int \<times> 's lib \<Rightarrow> bool \<Rightarrow> ('s \<Rightarrow> cerror + int \<times> 's) \<Rightarrow> cerror + int \<times> 's lib" where
  "and_then st cond g = (case st of (err, l) \<Rightarrow> if err = 0 \<and> cond then user_call g l else Inr (err, l))"

definition set_times :: "file_stat \<Rightarrow> 32 word \<Rightarrow> timespec \<times> timespec" where
  "set_times attr valid =
     (if valid AND FUSE_SET_ATTR_ATIME_NOW \<noteq> 0 then (0, UTIME_NOW)
      else if valid AND FUSE_SET_ATTR_ATIME \<noteq> 0 then st_atim attr else (0, UTIME_OMIT),
      if valid AND FUSE_SET_ATTR_MTIME_NOW \<noteq> 0 then (0, UTIME_NOW)
      else if valid AND FUSE_SET_ATTR_MTIME \<noteq> 0 then st_mtim attr else (0, UTIME_OMIT))"

text \<open>The changes asked for, one callback each, with \<^verbatim>\<open>utimensat\<close> available.\<close>

definition apply_attr ::
    "('d, 's) fuse_operations \<Rightarrow> string option \<Rightarrow> file_stat \<Rightarrow> 32 word \<Rightarrow> fuse_file_info option \<Rightarrow> 's lib \<Rightarrow>
       cerror + int \<times> 's lib" where
  "apply_attr ops path attr valid fi l =
     cbind (and_then (0, l) (valid AND FUSE_SET_ATTR_MODE \<noteq> 0)
              (\<lambda>s. fuse_fs_chmod ops s path (st_mode attr) fi)) (\<lambda>st1.
     cbind (and_then st1 (valid AND (FUSE_SET_ATTR_UID OR FUSE_SET_ATTR_GID) \<noteq> 0)
              (\<lambda>s. fuse_fs_chown ops s path
                 (if valid AND FUSE_SET_ATTR_UID \<noteq> 0 then st_uid attr else - 1)
                 (if valid AND FUSE_SET_ATTR_GID \<noteq> 0 then st_gid attr else - 1) fi)) (\<lambda>st2.
     cbind (and_then st2 (valid AND FUSE_SET_ATTR_SIZE \<noteq> 0)
              (\<lambda>s. fuse_fs_truncate ops s path (st_size attr) fi)) (\<lambda>st3.
     and_then st3 (valid AND (FUSE_SET_ATTR_ATIME OR FUSE_SET_ATTR_MTIME) \<noteq> 0)
       (\<lambda>s. fuse_fs_utimens ops s path (set_times attr valid) fi))))"

definition setattr_body ::
    "('d, 's) lib_env \<Rightarrow> fuse_ino_t \<Rightarrow> file_stat \<Rightarrow> 32 word \<Rightarrow> fuse_file_info option \<Rightarrow> int \<Rightarrow>
       (string \<times> addr option) list \<Rightarrow> 's lib \<Rightarrow> cerror + reply \<times> 's lib" where
  "setattr_body env ino attr valid fi err0 ps l =
     (let err = stale_ok (fi \<noteq> None) err0; path = path_in ps
      in cbind (if err \<noteq> 0 then Inr (err, file_stat_zero, l)
                else cbind (apply_attr (le_ops env) path attr valid fi l) (\<lambda>(err1, l1).
                     cbind (if err1 \<noteq> 0 then Inr (err1, file_stat_zero, l1)
                            else user_fill (\<lambda>s. fuse_fs_getattr (le_ops env) s path file_stat_zero fi) l1)
                       (\<lambda>(err2, buf, l2).
                     cbind (on_tree (\<lambda>f. free_path (le_mem env) f ino path) l2) (\<lambda>l3.
                     Inr (err2, buf, l3))))) (\<lambda>(err1, buf, l1).
           if err1 \<noteq> 0 then Inr (reply_err err1, l1)
           else cbind (if cf_auto_cache (l_conf l1)
                       then cbind (get_node (l_f l1) ino) (\<lambda>a.
                            Inr (l1\<lparr>l_cache := (l_cache l1)(a := update_stat (le_now env) (l_cache l1 a) buf)\<rparr>))
                       else Inr l1) (\<lambda>l2.
                Inr (ReplyAttr (set_stat (l_conf l2) ino buf) (cf_attr_timeout (l_conf l2)), l2))))"

definition fuse_lib_setattr ::
    "('d, 's) lib_env \<Rightarrow> 's lib \<Rightarrow> fuse_ino_t \<Rightarrow> file_stat \<Rightarrow> 32 word \<Rightarrow> fuse_file_info option \<Rightarrow>
       cerror + outcome \<times> 's lib" where
  "fuse_lib_setattr env l ino attr valid fi =
     with_path (ask_path env ino (fi \<noteq> None)) (setattr_body env ino attr valid fi) l"

section \<open>Handlers with one path\<close>

text \<open>The common shape: call the file system if there is a path, and release the path.\<close>

definition path_call ::
    "('d, 's) lib_env \<Rightarrow> fuse_ino_t \<Rightarrow> ('s \<Rightarrow> string option \<Rightarrow> cerror + int \<times> 's) \<Rightarrow> int \<Rightarrow>
       (string \<times> addr option) list \<Rightarrow> 's lib \<Rightarrow> cerror + int \<times> 's lib" where
  "path_call env ino g err ps l =
     (if err \<noteq> 0 then Inr (err, l)
      else cbind (user_call (\<lambda>s. g s (path_in ps)) l) (\<lambda>(err1, l1).
           cbind (on_tree (\<lambda>f. free_path (le_mem env) f ino (path_in ps)) l1) (\<lambda>l2. Inr (err1, l2))))"

definition access_body ::
    "('d, 's) lib_env \<Rightarrow> fuse_ino_t \<Rightarrow> int \<Rightarrow> int \<Rightarrow> (string \<times> addr option) list \<Rightarrow> 's lib \<Rightarrow> cerror + reply \<times> 's lib" where
  "access_body env ino amode err ps l =
     cbind (path_call env ino (\<lambda>s p. fuse_fs_access (le_ops env) s p amode) err ps l) (\<lambda>(err1, l1).
     Inr (reply_err err1, l1))"

definition fuse_lib_access :: "('d, 's) lib_env \<Rightarrow> 's lib \<Rightarrow> fuse_ino_t \<Rightarrow> int \<Rightarrow> cerror + outcome \<times> 's lib" where
  "fuse_lib_access env l ino amode = with_path (ask_path env ino False) (access_body env ino amode) l"

definition PATH_MAX :: nat where "PATH_MAX = 4096"

definition readlink_body ::
    "('d, 's) lib_env \<Rightarrow> fuse_ino_t \<Rightarrow> int \<Rightarrow> (string \<times> addr option) list \<Rightarrow> 's lib \<Rightarrow> cerror + reply \<times> 's lib" where
  "readlink_body env ino err ps l =
     (if err \<noteq> 0 then Inr (reply_err err, l)
      else cbind (user_fill (\<lambda>s. fuse_fs_readlink (le_ops env) s (path_in ps) (of_nat (PATH_MAX + 1))) l)
             (\<lambda>(err1, out, l1).
           cbind (on_tree (\<lambda>f. free_path (le_mem env) f ino (path_in ps)) l1) (\<lambda>l2.
             if err1 \<noteq> 0 then Inr (reply_err err1, l2)
             else cbind (memcpy_cells (replicate (PATH_MAX + 1) None) 0 out) (\<lambda>linkname.
                  cbind (write_cell linkname PATH_MAX NUL) (\<lambda>linkname1.
                  cbind (cstr linkname1) (\<lambda>target. Inr (ReplyReadlink target, l2)))))))"

definition fuse_lib_readlink :: "('d, 's) lib_env \<Rightarrow> 's lib \<Rightarrow> fuse_ino_t \<Rightarrow> cerror + outcome \<times> 's lib" where
  "fuse_lib_readlink env l ino = with_path (ask_path env ino False) (readlink_body env ino) l"

definition fsync_body ::
    "('d, 's) lib_env \<Rightarrow> fuse_ino_t \<Rightarrow> int \<Rightarrow> fuse_file_info \<Rightarrow> int \<Rightarrow> (string \<times> addr option) list \<Rightarrow> 's lib \<Rightarrow>
       cerror + reply \<times> 's lib" where
  "fsync_body env ino datasync fi err ps l =
     cbind (path_call env ino (\<lambda>s p. fuse_fs_fsync (le_ops env) s p datasync fi) (stale_ok True err) ps l)
       (\<lambda>(err1, l1). Inr (reply_err err1, l1))"

definition fuse_lib_fsync ::
    "('d, 's) lib_env \<Rightarrow> 's lib \<Rightarrow> fuse_ino_t \<Rightarrow> int \<Rightarrow> fuse_file_info \<Rightarrow> cerror + outcome \<times> 's lib" where
  "fuse_lib_fsync env l ino datasync fi = with_path (ask_path env ino True) (fsync_body env ino datasync fi) l"

section \<open>Handlers that add a name\<close>

text \<open>What the file system is asked to do, then the lookup of the new name. The entry is what the
  lookup filled in.\<close>

definition make_then_lookup ::
    "('d, 's) lib_env \<Rightarrow> fuse_ino_t \<Rightarrow> string \<Rightarrow> string option \<Rightarrow> ('s \<Rightarrow> string option \<Rightarrow> cerror + int \<times> 's) \<Rightarrow>
       's lib \<Rightarrow> cerror + int \<times> fuse_entry_param \<times> 's lib" where
  "make_then_lookup env parent name path g l =
     cbind (user_call (\<lambda>s. g s path) l) (\<lambda>(err, l1).
       if err \<noteq> 0 then Inr (err, entry_zero, l1) else lookup_path env l1 parent (Some name) path None)"

definition new_entry_body ::
    "('d, 's) lib_env \<Rightarrow> fuse_ino_t \<Rightarrow> (string option \<Rightarrow> 's lib \<Rightarrow> cerror + int \<times> fuse_entry_param \<times> 's lib) \<Rightarrow> int \<Rightarrow>
       (string \<times> addr option) list \<Rightarrow> 's lib \<Rightarrow> cerror + reply \<times> 's lib" where
  "new_entry_body env parent build err ps l =
     cbind (if err \<noteq> 0 then Inr (err, entry_zero, l)
            else cbind (build (path_in ps) l) (\<lambda>(err1, e, l1).
                 cbind (on_tree (\<lambda>f. free_path (le_mem env) f parent (path_in ps)) l1) (\<lambda>l2. Inr (err1, e, l2))))
       (\<lambda>(err1, e, l1). reply_entry env e err1 l1)"

definition ask_name ::
    "('d, 's) lib_env \<Rightarrow> fuse_ino_t \<Rightarrow> string \<Rightarrow> fuse \<Rightarrow> cerror + path_reply \<times> fuse" where
  "ask_name env parent name f = get_path_name (le_mem env) f (le_req env) parent (Some name)"

definition O_CREAT :: "32 word" where "O_CREAT = 64"
definition O_EXCL :: "32 word" where "O_EXCL = 128"
definition O_WRONLY :: "32 word" where "O_WRONLY = 1"

text \<open>A regular file is created and released at once; a file system without \<^verbatim>\<open>create\<close>, and every other
  kind of file, goes through \<^verbatim>\<open>mknod\<close>.\<close>

definition make_node ::
    "('d, 's) lib_env \<Rightarrow> fuse_ino_t \<Rightarrow> string \<Rightarrow> 32 word \<Rightarrow> 64 word \<Rightarrow> string option \<Rightarrow> 's lib \<Rightarrow>
       cerror + int \<times> fuse_entry_param \<times> 's lib" where
  "make_node env parent name mode rdev path l =
     cbind (if S_ISREG mode
            then cbind (user_fill (\<lambda>s. fuse_fs_create (le_ops env) s path mode
                          (file_info_zero\<lparr>fi_flags := O_CREAT OR O_EXCL OR O_WRONLY\<rparr>)) l) (\<lambda>(err, fi, l1).
                   if err \<noteq> 0 then Inr (err, entry_zero, l1)
                   else cbind (lookup_path env l1 parent (Some name) path (Some fi)) (\<lambda>(err1, e, l2).
                        cbind (user_call (\<lambda>s. fuse_fs_release (le_ops env) s path fi) l2) (\<lambda>(r, l3).
                        Inr (err1, e, l3))))
            else Inr (- ENOSYS, entry_zero, l)) (\<lambda>(err, e, l1).
       if err = - ENOSYS
       then make_then_lookup env parent name path (\<lambda>s p. fuse_fs_mknod (le_ops env) s p mode rdev) l1
       else Inr (err, e, l1))"

definition fuse_lib_mknod ::
    "('d, 's) lib_env \<Rightarrow> 's lib \<Rightarrow> fuse_ino_t \<Rightarrow> string \<Rightarrow> 32 word \<Rightarrow> 64 word \<Rightarrow> cerror + outcome \<times> 's lib" where
  "fuse_lib_mknod env l parent name mode rdev =
     with_path (ask_name env parent name) (new_entry_body env parent (make_node env parent name mode rdev)) l"

definition fuse_lib_mkdir ::
    "('d, 's) lib_env \<Rightarrow> 's lib \<Rightarrow> fuse_ino_t \<Rightarrow> string \<Rightarrow> 32 word \<Rightarrow> cerror + outcome \<times> 's lib" where
  "fuse_lib_mkdir env l parent name mode =
     with_path (ask_name env parent name)
       (new_entry_body env parent (\<lambda>path.
          make_then_lookup env parent name path (\<lambda>s p. fuse_fs_mkdir (le_ops env) s p mode))) l"

definition fuse_lib_symlink ::
    "('d, 's) lib_env \<Rightarrow> 's lib \<Rightarrow> string \<Rightarrow> fuse_ino_t \<Rightarrow> string \<Rightarrow> cerror + outcome \<times> 's lib" where
  "fuse_lib_symlink env l linkname parent name =
     with_path (ask_name env parent name)
       (new_entry_body env parent (\<lambda>path.
          make_then_lookup env parent name path (\<lambda>s p. fuse_fs_symlink (le_ops env) s linkname p))) l"

section \<open>Hiding and removing names\<close>

definition is_open :: "fuse \<Rightarrow> fuse_ino_t \<Rightarrow> string \<Rightarrow> bool" where
  "is_open f dir name =
     (case find_name f dir name of None \<Rightarrow> False | Some a \<Rightarrow> 0 < n_open_count (node_at f a))"

definition hex_digit :: "nat \<Rightarrow> char" where
  "hex_digit n = ''0123456789abcdef'' ! n"

text \<open>\<^verbatim>\<open>%08x\<close> of an \<^verbatim>\<open>unsigned int\<close>.\<close>

definition hex8 :: "32 word \<Rightarrow> string" where
  "hex8 w = map (\<lambda>i. hex_digit (unat (drop_bit (4 * i) w AND 15))) [7, 6, 5, 4, 3, 2, 1, 0]"

definition hidden_text :: "fuse_ino_t \<Rightarrow> 32 word \<Rightarrow> string" where
  "hidden_text nodeid ctr = ''.fuse_hidden'' @ hex8 (ucast nodeid) @ hex8 ctr"

text \<open>The next hidden name the directory does not have, and the counter with it. Each turn tries
  another name, so the number of names in the table bounds the turns.\<close>

fun next_hidden :: "nat \<Rightarrow> fuse \<Rightarrow> fuse_ino_t \<Rightarrow> fuse_ino_t \<Rightarrow> 32 word \<Rightarrow> cerror + string \<times> 32 word" where
  "next_hidden 0 f dir nodeid ctr = Inl Diverge"
| "next_hidden (Suc fuel) f dir nodeid ctr =
     (let name = hidden_text nodeid (ctr + 1)
      in if find_name f dir name \<noteq> None then next_hidden fuel f dir nodeid (ctr + 1) else Inr (name, ctr + 1))"

text \<open>The new name with its path, if the file system does not have it: at most ten tries.\<close>

fun hidden_name ::
    "('d, 's) lib_env \<Rightarrow> nat \<Rightarrow> fuse_ino_t \<Rightarrow> string \<Rightarrow> 's lib \<Rightarrow> cerror + (string \<times> string) option \<times> 's lib" where
  "hidden_name env 0 dir oldname l = Inr (None, l)"
| "hidden_name env (Suc failctr) dir oldname l =
     (case find_name (l_f l) dir oldname of
        None \<Rightarrow> Inr (None, l)
      | Some a \<Rightarrow>
          cbind (next_hidden (t_use (f_names (l_f l)) + 1) (l_f l) dir (ino_of (l_f l) a) (l_hidectr l)) (\<lambda>(newname, ctr).
          cbind (try_get_path (le_mem env) (l_f l) dir (Some newname) False False) (\<lambda>(res, r, f1).
            let l1 = l\<lparr>l_f := f1, l_hidectr := ctr\<rparr>
            in case r of
                 None \<Rightarrow> Inr (None, l1)
               | Some (newpath, w) \<Rightarrow>
                   cbind (user_fill (\<lambda>s. fuse_fs_getattr (le_ops env) s (Some newpath) file_stat_zero None) l1)
                     (\<lambda>(res1, buf, l2).
                        if res1 = - ENOENT then Inr (Some (newname, newpath), l2)
                        else if res1 = 0 then hidden_name env failctr dir oldname l2
                        else Inr (None, l2)))))"

definition hide_node ::
    "('d, 's) lib_env \<Rightarrow> string option \<Rightarrow> fuse_ino_t \<Rightarrow> string \<Rightarrow> 's lib \<Rightarrow> cerror + int \<times> 's lib" where
  "hide_node env oldpath dir oldname l =
     cbind (hidden_name env 10 dir oldname l) (\<lambda>(r, l1).
       case r of
         None \<Rightarrow> Inr (- EBUSY, l1)
       | Some (newname, newpath) \<Rightarrow>
           cbind (user_call (\<lambda>s. fuse_fs_rename (le_ops env) s oldpath (Some newpath) 0) l1) (\<lambda>(err, l2).
             if err \<noteq> 0 then Inr (err, l2)
             else on_tree_res (\<lambda>f. rename_node (le_mem env) f dir oldname dir newname True) l2))"

text \<open>Unlinking an open file hides it, unless it was closed in the meantime; its node is then found
  through the write-locked node.\<close>

definition unlink_hidden ::
    "('d, 's) lib_env \<Rightarrow> fuse_ino_t \<Rightarrow> addr option \<Rightarrow> 's lib \<Rightarrow> cerror + int \<times> 's lib" where
  "unlink_hidden env parent wnode l =
     (case wnode of
        None \<Rightarrow> Inl NullDeref
      | Some w \<Rightarrow>
          cbind (deref (l_f l) w) (\<lambda>n.
            case n_name n of
              None \<Rightarrow> Inl NullDeref
            | Some nm \<Rightarrow>
                if is_open (l_f l) parent nm then Inr (0, l)
                else cbind (try_get_path (le_mem env) (l_f l) (n_nodeid n) None False False) (\<lambda>(res, r, f1).
                       let l1 = l\<lparr>l_f := f1\<rparr>
                       in case r of
                            None \<Rightarrow> Inr (0, l1)
                          | Some (unlinkpath, x) \<Rightarrow>
                              cbind (user_call (\<lambda>s. fuse_fs_unlink (le_ops env) s (Some unlinkpath)) l1) (\<lambda>(err, l2).
                                if err \<noteq> 0 then Inr (err, l2)
                                else cbind (on_tree (\<lambda>f. remove_node (le_mem env) f parent nm) l2) (\<lambda>l3. Inr (0, l3))))))"

definition unlink_body ::
    "('d, 's) lib_env \<Rightarrow> fuse_ino_t \<Rightarrow> string \<Rightarrow> int \<Rightarrow> (string \<times> addr option) list \<Rightarrow> 's lib \<Rightarrow>
       cerror + reply \<times> 's lib" where
  "unlink_body env parent name err ps l =
     (if err \<noteq> 0 then Inr (reply_err err, l)
      else cbind (if \<not> cf_hard_remove (l_conf l) \<and> is_open (l_f l) parent name
                  then cbind (hide_node env (path_in ps) parent name l) (\<lambda>(err1, l1).
                         if err1 \<noteq> 0 then Inr (err1, l1) else unlink_hidden env parent (wnode_in ps) l1)
                  else cbind (user_call (\<lambda>s. fuse_fs_unlink (le_ops env) s (path_in ps)) l) (\<lambda>(err1, l1).
                         if err1 \<noteq> 0 then Inr (err1, l1)
                         else cbind (on_tree (\<lambda>f. remove_node (le_mem env) f parent name) l1) (\<lambda>l2. Inr (0, l2))))
             (\<lambda>(err1, l1).
           cbind (on_tree (\<lambda>f. free_path_wrlock (le_mem env) f parent (wnode_in ps)) l1) (\<lambda>l2.
           Inr (reply_err err1, l2))))"

definition ask_wrlock ::
    "('d, 's) lib_env \<Rightarrow> fuse_ino_t \<Rightarrow> string \<Rightarrow> fuse \<Rightarrow> cerror + path_reply \<times> fuse" where
  "ask_wrlock env parent name f = get_path_wrlock (le_mem env) f (le_req env) parent name"

definition fuse_lib_unlink ::
    "('d, 's) lib_env \<Rightarrow> 's lib \<Rightarrow> fuse_ino_t \<Rightarrow> string \<Rightarrow> cerror + outcome \<times> 's lib" where
  "fuse_lib_unlink env l parent name = with_path (ask_wrlock env parent name) (unlink_body env parent name) l"

definition rmdir_request_body ::
    "('d, 's) lib_env \<Rightarrow> fuse_ino_t \<Rightarrow> string \<Rightarrow> int \<Rightarrow> (string \<times> addr option) list \<Rightarrow> 's lib \<Rightarrow>
       cerror + reply \<times> 's lib" where
  "rmdir_request_body env parent name err ps l =
     (if err \<noteq> 0 then Inr (reply_err err, l)
      else cbind (user_call (\<lambda>s. fuse_fs_rmdir (le_ops env) s (path_in ps)) l) (\<lambda>(err1, l1).
           cbind (if err1 \<noteq> 0 then Inr l1 else on_tree (\<lambda>f. remove_node (le_mem env) f parent name) l1) (\<lambda>l2.
           cbind (on_tree (\<lambda>f. free_path_wrlock (le_mem env) f parent (wnode_in ps)) l2) (\<lambda>l3.
           Inr (reply_err err1, l3)))))"

definition fuse_lib_rmdir ::
    "('d, 's) lib_env \<Rightarrow> 's lib \<Rightarrow> fuse_ino_t \<Rightarrow> string \<Rightarrow> cerror + outcome \<times> 's lib" where
  "fuse_lib_rmdir env l parent name = with_path (ask_wrlock env parent name) (rmdir_request_body env parent name) l"

section \<open>Handlers with two paths\<close>

definition RENAME_EXCHANGE :: "32 word" where "RENAME_EXCHANGE = 2"

definition path2_in :: "(string \<times> addr option) list \<Rightarrow> string option \<times> addr option" where
  "path2_in ps = (case ps of _ # (p, w) # _ \<Rightarrow> (Some p, w) | _ \<Rightarrow> (None, None))"

definition rename_body ::
    "('d, 's) lib_env \<Rightarrow> fuse_ino_t \<Rightarrow> string \<Rightarrow> fuse_ino_t \<Rightarrow> string \<Rightarrow> 32 word \<Rightarrow> int \<Rightarrow>
       (string \<times> addr option) list \<Rightarrow> 's lib \<Rightarrow> cerror + reply \<times> 's lib" where
  "rename_body env olddir oldname newdir newname flags err ps l =
     (if err \<noteq> 0 then Inr (reply_err err, l)
      else let oldpath = path_in ps; newpath = fst (path2_in ps); exchange = flags AND RENAME_EXCHANGE \<noteq> 0
           in cbind (if \<not> cf_hard_remove (l_conf l) \<and> \<not> exchange \<and> is_open (l_f l) newdir newname
                     then hide_node env newpath newdir newname l else Inr (0, l)) (\<lambda>(err1, l1).
              cbind (if err1 \<noteq> 0 then Inr (err1, l1)
                     else user_call (\<lambda>s. fuse_fs_rename (le_ops env) s oldpath newpath flags) l1) (\<lambda>(err2, l2).
              cbind (if err2 \<noteq> 0 then Inr (err2, l2)
                     else if exchange
                     then on_tree_res (\<lambda>f. exchange_node (le_mem env) f olddir oldname newdir newname) l2
                     else on_tree_res (\<lambda>f. rename_node (le_mem env) f olddir oldname newdir newname False) l2)
                (\<lambda>(err3, l3).
              cbind (on_tree (\<lambda>f. free_path2 (le_mem env) f olddir newdir (wnode_in ps) (snd (path2_in ps))) l3)
                (\<lambda>l4. Inr (reply_err err3, l4))))))"

definition fuse_lib_rename ::
    "('d, 's) lib_env \<Rightarrow> 's lib \<Rightarrow> fuse_ino_t \<Rightarrow> string \<Rightarrow> fuse_ino_t \<Rightarrow> string \<Rightarrow> 32 word \<Rightarrow>
       cerror + outcome \<times> 's lib" where
  "fuse_lib_rename env l olddir oldname newdir newname flags =
     with_path (\<lambda>f. get_path2 (le_mem env) f (le_req env) olddir (Some oldname) newdir (Some newname) True True)
       (rename_body env olddir oldname newdir newname flags) l"

definition link_body ::
    "('d, 's) lib_env \<Rightarrow> fuse_ino_t \<Rightarrow> fuse_ino_t \<Rightarrow> string \<Rightarrow> int \<Rightarrow> (string \<times> addr option) list \<Rightarrow> 's lib \<Rightarrow>
       cerror + reply \<times> 's lib" where
  "link_body env ino newparent newname err ps l =
     cbind (if err \<noteq> 0 then Inr (err, entry_zero, l)
            else cbind (make_then_lookup env newparent newname (fst (path2_in ps))
                          (\<lambda>s newpath. fuse_fs_link (le_ops env) s (path_in ps) newpath) l) (\<lambda>(err1, e, l1).
                 cbind (on_tree (\<lambda>f. free_path2 (le_mem env) f ino newparent None None) l1) (\<lambda>l2.
                 Inr (err1, e, l2)))) (\<lambda>(err1, e, l1). reply_entry env e err1 l1)"

definition fuse_lib_link ::
    "('d, 's) lib_env \<Rightarrow> 's lib \<Rightarrow> fuse_ino_t \<Rightarrow> fuse_ino_t \<Rightarrow> string \<Rightarrow> cerror + outcome \<times> 's lib" where
  "fuse_lib_link env l ino newparent newname =
     with_path (\<lambda>f. get_path2 (le_mem env) f (le_req env) ino None newparent (Some newname) False False)
       (link_body env ino newparent newname) l"

end
