(* ===== verification/Fuse_Lib_Io.thy ===== *)
theory Fuse_Lib_Io
  imports Fuse_Lib
begin

unbundle bit_operations_syntax

text \<open>
  Requests on open files (\<^verbatim>\<open>fuse-3.17.2/lib/fuse.c\<close>): start and end of a session, creating, opening
  and releasing, reading and writing, and the calls passed on to the file system without any
  work of the library's own.
\<close>

section \<open>Start and end\<close>

text \<open>The result is the connection as the file system asks for it. Installing the signal handler for
  interrupts is left out.\<close>

definition fuse_lib_init ::
    "('d, 's) lib_env \<Rightarrow> 's lib \<Rightarrow> fuse_conn_info \<Rightarrow> cerror + fuse_conn_info \<times> 's lib" where
  "fuse_lib_init env l conn =
     (let conn1 = snd (fuse_set_feature_flag conn FUSE_CAP_EXPORT_SUPPORT)
      in cbind (fuse_fs_init (le_ops env) (l_user l) conn1 (l_conf l)) (\<lambda>(conn2, cfg, s).
         let f1 = (l_f l)\<lparr>f_remember := cf_remember cfg, f_nullpath_ok := cf_nullpath_ok cfg\<rparr>
         in Inr (if cf_intr cfg then conn2 else conn2\<lparr>no_interrupt := True\<rparr>,
                 l\<lparr>l_f := f1, l_conf := cfg, l_user := s\<rparr>)))"

definition fuse_lib_destroy :: "('d, 's) lib_env \<Rightarrow> 's lib \<Rightarrow> cerror + 's lib" where
  "fuse_lib_destroy env l = cbind (fuse_fs_destroy (le_ops env) (l_user l)) (\<lambda>s. Inr (l\<lparr>l_user := s\<rparr>))"

section \<open>Opening and releasing\<close>

definition open_count :: "(int \<Rightarrow> int) \<Rightarrow> fuse_ino_t \<Rightarrow> fuse \<Rightarrow> cerror + fuse" where
  "open_count g ino f =
     cbind (get_node f ino) (\<lambda>a. Inr (update a (\<lambda>n. n\<lparr>n_open_count := g (n_open_count n)\<rparr>) f))"

text \<open>The last release of a hidden file unlinks it. With \<^verbatim>\<open>nullpath_ok\<close> there is no path at hand and it is
  computed for the unlink; should that path be locked, the model waits no further and the
  result is \<open>Diverge\<close>.\<close>

definition fuse_do_release ::
    "('d, 's) lib_env \<Rightarrow> fuse_ino_t \<Rightarrow> string option \<Rightarrow> fuse_file_info \<Rightarrow> 's lib \<Rightarrow> cerror + 's lib" where
  "fuse_do_release env ino path fi l =
     cbind (user_call (\<lambda>s. fuse_fs_release (le_ops env) s path fi) l) (\<lambda>(r, l1).
     cbind (get_node (l_f l1) ino) (\<lambda>a.
     cbind (deref (l_f l1) a) (\<lambda>n.
       if n_open_count n \<le> 0 then Inl AssertFail
       else
         let last = n_is_hidden n \<and> n_open_count n - 1 = 0;
             l2 = l1\<lparr>l_f := update a (\<lambda>n. n\<lparr>n_open_count := n_open_count n - 1,
                                           n_is_hidden := n_is_hidden n \<and> \<not> last\<rparr>) (l_f l1)\<rparr>
         in if \<not> last then Inr l2
            else case path of
                   Some p \<Rightarrow> cbind (user_call (\<lambda>s. fuse_fs_unlink (le_ops env) s (Some p)) l2) (\<lambda>(r, l3). Inr l3)
                 | None \<Rightarrow>
                     if \<not> f_nullpath_ok (l_f l2) then Inr l2
                     else cbind (get_path (le_mem env) (l_f l2) (le_req env) ino) (\<lambda>(ans, f3).
                            let l3 = l2\<lparr>l_f := f3\<rparr>
                            in case ans of
                                 Waiting qe \<Rightarrow> Inl Diverge
                               | Answer err ps \<Rightarrow>
                                   cbind (if err = 0
                                          then cbind (user_call (\<lambda>s. fuse_fs_unlink (le_ops env) s (path_in ps)) l3)
                                                 (\<lambda>(r, l4). Inr l4)
                                          else Inr l3)
                                     (\<lambda>l4. on_tree (\<lambda>f. free_path (le_mem env) f ino (path_in ps)) l4)))))"

definition create_flags :: "fuse_config \<Rightarrow> fuse_file_info \<Rightarrow> fuse_file_info" where
  "create_flags conf fi =
     (let fi1 = (if cf_direct_io conf then fi\<lparr>fi_direct_io := True\<rparr> else fi);
          fi2 = (if cf_kernel_cache conf \<noteq> 0 then fi1\<lparr>fi_keep_cache := True\<rparr> else fi1)
      in if fi_direct_io fi2 \<and> cf_parallel_direct_writes conf then fi2\<lparr>fi_parallel_direct_writes := True\<rparr> else fi2)"

text \<open>The file system creates the file and is asked for its attributes; anything but a regular file
  is refused.\<close>

definition create_file ::
    "('d, 's) lib_env \<Rightarrow> fuse_ino_t \<Rightarrow> string \<Rightarrow> 32 word \<Rightarrow> fuse_file_info \<Rightarrow> string option \<Rightarrow> 's lib \<Rightarrow>
       cerror + int \<times> fuse_entry_param \<times> fuse_file_info \<times> 's lib" where
  "create_file env parent name mode fi path l =
     cbind (user_fill (\<lambda>s. fuse_fs_create (le_ops env) s path mode fi) l) (\<lambda>(err, fi1, l1).
       if err \<noteq> 0 then Inr (err, entry_zero, fi1, l1)
       else cbind (lookup_path env l1 parent (Some name) path (Some fi1)) (\<lambda>(err1, e, l2).
         if err1 \<noteq> 0
         then cbind (user_call (\<lambda>s. fuse_fs_release (le_ops env) s path fi1) l2) (\<lambda>(r, l3). Inr (err1, e, fi1, l3))
         else if \<not> S_ISREG (st_mode (e_attr e))
         then cbind (user_call (\<lambda>s. fuse_fs_release (le_ops env) s path fi1) l2) (\<lambda>(r, l3).
              cbind (do_forget env l3 (e_ino e) 1) (\<lambda>l4. Inr (- EIO, e, fi1, l4)))
         else Inr (0, e, create_flags (l_conf l2) fi1, l2)))"

definition create_body ::
    "('d, 's) lib_env \<Rightarrow> fuse_ino_t \<Rightarrow> string \<Rightarrow> 32 word \<Rightarrow> fuse_file_info \<Rightarrow> int \<Rightarrow> (string \<times> addr option) list \<Rightarrow>
       's lib \<Rightarrow> cerror + reply \<times> 's lib" where
  "create_body env parent name mode fi err ps l =
     cbind (if err \<noteq> 0 then Inr (err, entry_zero, fi, l) else create_file env parent name mode fi (path_in ps) l)
       (\<lambda>(err1, e, fi1, l1).
     cbind (if err1 \<noteq> 0 then Inr (reply_err err1, l1)
            else cbind (on_tree (open_count (\<lambda>n. n + 1) (e_ino e)) l1) (\<lambda>l2.
                 cbind (if le_gone env
                        then cbind (fuse_do_release env (e_ino e) (path_in ps) fi1 l2) (\<lambda>l3. do_forget env l3 (e_ino e) 1)
                        else Inr l2) (\<lambda>l3. Inr (ReplyCreate e fi1, l3)))) (\<lambda>(rep, l2).
     cbind (on_tree (\<lambda>f. free_path (le_mem env) f parent (path_in ps)) l2) (\<lambda>l3. Inr (rep, l3))))"

definition fuse_lib_create ::
    "('d, 's) lib_env \<Rightarrow> 's lib \<Rightarrow> fuse_ino_t \<Rightarrow> string \<Rightarrow> 32 word \<Rightarrow> fuse_file_info \<Rightarrow> cerror + outcome \<times> 's lib" where
  "fuse_lib_create env l parent name mode fi =
     with_path (ask_name env parent name) (create_body env parent name mode fi) l"

text \<open>Cached data stay valid when the attributes, asked for again if they are old, have not changed.\<close>

definition open_auto_cache ::
    "('d, 's) lib_env \<Rightarrow> fuse_ino_t \<Rightarrow> string option \<Rightarrow> fuse_file_info \<Rightarrow> 's lib \<Rightarrow> cerror + fuse_file_info \<times> 's lib" where
  "open_auto_cache env ino path fi l =
     cbind (get_node (l_f l) ino) (\<lambda>a.
     cbind (if nc_valid (l_cache l a) \<and> le_expired env (le_now env) (nc_updated (l_cache l a))
            then cbind (user_fill (\<lambda>s. fuse_fs_getattr (le_ops env) s path file_stat_zero (Some fi)) l) (\<lambda>(err, st, l1).
                   Inr (l1\<lparr>l_cache := (l_cache l1)(a := if err = 0 then update_stat (le_now env) (l_cache l1 a) st
                                                          else (l_cache l1 a)\<lparr>nc_valid := False\<rparr>)\<rparr>))
            else Inr l) (\<lambda>l1.
     Inr (if nc_valid (l_cache l1 a) then fi\<lparr>fi_keep_cache := True\<rparr> else fi,
          l1\<lparr>l_cache := (l_cache l1)(a := (l_cache l1 a)\<lparr>nc_valid := True\<rparr>)\<rparr>)))"

definition O_ACCMODE :: "32 word" where "O_ACCMODE = 3"

definition open_file ::
    "('d, 's) lib_env \<Rightarrow> fuse_ino_t \<Rightarrow> fuse_file_info \<Rightarrow> string option \<Rightarrow> 's lib \<Rightarrow>
       cerror + int \<times> fuse_file_info \<times> 's lib" where
  "open_file env ino fi path l =
     cbind (user_fill (\<lambda>s. fuse_fs_open (le_ops env) s path fi) l) (\<lambda>(err, fi1, l1).
       if err \<noteq> 0 then Inr (err, fi1, l1)
       else
         let conf = l_conf l1;
             fi2 = (if cf_direct_io conf then fi1\<lparr>fi_direct_io := True\<rparr> else fi1);
             fi3 = (if cf_kernel_cache conf \<noteq> 0 then fi2\<lparr>fi_keep_cache := True\<rparr> else fi2)
         in cbind (if cf_auto_cache conf then open_auto_cache env ino path fi3 l1 else Inr (fi3, l1)) (\<lambda>(fi4, l2).
              let fi5 = (if cf_no_rofd_flush conf \<and> fi_flags fi4 AND O_ACCMODE = 0 then fi4\<lparr>fi_noflush := True\<rparr> else fi4)
              in Inr (0, if fi_direct_io fi5 \<and> cf_parallel_direct_writes conf
                         then fi5\<lparr>fi_parallel_direct_writes := True\<rparr> else fi5, l2)))"

definition open_body ::
    "('d, 's) lib_env \<Rightarrow> fuse_ino_t \<Rightarrow> fuse_file_info \<Rightarrow> int \<Rightarrow> (string \<times> addr option) list \<Rightarrow> 's lib \<Rightarrow>
       cerror + reply \<times> 's lib" where
  "open_body env ino fi err ps l =
     cbind (if err \<noteq> 0 then Inr (err, fi, l) else open_file env ino fi (path_in ps) l) (\<lambda>(err1, fi1, l1).
     cbind (if err1 \<noteq> 0 then Inr (reply_err err1, l1)
            else cbind (on_tree (open_count (\<lambda>n. n + 1) ino) l1) (\<lambda>l2.
                 cbind (if le_gone env then fuse_do_release env ino (path_in ps) fi1 l2 else Inr l2) (\<lambda>l3.
                 Inr (ReplyOpen fi1, l3)))) (\<lambda>(rep, l2).
     cbind (on_tree (\<lambda>f. free_path (le_mem env) f ino (path_in ps)) l2) (\<lambda>l3. Inr (rep, l3))))"

definition fuse_lib_open ::
    "('d, 's) lib_env \<Rightarrow> 's lib \<Rightarrow> fuse_ino_t \<Rightarrow> fuse_file_info \<Rightarrow> cerror + outcome \<times> 's lib" where
  "fuse_lib_open env l ino fi = with_path (ask_path env ino False) (open_body env ino fi) l"

section \<open>Reading and writing\<close>

definition read_body ::
    "('d, 's) lib_env \<Rightarrow> fuse_ino_t \<Rightarrow> size_t \<Rightarrow> off_t \<Rightarrow> fuse_file_info \<Rightarrow> int \<Rightarrow> (string \<times> addr option) list \<Rightarrow>
       's lib \<Rightarrow> cerror + reply \<times> 's lib" where
  "read_body env ino sz off fi err0 ps l =
     (let err = stale_ok True err0
      in if err \<noteq> 0 then Inr (reply_err err, l)
         else cbind (user_fill (\<lambda>s. fuse_fs_read_buf (le_mem env) (le_ops env) s (path_in ps) None sz off fi) l)
                (\<lambda>(res, buf, l1).
              cbind (on_tree (\<lambda>f. free_path (le_mem env) f ino (path_in ps)) l1) (\<lambda>l2.
                if res \<noteq> 0 then Inr (reply_err res, l2)
                else case buf of None \<Rightarrow> Inl NullDeref | Some v \<Rightarrow> Inr (ReplyData v, l2))))"

definition fuse_lib_read ::
    "('d, 's) lib_env \<Rightarrow> 's lib \<Rightarrow> fuse_ino_t \<Rightarrow> size_t \<Rightarrow> off_t \<Rightarrow> fuse_file_info \<Rightarrow> cerror + outcome \<times> 's lib" where
  "fuse_lib_read env l ino sz off fi = with_path (ask_path env ino True) (read_body env ino sz off fi) l"

definition write_body ::
    "('d, 's) lib_env \<Rightarrow> fuse_ino_t \<Rightarrow> fuse_bufvec \<Rightarrow> off_t \<Rightarrow> fuse_file_info \<Rightarrow> int \<Rightarrow> (string \<times> addr option) list \<Rightarrow>
       's lib \<Rightarrow> cerror + reply \<times> 's lib" where
  "write_body env ino buf off fi err ps l =
     cbind (path_call env ino (\<lambda>s p. fuse_fs_write_buf (le_mem env) (le_sys env) (le_ops env) s p buf off fi)
              (stale_ok True err) ps l) (\<lambda>(res, l1).
     Inr (if 0 \<le> res then ReplyWrite res else reply_err res, l1))"

definition fuse_lib_write_buf ::
    "('d, 's) lib_env \<Rightarrow> 's lib \<Rightarrow> fuse_ino_t \<Rightarrow> fuse_bufvec \<Rightarrow> off_t \<Rightarrow> fuse_file_info \<Rightarrow> cerror + outcome \<times> 's lib" where
  "fuse_lib_write_buf env l ino buf off fi = with_path (ask_path env ino True) (write_body env ino buf off fi) l"

end
