(* ===== verification/Fuse_Lib_Misc.thy ===== *)
theory Fuse_Lib_Misc
  imports Fuse_Lib_Io
begin

unbundle bit_operations_syntax

text \<open>
  Flush, release and byte-range locks, and the handlers that pass a request on to the file system
  with nothing but the path to compute (\<^verbatim>\<open>fuse-3.17.2/lib/fuse.c\<close>).
\<close>

section \<open>Flush, release and locks\<close>

definition F_GETLK :: int where "F_GETLK = 5"
definition F_SETLK :: int where "F_SETLK = 6"
definition F_SETLKW :: int where "F_SETLKW = 7"

definition node_lock :: "('d, 's) lib_env \<Rightarrow> fuse_ino_t \<Rightarrow> plock \<Rightarrow> 's lib \<Rightarrow> cerror + 's lib" where
  "node_lock env ino lock l =
     cbind (get_node (l_f l) ino) (\<lambda>a.
     cbind (locks_insert (le_mem env) (l_locks l a) lock) (\<lambda>(err, ls).
     Inr (l\<lparr>l_locks := (l_locks l)(a := ls)\<rparr>)))"

text \<open>Closing a file drops the locks of its owner, when the file system keeps locks at all.\<close>

definition fuse_flush_common ::
    "('d, 's) lib_env \<Rightarrow> fuse_ino_t \<Rightarrow> string option \<Rightarrow> fuse_file_info \<Rightarrow> 's lib \<Rightarrow> cerror + int \<times> 's lib" where
  "fuse_flush_common env ino path fi l =
     cbind (user_call (\<lambda>s. fuse_fs_flush (le_ops env) s path fi) l) (\<lambda>(err, l1).
     cbind (user_fill (\<lambda>s. fuse_fs_lock (le_ops env) s path fi F_SETLK
              \<lparr>l_type = F_UNLCK, l_whence = 0, l_start = 0, l_len = 0, l_pid = 0\<rparr>) l1) (\<lambda>(errlock, lock, l2).
       if errlock = - ENOSYS then Inr (err, l2)
       else cbind (node_lock env ino ((flock_to_lock lock)\<lparr>k_owner := fi_lock_owner fi\<rparr>) l2) (\<lambda>l3.
            Inr (if err = - ENOSYS then 0 else err, l3))))"

text \<open>Release and flush ignore the error of the path; without a path the file system gets none.\<close>

definition release_body ::
    "('d, 's) lib_env \<Rightarrow> fuse_ino_t \<Rightarrow> fuse_file_info \<Rightarrow> int \<Rightarrow> (string \<times> addr option) list \<Rightarrow> 's lib \<Rightarrow>
       cerror + reply \<times> 's lib" where
  "release_body env ino fi err0 ps l =
     cbind (if fi_flush fi
            then cbind (fuse_flush_common env ino (path_in ps) fi l) (\<lambda>(err, l1).
                 Inr (if err = - ENOSYS then 0 else err, l1))
            else Inr (0, l)) (\<lambda>(err, l1).
     cbind (fuse_do_release env ino (path_in ps) fi l1) (\<lambda>l2.
     cbind (on_tree (\<lambda>f. free_path (le_mem env) f ino (path_in ps)) l2) (\<lambda>l3. Inr (reply_err err, l3))))"

definition fuse_lib_release ::
    "('d, 's) lib_env \<Rightarrow> 's lib \<Rightarrow> fuse_ino_t \<Rightarrow> fuse_file_info \<Rightarrow> cerror + outcome \<times> 's lib" where
  "fuse_lib_release env l ino fi = with_path (ask_path env ino True) (release_body env ino fi) l"

definition flush_body ::
    "('d, 's) lib_env \<Rightarrow> fuse_ino_t \<Rightarrow> fuse_file_info \<Rightarrow> int \<Rightarrow> (string \<times> addr option) list \<Rightarrow> 's lib \<Rightarrow>
       cerror + reply \<times> 's lib" where
  "flush_body env ino fi err0 ps l =
     cbind (fuse_flush_common env ino (path_in ps) fi l) (\<lambda>(err, l1).
     cbind (on_tree (\<lambda>f. free_path (le_mem env) f ino (path_in ps)) l1) (\<lambda>l2. Inr (reply_err err, l2)))"

definition fuse_lib_flush ::
    "('d, 's) lib_env \<Rightarrow> 's lib \<Rightarrow> fuse_ino_t \<Rightarrow> fuse_file_info \<Rightarrow> cerror + outcome \<times> 's lib" where
  "fuse_lib_flush env l ino fi = with_path (ask_path env ino True) (flush_body env ino fi) l"

text \<open>The common shape of a call that fills in an object.\<close>

definition path_fill ::
    "('d, 's) lib_env \<Rightarrow> fuse_ino_t \<Rightarrow> ('s \<Rightarrow> string option \<Rightarrow> cerror + int \<times> 'x \<times> 's) \<Rightarrow> 'x \<Rightarrow> int \<Rightarrow>
       (string \<times> addr option) list \<Rightarrow> 's lib \<Rightarrow> cerror + int \<times> 'x \<times> 's lib" where
  "path_fill env ino g x err ps l =
     (if err \<noteq> 0 then Inr (err, x, l)
      else cbind (user_fill (\<lambda>s. g s (path_in ps)) l) (\<lambda>(err1, y, l1).
           cbind (on_tree (\<lambda>f. free_path (le_mem env) f ino (path_in ps)) l1) (\<lambda>l2. Inr (err1, y, l2))))"

definition fuse_lock_common ::
    "('d, 's) lib_env \<Rightarrow> fuse_ino_t \<Rightarrow> fuse_file_info \<Rightarrow> flock \<Rightarrow> int \<Rightarrow> int \<Rightarrow> (string \<times> addr option) list \<Rightarrow> 's lib \<Rightarrow>
       cerror + int \<times> flock \<times> 's lib" where
  "fuse_lock_common env ino fi lock cmd err ps l =
     path_fill env ino (\<lambda>s p. fuse_fs_lock (le_ops env) s p fi cmd lock) lock (stale_ok True err) ps l"

definition getlk_body ::
    "('d, 's) lib_env \<Rightarrow> fuse_ino_t \<Rightarrow> fuse_file_info \<Rightarrow> flock \<Rightarrow> int \<Rightarrow> (string \<times> addr option) list \<Rightarrow> 's lib \<Rightarrow>
       cerror + reply \<times> 's lib" where
  "getlk_body env ino fi lock err ps l =
     cbind (fuse_lock_common env ino fi lock F_GETLK err ps l) (\<lambda>(err1, lock1, l1).
     Inr (if err1 = 0 then ReplyLock lock1 else reply_err err1, l1))"

text \<open>A conflict among the locks of the node is answered without asking the file system.\<close>

definition fuse_lib_getlk ::
    "('d, 's) lib_env \<Rightarrow> 's lib \<Rightarrow> fuse_ino_t \<Rightarrow> fuse_file_info \<Rightarrow> flock \<Rightarrow> cerror + outcome \<times> 's lib" where
  "fuse_lib_getlk env l ino fi lock =
     cbind (get_node (l_f l) ino) (\<lambda>a.
       case locks_conflict (l_locks l a) ((flock_to_lock lock)\<lparr>k_owner := fi_lock_owner fi\<rparr>) of
         Some conflict \<Rightarrow> Inr (Replied (ReplyLock (lock_to_flock conflict lock)), l)
       | None \<Rightarrow> with_path (ask_path env ino True) (getlk_body env ino fi lock) l)"

definition setlk_body ::
    "('d, 's) lib_env \<Rightarrow> fuse_ino_t \<Rightarrow> fuse_file_info \<Rightarrow> flock \<Rightarrow> bool \<Rightarrow> int \<Rightarrow> (string \<times> addr option) list \<Rightarrow> 's lib \<Rightarrow>
       cerror + reply \<times> 's lib" where
  "setlk_body env ino fi lock sleep err ps l =
     cbind (fuse_lock_common env ino fi lock (if sleep then F_SETLKW else F_SETLK) err ps l) (\<lambda>(err1, lock1, l1).
       if err1 \<noteq> 0 then Inr (reply_err err1, l1)
       else cbind (node_lock env ino ((flock_to_lock lock1)\<lparr>k_owner := fi_lock_owner fi\<rparr>) l1) (\<lambda>l2.
            Inr (reply_err 0, l2)))"

definition fuse_lib_setlk ::
    "('d, 's) lib_env \<Rightarrow> 's lib \<Rightarrow> fuse_ino_t \<Rightarrow> fuse_file_info \<Rightarrow> flock \<Rightarrow> bool \<Rightarrow> cerror + outcome \<times> 's lib" where
  "fuse_lib_setlk env l ino fi lock sleep = with_path (ask_path env ino True) (setlk_body env ino fi lock sleep) l"

section \<open>Requests passed on\<close>

text \<open>A handler that answers with the error alone, and one that answers with what was filled in.\<close>

definition err_body ::
    "('d, 's) lib_env \<Rightarrow> fuse_ino_t \<Rightarrow> bool \<Rightarrow> ('s \<Rightarrow> string option \<Rightarrow> cerror + int \<times> 's) \<Rightarrow> int \<Rightarrow>
       (string \<times> addr option) list \<Rightarrow> 's lib \<Rightarrow> cerror + reply \<times> 's lib" where
  "err_body env ino nullok g err ps l =
     cbind (path_call env ino g (stale_ok nullok err) ps l) (\<lambda>(err1, l1). Inr (reply_err err1, l1))"

definition fill_body ::
    "('d, 's) lib_env \<Rightarrow> fuse_ino_t \<Rightarrow> bool \<Rightarrow> ('s \<Rightarrow> string option \<Rightarrow> cerror + int \<times> 'x \<times> 's) \<Rightarrow> 'x \<Rightarrow>
       (int \<Rightarrow> 'x \<Rightarrow> reply) \<Rightarrow> int \<Rightarrow> (string \<times> addr option) list \<Rightarrow> 's lib \<Rightarrow> cerror + reply \<times> 's lib" where
  "fill_body env ino nullok g x ans err ps l =
     cbind (path_fill env ino g x (stale_ok nullok err) ps l) (\<lambda>(err1, y, l1). Inr (ans err1 y, l1))"

definition fuse_lib_flock ::
    "('d, 's) lib_env \<Rightarrow> 's lib \<Rightarrow> fuse_ino_t \<Rightarrow> fuse_file_info \<Rightarrow> int \<Rightarrow> cerror + outcome \<times> 's lib" where
  "fuse_lib_flock env l ino fi op =
     with_path (ask_path env ino True) (err_body env ino True (\<lambda>s p. fuse_fs_flock (le_ops env) s p fi op)) l"

definition fuse_lib_setxattr ::
    "('d, 's) lib_env \<Rightarrow> 's lib \<Rightarrow> fuse_ino_t \<Rightarrow> string \<Rightarrow> carr \<Rightarrow> size_t \<Rightarrow> int \<Rightarrow> cerror + outcome \<times> 's lib" where
  "fuse_lib_setxattr env l ino name val sz flags =
     with_path (ask_path env ino False)
       (err_body env ino False (\<lambda>s p. fuse_fs_setxattr (le_ops env) s p name val sz flags)) l"

definition fuse_lib_removexattr ::
    "('d, 's) lib_env \<Rightarrow> 's lib \<Rightarrow> fuse_ino_t \<Rightarrow> string \<Rightarrow> cerror + outcome \<times> 's lib" where
  "fuse_lib_removexattr env l ino name =
     with_path (ask_path env ino False)
       (err_body env ino False (\<lambda>s p. fuse_fs_removexattr (le_ops env) s p name)) l"

definition fuse_lib_fallocate ::
    "('d, 's) lib_env \<Rightarrow> 's lib \<Rightarrow> fuse_ino_t \<Rightarrow> int \<Rightarrow> off_t \<Rightarrow> off_t \<Rightarrow> fuse_file_info \<Rightarrow> cerror + outcome \<times> 's lib" where
  "fuse_lib_fallocate env l ino mode offset len fi =
     with_path (ask_path env ino True)
       (err_body env ino True (\<lambda>s p. fuse_fs_fallocate (le_ops env) s p mode offset len fi)) l"

text \<open>The node number zero stands for the file system itself, with the root's path.\<close>

definition statfs_call ::
    "('d, 's) lib_env \<Rightarrow> 's \<Rightarrow> string option \<Rightarrow> cerror + int \<times> statvfs \<times> 's" where
  "statfs_call env s p =
     fuse_fs_statfs (le_ops env) s (Some (case p of None \<Rightarrow> ''/'' | Some q \<Rightarrow> q)) statvfs_zero"

definition fuse_lib_statfs ::
    "('d, 's) lib_env \<Rightarrow> 's lib \<Rightarrow> fuse_ino_t \<Rightarrow> cerror + outcome \<times> 's lib" where
  "fuse_lib_statfs env l ino =
     (let body = fill_body env ino False (statfs_call env) statvfs_zero
                   (\<lambda>err buf. if err = 0 then ReplyStatfs buf else reply_err err)
      in if ino \<noteq> 0 then with_path (ask_path env ino False) body l
         else cbind (body 0 [] l) (\<lambda>(r, l1). Inr (Replied r, l1)))"

definition fuse_lib_bmap ::
    "('d, 's) lib_env \<Rightarrow> 's lib \<Rightarrow> fuse_ino_t \<Rightarrow> size_t \<Rightarrow> 64 word \<Rightarrow> cerror + outcome \<times> 's lib" where
  "fuse_lib_bmap env l ino blocksize idx =
     with_path (ask_path env ino False)
       (fill_body env ino False (\<lambda>s p. fuse_fs_bmap (le_ops env) s p blocksize idx) idx
          (\<lambda>err i. if err = 0 then ReplyBmap i else reply_err err)) l"

definition fuse_lib_poll ::
    "('d, 's) lib_env \<Rightarrow> 's lib \<Rightarrow> fuse_ino_t \<Rightarrow> fuse_file_info \<Rightarrow> 64 word option \<Rightarrow> cerror + outcome \<times> 's lib" where
  "fuse_lib_poll env l ino fi ph =
     with_path (ask_path env ino True)
       (fill_body env ino True (\<lambda>s p. fuse_fs_poll (le_ops env) s p fi ph 0) 0
          (\<lambda>err revents. if err = 0 then ReplyPoll revents else reply_err err)) l"

definition lseek_body ::
    "('d, 's) lib_env \<Rightarrow> fuse_ino_t \<Rightarrow> off_t \<Rightarrow> int \<Rightarrow> fuse_file_info \<Rightarrow> int \<Rightarrow> (string \<times> addr option) list \<Rightarrow> 's lib \<Rightarrow>
       cerror + reply \<times> 's lib" where
  "lseek_body env ino off whence fi err ps l =
     cbind (path_call env ino (\<lambda>s p. fuse_fs_lseek (le_ops env) s p off whence fi) err ps l) (\<lambda>(res, l1).
     Inr (if err = 0 \<and> 0 \<le> res then ReplyLseek res else reply_err res, l1))"

definition fuse_lib_lseek ::
    "('d, 's) lib_env \<Rightarrow> 's lib \<Rightarrow> fuse_ino_t \<Rightarrow> off_t \<Rightarrow> int \<Rightarrow> fuse_file_info \<Rightarrow> cerror + outcome \<times> 's lib" where
  "fuse_lib_lseek env l ino off whence fi = with_path (ask_path env ino False) (lseek_body env ino off whence fi) l"

text \<open>Extended attributes: a size of zero asks for the size, otherwise the value comes in a block of that
  size. A result of zero for a positive size is answered as no error.\<close>

definition xattr_reply :: "size_t \<Rightarrow> int \<Rightarrow> carr \<Rightarrow> cerror + reply" where
  "xattr_reply sz res out =
     (if sz = 0 then Inr (if 0 \<le> res then ReplyXattr res else reply_err res)
      else if 0 < res
      then cbind (memcpy_cells (replicate (unat sz) None) 0 out) (\<lambda>block.
           cbind (read_cells block 0 (nat res)) (\<lambda>val. Inr (ReplyBuf val)))
      else Inr (reply_err res))"

definition xattr_body ::
    "('d, 's) lib_env \<Rightarrow> fuse_ino_t \<Rightarrow> size_t \<Rightarrow> ('s \<Rightarrow> string option \<Rightarrow> cerror + int \<times> carr \<times> 's) \<Rightarrow> int \<Rightarrow>
       (string \<times> addr option) list \<Rightarrow> 's lib \<Rightarrow> cerror + reply \<times> 's lib" where
  "xattr_body env ino sz g err ps l =
     cbind (path_fill env ino g [] err ps l) (\<lambda>(res, out, l1).
     cbind (xattr_reply sz res out) (\<lambda>r. Inr (r, l1)))"

definition fuse_lib_getxattr ::
    "('d, 's) lib_env \<Rightarrow> 's lib \<Rightarrow> fuse_ino_t \<Rightarrow> string \<Rightarrow> size_t \<Rightarrow> cerror + outcome \<times> 's lib" where
  "fuse_lib_getxattr env l ino name sz =
     (if sz \<noteq> 0 \<and> \<not> le_mem env (unat sz) then Inr (Replied (reply_err (- ENOMEM)), l)
      else with_path (ask_path env ino False)
             (xattr_body env ino sz (\<lambda>s p. fuse_fs_getxattr (le_ops env) s p name sz)) l)"

definition fuse_lib_listxattr ::
    "('d, 's) lib_env \<Rightarrow> 's lib \<Rightarrow> fuse_ino_t \<Rightarrow> size_t \<Rightarrow> cerror + outcome \<times> 's lib" where
  "fuse_lib_listxattr env l ino sz =
     (if sz \<noteq> 0 \<and> \<not> le_mem env (unat sz) then Inr (Replied (reply_err (- ENOMEM)), l)
      else with_path (ask_path env ino False)
             (xattr_body env ino sz (\<lambda>s p. fuse_fs_listxattr (le_ops env) s p sz)) l)"

end
