(* ===== verification/Fuse_Dir.thy ===== *)
theory Fuse_Dir
  imports Fuse_Lib_Misc
begin

unbundle bit_operations_syntax

text \<open>
  Reading directories (\<^verbatim>\<open>fuse-3.17.2/lib/fuse.c\<close> and the packing of entries in \<^verbatim>\<open>lib/fuse_lowlevel.c\<close>). The
  file system hands its entries to a filler. Entries without an offset are collected in a list on
  the first request, and every request is then served from the list, starting at the offset the
  kernel sends; entries with an offset go straight into the buffer.

  The filler works on the directory handle and, for \<^verbatim>\<open>readdirplus\<close>, on the tree; the state it is called
  with is the handle together with the library's state without the file system's part.
\<close>

section \<open>Packing entries\<close>

definition FUSE_NAME_OFFSET :: nat where "FUSE_NAME_OFFSET = 24"
definition FUSE_NAME_OFFSET_DIRENTPLUS :: nat where "FUSE_NAME_OFFSET_DIRENTPLUS = 152"

definition FUSE_DIRENT_ALIGN :: "nat \<Rightarrow> nat" where
  "FUSE_DIRENT_ALIGN n = (n + 7) div 8 * 8"

definition mode_type :: "32 word \<Rightarrow> 32 word" where
  "mode_type mode = drop_bit 12 (mode AND S_IFMT)"

text \<open>The length of the record, and the record itself if it fits.\<close>

definition fuse_add_direntry :: "nat \<Rightarrow> string \<Rightarrow> file_stat \<Rightarrow> off_t \<Rightarrow> nat \<times> packed list" where
  "fuse_add_direntry bufsize name st off =
     (let padded = FUSE_DIRENT_ALIGN (FUSE_NAME_OFFSET + length name)
      in (padded, if bufsize < padded then []
                  else [\<lparr>pk_entry = None, pk_ino = st_ino st, pk_off = off, pk_type = mode_type (st_mode st),
                         pk_name = name\<rparr>]))"

definition fuse_add_direntry_plus :: "nat \<Rightarrow> string \<Rightarrow> fuse_entry_param \<Rightarrow> off_t \<Rightarrow> nat \<times> packed list" where
  "fuse_add_direntry_plus bufsize name e off =
     (let padded = FUSE_DIRENT_ALIGN (FUSE_NAME_OFFSET_DIRENTPLUS + length name)
      in (padded, if bufsize < padded then []
                  else [\<lparr>pk_entry = Some e, pk_ino = st_ino (e_attr e), pk_off = off,
                         pk_type = mode_type (st_mode (e_attr e)), pk_name = name\<rparr>]))"

section \<open>The fillers\<close>

type_synonym dirbuf = "fuse_dh \<times> unit lib"

definition FUSE_FILL_DIR_PLUS :: "32 word" where "FUSE_FILL_DIR_PLUS = 2"
definition FUSE_READDIR_PLUS :: "32 word" where "FUSE_READDIR_PLUS = 1"

text \<open>The block grows by doubling, from 1024 bytes on; \<open>-1\<close> when it cannot.\<close>

definition extend_contents :: "(nat \<Rightarrow> bool) \<Rightarrow> fuse_dh \<Rightarrow> nat \<Rightarrow> cerror + int \<times> fuse_dh" where
  "extend_contents mem dh minsize =
     (if minsize \<le> dh_size dh then Inr (0, dh)
      else case grow_bufsize (if dh_size dh = 0 then 1024 else dh_size dh) minsize of
             None \<Rightarrow> Inl Diverge
           | Some newsize \<Rightarrow>
               if \<not> mem newsize then Inr (- 1, dh\<lparr>dh_error := - ENOMEM\<rparr>)
               else Inr (0, dh\<lparr>dh_size := newsize\<rparr>))"

text \<open>A \<^verbatim>\<open>struct fuse_direntry\<close> has 168 bytes.\<close>

definition fuse_add_direntry_to_dh ::
    "(nat \<Rightarrow> bool) \<Rightarrow> fuse_dh \<Rightarrow> string \<Rightarrow> file_stat \<Rightarrow> 32 word \<Rightarrow> int \<times> fuse_dh" where
  "fuse_add_direntry_to_dh mem dh name st flags =
     (if \<not> mem 168 \<or> \<not> mem (length name + 1) then (- 1, dh\<lparr>dh_error := - ENOMEM\<rparr>)
      else (0, dh\<lparr>dh_first := dh_first dh @ [\<lparr>de_name = name, de_stat = st, de_flags = flags\<rparr>]\<rparr>))"

definition lookup_nodeid :: "fuse \<Rightarrow> fuse_ino_t \<Rightarrow> string \<Rightarrow> fuse_ino_t" where
  "lookup_nodeid f parent name =
     (case find_name f parent name of None \<Rightarrow> FUSE_UNKNOWN_INO | Some a \<Rightarrow> ino_of f a)"

text \<open>An entry with an offset: refused once entries have been collected.\<close>

definition add_to_buffer ::
    "(nat \<Rightarrow> bool) \<Rightarrow> fuse_dh \<Rightarrow> (nat \<Rightarrow> nat \<times> packed list) \<Rightarrow> cerror + int \<times> fuse_dh" where
  "add_to_buffer mem dh pack =
     (if dh_filled dh \<or> dh_first dh \<noteq> [] then Inr (1, dh\<lparr>dh_error := - EIO\<rparr>)
      else cbind (extend_contents mem dh (dh_needlen dh)) (\<lambda>(r, dh1).
             if r = - 1 then Inr (1, dh1)
             else let (n, recs) = pack (dh_needlen dh1 - dh_len dh1); newlen = dh_len dh1 + n
                  in if dh_needlen dh1 < newlen then Inr (1, dh1)
                     else Inr (0, dh1\<lparr>dh_contents := dh_contents dh1 @ recs, dh_len := newlen\<rparr>)))"

definition fill_stat :: "unit lib \<Rightarrow> fuse_ino_t \<Rightarrow> dirent \<Rightarrow> file_stat" where
  "fill_stat l nodeid d =
     (let st = (case d_stat d of Some st \<Rightarrow> st | None \<Rightarrow> file_stat_zero\<lparr>st_ino := FUSE_UNKNOWN_INO\<rparr>)
      in if cf_use_ino (l_conf l) then st
         else if cf_readdir_ino (l_conf l) then st\<lparr>st_ino := lookup_nodeid (l_f l) nodeid (d_name d)\<rparr>
         else st\<lparr>st_ino := FUSE_UNKNOWN_INO\<rparr>)"

definition collect ::
    "(nat \<Rightarrow> bool) \<Rightarrow> fuse_dh \<Rightarrow> string \<Rightarrow> file_stat \<Rightarrow> 32 word \<Rightarrow> int \<times> fuse_dh" where
  "collect mem dh name st flags =
     (case fuse_add_direntry_to_dh mem (dh\<lparr>dh_filled := True\<rparr>) name st flags of
        (r, dh1) \<Rightarrow> (if r = - 1 then 1 else 0, dh1))"

definition fill_dir :: "(nat \<Rightarrow> bool) \<Rightarrow> dirbuf \<Rightarrow> dirent \<Rightarrow> cerror + int \<times> dirbuf" where
  "fill_dir mem b d =
     (case b of (dh, l) \<Rightarrow>
        if d_flags d AND NOT FUSE_FILL_DIR_PLUS \<noteq> 0 then Inr (1, (dh\<lparr>dh_error := - EIO\<rparr>, l))
        else let st = fill_stat l (dh_nodeid dh) d
             in if d_off d \<noteq> 0
                then cbind (add_to_buffer mem dh (\<lambda>n. fuse_add_direntry n (d_name d) st (d_off d))) (\<lambda>(r, dh1).
                     Inr (r, (dh1, l)))
                else case collect mem dh (d_name d) st (d_flags d) of (r, dh1) \<Rightarrow> Inr (r, (dh1, l)))"

definition is_dot_or_dotdot :: "string \<Rightarrow> bool" where
  "is_dot_or_dotdot name \<longleftrightarrow> name = ''.'' \<or> name = ''..''"

definition plus_entry :: "unit lib \<Rightarrow> fuse_ino_t \<Rightarrow> dirent \<Rightarrow> fuse_entry_param" where
  "plus_entry l nodeid d =
     (case d_stat d of
        Some st \<Rightarrow>
          if d_flags d AND FUSE_FILL_DIR_PLUS \<noteq> 0 then entry_zero\<lparr>e_attr := st\<rparr>
          else let a = file_stat_zero\<lparr>st_ino := (if cf_use_ino (l_conf l) then st_ino st else FUSE_UNKNOWN_INO),
                                      st_mode := st_mode st\<rparr>
               in entry_zero\<lparr>e_attr := (if \<not> cf_use_ino (l_conf l) \<and> cf_readdir_ino (l_conf l)
                                         then a\<lparr>st_ino := lookup_nodeid (l_f l) nodeid (d_name d)\<rparr> else a)\<rparr>
      | None \<Rightarrow>
          entry_zero\<lparr>e_attr := file_stat_zero\<lparr>st_ino :=
            (if \<not> cf_use_ino (l_conf l) \<and> cf_readdir_ino (l_conf l)
             then lookup_nodeid (l_f l) nodeid (d_name d) else FUSE_UNKNOWN_INO)\<rparr>\<rparr>)"

definition fill_dir_plus :: "(nat \<Rightarrow> bool) \<Rightarrow> timespec \<Rightarrow> dirbuf \<Rightarrow> dirent \<Rightarrow> cerror + int \<times> dirbuf" where
  "fill_dir_plus mem now b d =
     (case b of (dh, l) \<Rightarrow>
        if d_flags d AND NOT FUSE_FILL_DIR_PLUS \<noteq> 0 then Inr (1, (dh\<lparr>dh_error := - EIO\<rparr>, l))
        else let e = plus_entry l (dh_nodeid dh) d;
                 full = d_stat d \<noteq> None \<and> d_flags d AND FUSE_FILL_DIR_PLUS \<noteq> 0
             in if d_off d = 0
                then case collect mem dh (d_name d) (e_attr e) (d_flags d) of (r, dh1) \<Rightarrow> Inr (r, (dh1, l))
                else if dh_filled dh \<or> dh_first dh \<noteq> [] then Inr (1, (dh\<lparr>dh_error := - EIO\<rparr>, l))
                else cbind (extend_contents mem dh (dh_needlen dh)) (\<lambda>(r, dh1).
                       if r = - 1 then Inr (1, (dh1, l))
                       else cbind (if full \<and> \<not> is_dot_or_dotdot (d_name d)
                                   then do_lookup mem now l (dh_nodeid dh1) (Some (d_name d)) e
                                   else Inr (0, e, l)) (\<lambda>(res, e1, l1).
                            if res \<noteq> 0 then Inr (1, (dh1\<lparr>dh_error := res\<rparr>, l1))
                            else cbind (add_to_buffer mem dh1 (\<lambda>n. fuse_add_direntry_plus n (d_name d) e1 (d_off d)))
                                   (\<lambda>(r1, dh2). Inr (r1, (dh2, l1))))))"

section \<open>Serving from the list\<close>

text \<open>The loop of \<^verbatim>\<open>readdir_fill_from_list\<close>; \<open>pos\<close> is the number of the entry before. The result \<open>1\<close> is what the
  code returns when a lookup fails.\<close>

fun fill_list ::
    "(nat \<Rightarrow> bool) \<Rightarrow> timespec \<Rightarrow> bool \<Rightarrow> nat \<Rightarrow> direntry list \<Rightarrow> fuse_dh \<Rightarrow> 's lib \<Rightarrow> cerror + int \<times> fuse_dh \<times> 's lib" where
  "fill_list mem now with_attr pos [] dh l = Inr (0, dh, l)"
| "fill_list mem now with_attr pos (de # des) dh l =
     (let rem = dh_needlen dh - dh_len dh; off = of_nat (pos + 1)
      in cbind (if with_attr
                then let e = entry_zero\<lparr>e_attr := de_stat de\<rparr>
                     in cbind (if de_flags de AND FUSE_FILL_DIR_PLUS \<noteq> 0 \<and> \<not> is_dot_or_dotdot (de_name de)
                               then do_lookup mem now l (dh_nodeid dh) (Some (de_name de)) e
                               else Inr (0, e, l)) (\<lambda>(res, e1, l1).
                        Inr (res, fuse_add_direntry_plus rem (de_name de) e1 off, l1))
                else Inr (0, fuse_add_direntry rem (de_name de) (de_stat de) off, l)) (\<lambda>(res, (thislen, recs), l1).
           if res \<noteq> 0 then Inr (1, dh\<lparr>dh_error := res\<rparr>, l1)
           else if dh_needlen dh < dh_len dh + thislen then Inr (0, dh, l1)
           else fill_list mem now with_attr (pos + 1) des
                  (dh\<lparr>dh_contents := dh_contents dh @ recs, dh_len := dh_len dh + thislen\<rparr>) l1))"

definition readdir_fill_from_list ::
    "(nat \<Rightarrow> bool) \<Rightarrow> timespec \<Rightarrow> fuse_dh \<Rightarrow> off_t \<Rightarrow> 32 word \<Rightarrow> 's lib \<Rightarrow> cerror + int \<times> fuse_dh \<times> 's lib" where
  "readdir_fill_from_list mem now dh off flags l =
     cbind (extend_contents mem (dh\<lparr>dh_len := 0, dh_contents := []\<rparr>) (dh_needlen dh)) (\<lambda>(r, dh1).
       if r = - 1 then Inr (dh_error dh1, dh1, l)
       else let k = nat (sint off)
            in fill_list mem now (flags AND FUSE_READDIR_PLUS \<noteq> 0) k (drop k (dh_first dh1)) dh1 l)"

section \<open>The handlers\<close>

text \<open>Asking the file system: the handle is emptied, filled, and its error joined with the result.\<close>

definition readdir_fill ::
    "(dirbuf, 's) lib_env \<Rightarrow> fuse_ino_t \<Rightarrow> nat \<Rightarrow> off_t \<Rightarrow> fuse_dh \<Rightarrow> fuse_file_info \<Rightarrow> 32 word \<Rightarrow> string option \<Rightarrow>
       's lib \<Rightarrow> cerror + int \<times> fuse_dh \<times> 's lib" where
  "readdir_fill env ino sz off dh fi flags path l =
     (let dh0 = dh\<lparr>dh_first := [], dh_len := 0, dh_contents := [], dh_error := 0, dh_needlen := sz, dh_filled := False\<rparr>;
          filler = (if flags AND FUSE_READDIR_PLUS \<noteq> 0 then fill_dir_plus (le_mem env) (le_now env) else fill_dir (le_mem env));
          lu = \<lparr>l_f = l_f l, l_conf = l_conf l, l_hidectr = l_hidectr l, l_cache = l_cache l, l_locks = l_locks l,
                l_dirs = l_dirs l, l_forgets = l_forgets l, l_user = ()\<rparr>
      in cbind (fuse_fs_readdir (le_ops env) (l_user l) path filler (dh0, lu) off fi flags) (\<lambda>(err, (dh1, lu1), s).
           let l1 = l\<lparr>l_f := l_f lu1, l_cache := l_cache lu1, l_user := s\<rparr>;
               err1 = (if err = 0 then dh_error dh1 else err);
               dh2 = (if err1 \<noteq> 0 then dh1\<lparr>dh_filled := False\<rparr> else dh1)
           in cbind (on_tree (\<lambda>f. free_path (le_mem env) f ino path) l1) (\<lambda>l2. Inr (err1, dh2, l2))))"

definition get_dirhandle :: "'s lib \<Rightarrow> fuse_file_info \<Rightarrow> cerror + fuse_dh \<times> fuse_file_info" where
  "get_dirhandle l llfi =
     (case l_dirs l (fi_fh llfi) of None \<Rightarrow> Inl NullDeref | Some dh \<Rightarrow> Inr (dh, file_info_zero\<lparr>fi_fh := dh_fh dh\<rparr>))"

definition put_dirhandle :: "fuse_file_info \<Rightarrow> fuse_dh \<Rightarrow> 's lib \<Rightarrow> 's lib" where
  "put_dirhandle llfi dh l = l\<lparr>l_dirs := (l_dirs l)(fi_fh llfi \<mapsto> dh)\<rparr>"

text \<open>The answer from the handle, once it is known to be filled or not. \<open>unsigned\<close> needlen: the low 32 bits
  of the size.\<close>

definition needlen_of :: "size_t \<Rightarrow> nat" where
  "needlen_of sz = unat (ucast sz :: 32 word)"

definition answer_dir ::
    "(dirbuf, 's) lib_env \<Rightarrow> size_t \<Rightarrow> off_t \<Rightarrow> fuse_file_info \<Rightarrow> 32 word \<Rightarrow> fuse_dh \<Rightarrow> 's lib \<Rightarrow> cerror + reply \<times> 's lib" where
  "answer_dir env sz off llfi flags dh l =
     (if dh_filled dh
      then cbind (readdir_fill_from_list (le_mem env) (le_now env) (dh\<lparr>dh_needlen := needlen_of sz\<rparr>) off flags l)
             (\<lambda>(err, dh1, l1).
               Inr (if err \<noteq> 0 then reply_err err else ReplyDir (dh_contents dh1), put_dirhandle llfi dh1 l1))
      else Inr (ReplyDir (dh_contents dh), put_dirhandle llfi dh l))"

text \<open>After the path is known. The handle is read again, since the request may have waited.\<close>

definition readdir_body ::
    "(dirbuf, 's) lib_env \<Rightarrow> fuse_ino_t \<Rightarrow> size_t \<Rightarrow> off_t \<Rightarrow> fuse_file_info \<Rightarrow> 32 word \<Rightarrow> int \<Rightarrow>
       (string \<times> addr option) list \<Rightarrow> 's lib \<Rightarrow> cerror + reply \<times> 's lib" where
  "readdir_body env ino sz off llfi flags err0 ps l =
     cbind (get_dirhandle l llfi) (\<lambda>(dh, fi).
       let err = stale_ok (op_readdir (le_ops env) \<noteq> None) err0
       in if err \<noteq> 0 then Inr (reply_err err, l)
          else cbind (readdir_fill env ino (needlen_of sz) off dh fi flags (path_in ps) l) (\<lambda>(err1, dh1, l1).
                 if err1 \<noteq> 0 then Inr (reply_err err1, put_dirhandle llfi dh1 l1)
                 else answer_dir env sz off llfi flags dh1 l1))"

text \<open>Offset zero starts over.\<close>

definition fuse_readdir_common ::
    "(dirbuf, 's) lib_env \<Rightarrow> 's lib \<Rightarrow> fuse_ino_t \<Rightarrow> size_t \<Rightarrow> off_t \<Rightarrow> fuse_file_info \<Rightarrow> 32 word \<Rightarrow>
       cerror + outcome \<times> 's lib" where
  "fuse_readdir_common env l ino sz off llfi flags =
     cbind (get_dirhandle l llfi) (\<lambda>(dh, fi).
       let dh0 = (if off = 0 then dh\<lparr>dh_filled := False\<rparr> else dh); l0 = put_dirhandle llfi dh0 l
       in if \<not> dh_filled dh0
          then with_path (ask_path env ino (op_readdir (le_ops env) \<noteq> None)) (readdir_body env ino sz off llfi flags) l0
          else cbind (answer_dir env sz off llfi flags dh0 l0) (\<lambda>(r, l1). Inr (Replied r, l1)))"

definition fuse_lib_readdir ::
    "(dirbuf, 's) lib_env \<Rightarrow> 's lib \<Rightarrow> fuse_ino_t \<Rightarrow> size_t \<Rightarrow> off_t \<Rightarrow> fuse_file_info \<Rightarrow> cerror + outcome \<times> 's lib" where
  "fuse_lib_readdir env l ino sz off llfi = fuse_readdir_common env l ino sz off llfi 0"

definition fuse_lib_readdirplus ::
    "(dirbuf, 's) lib_env \<Rightarrow> 's lib \<Rightarrow> fuse_ino_t \<Rightarrow> size_t \<Rightarrow> off_t \<Rightarrow> fuse_file_info \<Rightarrow> cerror + outcome \<times> 's lib" where
  "fuse_lib_readdirplus env l ino sz off llfi = fuse_readdir_common env l ino sz off llfi FUSE_READDIR_PLUS"

section \<open>Opening and closing directories\<close>

text \<open>The library's handle is what the kernel gets; the file system's own is kept in it. A
  \<^verbatim>\<open>struct fuse_dh\<close> has 120 bytes.\<close>

definition dh_new :: "fuse_ino_t \<Rightarrow> fuse_dh" where
  "dh_new ino = \<lparr>dh_contents = [], dh_first = [], dh_len = 0, dh_size = 0, dh_needlen = 0, dh_filled = False,
     dh_fh = 0, dh_error = 0, dh_nodeid = ino\<rparr>"

definition opendir_body ::
    "(dirbuf, 's) lib_env \<Rightarrow> fuse_ino_t \<Rightarrow> fuse_file_info \<Rightarrow> int \<Rightarrow> (string \<times> addr option) list \<Rightarrow> 's lib \<Rightarrow>
       cerror + reply \<times> 's lib" where
  "opendir_body env ino llfi err ps l =
     (let fi = file_info_zero\<lparr>fi_flags := fi_flags llfi\<rparr>
      in cbind (if err \<noteq> 0 then Inr (err, fi, l)
                else user_fill (\<lambda>s. fuse_fs_opendir (le_ops env) s (path_in ps) fi) l) (\<lambda>(err1, fi1, l1).
         cbind (if err1 \<noteq> 0 then Inr (reply_err err1, l1)
                else let llfi1 = llfi\<lparr>fi_fh := le_handle env, fi_cache_readdir := fi_cache_readdir fi1,
                                      fi_keep_cache := fi_keep_cache fi1\<rparr>
                     in if le_gone env
                        then cbind (user_call (\<lambda>s. fuse_fs_releasedir (le_ops env) s (path_in ps) fi1) l1) (\<lambda>(r, l2).
                             Inr (ReplyOpen llfi1, l2))
                        else Inr (ReplyOpen llfi1, put_dirhandle llfi1 ((dh_new ino)\<lparr>dh_fh := fi_fh fi1\<rparr>) l1))
           (\<lambda>(rep, l2).
         cbind (on_tree (\<lambda>f. free_path (le_mem env) f ino (path_in ps)) l2) (\<lambda>l3. Inr (rep, l3)))))"

definition fuse_lib_opendir ::
    "(dirbuf, 's) lib_env \<Rightarrow> 's lib \<Rightarrow> fuse_ino_t \<Rightarrow> fuse_file_info \<Rightarrow> cerror + outcome \<times> 's lib" where
  "fuse_lib_opendir env l ino llfi =
     (if \<not> le_mem env 120 then Inr (Replied (reply_err (- ENOMEM)), l)
      else with_path (ask_path env ino False) (opendir_body env ino llfi) l)"

definition releasedir_body ::
    "(dirbuf, 's) lib_env \<Rightarrow> fuse_ino_t \<Rightarrow> fuse_file_info \<Rightarrow> int \<Rightarrow> (string \<times> addr option) list \<Rightarrow> 's lib \<Rightarrow>
       cerror + reply \<times> 's lib" where
  "releasedir_body env ino llfi err ps l =
     cbind (get_dirhandle l llfi) (\<lambda>(dh, fi).
     cbind (user_call (\<lambda>s. fuse_fs_releasedir (le_ops env) s (path_in ps) fi) l) (\<lambda>(r, l1).
     cbind (on_tree (\<lambda>f. free_path (le_mem env) f ino (path_in ps)) l1) (\<lambda>l2.
     Inr (reply_err 0, l2\<lparr>l_dirs := (l_dirs l2)(fi_fh llfi := None)\<rparr>))))"

definition fuse_lib_releasedir ::
    "(dirbuf, 's) lib_env \<Rightarrow> 's lib \<Rightarrow> fuse_ino_t \<Rightarrow> fuse_file_info \<Rightarrow> cerror + outcome \<times> 's lib" where
  "fuse_lib_releasedir env l ino llfi =
     cbind (get_dirhandle l llfi) (\<lambda>x. with_path (ask_path env ino True) (releasedir_body env ino llfi) l)"

definition fuse_lib_fsyncdir ::
    "(dirbuf, 's) lib_env \<Rightarrow> 's lib \<Rightarrow> fuse_ino_t \<Rightarrow> int \<Rightarrow> fuse_file_info \<Rightarrow> cerror + outcome \<times> 's lib" where
  "fuse_lib_fsyncdir env l ino datasync llfi =
     cbind (get_dirhandle l llfi) (\<lambda>(dh, fi).
       with_path (ask_path env ino True) (err_body env ino True (\<lambda>s p. fuse_fs_fsyncdir (le_ops env) s p datasync fi)) l)"

section \<open>The remaining requests\<close>

definition FUSE_IOCTL_UNRESTRICTED :: "32 word" where "FUSE_IOCTL_UNRESTRICTED = 2"
definition FUSE_IOCTL_DIR :: "32 word" where "FUSE_IOCTL_DIR = 16"

definition ioctl_body ::
    "(dirbuf, 's) lib_env \<Rightarrow> fuse_ino_t \<Rightarrow> 32 word \<Rightarrow> 64 word \<Rightarrow> fuse_file_info \<Rightarrow> 32 word \<Rightarrow> carr \<Rightarrow> carr option \<Rightarrow> int \<Rightarrow>
       (string \<times> addr option) list \<Rightarrow> 's lib \<Rightarrow> cerror + reply \<times> 's lib" where
  "ioctl_body env ino cmd arg fi flags in_buf out_buf err ps l =
     cbind (path_fill env ino (\<lambda>s p. fuse_fs_ioctl (le_ops env) s p cmd arg fi flags
              (case out_buf of None \<Rightarrow> in_buf | Some b \<Rightarrow> b)) [] (stale_ok True err) ps l) (\<lambda>(res, data, l1).
     Inr (if stale_ok True err \<noteq> 0 \<or> res < 0 then reply_err res
          else ReplyIoctl res (case out_buf of None \<Rightarrow> [] | Some b \<Rightarrow> data), l1))"

text \<open>The output block starts with the input.\<close>

definition fuse_lib_ioctl ::
    "(dirbuf, 's) lib_env \<Rightarrow> 's lib \<Rightarrow> fuse_ino_t \<Rightarrow> 32 word \<Rightarrow> 64 word \<Rightarrow> fuse_file_info \<Rightarrow> 32 word \<Rightarrow> carr \<Rightarrow> nat \<Rightarrow>
       cerror + outcome \<times> 's lib" where
  "fuse_lib_ioctl env l ino cmd arg llfi flags in_buf out_bufsz =
     (if flags AND FUSE_IOCTL_UNRESTRICTED \<noteq> 0 then Inr (Replied (reply_err (- EPERM)), l)
      else cbind (if flags AND FUSE_IOCTL_DIR \<noteq> 0
                  then cbind (get_dirhandle l llfi) (\<lambda>(dh, fi). Inr fi) else Inr llfi) (\<lambda>fi.
           if out_bufsz \<noteq> 0 \<and> \<not> le_mem env out_bufsz then Inr (Replied (reply_err (- ENOMEM)), l)
           else if in_buf \<noteq> [] \<and> out_bufsz \<noteq> 0 \<and> length in_buf \<noteq> out_bufsz then Inl AssertFail
           else let out_buf = (if out_bufsz = 0 then None
                               else Some (if in_buf \<noteq> [] then in_buf else replicate out_bufsz None))
                in with_path (ask_path env ino True) (ioctl_body env ino cmd arg fi flags in_buf out_buf) l))"

definition copy_body ::
    "('d, 's) lib_env \<Rightarrow> fuse_ino_t \<Rightarrow> off_t \<Rightarrow> fuse_file_info \<Rightarrow> string option \<Rightarrow> fuse_ino_t \<Rightarrow> off_t \<Rightarrow> fuse_file_info \<Rightarrow>
       size_t \<Rightarrow> int \<Rightarrow> int \<Rightarrow> (string \<times> addr option) list \<Rightarrow> 's lib \<Rightarrow> cerror + reply \<times> 's lib" where
  "copy_body env ino_in off_in fi_in path_in1 ino_out off_out fi_out len flags err ps l =
     (if stale_ok True err \<noteq> 0
      then cbind (on_tree (\<lambda>f. free_path (le_mem env) f ino_in path_in1) l) (\<lambda>l1.
           Inr (reply_err (stale_ok True err), l1))
      else cbind (user_call (\<lambda>s. fuse_fs_copy_file_range (le_ops env) s path_in1 fi_in off_in (path_in ps) fi_out off_out
                    len flags) l) (\<lambda>(res, l1).
           cbind (on_tree (\<lambda>f. free_path (le_mem env) f ino_in path_in1) l1) (\<lambda>l2.
           cbind (on_tree (\<lambda>f. free_path (le_mem env) f ino_out (path_in ps)) l2) (\<lambda>l3.
           Inr (if 0 \<le> res then ReplyWrite res else reply_err res, l3)))))"

text \<open>The two paths are asked for one after the other, so that a request can wait twice.\<close>

definition copy_second ::
    "('d, 's) lib_env \<Rightarrow> fuse_ino_t \<Rightarrow> off_t \<Rightarrow> fuse_file_info \<Rightarrow> fuse_ino_t \<Rightarrow> off_t \<Rightarrow> fuse_file_info \<Rightarrow>
       size_t \<Rightarrow> int \<Rightarrow> int \<Rightarrow> (string \<times> addr option) list \<Rightarrow> 's lib \<Rightarrow> cerror + outcome \<times> 's lib" where
  "copy_second env ino_in off_in fi_in ino_out off_out fi_out len flags err ps l =
     (if stale_ok True err \<noteq> 0 then Inr (Replied (reply_err (stale_ok True err)), l)
      else with_path (ask_path env ino_out True)
             (copy_body env ino_in off_in fi_in (path_in ps) ino_out off_out fi_out len flags) l)"

definition fuse_lib_copy_file_range ::
    "('d, 's) lib_env \<Rightarrow> 's lib \<Rightarrow> fuse_ino_t \<Rightarrow> off_t \<Rightarrow> fuse_file_info \<Rightarrow> fuse_ino_t \<Rightarrow> off_t \<Rightarrow> fuse_file_info \<Rightarrow>
       size_t \<Rightarrow> int \<Rightarrow> cerror + outcome \<times> 's lib" where
  "fuse_lib_copy_file_range env l ino_in off_in fi_in ino_out off_out fi_out len flags =
     cbind (ask_path env ino_in True (l_f l)) (\<lambda>(r, f1).
       let l1 = l\<lparr>l_f := f1\<rparr>
       in case r of
            Waiting qe \<Rightarrow> Inr (Wait qe, l1)
          | Answer err ps \<Rightarrow> copy_second env ino_in off_in fi_in ino_out off_out fi_out len flags err ps l1)"

end
