(* ===== verification/Fuse_Msg.thy ===== *)
theory Fuse_Msg
  imports Fuse_Fields Fuse_Dir
begin

unbundle bit_operations_syntax

text \<open>
  Requests as they come from the kernel (\<^verbatim>\<open>fuse-3.17.2/lib/fuse_lowlevel.c\<close>): a message is a header and a
  structure that depends on the operation, followed by strings or data, all in the byte order of the
  machine, which is taken to be little-endian. A function \<^verbatim>\<open>do_*\<close> for each operation reads the fields
  and calls the operation of the session, or answers when the session does not have it.

  The bytes behind the header are a character array that goes on to the end of the receive
  buffer; what the kernel did not write is indeterminate. Reading it, or reading past the end, is an error, as in C.
\<close>

section \<open>Sessions and calls\<close>

text \<open>What a session knows of the connection, beyond what \<open>Fuse_Fs\<close> needs.\<close>

record session_conn = fuse_conn_info +
  proto_major :: "32 word"
  proto_minor :: "32 word"
  capable :: "32 word"
  max_write :: "32 word"
  max_read :: "32 word"
  max_readahead :: "32 word"
  max_background :: "32 word"
  congestion_threshold :: "32 word"
  time_gran :: "32 word"
  max_backing_stack_depth :: "32 word"

text \<open>The operations a session can have.\<close>

datatype (plugins only: size) ll_op =
    Op_init | Op_destroy | Op_lookup | Op_forget | Op_forget_multi | Op_getattr | Op_setattr | Op_access
  | Op_readlink | Op_mknod | Op_mkdir | Op_unlink | Op_rmdir | Op_symlink | Op_rename | Op_link | Op_tmpfile
  | Op_create | Op_open | Op_read | Op_write | Op_write_buf | Op_flush | Op_release | Op_fsync | Op_opendir
  | Op_readdir | Op_readdirplus | Op_releasedir | Op_fsyncdir | Op_statfs | Op_setxattr | Op_getxattr
  | Op_listxattr | Op_removexattr | Op_getlk | Op_setlk | Op_flock | Op_bmap | Op_ioctl | Op_poll
  | Op_fallocate | Op_copy_file_range | Op_lseek | Op_retrieve_reply

text \<open>A call of an operation, with the arguments in the order of the C function.\<close>

datatype (plugins only: size) ll_call =
    Call_lookup fuse_ino_t string
  | Call_forget fuse_ino_t "64 word"
  | Call_forget_multi "(fuse_ino_t \<times> 64 word) list"
  | Call_getattr fuse_ino_t "fuse_file_info option"
  | Call_setattr fuse_ino_t file_stat "32 word" "fuse_file_info option"
  | Call_access fuse_ino_t int
  | Call_readlink fuse_ino_t
  | Call_mknod fuse_ino_t string "32 word" "64 word"
  | Call_mkdir fuse_ino_t string "32 word"
  | Call_unlink fuse_ino_t string
  | Call_rmdir fuse_ino_t string
  | Call_symlink string fuse_ino_t string
  | Call_rename fuse_ino_t string fuse_ino_t string "32 word"
  | Call_link fuse_ino_t fuse_ino_t string
  | Call_tmpfile fuse_ino_t "32 word" fuse_file_info
  | Call_create fuse_ino_t string "32 word" fuse_file_info
  | Call_open fuse_ino_t fuse_file_info
  | Call_read fuse_ino_t size_t off_t fuse_file_info
  | Call_write fuse_ino_t carr size_t off_t fuse_file_info
  | Call_write_buf fuse_ino_t fuse_bufvec off_t fuse_file_info
  | Call_flush fuse_ino_t fuse_file_info
  | Call_release fuse_ino_t fuse_file_info
  | Call_fsync fuse_ino_t int fuse_file_info
  | Call_opendir fuse_ino_t fuse_file_info
  | Call_readdir fuse_ino_t size_t off_t fuse_file_info
  | Call_readdirplus fuse_ino_t size_t off_t fuse_file_info
  | Call_releasedir fuse_ino_t fuse_file_info
  | Call_fsyncdir fuse_ino_t int fuse_file_info
  | Call_statfs fuse_ino_t
  | Call_setxattr fuse_ino_t string carr size_t int
  | Call_getxattr fuse_ino_t string size_t
  | Call_listxattr fuse_ino_t size_t
  | Call_removexattr fuse_ino_t string
  | Call_getlk fuse_ino_t fuse_file_info flock
  | Call_setlk fuse_ino_t fuse_file_info flock bool
  | Call_flock fuse_ino_t fuse_file_info int
  | Call_bmap fuse_ino_t size_t "64 word"
  | Call_ioctl fuse_ino_t "32 word" "64 word" fuse_file_info "32 word" carr size_t
  | Call_poll fuse_ino_t fuse_file_info "64 word option"
  | Call_fallocate fuse_ino_t int off_t off_t fuse_file_info
  | Call_copy_file_range fuse_ino_t off_t fuse_file_info fuse_ino_t off_t fuse_file_info size_t int
  | Call_lseek fuse_ino_t off_t int fuse_file_info
  | Call_retrieve_reply "64 word" fuse_ino_t off_t fuse_bufvec

text \<open>What a \<^verbatim>\<open>do_*\<close> function does: it calls an operation, after it may have set the file creation mask of
  the request's context; or it forgets nodes one by one and sends no answer; or it answers at once.\<close>

datatype (plugins only: size) ll_action =
    Call "32 word option" ll_call
  | Forget_each "(fuse_ino_t \<times> 64 word) list"
  | Answer_now reply

definition missing :: "cerror + ll_action" where
  "missing = Inr (Answer_now (ReplyErr ENOSYS))"

abbreviation call :: "ll_call \<Rightarrow> cerror + ll_action" where
  "call c \<equiv> Inr (Call None c)"

type_synonym decoder = "session_conn \<Rightarrow> (ll_op \<Rightarrow> bool) \<Rightarrow> fuse_ino_t \<Rightarrow> carr \<Rightarrow> cerror + ll_action"

definition FUSE_GETATTR_FH :: "32 word" where "FUSE_GETATTR_FH = 1"
definition FATTR_FH :: "32 word" where "FATTR_FH = 64"
definition FUSE_SET_ATTR_CTIME :: "32 word" where "FUSE_SET_ATTR_CTIME = 1024"
definition FUSE_SET_ATTR_KILL_SUID :: "32 word" where "FUSE_SET_ATTR_KILL_SUID = 2048"
definition FUSE_SET_ATTR_KILL_SGID :: "32 word" where "FUSE_SET_ATTR_KILL_SGID = 4096"
definition FUSE_WRITE_CACHE :: "32 word" where "FUSE_WRITE_CACHE = 1"
definition FUSE_RELEASE_FLUSH :: "32 word" where "FUSE_RELEASE_FLUSH = 1"
definition FUSE_RELEASE_FLOCK_UNLOCK :: "32 word" where "FUSE_RELEASE_FLOCK_UNLOCK = 2"
definition FUSE_LK_FLOCK :: "32 word" where "FUSE_LK_FLOCK = 1"
definition FUSE_POLL_SCHEDULE_NOTIFY :: "32 word" where "FUSE_POLL_SCHEDULE_NOTIFY = 1"
definition FUSE_CAP_IOCTL_DIR :: "64 word" where "FUSE_CAP_IOCTL_DIR = 0x800"
definition FUSE_CAP_NO_OPEN_SUPPORT :: "64 word" where "FUSE_CAP_NO_OPEN_SUPPORT = 0x20000"
definition FUSE_CAP_NO_OPENDIR_SUPPORT :: "64 word" where "FUSE_CAP_NO_OPENDIR_SUPPORT = 0x1000000"
definition FUSE_CAP_SETXATTR_EXT :: "64 word" where "FUSE_CAP_SETXATTR_EXT = 0x8000000"
definition LOCK_SH :: "32 word" where "LOCK_SH = 1"
definition LOCK_EX :: "32 word" where "LOCK_EX = 2"
definition LOCK_NB :: "32 word" where "LOCK_NB = 4"
definition LOCK_UN :: "32 word" where "LOCK_UN = 8"
definition ENOTTY :: int where "ENOTTY = 25"

section \<open>Names and attributes\<close>

definition do_lookup_ll :: decoder where
  "do_lookup_ll conn has nodeid a =
     (if has Op_lookup then cbind (cstr a) (\<lambda>name. call (Call_lookup nodeid name)) else missing)"

definition do_forget_ll :: decoder where
  "do_forget_ll conn has nodeid a =
     (if has Op_forget then cbind (get64 a 0) (\<lambda>nlookup. call (Call_forget nodeid nlookup))
      else Inr (Answer_now ReplyNone))"

text \<open>The array of a batch: \<open>n\<close> pairs of a node and a count.\<close>

fun get_forgets :: "carr \<Rightarrow> nat \<Rightarrow> nat \<Rightarrow> cerror + (fuse_ino_t \<times> 64 word) list" where
  "get_forgets a off 0 = Inr []"
| "get_forgets a off (Suc n) =
     cbind (get64 a off) (\<lambda>ino. cbind (get64 a (off + 8)) (\<lambda>nlookup.
     cbind (get_forgets a (off + 16) n) (\<lambda>fs. Inr ((ino, nlookup) # fs))))"

text \<open>Without an operation for a whole batch every node is forgotten with a request of its own; the loop
  ends early when there is no memory for one (the structure has 128 bytes).\<close>

definition do_batch_forget :: "(nat \<Rightarrow> bool) \<Rightarrow> decoder" where
  "do_batch_forget mem conn has nodeid a =
     (if has Op_forget_multi
      then cbind (get32 a 0) (\<lambda>count. cbind (get_forgets a 8 (unat count)) (\<lambda>fs. call (Call_forget_multi fs)))
      else if has Op_forget
      then cbind (get32 a 0) (\<lambda>count.
           if count = 0 \<or> \<not> mem 128 then Inr (Answer_now ReplyNone)
           else cbind (get_forgets a 8 (unat count)) (\<lambda>fs. Inr (Forget_each fs)))
      else Inr (Answer_now ReplyNone))"

definition do_getattr :: decoder where
  "do_getattr conn has nodeid a =
     cbind (if 9 \<le> proto_minor conn
            then cbind (get32 a 0) (\<lambda>flags.
                 if flags AND FUSE_GETATTR_FH \<noteq> 0
                 then cbind (get64 a 8) (\<lambda>fh. Inr (Some (file_info_zero\<lparr>fi_fh := fh\<rparr>)))
                 else Inr None)
            else Inr None) (\<lambda>fip.
     if has Op_getattr then call (Call_getattr nodeid fip) else missing)"

definition convert_attr :: "carr \<Rightarrow> cerror + file_stat" where
  "convert_attr a =
     cbind (get32 a 68) (\<lambda>mode. cbind (get32 a 76) (\<lambda>uid. cbind (get32 a 80) (\<lambda>gid. cbind (get64 a 16) (\<lambda>sz.
     cbind (get64 a 32) (\<lambda>atime. cbind (get64 a 40) (\<lambda>mtime. cbind (get64 a 48) (\<lambda>ctime.
     cbind (get32 a 56) (\<lambda>atimensec. cbind (get32 a 60) (\<lambda>mtimensec. cbind (get32 a 64) (\<lambda>ctimensec.
     Inr (file_stat_zero\<lparr>st_mode := mode, st_uid := uid, st_gid := gid, st_size := sz,
       st_atim := (atime, ucast atimensec), st_mtim := (mtime, ucast mtimensec), st_ctim := (ctime, ucast ctimensec)\<rparr>)))))))))))"

definition setattr_mask :: "32 word" where
  "setattr_mask = FUSE_SET_ATTR_MODE OR FUSE_SET_ATTR_UID OR FUSE_SET_ATTR_GID OR FUSE_SET_ATTR_SIZE OR
     FUSE_SET_ATTR_ATIME OR FUSE_SET_ATTR_MTIME OR FUSE_SET_ATTR_KILL_SUID OR FUSE_SET_ATTR_KILL_SGID OR
     FUSE_SET_ATTR_ATIME_NOW OR FUSE_SET_ATTR_MTIME_NOW OR FUSE_SET_ATTR_CTIME"

definition do_setattr :: decoder where
  "do_setattr conn has nodeid a =
     (if \<not> has Op_setattr then missing
      else cbind (convert_attr a) (\<lambda>st. cbind (get32 a 0) (\<lambda>valid.
           cbind (if valid AND FATTR_FH \<noteq> 0
                  then cbind (get64 a 8) (\<lambda>fh. Inr (Some (file_info_zero\<lparr>fi_fh := fh\<rparr>))) else Inr None) (\<lambda>fi.
           call (Call_setattr nodeid st (valid AND NOT FATTR_FH AND setattr_mask) fi)))))"

definition do_access :: decoder where
  "do_access conn has nodeid a =
     (if has Op_access then cbind (get32 a 0) (\<lambda>amode. call (Call_access nodeid (sint amode))) else missing)"

definition do_readlink :: decoder where
  "do_readlink conn has nodeid a = (if has Op_readlink then call (Call_readlink nodeid) else missing)"

definition FUSE_COMPAT_MKNOD_IN_SIZE :: nat where "FUSE_COMPAT_MKNOD_IN_SIZE = 8"

definition do_mknod :: decoder where
  "do_mknod conn has nodeid a =
     cbind (if 12 \<le> proto_minor conn then cbind (get32 a 8) (\<lambda>u. Inr (Some u, 16))
            else Inr (None, FUSE_COMPAT_MKNOD_IN_SIZE)) (\<lambda>(umask, off).
     if \<not> has Op_mknod then missing
     else cbind (cstr (drop off a)) (\<lambda>name. cbind (get32 a 0) (\<lambda>mode. cbind (get32 a 4) (\<lambda>rdev.
          Inr (Call umask (Call_mknod nodeid name mode (ucast rdev)))))))"

definition do_mkdir :: decoder where
  "do_mkdir conn has nodeid a =
     cbind (if 12 \<le> proto_minor conn then cbind (get32 a 4) (\<lambda>u. Inr (Some u)) else Inr None) (\<lambda>umask.
     if \<not> has Op_mkdir then missing
     else cbind (cstr (drop 8 a)) (\<lambda>name. cbind (get32 a 0) (\<lambda>mode.
          Inr (Call umask (Call_mkdir nodeid name mode)))))"

definition do_unlink :: decoder where
  "do_unlink conn has nodeid a =
     (if has Op_unlink then cbind (cstr a) (\<lambda>name. call (Call_unlink nodeid name)) else missing)"

definition do_rmdir :: decoder where
  "do_rmdir conn has nodeid a =
     (if has Op_rmdir then cbind (cstr a) (\<lambda>name. call (Call_rmdir nodeid name)) else missing)"

text \<open>Where a second string follows, the length of the first is taken before the operation is looked up.\<close>

definition do_symlink :: decoder where
  "do_symlink conn has nodeid a =
     cbind (cstr a) (\<lambda>name.
     if \<not> has Op_symlink then missing
     else cbind (cstr (drop (length name + 1) a)) (\<lambda>linkname. call (Call_symlink linkname nodeid name)))"

definition do_rename :: decoder where
  "do_rename conn has nodeid a =
     cbind (cstr (drop 8 a)) (\<lambda>oldname.
     if \<not> has Op_rename then missing
     else cbind (get64 a 0) (\<lambda>newdir. cbind (cstr (drop (8 + length oldname + 1) a)) (\<lambda>newname.
          call (Call_rename nodeid oldname newdir newname 0))))"

definition do_rename2 :: decoder where
  "do_rename2 conn has nodeid a =
     cbind (cstr (drop 16 a)) (\<lambda>oldname.
     if \<not> has Op_rename then missing
     else cbind (get64 a 0) (\<lambda>newdir. cbind (cstr (drop (16 + length oldname + 1) a)) (\<lambda>newname.
          cbind (get32 a 8) (\<lambda>flags. call (Call_rename nodeid oldname newdir newname flags)))))"

definition do_link :: decoder where
  "do_link conn has nodeid a =
     (if has Op_link
      then cbind (get64 a 0) (\<lambda>oldnodeid. cbind (cstr (drop 8 a)) (\<lambda>name. call (Call_link oldnodeid nodeid name)))
      else missing)"

section \<open>Files\<close>

definition do_tmpfile :: decoder where
  "do_tmpfile conn has nodeid a =
     (if \<not> has Op_tmpfile then missing
      else cbind (get32 a 0) (\<lambda>flags.
           cbind (if 12 \<le> proto_minor conn then cbind (get32 a 8) (\<lambda>u. Inr (Some u)) else Inr None) (\<lambda>umask.
           cbind (get32 a 4) (\<lambda>mode.
           Inr (Call umask (Call_tmpfile nodeid mode (file_info_zero\<lparr>fi_flags := flags\<rparr>)))))))"

definition do_create :: decoder where
  "do_create conn has nodeid a =
     (if \<not> has Op_create then missing
      else cbind (get32 a 0) (\<lambda>flags.
           cbind (if 12 \<le> proto_minor conn then cbind (get32 a 8) (\<lambda>u. Inr (Some u, 16)) else Inr (None, 8)) (\<lambda>(umask, off).
           cbind (cstr (drop off a)) (\<lambda>name. cbind (get32 a 4) (\<lambda>mode.
           Inr (Call umask (Call_create nodeid name mode (file_info_zero\<lparr>fi_flags := flags\<rparr>))))))))"

definition do_open :: decoder where
  "do_open conn has nodeid a =
     cbind (get32 a 0) (\<lambda>flags.
       let fi = file_info_zero\<lparr>fi_flags := flags\<rparr>
       in if has Op_open then call (Call_open nodeid fi)
          else if want_ext conn AND FUSE_CAP_NO_OPEN_SUPPORT \<noteq> 0 then missing
          else Inr (Answer_now (ReplyOpen fi)))"

definition do_read :: decoder where
  "do_read conn has nodeid a =
     (if \<not> has Op_read then missing
      else cbind (get64 a 0) (\<lambda>fh.
           cbind (if 9 \<le> proto_minor conn
                  then cbind (get64 a 24) (\<lambda>owner. cbind (get32 a 32) (\<lambda>flags.
                       Inr (file_info_zero\<lparr>fi_fh := fh, fi_lock_owner := owner, fi_flags := flags\<rparr>)))
                  else Inr (file_info_zero\<lparr>fi_fh := fh\<rparr>)) (\<lambda>fi.
           cbind (get32 a 16) (\<lambda>sz. cbind (get64 a 8) (\<lambda>off. call (Call_read nodeid (ucast sz) off fi))))))"

definition FUSE_COMPAT_WRITE_IN_SIZE :: nat where "FUSE_COMPAT_WRITE_IN_SIZE = 24"

text \<open>The file information of a write, and where its data start.\<close>

definition write_info :: "session_conn \<Rightarrow> carr \<Rightarrow> cerror + fuse_file_info \<times> nat" where
  "write_info conn a =
     cbind (get64 a 0) (\<lambda>fh. cbind (get32 a 20) (\<lambda>wflags.
       let fi = file_info_zero\<lparr>fi_fh := fh, fi_writepage := (wflags AND FUSE_WRITE_CACHE \<noteq> 0)\<rparr>
       in if proto_minor conn < 9 then Inr (fi, FUSE_COMPAT_WRITE_IN_SIZE)
          else cbind (get64 a 24) (\<lambda>owner. cbind (get32 a 32) (\<lambda>flags.
               Inr (fi\<lparr>fi_lock_owner := owner, fi_flags := flags\<rparr>, 40)))))"

definition do_write :: decoder where
  "do_write conn has nodeid a =
     cbind (write_info conn a) (\<lambda>(fi, off0).
     if \<not> has Op_write then missing
     else cbind (get32 a 16) (\<lambda>sz. cbind (get64 a 8) (\<lambda>off.
          call (Call_write nodeid (drop off0 a) (ucast sz) off fi))))"

text \<open>The header of a message takes 40 bytes of the buffer.\<close>

definition do_write_buf :: "session_conn \<Rightarrow> fuse_ino_t \<Rightarrow> carr \<Rightarrow> fuse_buf \<Rightarrow> cerror + ll_action" where
  "do_write_buf conn nodeid a ibuf =
     cbind (write_info conn a) (\<lambda>(fi, off0).
     if proto_minor conn < 9 \<and> flagged ibuf FUSE_BUF_IS_FD then Inl AssertFail
     else let b = ibuf\<lparr>fb_mem := (if flagged ibuf FUSE_BUF_IS_FD then fb_mem ibuf else drop off0 a),
                       fb_size := fb_size ibuf - (40 + of_nat off0)\<rparr>
          in cbind (get32 a 16) (\<lambda>sz.
             if fb_size b < ucast sz then Inr (Answer_now (ReplyErr EIO))
             else cbind (get64 a 8) (\<lambda>off.
                  call (Call_write_buf nodeid \<lparr>bv_idx = 0, bv_off = 0, bv_buf = [b\<lparr>fb_size := ucast sz\<rparr>]\<rparr> off fi))))"

definition do_flush :: decoder where
  "do_flush conn has nodeid a =
     cbind (get64 a 0) (\<lambda>fh.
     cbind (if 7 \<le> proto_minor conn then get64 a 16 else Inr 0) (\<lambda>owner.
     if has Op_flush
     then call (Call_flush nodeid (file_info_zero\<lparr>fi_fh := fh, fi_flush := True, fi_lock_owner := owner\<rparr>))
     else missing))"

definition do_release :: decoder where
  "do_release conn has nodeid a =
     cbind (get32 a 8) (\<lambda>flags. cbind (get64 a 0) (\<lambda>fh.
     cbind (if 8 \<le> proto_minor conn
            then cbind (get32 a 12) (\<lambda>rflags. cbind (get64 a 16) (\<lambda>owner.
                 Inr (file_info_zero\<lparr>fi_flags := flags, fi_fh := fh, fi_flush := (rflags AND FUSE_RELEASE_FLUSH \<noteq> 0),
                        fi_lock_owner := owner\<rparr>)))
            else Inr (file_info_zero\<lparr>fi_flags := flags, fi_fh := fh\<rparr>)) (\<lambda>fi.
     cbind (get32 a 12) (\<lambda>rflags.
     cbind (if rflags AND FUSE_RELEASE_FLOCK_UNLOCK \<noteq> 0
            then cbind (get64 a 16) (\<lambda>owner. Inr (fi\<lparr>fi_flock_release := True, fi_lock_owner := owner\<rparr>))
            else Inr fi) (\<lambda>fi1.
     if has Op_release then call (Call_release nodeid fi1) else Inr (Answer_now (ReplyErr 0)))))))"

definition do_fsync :: decoder where
  "do_fsync conn has nodeid a =
     cbind (get32 a 8) (\<lambda>flags. cbind (get64 a 0) (\<lambda>fh.
     if has Op_fsync then call (Call_fsync nodeid (sint (flags AND 1)) (file_info_zero\<lparr>fi_fh := fh\<rparr>)) else missing))"

section \<open>Directories\<close>

definition do_opendir :: decoder where
  "do_opendir conn has nodeid a =
     cbind (get32 a 0) (\<lambda>flags.
       let fi = file_info_zero\<lparr>fi_flags := flags\<rparr>
       in if has Op_opendir then call (Call_opendir nodeid fi)
          else if want_ext conn AND FUSE_CAP_NO_OPENDIR_SUPPORT \<noteq> 0 then missing
          else Inr (Answer_now (ReplyOpen fi)))"

definition do_readdir :: decoder where
  "do_readdir conn has nodeid a =
     cbind (get64 a 0) (\<lambda>fh.
     if \<not> has Op_readdir then missing
     else cbind (get32 a 16) (\<lambda>sz. cbind (get64 a 8) (\<lambda>off.
          call (Call_readdir nodeid (ucast sz) off (file_info_zero\<lparr>fi_fh := fh\<rparr>)))))"

definition do_readdirplus :: decoder where
  "do_readdirplus conn has nodeid a =
     cbind (get64 a 0) (\<lambda>fh.
     if \<not> has Op_readdirplus then missing
     else cbind (get32 a 16) (\<lambda>sz. cbind (get64 a 8) (\<lambda>off.
          call (Call_readdirplus nodeid (ucast sz) off (file_info_zero\<lparr>fi_fh := fh\<rparr>)))))"

definition do_releasedir :: decoder where
  "do_releasedir conn has nodeid a =
     cbind (get32 a 8) (\<lambda>flags. cbind (get64 a 0) (\<lambda>fh.
     if has Op_releasedir then call (Call_releasedir nodeid (file_info_zero\<lparr>fi_flags := flags, fi_fh := fh\<rparr>))
     else Inr (Answer_now (ReplyErr 0))))"

definition do_fsyncdir :: decoder where
  "do_fsyncdir conn has nodeid a =
     cbind (get32 a 8) (\<lambda>flags. cbind (get64 a 0) (\<lambda>fh.
     if has Op_fsyncdir then call (Call_fsyncdir nodeid (sint (flags AND 1)) (file_info_zero\<lparr>fi_fh := fh\<rparr>)) else missing))"

definition do_statfs :: decoder where
  "do_statfs conn has nodeid a =
     (if has Op_statfs then call (Call_statfs nodeid)
      else Inr (Answer_now (ReplyStatfs (statvfs_zero\<lparr>f_namemax := 255, f_bsize := 512\<rparr>))))"

section \<open>Extended attributes\<close>

definition FUSE_COMPAT_SETXATTR_IN_SIZE :: nat where "FUSE_COMPAT_SETXATTR_IN_SIZE = 8"

definition do_setxattr :: decoder where
  "do_setxattr conn has nodeid a =
     (let off = (if want_ext conn AND FUSE_CAP_SETXATTR_EXT \<noteq> 0 then 16 else FUSE_COMPAT_SETXATTR_IN_SIZE)
      in cbind (cstr (drop off a)) (\<lambda>name.
         if \<not> has Op_setxattr then missing
         else cbind (get32 a 0) (\<lambda>sz. cbind (get32 a 4) (\<lambda>flags.
              call (Call_setxattr nodeid name (drop (off + length name + 1) a) (ucast sz) (sint flags))))))"

definition do_getxattr :: decoder where
  "do_getxattr conn has nodeid a =
     (if \<not> has Op_getxattr then missing
      else cbind (cstr (drop 8 a)) (\<lambda>name. cbind (get32 a 0) (\<lambda>sz. call (Call_getxattr nodeid name (ucast sz)))))"

definition do_listxattr :: decoder where
  "do_listxattr conn has nodeid a =
     (if has Op_listxattr then cbind (get32 a 0) (\<lambda>sz. call (Call_listxattr nodeid (ucast sz))) else missing)"

definition do_removexattr :: decoder where
  "do_removexattr conn has nodeid a =
     (if has Op_removexattr then cbind (cstr a) (\<lambda>name. call (Call_removexattr nodeid name)) else missing)"

section \<open>Locks\<close>

text \<open>The lock structure starts at byte 16 of the request.\<close>

definition convert_fuse_file_lock :: "carr \<Rightarrow> cerror + flock" where
  "convert_fuse_file_lock a =
     cbind (get32 a 32) (\<lambda>typ. cbind (get64 a 16) (\<lambda>start. cbind (get64 a 24) (\<lambda>stop. cbind (get32 a 36) (\<lambda>pid.
     Inr \<lparr>l_type = ucast typ, l_whence = 0, l_start = start,
          l_len = (if stop = word_of_int OFFSET_MAX then 0 else stop - start + 1), l_pid = pid\<rparr>))))"

definition lk_info :: "carr \<Rightarrow> cerror + fuse_file_info" where
  "lk_info a = cbind (get64 a 0) (\<lambda>fh. cbind (get64 a 8) (\<lambda>owner. Inr (file_info_zero\<lparr>fi_fh := fh, fi_lock_owner := owner\<rparr>)))"

definition do_getlk :: decoder where
  "do_getlk conn has nodeid a =
     cbind (lk_info a) (\<lambda>fi. cbind (convert_fuse_file_lock a) (\<lambda>lock.
     if has Op_getlk then call (Call_getlk nodeid fi lock) else missing))"

definition do_setlk_common :: "bool \<Rightarrow> decoder" where
  "do_setlk_common sleep conn has nodeid a =
     cbind (lk_info a) (\<lambda>fi. cbind (get32 a 40) (\<lambda>lkflags.
     if lkflags AND FUSE_LK_FLOCK \<noteq> 0
     then cbind (get32 a 32) (\<lambda>typ.
          let op = (if typ = ucast F_RDLCK then LOCK_SH else if typ = ucast F_WRLCK then LOCK_EX
                    else if typ = ucast F_UNLCK then LOCK_UN else 0);
              op1 = (if sleep then op else op OR LOCK_NB)
          in if has Op_flock then call (Call_flock nodeid fi (sint op1)) else missing)
     else cbind (convert_fuse_file_lock a) (\<lambda>lock.
          if has Op_setlk then call (Call_setlk nodeid fi lock sleep) else missing)))"

definition do_setlk :: decoder where "do_setlk = do_setlk_common False"
definition do_setlkw :: decoder where "do_setlkw = do_setlk_common True"

section \<open>The remaining operations\<close>

definition do_bmap :: decoder where
  "do_bmap conn has nodeid a =
     (if \<not> has Op_bmap then missing
      else cbind (get32 a 8) (\<lambda>blocksize. cbind (get64 a 0) (\<lambda>block. call (Call_bmap nodeid (ucast blocksize) block))))"

text \<open>A pointer has eight bytes, so the flag for 64-bit requests on 32-bit machines is never set.\<close>

definition do_ioctl :: decoder where
  "do_ioctl conn has nodeid a =
     cbind (get32 a 8) (\<lambda>flags. cbind (get32 a 24) (\<lambda>in_size.
     if flags AND FUSE_IOCTL_DIR \<noteq> 0 \<and> want_ext conn AND FUSE_CAP_IOCTL_DIR = 0 then Inr (Answer_now (ReplyErr ENOTTY))
     else cbind (get64 a 0) (\<lambda>fh.
          if \<not> has Op_ioctl then missing
          else cbind (get32 a 12) (\<lambda>cmd. cbind (get64 a 16) (\<lambda>arg. cbind (get32 a 28) (\<lambda>out_size.
               cbind (read_cells a 32 (unat in_size)) (\<lambda>in_buf.
               call (Call_ioctl nodeid cmd arg (file_info_zero\<lparr>fi_fh := fh\<rparr>) flags in_buf (ucast out_size)))))))))"

definition do_poll :: "(nat \<Rightarrow> bool) \<Rightarrow> decoder" where
  "do_poll mem conn has nodeid a =
     cbind (get64 a 0) (\<lambda>fh. cbind (get32 a 20) (\<lambda>events.
     if \<not> has Op_poll then missing
     else cbind (get32 a 16) (\<lambda>flags.
          let fi = file_info_zero\<lparr>fi_fh := fh, fi_poll_events := events\<rparr>
          in if flags AND FUSE_POLL_SCHEDULE_NOTIFY = 0 then call (Call_poll nodeid fi None)
             else if \<not> mem 16 then Inr (Answer_now (ReplyErr ENOMEM))
             else cbind (get64 a 8) (\<lambda>kh. call (Call_poll nodeid fi (Some kh))))))"

definition do_fallocate :: decoder where
  "do_fallocate conn has nodeid a =
     cbind (get64 a 0) (\<lambda>fh.
     if \<not> has Op_fallocate then missing
     else cbind (get32 a 24) (\<lambda>mode. cbind (get64 a 8) (\<lambda>off. cbind (get64 a 16) (\<lambda>len.
          call (Call_fallocate nodeid (sint mode) off len (file_info_zero\<lparr>fi_fh := fh\<rparr>))))))"

definition do_copy_file_range :: decoder where
  "do_copy_file_range conn has nodeid_in a =
     cbind (get64 a 0) (\<lambda>fh_in. cbind (get64 a 24) (\<lambda>fh_out.
     if \<not> has Op_copy_file_range then missing
     else cbind (get64 a 8) (\<lambda>off_in. cbind (get64 a 16) (\<lambda>nodeid_out. cbind (get64 a 32) (\<lambda>off_out.
          cbind (get64 a 40) (\<lambda>len. cbind (get64 a 48) (\<lambda>flags.
          call (Call_copy_file_range nodeid_in off_in (file_info_zero\<lparr>fi_fh := fh_in\<rparr>) nodeid_out off_out
                 (file_info_zero\<lparr>fi_fh := fh_out\<rparr>) len (sint (ucast flags :: 32 word))))))))))"

definition do_lseek :: decoder where
  "do_lseek conn has nodeid a =
     cbind (get64 a 0) (\<lambda>fh.
     if \<not> has Op_lseek then missing
     else cbind (get64 a 8) (\<lambda>off. cbind (get32 a 16) (\<lambda>whence.
          call (Call_lseek nodeid off (sint whence) (file_info_zero\<lparr>fi_fh := fh\<rparr>)))))"

section \<open>The table of operations\<close>

abbreviation (input) FUSE_LOOKUP :: "32 word" where "FUSE_LOOKUP \<equiv> 1"
abbreviation (input) FUSE_FORGET :: "32 word" where "FUSE_FORGET \<equiv> 2"
abbreviation (input) FUSE_GETATTR :: "32 word" where "FUSE_GETATTR \<equiv> 3"
abbreviation (input) FUSE_SETATTR :: "32 word" where "FUSE_SETATTR \<equiv> 4"
abbreviation (input) FUSE_READLINK :: "32 word" where "FUSE_READLINK \<equiv> 5"
abbreviation (input) FUSE_SYMLINK :: "32 word" where "FUSE_SYMLINK \<equiv> 6"
abbreviation (input) FUSE_MKNOD :: "32 word" where "FUSE_MKNOD \<equiv> 8"
abbreviation (input) FUSE_MKDIR :: "32 word" where "FUSE_MKDIR \<equiv> 9"
abbreviation (input) FUSE_UNLINK :: "32 word" where "FUSE_UNLINK \<equiv> 10"
abbreviation (input) FUSE_RMDIR :: "32 word" where "FUSE_RMDIR \<equiv> 11"
abbreviation (input) FUSE_RENAME :: "32 word" where "FUSE_RENAME \<equiv> 12"
abbreviation (input) FUSE_LINK :: "32 word" where "FUSE_LINK \<equiv> 13"
abbreviation (input) FUSE_OPEN :: "32 word" where "FUSE_OPEN \<equiv> 14"
abbreviation (input) FUSE_READ :: "32 word" where "FUSE_READ \<equiv> 15"
abbreviation (input) FUSE_WRITE :: "32 word" where "FUSE_WRITE \<equiv> 16"
abbreviation (input) FUSE_STATFS :: "32 word" where "FUSE_STATFS \<equiv> 17"
abbreviation (input) FUSE_RELEASE :: "32 word" where "FUSE_RELEASE \<equiv> 18"
abbreviation (input) FUSE_FSYNC :: "32 word" where "FUSE_FSYNC \<equiv> 20"
abbreviation (input) FUSE_SETXATTR :: "32 word" where "FUSE_SETXATTR \<equiv> 21"
abbreviation (input) FUSE_GETXATTR :: "32 word" where "FUSE_GETXATTR \<equiv> 22"
abbreviation (input) FUSE_LISTXATTR :: "32 word" where "FUSE_LISTXATTR \<equiv> 23"
abbreviation (input) FUSE_REMOVEXATTR :: "32 word" where "FUSE_REMOVEXATTR \<equiv> 24"
abbreviation (input) FUSE_FLUSH :: "32 word" where "FUSE_FLUSH \<equiv> 25"
abbreviation (input) FUSE_INIT :: "32 word" where "FUSE_INIT \<equiv> 26"
abbreviation (input) FUSE_OPENDIR :: "32 word" where "FUSE_OPENDIR \<equiv> 27"
abbreviation (input) FUSE_READDIR :: "32 word" where "FUSE_READDIR \<equiv> 28"
abbreviation (input) FUSE_RELEASEDIR :: "32 word" where "FUSE_RELEASEDIR \<equiv> 29"
abbreviation (input) FUSE_FSYNCDIR :: "32 word" where "FUSE_FSYNCDIR \<equiv> 30"
abbreviation (input) FUSE_GETLK :: "32 word" where "FUSE_GETLK \<equiv> 31"
abbreviation (input) FUSE_SETLK :: "32 word" where "FUSE_SETLK \<equiv> 32"
abbreviation (input) FUSE_SETLKW :: "32 word" where "FUSE_SETLKW \<equiv> 33"
abbreviation (input) FUSE_ACCESS :: "32 word" where "FUSE_ACCESS \<equiv> 34"
abbreviation (input) FUSE_CREATE :: "32 word" where "FUSE_CREATE \<equiv> 35"
abbreviation (input) FUSE_INTERRUPT :: "32 word" where "FUSE_INTERRUPT \<equiv> 36"
abbreviation (input) FUSE_BMAP :: "32 word" where "FUSE_BMAP \<equiv> 37"
abbreviation (input) FUSE_DESTROY :: "32 word" where "FUSE_DESTROY \<equiv> 38"
abbreviation (input) FUSE_IOCTL :: "32 word" where "FUSE_IOCTL \<equiv> 39"
abbreviation (input) FUSE_POLL :: "32 word" where "FUSE_POLL \<equiv> 40"
abbreviation (input) FUSE_NOTIFY_REPLY :: "32 word" where "FUSE_NOTIFY_REPLY \<equiv> 41"
abbreviation (input) FUSE_BATCH_FORGET :: "32 word" where "FUSE_BATCH_FORGET \<equiv> 42"
abbreviation (input) FUSE_FALLOCATE :: "32 word" where "FUSE_FALLOCATE \<equiv> 43"
abbreviation (input) FUSE_READDIRPLUS :: "32 word" where "FUSE_READDIRPLUS \<equiv> 44"
abbreviation (input) FUSE_RENAME2 :: "32 word" where "FUSE_RENAME2 \<equiv> 45"
abbreviation (input) FUSE_LSEEK :: "32 word" where "FUSE_LSEEK \<equiv> 46"
abbreviation (input) FUSE_COPY_FILE_RANGE :: "32 word" where "FUSE_COPY_FILE_RANGE \<equiv> 47"
abbreviation (input) FUSE_TMPFILE :: "32 word" where "FUSE_TMPFILE \<equiv> 51"
abbreviation (input) CUSE_INIT :: "32 word" where "CUSE_INIT \<equiv> 4096"

text \<open>An entry of the table: one of the functions above, or one that works on the session itself.\<close>

datatype (plugins only: size) ll_func = Func decoder | Init | Interrupt | Destroy | Notify_reply | Cuse_init

definition fuse_ll_ops :: "(nat \<Rightarrow> bool) \<Rightarrow> 32 word \<Rightarrow> ll_func option" where
  "fuse_ll_ops mem = map_of
     [(FUSE_LOOKUP, Func do_lookup_ll), (FUSE_FORGET, Func do_forget_ll), (FUSE_GETATTR, Func do_getattr),
      (FUSE_SETATTR, Func do_setattr), (FUSE_READLINK, Func do_readlink), (FUSE_SYMLINK, Func do_symlink),
      (FUSE_MKNOD, Func do_mknod), (FUSE_MKDIR, Func do_mkdir), (FUSE_UNLINK, Func do_unlink),
      (FUSE_RMDIR, Func do_rmdir), (FUSE_RENAME, Func do_rename), (FUSE_LINK, Func do_link),
      (FUSE_OPEN, Func do_open), (FUSE_READ, Func do_read), (FUSE_WRITE, Func do_write),
      (FUSE_STATFS, Func do_statfs), (FUSE_RELEASE, Func do_release), (FUSE_FSYNC, Func do_fsync),
      (FUSE_SETXATTR, Func do_setxattr), (FUSE_GETXATTR, Func do_getxattr), (FUSE_LISTXATTR, Func do_listxattr),
      (FUSE_REMOVEXATTR, Func do_removexattr), (FUSE_FLUSH, Func do_flush), (FUSE_INIT, Init),
      (FUSE_OPENDIR, Func do_opendir), (FUSE_READDIR, Func do_readdir), (FUSE_RELEASEDIR, Func do_releasedir),
      (FUSE_FSYNCDIR, Func do_fsyncdir), (FUSE_GETLK, Func do_getlk), (FUSE_SETLK, Func do_setlk),
      (FUSE_SETLKW, Func do_setlkw), (FUSE_ACCESS, Func do_access), (FUSE_CREATE, Func do_create),
      (FUSE_TMPFILE, Func do_tmpfile), (FUSE_INTERRUPT, Interrupt), (FUSE_BMAP, Func do_bmap),
      (FUSE_IOCTL, Func do_ioctl), (FUSE_POLL, Func (do_poll mem)), (FUSE_FALLOCATE, Func do_fallocate),
      (FUSE_DESTROY, Destroy), (FUSE_NOTIFY_REPLY, Notify_reply),
      (FUSE_BATCH_FORGET, Func (do_batch_forget mem)), (FUSE_READDIRPLUS, Func do_readdirplus),
      (FUSE_RENAME2, Func do_rename2), (FUSE_COPY_FILE_RANGE, Func do_copy_file_range),
      (FUSE_LSEEK, Func do_lseek), (CUSE_INIT, Cuse_init)]"

end
