(* ===== verification/Fuse_Reply.thy ===== *)
theory Fuse_Reply
  imports Fuse_Msg
begin

unbundle bit_operations_syntax

text \<open>
  Answers to the kernel (\<^verbatim>\<open>fuse-3.17.2/lib/fuse_lowlevel.c\<close>, \<^verbatim>\<open>fuse_reply_*\<close>): a header with the length, the error and
  the number of the request, and a structure or data that depends on the answer. For older protocols
  some structures are cut off. Fields that are not set are zero.

  A timeout is a number of nanoseconds; the rounding of the \<^verbatim>\<open>double\<close> it is in C is left out. Data are sent
  as for a connection without splicing of writes, through a block of memory when they are not in one already.
\<close>

section \<open>Structures\<close>

definition convert_stat :: "file_stat \<Rightarrow> carr" where
  "convert_stat st =
     put64 (st_ino st) @ put64 (st_size st) @ put64 (st_blocks st) @ put64 (fst (st_atim st)) @ put64 (fst (st_mtim st)) @
     put64 (fst (st_ctim st)) @ put32 (ucast (snd (st_atim st))) @ put32 (ucast (snd (st_mtim st))) @
     put32 (ucast (snd (st_ctim st))) @ put32 (st_mode st) @ put32 (ucast (st_nlink st)) @ put32 (st_uid st) @
     put32 (st_gid st) @ put32 (ucast (st_rdev st)) @ put32 (ucast (st_blksize st)) @ put32 0"

definition ULONG_MAX :: nat where "ULONG_MAX = 2 ^ 64 - 1"

definition calc_timeout_sec :: "nat \<Rightarrow> 64 word" where
  "calc_timeout_sec t = (if ULONG_MAX * 1000000000 < t then of_nat ULONG_MAX else of_nat (t div 1000000000))"

definition calc_timeout_nsec :: "nat \<Rightarrow> 32 word" where
  "calc_timeout_nsec t =
     (let f = t - unat (calc_timeout_sec t) * 1000000000 in if 999999999 \<le> f then 999999999 else of_nat f)"

definition fill_entry :: "fuse_entry_param \<Rightarrow> carr" where
  "fill_entry e =
     put64 (e_ino e) @ put64 (e_generation e) @ put64 (calc_timeout_sec (e_entry_timeout e)) @
     put64 (calc_timeout_sec (e_attr_timeout e)) @ put32 (calc_timeout_nsec (e_entry_timeout e)) @
     put32 (calc_timeout_nsec (e_attr_timeout e)) @ convert_stat (e_attr e)"

definition flag_if :: "bool \<Rightarrow> 32 word \<Rightarrow> 32 word" where "flag_if b f = (if b then f else 0)"

text \<open>The flags of an opened file, and the number of a backing file when it is positive.\<close>

definition fill_open :: "fuse_file_info \<Rightarrow> carr" where
  "fill_open fi =
     (let backed = 0 <s fi_backing_id fi;
          flags = flag_if backed 128 OR flag_if (fi_direct_io fi) 1 OR flag_if (fi_keep_cache fi) 2 OR
                  flag_if (fi_cache_readdir fi) 8 OR flag_if (fi_nonseekable fi) 4 OR flag_if (fi_noflush fi) 32 OR
                  flag_if (fi_parallel_direct_writes fi) 64
      in put64 (fi_fh fi) @ put32 flags @ put32 (if backed then fi_backing_id fi else 0))"

definition convert_statfs :: "statvfs \<Rightarrow> carr" where
  "convert_statfs st =
     put64 (f_blocks st) @ put64 (f_bfree st) @ put64 (f_bavail st) @ put64 (f_files st) @ put64 (f_ffree st) @
     put32 (ucast (f_bsize st)) @ put32 (ucast (f_namemax st)) @ put32 (ucast (f_frsize st)) @ put32 0 @
     put64 0 @ put64 0 @ put64 0"

text \<open>A record of a directory buffer, padded to a multiple of eight bytes.\<close>

definition put_dirent :: "packed \<Rightarrow> carr" where
  "put_dirent p =
     (let n = FUSE_NAME_OFFSET + length (pk_name p)
      in (case pk_entry p of None \<Rightarrow> [] | Some e \<Rightarrow> fill_entry e) @
         put64 (pk_ino p) @ put64 (pk_off p) @ put32 (of_nat (length (pk_name p))) @ put32 (pk_type p) @
         map Some (pk_name p) @ replicate (FUSE_DIRENT_ALIGN n - n) (Some NUL))"

section \<open>The payload of an answer\<close>

definition FUSE_COMPAT_ENTRY_OUT_SIZE :: nat where "FUSE_COMPAT_ENTRY_OUT_SIZE = 120"
definition FUSE_COMPAT_ATTR_OUT_SIZE :: nat where "FUSE_COMPAT_ATTR_OUT_SIZE = 96"
definition FUSE_COMPAT_STATFS_SIZE :: nat where "FUSE_COMPAT_STATFS_SIZE = 48"
definition ERANGE :: int where "ERANGE = 34"

definition entry_size :: "session_conn \<Rightarrow> nat" where
  "entry_size conn = (if proto_minor conn < 9 then FUSE_COMPAT_ENTRY_OUT_SIZE else 128)"

text \<open>\<open>Inl\<close> is an error, \<open>Inr\<close> the bytes behind the header.\<close>

definition fuse_reply_entry :: "session_conn \<Rightarrow> fuse_entry_param \<Rightarrow> int + carr" where
  "fuse_reply_entry conn e =
     (if e_ino e = 0 \<and> proto_minor conn < 4 then Inl ENOENT else Inr (take (entry_size conn) (fill_entry e)))"

definition fuse_reply_create :: "session_conn \<Rightarrow> fuse_entry_param \<Rightarrow> fuse_file_info \<Rightarrow> carr" where
  "fuse_reply_create conn e fi = take (entry_size conn) (fill_entry e) @ fill_open fi"

definition fuse_reply_attr :: "session_conn \<Rightarrow> file_stat \<Rightarrow> nat \<Rightarrow> carr" where
  "fuse_reply_attr conn attr timeout =
     take (if proto_minor conn < 9 then FUSE_COMPAT_ATTR_OUT_SIZE else 104)
       (put64 (calc_timeout_sec timeout) @ put32 (calc_timeout_nsec timeout) @ put32 0 @ convert_stat attr)"

definition fuse_reply_statfs :: "session_conn \<Rightarrow> statvfs \<Rightarrow> carr" where
  "fuse_reply_statfs conn st = take (if proto_minor conn < 4 then FUSE_COMPAT_STATFS_SIZE else 80) (convert_statfs st)"

text \<open>A reply for a lock: the end is the last byte, and a length of zero reaches to the largest offset.\<close>

definition fuse_reply_lock :: "flock \<Rightarrow> carr" where
  "fuse_reply_lock lock =
     (let locked = l_type lock \<noteq> F_UNLCK
      in put64 (if locked then l_start lock else 0) @
         put64 (if \<not> locked then 0 else if l_len lock = 0 then word_of_int OFFSET_MAX else l_start lock + l_len lock - 1) @
         put32 (ucast (l_type lock)) @ put32 (l_pid lock))"

fun payload :: "session_conn \<Rightarrow> reply \<Rightarrow> int + carr" where
  "payload conn (ReplyErr e) = Inl e"
| "payload conn (ReplyEntry e) = fuse_reply_entry conn e"
| "payload conn (ReplyAttr attr timeout) = Inr (fuse_reply_attr conn attr timeout)"
| "payload conn (ReplyReadlink name) = Inr (map Some name)"
| "payload conn (ReplyOpen fi) = Inr (fill_open fi)"
| "payload conn (ReplyCreate e fi) = Inr (fuse_reply_create conn e fi)"
| "payload conn (ReplyWrite count) = Inr (put32 (word_of_int count) @ put32 0)"
| "payload conn (ReplyStatfs st) = Inr (fuse_reply_statfs conn st)"
| "payload conn (ReplyBuf buf) = Inr buf"
| "payload conn (ReplyXattr count) = Inr (put32 (word_of_int count) @ put32 0)"
| "payload conn (ReplyLock lock) = Inr (fuse_reply_lock lock)"
| "payload conn (ReplyBmap idx) = Inr (put64 idx)"
| "payload conn (ReplyIoctl res buf) = Inr (put32 (word_of_int res) @ put32 0 @ put32 0 @ put32 0 @ buf)"
| "payload conn (ReplyPoll revents) = Inr (put32 revents @ put32 0)"
| "payload conn (ReplyLseek off) = Inr (put64 (word_of_int off))"
| "payload conn (ReplyDir recs) = Inr (concat (map put_dirent recs))"
| "payload conn (ReplyData v) = Inr []"
| "payload conn ReplyNone = Inr []"

section \<open>Sending\<close>

text \<open>The data of a read: sent from where they are when that is one block of memory, else copied into a new
  block first. A negative result of the copy, or no memory, is an error.\<close>

definition fuse_send_data ::
    "(nat \<Rightarrow> bool) \<Rightarrow> 'w sys \<Rightarrow> fuse_bufvec \<Rightarrow> 'w \<Rightarrow> cerror + (int + carr) \<times> 'w" where
  "fuse_send_data mem sys v w =
     (let len = fuse_buf_size v
      in if length (bv_buf v) = 1 \<and> bv_idx v = 0 \<and> bv_off v = 0 \<and> \<not> flagged (bv_buf v ! 0) FUSE_BUF_IS_FD
         then cbind (read_cells (fb_mem (bv_buf v ! 0)) 0 (unat len)) (\<lambda>data. Inr (Inr data, w))
         else if \<not> mem (unat len) then Inr (Inl ENOMEM, w)
         else let dst = \<lparr>bv_idx = 0, bv_off = 0, bv_buf = [\<lparr>fb_size = len, fb_flags = 0,
                           fb_mem = replicate (unat len) None, fb_fd = -1, fb_pos = 0\<rparr>]\<rparr>
              in cbind (fuse_buf_copy sys dst v 0 w) (\<lambda>(res, dst1, v1, w1).
                 if int_of_ssize res < 0 then Inr (Inl (- int_of_ssize res), w1)
                 else cbind (read_cells (fb_mem (bv_buf dst1 ! 0)) 0 (nat (int_of_ssize res))) (\<lambda>data. Inr (Inr data, w1))))"

text \<open>\<^verbatim>\<open>fuse_send_reply_iov_nofree\<close>: an error that is positive, or that the C library does not know, is sent
  as \<^verbatim>\<open>-ERANGE\<close>. \<open>known\<close> says which error numbers the library knows.\<close>

definition checked_error :: "(int \<Rightarrow> bool) \<Rightarrow> int \<Rightarrow> int" where
  "checked_error known error = (if (error \<noteq> 0 \<and> \<not> known (- error)) \<or> 0 < error then - ERANGE else error)"

definition fuse_send_msg :: "64 word \<Rightarrow> int \<Rightarrow> carr \<Rightarrow> carr" where
  "fuse_send_msg unique error body =
     put32 (of_nat (16 + length body)) @ put32 (word_of_int error) @ put64 unique @ body"

definition send_reply :: "(int \<Rightarrow> bool) \<Rightarrow> 64 word \<Rightarrow> int + carr \<Rightarrow> carr" where
  "send_reply known unique r =
     (case r of Inl e \<Rightarrow> fuse_send_msg unique (checked_error known (- e)) []
              | Inr body \<Rightarrow> fuse_send_msg unique 0 body)"

text \<open>The message for an answer, if it has one.\<close>

definition reply_msg ::
    "(nat \<Rightarrow> bool) \<Rightarrow> (int \<Rightarrow> bool) \<Rightarrow> 'w sys \<Rightarrow> session_conn \<Rightarrow> 64 word \<Rightarrow> reply \<Rightarrow> 'w \<Rightarrow> cerror + carr list \<times> 'w" where
  "reply_msg mem known sys conn unique r w =
     (case r of
        ReplyNone \<Rightarrow> Inr ([], w)
      | ReplyData v \<Rightarrow> cbind (fuse_send_data mem sys v w) (\<lambda>(d, w1). Inr ([send_reply known unique d], w1))
      | _ \<Rightarrow> Inr ([send_reply known unique (payload conn r)], w))"

end
