(* ===== verification/Fuse_Init.thy ===== *)
theory Fuse_Init
  imports Fuse_Reply
begin

unbundle bit_operations_syntax

text \<open>
  The start of a connection (\<^verbatim>\<open>fuse-3.17.2/lib/fuse_lowlevel.c\<close>, \<^verbatim>\<open>do_init\<close>): kernel and library agree on a
  version and on sizes, the kernel says what it can do, the file system says what it wants, and the
  answer asks for the intersection.
\<close>

section \<open>Sessions\<close>

text \<open>A request that is being worked on. It is known by its address; an interrupt also has the number of the
  request it is for.\<close>

record fuse_req =
  r_addr :: nat
  r_unique :: "64 word"
  r_target :: "64 word"
  r_interrupted :: bool
  r_uid :: "32 word"
  r_gid :: "32 word"
  r_pid :: "32 word"
  r_umask :: "32 word"

text \<open>The session of a file system, which has no \<^verbatim>\<open>cuse_data\<close>. \<open>se_max_read\<close> is the size given as mount option;
  a pending retrieval is its number and the file system's cookie.\<close>

record session =
  se_deny_others :: bool
  se_has :: "ll_op \<Rightarrow> bool"
  se_got_init :: bool
  se_got_destroy :: bool
  se_owner :: "32 word"
  se_conn :: session_conn
  se_fresh :: nat
  se_list :: "fuse_req list"
  se_interrupts :: "fuse_req list"
  se_notify_ctr :: "64 word"
  se_notify_list :: "(64 word \<times> 64 word) list"
  se_bufsize :: "64 word"
  se_error :: int
  se_exited :: bool
  se_buf_reallocable :: bool
  se_max_read :: "32 word"

section \<open>Flags\<close>

text \<open>The flags of the kernel and the capabilities of the library are numbered differently.\<close>

definition FUSE_INIT_EXT :: "64 word" where "FUSE_INIT_EXT = 0x40000000"
definition FUSE_MAX_PAGES :: "64 word" where "FUSE_MAX_PAGES = 0x400000"
definition FUSE_BIG_WRITES :: "64 word" where "FUSE_BIG_WRITES = 0x20"
definition FUSE_HAS_EXPIRE_ONLY :: "64 word" where "FUSE_HAS_EXPIRE_ONLY = 0x800000000"
definition FUSE_PASSTHROUGH :: "64 word" where "FUSE_PASSTHROUGH = 0x2000000000"
definition FUSE_CAP_EXPIRE_ONLY :: "64 word" where "FUSE_CAP_EXPIRE_ONLY = 0x4000000"
definition FUSE_CAP_PASSTHROUGH :: "64 word" where "FUSE_CAP_PASSTHROUGH = 0x20000000"
definition FUSE_CAP_SPLICE_WRITE :: "64 word" where "FUSE_CAP_SPLICE_WRITE = 0x80"
definition FUSE_CAP_SPLICE_MOVE :: "64 word" where "FUSE_CAP_SPLICE_MOVE = 0x100"
definition FUSE_CAP_AUTO_INVAL_DATA :: "64 word" where "FUSE_CAP_AUTO_INVAL_DATA = 0x1000"
definition FUSE_CAP_ASYNC_DIO :: "64 word" where "FUSE_CAP_ASYNC_DIO = 0x8000"
definition FUSE_CAP_ATOMIC_O_TRUNC :: "64 word" where "FUSE_CAP_ATOMIC_O_TRUNC = 8"
definition FUSE_CAP_READDIRPLUS :: "64 word" where "FUSE_CAP_READDIRPLUS = 0x2000"
definition FUSE_CAP_READDIRPLUS_AUTO :: "64 word" where "FUSE_CAP_READDIRPLUS_AUTO = 0x4000"

text \<open>Kernel flag and capability: asynchronous reads, record locks, truncation on open, export, no mask, whole-file
  locks, invalidation, directory listing with attributes and its automatic form, asynchronous direct
  access, write-back cache, parallel directory operations, access control lists, removal of privileges in two
  forms, cached links, explicit invalidation, extended \<^verbatim>\<open>setxattr\<close>, mapping with direct access, no export.\<close>

definition flag_table :: "(64 word \<times> 64 word) list" where
  "flag_table =
     [(0x1, FUSE_CAP_ASYNC_READ), (0x2, FUSE_CAP_POSIX_LOCKS), (0x8, FUSE_CAP_ATOMIC_O_TRUNC),
      (0x10, FUSE_CAP_EXPORT_SUPPORT), (0x40, 0x40), (0x400, FUSE_CAP_FLOCK_LOCKS), (0x1000, FUSE_CAP_AUTO_INVAL_DATA),
      (0x2000, FUSE_CAP_READDIRPLUS), (0x4000, FUSE_CAP_READDIRPLUS_AUTO), (0x8000, FUSE_CAP_ASYNC_DIO),
      (0x10000, 0x10000), (0x40000, 0x40000), (0x100000, 0x80000), (0x80000, 0x100000), (0x10000000, 0x200000),
      (0x800000, 0x800000), (0x2000000, 0x2000000), (0x20000000, FUSE_CAP_SETXATTR_EXT), (0x1000000000, 0x10000000),
      (0x4000000000, 0x40000000)]"

text \<open>Capabilities that only the kernel announces: that a missing \<^verbatim>\<open>open\<close> or \<^verbatim>\<open>opendir\<close> is fine.\<close>

definition kernel_only :: "(64 word \<times> 64 word) list" where
  "kernel_only = [(0x20000, FUSE_CAP_NO_OPEN_SUPPORT), (0x1000000, FUSE_CAP_NO_OPENDIR_SUPPORT)]"

fun translate :: "(64 word \<times> 64 word) list \<Rightarrow> 64 word \<Rightarrow> 64 word" where
  "translate [] w = 0"
| "translate ((a, b) # t) w = (if w AND a \<noteq> 0 then b else 0) OR translate t w"

text \<open>What the kernel can do, from its flags and its minor version.\<close>

definition capable_of :: "32 word \<Rightarrow> 64 word \<Rightarrow> 64 word" where
  "capable_of minor flags =
     (if 6 \<le> minor
      then translate (flag_table @ kernel_only @ [(FUSE_PASSTHROUGH, FUSE_CAP_PASSTHROUGH)]) flags OR
           (if 38 \<le> minor \<or> flags AND FUSE_HAS_EXPIRE_ONLY \<noteq> 0 then FUSE_CAP_EXPIRE_ONLY else 0)
      else 0) OR
     (if 14 \<le> minor then FUSE_CAP_SPLICE_WRITE OR FUSE_CAP_SPLICE_MOVE OR FUSE_CAP_SPLICE_READ else 0) OR
     (if 18 \<le> minor then FUSE_CAP_IOCTL_DIR else 0)"

definition set_default :: "bool \<Rightarrow> 64 word \<Rightarrow> session_conn \<Rightarrow> session_conn" where
  "set_default b cap conn = (if b then snd (fuse_set_feature_flag conn cap) else conn)"

definition default_wants :: "(ll_op \<Rightarrow> bool) \<Rightarrow> session_conn \<Rightarrow> session_conn" where
  "default_wants has conn =
     set_default (has Op_readdirplus \<and> has Op_readdir) FUSE_CAP_READDIRPLUS_AUTO
       (set_default (has Op_readdirplus) FUSE_CAP_READDIRPLUS
         (set_default (has Op_flock) FUSE_CAP_FLOCK_LOCKS
           (set_default (has Op_getlk \<and> has Op_setlk) FUSE_CAP_POSIX_LOCKS
             (set_default (has Op_write_buf) FUSE_CAP_SPLICE_READ
               (set_default True FUSE_CAP_ATOMIC_O_TRUNC (set_default True FUSE_CAP_IOCTL_DIR
                 (set_default True FUSE_CAP_ASYNC_DIO (set_default True FUSE_CAP_AUTO_INVAL_DATA
                   (set_default True FUSE_CAP_ASYNC_READ conn)))))))))"

definition want_flags_valid :: "64 word \<Rightarrow> 64 word \<Rightarrow> bool" where
  "want_flags_valid cap wanted \<longleftrightarrow> wanted AND NOT cap = 0"

section \<open>The request\<close>

definition EPROTO :: int where "EPROTO = 71"
definition FUSE_MIN_READ_BUFFER :: "64 word" where "FUSE_MIN_READ_BUFFER = 8192"
definition FUSE_DEFAULT_MAX_PAGES_PER_REQ :: "64 word" where "FUSE_DEFAULT_MAX_PAGES_PER_REQ = 32"
definition FUSE_BUFFER_HEADER_SIZE :: "64 word" where "FUSE_BUFFER_HEADER_SIZE = 0x1000"
definition FUSE_COMPAT_INIT_OUT_SIZE :: nat where "FUSE_COMPAT_INIT_OUT_SIZE = 8"
definition FUSE_COMPAT_22_INIT_OUT_SIZE :: nat where "FUSE_COMPAT_22_INIT_OUT_SIZE = 24"

text \<open>The call of the file system's \<^verbatim>\<open>init\<close>: it gets what is possible and what is wanted by default, also in the
  older 32-bit fields, and a change of the older field is taken over. \<open>None\<close>: both fields were changed.\<close>

definition ask_init ::
    "(session_conn \<Rightarrow> 'l \<Rightarrow> cerror + session_conn \<times> 'l) \<Rightarrow> session_conn \<Rightarrow> 'l \<Rightarrow>
       cerror + (session_conn option \<times> session_conn) \<times> 'l" where
  "ask_init initf conn l =
     (let conn0 = conn\<lparr>capable := ucast (capable_ext conn), want := ucast (want_ext conn)\<rparr>
      in cbind (initf conn0 l) (\<lambda>(conn1, l1).
         case convert_to_conn_want_ext (fuse_conn_info.truncate conn1) (want_ext conn) (ucast (want_ext conn)) of
           (rc, c) \<Rightarrow>
             let conn2 = conn1\<lparr>want_ext := want_ext c, want := want c\<rparr>
             in Inr ((if rc \<noteq> 0 then None else Some conn2, conn2), l1)))"

text \<open>The sizes: a buffer too small for the kernel is enlarged, and the largest write leaves room for the
  header.\<close>

definition agree_sizes :: "session_conn \<Rightarrow> 64 word \<Rightarrow> bool \<Rightarrow> session_conn" where
  "agree_sizes conn bufsize realloc =
     (let b1 = (if bufsize < FUSE_MIN_READ_BUFFER then FUSE_MIN_READ_BUFFER else bufsize);
          b2 = (if realloc then 0xffffffff else b1)
      in conn\<lparr>max_write := ucast (min (ucast (max_write conn)) (b2 - FUSE_BUFFER_HEADER_SIZE))\<rparr>)"

definition agree_background :: "session_conn \<Rightarrow> session_conn" where
  "agree_background conn =
     (if proto_minor conn < 13 then conn
      else let mb = (if 0x10000 \<le> max_background conn then 0xffff else max_background conn);
               ct = (if mb < congestion_threshold conn then mb else congestion_threshold conn)
           in conn\<lparr>max_background := mb, congestion_threshold := (if ct = 0 then mb * 3 div 4 else ct)\<rparr>)"

text \<open>The flags of the answer: what is wanted, in the kernel's numbering, and large writes.\<close>

definition init_flags :: "session_conn \<Rightarrow> 64 word \<Rightarrow> 32 word \<Rightarrow> 64 word" where
  "init_flags conn inflags flags0 =
     (if ucast flags0 AND FUSE_MAX_PAGES \<noteq> 0 then FUSE_MAX_PAGES else 0) OR FUSE_BIG_WRITES OR
     translate (map prod.swap flag_table @ [(FUSE_CAP_PASSTHROUGH, FUSE_PASSTHROUGH)]) (want_ext conn) OR
     (if inflags AND FUSE_INIT_EXT \<noteq> 0 then FUSE_INIT_EXT else 0)"

definition init_out :: "32 word \<Rightarrow> session_conn \<Rightarrow> 64 word \<Rightarrow> 32 word \<Rightarrow> 64 word \<Rightarrow> carr" where
  "init_out page conn inflags flags0 outflags =
     put32 7 @ put32 40 @ put32 (max_readahead conn) @ put32 (ucast outflags) @
     put16 (if 13 \<le> proto_minor conn then ucast (max_background conn) else 0) @
     put16 (if 13 \<le> proto_minor conn then ucast (congestion_threshold conn) else 0) @
     put32 (max_write conn) @
     put32 (if 23 \<le> proto_minor conn then time_gran conn else 0) @
     put16 (if ucast flags0 AND FUSE_MAX_PAGES \<noteq> 0 then ucast ((max_write conn - 1) div page + 1) else 0) @
     put16 0 @
     put32 (if inflags AND FUSE_INIT_EXT \<noteq> 0 then ucast (drop_bit 32 outflags) else 0) @
     put32 (if want_ext conn AND FUSE_CAP_PASSTHROUGH \<noteq> 0 then max_backing_stack_depth conn + 1 else 0) @
     put32 0 @ put32 0 @ put32 0 @ put32 0 @ put32 0 @ put32 0"

text \<open>The session gives up when the file system asks for what the kernel cannot do, or when the size of reads
  does not match the mount option.\<close>

definition refuse_init :: "session \<Rightarrow> session" where
  "refuse_init se = se\<lparr>se_error := - EPROTO, se_exited := True\<rparr>"

text \<open>From the check of what is wanted to the answer; \<open>minor\<close>, \<open>bufsize\<close> and \<open>realloc\<close> are as the first half left
  them.\<close>

definition answer_init ::
    "32 word \<Rightarrow> session \<Rightarrow> carr \<Rightarrow> 32 word \<Rightarrow> 64 word \<Rightarrow> 64 word \<Rightarrow> bool \<Rightarrow> session_conn option \<Rightarrow> cerror + (int + carr) \<times> session" where
  "answer_init page se a minor inflags bufsize realloc agreed =
     (case agreed of
        None \<Rightarrow> Inr (Inl EPROTO, refuse_init se)
      | Some conn \<Rightarrow>
          if \<not> want_flags_valid (capable_ext conn) (want_ext conn) \<or> max_read conn \<noteq> se_max_read se
          then Inr (Inl EPROTO, refuse_init se)
          else cbind (get32 a 12) (\<lambda>flags0.
               let conn1 = agree_background (agree_sizes conn bufsize realloc);
                   out = init_out page conn1 inflags flags0 (init_flags conn1 inflags flags0)
               in Inr (Inr (if minor < 5 then take FUSE_COMPAT_INIT_OUT_SIZE out
                            else if minor < 23 then take FUSE_COMPAT_22_INIT_OUT_SIZE out else out),
                       se\<lparr>se_conn := conn1, se_bufsize := ucast (max_write conn1) + FUSE_BUFFER_HEADER_SIZE\<rparr>)))"

text \<open>The flags of the kernel, with the upper half when it says that there is one.\<close>

definition kernel_flags :: "carr \<Rightarrow> 32 word \<Rightarrow> cerror + 64 word" where
  "kernel_flags a minor =
     (if minor < 6 then Inr 0
      else cbind (get32 a 12) (\<lambda>flags1.
           if (ucast flags1 :: 64 word) AND FUSE_INIT_EXT = 0 then Inr (ucast flags1)
           else cbind (get32 a 16) (\<lambda>flags2. Inr (ucast flags1 OR push_bit 32 (ucast flags2)))))"

text \<open>The connection as the kernel's flags make it, before the file system is asked.\<close>

definition offered_conn :: "(ll_op \<Rightarrow> bool) \<Rightarrow> session_conn \<Rightarrow> 32 word \<Rightarrow> 32 word \<Rightarrow> 64 word \<Rightarrow> session_conn" where
  "offered_conn has conn minor readahead inflags =
     default_wants has (conn\<lparr>max_readahead := (if minor < 6 then 0 else min readahead (max_readahead conn)),
       capable_ext := capable_of minor inflags\<rparr>)\<lparr>time_gran := 1\<rparr>"

definition do_init ::
    "32 word \<Rightarrow> (session_conn \<Rightarrow> 'l \<Rightarrow> cerror + session_conn \<times> 'l) \<Rightarrow> session \<Rightarrow> carr \<Rightarrow> 'l \<Rightarrow>
       cerror + (int + carr) \<times> session \<times> 'l" where
  "do_init page initf se a l =
     cbind (get32 a 0) (\<lambda>major. cbind (get32 a 4) (\<lambda>minor.
       let conn0 = (se_conn se)\<lparr>proto_major := major, proto_minor := minor, capable_ext := 0, want_ext := 0\<rparr>
       in if major < 7 then Inr (Inl EPROTO, se\<lparr>se_conn := conn0\<rparr>, l)
          else if 7 < major then Inr (Inr (put32 7 @ put32 40 @ replicate 56 (Some NUL)), se\<lparr>se_conn := conn0\<rparr>, l)
          else
            cbind (if minor < 6 then Inr 0 else get32 a 8) (\<lambda>readahead.
            cbind (kernel_flags a minor) (\<lambda>inflags.
              let paged = 6 \<le> minor \<and> inflags AND FUSE_MAX_PAGES = 0;
                  max_bufsize = FUSE_DEFAULT_MAX_PAGES_PER_REQ * ucast page + FUSE_BUFFER_HEADER_SIZE;
                  bufsize = (if paged \<and> max_bufsize < se_bufsize se then max_bufsize else se_bufsize se);
                  realloc = (se_buf_reallocable se \<and> \<not> paged);
                  conn1 = offered_conn (se_has se) conn0 minor readahead inflags
              in cbind (if se_has se Op_init then ask_init initf conn1 l else Inr ((Some conn1, conn1), l))
                   (\<lambda>((agreed, conn2), l1).
                 cbind (answer_init page (se\<lparr>se_got_init := True, se_conn := conn2\<rparr>) a minor inflags bufsize realloc agreed)
                   (\<lambda>(r, se1). Inr (r, se1, l1)))))))"

end
