(* ===== verification/Fuse_Session.thy ===== *)
theory Fuse_Session
  imports Fuse_Init
begin

unbundle bit_operations_syntax

text \<open>
  A session (\<^verbatim>\<open>fuse-3.17.2/lib/fuse_lowlevel.c\<close>): it takes messages one by one, turns away those that are
  not allowed, keeps the requests that are being worked on and the interrupts that came too early,
  calls the operations, and answers.

  What the session needs from outside is in \<open>ll_env\<close>: the allocator, the error numbers the C library knows, the
  system calls on the pipe, the page size, and the operations, which work on a state \<open>'l\<close>. A
  message comes in memory, or in a pipe from which first the header and then the rest is copied. Closing
  the pipe after an error, the mutexes, the channel of a request, the function a request can have for its interruption and
  debug output are left out; a message once sent has arrived.
\<close>

record 'l ll_env =
  ll_mem :: "nat \<Rightarrow> bool"
  ll_known :: "int \<Rightarrow> bool"
  ll_sys :: "'l sys"
  ll_page :: "32 word"
  ll_run :: "fuse_req \<Rightarrow> ll_call \<Rightarrow> 'l \<Rightarrow> cerror + outcome \<times> 'l"
  ll_init :: "session_conn \<Rightarrow> 'l \<Rightarrow> cerror + session_conn \<times> 'l"
  ll_destroy :: "'l \<Rightarrow> cerror + 'l"

section \<open>Requests and interrupts\<close>

text \<open>The request is taken off the list when its answer has been sent, unless interrupts are off: then requests are
  not put there.\<close>

definition fuse_free_req :: "fuse_req \<Rightarrow> session \<Rightarrow> session" where
  "fuse_free_req req se =
     (if no_interrupt (se_conn se) then se else se\<lparr>se_list := filter (\<lambda>r. r_addr r \<noteq> r_addr req) (se_list se)\<rparr>)"

text \<open>The first request with the number is marked; \<open>None\<close> when there is none.\<close>

fun mark_interrupted :: "64 word \<Rightarrow> fuse_req list \<Rightarrow> fuse_req list option" where
  "mark_interrupted u [] = None"
| "mark_interrupted u (r # rs) =
     (if r_unique r = u then Some (r\<lparr>r_interrupted := True\<rparr> # rs) else map_option ((#) r) (mark_interrupted u rs))"

definition find_interrupted :: "session \<Rightarrow> fuse_req \<Rightarrow> bool \<times> session" where
  "find_interrupted se req =
     (case mark_interrupted (r_target req) (se_list se) of
        Some rs \<Rightarrow> (True, se\<lparr>se_list := rs\<rparr>)
      | None \<Rightarrow> (\<exists>r \<in> set (se_interrupts se). r_target r = r_target req, se))"

text \<open>An interrupt for a request that is not there yet is kept.\<close>

definition do_interrupt :: "session \<Rightarrow> fuse_req \<Rightarrow> carr \<Rightarrow> cerror + session" where
  "do_interrupt se req a =
     cbind (get64 a 0) (\<lambda>u.
       let req1 = req\<lparr>r_target := u\<rparr>
       in case find_interrupted se req1 of
            (True, se1) \<Rightarrow> Inr se1
          | (False, se1) \<Rightarrow> Inr (se1\<lparr>se_interrupts := se_interrupts se1 @ [req1]\<rparr>))"

text \<open>A new request meets the interrupts that are waiting: its own is taken off and marks it; otherwise the
  oldest is taken off to be answered, so that the kernel sends it again.\<close>

fun take_interrupt :: "64 word \<Rightarrow> fuse_req list \<Rightarrow> fuse_req list option" where
  "take_interrupt u [] = None"
| "take_interrupt u (r # rs) = (if r_target r = u then Some rs else map_option ((#) r) (take_interrupt u rs))"

definition check_interrupt :: "session \<Rightarrow> fuse_req \<Rightarrow> fuse_req option \<times> fuse_req \<times> session" where
  "check_interrupt se req =
     (case take_interrupt (r_unique req) (se_interrupts se) of
        Some rs \<Rightarrow> (None, req\<lparr>r_interrupted := True\<rparr>, se\<lparr>se_interrupts := rs\<rparr>)
      | None \<Rightarrow> (case se_interrupts se of
                   [] \<Rightarrow> (None, req, se)
                 | r # rs \<Rightarrow> (Some r, req, se\<lparr>se_interrupts := rs\<rparr>)))"

section \<open>Answering\<close>

definition answer_err :: "'l ll_env \<Rightarrow> fuse_req \<Rightarrow> int \<Rightarrow> carr" where
  "answer_err env req e = send_reply (ll_known env) (r_unique req) (Inl e)"

definition finish ::
    "'l ll_env \<Rightarrow> fuse_req \<Rightarrow> reply \<Rightarrow> session \<Rightarrow> 'l \<Rightarrow> cerror + carr list \<times> session \<times> 'l" where
  "finish env req r se l =
     cbind (reply_msg (ll_mem env) (ll_known env) (ll_sys env) (se_conn se) (r_unique req) r l) (\<lambda>(msgs, l1).
     Inr (msgs, fuse_free_req req se, l1))"

text \<open>Forgetting one by one, each with a request of its own that has no answer.\<close>

fun forget_each ::
    "'l ll_env \<Rightarrow> fuse_req \<Rightarrow> (fuse_ino_t \<times> 64 word) list \<Rightarrow> 'l \<Rightarrow> cerror + 'l" where
  "forget_each env req [] l = Inr l"
| "forget_each env req ((ino, n) # fs) l =
     cbind (ll_run env req (Call_forget ino n) l) (\<lambda>(out, l1). forget_each env req fs l1)"

text \<open>The result of an action: the messages sent, a place in a queue if the request has to wait, and the new
  states.\<close>

definition act ::
    "'l ll_env \<Rightarrow> fuse_req \<Rightarrow> ll_action \<Rightarrow> session \<Rightarrow> 'l \<Rightarrow>
       cerror + carr list \<times> lock_queue_element option \<times> session \<times> 'l" where
  "act env req action se l =
     (case action of
        Call u c \<Rightarrow>
          cbind (ll_run env (case u of None \<Rightarrow> req | Some m \<Rightarrow> req\<lparr>r_umask := m\<rparr>) c l) (\<lambda>(out, l1).
            case out of
              Replied r \<Rightarrow> cbind (finish env req r se l1) (\<lambda>(msgs, se1, l2). Inr (msgs, None, se1, l2))
            | Wait qe \<Rightarrow> Inr ([], Some qe, se, l1))
      | Forget_each fs \<Rightarrow>
          cbind (forget_each env req fs l) (\<lambda>l1. Inr ([], None, fuse_free_req req se, l1))
      | Answer_now r \<Rightarrow> cbind (finish env req r se l) (\<lambda>(msgs, se1, l1). Inr (msgs, None, se1, l1)))"

section \<open>Retrieved data\<close>

definition fuse_ll_retrieve_reply ::
    "(ll_op \<Rightarrow> bool) \<Rightarrow> 64 word \<Rightarrow> fuse_ino_t \<Rightarrow> carr \<Rightarrow> fuse_buf \<Rightarrow> cerror + ll_action" where
  "fuse_ll_retrieve_reply has cookie ino a ibuf =
     (let b = ibuf\<lparr>fb_mem := (if flagged ibuf FUSE_BUF_IS_FD then fb_mem ibuf else drop 40 a), fb_size := fb_size ibuf - 80\<rparr>
      in cbind (get32 a 16) (\<lambda>sz.
         if fb_size b < ucast sz \<or> \<not> has Op_retrieve_reply then Inr (Answer_now ReplyNone)
         else cbind (get64 a 8) (\<lambda>off.
              Inr (Call None (Call_retrieve_reply cookie ino off
                     \<lparr>bv_idx = 0, bv_off = 0, bv_buf = [b\<lparr>fb_size := ucast sz\<rparr>]\<rparr>)))))"

text \<open>A reply that nobody waits for is dropped; its request stays on the list.\<close>

definition do_notify_reply ::
    "'l ll_env \<Rightarrow> fuse_req \<Rightarrow> fuse_ino_t \<Rightarrow> carr \<Rightarrow> fuse_buf \<Rightarrow> session \<Rightarrow> 'l \<Rightarrow>
       cerror + carr list \<times> lock_queue_element option \<times> session \<times> 'l" where
  "do_notify_reply env req ino a ibuf se l =
     (case map_of (se_notify_list se) (r_unique req) of
        None \<Rightarrow> Inr ([], None, se, l)
      | Some cookie \<Rightarrow>
          let se1 = se\<lparr>se_notify_list := remove1 (r_unique req, cookie) (se_notify_list se)\<rparr>
          in cbind (fuse_ll_retrieve_reply (se_has se1) cookie ino a ibuf) (\<lambda>action. act env req action se1 l))"

section \<open>Notifications\<close>

text \<open>Messages that the file system sends on its own account: their number is zero, and the field for the error
  holds the kind. The result is the return value and what is sent.\<close>

definition FUSE_NOTIFY_POLL :: int where "FUSE_NOTIFY_POLL = 1"
definition FUSE_NOTIFY_INVAL_INODE :: int where "FUSE_NOTIFY_INVAL_INODE = 2"
definition FUSE_NOTIFY_INVAL_ENTRY :: int where "FUSE_NOTIFY_INVAL_ENTRY = 3"
definition FUSE_NOTIFY_STORE :: int where "FUSE_NOTIFY_STORE = 4"
definition FUSE_NOTIFY_RETRIEVE :: int where "FUSE_NOTIFY_RETRIEVE = 5"
definition FUSE_NOTIFY_DELETE :: int where "FUSE_NOTIFY_DELETE = 6"
definition ENOTCONN :: int where "ENOTCONN = 107"

definition send_notify :: "session \<Rightarrow> int \<Rightarrow> carr \<Rightarrow> int \<times> carr list" where
  "send_notify se code p = (if \<not> se_got_init se then (- ENOTCONN, []) else (0, [fuse_send_msg 0 code p]))"

definition fuse_lowlevel_notify_poll :: "session \<Rightarrow> 64 word option \<Rightarrow> int \<times> carr list" where
  "fuse_lowlevel_notify_poll se ph =
     (case ph of None \<Rightarrow> (0, []) | Some kh \<Rightarrow> send_notify se FUSE_NOTIFY_POLL (put64 kh))"

definition fuse_lowlevel_notify_inval_inode :: "session \<Rightarrow> fuse_ino_t \<Rightarrow> off_t \<Rightarrow> off_t \<Rightarrow> int \<times> carr list" where
  "fuse_lowlevel_notify_inval_inode se ino off len =
     (if proto_minor (se_conn se) < 12 then (- ENOSYS, [])
      else send_notify se FUSE_NOTIFY_INVAL_INODE (put64 ino @ put64 off @ put64 len))"

text \<open>The name is sent with its terminator; \<open>expire\<close> is the flag \<^verbatim>\<open>FUSE_LL_EXPIRE_ONLY\<close>.\<close>

definition fuse_lowlevel_notify_entry :: "session \<Rightarrow> fuse_ino_t \<Rightarrow> string \<Rightarrow> bool \<Rightarrow> int \<times> carr list" where
  "fuse_lowlevel_notify_entry se parent name expire =
     (if proto_minor (se_conn se) < 12 then (- ENOSYS, [])
      else send_notify se FUSE_NOTIFY_INVAL_ENTRY
             (put64 parent @ put32 (of_nat (length name)) @ put32 (if expire then 1 else 0) @ put_str name))"

definition fuse_lowlevel_notify_inval_entry :: "session \<Rightarrow> fuse_ino_t \<Rightarrow> string \<Rightarrow> int \<times> carr list" where
  "fuse_lowlevel_notify_inval_entry se parent name = fuse_lowlevel_notify_entry se parent name False"

definition fuse_lowlevel_notify_expire_entry :: "session \<Rightarrow> fuse_ino_t \<Rightarrow> string \<Rightarrow> int \<times> carr list" where
  "fuse_lowlevel_notify_expire_entry se parent name =
     (if capable_ext (se_conn se) AND FUSE_CAP_EXPIRE_ONLY = 0 then (- ENOSYS, [])
      else fuse_lowlevel_notify_entry se parent name True)"

definition fuse_lowlevel_notify_delete :: "session \<Rightarrow> fuse_ino_t \<Rightarrow> fuse_ino_t \<Rightarrow> string \<Rightarrow> int \<times> carr list" where
  "fuse_lowlevel_notify_delete se parent child name =
     (if proto_minor (se_conn se) < 18 then (- ENOSYS, [])
      else send_notify se FUSE_NOTIFY_DELETE
             (put64 parent @ put64 child @ put32 (of_nat (length name)) @ put32 0 @ put_str name))"

text \<open>Data for the kernel's cache; this notification does not ask whether the connection has started.\<close>

definition fuse_lowlevel_notify_store ::
    "'l ll_env \<Rightarrow> session \<Rightarrow> fuse_ino_t \<Rightarrow> off_t \<Rightarrow> fuse_bufvec \<Rightarrow> 'l \<Rightarrow> cerror + (int \<times> carr list) \<times> 'l" where
  "fuse_lowlevel_notify_store env se ino off v l =
     (if proto_minor (se_conn se) < 15 then Inr ((- ENOSYS, []), l)
      else cbind (fuse_send_data (ll_mem env) (ll_sys env) v l) (\<lambda>(d, l1).
           case d of
             Inl e \<Rightarrow> Inr ((if 0 < e then - e else e, []), l1)
           | Inr data \<Rightarrow>
               Inr ((0, [fuse_send_msg 0 FUSE_NOTIFY_STORE
                           (put64 ino @ put64 off @ put32 (ucast (fuse_buf_size v)) @ put32 0 @ data)]), l1)))"

definition fuse_lowlevel_notify_retrieve ::
    "'l ll_env \<Rightarrow> session \<Rightarrow> fuse_ino_t \<Rightarrow> size_t \<Rightarrow> off_t \<Rightarrow> 64 word \<Rightarrow> int \<times> carr list \<times> session" where
  "fuse_lowlevel_notify_retrieve env se ino sz off cookie =
     (if proto_minor (se_conn se) < 15 then (- ENOSYS, [], se)
      else if \<not> ll_mem env 40 then (- ENOMEM, [], se)
      else let u = se_notify_ctr se; se1 = se\<lparr>se_notify_ctr := u + 1\<rparr>
           in case send_notify se1 FUSE_NOTIFY_RETRIEVE (put64 u @ put64 ino @ put64 off @ put32 (ucast sz) @ put32 0) of
                (err, msgs) \<Rightarrow> (err, msgs, if err \<noteq> 0 then se1 else se1\<lparr>se_notify_list := se_notify_list se1 @ [(u, cookie)]\<rparr>))"

section \<open>A message\<close>

text \<open>The operations a user other than the owner may use with \<^verbatim>\<open>allow_root\<close>: those on files already open.\<close>

definition on_open_files :: "32 word \<Rightarrow> bool" where
  "on_open_files opc \<longleftrightarrow> opc \<in> set [FUSE_INIT, FUSE_READ, FUSE_WRITE, FUSE_FSYNC, FUSE_RELEASE, FUSE_READDIR, FUSE_FSYNCDIR,
     FUSE_RELEASEDIR, FUSE_NOTIFY_REPLY, FUSE_READDIRPLUS]"

text \<open>The checks before anything else; zero when the message may go on.\<close>

definition EACCES :: int where "EACCES = 13"

definition refused :: "'l ll_env \<Rightarrow> session \<Rightarrow> 32 word \<Rightarrow> 32 word \<Rightarrow> int" where
  "refused env se opc uid =
     (if \<not> se_got_init se \<and> opc \<noteq> FUSE_INIT then EIO
      else if se_got_init se \<and> (opc = FUSE_INIT \<or> opc = CUSE_INIT) then EIO
      else if se_deny_others se \<and> uid \<noteq> se_owner se \<and> uid \<noteq> 0 \<and> \<not> on_open_files opc then EACCES
      else if fuse_ll_ops (ll_mem env) opc = None then ENOSYS
      else if no_interrupt (se_conn se) \<and> opc = FUSE_INTERRUPT then ENOSYS
      else 0)"

text \<open>The request joins the list and may bring an interrupt back to the kernel.\<close>

definition enlist :: "'l ll_env \<Rightarrow> session \<Rightarrow> 32 word \<Rightarrow> fuse_req \<Rightarrow> carr list \<times> fuse_req \<times> session" where
  "enlist env se opc req =
     (if no_interrupt (se_conn se) \<or> opc = FUSE_INTERRUPT then ([], req, se)
      else case check_interrupt se req of
             (intr, req1, se1) \<Rightarrow>
               (case intr of None \<Rightarrow> [] | Some r \<Rightarrow> [answer_err env r EAGAIN], req1,
                se1\<lparr>se_list := se_list se1 @ [req1]\<rparr>))"

definition dispatch ::
    "'l ll_env \<Rightarrow> fuse_req \<Rightarrow> 32 word \<Rightarrow> fuse_ino_t \<Rightarrow> carr \<Rightarrow> fuse_buf \<Rightarrow> session \<Rightarrow> 'l \<Rightarrow>
       cerror + carr list \<times> lock_queue_element option \<times> session \<times> 'l" where
  "dispatch env req opc ino a buf se l =
     (if opc = FUSE_WRITE \<and> se_has se Op_write_buf
      then cbind (do_write_buf (se_conn se) ino a buf) (\<lambda>action. act env req action se l)
      else case fuse_ll_ops (ll_mem env) opc of
             None \<Rightarrow> Inl NullDeref
           | Some Notify_reply \<Rightarrow> do_notify_reply env req ino a buf se l
           | Some Init \<Rightarrow>
               cbind (do_init (ll_page env) (ll_init env) se a l) (\<lambda>(r, se1, l1).
               Inr ([send_reply (ll_known env) (r_unique req) r], None, fuse_free_req req se1, l1))
           | Some Interrupt \<Rightarrow> cbind (do_interrupt se req a) (\<lambda>se1. Inr ([], None, se1, l))
           | Some Destroy \<Rightarrow>
               cbind (if se_has se Op_destroy then ll_destroy env l else Inr l) (\<lambda>l1.
               Inr ([send_reply (ll_known env) (r_unique req) (Inr [])], None,
                    fuse_free_req req (se\<lparr>se_got_destroy := True, se_got_init := False\<rparr>), l1))
           | Some Cuse_init \<Rightarrow> Inl NullDeref
           | Some (Func d) \<Rightarrow> cbind (d (se_conn se) (se_has se) ino a) (\<lambda>action. act env req action se l))"

text \<open>Copying from the pipe: the result is the block and the rest of the source. A short copy is an error.\<close>

definition fuse_ll_copy_from_pipe ::
    "'w sys \<Rightarrow> nat \<Rightarrow> fuse_bufvec \<Rightarrow> 'w \<Rightarrow> cerror + (int + carr) \<times> fuse_bufvec \<times> 'w" where
  "fuse_ll_copy_from_pipe sys n src w =
     (let dst = \<lparr>bv_idx = 0, bv_off = 0, bv_buf = [\<lparr>fb_size = of_nat n, fb_flags = 0, fb_mem = replicate n None, fb_fd = -1, fb_pos = 0\<rparr>]\<rparr>
      in cbind (fuse_buf_copy sys dst src 0 w) (\<lambda>(res, dst1, src1, w1).
         if res < 0 then Inr (Inl res, src1, w1)
         else if nat res < n then Inr (Inl (-1), src1, w1)
         else Inr (Inr (fb_mem (bv_buf dst1 ! 0)), src1, w1)))"

definition write_header_size :: nat where "write_header_size = 80"

text \<open>The header and what follows it, for a message in memory or in a pipe. \<open>None\<close>: the message is lost.\<close>

definition fetch_header ::
    "'l ll_env \<Rightarrow> fuse_buf \<Rightarrow> 'l \<Rightarrow> cerror + (carr \<times> fuse_bufvec) option \<times> 'l" where
  "fetch_header env buf l =
     (let src = \<lparr>bv_idx = 0, bv_off = 0, bv_buf = [buf]\<rparr>; n = min write_header_size (unat (fb_size buf))
      in if \<not> flagged buf FUSE_BUF_IS_FD then Inr (Some (fb_mem buf, src), l)
         else if \<not> ll_mem env n then Inr (None, l)
         else cbind (fuse_ll_copy_from_pipe (ll_sys env) n src l) (\<lambda>(r, src1, l1).
              case r of Inl e \<Rightarrow> Inr (None, l1) | Inr m \<Rightarrow> Inr (Some (m, src1), l1)))"

text \<open>The rest of a message in a pipe, unless the operation takes it from there. \<open>Inl\<close> is an error number.\<close>

definition fetch_rest ::
    "'l ll_env \<Rightarrow> session \<Rightarrow> 32 word \<Rightarrow> fuse_buf \<Rightarrow> carr \<Rightarrow> fuse_bufvec \<Rightarrow> 'l \<Rightarrow> cerror + (int + carr) \<times> 'l" where
  "fetch_rest env se opc buf m src l =
     (if flagged buf FUSE_BUF_IS_FD \<and> write_header_size < unat (fb_size buf) \<and>
         (opc \<noteq> FUSE_WRITE \<or> \<not> se_has se Op_write_buf) \<and> opc \<noteq> FUSE_NOTIFY_REPLY
      then if \<not> ll_mem env (unat (fb_size buf)) then Inr (Inl ENOMEM, l)
           else cbind (fuse_ll_copy_from_pipe (ll_sys env) (unat (fb_size buf) - write_header_size) src l) (\<lambda>(r, src1, l1).
                Inr (case r of Inl e \<Rightarrow> Inl (- e) | Inr rest \<Rightarrow> Inr (m @ rest), l1))
      else Inr (Inr m, l))"

definition new_req :: "session \<Rightarrow> 64 word \<Rightarrow> 32 word \<Rightarrow> 32 word \<Rightarrow> 32 word \<Rightarrow> fuse_req" where
  "new_req se unique uid gid pid =
     \<lparr>r_addr = se_fresh se, r_unique = unique, r_target = 0, r_interrupted = False, r_uid = uid, r_gid = gid, r_pid = pid,
      r_umask = 0\<rparr>"

definition process_request ::
    "'l ll_env \<Rightarrow> session \<Rightarrow> fuse_buf \<Rightarrow> carr \<Rightarrow> fuse_bufvec \<Rightarrow> fuse_req \<Rightarrow> 32 word \<Rightarrow> fuse_ino_t \<Rightarrow> 'l \<Rightarrow>
       cerror + carr list \<times> lock_queue_element option \<times> session \<times> 'l" where
  "process_request env se buf m src req opc ino l =
     (let err = refused env se opc (r_uid req)
      in if err \<noteq> 0 then Inr ([answer_err env req err], None, fuse_free_req req se, l)
         else case enlist env se opc req of
                (msgs, req1, se1) \<Rightarrow>
                  cbind (fetch_rest env se1 opc buf m src l) (\<lambda>(r, l1).
                    case r of
                      Inl e \<Rightarrow> Inr (msgs @ [answer_err env req1 e], None, fuse_free_req req1 se1, l1)
                    | Inr m1 \<Rightarrow>
                        cbind (dispatch env req1 opc ino (drop 40 m1) buf se1 l1) (\<lambda>(msgs2, qe, se2, l2).
                        Inr (msgs @ msgs2, qe, se2, l2))))"

definition fuse_session_process_buf ::
    "'l ll_env \<Rightarrow> session \<Rightarrow> fuse_buf \<Rightarrow> 'l \<Rightarrow> cerror + carr list \<times> lock_queue_element option \<times> session \<times> 'l" where
  "fuse_session_process_buf env se buf l =
     cbind (fetch_header env buf l) (\<lambda>(h, l1).
       case h of
         None \<Rightarrow> Inr ([], None, se, l1)
       | Some (m, src) \<Rightarrow>
           cbind (get64 m 8) (\<lambda>unique.
           if \<not> ll_mem env 128 then Inr ([fuse_send_msg unique (- ENOMEM) []], None, se, l1)
           else cbind (get32 m 24) (\<lambda>uid. cbind (get32 m 28) (\<lambda>gid. cbind (get32 m 32) (\<lambda>pid.
                cbind (get32 m 4) (\<lambda>opc. cbind (get64 m 16) (\<lambda>ino.
                process_request env (se\<lparr>se_fresh := se_fresh se + 1\<rparr>) buf m src (new_req se unique uid gid pid) opc ino l1)))))))"

end
