(* ===== verification/Fuse_Msg_Correct.thy ===== *)
theory Fuse_Msg_Correct
  imports Fuse_Msg
begin

unbundle bit_operations_syntax

text \<open>
  The kernel's side of a message: a request with the fields of its structure, laid out byte by byte as
  \<^verbatim>\<open>fuse-3.17.2/include/fuse_kernel.h\<close> has them. Decoding the bytes gives the call the request stands for.
\<close>

section \<open>Requests\<close>

text \<open>The fields of each structure in their order, then the strings or data; fields that are padding are left out.\<close>

datatype (plugins only: size) kreq =
    K_lookup string
  | K_forget "64 word"
  | K_batch_forget "(fuse_ino_t \<times> 64 word) list"
  | K_getattr "32 word" "64 word"
  | K_setattr "32 word" "64 word" "64 word" "64 word" "64 word" "64 word" "64 word" "32 word" "32 word" "32 word"
      "32 word" "32 word" "32 word"
  | K_readlink
  | K_symlink string string
  | K_mknod "32 word" "32 word" "32 word" string
  | K_mkdir "32 word" "32 word" string
  | K_unlink string
  | K_rmdir string
  | K_rename fuse_ino_t string string
  | K_rename2 fuse_ino_t "32 word" string string
  | K_link fuse_ino_t string
  | K_open "32 word" "32 word"
  | K_read "64 word" "64 word" "32 word" "32 word" "64 word" "32 word"
  | K_write "64 word" "64 word" "32 word" "64 word" "32 word" string
  | K_statfs
  | K_release "64 word" "32 word" "32 word" "64 word"
  | K_fsync "64 word" "32 word"
  | K_setxattr "32 word" string string
  | K_getxattr "32 word" string
  | K_listxattr "32 word"
  | K_removexattr string
  | K_flush "64 word" "64 word"
  | K_opendir "32 word" "32 word"
  | K_readdir "64 word" "64 word" "32 word" "32 word" "64 word" "32 word"
  | K_readdirplus "64 word" "64 word" "32 word" "32 word" "64 word" "32 word"
  | K_releasedir "64 word" "32 word" "32 word" "64 word"
  | K_fsyncdir "64 word" "32 word"
  | K_getlk "64 word" "64 word" "64 word" "64 word" "32 word" "32 word" "32 word"
  | K_setlk bool "64 word" "64 word" "64 word" "64 word" "32 word" "32 word" "32 word"
  | K_access "32 word"
  | K_create "32 word" "32 word" "32 word" "32 word" string
  | K_bmap "64 word" "32 word"
  | K_ioctl "64 word" "32 word" "32 word" "64 word" string "32 word"
  | K_poll "64 word" "64 word" "32 word" "32 word"
  | K_fallocate "64 word" "64 word" "64 word" "32 word"
  | K_lseek "64 word" "64 word" "32 word"
  | K_copy_file_range "64 word" "64 word" "64 word" "64 word" "64 word" "64 word" "64 word"

fun opcode :: "kreq \<Rightarrow> 32 word" where
  "opcode (K_lookup _) = FUSE_LOOKUP"
| "opcode (K_forget _) = FUSE_FORGET"
| "opcode (K_batch_forget _) = FUSE_BATCH_FORGET"
| "opcode (K_getattr _ _) = FUSE_GETATTR"
| "opcode (K_setattr _ _ _ _ _ _ _ _ _ _ _ _ _) = FUSE_SETATTR"
| "opcode K_readlink = FUSE_READLINK"
| "opcode (K_symlink _ _) = FUSE_SYMLINK"
| "opcode (K_mknod _ _ _ _) = FUSE_MKNOD"
| "opcode (K_mkdir _ _ _) = FUSE_MKDIR"
| "opcode (K_unlink _) = FUSE_UNLINK"
| "opcode (K_rmdir _) = FUSE_RMDIR"
| "opcode (K_rename _ _ _) = FUSE_RENAME"
| "opcode (K_rename2 _ _ _ _) = FUSE_RENAME2"
| "opcode (K_link _ _) = FUSE_LINK"
| "opcode (K_open _ _) = FUSE_OPEN"
| "opcode (K_read _ _ _ _ _ _) = FUSE_READ"
| "opcode (K_write _ _ _ _ _ _) = FUSE_WRITE"
| "opcode K_statfs = FUSE_STATFS"
| "opcode (K_release _ _ _ _) = FUSE_RELEASE"
| "opcode (K_fsync _ _) = FUSE_FSYNC"
| "opcode (K_setxattr _ _ _) = FUSE_SETXATTR"
| "opcode (K_getxattr _ _) = FUSE_GETXATTR"
| "opcode (K_listxattr _) = FUSE_LISTXATTR"
| "opcode (K_removexattr _) = FUSE_REMOVEXATTR"
| "opcode (K_flush _ _) = FUSE_FLUSH"
| "opcode (K_opendir _ _) = FUSE_OPENDIR"
| "opcode (K_readdir _ _ _ _ _ _) = FUSE_READDIR"
| "opcode (K_readdirplus _ _ _ _ _ _) = FUSE_READDIRPLUS"
| "opcode (K_releasedir _ _ _ _) = FUSE_RELEASEDIR"
| "opcode (K_fsyncdir _ _) = FUSE_FSYNCDIR"
| "opcode (K_getlk _ _ _ _ _ _ _) = FUSE_GETLK"
| "opcode (K_setlk w _ _ _ _ _ _ _) = (if w then FUSE_SETLKW else FUSE_SETLK)"
| "opcode (K_access _) = FUSE_ACCESS"
| "opcode (K_create _ _ _ _ _) = FUSE_CREATE"
| "opcode (K_bmap _ _) = FUSE_BMAP"
| "opcode (K_ioctl _ _ _ _ _ _) = FUSE_IOCTL"
| "opcode (K_poll _ _ _ _) = FUSE_POLL"
| "opcode (K_fallocate _ _ _ _) = FUSE_FALLOCATE"
| "opcode (K_lseek _ _ _) = FUSE_LSEEK"
| "opcode (K_copy_file_range _ _ _ _ _ _ _) = FUSE_COPY_FILE_RANGE"

text \<open>The structures. A lock request has the lock in the middle; the extended form of \<^verbatim>\<open>setxattr\<close> has two more
  fields.\<close>

fun put_forgets :: "(fuse_ino_t \<times> 64 word) list \<Rightarrow> carr" where
  "put_forgets [] = []"
| "put_forgets ((ino, n) # fs) = put64 ino @ put64 n @ put_forgets fs"

definition put_read :: "64 word \<Rightarrow> 64 word \<Rightarrow> 32 word \<Rightarrow> 32 word \<Rightarrow> 64 word \<Rightarrow> 32 word \<Rightarrow> carr" where
  "put_read fh off sz rflags owner flags = put64 fh @ put64 off @ put32 sz @ put32 rflags @ put64 owner @ put32 flags @ put32 0"

definition put_lk :: "64 word \<Rightarrow> 64 word \<Rightarrow> 64 word \<Rightarrow> 64 word \<Rightarrow> 32 word \<Rightarrow> 32 word \<Rightarrow> 32 word \<Rightarrow> carr" where
  "put_lk fh owner start stop typ pid lkflags =
     put64 fh @ put64 owner @ put64 start @ put64 stop @ put32 typ @ put32 pid @ put32 lkflags @ put32 0"

fun body :: "session_conn \<Rightarrow> kreq \<Rightarrow> carr" where
  "body conn (K_lookup name) = put_str name"
| "body conn (K_forget n) = put64 n"
| "body conn (K_batch_forget fs) = put32 (of_nat (length fs)) @ put32 0 @ put_forgets fs"
| "body conn (K_getattr flags fh) = put32 flags @ put32 0 @ put64 fh"
| "body conn (K_setattr valid fh sz owner at mt ct an mn cn mode uid gid) =
     put32 valid @ put32 0 @ put64 fh @ put64 sz @ put64 owner @ put64 at @ put64 mt @ put64 ct @
     put32 an @ put32 mn @ put32 cn @ put32 mode @ put32 0 @ put32 uid @ put32 gid @ put32 0"
| "body conn K_readlink = []"
| "body conn (K_symlink name linkname) = put_str name @ put_str linkname"
| "body conn (K_mknod mode rdev umask name) = put32 mode @ put32 rdev @ put32 umask @ put32 0 @ put_str name"
| "body conn (K_mkdir mode umask name) = put32 mode @ put32 umask @ put_str name"
| "body conn (K_unlink name) = put_str name"
| "body conn (K_rmdir name) = put_str name"
| "body conn (K_rename newdir old new) = put64 newdir @ put_str old @ put_str new"
| "body conn (K_rename2 newdir flags old new) = put64 newdir @ put32 flags @ put32 0 @ put_str old @ put_str new"
| "body conn (K_link old name) = put64 old @ put_str name"
| "body conn (K_open flags oflags) = put32 flags @ put32 oflags"
| "body conn (K_read fh off sz rflags owner flags) = put_read fh off sz rflags owner flags"
| "body conn (K_write fh off wflags owner flags data) =
     put64 fh @ put64 off @ put32 (of_nat (length data)) @ put32 wflags @ put64 owner @ put32 flags @ put32 0 @ map Some data"
| "body conn K_statfs = []"
| "body conn (K_release fh flags rflags owner) = put64 fh @ put32 flags @ put32 rflags @ put64 owner"
| "body conn (K_fsync fh flags) = put64 fh @ put32 flags @ put32 0"
| "body conn (K_setxattr flags name val) = put32 (of_nat (length val)) @ put32 flags @
     (if want_ext conn AND FUSE_CAP_SETXATTR_EXT \<noteq> 0 then put32 0 @ put32 0 else []) @ put_str name @ map Some val"
| "body conn (K_getxattr sz name) = put32 sz @ put32 0 @ put_str name"
| "body conn (K_listxattr sz) = put32 sz @ put32 0"
| "body conn (K_removexattr name) = put_str name"
| "body conn (K_flush fh owner) = put64 fh @ put32 0 @ put32 0 @ put64 owner"
| "body conn (K_opendir flags oflags) = put32 flags @ put32 oflags"
| "body conn (K_readdir fh off sz rflags owner flags) = put_read fh off sz rflags owner flags"
| "body conn (K_readdirplus fh off sz rflags owner flags) = put_read fh off sz rflags owner flags"
| "body conn (K_releasedir fh flags rflags owner) = put64 fh @ put32 flags @ put32 rflags @ put64 owner"
| "body conn (K_fsyncdir fh flags) = put64 fh @ put32 flags @ put32 0"
| "body conn (K_getlk fh owner start stop typ pid lkflags) = put_lk fh owner start stop typ pid lkflags"
| "body conn (K_setlk w fh owner start stop typ pid lkflags) = put_lk fh owner start stop typ pid lkflags"
| "body conn (K_access amode) = put32 amode @ put32 0"
| "body conn (K_create flags mode umask oflags name) = put32 flags @ put32 mode @ put32 umask @ put32 oflags @ put_str name"
| "body conn (K_bmap block blocksize) = put64 block @ put32 blocksize @ put32 0"
| "body conn (K_ioctl fh flags cmd arg data outsz) =
     put64 fh @ put32 flags @ put32 cmd @ put64 arg @ put32 (of_nat (length data)) @ put32 outsz @ map Some data"
| "body conn (K_poll fh kh flags events) = put64 fh @ put64 kh @ put32 flags @ put32 events"
| "body conn (K_fallocate fh off len mode) = put64 fh @ put64 off @ put64 len @ put32 mode @ put32 0"
| "body conn (K_lseek fh off whence) = put64 fh @ put64 off @ put32 whence @ put32 0"
| "body conn (K_copy_file_range fh1 off1 ino2 fh2 off2 len flags) =
     put64 fh1 @ put64 off1 @ put64 ino2 @ put64 fh2 @ put64 off2 @ put64 len @ put64 flags"

section \<open>What a request means\<close>

text \<open>The call of each request for node \<open>ino\<close>; \<open>rest\<close> is what follows the message in the buffer. A lock that
  reaches to the end of the file has length zero; a whole-file lock is a lock of the other kind.\<close>

definition handle :: "64 word \<Rightarrow> fuse_file_info" where "handle fh = file_info_zero\<lparr>fi_fh := fh\<rparr>"

definition range_lock :: "64 word \<Rightarrow> 64 word \<Rightarrow> 32 word \<Rightarrow> 32 word \<Rightarrow> flock" where
  "range_lock start stop typ pid = \<lparr>l_type = ucast typ, l_whence = 0, l_start = start,
     l_len = (if stop = 0x7fffffffffffffff then 0 else stop - start + 1), l_pid = pid\<rparr>"

definition flock_op :: "bool \<Rightarrow> 32 word \<Rightarrow> int" where
  "flock_op wait typ = (if typ = 0 then 1 else if typ = 1 then 2 else if typ = 2 then 8 else 0) + (if wait then 0 else 4)"

fun meant :: "fuse_ino_t \<Rightarrow> carr \<Rightarrow> kreq \<Rightarrow> ll_action" where
  "meant ino rest (K_lookup name) = Call None (Call_lookup ino name)"
| "meant ino rest (K_forget n) = Call None (Call_forget ino n)"
| "meant ino rest (K_batch_forget fs) = Call None (Call_forget_multi fs)"
| "meant ino rest (K_getattr flags fh) = Call None (Call_getattr ino (if flags AND FUSE_GETATTR_FH \<noteq> 0 then Some (handle fh) else None))"
| "meant ino rest (K_setattr valid fh sz owner at mt ct an mn cn mode uid gid) =
     Call None (Call_setattr ino (file_stat_zero\<lparr>st_mode := mode, st_uid := uid, st_gid := gid, st_size := sz,
       st_atim := (at, ucast an), st_mtim := (mt, ucast mn), st_ctim := (ct, ucast cn)\<rparr>)
       (valid AND NOT FATTR_FH AND setattr_mask) (if valid AND FATTR_FH \<noteq> 0 then Some (handle fh) else None))"
| "meant ino rest K_readlink = Call None (Call_readlink ino)"
| "meant ino rest (K_symlink name linkname) = Call None (Call_symlink linkname ino name)"
| "meant ino rest (K_mknod mode rdev umask name) = Call (Some umask) (Call_mknod ino name mode (ucast rdev))"
| "meant ino rest (K_mkdir mode umask name) = Call (Some umask) (Call_mkdir ino name mode)"
| "meant ino rest (K_unlink name) = Call None (Call_unlink ino name)"
| "meant ino rest (K_rmdir name) = Call None (Call_rmdir ino name)"
| "meant ino rest (K_rename newdir old new) = Call None (Call_rename ino old newdir new 0)"
| "meant ino rest (K_rename2 newdir flags old new) = Call None (Call_rename ino old newdir new flags)"
| "meant ino rest (K_link old name) = Call None (Call_link old ino name)"
| "meant ino rest (K_open flags oflags) = Call None (Call_open ino (file_info_zero\<lparr>fi_flags := flags\<rparr>))"
| "meant ino rest (K_read fh off sz rflags owner flags) =
     Call None (Call_read ino (ucast sz) off ((handle fh)\<lparr>fi_lock_owner := owner, fi_flags := flags\<rparr>))"
| "meant ino rest (K_write fh off wflags owner flags data) =
     Call None (Call_write ino (map Some data @ rest) (of_nat (length data)) off
       ((handle fh)\<lparr>fi_writepage := (wflags AND FUSE_WRITE_CACHE \<noteq> 0), fi_lock_owner := owner, fi_flags := flags\<rparr>))"
| "meant ino rest K_statfs = Call None (Call_statfs ino)"
| "meant ino rest (K_release fh flags rflags owner) =
     Call None (Call_release ino ((handle fh)\<lparr>fi_flags := flags, fi_flush := (rflags AND FUSE_RELEASE_FLUSH \<noteq> 0),
       fi_flock_release := (rflags AND FUSE_RELEASE_FLOCK_UNLOCK \<noteq> 0), fi_lock_owner := owner\<rparr>))"
| "meant ino rest (K_fsync fh flags) = Call None (Call_fsync ino (sint (flags AND 1)) (handle fh))"
| "meant ino rest (K_setxattr flags name val) =
     Call None (Call_setxattr ino name (map Some val @ rest) (of_nat (length val)) (sint flags))"
| "meant ino rest (K_getxattr sz name) = Call None (Call_getxattr ino name (ucast sz))"
| "meant ino rest (K_listxattr sz) = Call None (Call_listxattr ino (ucast sz))"
| "meant ino rest (K_removexattr name) = Call None (Call_removexattr ino name)"
| "meant ino rest (K_flush fh owner) = Call None (Call_flush ino ((handle fh)\<lparr>fi_flush := True, fi_lock_owner := owner\<rparr>))"
| "meant ino rest (K_opendir flags oflags) = Call None (Call_opendir ino (file_info_zero\<lparr>fi_flags := flags\<rparr>))"
| "meant ino rest (K_readdir fh off sz rflags owner flags) = Call None (Call_readdir ino (ucast sz) off (handle fh))"
| "meant ino rest (K_readdirplus fh off sz rflags owner flags) = Call None (Call_readdirplus ino (ucast sz) off (handle fh))"
| "meant ino rest (K_releasedir fh flags rflags owner) = Call None (Call_releasedir ino ((handle fh)\<lparr>fi_flags := flags\<rparr>))"
| "meant ino rest (K_fsyncdir fh flags) = Call None (Call_fsyncdir ino (sint (flags AND 1)) (handle fh))"
| "meant ino rest (K_getlk fh owner start stop typ pid lkflags) =
     Call None (Call_getlk ino ((handle fh)\<lparr>fi_lock_owner := owner\<rparr>) (range_lock start stop typ pid))"
| "meant ino rest (K_setlk w fh owner start stop typ pid lkflags) =
     (let fi = (handle fh)\<lparr>fi_lock_owner := owner\<rparr>
      in Call None (if lkflags AND FUSE_LK_FLOCK \<noteq> 0 then Call_flock ino fi (flock_op w typ)
                    else Call_setlk ino fi (range_lock start stop typ pid) w))"
| "meant ino rest (K_access amode) = Call None (Call_access ino (sint amode))"
| "meant ino rest (K_create flags mode umask oflags name) =
     Call (Some umask) (Call_create ino name mode (file_info_zero\<lparr>fi_flags := flags\<rparr>))"
| "meant ino rest (K_bmap block blocksize) = Call None (Call_bmap ino (ucast blocksize) block)"
| "meant ino rest (K_ioctl fh flags cmd arg data outsz) =
     Call None (Call_ioctl ino cmd arg (handle fh) flags (map Some data) (ucast outsz))"
| "meant ino rest (K_poll fh kh flags events) =
     Call None (Call_poll ino ((handle fh)\<lparr>fi_poll_events := events\<rparr>)
       (if flags AND FUSE_POLL_SCHEDULE_NOTIFY \<noteq> 0 then Some kh else None))"
| "meant ino rest (K_fallocate fh off len mode) = Call None (Call_fallocate ino (sint mode) off len (handle fh))"
| "meant ino rest (K_lseek fh off whence) = Call None (Call_lseek ino off (sint whence) (handle fh))"
| "meant ino rest (K_copy_file_range fh1 off1 ino2 fh2 off2 len flags) =
     Call None (Call_copy_file_range ino off1 (handle fh1) ino2 off2 (handle fh2) len (sint (ucast flags :: 32 word)))"

text \<open>Names have no zero bytes, and counts fit their fields.\<close>

fun kreq_ok :: "session_conn \<Rightarrow> kreq \<Rightarrow> bool" where
  "kreq_ok conn (K_lookup name) \<longleftrightarrow> c_string name"
| "kreq_ok conn (K_batch_forget fs) \<longleftrightarrow> length fs < 2 ^ 32"
| "kreq_ok conn (K_symlink name linkname) \<longleftrightarrow> c_string name \<and> c_string linkname"
| "kreq_ok conn (K_mknod _ _ _ name) \<longleftrightarrow> c_string name"
| "kreq_ok conn (K_mkdir _ _ name) \<longleftrightarrow> c_string name"
| "kreq_ok conn (K_unlink name) \<longleftrightarrow> c_string name"
| "kreq_ok conn (K_rmdir name) \<longleftrightarrow> c_string name"
| "kreq_ok conn (K_rename _ old new) \<longleftrightarrow> c_string old \<and> c_string new"
| "kreq_ok conn (K_rename2 _ _ old new) \<longleftrightarrow> c_string old \<and> c_string new"
| "kreq_ok conn (K_link _ name) \<longleftrightarrow> c_string name"
| "kreq_ok conn (K_write _ _ _ _ _ data) \<longleftrightarrow> length data < 2 ^ 32"
| "kreq_ok conn (K_setxattr _ name val) \<longleftrightarrow> c_string name \<and> length val < 2 ^ 32"
| "kreq_ok conn (K_getxattr _ name) \<longleftrightarrow> c_string name"
| "kreq_ok conn (K_removexattr name) \<longleftrightarrow> c_string name"
| "kreq_ok conn (K_create _ _ _ _ name) \<longleftrightarrow> c_string name"
| "kreq_ok conn (K_ioctl _ flags _ _ data _) \<longleftrightarrow> length data < 2 ^ 32 \<and>
     (flags AND FUSE_IOCTL_DIR \<noteq> 0 \<longrightarrow> want_ext conn AND FUSE_CAP_IOCTL_DIR \<noteq> 0)"
| "kreq_ok conn _ \<longleftrightarrow> True"

text \<open>The operation a request is for.\<close>

fun uses :: "kreq \<Rightarrow> ll_op" where
  "uses (K_lookup _) = Op_lookup"
| "uses (K_forget _) = Op_forget"
| "uses (K_batch_forget _) = Op_forget_multi"
| "uses (K_getattr _ _) = Op_getattr"
| "uses (K_setattr _ _ _ _ _ _ _ _ _ _ _ _ _) = Op_setattr"
| "uses K_readlink = Op_readlink"
| "uses (K_symlink _ _) = Op_symlink"
| "uses (K_mknod _ _ _ _) = Op_mknod"
| "uses (K_mkdir _ _ _) = Op_mkdir"
| "uses (K_unlink _) = Op_unlink"
| "uses (K_rmdir _) = Op_rmdir"
| "uses (K_rename _ _ _) = Op_rename"
| "uses (K_rename2 _ _ _ _) = Op_rename"
| "uses (K_link _ _) = Op_link"
| "uses (K_open _ _) = Op_open"
| "uses (K_read _ _ _ _ _ _) = Op_read"
| "uses (K_write _ _ _ _ _ _) = Op_write"
| "uses K_statfs = Op_statfs"
| "uses (K_release _ _ _ _) = Op_release"
| "uses (K_fsync _ _) = Op_fsync"
| "uses (K_setxattr _ _ _) = Op_setxattr"
| "uses (K_getxattr _ _) = Op_getxattr"
| "uses (K_listxattr _) = Op_listxattr"
| "uses (K_removexattr _) = Op_removexattr"
| "uses (K_flush _ _) = Op_flush"
| "uses (K_opendir _ _) = Op_opendir"
| "uses (K_readdir _ _ _ _ _ _) = Op_readdir"
| "uses (K_readdirplus _ _ _ _ _ _) = Op_readdirplus"
| "uses (K_releasedir _ _ _ _) = Op_releasedir"
| "uses (K_fsyncdir _ _) = Op_fsyncdir"
| "uses (K_getlk _ _ _ _ _ _ _) = Op_getlk"
| "uses (K_setlk _ _ _ _ _ _ _ lkflags) = (if lkflags AND FUSE_LK_FLOCK \<noteq> 0 then Op_flock else Op_setlk)"
| "uses (K_access _) = Op_access"
| "uses (K_create _ _ _ _ _) = Op_create"
| "uses (K_bmap _ _) = Op_bmap"
| "uses (K_ioctl _ _ _ _ _ _) = Op_ioctl"
| "uses (K_poll _ _ _ _) = Op_poll"
| "uses (K_fallocate _ _ _ _) = Op_fallocate"
| "uses (K_lseek _ _ _) = Op_lseek"
| "uses (K_copy_file_range _ _ _ _ _ _ _) = Op_copy_file_range"

section \<open>Decoding\<close>

definition decode_msg :: "(nat \<Rightarrow> bool) \<Rightarrow> 32 word \<Rightarrow> decoder" where
  "decode_msg mem opc conn has ino a =
     (case fuse_ll_ops mem opc of Some (Func d) \<Rightarrow> d conn has ino a | _ \<Rightarrow> missing)"

lemma get_at: "length pre = off \<Longrightarrow> get64 (pre @ a) (off + k) = get64 a k"
  using get_le_skip [of pre "off + k" a 8] by (simp add: get64_def)

lemma get_forgets_put: "length pre = off \<Longrightarrow> get_forgets (pre @ put_forgets fs @ a) off (length fs) = Inr fs"
proof (induction fs arbitrary: pre off rule: put_forgets.induct)
  case (2 ino n fs)
  let ?a = "put64 ino @ put64 n @ put_forgets fs @ a"
  have "get64 (pre @ ?a) off = Inr ino" "get64 (pre @ ?a) (off + 8) = Inr n"
    using get_at [OF "2.prems", of ?a 0] get_at [OF "2.prems", of ?a 8] by simp_all
  moreover have "get_forgets ((pre @ put64 ino @ put64 n) @ put_forgets fs @ a) (off + 16) (length fs) = Inr fs"
    using "2.prems" by (intro "2.IH") simp
  ultimately show ?case by simp
qed simp

text \<open>The entries of the table.\<close>

lemma ll_entries [simp]:
  "fuse_ll_ops mem FUSE_LOOKUP = Some (Func do_lookup_ll)" "fuse_ll_ops mem FUSE_FORGET = Some (Func do_forget_ll)"
  "fuse_ll_ops mem FUSE_BATCH_FORGET = Some (Func (do_batch_forget mem))"
  "fuse_ll_ops mem FUSE_GETATTR = Some (Func do_getattr)" "fuse_ll_ops mem FUSE_SETATTR = Some (Func do_setattr)"
  "fuse_ll_ops mem FUSE_READLINK = Some (Func do_readlink)" "fuse_ll_ops mem FUSE_SYMLINK = Some (Func do_symlink)"
  "fuse_ll_ops mem FUSE_MKNOD = Some (Func do_mknod)" "fuse_ll_ops mem FUSE_MKDIR = Some (Func do_mkdir)"
  "fuse_ll_ops mem FUSE_UNLINK = Some (Func do_unlink)" "fuse_ll_ops mem FUSE_RMDIR = Some (Func do_rmdir)"
  "fuse_ll_ops mem FUSE_RENAME = Some (Func do_rename)" "fuse_ll_ops mem FUSE_RENAME2 = Some (Func do_rename2)"
  "fuse_ll_ops mem FUSE_LINK = Some (Func do_link)" "fuse_ll_ops mem FUSE_OPEN = Some (Func do_open)"
  "fuse_ll_ops mem FUSE_READ = Some (Func do_read)" "fuse_ll_ops mem FUSE_WRITE = Some (Func do_write)"
  "fuse_ll_ops mem FUSE_STATFS = Some (Func do_statfs)" "fuse_ll_ops mem FUSE_RELEASE = Some (Func do_release)"
  "fuse_ll_ops mem FUSE_FSYNC = Some (Func do_fsync)" "fuse_ll_ops mem FUSE_SETXATTR = Some (Func do_setxattr)"
  "fuse_ll_ops mem FUSE_GETXATTR = Some (Func do_getxattr)" "fuse_ll_ops mem FUSE_LISTXATTR = Some (Func do_listxattr)"
  "fuse_ll_ops mem FUSE_REMOVEXATTR = Some (Func do_removexattr)" "fuse_ll_ops mem FUSE_FLUSH = Some (Func do_flush)"
  "fuse_ll_ops mem FUSE_OPENDIR = Some (Func do_opendir)" "fuse_ll_ops mem FUSE_READDIR = Some (Func do_readdir)"
  "fuse_ll_ops mem FUSE_READDIRPLUS = Some (Func do_readdirplus)" "fuse_ll_ops mem FUSE_RELEASEDIR = Some (Func do_releasedir)"
  "fuse_ll_ops mem FUSE_FSYNCDIR = Some (Func do_fsyncdir)" "fuse_ll_ops mem FUSE_GETLK = Some (Func do_getlk)"
  "fuse_ll_ops mem FUSE_SETLK = Some (Func do_setlk)" "fuse_ll_ops mem FUSE_SETLKW = Some (Func do_setlkw)"
  "fuse_ll_ops mem FUSE_ACCESS = Some (Func do_access)" "fuse_ll_ops mem FUSE_CREATE = Some (Func do_create)"
  "fuse_ll_ops mem FUSE_BMAP = Some (Func do_bmap)" "fuse_ll_ops mem FUSE_IOCTL = Some (Func do_ioctl)"
  "fuse_ll_ops mem FUSE_POLL = Some (Func (do_poll mem))" "fuse_ll_ops mem FUSE_FALLOCATE = Some (Func do_fallocate)"
  "fuse_ll_ops mem FUSE_LSEEK = Some (Func do_lseek)" "fuse_ll_ops mem FUSE_COPY_FILE_RANGE = Some (Func do_copy_file_range)"
  "fuse_ll_ops mem FUSE_INIT = Some Init" "fuse_ll_ops mem FUSE_INTERRUPT = Some Interrupt"
  "fuse_ll_ops mem FUSE_DESTROY = Some Destroy" "fuse_ll_ops mem FUSE_NOTIFY_REPLY = Some Notify_reply"
  "fuse_ll_ops mem CUSE_INIT = Some Cuse_init" "fuse_ll_ops mem FUSE_TMPFILE = Some (Func do_tmpfile)"
  by (simp_all add: fuse_ll_ops_def)

text \<open>A recent protocol: the fields that older kernels do not send are there.\<close>

lemma recent:
  assumes "12 \<le> (m :: 32 word)"
  shows "7 \<le> m" "8 \<le> m" "9 \<le> m" "\<not> m < 9"
  using assms by (auto simp: word_le_nat_alt word_less_nat_alt)

lemmas name_defs = do_lookup_ll_def do_forget_ll_def do_batch_forget_def do_getattr_def convert_attr_def do_setattr_def
  do_access_def do_readlink_def do_mknod_def do_mkdir_def do_unlink_def do_rmdir_def do_symlink_def do_rename_def
  do_rename2_def do_link_def
lemmas file_defs = do_create_def do_open_def do_read_def put_read_def do_write_def write_info_def do_flush_def do_release_def
  do_fsync_def do_opendir_def do_readdir_def do_readdirplus_def do_releasedir_def do_fsyncdir_def do_statfs_def
lemmas rest_defs = do_setxattr_def do_getxattr_def do_listxattr_def do_removexattr_def convert_fuse_file_lock_def
  lk_info_def put_lk_def do_getlk_def do_setlk_common_def do_setlk_def do_setlkw_def do_bmap_def do_ioctl_def do_poll_def do_fallocate_def
  do_copy_file_range_def do_lseek_def

lemma count_field:
  assumes "n < 2 ^ 32"
  shows "unat (of_nat n :: 32 word) = n" "(ucast (of_nat n :: 32 word) :: 64 word) = of_nat n"
proof -
  show u: "unat (of_nat n :: 32 word) = n" using assms by (simp add: unat_of_nat)
  show "(ucast (of_nat n :: 32 word) :: 64 word) = of_nat n"
    by (rule word_unat_eq_iff [THEN iffD2]) (use assms in \<open>simp add: unsigned_ucast_eq u unat_of_nat take_bit_nat_eq_self\<close>)
qed

lemma OFFSET_MAX_word: "(word_of_int OFFSET_MAX :: 64 word) = 0x7fffffffffffffff"
  by (simp add: OFFSET_MAX_def)

lemma read_after: "length pre = off \<Longrightarrow> n = length xs \<Longrightarrow> read_cells (pre @ map Some xs @ rest) off n = Inr (map Some xs)"
  by (simp add: read_cells_def)

lemmas msg_defs = FUSE_COMPAT_SETXATTR_IN_SIZE_def name_defs file_defs rest_defs handle_def range_lock_def decode_msg_def Let_def

lemma decode_batch:
  assumes "length fs < 2 ^ 32" "has Op_forget_multi"
  shows "do_batch_forget mem conn has ino (body conn (K_batch_forget fs) @ rest) = Inr (meant ino rest (K_batch_forget fs))"
  using get_forgets_put [of "put32 (of_nat (length fs)) @ put32 0" 8 fs rest] assms
  by (simp add: do_batch_forget_def count_field)

lemma decode_ioctl:
  assumes "kreq_ok conn (K_ioctl fh flags cmd arg data outsz)" "has Op_ioctl"
  shows "do_ioctl conn has ino (body conn (K_ioctl fh flags cmd arg data outsz) @ rest) =
    Inr (meant ino rest (K_ioctl fh flags cmd arg data outsz))"
proof -
  let ?n = "of_nat (length data) :: 32 word"
  have "read_cells ((put64 fh @ put32 flags @ put32 cmd @ put64 arg @ put32 ?n @ put32 outsz) @ map Some data @ rest) 32 (unat ?n) =
      Inr (map Some data)"
    using assms(1) by (intro read_after) (simp_all add: count_field)
  then show ?thesis using assms by (auto simp: do_ioctl_def handle_def)
qed

lemma decode_flock:
  assumes "has (uses (K_setlk w fh owner start stop typ pid lkflags))"
  shows "do_setlk_common w conn has ino (body conn (K_setlk w fh owner start stop typ pid lkflags) @ rest) =
    Inr (meant ino rest (K_setlk w fh owner start stop typ pid lkflags))"
proof (cases "lkflags AND FUSE_LK_FLOCK = 0")
  case True
  then show ?thesis using assms by (simp add: rest_defs handle_def range_lock_def OFFSET_MAX_word Let_def)
next
  case False
  then show ?thesis
    using assms by (cases w) (simp_all add: do_setlk_common_def lk_info_def put_lk_def handle_def Let_def flock_op_def
        F_RDLCK_def F_WRLCK_def F_UNLCK_def LOCK_SH_def LOCK_EX_def LOCK_UN_def LOCK_NB_def)
qed

lemma decode_kreq:
  assumes k: "kreq_ok conn k" and minor: "12 \<le> proto_minor conn" and has: "has (uses k)" and mem: "\<And>n. mem n"
  shows "decode_msg mem (opcode k) conn has ino (body conn k @ rest) = Inr (meant ino rest k)"
proof (cases k)
  case (K_batch_forget fs)
  with k has decode_batch [of fs has] show ?thesis by (simp add: decode_msg_def del: body.simps meant.simps)
next
  case (K_ioctl fh flags cmd arg data outsz)
  with k has decode_ioctl [of conn fh flags cmd arg data outsz has] show ?thesis
    by (simp add: decode_msg_def del: body.simps meant.simps)
next
  case (K_setlk w fh owner start stop ty pid lkflags)
  with has decode_flock [of has w fh owner start stop ty pid lkflags] show ?thesis
    by (cases w) (simp_all add: decode_msg_def do_setlk_def do_setlkw_def del: body.simps meant.simps uses.simps)
next
  case (K_release fh flags rflags owner)
  then show ?thesis using has recent [OF minor]
    by (simp add: decode_msg_def do_release_def handle_def file_info_zero_def)
qed (insert k minor has mem recent [OF minor], simp_all add: msg_defs OFFSET_MAX_word count_field)

end
