(* ===== verification/Fuse_Init_Correct.thy ===== *)
theory Fuse_Init_Correct
  imports Fuse_Init
begin

unbundle bit_operations_syntax

text \<open>
  What the start of a connection agrees on: whatever the file system does, the answer asks for no flag that the kernel
  did not offer, and the agreed sizes keep their bounds.
\<close>

section \<open>Sets of flags\<close>

text \<open>A word as the set of its bits.\<close>

definition sub_flags :: "64 word \<Rightarrow> 64 word \<Rightarrow> bool" where
  "sub_flags v w \<longleftrightarrow> v AND NOT w = 0"

lemma sub_flags_bits: "sub_flags v w \<longleftrightarrow> (\<forall>n. bit v n \<longrightarrow> bit w n)"
  unfolding sub_flags_def using bit_imp_le_length [of v] by (auto simp: bit_eq_iff bit_simps)

lemma sub_flags_or: "sub_flags (v OR v1) w \<longleftrightarrow> sub_flags v w \<and> sub_flags v1 w"
  by (auto simp: sub_flags_bits bit_simps)

lemma sub_flags_simps [simp]: "sub_flags 0 w" "sub_flags w w"
  by (simp_all add: sub_flags_bits)

lemma sub_flags_self_or [simp]: "sub_flags v (v OR w)" "sub_flags v (w OR v)"
  by (auto simp: sub_flags_bits bit_simps)

lemma sub_flags_orI: "sub_flags v w \<Longrightarrow> sub_flags v (w OR u)" "sub_flags v w \<Longrightarrow> sub_flags v (u OR w)"
  by (auto simp: sub_flags_bits bit_simps)

lemma sub_flags_trans: "sub_flags u v \<Longrightarrow> sub_flags v w \<Longrightarrow> sub_flags u w"
  by (auto simp: sub_flags_bits)

lemma bit_flag: "w AND 2 ^ n \<noteq> 0 \<longleftrightarrow> bit w n" for w :: "64 word"
  by (simp add: and_exp_eq_0_iff_not_bit)

text \<open>A flag is a single bit.\<close>

definition single :: "64 word \<Rightarrow> bool" where
  "single a \<longleftrightarrow> (\<exists>n\<in>{0..<64}. a = 2 ^ n)"

lemma single_sub: "single a \<Longrightarrow> w AND a \<noteq> 0 \<Longrightarrow> sub_flags a w"
  by (auto simp: single_def bit_flag sub_flags_bits bit_simps)

lemma sub_flags_meet: "sub_flags v w \<Longrightarrow> v AND a \<noteq> 0 \<Longrightarrow> w AND a \<noteq> 0"
  by (auto simp: sub_flags_bits bit_eq_iff bit_simps)

lemma translate_bits: "bit (translate t w) n \<longleftrightarrow> (\<exists>(a, b)\<in>set t. w AND a \<noteq> 0 \<and> bit b n)"
  by (induction t) (auto simp: bit_simps split: if_splits)

text \<open>Flags that come back through the table are flags that went in.\<close>

lemma translate_back:
  assumes t: "\<forall>(a, b)\<in>set t. single a \<and> single b" "distinct (map snd t)"
    and other: "\<forall>(a, b)\<in>set t. other AND b = 0"
    and w: "sub_flags v (translate t w OR other)"
  shows "sub_flags (translate (map prod.swap t) v) w"
  unfolding sub_flags_bits
proof (intro allI impI)
  fix n
  assume "bit (translate (map prod.swap t) v) n"
  then obtain a b where ab: "(a, b) \<in> set t" "v AND b \<noteq> 0" "bit a n" by (auto simp: translate_bits)
  obtain k where k: "b = 2 ^ k" "k < 64" using t ab(1) by (auto simp: single_def)
  have "bit v k" using ab(2) by (simp add: k bit_flag)
  then have "bit (translate t w OR other) k" using w by (simp add: sub_flags_bits)
  moreover have "\<not> bit other k" using other ab(1) bit_flag [of other k] by (auto simp: k)
  ultimately obtain a1 b1 where ab1: "(a1, b1) \<in> set t" "w AND a1 \<noteq> 0" "bit b1 k" by (auto simp: translate_bits bit_simps)
  have "b1 = b" using t ab1 by (auto simp: single_def k bit_simps)
  then have "a1 = a" using t(2) ab(1) ab1(1) by (fastforce simp: distinct_map inj_on_def)
  then show "bit w n" using single_sub [of a w] t(1) ab ab1 by (auto simp: sub_flags_bits)
qed

section \<open>The table of flags\<close>

definition asked_table :: "(64 word \<times> 64 word) list" where
  "asked_table = flag_table @ [(FUSE_PASSTHROUGH, FUSE_CAP_PASSTHROUGH)]"

lemmas cap_defs = FUSE_CAP_ASYNC_READ_def FUSE_CAP_POSIX_LOCKS_def FUSE_CAP_ATOMIC_O_TRUNC_def FUSE_CAP_EXPORT_SUPPORT_def
  FUSE_CAP_FLOCK_LOCKS_def FUSE_CAP_AUTO_INVAL_DATA_def FUSE_CAP_READDIRPLUS_def FUSE_CAP_READDIRPLUS_AUTO_def
  FUSE_CAP_ASYNC_DIO_def FUSE_CAP_SETXATTR_EXT_def FUSE_PASSTHROUGH_def FUSE_CAP_PASSTHROUGH_def FUSE_CAP_NO_OPEN_SUPPORT_def
  FUSE_CAP_NO_OPENDIR_SUPPORT_def FUSE_CAP_EXPIRE_ONLY_def FUSE_CAP_SPLICE_WRITE_def FUSE_CAP_SPLICE_MOVE_def
  FUSE_CAP_SPLICE_READ_def FUSE_CAP_IOCTL_DIR_def

lemma single_power: "n < 64 \<Longrightarrow> single (2 ^ n)"
  by (auto simp: single_def)

lemma single_numerals:
  "single 0x1" "single 0x2" "single 0x8" "single 0x10" "single 0x20" "single 0x40" "single 0x400" "single 0x1000" "single 0x2000"
  "single 0x4000" "single 0x8000" "single 0x10000" "single 0x40000" "single 0x80000" "single 0x100000" "single 0x200000"
  "single 0x800000" "single 0x2000000" "single 0x8000000" "single 0x10000000" "single 0x20000000" "single 0x40000000"
  "single 0x1000000000" "single 0x2000000000" "single 0x4000000000"
  using single_power [of 0] single_power [of 1] single_power [of 3] single_power [of 4] single_power [of 5] single_power [of 6]
    single_power [of 10] single_power [of 12] single_power [of 13] single_power [of 14] single_power [of 15] single_power [of 16]
    single_power [of 18] single_power [of 19] single_power [of 20] single_power [of 21] single_power [of 23] single_power [of 25]
    single_power [of 27] single_power [of 28] single_power [of 29] single_power [of 30] single_power [of 36] single_power [of 37]
    single_power [of 38]
  by simp_all

lemma asked_single: "\<forall>(a, b)\<in>set asked_table. single a \<and> single b"
  by (simp add: asked_table_def flag_table_def cap_defs single_numerals)

lemma asked_distinct: "distinct (map snd asked_table)"
  by (simp add: asked_table_def flag_table_def cap_defs)

text \<open>Everything the kernel can do that is not in the table.\<close>

definition other_caps :: "64 word" where
  "other_caps = FUSE_CAP_NO_OPEN_SUPPORT OR FUSE_CAP_NO_OPENDIR_SUPPORT OR FUSE_CAP_EXPIRE_ONLY OR FUSE_CAP_SPLICE_WRITE OR
     FUSE_CAP_SPLICE_MOVE OR FUSE_CAP_SPLICE_READ OR FUSE_CAP_IOCTL_DIR"

lemma other_apart: "\<forall>(a, b)\<in>set asked_table. other_caps AND b = 0"
  by (simp add: asked_table_def flag_table_def other_caps_def cap_defs)

lemma translate_append: "translate (t @ t1) w = translate t w OR translate t1 w"
  by (induction t) (auto simp: or.assoc)

lemma capable_sub: "sub_flags (capable_of minor flags) (translate asked_table flags OR other_caps)"
proof -
  have "sub_flags (translate kernel_only flags) other_caps"
    by (simp add: kernel_only_def other_caps_def cap_defs sub_flags_def)
  moreover have "sub_flags FUSE_CAP_EXPIRE_ONLY other_caps" "sub_flags FUSE_CAP_IOCTL_DIR other_caps"
    "sub_flags (FUSE_CAP_SPLICE_WRITE OR FUSE_CAP_SPLICE_MOVE OR FUSE_CAP_SPLICE_READ) other_caps"
    by (simp_all add: other_caps_def cap_defs sub_flags_def)
  ultimately show ?thesis
    by (auto simp: capable_of_def translate_append sub_flags_or asked_table_def intro: sub_flags_orI)
qed

section \<open>What the answer asks for\<close>

text \<open>The file system's \<^verbatim>\<open>init\<close> reads what the kernel can do and does not change it.\<close>

definition keeps_capable :: "(session_conn \<Rightarrow> 'l \<Rightarrow> cerror + session_conn \<times> 'l) \<Rightarrow> bool" where
  "keeps_capable initf \<longleftrightarrow> (\<forall>conn l conn1 l1. initf conn l = Inr (conn1, l1) \<longrightarrow> capable_ext conn1 = capable_ext conn)"

lemma set_default_capable [simp]: "capable_ext (set_default b cap conn) = capable_ext conn"
  by (simp add: set_default_def fuse_set_feature_flag_def)

lemma offered_capable [simp]: "capable_ext (offered_conn has conn minor readahead inflags) = capable_of minor inflags"
  by (simp add: offered_conn_def default_wants_def)

lemma ask_init_capable:
  assumes "keeps_capable initf" "ask_init initf conn l = Inr ((agreed, conn1), l1)"
  shows "capable_ext conn1 = capable_ext conn" "agreed = None \<or> agreed = Some conn1"
proof -
  let ?conn = "conn\<lparr>capable := ucast (capable_ext conn), want := ucast (want_ext conn)\<rparr>"
  obtain conn2 where i: "initf ?conn l = Inr (conn2, l1)"
    and c: "(case convert_to_conn_want_ext (fuse_conn_info.truncate conn2) (want_ext conn) (ucast (want_ext conn)) of
        (rc, c) \<Rightarrow> (if rc \<noteq> 0 then None else Some (conn2\<lparr>want_ext := want_ext c, want := want c\<rparr>),
          conn2\<lparr>want_ext := want_ext c, want := want c\<rparr>)) = (agreed, conn1)"
    using assms(2) by (auto simp: ask_init_def Let_def cbind_Inr_iff split_beta)
  have "capable_ext conn2 = capable_ext conn" using assms(1) i by (fastforce simp: keeps_capable_def)
  then show "capable_ext conn1 = capable_ext conn" "agreed = None \<or> agreed = Some conn1"
    using c by (auto split: prod.splits)
qed

lemma agreed_want [simp]: "want_ext (agree_background (agree_sizes conn bufsize realloc)) = want_ext conn"
  by (simp add: agree_background_def agree_sizes_def Let_def)

lemma lower_half:
  assumes "kernel_flags a minor = Inr inflags" "get32 a 12 = Inr flags0" "6 \<le> minor"
  shows "sub_flags (ucast flags0) inflags"
  using assms by (auto simp: kernel_flags_def cbind_Inr_iff linorder_not_less sub_flags_orI split: if_splits)

lemma init_flags_offered:
  assumes w: "sub_flags (want_ext conn) (capable_of minor inflags)" and low: "sub_flags (ucast flags0) inflags"
  shows "sub_flags (init_flags conn inflags flags0) (inflags OR FUSE_BIG_WRITES)"
proof -
  have "map prod.swap flag_table @ [(FUSE_CAP_PASSTHROUGH, FUSE_PASSTHROUGH)] = map prod.swap asked_table"
    by (simp add: asked_table_def)
  moreover have "sub_flags (translate (map prod.swap asked_table) (want_ext conn)) inflags"
    by (rule translate_back [OF asked_single asked_distinct other_apart sub_flags_trans [OF w capable_sub]])
  moreover have "sub_flags FUSE_MAX_PAGES inflags" if "(ucast flags0 :: 64 word) AND FUSE_MAX_PAGES \<noteq> 0"
    by (rule single_sub [OF _ sub_flags_meet [OF low that]]) (use single_power [of 22] in \<open>simp add: FUSE_MAX_PAGES_def\<close>)
  moreover have "sub_flags FUSE_INIT_EXT inflags" if "inflags AND FUSE_INIT_EXT \<noteq> 0"
    by (rule single_sub [OF _ that]) (simp add: FUSE_INIT_EXT_def single_numerals)
  ultimately show ?thesis by (auto simp: init_flags_def sub_flags_or intro: sub_flags_orI)
qed

text \<open>The two halves of the flags in the answer.\<close>

lemma init_out_flags:
  "get32 (init_out page conn inflags flags0 outflags) 12 = Inr (ucast outflags)"
  "get32 (init_out page conn inflags flags0 outflags) 32 =
     Inr (if inflags AND FUSE_INIT_EXT \<noteq> 0 then ucast (drop_bit 32 outflags) else 0)"
  by (simp_all add: init_out_def)

lemma halves_sub: "sub_flags (ucast (ucast w :: 32 word) OR push_bit 32 (ucast (if b then ucast (drop_bit 32 w) else 0 :: 32 word))) w"
  by (auto simp: sub_flags_bits bit_simps)

lemma answer_init_flags:
  assumes "answer_init page se a minor inflags bufsize realloc agreed = Inr (Inr out, se1)" "23 \<le> minor"
    and "kernel_flags a minor = Inr inflags" "\<And>conn. agreed = Some conn \<Longrightarrow> capable_ext conn = capable_of minor inflags"
  shows "\<exists>f1 f2. get32 out 12 = Inr f1 \<and> get32 out 32 = Inr f2 \<and>
    sub_flags (ucast f1 OR push_bit 32 (ucast f2)) (inflags OR FUSE_BIG_WRITES)"
proof -
  have m: "6 \<le> minor" "\<not> minor < 5" "\<not> minor < 23" using assms(2) by (auto simp: word_le_nat_alt word_less_nat_alt)
  obtain conn flags0 where conn: "agreed = Some conn" "want_flags_valid (capable_ext conn) (want_ext conn)" "get32 a 12 = Inr flags0"
    and out: "out = init_out page (agree_background (agree_sizes conn bufsize realloc)) inflags flags0
        (init_flags (agree_background (agree_sizes conn bufsize realloc)) inflags flags0)"
    using assms(1) m by (auto simp: answer_init_def Let_def cbind_Inr_iff split: option.splits if_splits)
  have "sub_flags (want_ext conn) (capable_of minor inflags)"
    using conn assms(4) by (auto simp: want_flags_valid_def sub_flags_def)
  then have "sub_flags (init_flags (agree_background (agree_sizes conn bufsize realloc)) inflags flags0) (inflags OR FUSE_BIG_WRITES)"
    by (intro init_flags_offered lower_half [OF assms(3) conn(3) m(1)]) simp_all
  from sub_flags_trans [OF halves_sub this] show ?thesis unfolding out init_out_flags by blast
qed

text \<open>C19: the answer to the kernel's first message asks for no flag that the kernel did not offer, large writes apart,
  whatever the file system's \<^verbatim>\<open>init\<close> asks for, as long as it leaves the field for what is possible as it is.\<close>

theorem init_asks_only_offered:
  assumes "do_init page initf se a l = Inr (Inr out, se1, l1)" "keeps_capable initf"
    and "get32 a 0 = Inr 7" "get32 a 4 = Inr minor" "23 \<le> minor" "kernel_flags a minor = Inr inflags"
  shows "\<exists>f1 f2. get32 out 12 = Inr f1 \<and> get32 out 32 = Inr f2 \<and>
    sub_flags (ucast f1 OR push_bit 32 (ucast f2)) (inflags OR FUSE_BIG_WRITES)"
proof -
  obtain conn1 agreed conn2 l2 se2 bufsize realloc
    where asked: "(if se_has se Op_init then ask_init initf conn1 l else Inr ((Some conn1, conn1), l)) = Inr ((agreed, conn2), l2)"
      and answer: "answer_init page se2 a minor inflags bufsize realloc agreed = Inr (Inr out, se1)"
      and conn1: "capable_ext conn1 = capable_of minor inflags"
    using assms(1,3-) by (auto simp: do_init_def Let_def cbind_Inr_iff)
  have "capable_ext conn = capable_of minor inflags" if "agreed = Some conn" for conn
    using asked ask_init_capable [OF assms(2), of conn1 l agreed conn2 l2] conn1 that by (auto split: if_splits)
  from answer_init_flags [OF answer assms(5,6) this] show ?thesis .
qed

section \<open>Bounds\<close>

lemma three_quarters: "mb < 0x10000 \<Longrightarrow> mb * 3 div 4 \<le> mb" for mb :: "32 word"
  by (simp add: word_le_nat_alt word_less_nat_alt unat_div unat_word_ariths)

lemma background_bounds:
  assumes "13 \<le> proto_minor conn"
  shows "max_background (agree_background conn) < 0x10000"
    "congestion_threshold (agree_background conn) \<le> max_background (agree_background conn)"
proof -
  let ?mb = "if 0x10000 \<le> max_background conn then 0xffff else max_background conn"
  have mb: "?mb < 0x10000" by auto
  have "\<not> proto_minor conn < 13" using assms by simp
  then show "max_background (agree_background conn) < 0x10000"
    "congestion_threshold (agree_background conn) \<le> max_background (agree_background conn)"
    using mb three_quarters [OF mb] by (auto simp: agree_background_def Let_def simp del: div_mult_self4 split: if_splits)
qed

lemma write_bound: "max_write (agree_background conn) = max_write conn" "proto_minor (agree_background conn) = proto_minor conn"
  "proto_minor (agree_sizes conn bufsize realloc) = proto_minor conn"
  by (simp_all add: agree_background_def agree_sizes_def Let_def)

lemma min_ucast: "ucast (ucast (min (ucast (w :: 32 word)) v :: 64 word) :: 32 word) = min (ucast w) v" for v :: "64 word"
proof -
  have "unat w < 2 ^ LENGTH(32)" by (rule unsigned_less)
  then have "unat (ucast w :: 64 word) < 2 ^ 32" by (simp add: unsigned_ucast_eq take_bit_nat_eq_self)
  then have "unat (min (ucast w) v :: 64 word) < 2 ^ 32" by (auto simp: min_def word_le_nat_alt)
  then show ?thesis
    by (intro word_unat_eq_iff [THEN iffD2]) (simp add: unsigned_ucast_eq unsigned_take_bit_eq take_bit_nat_eq_self)
qed

lemma add_below: "x \<le> b - c \<Longrightarrow> c \<le> b \<Longrightarrow> x + c \<le> b" for x b c :: "64 word"
proof -
  assume "x \<le> b - c" "c \<le> b"
  then have "unat x + unat c \<le> unat b" by (simp add: word_le_nat_alt unat_sub)
  moreover have "unat (x + c) \<le> unat x + unat c" unfolding unat_word_ariths by (rule mod_less_eq_dividend)
  ultimately show ?thesis unfolding word_le_nat_alt by linarith
qed

lemma size_bound:
  "ucast (max_write (agree_sizes conn bufsize False)) + FUSE_BUFFER_HEADER_SIZE \<le> max FUSE_MIN_READ_BUFFER bufsize"
proof -
  let ?b = "max FUSE_MIN_READ_BUFFER bufsize"
  have b: "8192 \<le> ?b" by (simp add: FUSE_MIN_READ_BUFFER_def)
  have "(if bufsize < FUSE_MIN_READ_BUFFER then FUSE_MIN_READ_BUFFER else bufsize) = ?b" by (auto simp: max_def)
  then have "ucast (max_write (agree_sizes conn bufsize False)) = min (ucast (max_write conn)) (?b - FUSE_BUFFER_HEADER_SIZE)"
    by (cases conn) (simp only: agree_sizes_def Let_def if_False session_conn.simps min_ucast)
  moreover have "x + 0x1000 \<le> ?b" if "x \<le> ?b - 0x1000" for x
    by (rule add_below [OF that order_trans [OF _ b]]) simp
  ultimately show ?thesis by (simp add: FUSE_BUFFER_HEADER_SIZE_def)
qed


section \<open>A connection\<close>

text \<open>A kernel that offers asynchronous reads, truncation on open, large writes and more pages, and a session that has
  every operation and whose file system asks for nothing else.\<close>

definition sample_conn :: session_conn where
  "sample_conn = \<lparr>capable_ext = 0, want_ext = 0, want = 0, no_interrupt = False, proto_major = 0, proto_minor = 0,
     capable = 0, max_write = 0xffffffff, max_read = 0, max_readahead = 0xffffffff, max_background = 100000,
     congestion_threshold = 0, time_gran = 0, max_backing_stack_depth = 0\<rparr>"

definition sample_session :: "nat \<Rightarrow> session" where
  "sample_session n = \<lparr>se_deny_others = True, se_has = (\<lambda>op. True), se_got_init = False, se_got_destroy = False, se_owner = 1000,
     se_conn = sample_conn, se_fresh = n, se_list = [], se_interrupts = [], se_notify_ctr = 1, se_notify_list = [],
     se_bufsize = 0x21000, se_error = 0, se_exited = False, se_buf_reallocable = False, se_max_read = 0\<rparr>"

definition sample_init :: carr where
  "sample_init = put32 7 @ put32 40 @ put32 0x20000 @ put32 0x400029 @ put32 0 @ replicate 44 (Some NUL)"

definition asks_nothing :: "session_conn \<Rightarrow> unit \<Rightarrow> cerror + session_conn \<times> unit" where
  "asks_nothing conn l = Inr (conn, l)"

lemma asks_nothing_keeps: "keeps_capable asks_nothing"
  by (simp add: keeps_capable_def asks_nothing_def)

lemma sample_fields [simp]:
  "get32 sample_init 0 = Inr 7" "get32 sample_init 4 = Inr 40" "get32 sample_init 8 = Inr 0x20000" "get32 sample_init 12 = Inr 0x400029"
  by (simp_all add: sample_init_def)

lemma sample_flags: "kernel_flags sample_init 40 = Inr 0x400029"
  by (simp add: kernel_flags_def FUSE_INIT_EXT_def)

lemma sample_capable: "capable_of 40 0x400029 = 0x4000b89"
  by (simp add: capable_of_def flag_table_def kernel_only_def cap_defs FUSE_HAS_EXPIRE_ONLY_def)

definition sample_offer :: session_conn where
  "sample_offer = sample_conn\<lparr>proto_major := 7, proto_minor := 40, capable_ext := 0x4000b89, want_ext := 0xa09,
     max_readahead := 0x20000, time_gran := 1\<rparr>"

lemma sample_offered:
  "offered_conn (\<lambda>op. True) (sample_conn\<lparr>proto_major := 7, proto_minor := 40, capable_ext := 0, want_ext := 0\<rparr>) 40 0x20000 0x400029 =
     sample_offer"
  unfolding offered_conn_def sample_capable
  by (simp add: default_wants_def set_default_def fuse_set_feature_flag_def sample_conn_def sample_offer_def cap_defs)

lemma sample_asked:
  "\<exists>conn. ask_init asks_nothing sample_offer () = Inr ((Some conn, conn), ()) \<and> want_ext conn = 0xa09 \<and>
     capable_ext conn = 0x4000b89 \<and> max_read conn = 0 \<and> proto_minor conn = 40"
  by (simp add: ask_init_def asks_nothing_def sample_offer_def sample_conn_def convert_to_conn_want_ext_def
      fuse_conn_info.defs fuse_lower_32_bits_def fuse_higher_32_bits_def Let_def)

lemma sample_agrees:
  "\<exists>out se1. do_init 4096 asks_nothing (sample_session 0) sample_init () = Inr (Inr out, se1, ()) \<and> 13 \<le> proto_minor (se_conn se1)"
proof -
  obtain conn where c: "ask_init asks_nothing sample_offer () = Inr ((Some conn, conn), ())" "want_ext conn = 0xa09"
    "capable_ext conn = 0x4000b89" "max_read conn = 0" "proto_minor conn = 40" using sample_asked by blast
  have "\<exists>out se1. answer_init page se sample_init 40 0x400029 b r (Some conn) = Inr (Inr out, se1) \<and> 13 \<le> proto_minor (se_conn se1)"
    if "se_max_read se = 0" for page se b r
    using c that by (simp add: answer_init_def want_flags_valid_def write_bound Let_def)
  then have "\<exists>out se1. answer_init 4096 (sample_session 0\<lparr>se_got_init := True, se_conn := conn\<rparr>) sample_init 40 0x400029
      0x21000 False (Some conn) = Inr (Inr out, se1) \<and> 13 \<le> proto_minor (se_conn se1)"
    by (simp add: sample_session_def)
  then show ?thesis
    by (auto simp: do_init_def sample_flags sample_session_def sample_offered c Let_def FUSE_MAX_PAGES_def)
qed

text \<open>The sample connection asks for no more than it is offered.\<close>

theorem init_asks_only_offered_witness:
  "\<exists>out se1 f1 f2. do_init 4096 asks_nothing (sample_session 0) sample_init () = Inr (Inr out, se1, ()) \<and>
     get32 out 12 = Inr f1 \<and> get32 out 32 = Inr f2 \<and> sub_flags (ucast f1 OR push_bit 32 (ucast f2)) (0x400029 OR FUSE_BIG_WRITES)"
  using sample_agrees init_asks_only_offered [OF _ asks_nothing_keeps sample_fields(1,2) _ sample_flags] by fastforce


end
