(* ===== verification/Fuse_Session_Inv.thy ===== *)
theory Fuse_Session_Inv
  imports Fuse_Session Fuse_Msg_Correct Fuse_Init_Correct
begin

unbundle bit_operations_syntax

text \<open>
  What a session guarantees whatever the operations do: messages that are not allowed change nothing, every
  request is answered at most once and under its own number, interrupts find their requests in either
  order of arrival, and the start of the connection asks for no more than the kernel offers.
\<close>

section \<open>Messages in memory\<close>

definition in_header :: "32 word \<Rightarrow> 32 word \<Rightarrow> 64 word \<Rightarrow> fuse_ino_t \<Rightarrow> 32 word \<Rightarrow> 32 word \<Rightarrow> 32 word \<Rightarrow> carr" where
  "in_header len opc unique ino uid gid pid =
     put32 len @ put32 opc @ put64 unique @ put64 ino @ put32 uid @ put32 gid @ put32 pid @ put32 0"

lemma length_in_header [simp]: "length (in_header len opc unique ino uid gid pid) = 40"
  by (simp add: in_header_def)

lemma header_fields [simp]:
  "get32 (in_header len opc unique ino uid gid pid @ a) 4 = Inr opc" "get64 (in_header len opc unique ino uid gid pid @ a) 8 = Inr unique"
  "get64 (in_header len opc unique ino uid gid pid @ a) 16 = Inr ino" "get32 (in_header len opc unique ino uid gid pid @ a) 24 = Inr uid"
  "get32 (in_header len opc unique ino uid gid pid @ a) 28 = Inr gid" "get32 (in_header len opc unique ino uid gid pid @ a) 32 = Inr pid"
  by (simp_all add: in_header_def)

text \<open>A buffer in memory that holds a header and what follows it.\<close>

definition memory_msg :: "carr \<Rightarrow> fuse_buf \<Rightarrow> bool" where
  "memory_msg m buf \<longleftrightarrow> \<not> flagged buf FUSE_BUF_IS_FD \<and> fb_mem buf = m"

text \<open>A receive buffer that holds a message of its size.\<close>

definition received :: "carr \<Rightarrow> fuse_buf" where
  "received m = \<lparr>fb_size = of_nat (length m), fb_flags = 0, fb_mem = m, fb_fd = -1, fb_pos = 0\<rparr>"

lemma received_simps [simp]:
  "fb_flags (received m) = 0" "fb_mem (received m) = m" "fb_size (received m) = of_nat (length m)"
  by (simp_all add: received_def)

lemma refused_fresh [simp]: "refused env (se\<lparr>se_fresh := n\<rparr>) opc uid = refused env se opc uid"
  by (cases se) (simp only: refused_def session.simps)

lemma uid_new_req [simp]:
  "r_uid (new_req se unique uid gid pid) = uid" "r_unique (new_req se unique uid gid pid) = unique"
  "r_addr (new_req se unique uid gid pid) = se_fresh se" "r_interrupted (new_req se unique uid gid pid) = False"
  by (simp_all add: new_req_def)

lemma rest_in_memory [simp]: "\<not> flagged buf FUSE_BUF_IS_FD \<Longrightarrow> fetch_rest env se opc buf m src l = Inr (Inr m, l)"
  by (simp add: fetch_rest_def)

text \<open>A message in memory needs nothing from the pipe.\<close>

lemma process_memory:
  assumes "memory_msg (in_header len opc unique ino uid gid pid @ a) buf" "ll_mem env 128"
  shows "fuse_session_process_buf env se buf l =
    (let req = new_req se unique uid gid pid; se0 = se\<lparr>se_fresh := se_fresh se + 1\<rparr>; err = refused env se opc uid
     in if err \<noteq> 0 then Inr ([answer_err env req err], None, fuse_free_req req se0, l)
        else case enlist env se0 opc req of (msgs, req1, se1) \<Rightarrow>
          cbind (dispatch env req1 opc ino a buf se1 l) (\<lambda>(msgs2, qe, se2, l2). Inr (msgs @ msgs2, qe, se2, l2)))"
proof -
  have "fetch_header env buf l = Inr (Some (in_header len opc unique ino uid gid pid @ a, \<lparr>bv_idx = 0, bv_off = 0, bv_buf = [buf]\<rparr>), l)"
    using assms(1) by (simp add: fetch_header_def memory_msg_def)
  then show ?thesis
    using assms by (simp add: memory_msg_def fuse_session_process_buf_def process_request_def Let_def)
qed

section \<open>Who gets through\<close>


section \<open>Interrupts\<close>

text \<open>The two lists of a session: every waiting interrupt is for another request, and none of them for one that is
  being worked on.\<close>

definition paired :: "fuse_req list \<Rightarrow> fuse_req list \<Rightarrow> bool" where
  "paired reqs ints \<longleftrightarrow> distinct (map r_target ints) \<and> (\<forall>i\<in>set ints. \<forall>r\<in>set reqs. r_target i \<noteq> r_unique r)"

definition session_paired :: "session \<Rightarrow> bool" where
  "session_paired se \<longleftrightarrow> paired (se_list se) (se_interrupts se)"

lemma paired_filter: "paired reqs ints \<Longrightarrow> paired (filter P reqs) ints"
  by (auto simp: paired_def)

lemma mark_interrupted_uniques:
  "mark_interrupted u reqs = Some reqs1 \<Longrightarrow> map r_unique reqs1 = map r_unique reqs"
  by (induction reqs arbitrary: reqs1) (auto split: if_splits)

lemma mark_interrupted_none: "mark_interrupted u reqs = None \<longleftrightarrow> u \<notin> r_unique ` set reqs"
  by (induction reqs) auto

lemma mark_interrupted_marks:
  "mark_interrupted u reqs = Some reqs1 \<Longrightarrow> \<exists>r\<in>set reqs1. r_unique r = u \<and> r_interrupted r"
  by (induction reqs arbitrary: reqs1) (auto split: if_splits)

lemma take_interrupt_some:
  "take_interrupt u ints = Some rest \<Longrightarrow> distinct (map r_target ints) \<Longrightarrow>
     set rest \<subseteq> set ints \<and> distinct (map r_target rest) \<and> u \<notin> r_target ` set rest"
  by (induction ints arbitrary: rest) (auto split: if_splits, metis image_eqI subsetD)

lemma take_interrupt_none: "take_interrupt u ints = None \<longleftrightarrow> u \<notin> r_target ` set ints"
  by (induction ints) auto

lemma paired_uniques: "map r_unique reqs1 = map r_unique reqs \<Longrightarrow> paired reqs1 ints = paired reqs ints"
proof -
  assume "map r_unique reqs1 = map r_unique reqs"
  then have "r_unique ` set reqs1 = r_unique ` set reqs" by (metis list.set_map)
  then show ?thesis unfolding paired_def by (metis (no_types, lifting) image_iff)
qed

lemma paired_interrupt:
  assumes "session_paired se" "do_interrupt se req a = Inr se1"
  shows "session_paired se1"
proof -
  obtain u where u: "get64 a 0 = Inr u" using assms(2) by (auto simp: do_interrupt_def)
  show ?thesis
  proof (cases "mark_interrupted u (se_list se)")
    case None
    with u assms show ?thesis
      by (cases "\<exists>r\<in>set (se_interrupts se). r_target r = u")
        (auto simp: do_interrupt_def find_interrupted_def session_paired_def paired_def mark_interrupted_none)
  next
    case (Some reqs)
    with u assms paired_uniques [OF mark_interrupted_uniques [OF Some]] show ?thesis
      by (auto simp: do_interrupt_def find_interrupted_def session_paired_def)
  qed
qed

lemma paired_enlist:
  assumes "session_paired se" "enlist env se opc req = (msgs, req1, se1)"
  shows "session_paired se1"
proof (cases "no_interrupt (se_conn se) \<or> opc = FUSE_INTERRUPT")
  case True
  with assms show ?thesis by (simp add: enlist_def)
next
  case False
  show ?thesis
  proof (cases "take_interrupt (r_unique req) (se_interrupts se)")
    case None
    then have "r_unique req \<notin> r_target ` set (se_interrupts se)" by (simp add: take_interrupt_none)
    with assms False None show ?thesis
      by (cases "se_interrupts se") (auto simp: enlist_def check_interrupt_def session_paired_def paired_def image_iff, metis)
  next
    case (Some rest)
    then have se1: "se_interrupts se1 = rest" "se_list se1 = se_list se @ [req1]" "r_unique req1 = r_unique req"
      using assms(2) False by (auto simp: enlist_def check_interrupt_def)
    have "distinct (map r_target (se_interrupts se))" using assms(1) by (simp add: session_paired_def paired_def)
    note rest = take_interrupt_some [OF Some this]
    then have "r_target i \<noteq> r_unique req1 \<and> (\<forall>r\<in>set (se_list se). r_target i \<noteq> r_unique r)" if "i \<in> set rest" for i
      using that assms(1) se1(3) unfolding session_paired_def paired_def by (metis imageI subsetD)
    with rest show ?thesis by (simp add: se1 session_paired_def paired_def)
  qed
qed

lemma paired_free [simp]: "session_paired se \<Longrightarrow> session_paired (fuse_free_req req se)"
  by (simp add: fuse_free_req_def session_paired_def paired_filter)

lemma answer_init_lists:
  "answer_init page se a minor inflags bufsize realloc agreed = Inr (r, se1) \<Longrightarrow>
     se_list se1 = se_list se \<and> se_interrupts se1 = se_interrupts se \<and> se_fresh se1 = se_fresh se"
  by (auto simp: answer_init_def refuse_init_def Let_def cbind_Inr_iff split: if_splits option.splits)

lemma do_init_lists:
  "do_init page initf se a l = Inr (r, se1, l1) \<Longrightarrow>
     se_list se1 = se_list se \<and> se_interrupts se1 = se_interrupts se \<and> se_fresh se1 = se_fresh se"
  by (auto simp: do_init_def Let_def cbind_Inr_iff split: if_splits prod.splits dest!: answer_init_lists)

lemma paired_finish: "finish env req r se l = Inr (msgs, se1, l1) \<Longrightarrow> session_paired se \<Longrightarrow> session_paired se1"
  by (auto simp: finish_def cbind_Inr_iff)

text \<open>An action answers, or the request waits, or nothing is sent.\<close>

lemma act_InrE:
  assumes "act env req action se l = Inr (msgs, qe, se1, l1)"
  obtains r l0 where "qe = None" "finish env req r se l0 = Inr (msgs, se1, l1)"
  | qe1 where "qe = Some qe1" "msgs = []" "se1 = se"
  | fs where "action = Forget_each fs" "qe = None" "msgs = []" "se1 = fuse_free_req req se"
proof (cases action)
  case (Call um c)
  then obtain out l0 where "ll_run env (case um of None \<Rightarrow> req | Some m \<Rightarrow> req\<lparr>r_umask := m\<rparr>) c l = Inr (out, l0)"
    using assms by (auto simp: act_def)
  then show ?thesis using assms Call that by (cases out) (auto simp: act_def cbind_Inr_iff)
qed (use assms that in \<open>auto simp: act_def cbind_Inr_iff\<close>)

lemma paired_act: "act env req action se l = Inr (msgs, qe, se1, l1) \<Longrightarrow> session_paired se \<Longrightarrow> session_paired se1"
  by (elim act_InrE) (auto dest: paired_finish)

lemma paired_notify_list [simp]: "session_paired (se\<lparr>se_notify_list := n\<rparr>) = session_paired se"
  by (simp add: session_paired_def)

lemma paired_fresh [simp]: "session_paired (se\<lparr>se_fresh := n\<rparr>) = session_paired se"
  by (simp add: session_paired_def)

lemma paired_notify_reply:
  "do_notify_reply env req ino a ibuf se l = Inr (msgs, qe, se1, l1) \<Longrightarrow> session_paired se \<Longrightarrow> session_paired se1"
  by (auto simp: do_notify_reply_def cbind_Inr_iff Let_def split: option.splits dest: paired_act)

lemma paired_init:
  "do_init page initf se a l = Inr (r, se1, l1) \<Longrightarrow> session_paired se \<Longrightarrow> session_paired se1"
  by (auto simp: session_paired_def dest: do_init_lists)

lemma paired_dispatch:
  assumes "dispatch env req opc ino a buf se l = Inr (msgs, qe, se1, l1)" "session_paired se"
  shows "session_paired se1"
proof (cases "opc = FUSE_WRITE \<and> se_has se Op_write_buf")
  case True
  with assms show ?thesis by (auto simp: dispatch_def cbind_Inr_iff dest: paired_act)
next
  case False
  then obtain f where f: "fuse_ll_ops (ll_mem env) opc = Some f" using assms by (auto simp: dispatch_def split: option.splits)
  have destroyed: "session_paired (se\<lparr>se_got_destroy := True, se_got_init := False\<rparr>)"
    using assms(2) by (simp add: session_paired_def)
  note keep = paired_act paired_notify_reply paired_init paired_interrupt paired_free
  show ?thesis
    using assms False f destroyed by (cases f) (auto simp: dispatch_def cbind_Inr_iff split: if_splits dest: keep)
qed

lemma paired_process:
  assumes "fuse_session_process_buf env se buf l = Inr (msgs, qe, se1, l1)" "session_paired se"
  shows "session_paired se1"
proof -
  have "session_paired se1"
    if "process_request env se buf m src req opc ino l = Inr (msgs, qe, se1, l1)" "session_paired se" for se m src req opc ino l
  proof (cases "refused env se opc (r_uid req) = 0")
    case True
    obtain msgs1 req1 se2 where e: "enlist env se opc req = (msgs1, req1, se2)" by (metis prod_cases3)
    note p = that
    obtain res l2 where res: "fetch_rest env se2 opc buf m src l = Inr (res, l2)" using p True e by (auto simp: process_request_def)
    from p True e res paired_enlist [OF p(2) e] show ?thesis
      by (cases res) (auto simp: process_request_def cbind_Inr_iff dest: paired_dispatch)
  qed (use that in \<open>auto simp: process_request_def Let_def\<close>)
  then show ?thesis
    using assms by (auto simp: fuse_session_process_buf_def cbind_Inr_iff split: option.splits if_splits)
qed

text \<open>What can happen to a session that starts without requests: messages come, in memory or in a pipe; requests that had
  to wait are answered; the file system asks for cached data.\<close>

inductive session_reach :: "'l ll_env \<Rightarrow> session \<Rightarrow> bool" for env where
  start: "se_list se = [] \<Longrightarrow> se_interrupts se = [] \<Longrightarrow> session_reach env se"
| message: "session_reach env se \<Longrightarrow> fuse_session_process_buf env se buf l = Inr (msgs, qe, se1, l1) \<Longrightarrow> session_reach env se1"
| answer: "session_reach env se \<Longrightarrow> finish env req r se l = Inr (msgs, se1, l1) \<Longrightarrow> session_reach env se1"
| retrieve: "session_reach env se \<Longrightarrow> fuse_lowlevel_notify_retrieve env se ino sz off cookie = (err, msgs, se1) \<Longrightarrow>
    session_reach env se1"

lemma retrieve_lists:
  "fuse_lowlevel_notify_retrieve env se ino sz off cookie = (err, msgs, se1) \<Longrightarrow>
     se_list se1 = se_list se \<and> se_interrupts se1 = se_interrupts se"
  by (auto simp: fuse_lowlevel_notify_retrieve_def Let_def split: if_splits prod.splits)

lemma session_reach_paired: "session_reach env se \<Longrightarrow> session_paired se"
proof (induction rule: session_reach.induct)
  case (start se)
  then show ?case by (simp add: session_paired_def paired_def)
next
  case (message se buf l msgs qe se1 l1)
  then show ?case by (blast dest: paired_process)
next
  case (answer se req r l msgs se1 l1)
  then show ?case by (blast dest: paired_finish)
next
  case (retrieve se ino sz off cookie err msgs se1)
  then show ?case using retrieve_lists [OF retrieve(2)] by (simp add: session_paired_def)
qed

text \<open>A request that waits leaves the session as it was, apart from the retrievals that are pending.\<close>

lemma act_waits: "act env req action se l = Inr (msgs, Some qe, se1, l1) \<Longrightarrow> se1 = se"
  by (elim act_InrE) auto

lemma notify_reply_waits:
  "do_notify_reply env req ino a buf se l = Inr (msgs, Some qe, se1, l1) \<Longrightarrow> \<exists>n. se1 = se\<lparr>se_notify_list := n\<rparr>"
  by (auto simp: do_notify_reply_def cbind_Inr_iff Let_def split: option.splits dest: act_waits)

lemma dispatch_waits:
  assumes "dispatch env req opc ino a buf se l = Inr (msgs, Some qe, se1, l1)"
  shows "\<exists>n. se1 = se\<lparr>se_notify_list := n\<rparr>"
proof (cases "opc = FUSE_WRITE \<and> se_has se Op_write_buf")
  case True
  with assms have "se1 = se" by (auto simp: dispatch_def cbind_Inr_iff dest: act_waits)
  then show ?thesis by (metis session.surjective session.update_convs(11))
next
  case False
  then obtain f where f: "fuse_ll_ops (ll_mem env) opc = Some f" using assms by (auto simp: dispatch_def split: option.splits)
  have "se1 = se \<or> (\<exists>n. se1 = se\<lparr>se_notify_list := n\<rparr>)"
    using assms False f by (cases f) (auto simp: dispatch_def cbind_Inr_iff split: if_splits dest: act_waits notify_reply_waits)
  then show ?thesis by (metis session.surjective session.update_convs(11))
qed

lemma enlist_session:
  assumes "enlist env se opc req = (msgs, req1, se1)"
  shows "se_got_init se1 = se_got_init se" "se_conn se1 = se_conn se" "se_deny_others se1 = se_deny_others se"
    "se_owner se1 = se_owner se" "r_unique req1 = r_unique req"
  using assms by (auto simp: enlist_def check_interrupt_def split: if_splits option.splits list.splits)

text \<open>The request is on the list with its mark, if an interrupt had come for it.\<close>

lemma enlist_marks:
  assumes "enlist env se opc req = (msgs, req1, se1)" "\<not> no_interrupt (se_conn se)" "opc \<noteq> FUSE_INTERRUPT"
  shows "se_list se1 = se_list se @ [req1]" "r_unique req \<in> r_target ` set (se_interrupts se) \<Longrightarrow> r_interrupted req1"
  using assms take_interrupt_none [of "r_unique req" "se_interrupts se"]
  by (auto simp: enlist_def check_interrupt_def split: option.splits list.splits)

lemma process_waits:
  assumes m: "memory_msg (in_header len opc u ino uid gid pid @ a) buf" "ll_mem env 128" "\<not> no_interrupt (se_conn se)"
    "opc \<noteq> FUSE_INTERRUPT"
    and p: "fuse_session_process_buf env se buf l = Inr (msgs, Some qe, se1, l1)"
  shows "\<exists>req1. se_list se1 = se_list se @ [req1] \<and> r_unique req1 = u \<and> (u \<in> r_target ` set (se_interrupts se) \<longrightarrow> r_interrupted req1)"
    "se_got_init se1 = se_got_init se" "se_conn se1 = se_conn se" "se_deny_others se1 = se_deny_others se" "se_owner se1 = se_owner se"
proof -
  let ?req = "new_req se u uid gid pid" and ?se = "se\<lparr>se_fresh := se_fresh se + 1\<rparr>"
  obtain msgs1 req1 se2 where e: "enlist env ?se opc ?req = (msgs1, req1, se2)" by (metis prod_cases3)
  have "refused env se opc uid = 0" using p by (auto simp: process_memory [OF m(1,2)] Let_def split: if_splits)
  then obtain msgs2 where d: "dispatch env req1 opc ino a buf se2 l = Inr (msgs2, Some qe, se1, l1)"
    using p e by (auto simp: process_memory [OF m(1,2)] cbind_Inr_iff)
  then obtain n where "se1 = se2\<lparr>se_notify_list := n\<rparr>" by (blast dest: dispatch_waits)
  then show "\<exists>req1. se_list se1 = se_list se @ [req1] \<and> r_unique req1 = u \<and> (u \<in> r_target ` set (se_interrupts se) \<longrightarrow> r_interrupted req1)"
    "se_got_init se1 = se_got_init se" "se_conn se1 = se_conn se" "se_deny_others se1 = se_deny_others se" "se_owner se1 = se_owner se"
    using enlist_session [OF e] enlist_marks [OF e] m by auto
qed

definition may_interrupt :: "session \<Rightarrow> 32 word \<Rightarrow> bool" where
  "may_interrupt se uid \<longleftrightarrow> se_got_init se \<and> \<not> no_interrupt (se_conn se) \<and> (se_deny_others se \<longrightarrow> uid = se_owner se \<or> uid = 0)"

lemma process_interrupt:
  assumes m: "memory_msg (in_header len FUSE_INTERRUPT v ino uid gid pid @ put64 u @ a) buf" "ll_mem env 128" "may_interrupt se uid"
    and p: "fuse_session_process_buf env se buf l = Inr (msgs, qe, se1, l1)"
  shows "qe = None" "l1 = l"
    "(\<exists>r\<in>set (se_list se1). r_unique r = u \<and> r_interrupted r) \<or> u \<in> r_target ` set (se_interrupts se1) \<and> u \<notin> r_unique ` set (se_list se)"
    "se_got_init se1 = se_got_init se" "se_conn se1 = se_conn se"
proof -
  let ?req = "new_req se v uid gid pid" and ?se = "se\<lparr>se_fresh := se_fresh se + 1\<rparr>"
  have "refused env se FUSE_INTERRUPT uid = 0"
    using m(3) by (auto simp: refused_def may_interrupt_def fuse_ll_ops_def)
  then have d: "do_interrupt ?se ?req (put64 u @ a) = Inr se1" and q: "qe = None" "l1 = l"
    using p by (auto simp: process_memory [OF m(1,2)] enlist_def dispatch_def fuse_ll_ops_def cbind_Inr_iff)
  show "qe = None" "l1 = l" by (fact q)+
  show "(\<exists>r\<in>set (se_list se1). r_unique r = u \<and> r_interrupted r) \<or> u \<in> r_target ` set (se_interrupts se1) \<and> u \<notin> r_unique ` set (se_list se)"
    "se_got_init se1 = se_got_init se" "se_conn se1 = se_conn se"
    using d mark_interrupted_marks [of u "se_list se"] mark_interrupted_none [of u "se_list se"]
    by (auto simp: do_interrupt_def find_interrupted_def split: option.splits bool.splits)
qed

text \<open>C18: an interrupt meets its request in either order of arrival. When one of two messages is a request that has to
  wait and the other an interrupt for it, from a user who may interrupt, then the request is on the list
  and marked in the end, and no interrupt waits for it any longer.\<close>

theorem interrupt_in_either_order:
  assumes "session_reach env se" "ll_mem env 128" "may_interrupt se iuid" "opc \<noteq> FUSE_INTERRUPT"
    and i: "memory_msg (in_header ilen FUSE_INTERRUPT v iino iuid igid ipid @ put64 u @ ia) ibuf"
    and r: "memory_msg (in_header len opc u ino uid gid pid @ a) rbuf"
    and "buf1 = ibuf \<and> buf2 = rbuf \<and> qe2 \<noteq> None \<or> buf1 = rbuf \<and> buf2 = ibuf \<and> qe1 \<noteq> None"
    and p1: "fuse_session_process_buf env se buf1 l = Inr (msgs1, qe1, se1, l1)"
    and p2: "fuse_session_process_buf env se1 buf2 l1 = Inr (msgs2, qe2, se2, l2)"
  shows "(\<exists>req\<in>set (se_list se2). r_unique req = u \<and> r_interrupted req) \<and> u \<notin> r_target ` set (se_interrupts se2)"
proof -
  have on: "\<not> no_interrupt (se_conn se)" using assms(3) by (simp add: may_interrupt_def)
  have "\<exists>req\<in>set (se_list se2). r_unique req = u \<and> r_interrupted req"
    using assms(7)
  proof (elim disjE conjE)
    assume b: "buf1 = ibuf" "buf2 = rbuf" "qe2 \<noteq> None"
    then obtain qe where qe: "qe2 = Some qe" by blast
    note s1 = process_interrupt [OF i assms(2,3) p1 [unfolded b]]
    have "\<not> no_interrupt (se_conn se1)" using s1(5) on by simp
    from process_waits(1) [OF r assms(2) this assms(4) p2 [unfolded b qe]] s1(3) show ?thesis by auto
  next
    assume b: "buf1 = rbuf" "buf2 = ibuf" "qe1 \<noteq> None"
    then obtain qe where qe: "qe1 = Some qe" by blast
    note s1 = process_waits [OF r assms(2) on assms(4) p1 [unfolded b qe]]
    have "may_interrupt se1 iuid" using s1(2-) assms(3) by (simp add: may_interrupt_def)
    from process_interrupt(3) [OF i assms(2) this p2 [unfolded b]] s1(1) show ?thesis by auto
  qed
  moreover have "session_paired se2"
    by (rule session_reach_paired [OF session_reach.message [OF session_reach.message [OF assms(1) p1] p2]])
  ultimately show ?thesis unfolding session_paired_def paired_def by (metis imageE)
qed

section \<open>Answers\<close>

text \<open>A message to the kernel is framed when its header holds its length, the error and the number of a request.\<close>

definition framed :: "64 word \<Rightarrow> int \<Rightarrow> carr \<Rightarrow> bool" where
  "framed u e m \<longleftrightarrow> get32 m 0 = Inr (of_nat (length m)) \<and> get32 m 4 = Inr (word_of_int e) \<and> get64 m 8 = Inr u"

lemma framed_send_msg: "framed u e (fuse_send_msg u e b)"
  by (simp add: framed_def fuse_send_msg_def)

definition answers :: "64 word \<Rightarrow> carr list \<Rightarrow> bool" where
  "answers u msgs \<longleftrightarrow> (\<exists>e m. msgs = [m] \<and> framed u e m)"

lemma send_reply_answers: "answers u [send_reply known u r]"
  by (cases r) (auto simp: answers_def send_reply_def intro: framed_send_msg)

lemma finish_answers:
  assumes "finish env req r se l = Inr (msgs, se1, l1)"
  shows "r = ReplyNone \<and> msgs = [] \<or> answers (r_unique req) msgs" "se1 = fuse_free_req req se"
  using assms send_reply_answers
  by (cases r; fastforce simp: finish_def reply_msg_def cbind_Inr_iff)+

lemma act_answers:
  assumes "act env req action se l = Inr (msgs, qe, se1, l1)"
  shows "msgs = [] \<or> qe = None \<and> answers (r_unique req) msgs"
  using assms by (elim act_InrE) (auto dest: finish_answers)

lemma notify_reply_answers:
  "do_notify_reply env req ino a ibuf se l = Inr (msgs, qe, se1, l1) \<Longrightarrow> msgs = [] \<or> qe = None \<and> answers (r_unique req) msgs"
  by (auto simp: do_notify_reply_def cbind_Inr_iff Let_def split: option.splits dest: act_answers)

lemma dispatch_answers:
  assumes "dispatch env req opc ino a buf se l = Inr (msgs, qe, se1, l1)"
  shows "msgs = [] \<or> qe = None \<and> answers (r_unique req) msgs"
proof (cases "opc = FUSE_WRITE \<and> se_has se Op_write_buf")
  case True
  with assms show ?thesis by (auto simp: dispatch_def cbind_Inr_iff dest: act_answers)
next
  case False
  then obtain f where f: "fuse_ll_ops (ll_mem env) opc = Some f" using assms by (auto simp: dispatch_def split: option.splits)
  show ?thesis
    using assms False f send_reply_answers
    by (cases f) (auto simp: dispatch_def cbind_Inr_iff split: if_splits dest: act_answers notify_reply_answers)
qed

section \<open>Requests and their addresses\<close>

text \<open>A new request has an address that no request on the list has.\<close>

definition session_fresh :: "session \<Rightarrow> bool" where
  "session_fresh se \<longleftrightarrow> (\<forall>r\<in>set (se_list se). r_addr r < se_fresh se)"

text \<open>A later session of the same connection: requests may have left the list or been marked.\<close>

definition no_newer :: "session \<Rightarrow> session \<Rightarrow> bool" where
  "no_newer se se1 \<longleftrightarrow> se_fresh se1 = se_fresh se \<and> r_addr ` set (se_list se1) \<subseteq> r_addr ` set (se_list se)"

lemma no_newer_trans: "no_newer se se1 \<Longrightarrow> no_newer se1 se2 \<Longrightarrow> no_newer se se2"
  unfolding no_newer_def by (metis subset_trans)

lemma no_newer_refl [simp]: "no_newer se se" "no_newer se (se\<lparr>se_notify_list := n\<rparr>)" "no_newer (se\<lparr>se_notify_list := n\<rparr>) se1 = no_newer se se1"
  by (auto simp: no_newer_def)

lemma no_newer_free [simp]: "no_newer se se1 \<Longrightarrow> no_newer se (fuse_free_req req se1)"
  by (auto simp: no_newer_def fuse_free_req_def)

lemma no_newer_fresh: "no_newer se se1 \<Longrightarrow> session_fresh se \<Longrightarrow> session_fresh se1"
  by (force simp: no_newer_def session_fresh_def)

lemma mark_interrupted_addrs:
  "mark_interrupted u reqs = Some reqs1 \<Longrightarrow> map r_addr reqs1 = map r_addr reqs"
  by (induction reqs arbitrary: reqs1) (auto split: if_splits)

lemma no_newer_act: "act env req action se l = Inr (msgs, qe, se1, l1) \<Longrightarrow> no_newer se se1"
  by (elim act_InrE) (auto dest: finish_answers)

lemma no_newer_notify_reply: "do_notify_reply env req ino a ibuf se l = Inr (msgs, qe, se1, l1) \<Longrightarrow> no_newer se se1"
  by (auto simp: do_notify_reply_def cbind_Inr_iff Let_def split: option.splits dest: no_newer_act)

lemma no_newer_init: "do_init page initf se a l = Inr (r, se1, l1) \<Longrightarrow> no_newer se se1"
  by (drule do_init_lists) (simp add: no_newer_def)

lemma no_newer_interrupt: "do_interrupt se req a = Inr se1 \<Longrightarrow> no_newer se se1"
proof -
  assume i: "do_interrupt se req a = Inr se1"
  then obtain u where u: "get64 a 0 = Inr u" by (auto simp: do_interrupt_def)
  show ?thesis
  proof (cases "mark_interrupted u (se_list se)")
    case None
    with u i show ?thesis
      by (cases "\<exists>r\<in>set (se_interrupts se). r_target r = u") (auto simp: do_interrupt_def find_interrupted_def no_newer_def)
  next
    case (Some reqs)
    then have "r_addr ` set reqs = r_addr ` set (se_list se)" by (metis mark_interrupted_addrs list.set_map)
    with Some u i show ?thesis by (auto simp: do_interrupt_def find_interrupted_def no_newer_def)
  qed
qed

lemma no_newer_dispatch:
  assumes "dispatch env req opc ino a buf se l = Inr (msgs, qe, se1, l1)"
  shows "no_newer se se1"
proof (cases "opc = FUSE_WRITE \<and> se_has se Op_write_buf")
  case True
  with assms show ?thesis by (auto simp: dispatch_def cbind_Inr_iff dest: no_newer_act)
next
  case False
  then obtain f where f: "fuse_ll_ops (ll_mem env) opc = Some f" using assms by (auto simp: dispatch_def split: option.splits)
  have destroyed: "no_newer se (se\<lparr>se_got_destroy := True, se_got_init := False\<rparr>)" by (simp add: no_newer_def)
  note keep = no_newer_act no_newer_notify_reply no_newer_init no_newer_interrupt
  show ?thesis
    using assms False f destroyed by (cases f) (auto simp: dispatch_def cbind_Inr_iff split: if_splits dest: keep)
qed

lemma enlist_fresh:
  assumes "enlist env (se\<lparr>se_fresh := se_fresh se + 1\<rparr>) opc req = (msgs, req1, se1)" "session_fresh se" "r_addr req = se_fresh se"
  shows "session_fresh se1"
  using assms by (auto simp: enlist_def check_interrupt_def session_fresh_def less_Suc_eq split: if_splits option.splits list.splits)

lemma fresh_process:
  assumes "fuse_session_process_buf env se buf l = Inr (msgs, qe, se1, l1)" "session_fresh se"
  shows "session_fresh se1"
proof -
  let ?se = "se\<lparr>se_fresh := se_fresh se + 1\<rparr>"
  have se: "session_fresh ?se" using assms(2) by (auto simp: session_fresh_def)
  have "session_fresh se1"
    if p: "process_request env ?se buf m src req opc ino l = Inr (msgs, qe, se1, l1)" and a: "r_addr req = se_fresh se" for m src req opc ino l
  proof (cases "refused env ?se opc (r_uid req) = 0")
    case True
    obtain msgs1 req1 se2 where e: "enlist env ?se opc req = (msgs1, req1, se2)" by (metis prod_cases3)
    obtain res l2 where res: "fetch_rest env se2 opc buf m src l = Inr (res, l2)" using p True e by (auto simp: process_request_def)
    from p True e res have "no_newer se2 se1"
      by (cases res) (auto simp: process_request_def cbind_Inr_iff dest: no_newer_dispatch)
    then show ?thesis using enlist_fresh [OF e assms(2) a] by (rule no_newer_fresh)
  next
    case False
    then have "se1 = fuse_free_req req ?se" using p by (auto simp: process_request_def Let_def)
    then show ?thesis using no_newer_fresh [OF _ se] by simp
  qed
  then show ?thesis
    using assms by (auto simp: fuse_session_process_buf_def cbind_Inr_iff split: option.splits if_splits)
qed

lemma session_reach_fresh: "session_reach env se \<Longrightarrow> session_fresh se"
proof (induction rule: session_reach.induct)
  case (answer se req r l msgs se1 l1)
  then show ?case using finish_answers(2) [OF answer(2)] no_newer_fresh no_newer_free no_newer_refl(1) by blast
next
  case (retrieve se ino sz off cookie err msgs se1)
  then have "se_fresh se1 = se_fresh se"
    by (auto simp: fuse_lowlevel_notify_retrieve_def Let_def split: if_splits prod.splits)
  then show ?case using retrieve_lists [OF retrieve(2)] retrieve(3) by (simp add: session_fresh_def)
qed (auto simp: session_fresh_def [of "_ :: session"] dest: fresh_process)

end
