(* ===== verification/Fuse_Session_Correct.thy ===== *)
theory Fuse_Session_Correct
  imports Fuse_Session_Inv
begin

unbundle bit_operations_syntax

text \<open>
  The way of a request through a session: a well-formed message reaches the operation it is for, what the operation
  answers is sent under the number of the request, and every request gets one answer if the
  operations keep their contract.
\<close>

section \<open>From the message to the operation\<close>

text \<open>A decoded request is a call, perhaps with a file creation mask.\<close>

definition mask_of :: "ll_action \<Rightarrow> fuse_req \<Rightarrow> fuse_req" where
  "mask_of action req = (case action of Call (Some m) c \<Rightarrow> req\<lparr>r_umask := m\<rparr> | _ \<Rightarrow> req)"

definition call_of :: "ll_action \<Rightarrow> ll_call option" where
  "call_of action = (case action of Call um c \<Rightarrow> Some c | _ \<Rightarrow> None)"

lemma act_replied:
  assumes "call_of action = Some c" "ll_run env (mask_of action req) c l = Inr (Replied r, l1)"
    and "reply_msg (ll_mem env) (ll_known env) (ll_sys env) (se_conn se) (r_unique req) r l1 = Inr (msgs, l2)"
  shows "act env req action se l = Inr (msgs, None, fuse_free_req req se, l2)"
  using assms by (cases action) (auto simp: act_def call_of_def mask_of_def finish_def split: option.splits)

lemma act_waiting:
  assumes "call_of action = Some c" "ll_run env (mask_of action req) c l = Inr (Wait qe, l1)"
  shows "act env req action se l = Inr ([], Some qe, se, l1)"
  using assms by (cases action) (auto simp: act_def call_of_def mask_of_def split: option.splits)

text \<open>Without waiting interrupts the request just joins the list, if there is one, and leaves it with its answer.\<close>

lemma enlist_quiet:
  assumes "se_interrupts se = []" "opc \<noteq> FUSE_INTERRUPT"
  shows "enlist env se opc req = ([], req, if no_interrupt (se_conn se) then se else se\<lparr>se_list := se_list se @ [req]\<rparr>)"
  using assms by (simp add: enlist_def check_interrupt_def)

lemma free_enlisted:
  assumes "session_fresh se" "r_addr req = se_fresh se"
  shows "fuse_free_req req (if no_interrupt (se_conn se) then se\<lparr>se_fresh := n\<rparr> else se\<lparr>se_fresh := n, se_list := se_list se @ [req]\<rparr>) =
    se\<lparr>se_fresh := n\<rparr>"
proof -
  have "filter (\<lambda>r. r_addr r \<noteq> se_fresh se) (se_list se) = se_list se"
    using assms(1) by (auto simp: session_fresh_def filter_id_conv)
  then show ?thesis using assms(2) by (auto simp: fuse_free_req_def)
qed

lemma dispatch_request:
  assumes "kreq_ok (se_conn se) k" "12 \<le> proto_minor (se_conn se)" "se_has se (uses k)" "\<forall>n. ll_mem env n"
    and "opcode k = FUSE_WRITE \<longrightarrow> \<not> se_has se Op_write_buf"
  shows "dispatch env req (opcode k) ino (body (se_conn se) k @ rest) buf se l = act env req (meant ino rest k) se l"
proof -
  have d: "decode_msg (ll_mem env) (opcode k) (se_conn se) (se_has se) ino (body (se_conn se) k @ rest) = Inr (meant ino rest k)"
    by (rule decode_kreq) (use assms in simp_all)
  have "\<exists>f. fuse_ll_ops (ll_mem env) (opcode k) = Some (Func f)" by (cases k) simp_all
  then obtain f where f: "fuse_ll_ops (ll_mem env) (opcode k) = Some (Func f)" ..
  then have "f (se_conn se) (se_has se) ino (body (se_conn se) k @ rest) = Inr (meant ino rest k)"
    using d by (simp add: decode_msg_def)
  then show ?thesis using f assms(5) by (auto simp: dispatch_def)
qed

text \<open>A request whose operation answers at once leaves the session as it was.\<close>

lemma process_replied:
  assumes "session_fresh se" "se_interrupts se = []" "refused env se opc uid = 0" "opc \<noteq> FUSE_INTERRUPT"
    and m: "memory_msg (in_header len opc u ino uid gid pid @ a) buf" "ll_mem env 128"
    and d: "\<And>se1 req. se_conn se1 = se_conn se \<Longrightarrow> se_has se1 = se_has se \<Longrightarrow>
      dispatch env req opc ino a buf se1 l = act env req action se1 l"
    and c: "call_of action = Some c" "ll_run env (mask_of action (new_req se u uid gid pid)) c l = Inr (Replied r, l1)"
    and r: "reply_msg (ll_mem env) (ll_known env) (ll_sys env) (se_conn se) u r l1 = Inr (msgs, l2)"
  shows "fuse_session_process_buf env se buf l = Inr (msgs, None, se\<lparr>se_fresh := se_fresh se + 1\<rparr>, l2)"
proof -
  let ?req = "new_req se u uid gid pid" and ?se = "se\<lparr>se_fresh := Suc (se_fresh se)\<rparr>"
  let ?se1 = "if no_interrupt (se_conn se) then ?se else ?se\<lparr>se_list := se_list se @ [?req]\<rparr>"
  have same: "se_conn ?se1 = se_conn se" "se_has ?se1 = se_has se" by simp_all
  have e: "enlist env ?se opc ?req = ([], ?req, ?se1)"
    using enlist_quiet [of ?se opc env ?req] assms(2,4) by (simp split: if_splits)
  have "dispatch env ?req opc ino a buf ?se1 l = act env ?req action ?se1 l"
    by (rule d) simp_all
  also have "\<dots> = Inr (msgs, None, fuse_free_req ?req ?se1, l2)"
    by (rule act_replied [OF c]) (use r same in simp)
  also have "fuse_free_req ?req ?se1 = ?se"
    using free_enlisted [OF assms(1), of ?req] by simp
  finally show ?thesis
    using assms(3) by (simp add: process_memory [OF m] e)
qed

text \<open>C4: a well-formed request that is not refused reaches the operation it is for with the arguments it carries, and
  what the operation answers is sent under the number of the request; afterwards the session is as before. The
  protocol is recent, no interrupt waits and memory suffices; writes are decoded here only when the session has no
  operation for buffer vectors.\<close>

theorem requests_reach_operations:
  assumes "session_reach env se" "se_interrupts se = []" "refused env se (opcode k) uid = 0"
    and "memory_msg (in_header len (opcode k) u ino uid gid pid @ body (se_conn se) k @ rest) buf"
    and "kreq_ok (se_conn se) k" "12 \<le> proto_minor (se_conn se)" "se_has se (uses k)" "\<forall>n. ll_mem env n"
    and "opcode k = FUSE_WRITE \<longrightarrow> \<not> se_has se Op_write_buf"
    and "call_of (meant ino rest k) = Some c"
    and "ll_run env (mask_of (meant ino rest k) (new_req se u uid gid pid)) c l = Inr (Replied r, l1)"
    and "reply_msg (ll_mem env) (ll_known env) (ll_sys env) (se_conn se) u r l1 = Inr (msgs, l2)"
  shows "fuse_session_process_buf env se buf l = Inr (msgs, None, se\<lparr>se_fresh := se_fresh se + 1\<rparr>, l2)"
proof (rule process_replied [OF session_reach_fresh [OF assms(1)] assms(2,3) _ assms(4) _ _ assms(10-12)])
  show "opcode k \<noteq> FUSE_INTERRUPT" by (cases k) simp_all
  show "ll_mem env 128" using assms(8) by simp
  show "dispatch env req (opcode k) ino (body (se_conn se) k @ rest) buf se1 l = act env req (meant ino rest k) se1 l"
    if "se_conn se1 = se_conn se" "se_has se1 = se_has se" for se1 req
    using dispatch_request [of se1 k env req ino rest buf l] assms(5-9) that by simp
qed

text \<open>A file system that turns interrupts off in its \<^verbatim>\<open>init\<close> leaves the request of that message on the list although
  it has been answered and freed: the request joined the list while interrupts were on, and is not taken off once they
  are off. The list is not walked again in such a session.\<close>

lemma freed_init_request_stays:
  assumes m: "memory_msg (in_header len FUSE_INIT u ino uid gid pid @ a) buf" "ll_mem env 128" "refused env se FUSE_INIT uid = 0"
    and "\<not> no_interrupt (se_conn se)" "no_interrupt (se_conn se1)"
    and p: "fuse_session_process_buf env se buf l = Inr (msgs, qe, se1, l1)"
  shows "\<exists>r\<in>set (se_list se1). r_addr r = se_fresh se"
proof -
  let ?req = "new_req se u uid gid pid" and ?se = "se\<lparr>se_fresh := se_fresh se + 1\<rparr>"
  obtain msgs1 req1 se2 where e: "enlist env ?se FUSE_INIT ?req = (msgs1, req1, se2)" by (metis prod_cases3)
  then have "r_addr req1 = se_fresh se" "req1 \<in> set (se_list se2)"
    using assms(4) by (auto simp: enlist_def check_interrupt_def split: option.splits list.splits)
  moreover obtain r se3 where i: "do_init (ll_page env) (ll_init env) se2 a l = Inr (r, se3, l1)" and s1: "se1 = fuse_free_req req1 se3"
    using p m(3) e by (auto simp: process_memory [OF m(1,2)] dispatch_def cbind_Inr_iff)
  moreover have "se1 = se3" using s1 assms(5) by (auto simp: fuse_free_req_def split: if_splits)
  ultimately show ?thesis using do_init_lists [OF i] by auto
qed

section \<open>Writes from a buffer vector\<close>

text \<open>A write whose message has at least the bytes it announces is handed on as a vector of one buffer that starts
  with the data.\<close>

lemma dispatch_write:
  assumes "se_has se Op_write_buf" "9 \<le> proto_minor (se_conn se)" "\<not> flagged buf FUSE_BUF_IS_FD"
    and "length d < 2 ^ 32" "80 + length d \<le> unat (fb_size buf)"
  shows "dispatch env req FUSE_WRITE ino (body (se_conn se) (K_write fh off wflags owner flags d) @ rest) buf se l =
    act env req (Call None (Call_write_buf ino
      \<lparr>bv_idx = 0, bv_off = 0, bv_buf = [buf\<lparr>fb_mem := map Some d @ rest, fb_size := of_nat (length d)\<rparr>]\<rparr> off
      ((handle fh)\<lparr>fi_writepage := (wflags AND FUSE_WRITE_CACHE \<noteq> 0), fi_lock_owner := owner, fi_flags := flags\<rparr>))) se l"
proof -
  have "80 \<le> fb_size buf" using assms(5) by (simp add: word_le_nat_alt)
  then have "\<not> fb_size buf - 80 < (of_nat (length d) :: size_t)"
    using assms(4,5) by (simp add: word_less_nat_alt unat_sub unat_of_nat)
  moreover have "\<not> proto_minor (se_conn se) < 9" using assms(2) by simp
  ultimately show ?thesis
    using assms(1,3) count_field [OF assms(4)] by (simp add: dispatch_def do_write_buf_def write_info_def handle_def Let_def)
qed

section \<open>Requests without an answer\<close>

definition silent_call :: "ll_call \<Rightarrow> bool" where
  "silent_call c \<longleftrightarrow> (case c of Call_forget _ _ \<Rightarrow> True | Call_forget_multi _ \<Rightarrow> True | Call_retrieve_reply _ _ _ _ \<Rightarrow> True | _ \<Rightarrow> False)"

definition silent_action :: "ll_action \<Rightarrow> bool" where
  "silent_action action \<longleftrightarrow>
     (case action of Call um c \<Rightarrow> silent_call c | Forget_each fs \<Rightarrow> True | Answer_now r \<Rightarrow> r = ReplyNone)"

definition silent_opcode :: "32 word \<Rightarrow> bool" where
  "silent_opcode opc \<longleftrightarrow> opc \<in> set [FUSE_FORGET, FUSE_BATCH_FORGET, FUSE_INTERRUPT, FUSE_NOTIFY_REPLY]"

text \<open>A result that leads to an answer.\<close>

definition speaks :: "cerror + ll_action \<Rightarrow> bool" where
  "speaks m \<longleftrightarrow> (\<forall>action. m = Inr action \<longrightarrow> \<not> silent_action action)"

lemma speaks_now [simp]: "speaks (Inl e)" "speaks (Inr action) = (\<not> silent_action action)" "speaks missing"
  by (auto simp: speaks_def missing_def silent_action_def)

lemma speaks_intros:
  "(\<And>x. speaks (f x)) \<Longrightarrow> speaks (cbind m f)"
  "speaks t \<Longrightarrow> speaks e \<Longrightarrow> speaks (if b then t else e)"
  "(\<And>x y. speaks (g x y)) \<Longrightarrow> speaks (case p of (x, y) \<Rightarrow> g x y)"
  by (auto simp: speaks_def cbind_Inr_iff split: prod.splits)

definition loud :: "decoder \<Rightarrow> bool" where
  "loud d \<longleftrightarrow> (\<forall>conn has ino a. speaks (d conn has ino a))"

lemmas silent_defs = silent_action_def silent_call_def

lemma loud_names: "loud do_lookup_ll" "loud do_getattr" "loud do_setattr" "loud do_access" "loud do_readlink" "loud do_mknod"
  "loud do_mkdir" "loud do_unlink" "loud do_rmdir" "loud do_symlink" "loud do_rename" "loud do_rename2" "loud do_link" "loud do_tmpfile"
  unfolding loud_def name_defs do_tmpfile_def by (intro allI speaks_intros | simp add: silent_defs)+

lemma loud_files: "loud do_create" "loud do_open" "loud do_read" "loud do_write" "loud do_flush" "loud do_release" "loud do_fsync"
  "loud do_opendir" "loud do_readdir" "loud do_readdirplus" "loud do_releasedir" "loud do_fsyncdir" "loud do_statfs"
  unfolding loud_def file_defs Let_def by (intro allI speaks_intros | simp add: silent_defs)+

lemma loud_rest: "loud do_setxattr" "loud do_getxattr" "loud do_listxattr" "loud do_removexattr" "loud do_getlk" "loud do_setlk"
  "loud do_setlkw" "loud do_bmap" "loud do_ioctl" "loud (do_poll mem)" "loud do_fallocate" "loud do_copy_file_range" "loud do_lseek"
  unfolding loud_def rest_defs Let_def by (intro allI speaks_intros | simp add: silent_defs)+

lemma loud_table: "fuse_ll_ops mem opc = Some (Func d) \<Longrightarrow> \<not> silent_opcode opc \<Longrightarrow> loud d"
  using loud_names loud_files loud_rest
  by (auto simp: fuse_ll_ops_def silent_opcode_def split: if_splits)

lemma loud_write_buf: "speaks (do_write_buf conn ino a ibuf)"
  unfolding do_write_buf_def Let_def by (intro speaks_intros | simp add: silent_defs)+

lemma silent_entries:
  "fuse_ll_ops mem opc = Some Interrupt \<Longrightarrow> opc = FUSE_INTERRUPT" "fuse_ll_ops mem opc = Some Notify_reply \<Longrightarrow> opc = FUSE_NOTIFY_REPLY"
  by (simp_all add: fuse_ll_ops_def split: if_splits)

lemma silent_opcodes: "silent_opcode FUSE_INTERRUPT" "silent_opcode FUSE_NOTIFY_REPLY"
  by (simp_all add: silent_opcode_def)

lemma dispatch_table:
  assumes "\<not> (opc = FUSE_WRITE \<and> se_has se Op_write_buf)" "fuse_ll_ops (ll_mem env) opc = Some f"
  shows "dispatch env req opc ino a buf se l =
    (case f of
       Notify_reply \<Rightarrow> do_notify_reply env req ino a buf se l
     | Init \<Rightarrow>
         cbind (do_init (ll_page env) (ll_init env) se a l) (\<lambda>(r, se1, l1).
         Inr ([send_reply (ll_known env) (r_unique req) r], None, fuse_free_req req se1, l1))
     | Interrupt \<Rightarrow> cbind (do_interrupt se req a) (\<lambda>se1. Inr ([], None, se1, l))
     | Destroy \<Rightarrow>
         cbind (if se_has se Op_destroy then ll_destroy env l else Inr l) (\<lambda>l1.
         Inr ([send_reply (ll_known env) (r_unique req) (Inr [])], None,
              fuse_free_req req (se\<lparr>se_got_destroy := True, se_got_init := False\<rparr>), l1))
     | Cuse_init \<Rightarrow> Inl NullDeref
     | Func d \<Rightarrow> cbind (d (se_conn se) (se_has se) ino a) (\<lambda>action. act env req action se l))"
  unfolding dispatch_def if_not_P [OF assms(1)] assms(2) by (cases f) simp_all

text \<open>The interrupt that a new request may send back to the kernel.\<close>

lemma enlist_returns:
  assumes "enlist env se opc req = (msgs, req1, se1)" "ll_known env EAGAIN"
  shows "msgs = [] \<or> (\<exists>i m. i \<in> set (se_interrupts se) \<and> msgs = [m] \<and> framed (r_unique i) (- EAGAIN) m)"
proof -
  have "framed (r_unique i) (- EAGAIN) (answer_err env i EAGAIN)" for i
    using assms(2) framed_send_msg by (auto simp: answer_err_def send_reply_def checked_error_def EAGAIN_def)
  then show ?thesis
    using assms(1) by (auto simp: enlist_def check_interrupt_def split: if_splits option.splits list.splits)
qed

text \<open>What a session relies on: an operation of the table answers, unless the request is one without an answer.\<close>

locale answering =
  fixes run :: "fuse_req \<Rightarrow> ll_call \<Rightarrow> 'l \<Rightarrow> cerror + outcome \<times> 'l"
  assumes answered: "run req c l = Inr (Replied ReplyNone, l1) \<Longrightarrow> silent_call c"
begin

lemma act_one_answer:
  assumes "act env req action se l = Inr (msgs, None, se1, l1)" "ll_run env = run" "\<not> silent_action action"
  shows "answers (r_unique req) msgs"
proof (cases action)
  case (Call um c)
  let ?req = "case um of None \<Rightarrow> req | Some m \<Rightarrow> req\<lparr>r_umask := m\<rparr>"
  obtain out l0 where out: "run ?req c l = Inr (out, l0)" using assms(1,2) Call by (auto simp: act_def)
  then obtain r where r: "out = Replied r" "finish env req r se l0 = Inr (msgs, se1, l1)"
    using assms(1,2) Call by (cases out) (auto simp: act_def cbind_Inr_iff)
  then have "r \<noteq> ReplyNone" using answered out assms(3) Call by (auto simp: silent_action_def)
  with finish_answers(1) [OF r(2)] show ?thesis by blast
next
  case (Answer_now r)
  then have f: "finish env req r se l = Inr (msgs, se1, l1)" and "r \<noteq> ReplyNone"
    using assms by (auto simp: act_def cbind_Inr_iff silent_action_def)
  with finish_answers(1) [OF f] show ?thesis by blast
qed (use assms in \<open>simp add: silent_action_def\<close>)

lemma dispatch_one_answer:
  assumes d: "dispatch env req opc ino a buf se l = Inr (msgs, None, se1, l1)" and "ll_run env = run" "\<not> silent_opcode opc"
  shows "answers (r_unique req) msgs"
proof (cases "opc = FUSE_WRITE \<and> se_has se Op_write_buf")
  case True
  with d obtain action where "do_write_buf (se_conn se) ino a buf = Inr action" "act env req action se l = Inr (msgs, None, se1, l1)"
    by (auto simp: dispatch_def cbind_Inr_iff)
  then show ?thesis using assms(2) loud_write_buf [of "se_conn se" ino a buf] act_one_answer by (auto simp: speaks_def)
next
  case False
  then obtain f where f: "fuse_ll_ops (ll_mem env) opc = Some f" using d by (auto simp: dispatch_def split: option.splits)
  have quiet: "fuse_ll_ops (ll_mem env) opc \<noteq> Some Interrupt" "fuse_ll_ops (ll_mem env) opc \<noteq> Some Notify_reply"
    using assms(3) silent_entries [of "ll_mem env" opc] silent_opcodes by blast+
  note table = d [unfolded dispatch_table [OF False f]]
  show ?thesis
  proof (cases f)
    case (Func dec)
    then obtain action where "dec (se_conn se) (se_has se) ino a = Inr action" "act env req action se l = Inr (msgs, None, se1, l1)"
      using table by (auto simp: cbind_Inr_iff)
    moreover have "loud dec" using loud_table f Func assms(3) by blast
    ultimately show ?thesis using assms(2) act_one_answer by (auto simp: loud_def speaks_def)
  qed (use table f quiet send_reply_answers in \<open>auto simp: cbind_Inr_iff\<close>)
qed

text \<open>The messages sent when a request has come: an interrupt that goes back to the kernel, perhaps, and the answer.\<close>

lemma process_one_answer:
  assumes m: "memory_msg (in_header len opc u ino uid gid pid @ a) buf" "ll_mem env 128"
    and p: "fuse_session_process_buf env se buf l = Inr (msgs, None, se1, l1)"
    and "ll_run env = run" "\<not> silent_opcode opc" "ll_known env EAGAIN"
  shows "\<exists>returned own. msgs = returned @ own \<and> answers u own \<and>
    (returned = [] \<or> (\<exists>i m. i \<in> set (se_interrupts se) \<and> returned = [m] \<and> framed (r_unique i) (- EAGAIN) m))"
proof (cases "refused env se opc uid = 0")
  case True
  let ?req = "new_req se u uid gid pid" and ?se = "se\<lparr>se_fresh := se_fresh se + 1\<rparr>"
  obtain msgs1 req1 se2 where e: "enlist env ?se opc ?req = (msgs1, req1, se2)" by (metis prod_cases3)
  then obtain msgs2 where d: "dispatch env req1 opc ino a buf se2 l = Inr (msgs2, None, se1, l1)" and ms: "msgs = msgs1 @ msgs2"
    using p True by (auto simp: process_memory [OF m] cbind_Inr_iff)
  have "answers u msgs2" using dispatch_one_answer [OF d assms(4,5)] enlist_session(5) [OF e] by simp
  moreover have "msgs1 = [] \<or> (\<exists>i m. i \<in> set (se_interrupts se) \<and> msgs1 = [m] \<and> framed (r_unique i) (- EAGAIN) m)"
    using enlist_returns [OF e assms(6)] by simp
  ultimately show ?thesis using ms by blast
next
  case False
  then have "msgs = [answer_err env (new_req se u uid gid pid) (refused env se opc uid)]"
    using p by (simp add: process_memory [OF m] Let_def)
  then have "answers u msgs" using send_reply_answers [of "r_unique (new_req se u uid gid pid)"] by (simp add: answer_err_def)
  then show ?thesis by (intro exI [of _ "[]"] exI [of _ msgs]) simp
qed

end

end
