(* ===== verification/Fuse_Session_Sample.thy ===== *)
theory Fuse_Session_Sample
  imports Fuse_Session_Correct
begin

unbundle bit_operations_syntax

text \<open>
  Sample sessions: a connection that has started, operations that count their calls or always wait, and
  messages for them.
\<close>

definition sample_env :: "(fuse_req \<Rightarrow> ll_call \<Rightarrow> 'l \<Rightarrow> cerror + outcome \<times> 'l) \<Rightarrow> 'l ll_env" where
  "sample_env run =
     \<lparr>ll_mem = (\<lambda>n. True), ll_known = (\<lambda>e. True),
      ll_sys = \<lparr>sys_write = (\<lambda>w fd d p. (Inl EINVAL, w)), sys_read = (\<lambda>w fd n p. (Inl EINVAL, w)),
        sys_splice = (\<lambda>w i p j q n fl. (Inl EINVAL, w))\<rparr>,
      ll_page = 4096, ll_run = run, ll_init = (\<lambda>conn l. Inr (conn, l)), ll_destroy = Inr\<rparr>"

definition counting :: "fuse_req \<Rightarrow> ll_call \<Rightarrow> nat \<Rightarrow> cerror + outcome \<times> nat" where
  "counting req c l = Inr (Replied (ReplyErr 0), l + 1)"

definition stuck :: "fuse_req \<Rightarrow> ll_call \<Rightarrow> nat \<Rightarrow> cerror + outcome \<times> nat" where
  "stuck req c l = Inr (Wait \<lparr>q_id = r_addr req, q_nodeid1 = 1, q_name1 = None, q_path1 = True, q_wnode1 = False, q_nodeid2 = 0,
     q_name2 = None, q_path2 = False, q_wnode2 = False, q_err = 0, q_done = False, q_signals = 0, q_result = []\<rparr>, l)"

definition started :: session where
  "started = sample_session 0\<lparr>se_got_init := True, se_conn := sample_offer\<rparr>"

lemma sample_env_simps [simp]:
  "ll_mem (sample_env run) n" "ll_known (sample_env run) e" "ll_run (sample_env run) = run"
  by (simp_all add: sample_env_def)

lemma started_simps [simp]:
  "se_got_init started" "se_deny_others started" "se_owner started = 1000" "se_list started = []" "se_interrupts started = []"
  "se_fresh started = 0" "proto_minor (se_conn started) = 40" "\<not> no_interrupt (se_conn started)" "se_has started op"
  by (simp_all add: started_def sample_session_def sample_offer_def sample_conn_def)

lemma started_reach: "session_reach env started"
  by (rule session_reach.start) simp_all

text \<open>A user other than the owner asks for data of the file system, root asks for statistics and interrupts them.\<close>

definition statfs_msg :: carr where "statfs_msg = in_header 40 FUSE_STATFS 5 1 0 0 7 @ body (se_conn started) K_statfs @ []"
definition interrupt_msg :: carr where "interrupt_msg = in_header 48 FUSE_INTERRUPT 6 0 0 0 7 @ put64 5 @ []"

lemma sample_memory:
  "memory_msg (in_header 40 FUSE_STATFS 5 1 0 0 7 @ body (se_conn started) K_statfs @ []) (received statfs_msg)"
  "memory_msg (in_header 48 FUSE_INTERRUPT 6 0 0 0 7 @ put64 5 @ []) (received interrupt_msg)"
  by (simp_all add: memory_msg_def statfs_msg_def interrupt_msg_def)

lemma sample_counted:
  "\<exists>msgs se1. fuse_session_process_buf (sample_env counting) started (received statfs_msg) 3 = Inr (msgs, None, se1, 4)"
  by (simp add: process_memory [OF sample_memory(1)] refused_def enlist_def check_interrupt_def dispatch_def do_statfs_def
      act_def counting_def finish_def reply_msg_def Let_def)


theorem requests_reach_operations_witness:
  "fuse_session_process_buf (sample_env counting) started (received statfs_msg) 3 =
     Inr ([fuse_send_msg 5 0 []], None, started\<lparr>se_fresh := 1\<rparr>, 4)"
  using requests_reach_operations [of "sample_env counting" started K_statfs 0 40 5 1 0 7 "[]" "received statfs_msg"
      "Call_statfs 1" 3 "ReplyErr 0" 4 "[fuse_send_msg 5 0 []]" 4, OF started_reach] sample_memory(1)
  by (simp add: refused_def call_of_def counting_def reply_msg_def Fuse_Reply.send_reply_def checked_error_def)

definition interrupted :: session where
  "interrupted = started\<lparr>se_fresh := 1, se_interrupts := [(new_req started 6 0 0 7)\<lparr>r_target := 5\<rparr>]\<rparr>"

lemma sample_interrupt:
  "fuse_session_process_buf (sample_env stuck) started (received interrupt_msg) 0 = Inr ([], None, interrupted, 0)"
  using get_here(2) [of 5 "[]"]
  by (simp add: process_memory [OF sample_memory(2)] refused_def enlist_def dispatch_def do_interrupt_def find_interrupted_def
      interrupted_def new_req_def Let_def)

lemma sample_statfs:
  "\<exists>qe se2 l2. fuse_session_process_buf (sample_env stuck) interrupted (received statfs_msg) 0 = Inr ([], Some qe, se2, l2)"
  by (simp add: process_memory [OF sample_memory(1)] interrupted_def refused_def enlist_def check_interrupt_def dispatch_def
      do_statfs_def act_def stuck_def Let_def)

theorem interrupt_in_either_order_witness:
  "\<exists>se1 se2 qe l1 l2. fuse_session_process_buf (sample_env stuck) started (received interrupt_msg) 0 = Inr ([], None, se1, l1) \<and>
     fuse_session_process_buf (sample_env stuck) se1 (received statfs_msg) l1 = Inr ([], Some qe, se2, l2) \<and>
     (\<exists>req\<in>set (se_list se2). r_unique req = 5 \<and> r_interrupted req) \<and> 5 \<notin> r_target ` set (se_interrupts se2)"
proof -
  obtain qe se2 l2 where p: "fuse_session_process_buf (sample_env stuck) interrupted (received statfs_msg) 0 = Inr ([], Some qe, se2, l2)"
    using sample_statfs by blast
  have "may_interrupt started 0" by (simp add: may_interrupt_def)
  from interrupt_in_either_order [OF started_reach _ this _ sample_memory(2) sample_memory(1) _ sample_interrupt p] sample_interrupt p
  show ?thesis by fastforce
qed

end
