(* ===== verification/Fuse_Loop.thy ===== *)
theory Fuse_Loop
  imports Fuse_Session_Sample
begin

unbundle bit_operations_syntax

text \<open>
  The loop that reads messages from the device and hands them to the session
  (\<^verbatim>\<open>fuse-3.17.2/lib/fuse_loop.c\<close>, and \<^verbatim>\<open>fuse_lowlevel.c\<close> for receiving).

  What the device gives to successive reads is a list: the bytes of a message, or an error number, and whether a
  signal asked the session to stop in the meantime. A run ends when the loop returns, when it waits for the
  device at the end of the list, or when a request waits for a path that nobody will release. The buffer is kept from one
  message to the next and grows; a message may also be spliced into a pipe first. Buffers of callers other
  than the loop, custom devices, channels of several threads and debug output are left out.
\<close>

section \<open>The device, the pipe and the buffer\<close>

datatype dev_read = Bytes carr | Failed int

type_synonym dev_event = "dev_read \<times> bool"

text \<open>The pipe of the thread: the descriptor to read from, the one to write to, its size and whether it may grow.\<close>

record ll_pipe =
  pp_in :: int
  pp_out :: int
  pp_size :: nat
  pp_can_grow :: bool

text \<open>The system calls: a new pipe; the size of a pipe set (\<open>Inl\<close> is the error); the largest size allowed for
  pipes as \<^verbatim>\<open>/proc\<close> tells it; the state after bytes were moved into a pipe; and whether a pipe has bytes left.\<close>

record 'l loop_env =
  lp_ll :: "'l ll_env"
  lp_pipe :: "'l \<Rightarrow> (int \<times> int) option \<times> 'l"
  lp_resize :: "int \<Rightarrow> nat \<Rightarrow> 'l \<Rightarrow> (int + nat) \<times> 'l"
  lp_pipe_max :: "'l \<Rightarrow> (int + nat) \<times> 'l"
  lp_fill :: "int \<Rightarrow> carr \<Rightarrow> 'l \<Rightarrow> 'l"
  lp_left :: "int \<Rightarrow> 'l \<Rightarrow> bool"

record recv_buf =
  rb_mem :: "carr option"
  rb_mem_size :: "64 word"

record 'l loop_state =
  ls_se :: session
  ls_rb :: recv_buf
  ls_pipe :: "ll_pipe option"
  ls_l :: 'l
  ls_dev :: "dev_event list"

definition EINTR :: int where "EINTR = 4"
definition ENODEV :: int where "ENODEV = 19"

definition ROUND_UP :: "64 word \<Rightarrow> 64 word \<Rightarrow> 64 word" where
  "ROUND_UP val to = (val + (to - 1)) AND NOT (to - 1)"

text \<open>The data of a write come to lie at the start of a page: the block is whole pages, and the message starts
  the length of two headers before the end of the first page. What is behind the start is the buffer.\<close>

definition buf_alloc :: "'l ll_env \<Rightarrow> 64 word \<Rightarrow> carr option" where
  "buf_alloc env n =
     (let new_size = ROUND_UP (n + of_nat write_header_size) (ucast (ll_page env))
      in if \<not> ll_mem env (unat new_size) then None
         else Some (replicate (unat new_size - (unat (ll_page env) - write_header_size)) None))"

definition fuse_session_exit :: "session \<Rightarrow> session" where
  "fuse_session_exit se = se\<lparr>se_exited := True\<rparr>"

definition fuse_session_reset :: "session \<Rightarrow> session" where
  "fuse_session_reset se = se\<lparr>se_exited := False, se_error := 0\<rparr>"

text \<open>The signals that came during a read.\<close>

definition signalled :: "dev_event \<Rightarrow> session \<Rightarrow> session" where
  "signalled ev se = (if snd ev then fuse_session_exit se else se)"

definition mem_buf :: "carr \<Rightarrow> nat \<Rightarrow> fuse_buf" where
  "mem_buf m n = \<lparr>fb_size = of_nat n, fb_flags = 0, fb_mem = m, fb_fd = 0, fb_pos = 0\<rparr>"

definition pipe_buf :: "int \<Rightarrow> nat \<Rightarrow> fuse_buf" where
  "pipe_buf fd n = \<lparr>fb_size = of_nat n, fb_flags = FUSE_BUF_IS_FD, fb_mem = [], fb_fd = fd, fb_pos = 0\<rparr>"

section \<open>Reading a message\<close>

text \<open>\<^verbatim>\<open>read\<close> into the buffer. A read that was too short for the kernel is done again when the connection has come to need a
  larger buffer, one that was interrupted is done again as it is. \<open>None\<close>: the device has nothing more.\<close>

fun read_device ::
    "'l ll_env \<Rightarrow> session \<Rightarrow> recv_buf \<Rightarrow> carr \<Rightarrow> 64 word \<Rightarrow> dev_event list \<Rightarrow>
       cerror + (int \<times> carr \<times> session \<times> recv_buf \<times> dev_event list) option" where
  "read_device env se rb m n [] = Inr None"
| "read_device env se rb m n (ev # evs) =
     (let se1 = signalled ev se
      in case fst ev of
           Bytes data \<Rightarrow>
             cbind (memcpy_cells m 0 (take (unat n) data)) (\<lambda>m1.
             let rb1 = rb\<lparr>rb_mem := Some m1\<rparr>; res = length (take (unat n) data)
             in Inr (Some (if se_exited se1 then 0 else if res < 40 then - EIO else int res, m1, se1, rb1, evs)))
         | Failed e \<Rightarrow>
             if se_exited se1 then Inr (Some (0, m, se1, rb, evs))
             else if e = EINVAL \<and> n < se_bufsize se1
             then (case buf_alloc env (se_bufsize se1) of
                     None \<Rightarrow> Inr (Some (- ENOMEM, m, se1, rb, evs))
                   | Some m1 \<Rightarrow>
                       read_device env se1 \<lparr>rb_mem = Some m1, rb_mem_size = se_bufsize se1\<rparr> m1 (se_bufsize se1) evs)
             else if e = ENOENT then read_device env se1 rb m n evs
             else if e = ENODEV then Inr (Some (0, m, fuse_session_exit se1, rb, evs))
             else Inr (Some (- e, m, se1, rb, evs)))"

text \<open>The way without a pipe: the buffer is taken the first time.\<close>

definition receive_read ::
    "'l loop_env \<Rightarrow> 'l loop_state \<Rightarrow> cerror + (int \<times> fuse_buf \<times> 'l loop_state) option" where
  "receive_read env st =
     (let rb0 = ls_rb st;
          rb = (case rb_mem rb0 of
                  Some m \<Rightarrow> rb0
                | None \<Rightarrow> \<lparr>rb_mem = buf_alloc (lp_ll env) (se_bufsize (ls_se st)), rb_mem_size = se_bufsize (ls_se st)\<rparr>)
      in case rb_mem rb of
           None \<Rightarrow> Inr (Some (- ENOMEM, mem_buf [] 0, st))
         | Some m \<Rightarrow>
             cbind (read_device (lp_ll env) (ls_se st) rb m (rb_mem_size rb) (ls_dev st)) (\<lambda>r.
             Inr (map_option (\<lambda>(res, m1, se1, rb1, evs).
               (res, mem_buf m1 (nat res), st\<lparr>ls_se := se1, ls_rb := rb1, ls_dev := evs\<rparr>)) r)))"

section \<open>Splicing a message into the pipe\<close>

definition fuse_ll_get_pipe :: "'l loop_env \<Rightarrow> 'l loop_state \<Rightarrow> ll_pipe option \<times> 'l loop_state" where
  "fuse_ll_get_pipe env st =
     (case ls_pipe st of
        Some p \<Rightarrow> (Some p, st)
      | None \<Rightarrow>
          if \<not> ll_mem (lp_ll env) 24 then (None, st)
          else case lp_pipe env (ls_l st) of
                 (None, l1) \<Rightarrow> (None, st\<lparr>ls_l := l1\<rparr>)
               | (Some (fd0, fd1), l1) \<Rightarrow>
                   let p = \<lparr>pp_in = fd0, pp_out = fd1, pp_size = unat (ll_page (lp_ll env)) * 16, pp_can_grow = True\<rparr>
                   in (Some p, st\<lparr>ls_pipe := Some p, ls_l := l1\<rparr>))"

definition fuse_ll_clear_pipe :: "'l loop_state \<Rightarrow> 'l loop_state" where
  "fuse_ll_clear_pipe st = st\<lparr>ls_pipe := None\<rparr>"

text \<open>The pipe is made as large as the system allows. The result is that size, or negative.\<close>

definition grow_pipe_to_max :: "'l loop_env \<Rightarrow> int \<Rightarrow> 'l \<Rightarrow> int \<times> 'l" where
  "grow_pipe_to_max env fd l =
     (case lp_pipe_max env l of
        (Inl e, l1) \<Rightarrow> (- e, l1)
      | (Inr n, l1) \<Rightarrow>
          (case lp_resize env fd n l1 of (Inl e, l2) \<Rightarrow> (- e, l2) | (Inr _, l2) \<Rightarrow> (int n, l2)))"

text \<open>The pipe when it is large enough for the largest message. A pipe that was made as large as possible is only used from
  the next message on.\<close>

definition usable_pipe :: "'l loop_env \<Rightarrow> 'l loop_state \<Rightarrow> ll_pipe option \<times> 'l loop_state" where
  "usable_pipe env st =
     (case fuse_ll_get_pipe env st of
        (None, st1) \<Rightarrow> (None, st1)
      | (Some p, st1) \<Rightarrow>
          let n = unat (se_bufsize (ls_se st1))
          in if n \<le> pp_size p then (Some p, st1)
             else if \<not> pp_can_grow p then (None, st1)
             else case lp_resize env (pp_in p) n (ls_l st1) of
                    (Inl _, l1) \<Rightarrow>
                      (case grow_pipe_to_max env (pp_in p) l1 of
                         (res, l2) \<Rightarrow>
                           (None, st1\<lparr>ls_pipe := Some (p\<lparr>pp_can_grow := False,
                              pp_size := (if 0 < res then nat res else pp_size p)\<rparr>), ls_l := l2\<rparr>))
                  | (Inr m, l1) \<Rightarrow>
                      let p1 = p\<lparr>pp_size := m\<rparr>; st2 = st1\<lparr>ls_pipe := Some p1, ls_l := l1\<rparr>
                      in if m < n then (None, st2) else (Some p1, st2))"

text \<open>A small message is copied on into the buffer; a large one stays in the pipe.\<close>

definition receive_small ::
    "'l loop_env \<Rightarrow> ll_pipe \<Rightarrow> nat \<Rightarrow> 'l loop_state \<Rightarrow> cerror + int \<times> fuse_buf \<times> 'l loop_state" where
  "receive_small env p n st =
     (let bufsize = se_bufsize (ls_se st);
          rb = (case rb_mem (ls_rb st) of
                  Some m \<Rightarrow> ls_rb st
                | None \<Rightarrow> \<lparr>rb_mem = buf_alloc (lp_ll env) bufsize, rb_mem_size = bufsize\<rparr>)
      in case rb_mem rb of
           None \<Rightarrow> Inr (- ENOMEM, mem_buf [] 0, st)
         | Some m \<Rightarrow>
             let dst = \<lparr>bv_idx = 0, bv_off = 0, bv_buf = [(mem_buf m 0)\<lparr>fb_size := bufsize\<rparr>]\<rparr>;
                 src = \<lparr>bv_idx = 0, bv_off = 0, bv_buf = [pipe_buf (pp_in p) n]\<rparr>
             in cbind (fuse_buf_copy (ll_sys (lp_ll env)) dst src 0 (ls_l st)) (\<lambda>(res, dst1, src1, l1).
                let m1 = fb_mem (bv_buf dst1 ! 0); st1 = st\<lparr>ls_rb := rb\<lparr>rb_mem := Some m1\<rparr>, ls_l := l1\<rparr>
                in if res < 0 then Inr (res, mem_buf m1 0, fuse_ll_clear_pipe st1)
                   else if nat res < n then Inr (- EIO, mem_buf m1 0, fuse_ll_clear_pipe st1)
                   else if nat res \<noteq> n then Inl AssertFail
                   else Inr (res, mem_buf m1 n, st1)))"

definition receive_splice ::
    "'l loop_env \<Rightarrow> ll_pipe \<Rightarrow> 'l loop_state \<Rightarrow> cerror + (int \<times> fuse_buf \<times> 'l loop_state) option" where
  "receive_splice env p st =
     (case ls_dev st of
        [] \<Rightarrow> Inr None
      | ev # evs \<Rightarrow>
          let se1 = signalled ev (ls_se st); st1 = st\<lparr>ls_se := se1, ls_dev := evs\<rparr>
          in case fst ev of
               Failed e \<Rightarrow>
                 Inr (Some (if se_exited se1 then (0, mem_buf [] 0, st1)
                            else if e = ENODEV then (0, mem_buf [] 0, st1\<lparr>ls_se := fuse_session_exit se1\<rparr>)
                            else (- e, mem_buf [] 0, st1)))
             | Bytes data0 \<Rightarrow>
                 let data = take (unat (se_bufsize se1)) data0; n = length data;
                     st2 = st1\<lparr>ls_l := lp_fill env (pp_out p) data (ls_l st1)\<rparr>
                 in if se_exited se1 then Inr (Some (0, mem_buf [] 0, st2))
                    else if n < 40 then Inr (Some (- EIO, mem_buf [] 0, st2))
                    else if n < 80 + unat (ll_page (lp_ll env))
                    then cbind (receive_small env p n st2) (\<lambda>r. Inr (Some r))
                    else Inr (Some (int n, pipe_buf (pp_in p) n, st2)))"

definition fuse_session_receive_buf ::
    "'l loop_env \<Rightarrow> 'l loop_state \<Rightarrow> cerror + (int \<times> fuse_buf \<times> 'l loop_state) option" where
  "fuse_session_receive_buf env st0 =
     (let se0 = ls_se st0;
          st = (if \<not> se_got_init se0 \<and> \<not> se_buf_reallocable se0 then st0\<lparr>ls_se := se0\<lparr>se_buf_reallocable := True\<rparr>\<rparr> else st0);
          conn = se_conn (ls_se st)
      in if proto_minor conn < 14 \<or> want_ext conn AND FUSE_CAP_SPLICE_READ = 0 then receive_read env st
         else case usable_pipe env st of
                (None, st1) \<Rightarrow> receive_read env st1
              | (Some p, st1) \<Rightarrow> receive_splice env p st1)"

text \<open>Receiving uses up something the device gave, except when there is no memory.\<close>

lemma read_device_shorter:
  "read_device env se rb m n evs = Inr (Some (res, m1, se1, rb1, evs1)) \<Longrightarrow> length evs1 < length evs"
proof (induction env se rb m n evs rule: read_device.induct)
  case (2 env se rb m n ev evs)
  then show ?case
    by (cases "fst ev") (auto simp: Let_def cbind_Inr_iff split: if_splits option.splits intro: less_SucI)
qed simp

lemma usable_pipe_dev: "usable_pipe env st = (p, st1) \<Longrightarrow> ls_dev st1 = ls_dev st"
  by (auto simp: usable_pipe_def fuse_ll_get_pipe_def Let_def split: option.splits prod.splits sum.splits if_splits)

lemma receive_read_shorter:
  "receive_read env st = Inr (Some (res, buf, st1)) \<Longrightarrow> length (ls_dev st1) < length (ls_dev st) \<or> res = - ENOMEM"
  by (auto simp: receive_read_def Let_def cbind_Inr_iff dest!: read_device_shorter split: option.splits)

lemma receive_small_dev: "receive_small env p n st = Inr (res, buf, st1) \<Longrightarrow> ls_dev st1 = ls_dev st"
  by (auto simp: receive_small_def Let_def cbind_Inr_iff fuse_ll_clear_pipe_def split: option.splits if_splits)

lemma receive_splice_shorter:
  "receive_splice env p st = Inr (Some (res, buf, st1)) \<Longrightarrow> length (ls_dev st1) < length (ls_dev st)"
  by (auto simp: receive_splice_def Let_def cbind_Inr_iff dest!: receive_small_dev split: list.splits dev_read.splits if_splits)

lemma receive_shorter:
  assumes "fuse_session_receive_buf env st = Inr (Some (res, buf, st1))"
  shows "length (ls_dev st1) < length (ls_dev st) \<or> res = - ENOMEM"
  using assms
  by (auto simp: fuse_session_receive_buf_def Let_def split: if_splits prod.splits option.splits
      dest!: receive_read_shorter receive_splice_shorter usable_pipe_dev)

section \<open>The loop\<close>

datatype loop_end = Ended int | Waits_for_device | Waits_for_path lock_queue_element

text \<open>What the loop returns: the error of the session, or of the last read, or zero.\<close>

definition loop_result :: "int \<Rightarrow> session \<Rightarrow> int" where
  "loop_result res se = (if se_error se \<noteq> 0 then se_error se else if 0 < res then 0 else res)"

definition loop_stop :: "int \<Rightarrow> 'l loop_state \<Rightarrow> carr list \<times> loop_end \<times> 'l loop_state" where
  "loop_stop res st =
     ([], Ended (loop_result res (ls_se st)),
      st\<lparr>ls_se := fuse_session_reset (ls_se st), ls_rb := (ls_rb st)\<lparr>rb_mem := None\<rparr>\<rparr>)"

text \<open>The pipe is closed when a message that stayed in it was not taken out completely.\<close>

definition handled :: "'l loop_env \<Rightarrow> fuse_buf \<Rightarrow> session \<Rightarrow> 'l \<Rightarrow> 'l loop_state \<Rightarrow> 'l loop_state" where
  "handled env buf se l st =
     (let st1 = st\<lparr>ls_se := se, ls_l := l\<rparr>
      in if flagged buf FUSE_BUF_IS_FD \<and> lp_left env (fb_fd buf) l then fuse_ll_clear_pipe st1 else st1)"

lemma handled_dev [simp]: "ls_dev (handled env buf se l st) = ls_dev st"
  by (simp add: handled_def fuse_ll_clear_pipe_def Let_def)

text \<open>\<open>res\<close> is the result of the last read. The messages of the whole run are returned.\<close>

function fuse_session_loop ::
    "'l loop_env \<Rightarrow> int \<Rightarrow> 'l loop_state \<Rightarrow> cerror + carr list \<times> loop_end \<times> 'l loop_state" where
  "fuse_session_loop env res st =
     (if se_exited (ls_se st) then Inr (loop_stop res st)
      else cbind (fuse_session_receive_buf env st) (\<lambda>r.
        case r of
          None \<Rightarrow> Inr ([], Waits_for_device, st)
        | Some (res1, buf, st1) \<Rightarrow>
            if res1 = - EINTR then fuse_session_loop env res1 st1
            else if res1 \<le> 0 then Inr (loop_stop res1 st1)
            else cbind (fuse_session_process_buf (lp_ll env) (ls_se st1) buf (ls_l st1)) (\<lambda>(msgs, qe, se2, l2).
              let st2 = handled env buf se2 l2 st1
              in case qe of
                   Some q \<Rightarrow> Inr (msgs, Waits_for_path q, st2)
                 | None \<Rightarrow> cbind (fuse_session_loop env res1 st2) (\<lambda>(msgs2, e, st3). Inr (msgs @ msgs2, e, st3)))))"
  by pat_completeness auto
termination
  by (relation "measure (\<lambda>(env, res, st). length (ls_dev st))")
    (auto dest!: receive_shorter simp: EINTR_def ENOMEM_def Let_def)

declare fuse_session_loop.simps [simp del]

text \<open>At the end of a session the file system is told, unless the kernel has done so.\<close>

definition fuse_session_destroy :: "'l ll_env \<Rightarrow> session \<Rightarrow> 'l \<Rightarrow> cerror + 'l" where
  "fuse_session_destroy env se l =
     (if se_got_init se \<and> \<not> se_got_destroy se \<and> se_has se Op_destroy then ll_destroy env l else Inr l)"

section \<open>Every request is answered, in order\<close>

text \<open>The requests the kernel sends, and the messages they are.\<close>

record kernel_request =
  kq_len :: "32 word"
  kq_opcode :: "32 word"
  kq_unique :: "64 word"
  kq_ino :: "64 word"
  kq_uid :: "32 word"
  kq_gid :: "32 word"
  kq_pid :: "32 word"
  kq_args :: carr

definition kernel_msg :: "kernel_request \<Rightarrow> carr" where
  "kernel_msg q = in_header (kq_len q) (kq_opcode q) (kq_unique q) (kq_ino q) (kq_uid q) (kq_gid q) (kq_pid q) @ kq_args q"

text \<open>A system without pipes for the session, so that every message is read into memory.\<close>

definition no_pipes :: "'l loop_env \<Rightarrow> bool" where
  "no_pipes env \<longleftrightarrow> (\<forall>l. fst (lp_pipe env l) = None)"

lemma usable_no_pipe:
  assumes "no_pipes env" "ls_pipe st = None"
  shows "\<exists>l1. usable_pipe env st = (None, st\<lparr>ls_l := l1\<rparr>)"
proof (cases "lp_pipe env (ls_l st)")
  case (Pair p l1)
  with assms(1) have "p = None" unfolding no_pipes_def by (metis fst_conv)
  with Pair assms(2) show ?thesis
    by (intro exI [of _ "if ll_mem (lp_ll env) 24 then l1 else ls_l st"]) (simp add: usable_pipe_def fuse_ll_get_pipe_def)
qed

lemma read_bytes:
  assumes "read_device env se rb m n ((Bytes data, False) # evs) = Inr r" "\<not> se_exited se"
  obtains m1 res where "r = Some (res, m1, se, rb\<lparr>rb_mem := Some m1\<rparr>, evs)"
    "res = - EIO \<or> 0 < res \<and> (\<exists>n rest. m1 = take n data @ rest \<and> 40 \<le> length (take n data))"
proof -
  let ?d = "take (unat n) data"
  obtain m1 where "m1 = ?d @ drop (length ?d) m"
    "r = Some (if length ?d < 40 then - EIO else int (length ?d), m1, se, rb\<lparr>rb_mem := Some m1\<rparr>, evs)"
    using assms by (auto simp: cbind_Inr_iff signalled_def memcpy_cells_Inr Let_def split: if_splits)
  then show ?thesis
    by (intro that) (auto simp: not_less split: if_splits intro!: exI [of _ "unat n"])
qed

lemma receive_read_bytes:
  assumes "ls_dev st = (Bytes data, False) # evs" "\<not> se_exited (ls_se st)" "receive_read env st = Inr r"
  obtains "r = Some (- ENOMEM, mem_buf [] 0, st)"
  | m1 rb1 res where "r = Some (res, mem_buf m1 (nat res), st\<lparr>ls_rb := rb1, ls_dev := evs\<rparr>)"
      "res = - EIO \<or> 0 < res \<and> (\<exists>n rest. m1 = take n data @ rest \<and> 40 \<le> length (take n data))"
proof -
  have se: "st\<lparr>ls_se := ls_se st, ls_rb := rb1, ls_dev := evs\<rparr> = st\<lparr>ls_rb := rb1, ls_dev := evs\<rparr>" for rb1 by (cases st) simp
  define rb where "rb = (case rb_mem (ls_rb st) of Some m \<Rightarrow> ls_rb st
    | None \<Rightarrow> \<lparr>rb_mem = buf_alloc (lp_ll env) (se_bufsize (ls_se st)), rb_mem_size = se_bufsize (ls_se st)\<rparr>)"
  show ?thesis
  proof (cases "rb_mem rb")
    case None
    then show ?thesis using assms(3) that(1) by (simp add: receive_read_def Let_def rb_def [symmetric])
  next
    case (Some m)
    then obtain r0 where r0: "read_device (lp_ll env) (ls_se st) rb m (rb_mem_size rb) ((Bytes data, False) # evs) = Inr r0"
      and r: "r = map_option (\<lambda>(res, m1, se1, rb1, evs).
        (res, mem_buf m1 (nat res), st\<lparr>ls_se := se1, ls_rb := rb1, ls_dev := evs\<rparr>)) r0"
      using assms(1,3) by (auto simp: receive_read_def Let_def rb_def [symmetric] cbind_Inr_iff)
    show ?thesis using r0 assms(2) by (rule read_bytes) (use r that(2) se in auto)
  qed
qed

lemma receive_bytes:
  assumes "ls_dev st = (Bytes data, False) # evs" "\<not> se_exited (ls_se st)" "no_pipes env" "ls_pipe st = None"
    and "fuse_session_receive_buf env st = Inr r" "r = None \<or> (\<exists>res buf st1. r = Some (res, buf, st1) \<and> (0 < res \<or> res = - EINTR))"
  obtains n rest res st1 where
    "r = Some (res, mem_buf (take n data @ rest) (nat res), st1)" "0 < res" "res \<noteq> - EINTR" "40 \<le> length (take n data)"
    "ls_dev st1 = evs" "ls_pipe st1 = None" "se_interrupts (ls_se st1) = se_interrupts (ls_se st)"
proof -
  let ?se = "ls_se st"
  define st0 where "st0 = (if \<not> se_got_init ?se \<and> \<not> se_buf_reallocable ?se then st\<lparr>ls_se := ?se\<lparr>se_buf_reallocable := True\<rparr>\<rparr> else st)"
  have st0: "ls_dev st0 = (Bytes data, False) # evs" "\<not> se_exited (ls_se st0)" "ls_pipe st0 = None"
    "se_interrupts (ls_se st0) = se_interrupts ?se"
    using assms(1,2,4) by (simp_all add: st0_def)
  obtain l1 where u: "usable_pipe env st0 = (None, st0\<lparr>ls_l := l1\<rparr>)" using usable_no_pipe [OF assms(3) st0(3)] by blast
  obtain l2 where "receive_read env (st0\<lparr>ls_l := l2\<rparr>) = Inr r"
  proof (cases "proto_minor (se_conn (ls_se st0)) < 14 \<or> want_ext (se_conn (ls_se st0)) AND FUSE_CAP_SPLICE_READ = 0")
    case True
    then show ?thesis using assms(5) that [of "ls_l st0"] by (simp add: fuse_session_receive_buf_def Let_def st0_def)
  next
    case False
    then show ?thesis using assms(5) u that [of l1] by (simp add: fuse_session_receive_buf_def Let_def st0_def)
  qed
  then show ?thesis
  proof (rule receive_read_bytes [of "st0\<lparr>ls_l := l2\<rparr>" data evs, rotated 2])
    assume "r = Some (- ENOMEM, mem_buf [] 0, st0\<lparr>ls_l := l2\<rparr>)"
    with assms(6) show ?thesis by (auto simp: ENOMEM_def EINTR_def)
  next
    fix m1 rb1 res
    assume "r = Some (res, mem_buf m1 (nat res), st0\<lparr>ls_l := l2\<rparr>\<lparr>ls_rb := rb1, ls_dev := evs\<rparr>)"
      "res = - EIO \<or> 0 < res \<and> (\<exists>n rest. m1 = take n data @ rest \<and> 40 \<le> length (take n data))"
    with assms(6) obtain n rest where r: "r = Some (res, mem_buf (take n data @ rest) (nat res), st0\<lparr>ls_l := l2\<rparr>\<lparr>ls_rb := rb1, ls_dev := evs\<rparr>)"
      "0 < res" "40 \<le> length (take n data)"
      by (auto simp: EIO_def EINTR_def)
    from r(2) have "res \<noteq> - EINTR" by (simp add: EINTR_def)
    from that [OF r(1,2) this r(3)] show ?thesis by (simp add: st0)
  qed (simp_all add: st0)
qed

lemma short_header:
  assumes "40 \<le> length (take n (kernel_msg q))"
  shows "\<exists>a. take n (kernel_msg q) = in_header (kq_len q) (kq_opcode q) (kq_unique q) (kq_ino q) (kq_uid q) (kq_gid q) (kq_pid q) @ a"
  using assms by (simp add: kernel_msg_def)

text \<open>The messages sent for one request: an interrupt that goes back to the kernel, perhaps, and the answer.\<close>

definition answered :: "kernel_request \<Rightarrow> carr list \<Rightarrow> bool" where
  "answered q ms \<longleftrightarrow> (\<exists>returned own. ms = returned @ own \<and> answers (kq_unique q) own \<and>
     (returned = [] \<or> (\<exists>u m. returned = [m] \<and> framed u (- EAGAIN) m)))"

lemma loop_waitsE:
  assumes "fuse_session_loop env res st = Inr (msgs, Waits_for_device, st')"
  obtains "fuse_session_receive_buf env st = Inr None" "msgs = []" "st' = st" "\<not> se_exited (ls_se st)"
  | buf st1 where "fuse_session_receive_buf env st = Inr (Some (- EINTR, buf, st1))" "\<not> se_exited (ls_se st)"
      "fuse_session_loop env (- EINTR) st1 = Inr (msgs, Waits_for_device, st')"
  | res1 buf st1 ms se2 l2 ms2 where "fuse_session_receive_buf env st = Inr (Some (res1, buf, st1))" "0 < res1"
      "\<not> se_exited (ls_se st)" "fuse_session_process_buf (lp_ll env) (ls_se st1) buf (ls_l st1) = Inr (ms, None, se2, l2)"
      "fuse_session_loop env res1 (handled env buf se2 l2 st1) = Inr (ms2, Waits_for_device, st')" "msgs = ms @ ms2"
proof -
  note run = assms [unfolded fuse_session_loop.simps [of env res st]]
  show ?thesis
  proof (cases "fuse_session_receive_buf env st")
    case (Inl e)
    with run show ?thesis by (simp add: loop_stop_def split: if_splits)
  next
    case (Inr r)
    show ?thesis
    proof (cases r)
      case None
      with run Inr that(1) show ?thesis by (simp add: loop_stop_def split: if_splits)
    next
      case (Some y)
      obtain res1 buf st1 where y: "y = (res1, buf, st1)" by (cases y)
      show ?thesis
      proof (cases "res1 = - EINTR \<or> res1 \<le> 0")
        case True
        with run Inr Some y that(2) show ?thesis by (auto simp: loop_stop_def split: if_splits)
      next
        case False
        with run Inr Some y show ?thesis
          by (auto simp: loop_stop_def cbind_Inr_iff Let_def split: if_splits option.splits intro: that(3))
      qed
    qed
  qed
qed

text \<open>A message that has arrived is received without an interruption.\<close>

lemma message_received:
  assumes "no_pipes env" "ls_pipe st = None" "ls_dev st = (Bytes (kernel_msg q), False) # evs" "\<not> se_exited (ls_se st)"
  shows "fuse_session_receive_buf env st \<noteq> Inr None" "fuse_session_receive_buf env st \<noteq> Inr (Some (- EINTR, buf, st1))"
  using receive_bytes [OF assms(3,4,1,2)] by blast+

context answering
begin

text \<open>One turn: the next message is received and worked on.\<close>

lemma turn_answers:
  assumes env: "ll_run (lp_ll env) = run" "ll_known (lp_ll env) EAGAIN" "ll_mem (lp_ll env) 128" "no_pipes env"
    and st: "ls_pipe st = None" "ls_dev st = (Bytes (kernel_msg q), False) # evs" "\<not> se_exited (ls_se st)"
    and q: "\<not> silent_opcode (kq_opcode q)"
    and r: "fuse_session_receive_buf env st = Inr (Some (res1, buf, st1))" "0 < res1"
    and p: "fuse_session_process_buf (lp_ll env) (ls_se st1) buf (ls_l st1) = Inr (ms, None, se2, l2)"
  shows "answered q ms" "ls_dev (handled env buf se2 l2 st1) = evs" "ls_pipe (handled env buf se2 l2 st1) = None"
proof -
  obtain n stale where buf: "buf = mem_buf (take n (kernel_msg q) @ stale) (nat res1)" and n: "40 \<le> length (take n (kernel_msg q))"
    and st1: "ls_dev st1 = evs" "ls_pipe st1 = None"
  proof -
    have "Some (res1, buf, st1) = None \<or> (\<exists>res b s. Some (res1, buf, st1) = Some (res, b, s) \<and> (0 < res \<or> res = - EINTR))"
      using r(2) by simp
    then obtain n stale res s where "Some (res1, buf, st1) = Some (res, mem_buf (take n (kernel_msg q) @ stale) (nat res), s)"
      "40 \<le> length (take n (kernel_msg q))" "ls_dev s = evs" "ls_pipe s = None"
      by (rule receive_bytes [OF st(2,3) env(4) st(1) r(1)])
    then show ?thesis using that by simp
  qed
  obtain a where "take n (kernel_msg q) = in_header (kq_len q) (kq_opcode q) (kq_unique q) (kq_ino q) (kq_uid q) (kq_gid q) (kq_pid q) @ a"
    using short_header [OF n] by blast
  then have m: "memory_msg (in_header (kq_len q) (kq_opcode q) (kq_unique q) (kq_ino q) (kq_uid q) (kq_gid q) (kq_pid q) @ a @ stale) buf"
    by (simp add: buf memory_msg_def mem_buf_def)
  show "answered q ms" using process_one_answer [OF m env(3) p env(1) q env(2)] unfolding answered_def by blast
  show "ls_dev (handled env buf se2 l2 st1) = evs" using st1(1) by simp
  show "ls_pipe (handled env buf se2 l2 st1) = None" using st1(2) by (simp add: handled_def Let_def fuse_ll_clear_pipe_def)
qed

lemma loop_answers:
  assumes "ll_run (lp_ll env) = run" "ll_known (lp_ll env) EAGAIN" "ll_mem (lp_ll env) 128" "no_pipes env" "ls_pipe st = None"
    and "\<forall>q\<in>set qs. \<not> silent_opcode (kq_opcode q)" "ls_dev st = map (\<lambda>q. (Bytes (kernel_msg q), False)) qs"
    and "fuse_session_loop env res st = Inr (msgs, Waits_for_device, st')"
  shows "\<exists>parts. msgs = concat parts \<and> list_all2 answered qs parts"
  using assms(5-)
proof (induction qs arbitrary: st res msgs)
  case Nil
  have no: "res1 = - ENOMEM" if "fuse_session_receive_buf env st = Inr (Some (res1, buf, st1))" for res1 buf st1
    using receive_shorter [OF that] Nil(3) by simp
  from Nil(4) have "msgs = []" by (rule loop_waitsE) (auto dest: no simp: EINTR_def ENOMEM_def)
  then show ?case by simp
next
  case (Cons q qs)
  let ?evs = "map (\<lambda>q. (Bytes (kernel_msg q), False)) qs"
  have dev: "ls_dev st = (Bytes (kernel_msg q), False) # ?evs" and q: "\<not> silent_opcode (kq_opcode q)" using Cons.prems by simp_all
  from Cons.prems(4) show ?case
  proof (rule loop_waitsE)
    fix res1 buf st1 ms se2 l2 ms2
    assume r: "fuse_session_receive_buf env st = Inr (Some (res1, buf, st1))" "0 < res1" "\<not> se_exited (ls_se st)"
      and p: "fuse_session_process_buf (lp_ll env) (ls_se st1) buf (ls_l st1) = Inr (ms, None, se2, l2)"
      and rest: "fuse_session_loop env res1 (handled env buf se2 l2 st1) = Inr (ms2, Waits_for_device, st')" and msgs: "msgs = ms @ ms2"
    note turn = turn_answers [OF assms(1-4) Cons.prems(1) dev r(3) q r(1,2) p]
    from Cons.IH [OF turn(3) _ turn(2) rest] Cons.prems(2) obtain parts where "ms2 = concat parts" "list_all2 answered qs parts" by auto
    with turn(1) msgs show ?case by (intro exI [of _ "ms # parts"]) simp
  qed (use message_received [OF assms(4) Cons.prems(1) dev] in blast)+
qed

end

end
