(* ===== verification/Fuse_Mount.thy ===== *)
theory Fuse_Mount
  imports Fuse_Loop Fuse_Dir
begin

unbundle bit_operations_syntax

text \<open>
  The library mounted on a session (\<^verbatim>\<open>fuse-3.17.2/lib/fuse.c\<close>): its request handlers are the operations of a session, so
  that a message of the kernel runs through decoding, the tree of nodes and the file system's callbacks and
  comes back as a message. The address of a request is what a waiting element of the queue refers to.
\<close>

section \<open>The operations of the library\<close>

text \<open>The table \<^verbatim>\<open>fuse_path_ops\<close>: everything except plain writes, temporary files and retrieved data.\<close>

definition fuse_path_ops :: "ll_op \<Rightarrow> bool" where
  "fuse_path_ops op = (case op of Op_write \<Rightarrow> False | Op_tmpfile \<Rightarrow> False | Op_retrieve_reply \<Rightarrow> False | _ \<Rightarrow> True)"

text \<open>Byte-range locks are only offered when the file system has them.\<close>

definition mounted_ops :: "('d, 's) fuse_operations \<Rightarrow> ll_op \<Rightarrow> bool" where
  "mounted_ops ops op =
     (fuse_path_ops op \<and> (case op of Op_getlk \<Rightarrow> op_lock ops \<noteq> None | Op_setlk \<Rightarrow> op_lock ops \<noteq> None | _ \<Rightarrow> True))"

definition as_outcome :: "cerror + reply \<times> 's lib \<Rightarrow> cerror + outcome \<times> 's lib" where
  "as_outcome m = cbind m (\<lambda>(r, l). Inr (Replied r, l))"

fun lib_call :: "(dirbuf, 's) lib_env \<Rightarrow> ll_call \<Rightarrow> 's lib \<Rightarrow> cerror + outcome \<times> 's lib" where
  "lib_call env (Call_lookup parent name) l = fuse_lib_lookup env l parent name"
| "lib_call env (Call_forget ino n) l = as_outcome (fuse_lib_forget env l ino n)"
| "lib_call env (Call_forget_multi fs) l = as_outcome (fuse_lib_forget_multi env l fs)"
| "lib_call env (Call_getattr ino fi) l = fuse_lib_getattr env l ino fi"
| "lib_call env (Call_setattr ino attr valid fi) l = fuse_lib_setattr env l ino attr valid fi"
| "lib_call env (Call_access ino amode) l = fuse_lib_access env l ino amode"
| "lib_call env (Call_readlink ino) l = fuse_lib_readlink env l ino"
| "lib_call env (Call_mknod parent name mode rdev) l = fuse_lib_mknod env l parent name mode rdev"
| "lib_call env (Call_mkdir parent name mode) l = fuse_lib_mkdir env l parent name mode"
| "lib_call env (Call_unlink parent name) l = fuse_lib_unlink env l parent name"
| "lib_call env (Call_rmdir parent name) l = fuse_lib_rmdir env l parent name"
| "lib_call env (Call_symlink linkname parent name) l = fuse_lib_symlink env l linkname parent name"
| "lib_call env (Call_rename olddir oldname newdir newname flags) l = fuse_lib_rename env l olddir oldname newdir newname flags"
| "lib_call env (Call_link ino newparent newname) l = fuse_lib_link env l ino newparent newname"
| "lib_call env (Call_tmpfile parent mode fi) l = Inl NullDeref"
| "lib_call env (Call_create parent name mode fi) l = fuse_lib_create env l parent name mode fi"
| "lib_call env (Call_open ino fi) l = fuse_lib_open env l ino fi"
| "lib_call env (Call_read ino sz off fi) l = fuse_lib_read env l ino sz off fi"
| "lib_call env (Call_write ino buf sz off fi) l = Inl NullDeref"
| "lib_call env (Call_write_buf ino v off fi) l = fuse_lib_write_buf env l ino v off fi"
| "lib_call env (Call_flush ino fi) l = fuse_lib_flush env l ino fi"
| "lib_call env (Call_release ino fi) l = fuse_lib_release env l ino fi"
| "lib_call env (Call_fsync ino datasync fi) l = fuse_lib_fsync env l ino datasync fi"
| "lib_call env (Call_opendir ino fi) l = fuse_lib_opendir env l ino fi"
| "lib_call env (Call_readdir ino sz off fi) l = fuse_lib_readdir env l ino sz off fi"
| "lib_call env (Call_readdirplus ino sz off fi) l = fuse_lib_readdirplus env l ino sz off fi"
| "lib_call env (Call_releasedir ino fi) l = fuse_lib_releasedir env l ino fi"
| "lib_call env (Call_fsyncdir ino datasync fi) l = fuse_lib_fsyncdir env l ino datasync fi"
| "lib_call env (Call_statfs ino) l = fuse_lib_statfs env l ino"
| "lib_call env (Call_setxattr ino name val sz flags) l = fuse_lib_setxattr env l ino name val sz flags"
| "lib_call env (Call_getxattr ino name sz) l = fuse_lib_getxattr env l ino name sz"
| "lib_call env (Call_listxattr ino sz) l = fuse_lib_listxattr env l ino sz"
| "lib_call env (Call_removexattr ino name) l = fuse_lib_removexattr env l ino name"
| "lib_call env (Call_getlk ino fi lock) l = fuse_lib_getlk env l ino fi lock"
| "lib_call env (Call_setlk ino fi lock sleep) l = fuse_lib_setlk env l ino fi lock sleep"
| "lib_call env (Call_flock ino fi op) l = fuse_lib_flock env l ino fi op"
| "lib_call env (Call_bmap ino blocksize idx) l = fuse_lib_bmap env l ino blocksize idx"
| "lib_call env (Call_ioctl ino cmd arg fi flags in_buf out_sz) l = fuse_lib_ioctl env l ino cmd arg fi flags in_buf (unat out_sz)"
| "lib_call env (Call_poll ino fi ph) l = fuse_lib_poll env l ino fi ph"
| "lib_call env (Call_fallocate ino mode off len fi) l = fuse_lib_fallocate env l ino mode off len fi"
| "lib_call env (Call_copy_file_range ino_in off_in fi_in ino_out off_out fi_out len flags) l =
     fuse_lib_copy_file_range env l ino_in off_in fi_in ino_out off_out fi_out len flags"
| "lib_call env (Call_lseek ino off whence fi) l = fuse_lib_lseek env l ino off whence fi"
| "lib_call env (Call_retrieve_reply cookie ino off v) l = Inl NullDeref"

definition lib_run :: "(dirbuf, 's) lib_env \<Rightarrow> fuse_req \<Rightarrow> ll_call \<Rightarrow> 's lib \<Rightarrow> cerror + outcome \<times> 's lib" where
  "lib_run env req c l = lib_call (env\<lparr>le_req := r_addr req\<rparr>) c l"

text \<open>The file system sees the part of the connection that concerns it.\<close>

definition lib_start :: "(dirbuf, 's) lib_env \<Rightarrow> session_conn \<Rightarrow> 's lib \<Rightarrow> cerror + session_conn \<times> 's lib" where
  "lib_start env conn l =
     cbind (fuse_lib_init env l (fuse_conn_info.truncate conn)) (\<lambda>(c, l1).
     Inr (conn\<lparr>capable_ext := capable_ext c, want_ext := want_ext c, want := want c, no_interrupt := no_interrupt c\<rparr>, l1))"

text \<open>System calls reach the file system's world through the library's state.\<close>

definition through :: "('s \<Rightarrow> 'a \<times> 's) \<Rightarrow> 's lib \<Rightarrow> 'a \<times> 's lib" where
  "through g l = (case g (l_user l) of (r, s) \<Rightarrow> (r, l\<lparr>l_user := s\<rparr>))"

definition lib_sys :: "'s sys \<Rightarrow> 's lib sys" where
  "lib_sys sys =
     \<lparr>sys_write = (\<lambda>l fd data pos. through (\<lambda>s. sys_write sys s fd data pos) l),
      sys_read = (\<lambda>l fd n pos. through (\<lambda>s. sys_read sys s fd n pos) l),
      sys_splice = (\<lambda>l fd1 pos1 fd2 pos2 n flags. through (\<lambda>s. sys_splice sys s fd1 pos1 fd2 pos2 n flags) l)\<rparr>"

definition mounted :: "(int \<Rightarrow> bool) \<Rightarrow> 32 word \<Rightarrow> (dirbuf, 's) lib_env \<Rightarrow> 's lib ll_env" where
  "mounted known page env =
     \<lparr>ll_mem = le_mem env, ll_known = known, ll_sys = lib_sys (le_sys env), ll_page = page, ll_run = lib_run env,
      ll_init = lib_start env, ll_destroy = fuse_lib_destroy env\<rparr>"

lemma mounted_simps [simp]:
  "ll_mem (mounted known page env) = le_mem env" "ll_known (mounted known page env) = known"
  "ll_sys (mounted known page env) = lib_sys (le_sys env)" "ll_page (mounted known page env) = page"
  "ll_run (mounted known page env) = lib_run env" "ll_init (mounted known page env) = lib_start env"
  "ll_destroy (mounted known page env) = fuse_lib_destroy env"
  by (simp_all add: mounted_def)

text \<open>\<^verbatim>\<open>fuse_invalidate_path\<close>: the kernel is told to drop what it has cached of a node it knows by its path.\<close>

definition fuse_invalidate_path :: "(nat \<Rightarrow> bool) \<Rightarrow> session \<Rightarrow> fuse \<Rightarrow> string \<Rightarrow> int \<times> carr list" where
  "fuse_invalidate_path mem se f path =
     (case lookup_path_in_cache mem f path of
        (err, ino) \<Rightarrow>
          if err \<noteq> 0 then (err, [])
          else case ino of None \<Rightarrow> (err, []) | Some n \<Rightarrow> fuse_lowlevel_notify_inval_inode se n 0 0)"

section \<open>Every handler answers, and with its own kind of answer\<close>

definition gives_reply :: "(reply \<Rightarrow> bool) \<Rightarrow> cerror + reply \<times> 'l \<Rightarrow> bool" where
  "gives_reply fit m \<longleftrightarrow> (\<forall>r l. m = Inr (r, l) \<longrightarrow> fit r)"

definition gives_outcome :: "(reply \<Rightarrow> bool) \<Rightarrow> cerror + outcome \<times> 'l \<Rightarrow> bool" where
  "gives_outcome fit m \<longleftrightarrow> (\<forall>r l. m = Inr (Replied r, l) \<longrightarrow> fit r)"

lemma gives_reply_simps [simp]: "gives_reply fit (Inl e)" "gives_reply fit (Inr (r, l)) = fit r"
  by (auto simp: gives_reply_def)

lemma gives_outcome_simps [simp]:
  "gives_outcome fit (Inl e)" "gives_outcome fit (Inr (Wait qe, l))" "gives_outcome fit (Inr (Replied r, l)) = fit r"
  by (auto simp: gives_outcome_def)

lemma gives_reply_intros:
  "(\<And>x. gives_reply fit (f x)) \<Longrightarrow> gives_reply fit (cbind m f)"
  "gives_reply fit t \<Longrightarrow> gives_reply fit e \<Longrightarrow> gives_reply fit (if b then t else e)"
  "(\<And>x y. gives_reply fit (g x y)) \<Longrightarrow> gives_reply fit (case p of (x, y) \<Rightarrow> g x y)"
  "gives_reply fit n \<Longrightarrow> (\<And>x. gives_reply fit (s x)) \<Longrightarrow> gives_reply fit (case opt of None \<Rightarrow> n | Some x \<Rightarrow> s x)"
  by (auto simp: gives_reply_def cbind_Inr_iff split: prod.splits option.splits)

lemma gives_outcome_intros:
  "(\<And>x. gives_outcome fit (f x)) \<Longrightarrow> gives_outcome fit (cbind m f)"
  "gives_outcome fit t \<Longrightarrow> gives_outcome fit e \<Longrightarrow> gives_outcome fit (if b then t else e)"
  "(\<And>x y. gives_outcome fit (g x y)) \<Longrightarrow> gives_outcome fit (case p of (x, y) \<Rightarrow> g x y)"
  "gives_outcome fit n \<Longrightarrow> (\<And>x. gives_outcome fit (s x)) \<Longrightarrow> gives_outcome fit (case opt of None \<Rightarrow> n | Some x \<Rightarrow> s x)"
  "(\<And>qe. gives_outcome fit (w qe)) \<Longrightarrow> (\<And>err ps. gives_outcome fit (a err ps)) \<Longrightarrow>
     gives_outcome fit (case rep of Waiting qe \<Rightarrow> w qe | Answer err ps \<Rightarrow> a err ps)"
  by (auto simp: gives_outcome_def cbind_Inr_iff split: prod.splits option.splits path_reply.splits)

lemma gives_replied: "gives_reply fit m \<Longrightarrow> gives_outcome fit (cbind m (\<lambda>(r, l). Inr (Replied r, l)))"
  by (auto simp: gives_reply_def gives_outcome_def cbind_Inr_iff)

lemma gives_with_path:
  assumes "\<And>err ps l. gives_reply fit (bd err ps l)"
  shows "gives_outcome fit (with_path ask bd l)"
  unfolding with_path_def by (intro gives_outcome_intros gives_replied assms) simp

text \<open>A reply that is decided before the path is released.\<close>

lemma release_after_reply:
  assumes "gives_reply fit m"
  shows "gives_reply fit (cbind m (\<lambda>(rep, l). cbind (g l) (\<lambda>l1. Inr (rep, l1))))"
  using assms by (fastforce simp: gives_reply_def cbind_Inr_iff)

lemmas entry_bodies = lookup_body_def new_entry_body_def link_body_def
lemmas error_bodies = access_body_def fsync_body_def unlink_body_def rmdir_request_body_def rename_body_def release_body_def
  flush_body_def setlk_body_def err_body_def releasedir_body_def
lemmas value_bodies = getattr_body_def setattr_body_def readlink_body_def read_body_def write_body_def getlk_body_def
  lseek_body_def ioctl_body_def copy_body_def

text \<open>Which answers fit a request: errors always do.\<close>

locale reply_kind =
  fixes fit :: "reply \<Rightarrow> bool"
  assumes fits_error: "fit (ReplyErr e)"
begin

lemma fits_reply_err [simp]: "fit (reply_err err)" "fit (ReplyErr e)"
  by (simp_all add: reply_err_def fits_error)

lemma entry_bodies_fit:
  assumes "\<And>e. fit (ReplyEntry e)"
  shows "gives_reply fit (reply_entry env e err l)" "gives_reply fit (lookup_body env parent nm dot err ps l)"
    "gives_reply fit (new_entry_body env parent build err ps l)" "gives_reply fit (link_body env ino newparent newname err ps l)"
proof -
  show entry: "gives_reply fit (reply_entry env e err l)" for e err l
    unfolding reply_entry_def using assms by (intro gives_reply_intros | simp)+
  show "gives_reply fit (lookup_body env parent nm dot err ps l)"
    "gives_reply fit (new_entry_body env parent build err ps l)" "gives_reply fit (link_body env ino newparent newname err ps l)"
    unfolding entry_bodies Let_def by (intro gives_reply_intros entry)+
qed

lemma error_bodies_fit:
  "gives_reply fit (access_body env ino amode err ps l)" "gives_reply fit (fsync_body env ino datasync fi err ps l)"
  "gives_reply fit (unlink_body env parent name err ps l)" "gives_reply fit (rmdir_request_body env parent name err ps l)"
  "gives_reply fit (rename_body env parent name newdir newname flags err ps l)"
  "gives_reply fit (release_body env ino fi err ps l)" "gives_reply fit (flush_body env ino fi err ps l)"
  "gives_reply fit (setlk_body env ino fi lock sleep err ps l)" "gives_reply fit (err_body env ino nullok g err ps l)"
  "gives_reply fit (releasedir_body env' ino llfi err ps l)"
  unfolding error_bodies Let_def by (intro gives_reply_intros | simp)+

lemma value_bodies_fit:
  "(\<And>st t. fit (ReplyAttr st t)) \<Longrightarrow> gives_reply fit (getattr_body env ino fip err ps l)"
  "(\<And>st t. fit (ReplyAttr st t)) \<Longrightarrow> gives_reply fit (setattr_body env ino attr valid fip err ps l)"
  "(\<And>name. fit (ReplyReadlink name)) \<Longrightarrow> gives_reply fit (readlink_body env ino err ps l)"
  "(\<And>v. fit (ReplyData v)) \<Longrightarrow> gives_reply fit (read_body env ino sz off fi err ps l)"
  "(\<And>n. fit (ReplyWrite n)) \<Longrightarrow> gives_reply fit (write_body env ino buf off fi err ps l)"
  "(\<And>k. fit (ReplyLock k)) \<Longrightarrow> gives_reply fit (getlk_body env ino fi lock err ps l)"
  "(\<And>n. fit (ReplyLseek n)) \<Longrightarrow> gives_reply fit (lseek_body env ino off whence fi err ps l)"
  "(\<And>n data. fit (ReplyIoctl n data)) \<Longrightarrow> gives_reply fit (ioctl_body env' ino cmd arg fi flags in_buf out_buf err ps l)"
  "(\<And>n. fit (ReplyWrite n)) \<Longrightarrow> gives_reply fit (copy_body env ino off_in fi_in p ino_out off_out fi_out len iflags err ps l)"
  unfolding value_bodies Let_def by (intro gives_reply_intros | simp)+

lemma fill_body_fits:
  assumes "\<And>err x. fit (ans err x)"
  shows "gives_reply fit (fill_body env ino nullok g x ans err ps l)"
  unfolding fill_body_def using assms by (intro gives_reply_intros | simp)+

lemma xattr_body_fits:
  assumes "\<And>n. fit (ReplyXattr n)" "\<And>val. fit (ReplyBuf val)"
  shows "gives_reply fit (xattr_body env ino sz g err ps l)"
proof -
  have "fit r" if "xattr_reply sz res out = Inr r" for res out r
  proof (cases "sz = 0 \<or> res \<le> 0")
    case True
    then have "\<exists>n. r = ReplyXattr n \<or> r = reply_err n"
      using that by (auto simp: xattr_reply_def split: if_splits)
    then show ?thesis using assms(1) fits_reply_err by blast
  next
    case False
    then have "\<exists>val. r = ReplyBuf val" using that by (auto simp: xattr_reply_def elim!: cbind_InrE)
    then show ?thesis using assms(2) by blast
  qed
  then show ?thesis unfolding xattr_body_def gives_reply_def by (auto elim!: cbind_InrE)
qed

lemma open_bodies_fit:
  "(\<And>fi. fit (ReplyOpen fi)) \<Longrightarrow> gives_reply fit (open_body env ino fi err ps l)"
  "(\<And>fi. fit (ReplyOpen fi)) \<Longrightarrow> gives_reply fit (opendir_body env' ino fi err ps l)"
  "(\<And>e fi. fit (ReplyCreate e fi)) \<Longrightarrow> gives_reply fit (create_body env parent name mode fi err ps l)"
  unfolding create_body_def open_body_def opendir_body_def Let_def
  by (rule gives_reply_intros(1), clarify, rule release_after_reply, intro gives_reply_intros; simp)+

lemma dir_bodies_fit:
  assumes "\<And>recs. fit (ReplyDir recs)"
  shows "gives_reply fit (answer_dir env sz off llfi flags dh l)" "gives_reply fit (readdir_body env ino sz off llfi flags err ps l)"
proof -
  show answer: "gives_reply fit (answer_dir env sz off llfi flags dh l)" for dh l
    unfolding answer_dir_def using assms by (intro gives_reply_intros | simp)+
  show "gives_reply fit (readdir_body env ino sz off llfi flags err ps l)"
    unfolding readdir_body_def Let_def by (intro gives_reply_intros answer | simp)+
qed

lemmas bodies_fit = entry_bodies_fit error_bodies_fit value_bodies_fit xattr_body_fits open_bodies_fit dir_bodies_fit

lemma entry_handlers_fit:
  assumes "\<And>e. fit (ReplyEntry e)"
  shows "gives_outcome fit (fuse_lib_lookup env l ino name)" "gives_outcome fit (fuse_lib_mknod env l ino name mode rdev)"
    "gives_outcome fit (fuse_lib_mkdir env l ino name mode)" "gives_outcome fit (fuse_lib_symlink env l linkname ino name)"
    "gives_outcome fit (fuse_lib_link env l ino newdir newname)"
  unfolding fuse_lib_lookup_def fuse_lib_mknod_def fuse_lib_mkdir_def fuse_lib_symlink_def fuse_lib_link_def Let_def
  by (rule gives_replied | rule gives_outcome_intros gives_with_path entry_bodies_fit | simp add: assms)+

lemma error_handlers_fit:
  "gives_outcome fit (fuse_lib_access env l ino amode)" "gives_outcome fit (fuse_lib_unlink env l ino name)"
  "gives_outcome fit (fuse_lib_rmdir env l ino name)" "gives_outcome fit (fuse_lib_rename env l ino name newdir newname flags)"
  "gives_outcome fit (fuse_lib_flush env l ino fi)" "gives_outcome fit (fuse_lib_release env l ino fi)"
  "gives_outcome fit (fuse_lib_fsync env l ino datasync fi)" "gives_outcome fit (fuse_lib_setlk env l ino fi lock sleep)"
  "gives_outcome fit (fuse_lib_flock env l ino fi op)" "gives_outcome fit (fuse_lib_setxattr env l ino name val sz xflags)"
  "gives_outcome fit (fuse_lib_removexattr env l ino name)" "gives_outcome fit (fuse_lib_fallocate env l ino imode off len fi)"
  "gives_outcome fit (fuse_lib_releasedir env' l ino fi)" "gives_outcome fit (fuse_lib_fsyncdir env' l ino datasync fi)"
  unfolding fuse_lib_access_def fuse_lib_unlink_def fuse_lib_rmdir_def fuse_lib_rename_def fuse_lib_flush_def fuse_lib_release_def
    fuse_lib_fsync_def fuse_lib_setlk_def fuse_lib_flock_def fuse_lib_setxattr_def fuse_lib_removexattr_def fuse_lib_fallocate_def
    fuse_lib_releasedir_def fuse_lib_fsyncdir_def
  by (intro gives_outcome_intros gives_with_path error_bodies_fit)+

lemma value_handlers_fit:
  "(\<And>st t. fit (ReplyAttr st t)) \<Longrightarrow> gives_outcome fit (fuse_lib_getattr env l ino fip)"
  "(\<And>st t. fit (ReplyAttr st t)) \<Longrightarrow> gives_outcome fit (fuse_lib_setattr env l ino attr valid fip)"
  "(\<And>name. fit (ReplyReadlink name)) \<Longrightarrow> gives_outcome fit (fuse_lib_readlink env l ino)"
  "(\<And>e fi. fit (ReplyCreate e fi)) \<Longrightarrow> gives_outcome fit (fuse_lib_create env l ino name mode fi)"
  "(\<And>fi. fit (ReplyOpen fi)) \<Longrightarrow> gives_outcome fit (fuse_lib_open env l ino fi)"
  "(\<And>v. fit (ReplyData v)) \<Longrightarrow> gives_outcome fit (fuse_lib_read env l ino sz off fi)"
  "(\<And>n. fit (ReplyWrite n)) \<Longrightarrow> gives_outcome fit (fuse_lib_write_buf env l ino v off fi)"
  "(\<And>n. fit (ReplyLseek n)) \<Longrightarrow> gives_outcome fit (fuse_lib_lseek env l ino off whence fi)"
  "(\<And>k. fit (ReplyLock k)) \<Longrightarrow> gives_outcome fit (fuse_lib_getlk env l ino fi lock)"
  unfolding fuse_lib_getattr_def fuse_lib_setattr_def fuse_lib_readlink_def fuse_lib_create_def fuse_lib_open_def fuse_lib_read_def
    fuse_lib_write_buf_def fuse_lib_lseek_def fuse_lib_getlk_def
  by (intro gives_outcome_intros gives_with_path bodies_fit; simp)+

lemma fill_handlers_fit:
  "(\<And>st. fit (ReplyStatfs st)) \<Longrightarrow> gives_outcome fit (fuse_lib_statfs env l ino)"
  "(\<And>idx. fit (ReplyBmap idx)) \<Longrightarrow> gives_outcome fit (fuse_lib_bmap env l ino bsz bidx)"
  "(\<And>revents. fit (ReplyPoll revents)) \<Longrightarrow> gives_outcome fit (fuse_lib_poll env l ino fi ph)"
  "(\<And>n. fit (ReplyXattr n)) \<Longrightarrow> (\<And>val. fit (ReplyBuf val)) \<Longrightarrow> gives_outcome fit (fuse_lib_getxattr env l ino name sz)"
  "(\<And>n. fit (ReplyXattr n)) \<Longrightarrow> (\<And>val. fit (ReplyBuf val)) \<Longrightarrow> gives_outcome fit (fuse_lib_listxattr env l ino sz)"
  unfolding fuse_lib_statfs_def fuse_lib_bmap_def fuse_lib_poll_def fuse_lib_getxattr_def fuse_lib_listxattr_def Let_def
  by (intro gives_replied gives_with_path fill_body_fits xattr_body_fits gives_outcome_intros(2); simp)+

lemma dir_handlers_fit:
  "(\<And>fi. fit (ReplyOpen fi)) \<Longrightarrow> gives_outcome fit (fuse_lib_opendir env l ino fi)"
  "(\<And>recs. fit (ReplyDir recs)) \<Longrightarrow> gives_outcome fit (fuse_lib_readdir env l ino sz off fi)"
  "(\<And>recs. fit (ReplyDir recs)) \<Longrightarrow> gives_outcome fit (fuse_lib_readdirplus env l ino sz off fi)"
  "(\<And>n data. fit (ReplyIoctl n data)) \<Longrightarrow> gives_outcome fit (fuse_lib_ioctl env l ino cmd arg fi flags in_buf n1)"
  "(\<And>n. fit (ReplyWrite n)) \<Longrightarrow>
     gives_outcome fit (fuse_lib_copy_file_range env l ino off_in fi_in ino_out off_out fi_out len iflags)"
  unfolding fuse_lib_opendir_def fuse_lib_readdir_def fuse_lib_readdirplus_def fuse_readdir_common_def
    fuse_lib_ioctl_def fuse_lib_copy_file_range_def copy_second_def Let_def
  by (intro gives_outcome_intros gives_with_path gives_replied bodies_fit; simp)+

lemmas handlers_fit = entry_handlers_fit error_handlers_fit value_handlers_fit fill_handlers_fit dir_handlers_fit

end

text \<open>The answer that fits a call: the structure the kernel expects for it, or an error; a forget has none.\<close>

fun fits_call :: "ll_call \<Rightarrow> reply \<Rightarrow> bool" where
  "fits_call c (ReplyErr e) = (\<not> silent_call c)"
| "fits_call c ReplyNone = silent_call c"
| "fits_call c (ReplyEntry e) =
     (case c of Call_lookup _ _ \<Rightarrow> True | Call_mknod _ _ _ _ \<Rightarrow> True | Call_mkdir _ _ _ \<Rightarrow> True | Call_symlink _ _ _ \<Rightarrow> True
              | Call_link _ _ _ \<Rightarrow> True | _ \<Rightarrow> False)"
| "fits_call c (ReplyAttr st t) = (case c of Call_getattr _ _ \<Rightarrow> True | Call_setattr _ _ _ _ \<Rightarrow> True | _ \<Rightarrow> False)"
| "fits_call c (ReplyReadlink name) = (case c of Call_readlink _ \<Rightarrow> True | _ \<Rightarrow> False)"
| "fits_call c (ReplyOpen fi) = (case c of Call_open _ _ \<Rightarrow> True | Call_opendir _ _ \<Rightarrow> True | _ \<Rightarrow> False)"
| "fits_call c (ReplyCreate e fi) = (case c of Call_create _ _ _ _ \<Rightarrow> True | _ \<Rightarrow> False)"
| "fits_call c (ReplyData v) = (case c of Call_read _ _ _ _ \<Rightarrow> True | _ \<Rightarrow> False)"
| "fits_call c (ReplyWrite n) =
     (case c of Call_write_buf _ _ _ _ \<Rightarrow> True | Call_copy_file_range _ _ _ _ _ _ _ _ \<Rightarrow> True | _ \<Rightarrow> False)"
| "fits_call c (ReplyStatfs st) = (case c of Call_statfs _ \<Rightarrow> True | _ \<Rightarrow> False)"
| "fits_call c (ReplyBuf val) = (case c of Call_getxattr _ _ _ \<Rightarrow> True | Call_listxattr _ _ \<Rightarrow> True | _ \<Rightarrow> False)"
| "fits_call c (ReplyXattr n) = (case c of Call_getxattr _ _ _ \<Rightarrow> True | Call_listxattr _ _ \<Rightarrow> True | _ \<Rightarrow> False)"
| "fits_call c (ReplyLock lock) = (case c of Call_getlk _ _ _ \<Rightarrow> True | _ \<Rightarrow> False)"
| "fits_call c (ReplyBmap idx) = (case c of Call_bmap _ _ _ \<Rightarrow> True | _ \<Rightarrow> False)"
| "fits_call c (ReplyIoctl n data) = (case c of Call_ioctl _ _ _ _ _ _ _ \<Rightarrow> True | _ \<Rightarrow> False)"
| "fits_call c (ReplyPoll revents) = (case c of Call_poll _ _ _ \<Rightarrow> True | _ \<Rightarrow> False)"
| "fits_call c (ReplyLseek off) = (case c of Call_lseek _ _ _ _ \<Rightarrow> True | _ \<Rightarrow> False)"
| "fits_call c (ReplyDir recs) =
     (case c of Call_readdir _ _ _ _ \<Rightarrow> True | Call_readdirplus _ _ _ _ \<Rightarrow> True | _ \<Rightarrow> False)"

text \<open>What is shown of every handler; the forgets are apart.\<close>

definition may_answer :: "ll_call \<Rightarrow> reply \<Rightarrow> bool" where
  "may_answer c r \<longleftrightarrow> silent_call c \<or> fits_call c r"

interpretation call_kind: reply_kind "may_answer c" for c
  by unfold_locales (simp add: may_answer_def)

lemma silent_may_answer: "silent_call c \<Longrightarrow> gives_outcome (may_answer c) m"
  by (simp add: may_answer_def gives_outcome_def)

lemma forgets_are_silent:
  "fuse_lib_forget env l ino n = Inr (r, l1) \<Longrightarrow> r = ReplyNone" "fuse_lib_forget_multi env l fs = Inr (r, l1) \<Longrightarrow> r = ReplyNone"
proof -
  show "fuse_lib_forget env l ino n = Inr (r, l1) \<Longrightarrow> r = ReplyNone" by (auto simp: fuse_lib_forget_def cbind_Inr_iff)
  show "fuse_lib_forget_multi env l fs = Inr (r, l1) \<Longrightarrow> r = ReplyNone"
    by (induction fs arbitrary: l rule: list.induct) (auto simp: cbind_Inr_iff)
qed

lemma lib_call_fits:
  assumes "lib_call env c l = Inr (Replied r, l1)"
  shows "fits_call c r"
proof (cases "silent_call c")
  case True
  then have "r = ReplyNone" using assms forgets_are_silent by (cases c) (auto simp: silent_call_def as_outcome_def cbind_Inr_iff)
  with True show ?thesis by simp
next
  case False
  have "gives_outcome (may_answer c) (lib_call env c l)"
    by (cases c) (simp_all add: call_kind.handlers_fit silent_may_answer silent_call_def may_answer_def)
  with assms False show ?thesis by (auto simp: gives_outcome_def may_answer_def)
qed

interpretation lib: answering "lib_run env" for env
  by unfold_locales (auto simp: lib_run_def dest: lib_call_fits)

end
