(* ===== verification/Tg_Exchange.thy ===== *)
theory Tg_Exchange
  imports Tg_File
begin

text \<open>
  What the three exchanges with the server do (\<^verbatim>\<open>tg_put_file\<close>, \<^verbatim>\<open>tg_file_load_contents\<close>,
  \<^verbatim>\<open>tg_remove_message_with_file\<close>), for a server whose reply arrives in one chunk that fits
  the response buffer. \<open>json_ok\<close> is the invariant of that buffer between requests: it is full
  of determinate bytes and its last byte is NUL. The URL arrays never overflow when the
  configuration and the record are well-formed.
\<close>

section \<open>The response buffer\<close>

definition json_ok :: "carr \<Rightarrow> bool" where
  "json_ok J \<longleftrightarrow> length J = JSON_RESPONSE_BUF_SIZE \<and> None \<notin> set J \<and> last J = Some NUL"

definition reply_fits :: "string \<Rightarrow> bool" where
  "reply_fits r \<longleftrightarrow> c_string r \<and> length r < JSON_RESPONSE_BUF_SIZE"

lemma json_ok_zeros: "json_ok (zeros JSON_RESPONSE_BUF_SIZE)"
  by (simp add: json_ok_def zeros_def size_consts)

lemma cstr_total:
  assumes "None \<notin> set a" "Some NUL \<in> set a"
  shows "\<exists>s. cstr a = Inr s"
  using assms
proof (induction a)
  case (Cons x xs)
  then show ?case by (cases x) auto
qed simp

lemma json_ok_cstr:
  assumes "json_ok J"
  shows "\<exists>s. cstr J = Inr s"
proof (rule cstr_total)
  have "J \<noteq> []" using assms by (auto simp: json_ok_def size_consts)
  then show "Some NUL \<in> set J" using assms by (metis json_ok_def last_in_set)
qed (use assms in \<open>simp add: json_ok_def\<close>)

lemma put_json_chunk_eq:
  assumes "length c < 2 ^ 64"
  shows "put_json_chunk J c =
    (if length c \<le> length J then Inr (map Some c @ drop (length c) J) else Inl OutOfBounds)"
  using assms
  by (simp add: put_json_chunk_def curl_response_json_writer_def read_cells_def memcpy_cells_def)

text \<open>A reply lands on top of the previous one: the text is the reply followed by whatever
  the earlier text held past its end.\<close>

lemma deliver_reply:
  assumes "json_ok J" "reply_fits r"
  shows "\<exists>J' rest. deliver put_json_chunk J [r] = Inr J' \<and> json_ok J' \<and> cstr J' = Inr (r @ rest)"
proof -
  from assms have len: "length r < length J" by (simp add: json_ok_def reply_fits_def)
  let ?J = "map Some r @ drop (length r) J"
  have run: "deliver put_json_chunk J [r] = Inr ?J"
    using assms len by (simp add: put_json_chunk_eq json_ok_def size_consts)
  have ok: "json_ok ?J"
    using assms(1) len by (auto simp: json_ok_def dest: in_set_dropD)
  have "last (drop (length r) J) = Some NUL" using assms(1) len by (simp add: json_ok_def)
  then have "Some NUL \<in> set (drop (length r) J)"
    using len by (metis drop_eq_Nil last_in_set leD)
  moreover have "None \<notin> set (drop (length r) J)"
    using assms(1) by (auto simp: json_ok_def dest: in_set_dropD)
  ultimately obtain rest where rest: "cstr (drop (length r) J) = Inr rest"
    using cstr_total by blast
  have "cstr (map Some t @ ys) = Inr (t @ rest)" if "cstr ys = Inr rest" "c_string t" for t ys
    using that by (induction t) (auto simp: c_string_def)
  with rest assms(2) have "cstr ?J = Inr (r @ rest)" by (simp add: reply_fits_def)
  with run ok show ?thesis by blast
qed

lemma perform_json_reply:
  assumes "e_perform env rq w = (code, [r], w')" "json_ok J" "reply_fits r"
  shows "\<exists>J' rest. perform_json env rq J w = Inr (code, J', w') \<and> json_ok J' \<and> cstr J' = Inr (r @ rest)"
  using deliver_reply [OF assms(2,3)] assms(1) by (auto simp: perform_json_def)

text \<open>Stale text after the reply does not matter for fields the reply has.\<close>

lemma strstr_append: "strstr h n = Some i \<Longrightarrow> strstr (h @ t) n = Some i"
proof (induction h arbitrary: i)
  case Nil
  then show ?case by (cases t) (auto split: if_splits)
next
  case (Cons c h)
  have tk: "take (length n) (c # h @ t) = n" if "take (length n) (c # h) = n"
  proof -
    have "length n \<le> length (c # h)" using that by (metis length_take min.cobounded1)
    then show ?thesis using that by (metis append_Cons append_take_drop_id length_take min_def take_all_iff take_append diff_is_0_eq' take_0 append_Nil2)
  qed
  show ?case
  proof (cases "take (length n) (c # h) = n")
    case True
    with tk Cons.prems show ?thesis by simp
  next
    case False
    with Cons.prems obtain j where j: "strstr h n = Some j" "i = Suc j" by auto
    have "length n \<le> length h"
      using strstr_Some [OF j(1)] by auto
    then have "take (length n) (c # h @ t) = take (length n) (c # h)"
      by (simp add: take_Cons')
    with False j Cons.IH show ?thesis by simp
  qed
qed

lemma field_at_append:
  assumes "field_at r field v"
  shows "field_at (r @ t) field v"
proof -
  from assms obtain i d post where i: "strstr r field = Some i"
    "drop (i + length field + 2) r = v @ d # post" "d \<in> set '',}''" "\<forall>c \<in> set v. c \<notin> set '',}''"
    by (rule field_atE)
  let ?p = "i + length field + 2"
  have p: "?p < length r" using i(2) by (metis append_is_Nil_conv drop_all linorder_not_le list.distinct(1))
  have "drop ?p (r @ t) = v @ d # post @ t" using i(2) p by simp
  then show ?thesis
    using i strstr_append [OF i(1)] p unfolding field_at_def by (simp del: drop_append)
qed

section \<open>Requests\<close>

definition send_url :: "tg_config \<Rightarrow> tg_file \<Rightarrow> string" where
  "send_url c f = ''https://api.telegram.org/bot'' @ text_of (cfg_token c) @ ''/sendDocument?chat_id='' @
     text_of (cfg_chat_id c) @ ''&caption='' @ top_dir (fpath f)"

definition edit_url :: "tg_config \<Rightarrow> tg_file \<Rightarrow> string" where
  "edit_url c f = ''https://api.telegram.org/bot'' @ text_of (cfg_token c) @ ''/editMessageMedia?chat_id='' @
     text_of (cfg_chat_id c) @ ''&message_id='' @ fmid f @ ''&media='' @ media_text @
     ''&caption='' @ top_dir (fpath f)"

definition get_file_url :: "tg_config \<Rightarrow> string \<Rightarrow> string" where
  "get_file_url c i = ''https://api.telegram.org/bot'' @ text_of (cfg_token c) @ ''/getFile?file_id='' @ i"

definition download_url :: "tg_config \<Rightarrow> string \<Rightarrow> string" where
  "download_url c p = ''https://api.telegram.org/file/bot'' @ text_of (cfg_token c) @ ''/'' @ p"

definition delete_url :: "tg_config \<Rightarrow> tg_file \<Rightarrow> string" where
  "delete_url c f = ''https://api.telegram.org/bot'' @ text_of (cfg_token c) @ ''/deleteMessage?chat_id='' @
     text_of (cfg_chat_id c) @ ''&message_id='' @ fmid f"

lemma config_ok_bounds:
  assumes "config_ok c"
  shows "length (text_of (cfg_token c)) < 100" "length (text_of (cfg_chat_id c)) < 100"
    "cstr (cfg_token c) = Inr (text_of (cfg_token c))"
    "cstr (cfg_chat_id c) = Inr (text_of (cfg_chat_id c))"
  using assms by (auto simp: config_ok_def size_consts dest: arr_ok_bound arr_ok_cstr)

lemma file_ok_top_dir:
  assumes "file_ok f"
  shows "length (top_dir (fpath f)) < 100"
proof -
  from assms obtain q where q: "fpath f = slash # q" "length (fpath f) < 100"
    by (auto simp: file_ok_def abs_path_def size_consts)
  from length_top_dir [OF q(1)] q(2) show ?thesis by simp
qed

lemma ids_ok_bounds:
  assumes "ids_ok f"
  shows "length (fid f) < 100" "length (fmid f) < 100"
    "cstr (tf_file_id f) = Inr (fid f)" "cstr (tf_message_id f) = Inr (fmid f)"
  using assms by (auto simp: ids_ok_def size_consts dest: arr_ok_bound arr_ok_cstr)

text \<open>All five URLs fit the 1000-byte array.\<close>

lemma url_fits:
  assumes "config_ok c"
  shows "file_ok f \<Longrightarrow> sprintf_url (send_url c f) = Inr (send_url c f)"
    "file_ok f \<Longrightarrow> ids_ok f \<Longrightarrow> sprintf_url (edit_url c f) = Inr (edit_url c f)"
    "ids_ok f \<Longrightarrow> sprintf_url (delete_url c f) = Inr (delete_url c f)"
    "length i < 100 \<Longrightarrow> sprintf_url (get_file_url c i) = Inr (get_file_url c i)"
    "length i < 100 \<Longrightarrow> sprintf_url (download_url c i) = Inr (download_url c i)"
  using config_ok_bounds [OF assms] file_ok_top_dir [of f] ids_ok_bounds [of f]
  by (simp_all add: sprintf_url_def send_url_def edit_url_def delete_url_def get_file_url_def
      download_url_def media_text_def URL_SIZE_def)

section \<open>Replies\<close>

definition status_is :: "string \<Rightarrow> string \<Rightarrow> bool" where
  "status_is r v \<longleftrightarrow> field_at r ''ok'' v \<and> v \<noteq> [] \<and> hd v \<noteq> dquote \<and> length v < 100"

definition quoted_field :: "string \<Rightarrow> string \<Rightarrow> string \<Rightarrow> bool" where
  "quoted_field r field v \<longleftrightarrow> field_at r field (dquote # v @ [dquote]) \<and> length v < 100"

definition plain_field :: "string \<Rightarrow> string \<Rightarrow> string \<Rightarrow> bool" where
  "plain_field r field v \<longleftrightarrow> field_at r field v \<and> v \<noteq> [] \<and> hd v \<noteq> dquote \<and> length v < 100"

lemma check_ok_reply:
  "cstr J = Inr (r @ rest) \<Longrightarrow> status_is r v \<Longrightarrow> check_ok_status_in_json J = Inr (v = ''true'')"
  by (auto simp: status_is_def intro: check_ok_plain field_at_append)

lemma parse_quoted_zeros:
  assumes "cstr J = Inr (r @ rest)" "quoted_field r field v"
  shows "\<exists>a. parse_response_field_from_json (zeros 100) J field = Inr (a, 0) \<and> arr_ok 100 a \<and> text_of a = v"
proof -
  from assms have f: "field_at (r @ rest) field (dquote # v @ [dquote])" "length v < 100"
    by (auto simp: quoted_field_def intro: field_at_append)
  have "c_string v"
    using assms(1) field_at_c_string [OF _ f(1)] by (auto simp: cstr_Inr_iff c_string_def)
  then have "cstr (map Some v @ drop (length v) (zeros 100)) = Inr v"
    using f(2) by (rule cstr_parsed_zeros)
  with parse_quoted_field [OF assms(1) f(1), of "zeros 100"] f(2) show ?thesis
    by (auto intro: arr_okI text_of_cstr)
qed

lemma parse_plain_zeros:
  assumes "cstr J = Inr (r @ rest)" "plain_field r field v"
  shows "\<exists>a. parse_response_field_from_json (zeros 100) J field = Inr (a, 0) \<and> arr_ok 100 a \<and> text_of a = v"
proof -
  from assms have f: "field_at (r @ rest) field v" "v \<noteq> []" "hd v \<noteq> dquote" "length v < 100"
    by (auto simp: plain_field_def intro: field_at_append)
  have "c_string v"
    using assms(1) field_at_c_string [OF _ f(1)] by (auto simp: cstr_Inr_iff c_string_def)
  then have "cstr (map Some v @ drop (length v) (zeros 100)) = Inr v"
    using f(4) by (rule cstr_parsed_zeros)
  with parse_plain_field [OF assms(1) f(1-3), of "zeros 100"] f(4) show ?thesis
    by (auto intro: arr_okI text_of_cstr)
qed

section \<open>What the exchanges do\<close>

lemma remove_message_spec:
  assumes "config_ok c" "ids_ok f" "json_ok J" "e_init env w"
    and "e_perform env \<lparr>rq_url = delete_url c f, rq_mime = None\<rparr> w = (code, [r], w')"
    and "reply_fits r" "status_is r v"
  shows "\<exists>J'. tg_remove_message_with_file env c f J w = Inr (0, J', w') \<and> json_ok J'"
proof -
  from perform_json_reply [OF assms(5,3,6)] obtain J' rest where
    J': "perform_json env \<lparr>rq_url = delete_url c f, rq_mime = None\<rparr> J w = Inr (code, J', w')"
      "json_ok J'" "cstr J' = Inr (r @ rest)"
    by blast
  then show ?thesis
    using assms(4) url_fits(3) [OF assms(1,2)] check_ok_reply [OF J'(3) assms(7)]
    by (simp add: tg_remove_message_with_file_def config_ok_bounds [OF assms(1)]
        ids_ok_bounds [OF assms(2)] delete_url_def)
qed

lemma put_file_send_spec:
  assumes "config_ok c" "file_ok f" "fresh_ids f" "json_ok J"
    and "e_perform env \<lparr>rq_url = send_url c f, rq_mime = Some part\<rparr> w = (code, [r], w')"
    and "reply_fits r" "status_is r ''true''"
    and "quoted_field r ''file_id'' i" "plain_field r ''message_id'' m"
  shows "\<exists>f' J'. tg_put_file_send env f c part J w = Inr (f', J', w') \<and> json_ok J' \<and> file_ok f' \<and> ids_ok f' \<and>
           tf_path f' = tf_path f \<and> fid f' = i \<and> fmid f' = m \<and>
           tf_file_size f' = tf_file_size f \<and> tf_type f' = tf_type f"
proof -
  from perform_json_reply [OF assms(5,4,6)] obtain J' rest where
    J': "perform_json env \<lparr>rq_url = send_url c f, rq_mime = Some part\<rparr> J w = Inr (code, J', w')"
      "json_ok J'" "cstr J' = Inr (r @ rest)"
    by blast
  from extract_directory_ok [OF assms(2), of "replicate 100 None"] obtain d where
    d: "tg_file_extract_directory (replicate 100 None) f = Inr d" "cstr d = Inr (top_dir (fpath f))"
    by auto
  from parse_quoted_zeros [OF J'(3) assms(8)] obtain a where
    a: "parse_response_field_from_json (zeros 100) J' ''file_id'' = Inr (a, 0)" "arr_ok 100 a" "text_of a = i"
    by blast
  from parse_plain_zeros [OF J'(3) assms(9)] obtain b where
    b: "parse_response_field_from_json (zeros 100) J' ''message_id'' = Inr (b, 0)" "arr_ok 100 b" "text_of b = m"
    by blast
  have "tg_put_file_send env f c part J w = Inr (f\<lparr>tf_file_id := a, tf_message_id := b\<rparr>, J', w')"
    using J'(1) url_fits(1) [OF assms(1,2)] check_ok_reply [OF J'(3) assms(7)] a(1) b(1) assms(3)
    by (simp add: tg_put_file_send_def d config_ok_bounds [OF assms(1)] send_url_def fresh_ids_def)
  with J'(2) a(2,3) b(2,3) assms(2) show ?thesis
    by (simp add: file_ok_def ids_ok_def arr_ok_def size_consts)
qed

lemma put_file_edit_spec:
  assumes "config_ok c" "file_ok f" "json_ok J" and ids: "ids_ok f"
    and "e_perform env \<lparr>rq_url = edit_url c f, rq_mime = Some part\<rparr> w = (CURLE_OK, [r], w')"
    and "reply_fits r" "status_is r ''true''" "quoted_field r ''file_id'' i"
  shows "\<exists>f' J'. tg_put_file_edit env f c part J w = Inr (f', J', w') \<and> json_ok J' \<and> file_ok f' \<and> ids_ok f' \<and>
           tf_path f' = tf_path f \<and> fid f' = i \<and> fmid f' = fmid f \<and>
           tf_file_size f' = tf_file_size f \<and> tf_type f' = tf_type f"
proof -
  from perform_json_reply [OF assms(5,3,6)] obtain J' rest where
    J': "perform_json env \<lparr>rq_url = edit_url c f, rq_mime = Some part\<rparr> J w = Inr (CURLE_OK, J', w')"
      "json_ok J'" "cstr J' = Inr (r @ rest)"
    by blast
  from extract_directory_ok [OF assms(2), of "replicate 100 None"] obtain d where
    d: "tg_file_extract_directory (replicate 100 None) f = Inr d" "cstr d = Inr (top_dir (fpath f))"
    by auto
  from parse_quoted_zeros [OF J'(3) assms(8)] obtain a where
    a: "parse_response_field_from_json (zeros 100) J' ''file_id'' = Inr (a, 0)" "arr_ok 100 a" "text_of a = i"
    by blast
  have "tg_put_file_edit env f c part J w = Inr (f\<lparr>tf_file_id := a\<rparr>, J', w')"
    using J'(1) url_fits(2) [OF assms(1,2) ids] check_ok_reply [OF J'(3) assms(7)] a(1)
    by (simp add: tg_put_file_edit_def d config_ok_bounds [OF assms(1)] ids_ok_bounds [OF ids]
        edit_url_def FILE_ID_SIZE_def)
  with J'(2) a(2,3) assms(2) ids show ?thesis
    by (simp add: file_ok_def ids_ok_def arr_ok_def size_consts)
qed

text \<open>The MIME part an upload sends.\<close>

definition upload_part :: "tg_file \<Rightarrow> carr \<Rightarrow> mimepart" where
  "upload_part f data = \<lparr>mp_name = ''document'', mp_data = data, mp_filename = base_name (fpath f)\<rparr>"

definition curl_works :: "'w env \<Rightarrow> 'w \<Rightarrow> bool" where
  "curl_works env w \<longleftrightarrow> e_init env w \<and> e_mime_name env w = CURLE_OK \<and> e_mime_data env w = CURLE_OK \<and>
     e_mime_filename env w = CURLE_OK"

lemma put_file_choice:
  assumes "file_ok f" "curl_works env w" "ids_ok f"
  shows "tg_put_file env f c data J w =
    (if fid f = [] then tg_put_file_send env f c (upload_part f (bytes data)) J w
     else tg_put_file_edit env f c (upload_part f (bytes data)) J w)"
proof -
  from extract_filename_ok [OF assms(1), of "replicate 100 None"] obtain d where
    "tg_file_extract_filename (replicate 100 None) f = Inr d" "cstr d = Inr (base_name (fpath f))"
    by auto
  with assms(2) show ?thesis
    by (simp add: tg_put_file_def curl_works_def abort_if_error_def Let_def upload_part_def
        ids_ok_bounds [OF assms(3)])
qed

lemma put_file_chunk_eq:
  "put_file_chunk alloc b c = buffer_append alloc b (map Some c) (of_nat (length (map Some c)))"
proof -
  have "buffer_append alloc b (map Some c) (1 * of_nat (length c)) =
      buffer_append alloc b (map Some c) (of_nat (length (map Some c)))" by simp
  then show ?thesis
    by (cases "buffer_append alloc b (map Some c) (of_nat (length (map Some c)))")
      (simp_all add: put_file_chunk_def curl_response_file_writer_def)
qed

lemma deliver_file:
  assumes "sink_ok alloc L b" "length (bytes b) + length (concat cs) \<le> L"
  shows "\<exists>b'. deliver (put_file_chunk alloc) b cs = Inr b' \<and> sink_ok alloc L b' \<and>
           bytes b' = bytes b @ map Some (concat cs)"
proof -
  have map: "deliver (put_file_chunk alloc) b cs =
      deliver (\<lambda>b xs. buffer_append alloc b xs (of_nat (length xs))) b (map (map Some) cs)" for b
  proof (induction cs arbitrary: b)
    case (Cons x xs)
    then show ?case
      by (cases "buffer_append alloc b (map Some x) (of_nat (length (map Some x)))")
        (simp_all add: put_file_chunk_eq)
  qed simp
  show ?thesis
    using buf.deliver_concat [OF assms(1), of "map (map Some) cs"] assms(2)
    by (simp add: map map_concat length_concat comp_def)
qed

lemma load_contents_spec:
  assumes "config_ok c" "ids_ok f" "e_init env w"
    and "e_perform env \<lparr>rq_url = get_file_url c (fid f), rq_mime = None\<rparr> w = (CURLE_OK, [r], w1)"
    and "reply_fits r" "status_is r ''true''" "quoted_field r ''file_path'' p"
    and "e_perform env \<lparr>rq_url = download_url c p, rq_mime = None\<rparr> w1 = (code, cs, w2)"
    and "length (concat cs) \<le> L" "L + 100 < 2 ^ 64" "\<forall>n \<le> L + 100. e_alloc env n"
  shows "\<exists>b J'. tg_file_load_contents env c f J w = Inr (b, J', w2) \<and> json_ok J' \<and>
           sink_ok (e_alloc env) L b \<and> bytes b = map Some (concat cs)"
proof -
  from perform_json_reply [OF assms(4) json_ok_zeros assms(5)] obtain J' rest where
    J': "perform_json env \<lparr>rq_url = get_file_url c (fid f), rq_mime = None\<rparr>
          (zeros JSON_RESPONSE_BUF_SIZE) w = Inr (CURLE_OK, J', w1)"
      "json_ok J'" "cstr J' = Inr (r @ rest)"
    by blast
  from parse_quoted_zeros [OF J'(3) assms(7)] obtain a where
    a: "parse_response_field_from_json (zeros 100) J' ''file_path'' = Inr (a, 0)" "cstr a = Inr p"
    by (auto simp: arr_ok_def)
  have new: "sink_ok (e_alloc env) L (buffer_new (e_alloc env))" "bytes (buffer_new (e_alloc env)) = []"
    using assms(10,11) sink_ok_new buf_ok_new [of "e_alloc env"] by auto
  then obtain b where b: "deliver (put_file_chunk (e_alloc env)) (buffer_new (e_alloc env)) cs = Inr b"
      "sink_ok (e_alloc env) L b" "bytes b = map Some (concat cs)"
    using deliver_file [OF new(1), of cs] assms(9) by auto
  have "length p < 100" using assms(7) by (simp add: quoted_field_def)
  then have "tg_file_load_contents env c f J w = Inr (b, J', w2)"
    using assms(3) J'(1) a b(1) check_ok_reply [OF J'(3) assms(6)] assms(8)
      url_fits(4) [OF assms(1) ids_ok_bounds(1) [OF assms(2)]] url_fits(5) [OF assms(1), of p]
    by (simp add: tg_file_load_contents_def Let_def config_ok_bounds [OF assms(1)]
        ids_ok_bounds [OF assms(2)] get_file_url_def download_url_def FILE_PATH_SIZE_def perform_file_def)
  with J'(2) b show ?thesis by blast
qed

end
