(* ===== verification/Fuse_Ops_Correct.thy ===== *)
theory Fuse_Ops_Correct
  imports Fuse_Ops Tg_Exchange
begin

text \<open>
  Correctness of the callbacks of \<^verbatim>\<open>main.c\<close>. \<open>fs_ok s xs\<close> says that the state is well-formed and
  its table holds the records \<open>xs\<close>; queries are characterised by the map \<open>path_map xs\<close>, updates
  by the list (and map) they leave. The abstract counterpart of the loop in \<^verbatim>\<open>hello_rmdir\<close> is
  \<open>rmdir_list\<close>.
\<close>

section \<open>Well-formed states\<close>

definition fs_ok :: "'w fs \<Rightarrow> tg_file list \<Rightarrow> bool" where
  "fs_ok s xs \<longleftrightarrow> stor_rep (g_storage s) xs \<and> config_ok (g_config s) \<and>
     length (g_json s) = JSON_RESPONSE_BUF_SIZE"

lemma fs_ok_rep: "fs_ok s xs \<Longrightarrow> stor_rep (g_storage s) xs"
  by (simp add: fs_ok_def)

text \<open>Searching and then reading the record found, the opening move of most callbacks.\<close>

lemma find_load:
  assumes "fs_ok s xs"
  shows "cbind (tg_storage_find_by_path (g_storage s) p)
      (\<lambda>r. case r of None \<Rightarrow> none | Some i \<Rightarrow> cbind (load_file (g_storage s) (int i)) (some i)) =
    (case find_index (\<lambda>f. fpath f = p) xs of None \<Rightarrow> none | Some i \<Rightarrow> some i (xs ! i))"
proof (cases "find_index (\<lambda>f. fpath f = p) xs")
  case (Some i)
  then have "i < length xs" by (simp add: find_index_Some)
  with Some assms show ?thesis by (simp add: find_rep [OF fs_ok_rep] load_file_rep [OF fs_ok_rep])
qed (simp add: find_rep [OF fs_ok_rep [OF assms]])

lemma path_map_cases:
  obtains (absent) "find_index (\<lambda>f. fpath f = p) xs = None" "path_map xs p = None"
  | (present) i where "find_index (\<lambda>f. fpath f = p) xs = Some i" "path_map xs p = Some (xs ! i)"
      "i < length xs" "fpath (xs ! i) = p"
  by (cases "find_index (\<lambda>f. fpath f = p) xs") (auto simp: path_map_def find_index_Some)

section \<open>Queries\<close>

definition stat_of :: "tg_file \<Rightarrow> stat" where
  "stat_of f = (case tf_type f of
     TG_FILE \<Rightarrow> \<lparr>st_mode = 0x81FF, st_nlink = 1, st_size = tf_file_size f\<rparr>
   | TG_DIR \<Rightarrow> \<lparr>st_mode = 0x41FF, st_nlink = 1, st_size = 0\<rparr>)"

lemma hello_getattr_spec:
  assumes "fs_ok s xs"
  shows "hello_getattr s p =
    (if p = [slash] then Inr (0, \<lparr>st_mode = 0x41FF, st_nlink = 2, st_size = 0\<rparr>)
     else case path_map xs p of
            None \<Rightarrow> Inr (- ENOENT, stat_zero)
          | Some f \<Rightarrow> Inr (0, stat_of f))"
  unfolding hello_getattr_def find_load [OF assms]
  by (cases rule: path_map_cases [of p xs])
    (simp_all add: stat_zero_def stat_of_def S_IFDIR_def S_IFREG_def mode_0777_def
      split: tg_file_type.split)

lemma hello_open_spec:
  assumes "fs_ok s xs"
  shows "hello_open s p = Inr (if path_map xs p = None then - ENOENT else 0)"
  using assms by (auto simp: hello_open_def find_rep [OF fs_ok_rep] path_map_def split: option.split)

lemma readdir_loop_spec:
  assumes "stor_rep st xs"
  shows "i \<le> length xs \<Longrightarrow>
    readdir_loop st p i = Inr (map (\<lambda>f. base_name (fpath f)) (filter (in_dir p) (drop i xs)))"
proof (induction "length xs - i" arbitrary: i rule: less_induct)
  case less
  note find = find_files_rep [OF assms less.prems, of p]
  show ?case
  proof (cases "find_index (in_dir p) (drop i xs)")
    case None
    then have "filter (in_dir p) (drop i xs) = []"
      by (auto simp: find_index_None filter_empty_conv)
    with None find show ?thesis by (simp add: readdir_loop.simps [of st p i])
  next
    case (Some j)
    then have j: "i + j < length xs" "in_dir p (xs ! (i + j))"
      and first: "\<forall>k < j. \<not> in_dir p (drop i xs ! k)"
      using less.prems by (auto simp: find_index_Some)
    from extract_filename_ok [OF stor_rep_file_ok [OF assms j(1)], of "replicate 100 None"]
    obtain a where a: "tg_file_extract_filename (replicate 100 None) (xs ! (i + j)) = Inr a"
      "cstr a = Inr (base_name (fpath (xs ! (i + j))))" by auto
    have "drop i xs = take j (drop i xs) @ xs ! (i + j) # drop (Suc (i + j)) xs"
      using id_take_nth_drop [of j "drop i xs"] j(1) less.prems by (simp add: add.commute)
    moreover have "filter (in_dir p) (take j (drop i xs)) = []"
      using first j(1) by (auto simp: filter_empty_conv in_set_conv_nth)
    ultimately have filt: "filter (in_dir p) (drop i xs) =
        xs ! (i + j) # filter (in_dir p) (drop (Suc (i + j)) xs)"
      using j(2) by (metis append_Nil filter.simps(2) filter_append)
    have "readdir_loop st p (Suc (i + j)) =
        Inr (map (\<lambda>f. base_name (fpath f)) (filter (in_dir p) (drop (Suc (i + j)) xs)))"
      using j(1) by (intro less.hyps) auto
    moreover have "load_file st (int (j + i)) = Inr (xs ! (i + j))"
      using load_file_rep [OF assms j(1)] by (simp add: add.commute)
    ultimately show ?thesis
      using find Some a by (simp add: readdir_loop.simps [of st p i] filt add.commute)
  qed
qed

lemma hello_readdir_spec:
  assumes "fs_ok s xs"
  shows "hello_readdir s p =
    (case path_map xs p of
       None \<Rightarrow> Inr (- ENOENT, [])
     | Some d \<Rightarrow>
         if tf_type d = TG_DIR
         then Inr (0, [''.'', ''..''] @ map (\<lambda>f. base_name (fpath f)) (filter (in_dir p) xs))
         else Inr (- ENOENT, []))"
  unfolding hello_readdir_def find_load [OF assms]
  by (cases rule: path_map_cases [of p xs])
    (simp_all add: readdir_loop_spec [OF fs_ok_rep [OF assms], of 0 p, simplified])

section \<open>Creation\<close>

lemma push_new_file:
  assumes "fs_ok s xs" "abs_path p" "can_grow alloc (g_storage s)"
  shows "\<exists>f st'. tg_file_new_file p n = Inr f \<and> tg_storage_push alloc (g_storage s) f = Inr st' \<and>
    fs_ok (s\<lparr>g_storage := st'\<rparr>) (xs @ [f]) \<and> file_ok f \<and> fpath f = p \<and> fresh_ids f \<and>
    tf_file_size f = n \<and> tf_type f = TG_FILE"
proof -
  from tg_file_new_file_ok [OF assms(2), of n] obtain f where
    f: "tg_file_new_file p n = Inr f" "file_ok f" "fpath f = p" "fresh_ids f" "tf_file_size f = n"
      "tf_type f = TG_FILE" by blast
  from push_rep [OF fs_ok_rep [OF assms(1)] f(2) assms(3)] obtain st' where
    "tg_storage_push alloc (g_storage s) f = Inr st'" "stor_rep st' (xs @ [f])" by blast
  with f assms(1) show ?thesis by (auto simp: fs_ok_def)
qed

lemma push_new_dir:
  assumes "fs_ok s xs" "abs_path p" "can_grow alloc (g_storage s)"
  shows "\<exists>f st'. tg_file_new_dir p = Inr f \<and> tg_storage_push alloc (g_storage s) f = Inr st' \<and>
    fs_ok (s\<lparr>g_storage := st'\<rparr>) (xs @ [f]) \<and> file_ok f \<and> fpath f = p \<and> fresh_ids f \<and>
    tf_file_size f = 0 \<and> tf_type f = TG_DIR"
proof -
  from tg_file_new_dir_ok [OF assms(2)] obtain f where
    f: "tg_file_new_dir p = Inr f" "file_ok f" "fpath f = p" "fresh_ids f" "tf_file_size f = 0"
      "tf_type f = TG_DIR" by blast
  from push_rep [OF fs_ok_rep [OF assms(1)] f(2) assms(3)] obtain st' where
    "tg_storage_push alloc (g_storage s) f = Inr st'" "stor_rep st' (xs @ [f])" by blast
  with f assms(1) show ?thesis by (auto simp: fs_ok_def)
qed

lemma hello_create_spec:
  assumes "fs_ok s xs" "abs_path p" "can_grow (e_alloc env) (g_storage s)"
    and "\<And>d. path_map xs p = Some d \<Longrightarrow> tf_type d = TG_FILE"
  shows "\<exists>f s'. hello_create env s p = Inr (0, s') \<and> fs_ok s' (xs @ [f]) \<and> fpath f = p \<and>
    tf_type f = TG_FILE \<and> tf_file_size f = 0 \<and> fresh_ids f \<and> g_json s' = g_json s \<and>
    g_world s' = g_world s \<and> g_config s' = g_config s"
  using push_new_file [OF assms(1-3), of 0] assms(1,4)
  by (cases rule: path_map_cases [of p xs])
    (auto simp: hello_create_def find_rep [OF fs_ok_rep] load_file_rep [OF fs_ok_rep])

lemma hello_create_dir:
  assumes "fs_ok s xs" "path_map xs p = Some d" "tf_type d = TG_DIR"
  shows "hello_create env s p = Inr (- EISDIR, s)"
  using assms
  by (cases rule: path_map_cases [of p xs])
    (auto simp: hello_create_def find_rep [OF fs_ok_rep] load_file_rep [OF fs_ok_rep])

lemma hello_mkdir_spec:
  assumes "fs_ok s xs" "abs_path p" "can_grow (e_alloc env) (g_storage s)"
  shows "\<exists>d s'. hello_mkdir env s p = Inr (0, s') \<and> fs_ok s' (xs @ [d]) \<and> fpath d = p \<and>
    tf_type d = TG_DIR \<and> g_json s' = g_json s \<and> g_world s' = g_world s \<and> g_config s' = g_config s"
  using push_new_dir [OF assms] by (auto simp: hello_mkdir_def)

section \<open>Removal\<close>

lemma remove_fs:
  assumes "fs_ok s xs"
  shows "\<exists>st'. tg_storage_remove_by_path (g_storage s) p = Inr (fst (removed xs p), st') \<and>
    fs_ok (s\<lparr>g_storage := st'\<rparr>) (snd (removed xs p))"
  using remove_rep [OF fs_ok_rep [OF assms], of p] assms by (auto simp: fs_ok_def)

text \<open>The record is taken out of the table first; the message is deleted afterwards.\<close>

lemma hello_unlink_spec:
  assumes "fs_ok s xs"
  shows "\<exists>st'. fs_ok (s\<lparr>g_storage := st'\<rparr>) (snd (removed xs p)) \<and>
    hello_unlink env s p =
      (case path_map xs p of
         None \<Rightarrow> Inr (- ENOENT, s\<lparr>g_storage := st'\<rparr>)
       | Some f \<Rightarrow> cbind (remote_delete env (s\<lparr>g_storage := st'\<rparr>) f) (\<lambda>s2. Inr (0, s2)))"
proof -
  from remove_fs [OF assms, of p] obtain st' where
    st': "tg_storage_remove_by_path (g_storage s) p = Inr (fst (removed xs p), st')"
      "fs_ok (s\<lparr>g_storage := st'\<rparr>) (snd (removed xs p))" by blast
  have "hello_unlink env s p =
      (case path_map xs p of
         None \<Rightarrow> Inr (- ENOENT, s\<lparr>g_storage := st'\<rparr>)
       | Some f \<Rightarrow> cbind (remote_delete env (s\<lparr>g_storage := st'\<rparr>) f) (\<lambda>s2. Inr (0, s2)))"
  proof (cases rule: path_map_cases [of p xs])
    case absent
    then show ?thesis
      using st'(1) by (simp add: hello_unlink_def removed_def tg_file_zero_def size_consts)
  next
    case (present i)
    then have "file_ok (xs ! i)" using stor_rep_file_ok [OF fs_ok_rep [OF assms]] by simp
    then have "cstr (tf_path (xs ! i)) = Inr p" "p \<noteq> []"
      using present(4) by (auto simp: file_ok_def abs_path_def dest: arr_ok_cstr)
    with present show ?thesis using st'(1) by (simp add: hello_unlink_def removed_def)
  qed
  with st'(2) show ?thesis by blast
qed

text \<open>A server that answers delete requests, whatever it answers.\<close>

definition answers_delete :: "'w env \<Rightarrow> tg_config \<Rightarrow> bool" where
  "answers_delete env c \<longleftrightarrow> (\<forall>w f. ids_ok f \<longrightarrow> e_init env w \<and>
     (\<exists>code r v w'. e_perform env \<lparr>rq_url = delete_url c f, rq_mime = None\<rparr> w = (code, [r], w') \<and>
        reply_fits r \<and> status_is r v))"

lemma remote_delete_ok:
  assumes "fs_ok s xs" "json_ok (g_json s)" "answers_delete env (g_config s)" "ids_ok f"
  shows "\<exists>J w. remote_delete env s f = Inr (s\<lparr>g_json := J, g_world := w\<rparr>) \<and> json_ok J"
proof -
  from assms(3,4) obtain code r v w' where srv:
    "e_init env (g_world s)"
    "e_perform env \<lparr>rq_url = delete_url (g_config s) f, rq_mime = None\<rparr> (g_world s) = (code, [r], w')"
    "reply_fits r" "status_is r v"
    unfolding answers_delete_def by meson
  have cfg: "config_ok (g_config s)" using assms(1) by (simp add: fs_ok_def)
  from remove_message_spec [OF cfg assms(4,2) srv] obtain J' where
    "tg_remove_message_with_file env (g_config s) f (g_json s) (g_world s) = Inr (0, J', w')" "json_ok J'"
    by blast
  then show ?thesis by (auto simp: remote_delete_def)
qed

subsection \<open>The loop of rmdir\<close>

function rmdir_list :: "string \<Rightarrow> tg_file list \<Rightarrow> nat \<Rightarrow> tg_file list" where
  "rmdir_list dir xs i =
     (case find_index (in_dir dir) (drop i xs) of
        None \<Rightarrow> xs
      | Some j \<Rightarrow> rmdir_list dir (swap_remove xs (i + j)) (Suc (i + j)))"
  by pat_completeness auto
termination
  by (relation "measure (\<lambda>(dir, xs, i). length xs - i)") (auto simp: find_index_Some)

declare rmdir_list.simps [simp del]

lemma find_index_drop:
  "find_index P (drop i xs) = Some j \<Longrightarrow> i + j < length xs \<and> P (xs ! (i + j))"
  by (auto simp: find_index_Some)

lemma uniq_swap_remove:
  "uniq xs \<Longrightarrow> i < length xs \<Longrightarrow> uniq (swap_remove xs i) \<and> set (swap_remove xs i) = set xs - {xs ! i}"
  using mset_swap_remove_set [of i xs fpath] by (simp add: uniq_def)

lemma rmdir_list_sets:
  assumes "uniq xs"
  shows "uniq (rmdir_list dir xs i) \<and> set (rmdir_list dir xs i) \<subseteq> set xs \<and>
    {f \<in> set xs. \<not> in_dir dir f} \<subseteq> set (rmdir_list dir xs i)"
  using assms
proof (induction dir xs i rule: rmdir_list.induct)
  case (1 dir xs i)
  show ?case
  proof (cases "find_index (in_dir dir) (drop i xs)")
    case None
    with "1.prems" show ?thesis by (simp add: rmdir_list.simps [of dir xs i])
  next
    case (Some j)
    from find_index_drop [OF Some] have j: "i + j < length xs" "in_dir dir (xs ! (i + j))" by auto
    from uniq_swap_remove [OF "1.prems" j(1)] "1.IH" [OF Some] j(2) Some show ?thesis
      by (auto simp: rmdir_list.simps [of dir xs i])
  qed
qed

lemma rmdir_body_spec:
  assumes "fs_ok s xs" "uniq xs" "json_ok (g_json s)" "answers_delete env (g_config s)"
    "\<forall>f \<in> set xs. ids_ok f" "k < length xs"
  shows "\<exists>s'. rmdir_body env s k = Inr s' \<and> fs_ok s' (swap_remove xs k) \<and> json_ok (g_json s') \<and>
    g_config s' = g_config s"
proof -
  let ?f = "xs ! k"
  have f: "ids_ok ?f" "file_ok ?f"
    using assms(5,6) stor_rep_file_ok [OF fs_ok_rep [OF assms(1)] assms(6)] by auto
  obtain s1 where s1: "(if 0 < tf_file_size ?f then remote_delete env s ?f else Inr s) = Inr s1"
    "fs_ok s1 xs" "json_ok (g_json s1)" "g_config s1 = g_config s"
  proof (cases "0 < tf_file_size ?f")
    case True
    obtain J w where "remote_delete env s ?f = Inr (s\<lparr>g_json := J, g_world := w\<rparr>)" "json_ok J"
      using remote_delete_ok [OF assms(1,3,4) f(1)] by blast
    with True that [of "s\<lparr>g_json := J, g_world := w\<rparr>"] assms(1) show ?thesis
      by (simp add: fs_ok_def json_ok_def)
  qed (use that [of s] assms(1,3) in simp)
  have "find_index (\<lambda>f. fpath f = fpath ?f) xs = Some k"
    using assms(2,6) by (auto simp: find_index_Some uniq_def distinct_conv_nth)
  then have rem: "removed xs (fpath ?f) = (?f, swap_remove xs k)" by (simp add: removed_def)
  from remove_fs [OF s1(2), of "fpath ?f"] obtain st' where
    "tg_storage_remove_by_path (g_storage s1) (fpath ?f) = Inr (?f, st')"
    "fs_ok (s1\<lparr>g_storage := st'\<rparr>) (swap_remove xs k)" by (auto simp: rem)
  moreover have "cstr (tf_path ?f) = Inr (fpath ?f)" using f(2) by (simp add: file_ok_def arr_ok_def)
  ultimately show ?thesis
    using s1 assms(6) by (simp add: rmdir_body_def load_file_rep [OF fs_ok_rep [OF assms(1)]])
qed

lemma rmdir_loop_spec:
  assumes "fs_ok s xs" "uniq xs" "json_ok (g_json s)" "answers_delete env (g_config s)"
    "\<forall>f \<in> set xs. ids_ok f" "i \<le> length xs"
  shows "\<exists>s'. rmdir_loop env dir s i = Inr s' \<and> fs_ok s' (rmdir_list dir xs i) \<and> json_ok (g_json s') \<and>
    g_config s' = g_config s"
  using assms
proof (induction dir xs i arbitrary: s rule: rmdir_list.induct)
  case (1 dir xs i)
  note find = find_files_rep [OF fs_ok_rep [OF "1.prems"(1)] "1.prems"(6), of dir]
  show ?case
  proof (cases "find_index (in_dir dir) (drop i xs)")
    case None
    with "1.prems" find show ?thesis
      by (simp add: rmdir_list.simps [of dir xs i] rmdir_loop.simps [of env dir s i])
  next
    case (Some j)
    from find_index_drop [OF Some] have j: "i + j < length xs" by auto
    from rmdir_body_spec [OF "1.prems"(1-5) j] obtain s1 where
      s1: "rmdir_body env s (i + j) = Inr s1" "fs_ok s1 (swap_remove xs (i + j))" "json_ok (g_json s1)"
        "g_config s1 = g_config s" by blast
    from uniq_swap_remove [OF "1.prems"(2) j] have u: "uniq (swap_remove xs (i + j))"
      "\<forall>f \<in> set (swap_remove xs (i + j)). ids_ok f" using "1.prems"(5) by auto
    have "Suc (i + j) \<le> length (swap_remove xs (i + j)) \<or> Suc (i + j) = length xs" using j by auto
    then show ?thesis
    proof
      assume le: "Suc (i + j) \<le> length (swap_remove xs (i + j))"
      from "1.IH" [OF Some s1(2) u(1) s1(3) _ u(2) le] "1.prems"(4) s1(4) show ?thesis
        using find Some s1(1)
        by (auto simp: rmdir_list.simps [of dir xs i] rmdir_loop.simps [of env dir s i] add.commute)
    next
      assume last: "Suc (i + j) = length xs"
      then have "\<not> int (Suc (i + j)) < s_size (g_storage s1)"
        using stor_rep_size [OF fs_ok_rep [OF s1(2)]] by simp
      then have "tg_storage_find_files_by_dir (g_storage s1) dir (Suc (i + j)) = Inr None"
        by (subst tg_storage_find_files_by_dir.simps) (simp only: if_False)
      then have "rmdir_loop env dir s1 (Suc (i + j)) = Inr s1"
        by (subst rmdir_loop.simps) simp
      moreover have "rmdir_list dir (swap_remove xs (i + j)) (Suc (i + j)) = swap_remove xs (i + j)"
        using last by (subst rmdir_list.simps) simp
      ultimately show ?thesis
        using find Some s1
        by (auto simp: rmdir_list.simps [of dir xs i] rmdir_loop.simps [of env dir s i] add.commute)
    qed
  qed
qed

lemma hello_rmdir_spec:
  assumes "fs_ok s xs" "uniq xs" "json_ok (g_json s)" "answers_delete env (g_config s)"
    "\<forall>f \<in> set xs. ids_ok f" "path_map xs p = Some d" "tf_type d = TG_DIR"
  shows "\<exists>s'. hello_rmdir env s p = Inr (0, s') \<and> fs_ok s' (snd (removed (rmdir_list p xs 0) p)) \<and>
    json_ok (g_json s')"
proof -
  from rmdir_loop_spec [OF assms(1-5), of 0 p] obtain s1 where
    s1: "rmdir_loop env p s 0 = Inr s1" "fs_ok s1 (rmdir_list p xs 0)" "json_ok (g_json s1)" by auto
  from remove_fs [OF s1(2), of p] obtain st' where
    "tg_storage_remove_by_path (g_storage s1) p = Inr (fst (removed (rmdir_list p xs 0) p), st')"
    "fs_ok (s1\<lparr>g_storage := st'\<rparr>) (snd (removed (rmdir_list p xs 0) p))" by blast
  then show ?thesis
    using assms(6,7) s1(1,3) unfolding hello_rmdir_def find_load [OF assms(1)]
    by (cases rule: path_map_cases [of p xs]) auto
qed

text \<open>
  The loop moves the last record into the hole and continues behind it, so of two files of
  the directory at the end of the table the second is never looked at.
\<close>

lemma rmdir_list_skips:
  assumes "\<forall>f \<in> set us. \<not> in_dir dir f" "in_dir dir a" "in_dir dir b"
  shows "rmdir_list dir (us @ [a, b]) 0 = us @ [b]"
proof -
  have "find_index (in_dir dir) (us @ [a, b]) = Some (length us)"
    using assms by (auto simp: find_index_Some nth_append)
  moreover have "swap_remove (us @ [a, b]) (length us) = us @ [b]"
    by (simp add: swap_remove_def butlast_append)
  moreover have "rmdir_list dir (us @ [b]) (Suc (length us)) = us @ [b]"
    by (subst rmdir_list.simps) simp
  ultimately show ?thesis by (subst rmdir_list.simps) simp
qed

text \<open>With at most one file in the directory nothing is left behind.\<close>

lemma rmdir_list_single:
  assumes "uniq xs" "in_dir dir a" "a \<in> set xs" "\<And>f. f \<in> set xs \<Longrightarrow> in_dir dir f \<Longrightarrow> f = a"
  shows "\<forall>f \<in> set (rmdir_list dir xs 0). \<not> in_dir dir f"
proof -
  obtain j where j: "find_index (in_dir dir) (drop 0 xs) = Some j"
    using assms(2,3) by (cases "find_index (in_dir dir) xs") (auto simp: find_index_None)
  from find_index_drop [OF j] have lt: "j < length xs" and "in_dir dir (xs ! j)" by auto
  then have "xs ! j = a" using assms(4) by simp
  then have u: "uniq (swap_remove xs j)" "\<forall>f \<in> set (swap_remove xs j). \<not> in_dir dir f"
    using uniq_swap_remove [OF assms(1) lt] assms(4) by auto
  with rmdir_list_sets [OF u(1), of dir "Suc j"] j show ?thesis
    by (auto simp: rmdir_list.simps [of dir xs 0])
qed

section \<open>Reading\<close>

lemma read_slice_spec:
  assumes b: "buf_ok b" "b_ptr b = Some cells" "bytes b = map Some content"
    and len: "length content < 2 ^ 63" and off: "unat off < 2 ^ 63"
    and nowrap: "unat off + unat sz < 2 ^ 64"
    and out: "out = take (unat sz) (drop (unat off) content)"
  shows "read_slice b sz off = Inr (of_nat (length out), map Some out)"
proof -
  have size: "unat (b_size b) = length content" using length_bytes [OF b(1)] b(3) by simp
  have cells: "take (length content) cells = map Some content"
    using b(2,3) size by (simp add: bytes_Some)
  have lc: "length content \<le> length cells"
    using b(1,2) size by (auto simp: buf_ok_def word_le_nat_alt)
  have cmp: "sint off < sint (b_size b) \<longleftrightarrow> unat off < length content"
    using sint_size_small [OF off] sint_size_small [of "b_size b"] len size
    by (simp only: of_nat_less_iff)
  have sum: "unat (off + sz) = unat off + unat sz" using nowrap by (simp add: unat_add_nowrap)
  show ?thesis
  proof (cases "unat off < length content")
    case False
    then show ?thesis using cmp out by (simp add: read_slice_def Let_def)
  next
    case True
    define n where "n = (if b_size b < off + sz then b_size b - off else sz)"
    have n: "unat n = length out"
      using True sum size out
      by (auto simp: n_def word_less_nat_alt unat_sub_if_size)
    have le: "unat off + length out \<le> length content" using True out by auto
    have "take (length out) (drop (unat off) cells) = take (length out) (drop (unat off) (take (length content) cells))"
      using le by (simp add: drop_take min_def)
    also have "\<dots> = map Some out"
      unfolding cells using out by (simp add: take_map drop_map min_def)
    finally have rd: "read_cells cells (unat off) (unat n) = Inr (map Some out)"
      using le lc n by (simp add: read_cells_def)
    have "\<not> sz < n" using n out by (simp add: word_less_nat_alt)
    moreover have "n = of_nat (length out)" using n by (metis of_nat_unat ucast_id)
    ultimately show ?thesis
      using True cmp rd b(2) by (simp add: read_slice_def Let_def n_def [symmetric])
  qed
qed

text \<open>The slice a read returns, and the three cases without contents.\<close>

lemma hello_read_spec:
  assumes "fs_ok s xs" "path_map xs p = Some f" "ids_ok f" "fid f \<noteq> []"
    and "tg_file_load_contents env (g_config s) f (g_json s) (g_world s) = Inr (b, J, w)"
    and "buf_ok b" "bytes b = map Some content" "content \<noteq> []" "length content < 2 ^ 63"
    and "unat off < 2 ^ 63" "unat sz < 2 ^ 31"
  shows "hello_read env s p sz off =
    Inr (int (length (take (unat sz) (drop (unat off) content))),
         map Some (take (unat sz) (drop (unat off) content)), s\<lparr>g_json := J, g_world := w\<rparr>)"
proof -
  let ?out = "take (unat sz) (drop (unat off) content)"
  have nz: "b_size b \<noteq> 0" using length_bytes [OF assms(6)] assms(7,8) by auto
  obtain cells where cells: "b_ptr b = Some cells"
    using assms(7,8) by (cases "b_ptr b") (auto simp: bytes_def)
  have slice: "read_slice b sz off = Inr (of_nat (length ?out), map Some ?out)"
    using read_slice_spec [OF assms(6) cells assms(7,9,10)] assms(10,11) by auto
  have small: "length ?out < 2 ^ 31" using assms(11) by auto
  then have "int_of_size (of_nat (length ?out)) = int (length ?out)"
    by (simp add: int_of_size_small)
  then show ?thesis
    using assms(2-5) nz slice unfolding hello_read_def find_load [OF assms(1)]
    by (cases rule: path_map_cases [of p xs]) (auto simp: ids_ok_bounds Let_def)
qed

lemma hello_read_missing:
  "fs_ok s xs \<Longrightarrow> path_map xs p = None \<Longrightarrow> hello_read env s p sz off = Inr (- ENOENT, [], s)"
  unfolding hello_read_def
  by (cases rule: path_map_cases [of p xs]) (auto simp: find_load)

lemma hello_read_no_id:
  "fs_ok s xs \<Longrightarrow> path_map xs p = Some f \<Longrightarrow> ids_ok f \<Longrightarrow> fid f = [] \<Longrightarrow>
     hello_read env s p sz off = Inr (0, [], s)"
  unfolding hello_read_def
  by (cases rule: path_map_cases [of p xs]) (auto simp: find_load ids_ok_bounds)

section \<open>Writing\<close>

lemma store_rep:
  assumes "stor_rep st xs" "i < length xs" "file_ok f"
  shows "\<exists>st'. store_file st (int i) f = Inr st' \<and> stor_rep st' (xs[i := f])"
proof -
  obtain rest where fs: "s_files st = Some (map Some xs @ rest)"
    and r: "s_cap st = int (length xs + length rest)" "s_size st = int (length xs)"
      "\<forall>f \<in> set xs. file_ok f" "s_cap st \<le> INT_MAX"
    using assms(1) by (auto simp: stor_rep_def)
  have "\<forall>g \<in> set (xs[i := f]). file_ok g"
    using r(3) assms(3) set_update_subset_insert by fastforce
  moreover have "(map Some xs @ rest)[i := Some f] = map Some (xs[i := f]) @ rest"
    using assms(2) by (simp add: list_update_append map_update)
  ultimately show ?thesis
    using fs r assms(2) by (simp add: store_file_def stor_rep_def)
qed

lemma find_index_update:
  assumes "P y = P (xs ! i)"
  shows "find_index P (xs[i := y]) = find_index P xs"
  using assms
proof (induction xs arbitrary: i)
  case (Cons x xs)
  then show ?case by (cases i) auto
qed simp

lemma path_map_update:
  assumes "find_index (\<lambda>f. fpath f = p) xs = Some i" "fpath g = p"
  shows "path_map (xs[i := g]) p = Some g"
  using assms find_index_update [of "\<lambda>f. fpath f = p" g xs i]
  by (auto simp: path_map_def find_index_Some)

text \<open>The contents a write uploads: the data laid over the old contents.\<close>

lemma write_back_eq:
  assumes "buf_ok data" "0 < b_capacity data" "unat off + length d < 2 ^ 64"
    "e_alloc env (unat off + length d)"
  shows "\<exists>data' gap. buffer_insert (e_alloc env) data off (map Some d) (of_nat (length d)) = Inr data' \<and>
    buf_ok data' \<and> length gap = unat off - length (bytes data) \<and>
    bytes data' = overwrite (bytes data) (unat off) gap (map Some d) \<and>
    write_back env s f data (map Some d) (of_nat (length d)) off =
      cbind (tg_put_file env f (g_config s) data' (g_json s) (g_world s)) (\<lambda>(f', J, w).
        Inr (f'\<lparr>tf_file_size := b_size data'\<rparr>, s\<lparr>g_json := J, g_world := w\<rparr>))"
proof -
  have "\<exists>data' gap. buffer_insert (e_alloc env) data off (map Some d) (of_nat (length (map Some d))) = Inr data' \<and>
      buf_ok data' \<and> b_ptr data' \<noteq> None \<and> length gap = unat off - length (bytes data) \<and>
      bytes data' = overwrite (bytes data) (unat off) gap (map Some d)"
    by (rule buffer_insert_spec) (use assms in simp_all)
  then show ?thesis by (auto simp: write_back_def)
qed

lemma write_back_first:
  assumes "fs_ok s xs" "file_ok f" "fresh_ids f" "json_ok (g_json s)" "curl_works env (g_world s)"
    and d: "length d < 2 ^ 64" "e_alloc env 100" "e_alloc env (length d)"
    and send: "e_perform env \<lparr>rq_url = send_url (g_config s) f,
        rq_mime = Some (upload_part f (map Some d))\<rparr> (g_world s) = (code, [r], w')"
      "reply_fits r" "status_is r ''true''" "quoted_field r ''file_id'' i" "plain_field r ''message_id'' m"
  shows "\<exists>f' J. write_back env s f (buffer_new (e_alloc env)) (map Some d) (of_nat (length d)) 0 =
      Inr (f', s\<lparr>g_json := J, g_world := w'\<rparr>) \<and> json_ok J \<and> file_ok f' \<and> ids_ok f' \<and>
    fpath f' = fpath f \<and> fid f' = i \<and> fmid f' = m \<and> tf_type f' = tf_type f \<and>
    tf_file_size f' = of_nat (length d)"
proof -
  have new: "buf_ok (buffer_new (e_alloc env))" "bytes (buffer_new (e_alloc env)) = []"
    using buf_ok_new d(2) by auto
  have cap: "0 < b_capacity (buffer_new (e_alloc env))" by (simp add: buffer_new_def)
  from write_back_eq [OF new(1) cap, of 0 d env s f] d obtain data' where
    data': "buf_ok data'" "bytes data' = map Some d"
      "write_back env s f (buffer_new (e_alloc env)) (map Some d) (of_nat (length d)) 0 =
       cbind (tg_put_file env f (g_config s) data' (g_json s) (g_world s)) (\<lambda>(f', J, w).
        Inr (f'\<lparr>tf_file_size := b_size data'\<rparr>, s\<lparr>g_json := J, g_world := w\<rparr>))"
    by (auto simp: new(2) overwrite_def)
  have "unat (b_size data') = length d" using length_bytes [OF data'(1)] data'(2) by simp
  then have sz: "b_size data' = of_nat (length d)" by (metis of_nat_unat ucast_id)
  have cfg: "config_ok (g_config s)" using assms(1) by (simp add: fs_ok_def)
  have "ids_ok f" "fid f = []" using fresh_ids_ok [OF assms(3)] by auto
  with put_file_choice [OF assms(2,5)] data'(2)
    put_file_send_spec [OF cfg assms(2,3,4) send]
  obtain f' J where "tg_put_file env f (g_config s) data' (g_json s) (g_world s) = Inr (f', J, w')"
    "json_ok J" "file_ok f'" "ids_ok f'" "tf_path f' = tf_path f" "fid f' = i" "fmid f' = m"
    "tf_type f' = tf_type f" by auto
  with data'(3) sz show ?thesis by auto
qed

text \<open>First write to a file that was just created: the table keeps the ids the server gave.\<close>

lemma hello_write_first:
  assumes "fs_ok s xs" "path_map xs p = Some f" "tf_type f = TG_FILE" "tf_file_size f = 0" "fresh_ids f"
    "json_ok (g_json s)" "curl_works env (g_world s)"
    and d: "length d < 2 ^ 31" "e_alloc env 100" "e_alloc env (length d)"
    and send: "e_perform env \<lparr>rq_url = send_url (g_config s) f,
        rq_mime = Some (upload_part f (map Some d))\<rparr> (g_world s) = (code, [r], w')"
      "reply_fits r" "status_is r ''true''" "quoted_field r ''file_id'' i" "plain_field r ''message_id'' m"
  shows "\<exists>s' ys f'. hello_write env s p (map Some d) (of_nat (length d)) 0 = Inr (int (length d), s') \<and>
    fs_ok s' ys \<and> path_map ys p = Some f' \<and> ids_ok f' \<and> fid f' = i \<and> fmid f' = m \<and>
    tf_type f' = TG_FILE \<and> tf_file_size f' = of_nat (length d) \<and> json_ok (g_json s') \<and> g_world s' = w' \<and>
    g_config s' = g_config s"
proof (cases rule: path_map_cases [of p xs])
  case absent
  with assms(2) show ?thesis by simp
next
  case (present k)
  then have f: "xs ! k = f" using assms(2) by simp
  have ok: "file_ok f" using stor_rep_file_ok [OF fs_ok_rep [OF assms(1)] present(3)] f by simp
  have d64: "length d < 2 ^ 64" using d(1) by simp
  from write_back_first [OF assms(1) ok assms(5-7) d64 d(2,3) send] obtain f' J where
    f': "write_back env s f (buffer_new (e_alloc env)) (map Some d) (of_nat (length d)) 0 =
        Inr (f', s\<lparr>g_json := J, g_world := w'\<rparr>)" "json_ok J" "file_ok f'" "ids_ok f'" "fpath f' = fpath f"
      "fid f' = i" "fmid f' = m" "tf_type f' = tf_type f" "tf_file_size f' = of_nat (length d)" by blast
  from store_rep [OF fs_ok_rep [OF assms(1)] present(3) f'(3)] obtain st' where
    st': "store_file (g_storage s) (int k) f' = Inr st'" "stor_rep st' (xs[k := f'])" by blast
  let ?s = "s\<lparr>g_json := J, g_world := w', g_storage := st'\<rparr>"
  have "int_of_size (of_nat (length d)) = int (length d)"
    using d(1) by (simp add: int_of_size_small)
  then have "hello_write env s p (map Some d) (of_nat (length d)) 0 = Inr (int (length d), ?s)"
    using f f'(1) st'(1) assms(3,4) present(1)
    unfolding hello_write_def find_load [OF assms(1)] by simp
  moreover have "fs_ok ?s (xs[k := f'])" using st'(2) assms(1) f'(2) by (simp add: fs_ok_def json_ok_def)
  moreover have "path_map (xs[k := f']) p = Some f'"
    using path_map_update [OF present(1)] f f'(5) present(4) by simp
  ultimately show ?thesis using f' assms(3) by auto
qed

text \<open>Write to a file with contents: they are fetched, the data is laid over them, and the result
  replaces the document of the file's message.\<close>

lemma write_back_update:
  assumes "fs_ok s xs" "file_ok f" "ids_ok f" "fid f \<noteq> []" "json_ok (g_json s)" "curl_works env (g_world s)"
    and data: "buf_ok data" "bytes data = map Some old" "old \<noteq> []" "unat off \<le> length old"
    and mem: "unat off + length d < 2 ^ 64" "e_alloc env (unat off + length d)"
    and new: "new = take (unat off) old @ d @ drop (unat off + length d) old"
    and edit: "e_perform env \<lparr>rq_url = edit_url (g_config s) f,
        rq_mime = Some (upload_part f (map Some new))\<rparr> (g_world s) = (CURLE_OK, [r], w')"
      "reply_fits r" "status_is r ''true''" "quoted_field r ''file_id'' i"
  shows "\<exists>f' J. write_back env s f data (map Some d) (of_nat (length d)) off =
      Inr (f', s\<lparr>g_json := J, g_world := w'\<rparr>) \<and> json_ok J \<and> file_ok f' \<and> ids_ok f' \<and>
    fpath f' = fpath f \<and> fid f' = i \<and> fmid f' = fmid f \<and> tf_type f' = tf_type f \<and>
    tf_file_size f' = of_nat (length new)"
proof -
  have "unat (b_size data) = length old" using length_bytes [OF data(1)] data(2) by simp
  then have cap: "0 < b_capacity data"
    using data(1,3) by (auto simp: buf_ok_def word_gt_0 split: option.splits)
  from write_back_eq [OF data(1) cap mem, of s f] data(2,4) obtain data' where
    data': "buf_ok data'" "bytes data' = map Some new"
      "write_back env s f data (map Some d) (of_nat (length d)) off =
       cbind (tg_put_file env f (g_config s) data' (g_json s) (g_world s)) (\<lambda>(f', J, w).
        Inr (f'\<lparr>tf_file_size := b_size data'\<rparr>, s\<lparr>g_json := J, g_world := w\<rparr>))"
    by (auto simp: new overwrite_def take_map drop_map)
  have "unat (b_size data') = length new" using length_bytes [OF data'(1)] data'(2) by simp
  then have sz: "b_size data' = of_nat (length new)" by (metis of_nat_unat ucast_id)
  have cfg: "config_ok (g_config s)" using assms(1) by (simp add: fs_ok_def)
  from put_file_choice [OF assms(2,6,3)] assms(4) data'(2)
    put_file_edit_spec [OF cfg assms(2,5,3) edit]
  obtain f' J where "tg_put_file env f (g_config s) data' (g_json s) (g_world s) = Inr (f', J, w')"
    "json_ok J" "file_ok f'" "ids_ok f'" "tf_path f' = tf_path f" "fid f' = i" "fmid f' = fmid f"
    "tf_type f' = tf_type f" by auto
  with data'(3) sz show ?thesis by auto
qed

lemma hello_write_update:
  assumes "fs_ok s xs" "path_map xs p = Some f" "tf_type f = TG_FILE" "0 < tf_file_size f" "ids_ok f"
    "fid f \<noteq> []"
    and load: "tg_file_load_contents env (g_config s) f (g_json s) (g_world s) = Inr (data, J1, w1)" "json_ok J1"
    and data: "buf_ok data" "bytes data = map Some old" "old \<noteq> []" "unat off \<le> length old"
    and mem: "length d < 2 ^ 31" "unat off + length d < 2 ^ 64" "e_alloc env (unat off + length d)"
    and curl: "curl_works env w1"
    and new: "new = take (unat off) old @ d @ drop (unat off + length d) old"
    and edit: "e_perform env \<lparr>rq_url = edit_url (g_config s) f,
        rq_mime = Some (upload_part f (map Some new))\<rparr> w1 = (CURLE_OK, [r], w')"
      "reply_fits r" "status_is r ''true''" "quoted_field r ''file_id'' i"
  shows "\<exists>s' ys f'. hello_write env s p (map Some d) (of_nat (length d)) off = Inr (int (length d), s') \<and>
    fs_ok s' ys \<and> path_map ys p = Some f' \<and> ids_ok f' \<and> fid f' = i \<and> fmid f' = fmid f \<and>
    tf_file_size f' = of_nat (length new) \<and> g_world s' = w'"
proof (cases rule: path_map_cases [of p xs])
  case absent
  with assms(2) show ?thesis by simp
next
  case (present k)
  then have f: "xs ! k = f" using assms(2) by simp
  have ok: "file_ok f" using stor_rep_file_ok [OF fs_ok_rep [OF assms(1)] present(3)] f by simp
  let ?s1 = "s\<lparr>g_json := J1, g_world := w1\<rparr>"
  have ok1: "fs_ok ?s1 xs" using assms(1) load(2) by (simp add: fs_ok_def json_ok_def)
  have c1: "json_ok (g_json ?s1)" "curl_works env (g_world ?s1)" using load(2) curl by simp_all
  have edit1: "e_perform env \<lparr>rq_url = edit_url (g_config ?s1) f,
        rq_mime = Some (upload_part f (map Some new))\<rparr> (g_world ?s1) = (CURLE_OK, [r], w')"
    using edit(1) by simp
  from write_back_update [OF ok1 ok assms(5,6) c1 data mem(2,3) new edit1 edit(2-4)] obtain f' J where
    f': "write_back env ?s1 f data (map Some d) (of_nat (length d)) off =
        Inr (f', ?s1\<lparr>g_json := J, g_world := w'\<rparr>)" "json_ok J" "file_ok f'" "ids_ok f'" "fpath f' = fpath f"
      "fid f' = i" "fmid f' = fmid f" "tf_file_size f' = of_nat (length new)" by blast
  from store_rep [OF fs_ok_rep [OF assms(1)] present(3) f'(3)] obtain st' where
    st': "store_file (g_storage s) (int k) f' = Inr st'" "stor_rep st' (xs[k := f'])" by blast
  let ?s = "s\<lparr>g_json := J, g_world := w', g_storage := st'\<rparr>"
  have "int_of_size (of_nat (length d)) = int (length d)"
    using mem(1) by (simp add: int_of_size_small)
  then have "hello_write env s p (map Some d) (of_nat (length d)) off = Inr (int (length d), ?s)"
    using f f'(1) st'(1) assms(3,4) present(1) load(1)
    unfolding hello_write_def find_load [OF assms(1)] by simp
  moreover have "fs_ok ?s (xs[k := f'])" using st'(2) assms(1) f'(2) by (simp add: fs_ok_def json_ok_def)
  moreover have "path_map (xs[k := f']) p = Some f'"
    using path_map_update [OF present(1)] f f'(5) present(4) by simp
  ultimately show ?thesis using f' by auto
qed

text \<open>Write to a path the table does not know: the record in the table never learns its ids.\<close>

lemma hello_write_unknown:
  assumes "fs_ok s xs" "path_map xs p = None" "abs_path p" "can_grow (e_alloc env) (g_storage s)"
    and run: "hello_write env s p buf sz off = Inr (n, s')"
  shows "\<exists>st' f. stor_rep st' (xs @ [f]) \<and> g_storage s' = st' \<and> fpath f = p \<and> fid f = [] \<and> ids_ok f \<and>
    tf_file_size f = off + sz \<and> path_map (xs @ [f]) p = Some f"
proof -
  from push_new_file [OF assms(1,3,4), of "off + sz"] obtain f st' where
    f: "tg_file_new_file p (off + sz) = Inr f" "tg_storage_push (e_alloc env) (g_storage s) f = Inr st'"
      "fs_ok (s\<lparr>g_storage := st'\<rparr>) (xs @ [f])" "fpath f = p" "fresh_ids f" "tf_file_size f = off + sz"
    by blast
  have none: "find_index (\<lambda>f. fpath f = p) xs = None" using assms(2) by (simp add: path_map_def)
  have "g_storage s' = st'"
    using run none f(1,2) unfolding hello_write_def find_load [OF assms(1)]
    by (auto simp: write_back_def elim!: cbind_InrE split: prod.splits)
  moreover have "path_map (xs @ [f]) p = Some f"
    using none f(4) by (simp add: path_map_def find_index_append nth_append)
  ultimately show ?thesis
    using f fresh_ids_ok [OF f(5)] by (auto simp: fs_ok_def)
qed

section \<open>Upload with a dead connection\<close>

text \<open>
  When the transfer of a first upload fails and delivers nothing, the response buffer still
  holds the reply to an earlier request. If that reply was a success, the new file takes
  over its ids.
\<close>

lemma put_file_send_stale:
  assumes "config_ok c" "file_ok f" "fresh_ids f"
    and "e_perform env \<lparr>rq_url = send_url c f, rq_mime = Some part\<rparr> w = (code, [], w')"
    and "cstr J = Inr r" "status_is r ''true''"
    and "quoted_field r ''file_id'' i" "plain_field r ''message_id'' m"
  shows "\<exists>f'. tg_put_file_send env f c part J w = Inr (f', J, w') \<and> fid f' = i \<and> fmid f' = m"
proof -
  have J: "cstr J = Inr (r @ [])" using assms(5) by simp
  from extract_directory_ok [OF assms(2), of "replicate 100 None"] obtain d where
    d: "tg_file_extract_directory (replicate 100 None) f = Inr d" "cstr d = Inr (top_dir (fpath f))"
    by auto
  from parse_quoted_zeros [OF J assms(7)] obtain a where
    a: "parse_response_field_from_json (zeros 100) J ''file_id'' = Inr (a, 0)" "text_of a = i" by blast
  from parse_plain_zeros [OF J assms(8)] obtain b where
    b: "parse_response_field_from_json (zeros 100) J ''message_id'' = Inr (b, 0)" "text_of b = m" by blast
  show ?thesis
    using assms(3,4) url_fits(1) [OF assms(1,2)] check_ok_reply [OF J assms(6)] a b
    by (simp add: tg_put_file_send_def d config_ok_bounds [OF assms(1)] send_url_def
        fresh_ids_def perform_json_def)
qed

text \<open>And when no request was answered before, the empty buffer is searched for a field.\<close>

lemma put_file_send_dead:
  assumes "config_ok c" "file_ok f"
    and "e_perform env \<lparr>rq_url = send_url c f, rq_mime = Some part\<rparr> w = (code, [], w')"
  shows "tg_put_file_send env f c part (zeros JSON_RESPONSE_BUF_SIZE) w = Inl NullDeref"
proof -
  from extract_directory_ok [OF assms(2), of "replicate 100 None"] obtain d where
    d: "tg_file_extract_directory (replicate 100 None) f = Inr d" "cstr d = Inr (top_dir (fpath f))"
    by auto
  have "check_ok_status_in_json (zeros JSON_RESPONSE_BUF_SIZE) = Inl NullDeref"
    by (simp add: check_ok_status_in_json_def parse_missing_field size_consts)
  then show ?thesis
    using assms(3) url_fits(1) [OF assms(1,2)]
    by (simp add: tg_put_file_send_def d config_ok_bounds [OF assms(1)] send_url_def
        perform_json_def)
qed

end
