(* ===== verification/Fuse_Ops_Reach.thy ===== *)
theory Fuse_Ops_Reach
  imports Fuse_Ops_Correct
begin

text \<open>
  The program as a state machine: \<open>fs_step\<close> is one callback issued by the kernel (which calls
  \<^verbatim>\<open>create\<close> and \<^verbatim>\<open>mkdir\<close> only for names it found absent) that returns, against any server
  whatsoever. Every state reachable from start-up is well-formed with unique paths, and from
  it the queries cannot crash.
\<close>

section \<open>What a callback keeps, whatever the server sends\<close>

lemma strncpy_length: "strncpy dst s n = Inr d \<Longrightarrow> length d = length dst"
  unfolding strncpy_def by (rule length_memcpy_cells)

lemma parse_length:
  "parse_response_field_from_json dst src field = Inr (d, r) \<Longrightarrow> length d = length dst"
  by (auto simp: parse_response_field_from_json_def Let_def dest!: strncpy_length
      elim!: cbind_InrE split: option.splits if_splits)

lemma put_json_chunk_length: "put_json_chunk J c = Inr J' \<Longrightarrow> length J' = length J"
  by (auto simp: put_json_chunk_def curl_response_json_writer_def dest!: length_memcpy_cells
      elim!: cbind_InrE)

lemma deliver_json_length: "deliver put_json_chunk J cs = Inr J' \<Longrightarrow> length J' = length J"
  by (induction cs arbitrary: J) (auto dest!: put_json_chunk_length elim!: cbind_InrE)

lemma perform_json_length: "perform_json env rq J w = Inr (code, J', w') \<Longrightarrow> length J' = length J"
  by (auto simp: perform_json_def dest!: deliver_json_length elim!: cbind_InrE split: prod.splits)

text \<open>An upload changes nothing of a record but the contents of its id arrays.\<close>

definition ids_only :: "tg_file \<Rightarrow> tg_file \<Rightarrow> bool" where
  "ids_only f f' \<longleftrightarrow> tf_path f' = tf_path f \<and> tf_type f' = tf_type f \<and> tf_file_size f' = tf_file_size f \<and>
     length (tf_file_id f') = length (tf_file_id f) \<and> length (tf_message_id f') = length (tf_message_id f)"

lemma put_file_send_keeps:
  "tg_put_file_send env f c part J w = Inr (f', J', w') \<Longrightarrow> ids_only f f' \<and> length J' = length J"
  by (auto simp: tg_put_file_send_def ids_only_def dest!: parse_length perform_json_length
      elim!: cbind_InrE split: if_splits prod.splits)

lemma put_file_edit_keeps:
  assumes "length (tf_file_id f) = FILE_ID_SIZE" "tg_put_file_edit env f c part J w = Inr (f', J', w')"
  shows "ids_only f f' \<and> length J' = length J"
  using assms
  by (auto simp: tg_put_file_edit_def ids_only_def dest!: parse_length perform_json_length
      elim!: cbind_InrE split: if_splits prod.splits)

lemma put_file_keeps:
  assumes "file_ok f" "tg_put_file env f c data J w = Inr (f', J', w')"
  shows "file_ok f' \<and> fpath f' = fpath f \<and> length J' = length J"
proof -
  from assms have "ids_only f f' \<and> length J' = length J"
    by (auto simp: tg_put_file_def Let_def file_ok_def dest!: put_file_send_keeps put_file_edit_keeps
        elim!: cbind_InrE split: if_splits)
  with assms(1) show ?thesis by (auto simp: ids_only_def file_ok_def)
qed

lemma load_contents_keeps:
  "tg_file_load_contents env c f J w = Inr (b, J', w') \<Longrightarrow> length J' = JSON_RESPONSE_BUF_SIZE"
  by (auto simp: tg_file_load_contents_def Let_def dest!: perform_json_length
      elim!: cbind_InrE split: if_splits prod.splits)

lemma remote_delete_keeps:
  "remote_delete env s f = Inr s' \<Longrightarrow> length (g_json s') = length (g_json s) \<and>
     g_storage s' = g_storage s \<and> g_config s' = g_config s"
  by (auto simp: remote_delete_def tg_remove_message_with_file_def dest!: perform_json_length
      elim!: cbind_InrE split: if_splits prod.splits)

lemma push_Inr_rep:
  assumes "stor_rep st xs" "file_ok f" "tg_storage_push alloc st f = Inr st'"
  shows "stor_rep st' (xs @ [f])"
proof (cases "s_cap st \<le> s_size st")
  case False
  then obtain r rest where "s_files st = Some (map Some xs @ r # rest)"
    "s_cap st = int (length xs + length (r # rest))" "s_size st = int (length xs)" "s_cap st \<le> INT_MAX"
    "\<forall>f \<in> set xs. file_ok f"
    using assms(1) by (auto simp: stor_rep_def neq_Nil_conv)
  then show ?thesis
    using assms(2,3)
    by (auto simp: tg_storage_push_def stor_rep_def store_file_def INT_MIN_def list_update_append)
next
  case True
  then have "can_grow alloc st"
    using assms(3)
    by (auto simp: tg_storage_push_def can_grow_def c_int_def store_file_def realloc_cells_def
        split: if_splits option.splits elim!: cbind_InrE)
  with push_rep [OF assms(1,2)] assms(3) show ?thesis by force
qed

section \<open>The invariant and the callbacks that keep it\<close>

definition fs_inv :: "'w fs \<Rightarrow> bool" where
  "fs_inv s \<longleftrightarrow> (\<exists>xs. fs_ok s xs \<and> uniq xs)"

definition absent :: "'w fs \<Rightarrow> string \<Rightarrow> bool" where
  "absent s p \<longleftrightarrow> tg_storage_find_by_path (g_storage s) p = Inr None"

definition vfs_path :: "string \<Rightarrow> bool" where
  "vfs_path p \<longleftrightarrow> c_string p \<and> p \<noteq> [] \<and> hd p = slash"

lemma absent_iff: "fs_ok s xs \<Longrightarrow> absent s p \<longleftrightarrow> path_map xs p = None"
  by (simp add: absent_def find_rep [OF fs_ok_rep] path_map_def)

lemma vfs_abs_path:
  assumes "vfs_path p" "length p < FILE_PATH_SIZE"
  shows "abs_path p"
  using assms by (cases p) (auto simp: vfs_path_def abs_path_def)

text \<open>A record made for an absent path joins the table without a clash.\<close>

lemma fs_inv_push:
  assumes "fs_ok s xs" "uniq xs" "path_map xs (fpath f) = None" "file_ok f"
    "tg_storage_push alloc (g_storage s) f = Inr st'"
  shows "fs_ok (s\<lparr>g_storage := st'\<rparr>) (xs @ [f]) \<and> uniq (xs @ [f])"
  using push_Inr_rep [OF fs_ok_rep [OF assms(1)] assms(4,5)] path_map_add [OF assms(2,3)] assms(1)
  by (simp add: fs_ok_def)

lemma new_record_ok:
  assumes "vfs_path p"
  shows "tg_file_new_file p n = Inr f \<Longrightarrow> file_ok f \<and> fpath f = p"
    "tg_file_new_dir p = Inr f \<Longrightarrow> file_ok f \<and> fpath f = p"
  using assms vfs_abs_path [OF assms] tg_file_new_file_ok [of p n] tg_file_new_dir_ok [of p]
    new_file_long_path(1) [of p n] new_file_long_path(2) [of p]
  by (metis sum.inject(2) linorder_not_le sum.distinct(1))+

lemma fs_inv_create:
  assumes "fs_inv s" "vfs_path p" "absent s p" "hello_create env s p = Inr (r, s')"
  shows "fs_inv s'"
proof -
  from assms(1) obtain xs where xs: "fs_ok s xs" "uniq xs" by (auto simp: fs_inv_def)
  then have none: "path_map xs p = None" using assms(3) by (simp add: absent_iff)
  from assms(4) obtain f st' where f: "tg_file_new_file p 0 = Inr f"
    "tg_storage_push (e_alloc env) (g_storage s) f = Inr st'" "s' = s\<lparr>g_storage := st'\<rparr>"
    using assms(3) by (auto simp: hello_create_def absent_def elim!: cbind_InrE)
  with fs_inv_push [OF xs, of f "e_alloc env" st'] new_record_ok(1) [OF assms(2) f(1)] none
  show ?thesis by (auto simp: fs_inv_def)
qed

lemma fs_inv_mkdir:
  assumes "fs_inv s" "vfs_path p" "absent s p" "hello_mkdir env s p = Inr (r, s')"
  shows "fs_inv s'"
proof -
  from assms(1) obtain xs where xs: "fs_ok s xs" "uniq xs" by (auto simp: fs_inv_def)
  then have none: "path_map xs p = None" using assms(3) by (simp add: absent_iff)
  from assms(4) obtain f st' where f: "tg_file_new_dir p = Inr f"
    "tg_storage_push (e_alloc env) (g_storage s) f = Inr st'" "s' = s\<lparr>g_storage := st'\<rparr>"
    by (auto simp: hello_mkdir_def elim!: cbind_InrE)
  with fs_inv_push [OF xs, of f "e_alloc env" st'] new_record_ok(2) [OF assms(2) f(1)] none
  show ?thesis by (auto simp: fs_inv_def)
qed

lemma fs_inv_remove:
  assumes "fs_ok s xs" "uniq xs" "tg_storage_remove_by_path (g_storage s) p = Inr (f, st')"
  shows "fs_inv (s\<lparr>g_storage := st'\<rparr>)"
  using remove_fs [OF assms(1), of p] path_map_removed(1) [OF assms(2), of p] assms(3)
  by (auto simp: fs_inv_def)

lemma fs_inv_frame:
  assumes "fs_inv s" "g_storage s' = g_storage s" "g_config s' = g_config s"
    "length (g_json s') = length (g_json s)"
  shows "fs_inv s'"
  using assms by (auto simp: fs_inv_def fs_ok_def)

lemma fs_inv_unlink:
  assumes "fs_inv s" "hello_unlink env s p = Inr (r, s')"
  shows "fs_inv s'"
proof -
  from assms(1) obtain xs where xs: "fs_ok s xs" "uniq xs" by (auto simp: fs_inv_def)
  from hello_unlink_spec [OF xs(1), of p env] obtain st' where
    st': "fs_ok (s\<lparr>g_storage := st'\<rparr>) (snd (removed xs p))"
      "hello_unlink env s p = (case path_map xs p of None \<Rightarrow> Inr (- ENOENT, s\<lparr>g_storage := st'\<rparr>)
       | Some f \<Rightarrow> cbind (remote_delete env (s\<lparr>g_storage := st'\<rparr>) f) (\<lambda>s2. Inr (0, s2)))" by blast
  have inv: "fs_inv (s\<lparr>g_storage := st'\<rparr>)"
    using st'(1) path_map_removed(1) [OF xs(2)] by (auto simp: fs_inv_def)
  show ?thesis
  proof (cases "path_map xs p")
    case None
    with assms(2) st'(2) inv show ?thesis by simp
  next
    case (Some f)
    with assms(2) st'(2) have "remote_delete env (s\<lparr>g_storage := st'\<rparr>) f = Inr s'" by auto
    from remote_delete_keeps [OF this] show ?thesis by (intro fs_inv_frame [OF inv]) auto
  qed
qed

lemma fs_inv_rmdir_body:
  assumes "fs_inv s" "rmdir_body env s k = Inr s'"
  shows "fs_inv s'"
proof -
  from assms(2) obtain f s1 p g st' where
    del: "(if 0 < tf_file_size f then remote_delete env s f else Inr s) = Inr s1"
    and rem: "tg_storage_remove_by_path (g_storage s1) p = Inr (g, st')" "s' = s1\<lparr>g_storage := st'\<rparr>"
    unfolding rmdir_body_def by (elim cbind_InrE) (auto elim!: cbind_InrE)
  have "fs_inv s1"
    using del assms(1)
    by (auto split: if_splits dest!: remote_delete_keeps intro: fs_inv_frame)
  with rem show ?thesis by (metis fs_inv_def fs_inv_remove)
qed

lemma fs_inv_rmdir_loop:
  "rmdir_loop env p s i = Inr s' \<Longrightarrow> fs_inv s \<Longrightarrow> fs_inv s'"
proof (induction env p s i rule: rmdir_loop.induct)
  case (1 env p s i)
  from "1.prems"(1) obtain r where r: "tg_storage_find_files_by_dir (g_storage s) p i = Inr r"
    by (subst (asm) rmdir_loop.simps) auto
  show ?case
  proof (cases r)
    case None
    with r "1.prems" show ?thesis by (simp add: rmdir_loop.simps [of env p s i])
  next
    case (Some k)
    with r "1.prems"(1) obtain s1 where s1: "rmdir_body env s k = Inr s1"
      "rmdir_loop env p s1 (Suc k) = Inr s'"
      by (auto simp: rmdir_loop.simps [of env p s i] elim!: cbind_InrE)
    from "1.IH" [OF r Some s1] fs_inv_rmdir_body [OF "1.prems"(2) s1(1)] show ?thesis by blast
  qed
qed

lemma fs_inv_rmdir:
  assumes "fs_inv s" "hello_rmdir env s p = Inr (r, s')"
  shows "fs_inv s'"
proof -
  from assms(1) obtain xs where xs: "fs_ok s xs" "uniq xs" by (auto simp: fs_inv_def)
  from assms(2) consider "s' = s" | s1 f st' where "rmdir_loop env p s 0 = Inr s1"
      "tg_storage_remove_by_path (g_storage s1) p = Inr (f, st')" "s' = s1\<lparr>g_storage := st'\<rparr>"
    unfolding hello_rmdir_def find_load [OF xs(1)]
    by (auto split: option.splits if_splits elim!: cbind_InrE)
  then show ?thesis
  proof cases
    case 1
    with assms(1) show ?thesis by simp
  next
    case 2
    with fs_inv_rmdir_loop [OF 2(1) assms(1)] show ?thesis by (metis fs_inv_def fs_inv_remove)
  qed
qed

lemma fs_inv_read:
  assumes "fs_inv s" "hello_read env s p sz off = Inr (r, out, s')"
  shows "fs_inv s'"
proof -
  from assms(1) obtain xs where xs: "fs_ok s xs" "uniq xs" by (auto simp: fs_inv_def)
  have "g_storage s' = g_storage s \<and> g_config s' = g_config s \<and> length (g_json s') = length (g_json s)"
    using assms(2) xs(1) unfolding hello_read_def find_load [OF xs(1)]
    by (auto simp: Let_def fs_ok_def dest!: load_contents_keeps
        split: option.splits if_splits prod.splits elim!: cbind_InrE)
  then show ?thesis using fs_inv_frame [OF assms(1)] by blast
qed

lemma write_back_keeps:
  assumes "file_ok f" "write_back env s f data buf sz off = Inr (f', s')"
  shows "file_ok f' \<and> fpath f' = fpath f \<and> g_storage s' = g_storage s \<and> g_config s' = g_config s \<and>
    length (g_json s') = length (g_json s)"
  using assms(2)
  by (auto simp: write_back_def dest!: put_file_keeps [OF assms(1)] elim!: cbind_InrE)

lemma uniq_update:
  assumes "uniq xs" "i < length xs" "fpath g = fpath (xs ! i)"
  shows "uniq (xs[i := g])"
  using assms by (simp add: uniq_def map_update) (metis list_update_id nth_map)

lemma fs_inv_write:
  assumes "fs_inv s" "vfs_path p" "hello_write env s p buf sz off = Inr (r, s')"
  shows "fs_inv s'"
proof -
  from assms(1) obtain xs where xs: "fs_ok s xs" "uniq xs" by (auto simp: fs_inv_def)
  note run = assms(3) [unfolded hello_write_def find_load [OF xs(1)]]
  show ?thesis
  proof (cases rule: path_map_cases [of p xs])
    case absent
    from run absent(1) obtain f st' f' where
      f: "tg_file_new_file p (off + sz) = Inr f" "tg_storage_push (e_alloc env) (g_storage s) f = Inr st'"
        "write_back env (s\<lparr>g_storage := st'\<rparr>) f (buffer_new (e_alloc env)) buf sz off = Inr (f', s')"
      by (auto elim!: cbind_InrE)
    note ok = new_record_ok(1) [OF assms(2) f(1)]
    have "fs_inv (s\<lparr>g_storage := st'\<rparr>)"
      using fs_inv_push [OF xs _ _ f(2)] ok absent(2) by (auto simp: fs_inv_def)
    with write_back_keeps [OF _ f(3)] ok show ?thesis by (auto intro: fs_inv_frame)
  next
    case (present i)
    let ?f = "xs ! i"
    have ok: "file_ok ?f" using stor_rep_file_ok [OF fs_ok_rep [OF xs(1)] present(3)] .
    show ?thesis
    proof (cases "tf_type ?f = TG_DIR")
      case True
      with run present(1) assms(1) show ?thesis by simp
    next
      case False
      with run present(1) obtain data s1 f' s2 st' where
        ld: "(if 0 < tf_file_size ?f
              then cbind (tg_file_load_contents env (g_config s) ?f (g_json s) (g_world s))
                     (\<lambda>(data, J, w). Inr (data, s\<lparr>g_json := J, g_world := w\<rparr>))
              else Inr (buffer_new (e_alloc env), s)) = Inr (data, s1)"
        and wb: "write_back env s1 ?f data buf sz off = Inr (f', s2)"
        and st: "store_file (g_storage s2) (int i) f' = Inr st'" "s' = s2\<lparr>g_storage := st'\<rparr>"
        by (auto elim!: cbind_InrE)
      from ld xs(1) have s1: "fs_ok s1 xs"
        by (auto simp: fs_ok_def dest!: load_contents_keeps split: if_splits elim!: cbind_InrE)
      note keep = write_back_keeps [OF ok wb]
      with s1 have s2: "fs_ok s2 xs" by (simp add: fs_ok_def)
      have "stor_rep st' (xs[i := f'])"
        using store_rep [OF fs_ok_rep [OF s2] present(3), of f'] keep st(1) by auto
      with s2 st(2) uniq_update [OF xs(2) present(3)] keep show ?thesis
        by (auto simp: fs_inv_def fs_ok_def)
    qed
  qed
qed

section \<open>Reachable states\<close>

inductive fs_step :: "'w env \<Rightarrow> 'w fs \<Rightarrow> 'w fs \<Rightarrow> bool" for env :: "'w env" where
  create: "vfs_path p \<Longrightarrow> absent s p \<Longrightarrow> hello_create env s p = Inr (r, s') \<Longrightarrow> fs_step env s s'"
| mkdir: "vfs_path p \<Longrightarrow> absent s p \<Longrightarrow> hello_mkdir env s p = Inr (r, s') \<Longrightarrow> fs_step env s s'"
| unlink: "hello_unlink env s p = Inr (r, s') \<Longrightarrow> fs_step env s s'"
| rmdir: "hello_rmdir env s p = Inr (r, s') \<Longrightarrow> fs_step env s s'"
| read: "hello_read env s p sz off = Inr (r, out, s') \<Longrightarrow> fs_step env s s'"
| "write": "vfs_path p \<Longrightarrow> hello_write env s p buf sz off = Inr (r, s') \<Longrightarrow> fs_step env s s'"

inductive fs_reach :: "'w env \<Rightarrow> 'w fs \<Rightarrow> bool" for env :: "'w env" where
  start: "c_string chat_id \<Longrightarrow> c_string token \<Longrightarrow> main_init env chat_id token w = Inr s \<Longrightarrow> fs_reach env s"
| step: "fs_reach env s \<Longrightarrow> fs_step env s s' \<Longrightarrow> fs_reach env s'"

lemma fs_step_inv: "fs_step env s s' \<Longrightarrow> fs_inv s \<Longrightarrow> fs_inv s'"
  by (induction rule: fs_step.induct)
    (blast intro: fs_inv_create fs_inv_mkdir fs_inv_unlink fs_inv_rmdir fs_inv_read fs_inv_write)+

lemma config_new_Inr:
  assumes "tg_config_new chat_id token = Inr c" "c_string chat_id" "c_string token"
  shows "config_ok c"
  using assms by (auto simp: tg_config_new_def config_ok_def elim!: cbind_InrE
      intro!: arr_okI dest: cstr_strcpy length_strcpy)

lemma fs_inv_start:
  assumes "c_string chat_id" "c_string token" "main_init env chat_id token w = Inr s"
  shows "fs_inv s"
proof -
  from assms(3) obtain c root st where m: "tg_config_new chat_id token = Inr c"
    "tg_file_new_dir [slash] = Inr root"
    "tg_storage_push (e_alloc env) (tg_storage_new (e_alloc env)) root = Inr st"
    "s = \<lparr>g_storage = st, g_config = c, g_json = zeros JSON_RESPONSE_BUF_SIZE, g_world = w\<rparr>"
    by (auto simp: main_init_def elim!: cbind_InrE)
  have "vfs_path [slash]" by (simp add: vfs_path_def c_string_def)
  note root = new_record_ok(2) [OF this m(2)]
  have "e_alloc env (sizeof_tg_file * 2)"
    using m(3) by (auto simp: tg_storage_push_def tg_storage_new_def realloc_cells_def store_file_def
        split: if_splits)
  then have "stor_rep st [root]"
    using push_Inr_rep [OF stor_rep_new _ m(3)] root by simp
  with m(4) config_new_Inr [OF m(1) assms(1,2)] show ?thesis
    by (auto simp: fs_inv_def fs_ok_def uniq_def)
qed

lemma fs_reach_inv: "fs_reach env s \<Longrightarrow> fs_inv s"
proof (induction rule: fs_reach.induct)
  case (start chat_id token w s)
  then show ?case by (rule fs_inv_start)
next
  case (step s s')
  then show ?case by (blast intro: fs_step_inv)
qed

end
