(* ===== verification/Fuse_Ops_Props.thy ===== *)
theory Fuse_Ops_Props
  imports Fuse_Ops_Reach
begin

text \<open>
  The properties of the file-system callbacks, each over the whole program state, and
  concrete runs of them. \<open>scripted\<close> is a server that plays back a list of result codes and
  replies; \<open>sample_fs xs script\<close> is a state holding the records \<open>xs\<close> in front of it.
\<close>

section \<open>A scripted server\<close>

definition scripted :: "(CURLcode \<times> string list) list env" where
  "scripted = \<lparr>e_alloc = (\<lambda>_. True), e_init = (\<lambda>_. True), e_mime_name = (\<lambda>_. CURLE_OK),
     e_mime_data = (\<lambda>_. CURLE_OK), e_mime_filename = (\<lambda>_. CURLE_OK),
     e_perform = (\<lambda>rq w. case w of [] \<Rightarrow> (7, [], []) | (c, cs) # w' \<Rightarrow> (c, cs, w'))\<rparr>"

definition sample_fs :: "tg_file list \<Rightarrow> 'w \<Rightarrow> 'w fs" where
  "sample_fs xs w = \<lparr>g_storage = table_of xs, g_config = \<lparr>cfg_chat_id = pad ''1'', cfg_token = pad ''t''\<rparr>,
     g_json = zeros JSON_RESPONSE_BUF_SIZE, g_world = w\<rparr>"

definition quoted :: "string \<Rightarrow> string" where
  "quoted s = [dquote] @ s @ [dquote]"

definition ok_reply :: "string \<Rightarrow> string" where
  "ok_reply rest = ''{'' @ quoted ''ok'' @ '':true,'' @ rest @ '',x}''"

lemma scripted_simps [simp]:
  "e_alloc scripted n" "e_init scripted w" "curl_works scripted w"
  "e_perform scripted rq ((c, cs) # w) = (c, cs, w)" "e_perform scripted rq [] = (7, [], [])"
  by (simp_all add: scripted_def curl_works_def)

lemma sample_fs_ok:
  assumes "\<forall>f \<in> set xs. file_ok f" "length xs \<le> 1000"
  shows "fs_ok (sample_fs xs w) xs" "can_grow (\<lambda>_. True) (g_storage (sample_fs xs w))"
proof -
  have "arr_ok 100 (pad ''1'')" "arr_ok 100 (pad ''t'')"
    by (rule pad_ok; simp add: c_string_def)+
  then show "fs_ok (sample_fs xs w) xs"
    using table_of_rep [OF assms(1)] assms(2)
    by (simp add: fs_ok_def sample_fs_def config_ok_def size_consts INT_MAX_def)
  show "can_grow (\<lambda>_. True) (g_storage (sample_fs xs w))"
    using assms(2) by (simp add: sample_fs_def can_grow_def table_of_def INT_MAX_def)
qed

lemma sample_fs_simps [simp]:
  "g_json (sample_fs xs w) = zeros JSON_RESPONSE_BUF_SIZE" "g_world (sample_fs xs w) = w"
  by (simp_all add: sample_fs_def)

text \<open>The records of the runs: the root, a directory and three files.\<close>

abbreviation root :: tg_file where "root \<equiv> record_for ''/'' [] [] 0 TG_DIR"
abbreviation dir_d :: tg_file where "dir_d \<equiv> record_for ''/d'' [] [] 0 TG_DIR"
abbreviation file_x :: tg_file where "file_x \<equiv> record_for ''/d/x'' [] [] 0 TG_FILE"
abbreviation file_y :: tg_file where "file_y \<equiv> record_for ''/d/y'' [] [] 0 TG_FILE"
abbreviation file_n :: tg_file where "file_n \<equiv> record_for ''/n'' ''AbC'' ''17'' 5 TG_FILE"

lemma sample_paths: "abs_path ''/''" "abs_path ''/d''" "abs_path ''/d/x''" "abs_path ''/d/y''" "abs_path ''/n''"
  by (simp_all add: abs_path_def c_string_def size_consts)

lemma c_string_samples [simp]: "c_string []" "c_string ''AbC''" "c_string ''17''"
  by (simp_all add: c_string_def)

lemma sample_records [simp]:
  "file_ok root" "file_ok dir_d" "file_ok file_x" "file_ok file_y" "file_ok file_n"
  "ids_ok root" "ids_ok dir_d" "ids_ok file_x" "ids_ok file_y" "ids_ok file_n"
  "fpath root = ''/''" "fpath dir_d = ''/d''" "fpath file_x = ''/d/x''" "fpath file_y = ''/d/y''"
  "fpath file_n = ''/n''" "fid file_n = ''AbC''" "fid file_x = []" "fmid file_n = ''17''"
  using record_for_ok(1-5) [OF sample_paths(1), of "[]" "[]" 0 TG_DIR]
    record_for_ok(1-5) [OF sample_paths(2), of "[]" "[]" 0 TG_DIR]
    record_for_ok(1-5) [OF sample_paths(3), of "[]" "[]" 0 TG_FILE]
    record_for_ok(1-5) [OF sample_paths(4), of "[]" "[]" 0 TG_FILE]
    record_for_ok(1-5) [OF sample_paths(5), of "''AbC''" "''17''" 5 TG_FILE]
  by simp_all

lemma sample_types [simp]:
  "tf_type (record_for p i m n t) = t" "tf_file_size (record_for p i m n t) = n"
  by (simp_all add: record_for_def)

lemma path_map_Cons [simp]:
  "path_map (f # xs) p = (if fpath f = p then Some f else path_map xs p)" "path_map [] p = None"
  by (auto simp: path_map_def split: option.splits) (cases "find_index (\<lambda>f. fpath f = p) xs"; simp)

lemma sample_dirs [simp]:
  "top_dir ''/'' = ''/''" "top_dir ''/d'' = ''/''" "top_dir ''/d/x'' = ''/d''" "top_dir ''/d/y'' = ''/d''"
  "top_dir ''/n'' = ''/''" "base_name ''/d/x'' = ''x''" "base_name ''/d/y'' = ''y''"
  by (simp_all add: top_dir_def base_name_def)

section \<open>Queries\<close>

text \<open>The attributes of a path are those of the record the table maps it to: a regular file
  with mode 0777 and the recorded size, or a directory with mode 0777 and size zero; the root is a
  directory with two links whatever the table holds; every other path is reported as missing.\<close>

theorem getattr_reports_table:
  assumes "fs_ok s xs"
  shows "hello_getattr s p =
    (if p = ''/'' then Inr (0, \<lparr>st_mode = 0x41FF, st_nlink = 2, st_size = 0\<rparr>)
     else case path_map xs p of
       None \<Rightarrow> Inr (- ENOENT, \<lparr>st_mode = 0, st_nlink = 0, st_size = 0\<rparr>)
     | Some f \<Rightarrow> Inr (0, \<lparr>st_mode = (if tf_type f = TG_FILE then 0x81FF else 0x41FF), st_nlink = 1,
         st_size = (if tf_type f = TG_FILE then tf_file_size f else 0)\<rparr>))"
  using hello_getattr_spec [OF assms, of p]
  by (auto simp: stat_of_def stat_zero_def split: option.split tg_file_type.split)

theorem getattr_reports_table_witness:
  "hello_getattr (sample_fs [root, file_n] ()) ''/n'' =
     Inr (0, \<lparr>st_mode = 0x81FF, st_nlink = 1, st_size = 5\<rparr>)"
  using getattr_reports_table [of "sample_fs [root, file_n] ()" "[root, file_n]" "''/n''"]
    sample_fs_ok(1) [of "[root, file_n]" "()"] by simp

text \<open>C29: listing a directory returns, after the two dot entries, the last component of every
  record whose path up to the second slash is the directory, each once and in table order; listing
  a file or an unknown path fails with no entries.\<close>

theorem readdir_lists_directory:
  assumes "fs_ok s xs"
  shows "hello_readdir s p =
    (case path_map xs p of
       None \<Rightarrow> Inr (- ENOENT, [])
     | Some d \<Rightarrow> if tf_type d \<noteq> TG_DIR then Inr (- ENOENT, [])
         else Inr (0, ''.'' # ''..'' #
           map (\<lambda>f. base_name (fpath f)) (filter (\<lambda>f. fpath f \<noteq> p \<and> top_dir (fpath f) = p) xs)))"
proof -
  have "in_dir p = (\<lambda>f. fpath f \<noteq> p \<and> top_dir (fpath f) = p)" by (auto simp: in_dir_def)
  then show ?thesis
    using hello_readdir_spec [OF assms, of p] by (simp split: option.split)
qed

theorem readdir_lists_directory_witness:
  "hello_readdir (sample_fs [root, dir_d, file_x, file_n, file_y] ()) ''/d'' =
     Inr (0, [''.'', ''..'', ''x'', ''y''])"
  using readdir_lists_directory [of "sample_fs [root, dir_d, file_x, file_n, file_y] ()"
      "[root, dir_d, file_x, file_n, file_y]" "''/d''"]
    sample_fs_ok(1) [of "[root, dir_d, file_x, file_n, file_y]" "()"] by simp

section \<open>Creation\<close>

text \<open>Creating a file at a path that is not in use makes an empty file appear there, with no
  identifiers yet, and changes no other path; a directory at the path is refused and nothing
  changes.\<close>

theorem create_adds_empty_file:
  assumes "fs_ok s xs" "uniq xs" "abs_path p" "can_grow (e_alloc env) (g_storage s)"
  shows "case path_map xs p of
      None \<Rightarrow> \<exists>f s' ys. hello_create env s p = Inr (0, s') \<and> fs_ok s' ys \<and> uniq ys \<and>
        path_map ys = (path_map xs)(p \<mapsto> f) \<and> tf_type f = TG_FILE \<and> tf_file_size f = 0 \<and>
        fid f = [] \<and> fmid f = []
    | Some d \<Rightarrow> tf_type d = TG_DIR \<longrightarrow> hello_create env s p = Inr (- EISDIR, s)"
proof (cases "path_map xs p")
  case None
  with hello_create_spec [OF assms(1,3,4)] obtain f s' where
    f: "hello_create env s p = Inr (0, s')" "fs_ok s' (xs @ [f])" "fpath f = p"
      "tf_type f = TG_FILE" "tf_file_size f = 0" "fresh_ids f" by auto
  with path_map_add [OF assms(2), of f] None fresh_ids_ok [OF f(6)] show ?thesis by auto
qed (use hello_create_dir [OF assms(1)] in auto)

theorem create_adds_empty_file_witness:
  "(\<exists>f s' ys. hello_create scripted (sample_fs [root] []) ''/n'' = Inr (0, s') \<and> fs_ok s' ys \<and>
      path_map ys ''/n'' = Some f \<and> tf_file_size f = 0) \<and>
   hello_create scripted (sample_fs [root, dir_d] []) ''/d'' = Inr (- EISDIR, sample_fs [root, dir_d] [])"
proof -
  have g: "can_grow (e_alloc scripted) st = can_grow (\<lambda>_. True) st" for st
    by (simp add: can_grow_def)
  have 1: "\<exists>f s' ys. hello_create scripted (sample_fs [root] []) ''/n'' = Inr (0, s') \<and> fs_ok s' ys \<and>
      path_map ys ''/n'' = Some f \<and> tf_file_size f = 0"
    using create_adds_empty_file [of "sample_fs [root] []" "[root]" "''/n''" scripted]
      sample_fs_ok [of "[root]" "[]"] sample_paths(5) by (fastforce simp: uniq_def g)
  show ?thesis
    using 1 create_adds_empty_file [of "sample_fs [root, dir_d] []" "[root, dir_d]" "''/d''" scripted]
      sample_fs_ok [of "[root, dir_d]" "[]"] sample_paths(2) by (simp add: uniq_def g)
qed

text \<open>Creating a file over an existing file does not truncate or refuse: a second record with
  the same path joins the table, hidden behind the first, so that removing the path once leaves the
  path in use.\<close>

theorem create_duplicates_existing:
  assumes "fs_ok s xs" "path_map xs p = Some f" "tf_type f = TG_FILE" "abs_path p"
    "can_grow (e_alloc env) (g_storage s)"
  shows "\<exists>g s'. hello_create env s p = Inr (0, s') \<and> fs_ok s' (xs @ [g]) \<and> fpath g = p \<and>
    path_map (xs @ [g]) p = Some f \<and> \<not> uniq (xs @ [g])"
proof -
  from hello_create_spec [OF assms(1,4,5)] assms(2,3) obtain g s' where
    g: "hello_create env s p = Inr (0, s')" "fs_ok s' (xs @ [g])" "fpath g = p" by auto
  have f: "f \<in> set xs" "fpath f = p" using path_map_Some_in [OF assms(2)] by auto
  then have "\<not> uniq (xs @ [g])" using g(3) by (auto simp: uniq_def)
  moreover have "path_map (xs @ [g]) p = Some f"
    using assms(2) by (cases rule: path_map_cases [of p xs])
      (auto simp: path_map_def find_index_append nth_append)
  ultimately show ?thesis using g by blast
qed

theorem create_duplicates_existing_witness:
  "\<exists>g s'. hello_create scripted (sample_fs [root, file_n] []) ''/n'' = Inr (0, s') \<and>
     fs_ok s' [root, file_n, g] \<and> fpath g = ''/n''"
proof -
  have g: "can_grow (e_alloc scripted) st = can_grow (\<lambda>_. True) st" for st
    by (simp add: can_grow_def)
  from create_duplicates_existing [of "sample_fs [root, file_n] []" "[root, file_n]" "''/n''" file_n scripted]
    sample_fs_ok [of "[root, file_n]" "[]"] sample_paths(5) g show ?thesis by auto
qed

section \<open>Removal\<close>

text \<open>C9: against a server that answers delete requests, removing a directory always comes to an
  end with success; the directory is gone, every record that is not in it is still there unchanged,
  and no record was added.\<close>

theorem rmdir_removes_directory:
  assumes "fs_ok s xs" "uniq xs" "json_ok (g_json s)" "answers_delete env (g_config s)"
    "\<forall>f \<in> set xs. ids_ok f" "path_map xs p = Some d" "tf_type d = TG_DIR"
  shows "\<exists>s' ys. hello_rmdir env s p = Inr (0, s') \<and> fs_ok s' ys \<and> uniq ys \<and> path_map ys p = None \<and>
    (\<forall>q f. q \<noteq> p \<and> path_map xs q = Some f \<and> top_dir q \<noteq> p \<longrightarrow> path_map ys q = Some f) \<and>
    (\<forall>q f. path_map ys q = Some f \<longrightarrow> path_map xs q = Some f)"
proof -
  let ?zs = "rmdir_list p xs 0"
  from hello_rmdir_spec [OF assms] obtain s' where
    s': "hello_rmdir env s p = Inr (0, s')" "fs_ok s' (snd (removed ?zs p))" by blast
  from rmdir_list_sets [OF assms(2), of p 0] have zs: "uniq ?zs" "set ?zs \<subseteq> set xs"
    "{f \<in> set xs. \<not> in_dir p f} \<subseteq> set ?zs" by auto
  have keep: "path_map ?zs q = Some f" if "path_map xs q = Some f" "q \<noteq> p" "top_dir q \<noteq> p" for q f
  proof -
    have "f \<in> set xs \<and> fpath f = q" using that(1) by (simp add: path_map_uniq [OF assms(2)])
    with that zs(3) show ?thesis by (auto simp: path_map_uniq [OF zs(1)] in_dir_def)
  qed
  have old: "path_map xs q = Some f" if "path_map ?zs q = Some f" for q f
    using that zs(2) by (auto simp: path_map_uniq [OF zs(1)] path_map_uniq [OF assms(2)])
  note map = path_map_removed(2) [OF zs(1), of p]
  have "path_map (snd (removed ?zs p)) p = None" by (simp add: map)
  moreover have "\<forall>q f. q \<noteq> p \<and> path_map xs q = Some f \<and> top_dir q \<noteq> p \<longrightarrow>
      path_map (snd (removed ?zs p)) q = Some f"
    using keep by (simp add: map)
  moreover have "\<forall>q f. path_map (snd (removed ?zs p)) q = Some f \<longrightarrow> path_map xs q = Some f"
    using old by (simp add: map)
  ultimately show ?thesis using s' path_map_removed(1) [OF zs(1), of p]
    by (intro exI [of _ s'] exI [of _ "snd (removed ?zs p)"] conjI)
qed

text \<open>A server that acknowledges everything, for runs that delete.\<close>

definition agreeable :: "unit env" where
  "agreeable = \<lparr>e_alloc = (\<lambda>_. True), e_init = (\<lambda>_. True), e_mime_name = (\<lambda>_. CURLE_OK),
     e_mime_data = (\<lambda>_. CURLE_OK), e_mime_filename = (\<lambda>_. CURLE_OK),
     e_perform = (\<lambda>rq w. (CURLE_OK, [ok_reply ''r''], w))\<rparr>"

lemma ok_reply_r: "reply_fits (ok_reply ''r'')" "status_is (ok_reply ''r'') ''true''"
proof -
  show "reply_fits (ok_reply ''r'')"
    by (simp add: reply_fits_def ok_reply_def quoted_def c_string_def size_consts)
  show "status_is (ok_reply ''r'') ''true''" by code_simp
qed

lemma agreeable_deletes: "answers_delete agreeable c"
  using ok_reply_r by (auto simp: answers_delete_def agreeable_def)

theorem rmdir_removes_directory_witness:
  "\<exists>s' ys. hello_rmdir agreeable (sample_fs [root, dir_d, file_x, file_n] ()) ''/d'' = Inr (0, s') \<and>
     fs_ok s' ys \<and> path_map ys ''/d'' = None \<and> path_map ys ''/n'' = Some file_n"
proof -
  let ?xs = "[root, dir_d, file_x, file_n]"
  have fs: "fs_ok (sample_fs ?xs ()) ?xs" by (rule sample_fs_ok) simp_all
  have js: "json_ok (g_json (sample_fs ?xs ()))" by (simp add: json_ok_zeros)
  have u: "uniq ?xs" by (simp add: uniq_def)
  have d: "\<forall>f \<in> set ?xs. ids_ok f" "path_map ?xs ''/d'' = Some dir_d" "tf_type dir_d = TG_DIR" by simp_all
  from rmdir_removes_directory [OF fs u js agreeable_deletes d] obtain s' ys where
    s': "hello_rmdir agreeable (sample_fs ?xs ()) ''/d'' = Inr (0, s')" "fs_ok s' ys" "path_map ys ''/d'' = None"
    and keep: "\<forall>q f. q \<noteq> ''/d'' \<and> path_map ?xs q = Some f \<and> top_dir q \<noteq> ''/d'' \<longrightarrow> path_map ys q = Some f"
    by (elim exE conjE)
  have "path_map ys ''/n'' = Some file_n" by (rule keep [rule_format]) simp
  with s' show ?thesis by (intro exI [of _ s'] exI [of _ ys] conjI)
qed

text \<open>C32: a directory whose last two records in the table are files of it keeps one of them:
  the scan moves the last record into the freed slot and goes on behind it. After the call
  reports success the directory is gone and the file in it still answers.\<close>

theorem rmdir_orphans_file:
  assumes "fs_ok s (us @ [a, b])" "uniq (us @ [a, b])" "json_ok (g_json s)" "answers_delete env (g_config s)"
    "\<forall>f \<in> set (us @ [a, b]). ids_ok f" "path_map (us @ [a, b]) p = Some d" "tf_type d = TG_DIR"
    and "\<forall>f \<in> set us. fpath f = p \<or> top_dir (fpath f) \<noteq> p"
    "fpath a \<noteq> p" "top_dir (fpath a) = p" "fpath b \<noteq> p" "top_dir (fpath b) = p"
  shows "\<exists>s' ys. hello_rmdir env s p = Inr (0, s') \<and> fs_ok s' ys \<and> path_map ys p = None \<and>
    path_map ys (fpath b) = Some b"
proof -
  have us: "\<forall>f \<in> set us. \<not> in_dir p f" "in_dir p a" "in_dir p b"
    using assms(8-12) by (auto simp: in_dir_def)
  note left = rmdir_list_skips [OF us]
  have u: "uniq (us @ [b])" using assms(2) by (auto simp: uniq_def)
  from hello_rmdir_spec [OF assms(1-7)] obtain s' where
    "hello_rmdir env s p = Inr (0, s')" "fs_ok s' (snd (removed (us @ [b]) p))" by (auto simp: left)
  moreover have "path_map (us @ [b]) (fpath b) = Some b" by (simp add: path_map_uniq [OF u])
  ultimately show ?thesis using path_map_removed(2) [OF u, of p] assms(11) by auto
qed

theorem rmdir_orphans_file_witness:
  "\<exists>s' ys. hello_rmdir agreeable (sample_fs ([root, dir_d] @ [file_x, file_y]) ()) ''/d'' = Inr (0, s') \<and>
     fs_ok s' ys \<and> path_map ys ''/d'' = None \<and> path_map ys (fpath file_y) = Some file_y"
proof (rule rmdir_orphans_file)
  show "fs_ok (sample_fs ([root, dir_d] @ [file_x, file_y]) ()) ([root, dir_d] @ [file_x, file_y])"
    by (rule sample_fs_ok) simp_all
  show "path_map ([root, dir_d] @ [file_x, file_y]) ''/d'' = Some dir_d" by simp
qed (simp_all add: json_ok_zeros agreeable_deletes uniq_def)

text \<open>C30: unlinking a known path removes exactly that path from the table and reports success
  once the server answered the delete request; unlinking an unknown path reports it as missing
  and changes no path.\<close>

theorem unlink_removes_path:
  assumes "fs_ok s xs" "uniq xs" "json_ok (g_json s)" "answers_delete env (g_config s)"
    "\<forall>f \<in> set xs. ids_ok f"
  shows "\<exists>s' ys. hello_unlink env s p = Inr (if path_map xs p = None then - ENOENT else 0, s') \<and>
    fs_ok s' ys \<and> uniq ys \<and> path_map ys = (path_map xs)(p := None)"
proof -
  from hello_unlink_spec [OF assms(1), of p env] obtain st' where
    st': "fs_ok (s\<lparr>g_storage := st'\<rparr>) (snd (removed xs p))"
      "hello_unlink env s p = (case path_map xs p of None \<Rightarrow> Inr (- ENOENT, s\<lparr>g_storage := st'\<rparr>)
       | Some f \<Rightarrow> cbind (remote_delete env (s\<lparr>g_storage := st'\<rparr>) f) (\<lambda>s2. Inr (0, s2)))" by blast
  note map = path_map_removed(1,2) [OF assms(2), of p]
  show ?thesis
  proof (cases "path_map xs p")
    case None
    with st' map show ?thesis by auto
  next
    case (Some f)
    then have "ids_ok f" using assms(5) path_map_Some_in by blast
    with remote_delete_ok [OF st'(1), of env f] assms(3,4) obtain J w where
      "remote_delete env (s\<lparr>g_storage := st'\<rparr>) f = Inr (s\<lparr>g_storage := st', g_json := J, g_world := w\<rparr>)"
      "json_ok J" by auto
    moreover have "fs_ok (s\<lparr>g_storage := st', g_json := J, g_world := w\<rparr>) (snd (removed xs p))"
      using st'(1) \<open>json_ok J\<close> by (simp add: fs_ok_def json_ok_def)
    ultimately show ?thesis using Some st'(2) map by auto
  qed
qed

theorem unlink_removes_path_witness:
  "\<exists>s' ys. hello_unlink agreeable (sample_fs [root, file_n] ()) ''/n'' = Inr (0, s') \<and>
     fs_ok s' ys \<and> path_map ys ''/n'' = None"
proof -
  let ?xs = "[root, file_n]"
  have "\<exists>s' ys. hello_unlink agreeable (sample_fs ?xs ()) ''/n'' =
      Inr (if path_map ?xs ''/n'' = None then - ENOENT else 0, s') \<and>
    fs_ok s' ys \<and> uniq ys \<and> path_map ys = (path_map ?xs)(''/n'' := None)"
    by (rule unlink_removes_path) (simp_all add: json_ok_zeros agreeable_deletes uniq_def sample_fs_ok)
  then obtain s' ys where "hello_unlink agreeable (sample_fs ?xs ()) ''/n'' = Inr (0, s')" "fs_ok s' ys"
    "path_map ys = (path_map ?xs)(''/n'' := None)" by auto
  moreover from this(3) have "path_map ys ''/n'' = None" by simp
  ultimately show ?thesis by blast
qed

section \<open>Reading and writing\<close>

text \<open>What the server does for a download: it names a path for the identifier, and serves the
  contents there, in chunks.\<close>

definition serves :: "'w env \<Rightarrow> tg_config \<Rightarrow> string \<Rightarrow> 'w \<Rightarrow> string \<Rightarrow> 'w \<Rightarrow> bool" where
  "serves env c i w content w2 \<longleftrightarrow>
     e_init env w \<and> length content + 100 < 2 ^ 63 \<and> (\<forall>n \<le> length content + 100. e_alloc env n) \<and>
     (\<exists>r q w1 code cs.
        e_perform env \<lparr>rq_url = get_file_url c i, rq_mime = None\<rparr> w = (CURLE_OK, [r], w1) \<and>
        reply_fits r \<and> status_is r ''true'' \<and> quoted_field r ''file_path'' q \<and>
        e_perform env \<lparr>rq_url = download_url c q, rq_mime = None\<rparr> w1 = (code, cs, w2) \<and>
        concat cs = content)"

lemma serves_load:
  assumes "serves env c (fid f) w content w2" "config_ok c" "ids_ok f"
  shows "\<exists>b J'. tg_file_load_contents env c f J w = Inr (b, J', w2) \<and> json_ok J' \<and> buf_ok b \<and>
    bytes b = map Some content"
proof -
  from assms(1) obtain r q w1 code cs where srv: "e_init env w"
    "e_perform env \<lparr>rq_url = get_file_url c (fid f), rq_mime = None\<rparr> w = (CURLE_OK, [r], w1)"
    "reply_fits r" "status_is r ''true''" "quoted_field r ''file_path'' q"
    "e_perform env \<lparr>rq_url = download_url c q, rq_mime = None\<rparr> w1 = (code, cs, w2)" "concat cs = content"
    and mem: "length content + 100 < 2 ^ 64" "\<forall>n \<le> length content + 100. e_alloc env n"
    by (auto simp: serves_def)
  from load_contents_spec [OF assms(2,3) srv(1-6), of "length content" J] srv(7) mem show ?thesis
    by (auto simp: sink_ok_def)
qed

lemma fs_ok_config: "fs_ok s xs \<Longrightarrow> config_ok (g_config s)"
  by (simp add: fs_ok_def)

text \<open>C26: reading returns exactly the requested slice of the contents the server holds: as many
  bytes as there are between the offset and the end, at most the requested number, and nothing at
  or behind the end. The table is not changed.\<close>

theorem read_returns_slice:
  assumes "fs_ok s xs" "path_map xs p = Some f" "ids_ok f" "fid f \<noteq> []"
    and "serves env (g_config s) (fid f) (g_world s) content w2" "content \<noteq> []"
    and "unat off < 2 ^ 63" "unat sz < 2 ^ 31"
  shows "\<exists>s'. hello_read env s p sz off =
      Inr (int (length (take (unat sz) (drop (unat off) content))),
           map Some (take (unat sz) (drop (unat off) content)), s') \<and>
    fs_ok s' xs \<and> g_storage s' = g_storage s \<and> g_world s' = w2"
proof -
  from serves_load [OF assms(5) fs_ok_config [OF assms(1)] assms(3)] obtain b J where
    b: "tg_file_load_contents env (g_config s) f (g_json s) (g_world s) = Inr (b, J, w2)" "json_ok J"
      "buf_ok b" "bytes b = map Some content" by blast
  have "length content < 2 ^ 63" using assms(5) by (simp add: serves_def)
  from hello_read_spec [OF assms(1-4) b(1,3,4) assms(6) this assms(7,8)] show ?thesis
    using assms(1) b(2) by (auto simp: fs_ok_def json_ok_def)
qed

definition path_reply :: string where
  "path_reply = ok_reply (quoted ''file_path'' @ '':'' @ quoted ''docs'')"

lemma path_reply_ok: "reply_fits path_reply" "status_is path_reply ''true''"
  "quoted_field path_reply ''file_path'' ''docs''"
proof -
  show "reply_fits path_reply"
    by (simp add: reply_fits_def path_reply_def ok_reply_def quoted_def c_string_def size_consts)
  show "status_is path_reply ''true''" "quoted_field path_reply ''file_path'' ''docs''"
    by code_simp+
qed

lemma scripted_serves:
  "length content + 100 < 2 ^ 63 \<Longrightarrow>
     serves scripted c i ((CURLE_OK, [path_reply]) # (CURLE_OK, [content]) # w) content w"
  using path_reply_ok by (simp add: serves_def) blast

theorem read_returns_slice_witness:
  "\<exists>s'. hello_read scripted (sample_fs [root, file_n] [(CURLE_OK, [path_reply]), (CURLE_OK, [''hello''])])
      ''/n'' 3 1 = Inr (3, [Some CHR ''e'', Some CHR ''l'', Some CHR ''l''], s')"
proof -
  let ?w = "[(CURLE_OK, [path_reply]), (CURLE_OK, [''hello''])]"
  let ?s = "sample_fs [root, file_n] ?w"
  have fs: "fs_ok ?s [root, file_n]" by (rule sample_fs_ok) simp_all
  have srv: "serves scripted (g_config ?s) (fid file_n) (g_world ?s) ''hello'' []"
    by (simp add: scripted_serves)
  have f: "path_map [root, file_n] ''/n'' = Some file_n" "ids_ok file_n" "fid file_n \<noteq> []" by simp_all
  have e: "take (unat (3 :: size_t)) (drop (unat (1 :: off_t)) ''hello'') = ''ell''" by simp
  have b: "''hello'' \<noteq> []" "unat (1 :: off_t) < 2 ^ 63" "unat (3 :: size_t) < 2 ^ 31" by simp_all
  from read_returns_slice [OF fs f srv b] show ?thesis unfolding e by auto
qed

lemma write_then_read:
  assumes "fs_ok s xs" "path_map xs p = Some f" "tf_type f = TG_FILE" "tf_file_size f = 0" "fresh_ids f"
    "json_ok (g_json s)" "curl_works env (g_world s)" "p \<noteq> ''/''"
    and d: "0 < length d" "length d < 2 ^ 31" "e_alloc env 100" "e_alloc env (length d)"
    and send: "e_perform env \<lparr>rq_url = send_url (g_config s) f,
        rq_mime = Some (upload_part f (map Some d))\<rparr> (g_world s) = (code, [r], w')"
      "reply_fits r" "status_is r ''true''" "quoted_field r ''file_id'' i" "plain_field r ''message_id'' m"
      "i \<noteq> []"
    and serve: "serves env (g_config s) i w' d w2"
    and rd: "unat off < 2 ^ 63" "unat sz < 2 ^ 31"
  shows "\<exists>s1 s2. hello_write env s p (map Some d) (of_nat (length d)) 0 = Inr (int (length d), s1) \<and>
    hello_getattr s1 p = Inr (0, \<lparr>st_mode = 0x81FF, st_nlink = 1, st_size = of_nat (length d)\<rparr>) \<and>
    hello_read env s1 p sz off =
      Inr (int (length (take (unat sz) (drop (unat off) d))), map Some (take (unat sz) (drop (unat off) d)), s2)"
proof -
  from hello_write_first [OF assms(1-7) d(2-4) send(1-5)] obtain s1 ys f' where
    w: "hello_write env s p (map Some d) (of_nat (length d)) 0 = Inr (int (length d), s1)"
      "fs_ok s1 ys" "path_map ys p = Some f'" "ids_ok f'" "fid f' = i" "tf_type f' = TG_FILE"
      "tf_file_size f' = of_nat (length d)" "g_world s1 = w'" "g_config s1 = g_config s" by blast
  have srv: "serves env (g_config s1) (fid f') (g_world s1) d w2" "fid f' \<noteq> []"
    using serve w(5,8,9) send(6) by simp_all
  have load: "\<exists>b J'. tg_file_load_contents env (g_config s1) f' (g_json s1) (g_world s1) = Inr (b, J', w2) \<and>
      json_ok J' \<and> buf_ok b \<and> bytes b = map Some d"
    using serves_load [OF srv(1) fs_ok_config [OF w(2)] w(4)] by blast
  have len: "length d < 2 ^ 63" "d \<noteq> []" using d(1,2) by auto
  from load hello_read_spec [OF w(2,3,4) srv(2) _ _ _ len(2,1) rd] obtain s2 where
    "hello_read env s1 p sz off = Inr (int (length (take (unat sz) (drop (unat off) d))),
       map Some (take (unat sz) (drop (unat off) d)), s2)" by blast
  moreover have "hello_getattr s1 p = Inr (0, \<lparr>st_mode = 0x81FF, st_nlink = 1, st_size = of_nat (length d)\<rparr>)"
    using hello_getattr_spec [OF w(2), of p] assms(8) w(3,6,7) by (simp add: stat_of_def)
  ultimately show ?thesis using w(1) by blast
qed

text \<open>C3: what is written to a new file is what is read back. The first write uploads the data as
  a document and stores the identifiers the server gives; if the server then serves that document's
  contents for that identifier, every read returns the slice of the written data, and the size
  reported for the file is the number of bytes written.\<close>

theorem write_read_roundtrip:
  assumes "fs_ok s xs" "path_map xs p = Some f" "tf_type f = TG_FILE" "tf_file_size f = 0" "fresh_ids f"
    "json_ok (g_json s)" "curl_works env (g_world s)" "p \<noteq> ''/''"
    and d: "0 < length d" "length d < 2 ^ 31" "e_alloc env 100" "e_alloc env (length d)"
    and send: "e_perform env \<lparr>rq_url = send_url (g_config s) f,
        rq_mime = Some (upload_part f (map Some d))\<rparr> (g_world s) = (code, [r], w')"
      "reply_fits r" "status_is r ''true''" "quoted_field r ''file_id'' i" "plain_field r ''message_id'' m"
      "i \<noteq> []"
    and serve: "serves env (g_config s) i w' d w2"
    and rd: "unat off < 2 ^ 63" "unat sz < 2 ^ 31"
  shows "\<exists>s1 s2. hello_write env s p (map Some d) (of_nat (length d)) 0 = Inr (int (length d), s1) \<and>
    hello_getattr s1 p = Inr (0, \<lparr>st_mode = 0x81FF, st_nlink = 1, st_size = of_nat (length d)\<rparr>) \<and>
    hello_read env s1 p sz off =
      Inr (int (length (take (unat sz) (drop (unat off) d))), map Some (take (unat sz) (drop (unat off) d)), s2)"
  by (rule write_then_read [OF assms])

definition sent_reply :: string where
  "sent_reply = ok_reply (quoted ''message_id'' @ '':17,'' @ quoted ''file_id'' @ '':'' @ quoted ''AbC'')"

lemma sent_reply_ok: "reply_fits sent_reply" "status_is sent_reply ''true''"
  "quoted_field sent_reply ''file_id'' ''AbC''" "plain_field sent_reply ''message_id'' ''17''"
proof -
  show "reply_fits sent_reply"
    by (simp add: reply_fits_def sent_reply_def ok_reply_def quoted_def c_string_def size_consts)
  show "status_is sent_reply ''true''" "quoted_field sent_reply ''file_id'' ''AbC''"
    "plain_field sent_reply ''message_id'' ''17''"
    by code_simp+
qed

theorem write_read_roundtrip_witness:
  "\<exists>s1 s2. hello_write scripted (sample_fs [root, file_x] [(CURLE_OK, [sent_reply]), (CURLE_OK, [path_reply]),
      (CURLE_OK, [''hello''])]) ''/d/x'' (map Some ''hello'') (of_nat (length ''hello'')) 0 =
      Inr (int (length ''hello''), s1) \<and>
    hello_getattr s1 ''/d/x'' = Inr (0, \<lparr>st_mode = 0x81FF, st_nlink = 1, st_size = of_nat (length ''hello'')\<rparr>) \<and>
    hello_read scripted s1 ''/d/x'' 100 2 = Inr (3, map Some ''llo'', s2)"
proof -
  let ?w = "[(CURLE_OK, [sent_reply]), (CURLE_OK, [path_reply]), (CURLE_OK, [''hello''])]"
  let ?s = "sample_fs [root, file_x] ?w"
  have fs: "fs_ok ?s [root, file_x]" by (rule sample_fs_ok) simp_all
  have f: "path_map [root, file_x] ''/d/x'' = Some file_x" "tf_type file_x = TG_FILE" "tf_file_size file_x = 0"
    "fresh_ids file_x" "json_ok (g_json ?s)" "curl_works scripted (g_world ?s)" "''/d/x'' \<noteq> ''/''"
    by (simp_all add: record_for_fresh json_ok_zeros)
  have d: "0 < length ''hello''" "length ''hello'' < 2 ^ 31" "e_alloc scripted 100"
    "e_alloc scripted (length ''hello'')" by simp_all
  have send: "e_perform scripted \<lparr>rq_url = send_url (g_config ?s) file_x,
      rq_mime = Some (upload_part file_x (map Some ''hello''))\<rparr> (g_world ?s) =
      (CURLE_OK, [sent_reply], [(CURLE_OK, [path_reply]), (CURLE_OK, [''hello''])])" by simp
  have srv: "serves scripted (g_config ?s) ''AbC'' [(CURLE_OK, [path_reply]), (CURLE_OK, [''hello''])] ''hello'' []"
    by (simp add: scripted_serves)
  have b: "unat (2 :: off_t) < 2 ^ 63" "unat (100 :: size_t) < 2 ^ 31" by simp_all
  have e: "take (unat (100 :: size_t)) (drop (unat (2 :: off_t)) ''hello'') = ''llo''" by simp
  have "''AbC'' \<noteq> []" "int (length ''llo'') = 3" by simp_all
  with write_read_roundtrip [OF fs f d send sent_reply_ok(1-4) _ srv b] show ?thesis unfolding e by simp
qed



section \<open>Where contents get lost\<close>

text \<open>A write to a path the table does not know (a file unlinked while it was open) uploads
  the data and reports success, but the identifiers go to a copy of the record: the record in the
  table has none, so every later read returns no bytes although the size is reported.\<close>

theorem write_unknown_path_loses_contents:
  assumes "fs_ok s xs" "path_map xs p = None" "abs_path p" "can_grow (e_alloc env) (g_storage s)"
    "json_ok (g_json s)" "curl_works env (g_world s)"
    and d: "length d < 2 ^ 31" "e_alloc env 100" "e_alloc env (length d)"
    and send: "fpath f0 = p" "e_perform env \<lparr>rq_url = send_url (g_config s) f0,
        rq_mime = Some (upload_part f0 (map Some d))\<rparr> (g_world s) = (code, [r], w')"
      "reply_fits r" "status_is r ''true''" "quoted_field r ''file_id'' i" "plain_field r ''message_id'' m"
  shows "\<exists>s' f. hello_write env s p (map Some d) (of_nat (length d)) 0 = Inr (int (length d), s') \<and>
    fs_ok s' (xs @ [f]) \<and> path_map (xs @ [f]) p = Some f \<and> tf_file_size f = of_nat (length d) \<and>
    (\<forall>sz off. hello_read env s' p sz off = Inr (0, [], s'))"
proof -
  let ?n = "of_nat (length d) :: size_t"
  from push_new_file [OF assms(1,3,4), of ?n] obtain f st' where
    f: "tg_file_new_file p ?n = Inr f" "tg_storage_push (e_alloc env) (g_storage s) f = Inr st'"
      "fs_ok (s\<lparr>g_storage := st'\<rparr>) (xs @ [f])" "file_ok f" "fpath f = p" "fresh_ids f" "tf_file_size f = ?n"
    by blast
  let ?s1 = "s\<lparr>g_storage := st'\<rparr>"
  have eq: "send_url (g_config s) f0 = send_url (g_config ?s1) f" "upload_part f0 = upload_part f"
    using send(1) f(5) by (auto simp: send_url_def upload_part_def)
  have c: "json_ok (g_json ?s1)" "curl_works env (g_world ?s1)" "length d < 2 ^ 64" using assms(5,6) d(1) by simp_all
  have send': "e_perform env \<lparr>rq_url = send_url (g_config ?s1) f,
        rq_mime = Some (upload_part f (map Some d))\<rparr> (g_world ?s1) = (code, [r], w')"
    using send(2) unfolding eq by simp
  from write_back_first [OF f(3,4,6) c d(2,3) send' send(3-6)] obtain f' J where
    wb: "write_back env ?s1 f (buffer_new (e_alloc env)) (map Some d) ?n 0 =
      Inr (f', ?s1\<lparr>g_json := J, g_world := w'\<rparr>)" "json_ok J" by blast
  let ?s' = "?s1\<lparr>g_json := J, g_world := w'\<rparr>"
  have none: "find_index (\<lambda>f. fpath f = p) xs = None" using assms(2) by (simp add: path_map_def)
  have "int_of_size ?n = int (length d)" using d(1) by (simp add: int_of_size_small)
  then have run: "hello_write env s p (map Some d) ?n 0 = Inr (int (length d), ?s')"
    using none f(1,2) wb(1) unfolding hello_write_def find_load [OF assms(1)] by simp
  have ok: "fs_ok ?s' (xs @ [f])" using f(3) wb(2) by (simp add: fs_ok_def json_ok_def)
  have pm: "path_map (xs @ [f]) p = Some f"
    using none f(5) by (simp add: path_map_def find_index_append nth_append)
  with hello_read_no_id [OF ok pm] fresh_ids_ok [OF f(6)] run ok f(7) show ?thesis by blast
qed

theorem write_unknown_path_loses_contents_witness:
  "\<exists>s' f. hello_write scripted (sample_fs [root] [(CURLE_OK, [sent_reply])]) ''/n'' (map Some ''hello'')
      (of_nat (length ''hello'')) 0 = Inr (int (length ''hello''), s') \<and>
    fs_ok s' ([root] @ [f]) \<and> path_map ([root] @ [f]) ''/n'' = Some f \<and>
    tf_file_size f = of_nat (length ''hello'') \<and>
    (\<forall>sz off. hello_read scripted s' ''/n'' sz off = Inr (0, [], s'))"
proof (rule write_unknown_path_loses_contents)
  have "can_grow (e_alloc scripted) st = can_grow (\<lambda>_. True) st" for st by (simp add: can_grow_def)
  then show "can_grow (e_alloc scripted) (g_storage (sample_fs [root] [(CURLE_OK, [sent_reply])]))"
    by (simp add: sample_fs_ok)
  show "e_perform scripted \<lparr>rq_url = send_url (g_config (sample_fs [root] [(CURLE_OK, [sent_reply])])) file_n,
      rq_mime = Some (upload_part file_n (map Some ''hello''))\<rparr>
      (g_world (sample_fs [root] [(CURLE_OK, [sent_reply])])) = (CURLE_OK, [sent_reply], [])" by simp
  show "fs_ok (sample_fs [root] [(CURLE_OK, [sent_reply])]) [root]" by (rule sample_fs_ok) simp_all
qed (use sent_reply_ok sample_paths in \<open>simp_all add: json_ok_zeros\<close>)

text \<open>C33: when the first upload of a file fails in transit and nothing arrives, the result code is
  ignored and the response buffer still holds the reply to an earlier request: the new file takes
  over the identifiers of the earlier document.\<close>

theorem failed_upload_adopts_old_ids:
  assumes "config_ok c" "file_ok f" "fresh_ids f" "code \<noteq> CURLE_OK"
    and "e_perform env \<lparr>rq_url = send_url c f, rq_mime = Some part\<rparr> w = (code, [], w')"
    and "cstr J = Inr r" "status_is r ''true''" "quoted_field r ''file_id'' i" "plain_field r ''message_id'' m"
  shows "\<exists>f'. tg_put_file_send env f c part J w = Inr (f', J, w') \<and> fid f' = i \<and> fmid f' = m"
  using assms(1-3,5-9) by (rule put_file_send_stale)

theorem failed_upload_adopts_old_ids_witness:
  "\<exists>f'. tg_put_file_send scripted file_x (g_config (sample_fs [] ())) (upload_part file_x [Some CHR ''a''])
      (map Some sent_reply @ [Some NUL]) [] = Inr (f', map Some sent_reply @ [Some NUL], []) \<and>
    fid f' = ''AbC'' \<and> fmid f' = ''17''"
proof (rule failed_upload_adopts_old_ids [of _ _ 7])
  show "config_ok (g_config (sample_fs [] ()))" by (rule fs_ok_config [OF sample_fs_ok(1) [of "[]"]]) simp_all
  show "cstr (map Some sent_reply @ [Some NUL]) = Inr sent_reply"
    using sent_reply_ok(1) by (intro cstr_append_NUL) (simp add: reply_fits_def)
  show "status_is sent_reply ''true''" by (rule sent_reply_ok)
  show "quoted_field sent_reply ''file_id'' ''AbC''" by (rule sent_reply_ok)
  show "plain_field sent_reply ''message_id'' ''17''" by (rule sent_reply_ok)
qed (simp_all add: record_for_fresh CURLE_OK_def)

text \<open>When the very first request of a session gets no answer, the program does not report an
  error to its caller: searching the empty response for its status dereferences a null pointer.\<close>

theorem first_upload_without_answer_crashes:
  assumes "config_ok c" "file_ok f" "e_perform env \<lparr>rq_url = send_url c f, rq_mime = Some part\<rparr> w = (code, [], w')"
  shows "tg_put_file_send env f c part (zeros JSON_RESPONSE_BUF_SIZE) w = Inl NullDeref"
  using assms by (rule put_file_send_dead)

theorem first_upload_without_answer_crashes_witness:
  "tg_put_file_send scripted file_x (g_config (sample_fs [] ())) (upload_part file_x [Some CHR ''a''])
     (zeros JSON_RESPONSE_BUF_SIZE) [] = Inl NullDeref"
proof (rule first_upload_without_answer_crashes)
  show "config_ok (g_config (sample_fs [] ()))" by (rule fs_ok_config [OF sample_fs_ok(1) [of "[]"]]) simp_all
qed simp_all

text \<open>A path of 100 characters or more overruns the path array of the record that
  \<^verbatim>\<open>create\<close> and \<^verbatim>\<open>mkdir\<close> make for it.\<close>

theorem long_path_overflows:
  assumes "fs_ok s xs" "path_map xs p = None" "100 \<le> length p"
  shows "hello_create env s p = Inl OutOfBounds \<and> hello_mkdir env s p = Inl OutOfBounds"
  using assms new_file_long_path(1) [of p 0] new_file_long_path(2) [of p]
  by (auto simp: hello_create_def hello_mkdir_def find_rep [OF fs_ok_rep] path_map_def FILE_PATH_SIZE_def)

theorem long_path_overflows_witness:
  "hello_create scripted (sample_fs [root] []) (CHR ''/'' # replicate 99 CHR ''a'') = Inl OutOfBounds"
proof -
  have "fs_ok (sample_fs [root] ([] :: (CURLcode \<times> string list) list)) [root]" by (rule sample_fs_ok) simp_all
  moreover have "path_map [root] (CHR ''/'' # replicate 99 CHR ''a'') = None" by simp
  ultimately show ?thesis
    using long_path_overflows [of "sample_fs [root] []" "[root]" "CHR ''/'' # replicate 99 CHR ''a''" scripted]
    by simp
qed

section \<open>Reachable states\<close>


lemma sample_start: "\<exists>s. main_init scripted ''1'' ''t'' [] = Inr s"
proof -
  obtain c where c: "tg_config_new ''1'' ''t'' = Inr c"
    using tg_config_new_ok [of "''1''" "''t''"] by (auto simp: c_string_def size_consts)
  obtain r where r: "tg_file_new_dir [slash] = Inr r" "file_ok r"
    using tg_file_new_dir_ok [of "[slash]"] by (auto simp: abs_path_def c_string_def size_consts)
  have a: "e_alloc scripted = (\<lambda>_. True)" by auto
  obtain st where "tg_storage_push (e_alloc scripted) (tg_storage_new (e_alloc scripted)) r = Inr st"
    using push_rep [OF sample_new(1) r(2) sample_new(2)] unfolding a by blast
  with c r(1) show ?thesis by (simp add: main_init_def)
qed


text \<open>C31: in every reachable state the queries return, whatever path they are asked for: attribute
  lookup, open and directory listing neither run out of an array nor read an unset byte.\<close>

theorem reachable_queries_return:
  assumes "fs_reach env s"
  shows "(\<exists>r. hello_getattr s p = Inr r) \<and> (\<exists>r. hello_open s p = Inr r) \<and> (\<exists>r. hello_readdir s p = Inr r)"
proof -
  from fs_reach_inv [OF assms] obtain xs where xs: "fs_ok s xs" by (auto simp: fs_inv_def)
  show ?thesis
    using hello_getattr_spec [OF xs, of p] hello_open_spec [OF xs, of p] hello_readdir_spec [OF xs, of p]
    by (auto split: option.splits)
qed

theorem reachable_queries_return_witness:
  "\<exists>s r. main_init scripted ''1'' ''t'' [] = Inr s \<and> hello_readdir s ''/'' = Inr r"
proof -
  from sample_start obtain s where s: "main_init scripted ''1'' ''t'' [] = Inr s" by blast
  have "fs_reach scripted s" by (rule fs_reach.start [OF _ _ s]) (simp_all add: c_string_def)
  from reachable_queries_return [OF this, of "''/''"] s show ?thesis by blast
qed

section \<open>Start of the session\<close>

text \<open>After \<^verbatim>\<open>init\<close> asynchronous reads are not requested, whatever the kernel offers, every
  other feature bit is as it was, and kernel caching is on: the request for the feature is undone
  by the call after it.\<close>

theorem init_disables_async_read:
  "bit (want_ext (fst (hello_init conn))) n = (n \<noteq> 0 \<and> bit (want_ext conn) n) \<and>
   capable_ext (fst (hello_init conn)) = capable_ext conn \<and> snd (hello_init conn) = 1"
proof -
  have "bit (1 :: 64 word) n \<longleftrightarrow> n = 0" by (simp add: bit_1_iff)
  then have "n < 64 \<Longrightarrow> bit (NOT (1 :: 64 word)) n \<longleftrightarrow> n \<noteq> 0" by (simp add: bit_not_iff)
  then show ?thesis
    by (cases "n < 64") (auto simp: hello_init_def fuse_set_feature_flag_def fuse_unset_feature_flag_def
        FUSE_CAP_ASYNC_READ_def bit_and_iff bit_or_iff bit_1_iff Let_def dest: bit_imp_le_length)
qed

end
