(* ===== verification/Node_Path_Correct.thy ===== *)
theory Node_Path_Correct
  imports Node_Path
begin

text \<open>
  What the walks of \<^verbatim>\<open>try_get_path\<close> and \<^verbatim>\<open>unlock_path\<close> do: the buffer always has room for what is
  written in front of it, the path is the names from the root down, the locks taken are exactly
  those of the nodes on the way, and releasing them, also after a failure half way up, restores the
  state.
\<close>

section \<open>The path buffer\<close>

abbreviation UINT_MAX :: nat where "UINT_MAX \<equiv> 0xffffffff"

lemma grow_bufsize_ok:
  "0 < n \<Longrightarrow> n \<le> UINT_MAX \<Longrightarrow> need \<le> UINT_MAX \<Longrightarrow>
     \<exists>m. grow_bufsize n need = Some m \<and> need \<le> m \<and> n \<le> m \<and> m \<le> UINT_MAX"
proof (induction n need rule: grow_bufsize.induct)
  case (1 n need)
  show ?case
  proof (cases "need \<le> n")
    case True
    with "1.prems" show ?thesis by (simp add: grow_bufsize.simps [of n need])
  next
    case False
    then have n: "\<not> (n = 0 \<or> UINT_MAX \<le> n)" using "1.prems" by simp
    show ?thesis
    proof (cases "0x80000000 \<le> n")
      case True
      with False n "1.IH"(1) [OF False n True] "1.prems" show ?thesis
        by (auto simp: grow_bufsize.simps [of n need])
    next
      case small: False
      then have "0 < 2 * n" "2 * n \<le> UINT_MAX" using n by auto
      from "1.IH"(2) [OF False n small this "1.prems"(3)] False n small show ?thesis
        by (auto simp: grow_bufsize.simps [of n need])
    qed
  qed
qed

text \<open>The buffer holds a text: it ends with the text and its terminator, which start at \<open>s\<close>.\<close>

definition path_at :: "carr \<Rightarrow> nat \<Rightarrow> string \<Rightarrow> bool" where
  "path_at buf s text \<longleftrightarrow> s + length text + 1 = length buf \<and> drop s buf = map Some (text @ [NUL]) \<and>
     length buf \<le> UINT_MAX"

lemma path_at_split: "path_at buf s text \<Longrightarrow> buf = take s buf @ map Some (text @ [NUL])"
  by (metis append_take_drop_id path_at_def)

lemma path_at_append:
  "length xs + (length text + 1) \<le> UINT_MAX \<Longrightarrow> path_at (xs @ map Some (text @ [NUL])) (length xs) text"
  by (simp add: path_at_def)

lemma prepend_ok:
  assumes "path_at b s text" "length name + 1 \<le> s"
  shows "\<exists>b2. cbind (memcpy_cells b (s - length name) (map Some name)) (\<lambda>b1.
      cbind (write_cell b1 (s - length name - 1) CHR ''/'') (\<lambda>b2. Inr (Some (b2, s - length name - 1)))) =
      Inr (Some (b2, s - length name - 1)) \<and> path_at b2 (s - length name - 1) (CHR ''/'' # name @ text)"
proof -
  let ?p = "s - length name - 1"
  have s: "s + length text + 1 = length b" "drop s b = map Some (text @ [NUL])" "length b \<le> UINT_MAX"
    using assms(1) by (simp_all add: path_at_def)
  let ?b1 = "take (s - length name) b @ map Some name @ drop s b"
  have b1: "memcpy_cells b (s - length name) (map Some name) = Inr ?b1"
    using assms(2) s(1) by (simp add: memcpy_cells_def)
  have len: "length ?b1 = length b" using assms(2) s(1) by simp
  have "?p < length ?b1" using assms(2) s(1) by simp
  moreover have "take (s - length name) b = take ?p b @ [b ! ?p]"
    using assms(2) s(1) take_Suc_conv_app_nth [of ?p b] by (simp add: Suc_diff_Suc)
  moreover have "length (take ?p b) = ?p" using s(1) by simp
  ultimately have "write_cell ?b1 ?p CHR ''/'' = Inr (take ?p b @ Some CHR ''/'' # map Some name @ drop s b)"
    by (simp add: write_cell_def list_update_append)
  moreover have "path_at (take ?p b @ Some CHR ''/'' # map Some name @ drop s b) ?p (CHR ''/'' # name @ text)"
    using assms(2) s by (simp add: path_at_def)
  ultimately show ?thesis using b1 by simp
qed

lemma add_name_ok:
  assumes "path_at buf s text" "0 < length buf" "length text + length name + 2 \<le> UINT_MAX" "\<forall>n. mem n"
  shows "\<exists>buf' s'. add_name mem buf s name = Inr (Some (buf', s')) \<and>
    path_at buf' s' (CHR ''/'' # name @ text) \<and> 0 < length buf'"
proof (cases "s \<le> length name")
  case False
  with prepend_ok [OF assms(1), of name] show ?thesis
    by (auto simp: add_name_def Let_def path_at_def)
next
  case True
  let ?pl = "length buf - s"
  have s: "s + length text + 1 = length buf" "drop s buf = map Some (text @ [NUL])" "length buf \<le> UINT_MAX"
    using assms(1) by (simp_all add: path_at_def)
  then have pl: "?pl = length text + 1" by simp
  from grow_bufsize_ok [of "length buf" "?pl + length name + 1"] s(3) assms(2,3) pl obtain n where
    n: "grow_bufsize (length buf) (?pl + length name + 1) = Some n" "?pl + length name + 1 \<le> n"
      "length buf \<le> n" "n \<le> UINT_MAX" by auto
  let ?new = "buf @ replicate (n - length buf) None"
  have rd: "read_cells ?new (length buf - ?pl) ?pl = Inr (map Some (text @ [NUL]))"
  proof -
    have "drop s ?new = map Some (text @ [NUL]) @ replicate (n - length buf) None" using s by simp
    then have "take ?pl (drop s ?new) = map Some (text @ [NUL])" unfolding pl by simp
    moreover have "length buf - ?pl = s" "s + ?pl \<le> length ?new" using s(1) by simp_all
    ultimately show ?thesis by (simp only: read_cells_def if_True)
  qed
  let ?b = "take (n - ?pl) ?new @ map Some (text @ [NUL])"
  have cp: "memcpy_cells ?new (n - ?pl) (map Some (text @ [NUL])) = Inr ?b"
    using n(2,3) pl by (simp add: memcpy_cells_def)
  have "length (take (n - ?pl) ?new) = n - ?pl" using n(3) by simp
  then have at: "path_at ?b (n - ?pl) text"
    using path_at_append [of "take (n - ?pl) ?new" "text"] n(2,4) pl by (simp only: add.assoc)
  have room: "length name + 1 \<le> n - ?pl" using n(2) by simp
  from prepend_ok [OF at room] obtain b2 where
    b2: "cbind (memcpy_cells ?b (n - ?pl - length name) (map Some name)) (\<lambda>b1.
      cbind (write_cell b1 (n - ?pl - length name - 1) CHR ''/'') (\<lambda>b2. Inr (Some (b2, n - ?pl - length name - 1)))) =
      Inr (Some (b2, n - ?pl - length name - 1))"
      "path_at b2 (n - ?pl - length name - 1) (CHR ''/'' # name @ text)" by blast
  have "add_name mem buf s name = Inr (Some (b2, n - ?pl - length name - 1))"
    using True n(1) assms(4) rd cp room b2(1) by (simp add: add_name_def Let_def not_less)
  moreover have "0 < length b2" using b2(2) by (auto simp: path_at_def)
  ultimately show ?thesis using b2(2) by blast
qed

lemma finish_path_ok:
  assumes "path_at buf s text" "c_string text"
  shows "finish_path buf s = Inr (if text = [] then ''/'' else text)"
  using assms cstr_append_NUL [OF assms(2), of "[]"] by (simp add: finish_path_def path_at_def)

section \<open>Lineages\<close>

text \<open>The nodes a walk can visit: each is the parent of the one before it, and the last one is the
  root, or is detached.\<close>

fun lineage :: "fuse \<Rightarrow> addr list \<Rightarrow> bool" where
  "lineage f [] \<longleftrightarrow> False"
| "lineage f [a] \<longleftrightarrow> (case f_heap f a of None \<Rightarrow> False
     | Some n \<Rightarrow> n_nodeid n = FUSE_ROOT_ID \<or> n_name n = None \<or> n_parent n = None)"
| "lineage f (a # b # as) \<longleftrightarrow> (case f_heap f a of None \<Rightarrow> False
     | Some n \<Rightarrow> n_nodeid n \<noteq> FUSE_ROOT_ID \<and> n_name n \<noteq> None \<and> n_parent n = Some b) \<and> lineage f (b # as)"

text \<open>The path of the first node of a lineage.\<close>

fun path_of :: "fuse \<Rightarrow> addr list \<Rightarrow> string" where
  "path_of f [] = []"
| "path_of f (a # as) = (if as = [] then [] else path_of f as @ CHR ''/'' # name_of f a)"

definition lock1 :: "addr \<Rightarrow> fuse \<Rightarrow> fuse" where
  "lock1 a = update a (\<lambda>n. n\<lparr>n_treelock := n_treelock n + 1\<rparr>)"

definition lock_of :: "fuse \<Rightarrow> addr \<Rightarrow> int" where
  "lock_of f a = n_treelock (node_at f a)"

text \<open>Changing locks changes neither keys nor lineages.\<close>

lemma heap_update: "f_heap (update a g f) x = (if x = a then map_option g (f_heap f a) else f_heap f x)"
  by (simp add: update_def)

lemma node_at_relock:
  "node_at (update a (\<lambda>n. n\<lparr>n_treelock := h n\<rparr>) f) x =
     (if x = a \<and> f_heap f a \<noteq> None then (node_at f a)\<lparr>n_treelock := h (node_at f a)\<rparr> else node_at f x)"
  by (auto simp: node_at_def heap_update split: option.split)

lemma relock_keys [simp]:
  "ino_of (update a (\<lambda>n. n\<lparr>n_treelock := h n\<rparr>) f) x = ino_of f x"
  "name_of (update a (\<lambda>n. n\<lparr>n_treelock := h n\<rparr>) f) x = name_of f x"
  by (simp_all add: ino_of_def name_of_def node_at_relock)

lemma update_frame [simp]:
  "f_ids (update a g f) = f_ids f" "f_names (update a g f) = f_names f" "f_fresh (update a g f) = f_fresh f"
  "f_lockq (update a g f) = f_lockq f"
  by (simp_all add: update_def)

lemma relock_find_id [simp]: "find_id (update a (\<lambda>n. n\<lparr>n_treelock := h n\<rparr>) f) ino = find_id f ino"
proof -
  have "ino_of (update a (\<lambda>n. n\<lparr>n_treelock := h n\<rparr>) f) = ino_of f" by (rule ext) simp
  then show ?thesis by (simp add: find_id_def)
qed

lemma relock_get_node [simp]: "get_node (update a (\<lambda>n. n\<lparr>n_treelock := h n\<rparr>) f) ino = get_node f ino"
  by (simp add: get_node_def)

lemma relock_lineage [simp]:
  "lineage (update a (\<lambda>n. n\<lparr>n_treelock := h n\<rparr>) f) as = lineage f as"
  by (induction f as rule: lineage.induct) (auto simp: heap_update split: option.splits)

lemma relock_path_of [simp]:
  "path_of (update a (\<lambda>n. n\<lparr>n_treelock := h n\<rparr>) f) as = path_of f as"
  by (induction as) simp_all

lemma update_update: "update a g (update a h f) = update a (g \<circ> h) f"
  by (cases "f_heap f a") (simp_all add: update_def)

lemma update_id: "f_heap f a = Some n \<Longrightarrow> g n = n \<Longrightarrow> update a g f = f"
  by (auto simp: update_def intro!: fuse.equality ext)

lemma update_cong: "f_heap f a = Some n \<Longrightarrow> g n = h n \<Longrightarrow> update a g f = update a h f"
  by (auto simp: update_def)

lemma update_swap: "a \<noteq> b \<Longrightarrow> update a g (update b h f) = update b h (update a g f)"
  by (auto simp: update_def fun_upd_twist)

lemma lock1_heap_other: "x \<noteq> a \<Longrightarrow> f_heap (lock1 a f) x = f_heap f x"
  by (simp add: lock1_def heap_update)

lemma fold_lock1_heap_other: "x \<notin> set as \<Longrightarrow> f_heap (fold lock1 as f) x = f_heap f x"
  by (induction as arbitrary: f) (simp_all add: lock1_heap_other)

lemma fold_lock1_lineage [simp]: "lineage (fold lock1 as f) bs = lineage f bs"
  by (induction as arbitrary: f) (simp_all add: lock1_def)

lemma fold_lock1_get_node [simp]: "get_node (fold lock1 as f) ino = get_node f ino"
  by (induction as arbitrary: f) (simp_all add: lock1_def)

lemma fold_lock1_fresh [simp]: "f_fresh (fold lock1 as f) = f_fresh f"
  by (induction as arbitrary: f) (simp_all add: lock1_def)

lemma lineage_head: "lineage f (a # as) \<Longrightarrow> \<exists>n. f_heap f a = Some n"
  by (cases as) (auto split: option.splits)

section \<open>The walk up and down\<close>

text \<open>A walk with locks stops at the root, at a detached node, or at the first node that is locked for
  writing; it has then locked exactly the nodes before that one.\<close>

lemma path_walk_lineage:
  assumes "\<forall>n. mem n"
  shows "lineage f as \<Longrightarrow> distinct as \<Longrightarrow> length as \<le> fuel \<Longrightarrow> path_at buf s text \<Longrightarrow> 0 < length buf \<Longrightarrow>
    length (path_of f as) + length text + 1 \<le> UINT_MAX \<Longrightarrow>
    \<exists>k err b s'. path_walk mem True fuel f (hd as) buf s = Inr (err, fold lock1 (take k as) f, as ! k, b, s') \<and>
      k < length as \<and> (\<forall>i < k. 0 \<le> lock_of f (as ! i)) \<and>
      (err = 0 \<longrightarrow> k = length as - 1 \<and> ino_of f (last as) = FUSE_ROOT_ID \<and> path_at b s' (path_of f as @ text)) \<and>
      (err \<noteq> 0 \<longrightarrow> (err = - EAGAIN \<and> lock_of f (as ! k) < 0) \<or>
        (err = - ESTALE \<and> k = length as - 1 \<and> ino_of f (last as) \<noteq> FUSE_ROOT_ID))"
proof (induction as arbitrary: f fuel buf s "text")
  case (Cons a as)
  obtain fuel' where fuel: "fuel = Suc fuel'" using Cons.prems(3) by (cases fuel) auto
  from lineage_head [OF Cons.prems(1)] obtain n where n: "f_heap f a = Some n" by blast
  have nd: "deref f a = Inr n" "ino_of f a = n_nodeid n" "lock_of f a = n_treelock n"
    using n by (simp_all add: deref_def ino_of_def lock_of_def node_at_def)
  show ?case
  proof (cases as)
    case Nil
    with Cons.prems(1) n have "n_nodeid n = FUSE_ROOT_ID \<or> n_name n = None \<or> n_parent n = None" by simp
    then show ?thesis
      using Nil nd fuel Cons.prems(4)
      by (cases "n_nodeid n = FUSE_ROOT_ID")
        (auto simp: errno_defs intro!: exI [of _ 0] split: option.split)
  next
    case (Cons b bs)
    with Cons.prems(1) n obtain nm where nm: "n_nodeid n \<noteq> FUSE_ROOT_ID" "n_name n = Some nm"
      "n_parent n = Some b" and lin: "lineage f as" by auto
    have name: "name_of f a = nm" using n nm(2) by (simp add: name_of_def node_at_def)
    have pe: "path_of f (a # as) = path_of f as @ CHR ''/'' # nm" using Cons name by simp
    have size: "length text + length nm + 2 \<le> UINT_MAX" using Cons.prems(6) unfolding pe by simp
    from add_name_ok [OF Cons.prems(4,5) size assms] obtain buf1 s1 where
      b1: "add_name mem buf s nm = Inr (Some (buf1, s1))" "path_at buf1 s1 (CHR ''/'' # nm @ text)" "0 < length buf1"
      by blast
    show ?thesis
    proof (cases "n_treelock n < 0")
      case True
      then show ?thesis
        using nd nm fuel b1(1)
        by (intro exI [of _ "0 :: nat"], intro exI [of _ "- EAGAIN"], intro exI [of _ buf1], intro exI [of _ s1])
          (simp add: errno_defs)
    next
      case False
      let ?f = "lock1 a f"
      have len: "length (path_of ?f as) + length (CHR ''/'' # nm @ text) + 1 \<le> UINT_MAX"
        using Cons.prems(6) unfolding pe by (simp add: lock1_def del: path_of.simps)
      have "lineage ?f as" "distinct as" "length as \<le> fuel'"
        using lin Cons.prems(2,3) fuel by (simp_all add: lock1_def)
      from Cons.IH [OF this b1(2,3) len] obtain k err b' s' where
        w: "path_walk mem True fuel' ?f (hd as) buf1 s1 = Inr (err, fold lock1 (take k as) ?f, as ! k, b', s')"
          "k < length as" "\<forall>i < k. 0 \<le> lock_of ?f (as ! i)"
          "err = 0 \<longrightarrow> k = length as - 1 \<and> ino_of ?f (last as) = FUSE_ROOT_ID \<and>
             path_at b' s' (path_of ?f as @ CHR ''/'' # nm @ text)"
          "err \<noteq> 0 \<longrightarrow> (err = - EAGAIN \<and> lock_of ?f (as ! k) < 0) \<or>
             (err = - ESTALE \<and> k = length as - 1 \<and> ino_of ?f (last as) \<noteq> FUSE_ROOT_ID)" by blast
      have other: "lock_of ?f x = lock_of f x" if "x \<in> set as" for x
      proof -
        have "x \<noteq> a" using that Cons.prems(2) by auto
        then show ?thesis by (simp add: lock_of_def node_at_def lock1_heap_other)
      qed
      have "path_walk mem True fuel f (hd (a # as)) buf s =
          Inr (err, fold lock1 (take (Suc k) (a # as)) f, (a # as) ! Suc k, b', s')"
        using nd nm fuel b1(1) False w(1) Cons by (simp add: lock1_def)
      moreover have "\<forall>i < Suc k. 0 \<le> lock_of f ((a # as) ! i)"
        using w(2,3) other False nd(3) by (auto simp: less_Suc_eq_0_disj)
      moreover have "ino_of ?f x = ino_of f x" "path_of ?f as = path_of f as" for x
        by (simp_all add: lock1_def)
      moreover have "as \<noteq> []" using Cons by simp
      ultimately show ?thesis
        using w(2,4,5) other name by (intro exI [of _ "Suc k"] exI [of _ err] exI [of _ b'] exI [of _ s']) auto
    qed
  qed
qed simp

lemma fold_lock1_swap:
  "a \<notin> set as \<Longrightarrow> update a g (fold lock1 as f) = fold lock1 as (update a g f)"
proof (induction as arbitrary: f)
  case (Cons b as)
  then have "a \<noteq> b" by auto
  then have "update a g (lock1 b f) = lock1 b (update a g f)" by (simp add: lock1_def update_swap)
  with Cons show ?case by simp
qed simp

lemma lock1_undo:
  assumes "f_heap f a = Some n"
  shows "update a (\<lambda>m. m\<lparr>n_treelock := n_treelock n\<rparr>) (lock1 a f) = f"
  unfolding lock1_def update_update using assms by (intro update_id) auto

lemma unlock_walk_undoes:
  "lineage f as \<Longrightarrow> distinct as \<Longrightarrow> k < length as \<Longrightarrow> k < fuel \<Longrightarrow> (\<forall>i < k. 0 \<le> lock_of f (as ! i)) \<Longrightarrow>
    stop = Some (as ! k) \<or> (stop = None \<and> k = length as - 1 \<and> ino_of f (last as) = FUSE_ROOT_ID) \<Longrightarrow>
    unlock_walk fuel (fold lock1 (take k as) f) (Some (hd as)) stop = Inr f"
proof (induction as arbitrary: f fuel k)
  case (Cons a as)
  obtain fuel' where fuel: "fuel = Suc fuel'" using Cons.prems(4) by (cases fuel) auto
  from lineage_head [OF Cons.prems(1)] obtain n where n: "f_heap f a = Some n" by blast
  show ?case
  proof (cases k)
    case 0
    with Cons.prems(6) consider "stop = Some a" | "stop = None" "as = []" "ino_of f a = FUSE_ROOT_ID" by force
    then show ?thesis
    proof cases
      case 2
      with 0 fuel n show ?thesis by (simp add: deref_def ino_of_def node_at_def)
    qed (use 0 fuel in simp)
  next
    case (Suc j)
    then obtain b bs where as: "as = b # bs" using Cons.prems(3) by (cases as) auto
    with Cons.prems(1) n have nm: "n_nodeid n \<noteq> FUSE_ROOT_ID" "n_parent n = Some b" and lin: "lineage f as"
      by auto
    let ?g = "fold lock1 (take j as) (lock1 a f)"
    let ?n = "n\<lparr>n_treelock := n_treelock n + 1\<rparr>"
    have a: "a \<notin> set (take j as)" "a \<noteq> as ! j" "j < length as"
      using Cons.prems(2,3) Suc by (auto dest: in_set_takeD)
    then have "f_heap ?g a = Some ?n" using n by (simp add: fold_lock1_heap_other lock1_def heap_update)
    then have d: "deref ?g a = Inr ?n" by (simp add: deref_def)
    have t: "0 \<le> n_treelock n" using Cons.prems(5) Suc n by (auto simp: lock_of_def node_at_def)
    have stop: "Some a \<noteq> stop" using Cons.prems(6) Suc a by auto
    have undo: "update a (\<lambda>m. m\<lparr>n_treelock := n_treelock n\<rparr>) ?g = fold lock1 (take j as) f"
      using fold_lock1_swap [OF a(1)] lock1_undo [OF n] by simp
    have lock: "\<forall>i < j. 0 \<le> lock_of f (as ! i)" using Cons.prems(5) Suc by auto
    have st: "stop = Some (as ! j) \<or> (stop = None \<and> j = length as - 1 \<and> ino_of f (last as) = FUSE_ROOT_ID)"
      using Cons.prems(6) Suc as by auto
    have dj: "distinct as" "j < fuel'" using Cons.prems(2,4) Suc fuel by auto
    from Cons.IH [OF lin dj(1) a(3) dj(2) lock st]
    have "unlock_walk fuel' (fold lock1 (take j as) f) (Some b) stop = Inr f" using as by simp
    then show ?thesis
      using Suc fuel d nm stop t undo
      by (simp add: TREELOCK_WAIT_OFFSET_def TREELOCK_WRITE_def INT_MIN_def Let_def)
  qed
qed simp

lemma unlock_path_undoes:
  assumes "get_node f nodeid = Inr (hd as)" "lineage f as" "distinct as" "k < length as" "length as \<le> f_fresh f + 1"
    "\<forall>i < k. 0 \<le> lock_of f (as ! i)"
    "stop = Some (as ! k) \<or> (stop = None \<and> k = length as - 1 \<and> ino_of f (last as) = FUSE_ROOT_ID)"
  shows "unlock_path (fold lock1 (take k as) f) nodeid None stop = Inr f"
  using assms unlock_walk_undoes [OF assms(2-4), of "f_fresh f + 1" stop]
  by (simp add: unlock_path_def del: unlock_walk.simps)

section \<open>Properties\<close>

lemma empty_buffer: "path_at (replicate 255 None @ [Some NUL]) 255 []"
  by (simp add: path_at_def)

definition tail_text :: "string option \<Rightarrow> string" where
  "tail_text name = (case name of None \<Rightarrow> [] | Some nm \<Rightarrow> CHR ''/'' # nm)"

lemma start_buffer:
  assumes "\<forall>n. mem n" "length (tail_text name) + 1 \<le> UINT_MAX"
  shows "\<exists>buf s. (case name of None \<Rightarrow> Inr (Some (replicate 255 None @ [Some NUL], 255))
      | Some nm \<Rightarrow> add_name mem (replicate 255 None @ [Some NUL]) 255 nm) = Inr (Some (buf, s)) \<and>
    path_at buf s (tail_text name) \<and> 0 < length buf"
proof (cases name)
  case None
  then show ?thesis using empty_buffer by (simp add: tail_text_def)
next
  case (Some nm)
  with add_name_ok [OF empty_buffer _ _ assms(1), of nm] assms(2) show ?thesis by (simp add: tail_text_def)
qed

text \<open>A request's walk without a write lock, in one equation.\<close>

lemma try_get_path_walk:
  assumes mem: "\<forall>n. mem n" and node: "get_node f nodeid = Inr (hd as)" and lin: "lineage f as" "distinct as"
    and fuel: "length as \<le> f_fresh f + 1"
    and len: "length (path_of f as) + length (tail_text name) + 1 \<le> UINT_MAX"
  shows "\<exists>k err b s'. try_get_path mem f nodeid name False True =
      (if err \<noteq> 0 then Inr (err, None, f)
       else cbind (finish_path b s') (\<lambda>path. Inr (0, Some (path, None), fold lock1 (take k as) f))) \<and>
    (err = 0 \<longrightarrow> k = length as - 1 \<and> ino_of f (last as) = FUSE_ROOT_ID \<and>
       path_at b s' (path_of f as @ tail_text name) \<and> (\<forall>i < k. 0 \<le> lock_of f (as ! i))) \<and>
    (err \<noteq> 0 \<longrightarrow> (err = - EAGAIN \<and> (\<exists>a \<in> set as. lock_of f a < 0)) \<or>
        (err = - ESTALE \<and> ino_of f (last as) \<noteq> FUSE_ROOT_ID))"
proof -
  have "length (tail_text name) + 1 \<le> UINT_MAX" using len by simp
  from start_buffer [OF mem this] obtain buf s where
    b: "(case name of None \<Rightarrow> Inr (Some (replicate 255 None @ [Some NUL], 255))
      | Some nm \<Rightarrow> add_name mem (replicate 255 None @ [Some NUL]) 255 nm) = Inr (Some (buf, s))"
      "path_at buf s (tail_text name)" "0 < length buf" by blast
  from path_walk_lineage [OF mem lin fuel b(2,3) len] obtain k err b' s' where
    w: "path_walk mem True (f_fresh f + 1) f (hd as) buf s = Inr (err, fold lock1 (take k as) f, as ! k, b', s')"
      "k < length as" "\<forall>i < k. 0 \<le> lock_of f (as ! i)"
      "err = 0 \<longrightarrow> k = length as - 1 \<and> ino_of f (last as) = FUSE_ROOT_ID \<and>
         path_at b' s' (path_of f as @ tail_text name)"
      "err \<noteq> 0 \<longrightarrow> (err = - EAGAIN \<and> lock_of f (as ! k) < 0) \<or>
         (err = - ESTALE \<and> k = length as - 1 \<and> ino_of f (last as) \<noteq> FUSE_ROOT_ID)" by blast
  have undo: "unlock_path (fold lock1 (take k as) f) nodeid None (Some (as ! k)) = Inr f"
    by (rule unlock_path_undoes [OF node lin w(2) fuel w(3)]) simp
  have "try_get_path mem f nodeid name False True =
      (if err \<noteq> 0 then Inr (err, None, f)
       else cbind (finish_path b' s') (\<lambda>path. Inr (0, Some (path, None), fold lock1 (take k as) f)))"
    using mem b(1) node w(1) undo by (simp add: try_get_path_def Let_def)
  moreover have "lock_of f (as ! k) < 0 \<Longrightarrow> \<exists>a \<in> set as. lock_of f a < 0" using w(2) by auto
  ultimately show ?thesis using w(3-5) by blast
qed

lemma fold_lock1_lock_of:
  assumes "distinct as" "\<forall>a \<in> set as. f_heap f a \<noteq> None"
  shows "lock_of (fold lock1 as f) x = lock_of f x + (if x \<in> set as then 1 else 0)"
  using assms
proof (induction as arbitrary: f)
  case (Cons a as)
  have "\<forall>b \<in> set as. f_heap (lock1 a f) b \<noteq> None" using Cons.prems(2) by (simp add: lock1_def heap_update)
  with Cons have "lock_of (fold lock1 (a # as) f) x = lock_of (lock1 a f) x + (if x \<in> set as then 1 else 0)" by simp
  moreover have "lock_of (lock1 a f) x = lock_of f x + (if x = a then 1 else 0)"
    using Cons.prems(2) by (auto simp: lock_of_def lock1_def node_at_relock)
  ultimately show ?case using Cons.prems(1) by auto
qed simp

lemma lineage_live: "lineage f as \<Longrightarrow> a \<in> set as \<Longrightarrow> f_heap f a \<noteq> None"
  by (induction f as rule: lineage.induct) (auto split: option.splits)

lemma try_get_path_ok:
  assumes "\<forall>n. mem n" "get_node f nodeid = Inr (hd as)" "lineage f as" "distinct as" "length as \<le> f_fresh f + 1"
    and "ino_of f (last as) = FUSE_ROOT_ID" "\<forall>a \<in> set as. 0 \<le> lock_of f a"
    and "c_string (path_of f as @ tail_text name)" "length (path_of f as @ tail_text name) < UINT_MAX"
  shows "try_get_path mem f nodeid name False True =
      Inr (0, Some (if path_of f as @ tail_text name = [] then ''/'' else path_of f as @ tail_text name, None),
        fold lock1 (butlast as) f)"
    and "unlock_path (fold lock1 (butlast as) f) nodeid None None = Inr f"
proof -
  have len: "length (path_of f as) + length (tail_text name) + 1 \<le> UINT_MAX" using assms(9) by simp
  from try_get_path_walk [OF assms(1-5) len] obtain k err b s' where
    w: "try_get_path mem f nodeid name False True =
      (if err \<noteq> 0 then Inr (err, None, f)
       else cbind (finish_path b s') (\<lambda>path. Inr (0, Some (path, None), fold lock1 (take k as) f)))"
      "err = 0 \<longrightarrow> k = length as - 1 \<and> ino_of f (last as) = FUSE_ROOT_ID \<and>
         path_at b s' (path_of f as @ tail_text name) \<and> (\<forall>i < k. 0 \<le> lock_of f (as ! i))"
      "err \<noteq> 0 \<longrightarrow> (err = - EAGAIN \<and> (\<exists>a \<in> set as. lock_of f a < 0)) \<or>
         (err = - ESTALE \<and> ino_of f (last as) \<noteq> FUSE_ROOT_ID)" by blast
  have err: "err = 0" using w(3) assms(6,7) by force
  have k: "k = length as - 1" "path_at b s' (path_of f as @ tail_text name)" "\<forall>i < k. 0 \<le> lock_of f (as ! i)"
    using w(2) err by auto
  have ne: "k < length as" using assms(3) k(1) by (cases as) auto
  have bl: "take k as = butlast as" using k(1) by (simp add: butlast_conv_take)
  have "finish_path b s' = Inr (if path_of f as @ tail_text name = [] then ''/'' else path_of f as @ tail_text name)"
    using finish_path_ok [OF k(2) assms(8)] .
  then show "try_get_path mem f nodeid name False True =
      Inr (0, Some (if path_of f as @ tail_text name = [] then ''/'' else path_of f as @ tail_text name, None),
        fold lock1 (butlast as) f)"
    using w(1) err bl by simp
  show "unlock_path (fold lock1 (butlast as) f) nodeid None None = Inr f"
    using unlock_path_undoes [OF assms(2-4) ne assms(5) k(3), of None] k(1) assms(6) bl by simp
qed

lemma try_get_path_stale:
  assumes "\<forall>n. mem n" "get_node f nodeid = Inr (hd as)" "lineage f as" "distinct as" "length as \<le> f_fresh f + 1"
    and "ino_of f (last as) \<noteq> FUSE_ROOT_ID" "\<forall>a \<in> set as. 0 \<le> lock_of f a"
    and "length (path_of f as @ tail_text name) < UINT_MAX"
  shows "try_get_path mem f nodeid name False True = Inr (- ESTALE, None, f)"
proof -
  have len: "length (path_of f as) + length (tail_text name) + 1 \<le> UINT_MAX" using assms(8) by simp
  from try_get_path_walk [OF assms(1-5) len] obtain k err b s' where
    w: "try_get_path mem f nodeid name False True =
      (if err \<noteq> 0 then Inr (err, None, f)
       else cbind (finish_path b s') (\<lambda>path. Inr (0, Some (path, None), fold lock1 (take k as) f)))"
      "err = 0 \<longrightarrow> ino_of f (last as) = FUSE_ROOT_ID"
      "err \<noteq> 0 \<longrightarrow> (err = - EAGAIN \<and> (\<exists>a \<in> set as. lock_of f a < 0)) \<or> err = - ESTALE" by blast
  have "err \<noteq> 0" using w(2) assms(6) by blast
  moreover have "\<not> (\<exists>a \<in> set as. lock_of f a < 0)" using assms(7) by force
  ultimately have "err \<noteq> 0" "err = - ESTALE" using w(3) by blast+
  then show ?thesis using w(1) by simp
qed

text \<open>C34: for a node connected to the root by unlocked ancestors, the path computed is the names from
  the root down, each after a slash (a single slash for the root), however long, and every node
  below the root on the way is read-locked once more. Releasing the path restores the state exactly.\<close>

theorem path_and_locks:
  assumes "\<forall>n. mem n" "get_node f nodeid = Inr (hd as)" "lineage f as" "distinct as" "length as \<le> f_fresh f + 1"
    and "ino_of f (last as) = FUSE_ROOT_ID" "\<forall>a \<in> set as. 0 \<le> lock_of f a"
    and "c_string (path_of f as @ tail_text name)" "length (path_of f as @ tail_text name) < UINT_MAX"
  shows "\<exists>f'. try_get_path mem f nodeid name False True =
      Inr (0, Some (if path_of f as @ tail_text name = [] then ''/'' else path_of f as @ tail_text name, None), f') \<and>
    (\<forall>x. lock_of f' x = lock_of f x + (if x \<in> set (butlast as) then 1 else 0)) \<and>
    unlock_path f' nodeid None None = Inr f"
proof -
  have "\<forall>a \<in> set (butlast as). f_heap f a \<noteq> None"
    using lineage_live [OF assms(3)] by (auto dest: in_set_butlastD)
  with try_get_path_ok [OF assms] fold_lock1_lock_of [of "butlast as" f] assms(4) show ?thesis
    by (intro exI [of _ "fold lock1 (butlast as) f"]) (simp add: distinct_butlast)
qed

text \<open>When an ancestor is locked for writing, or the node is no longer connected to the root, the
  request fails, with a request to try again or a stale-handle error, and every lock taken on the way
  is released: the state is as before.\<close>

theorem failed_path_releases:
  assumes "\<forall>n. mem n" "get_node f nodeid = Inr (hd as)" "lineage f as" "distinct as" "length as \<le> f_fresh f + 1"
    and "(\<exists>a \<in> set (butlast as). lock_of f a < 0) \<or> ino_of f (last as) \<noteq> FUSE_ROOT_ID"
    and "length (path_of f as @ tail_text name) < UINT_MAX"
  shows "\<exists>err. try_get_path mem f nodeid name False True = Inr (err, None, f) \<and> (err = - EAGAIN \<or> err = - ESTALE)"
proof -
  have len: "length (path_of f as) + length (tail_text name) + 1 \<le> UINT_MAX" using assms(7) by simp
  from try_get_path_walk [OF assms(1-5) len] obtain k err b s' where
    w: "try_get_path mem f nodeid name False True =
      (if err \<noteq> 0 then Inr (err, None, f)
       else cbind (finish_path b s') (\<lambda>path. Inr (0, Some (path, None), fold lock1 (take k as) f)))"
      "err = 0 \<longrightarrow> k = length as - 1 \<and> ino_of f (last as) = FUSE_ROOT_ID \<and> (\<forall>i < k. 0 \<le> lock_of f (as ! i))"
      "err \<noteq> 0 \<longrightarrow> err = - EAGAIN \<or> err = - ESTALE" by blast
  have "err \<noteq> 0"
  proof
    assume "err = 0"
    with w(2) assms(6) obtain a where "a \<in> set (butlast as)" "lock_of f a < 0"
      "\<forall>i < length as - 1. 0 \<le> lock_of f (as ! i)" by auto
    then show False by (auto simp: in_set_conv_nth nth_butlast)
  qed
  with w(1,3) show ?thesis by auto
qed

section \<open>A small tree\<close>

definition sample_node :: "fuse_ino_t \<Rightarrow> addr option \<Rightarrow> string option \<Rightarrow> int \<Rightarrow> node" where
  "sample_node ino p nm t = node_zero\<lparr>n_nodeid := ino, n_parent := p, n_name := nm, n_treelock := t\<rparr>"

text \<open>The root, a directory \<^verbatim>\<open>d\<close> with lock \<open>t\<close> and a file \<^verbatim>\<open>x\<close> in it.\<close>

definition sample_base :: "int \<Rightarrow> fuse" where
  "sample_base t = \<lparr>f_heap = [0 \<mapsto> sample_node 1 None None 0, 1 \<mapsto> sample_node 2 (Some 0) (Some ''d'') t,
     2 \<mapsto> sample_node 3 (Some 1) (Some ''x'') 0], f_fresh = 3, f_names = node_table_init, f_ids = node_table_init,
     f_lru = [], f_ctr = 3, f_generation = 0, f_remember = 0, f_lockq = [], f_nullpath_ok = False\<rparr>"

definition sample_tree :: "int \<Rightarrow> fuse" where
  "sample_tree t = hash_id (\<lambda>_. True) (sample_base t) 2"

lemma sample_tree_simps [simp]:
  "f_heap (sample_tree t) = f_heap (sample_base t)" "f_fresh (sample_tree t) = 3"
  "node_at (sample_tree t) a = node_at (sample_base t) a" "ino_of (sample_tree t) a = ino_of (sample_base t) a"
  by (simp_all add: sample_tree_def hash_id_def node_at_def ino_of_def) (simp add: sample_base_def)

lemma sample_get_node: "get_node (sample_tree t) 3 = Inr 2"
proof -
  let ?raw = "id_key (sample_base t)"
  have "f_ids (sample_base t) = node_table_init" by (simp add: sample_base_def)
  then have ids: "f_ids (sample_tree t) = hash_node (\<lambda>_. True) ?raw node_table_init 2"
    by (simp add: sample_tree_def hash_id_def)
  have t: "tab_ok ?raw (f_ids (sample_tree t))" "elems (f_ids (sample_tree t)) = {2}"
    using hash_node_ok [OF idx_ok_init(1) [of ?raw], of 2 "\<lambda>_. True"] unfolding ids
    by (auto simp: idx_ok_def idx_ok_init(2))
  have "ino_of (sample_base t) 2 = 3" by (simp add: ino_of_def node_at_def sample_base_def sample_node_def)
  then have "find (\<lambda>x. ino_of (sample_base t) x = 3) (t_array (f_ids (sample_tree t)) !
      slot (t_size (f_ids (sample_tree t))) (t_split (f_ids (sample_tree t))) (id_raw 3)) = Some 2"
    using find_in_bucket [OF t(1), of "\<lambda>x. ino_of (sample_base t) x = 3" "id_raw 3" 2] t(2) by simp
  moreover have "ino_of (sample_tree t) = ino_of (sample_base t)" by (rule ext) simp
  ultimately show ?thesis by (simp add: get_node_def find_id_def get_node_nocheck_def id_hash_def)
qed

lemma sample_lineage: "lineage (sample_tree t) [2, 1, 0]"
  by (simp add: sample_base_def sample_node_def FUSE_ROOT_ID_def)

lemma sample_path: "path_of (sample_tree t) [2, 1, 0] = ''/d/x''"
  by (simp add: name_of_def) (simp add: node_at_def sample_base_def sample_node_def)

lemma sample_locks:
  "lock_of (sample_tree t) 0 = 0" "lock_of (sample_tree t) 1 = t" "lock_of (sample_tree t) 2 = 0"
  "ino_of (sample_tree t) 0 = FUSE_ROOT_ID"
  by (simp_all add: lock_of_def ino_of_def) (simp_all add: node_at_def sample_base_def sample_node_def FUSE_ROOT_ID_def)

theorem path_and_locks_witness:
  "\<exists>f'. try_get_path (\<lambda>_. True) (sample_tree 0) 3 (Some ''y'') False True =
      Inr (0, Some (''/d/x/y'', None), f') \<and> unlock_path f' 3 None None = Inr (sample_tree 0)"
proof -
  let ?f = "sample_tree 0" and ?as = "[2, 1, 0 :: addr]"
  have t: "path_of ?f ?as @ tail_text (Some ''y'') = ''/d/x/y''"
    unfolding sample_path by (simp add: tail_text_def)
  have node: "get_node ?f 3 = Inr (hd ?as)" using sample_get_node by simp
  have root: "ino_of ?f (last ?as) = FUSE_ROOT_ID" using sample_locks(4) by simp
  have locks: "\<forall>a \<in> set ?as. 0 \<le> lock_of ?f a" using sample_locks(1-3) [of 0] by simp
  have text_ok: "c_string (path_of ?f ?as @ tail_text (Some ''y''))"
    "length (path_of ?f ?as @ tail_text (Some ''y'')) < UINT_MAX"
    unfolding t by (simp_all add: c_string_def)
  have plain: "\<forall>n. (\<lambda>_. True) n" "distinct ?as" "length ?as \<le> f_fresh ?f + 1" by simp_all
  from path_and_locks [OF plain(1) node sample_lineage plain(2,3) root locks text_ok] show ?thesis
    unfolding t by auto
qed

theorem failed_path_releases_witness:
  "\<exists>err. try_get_path (\<lambda>_. True) (sample_tree (-1)) 3 None False True = Inr (err, None, sample_tree (-1)) \<and>
     (err = - EAGAIN \<or> err = - ESTALE)"
proof (rule failed_path_releases [of _ _ _ "[2, 1, 0]"])
  show "(\<exists>a \<in> set (butlast [2, 1, 0]). lock_of (sample_tree (-1)) a < 0) \<or>
      ino_of (sample_tree (-1)) (last [2, 1, 0]) \<noteq> FUSE_ROOT_ID"
    using sample_locks(2) [of "-1"] by simp
  show "length (path_of (sample_tree (-1)) [2, 1, 0] @ tail_text None) < UINT_MAX"
    using sample_path [of "-1"] by (simp add: tail_text_def)
qed (use sample_get_node sample_lineage in simp_all)

end
