(* ===== verification/Fuse_Lib_Correct.thy ===== *)
theory Fuse_Lib_Correct
  imports Fuse_Dir Node_Path_Correct
begin

text \<open>
  What a request does between the kernel and the file system, for any table of callbacks: with
  the path of its node at hand, a handler is the callback applied to that path, and the tree of
  nodes is afterwards exactly what it was. The handlers rely on the paths only through the laws
  of the locale \<open>path_provider\<close>, which the functions of \<open>Node_Path\<close> satisfy.
\<close>

section \<open>Paths as a service\<close>

text \<open>Acquiring a path that is ready gives the path and a state from which releasing it leads back.\<close>

locale path_provider =
  fixes ready :: "fuse \<Rightarrow> fuse_ino_t \<Rightarrow> string \<Rightarrow> bool"
    and acquire :: "fuse \<Rightarrow> fuse_ino_t \<Rightarrow> cerror + path_reply \<times> fuse"
    and release :: "fuse \<Rightarrow> fuse_ino_t \<Rightarrow> string option \<Rightarrow> cerror + fuse"
  assumes acquire_release:
    "ready f ino p \<Longrightarrow> \<exists>f'. acquire f ino = Inr (Answer 0 [(p, None)], f') \<and> release f' ino (Some p) = Inr f"
begin

text \<open>A handler that makes one call and releases the path comes down to the call.\<close>

lemma one_call:
  assumes "ready (l_f l) ino p"
    and "\<And>m. body 0 [(p, None)] m =
      cbind (user_fill g m) (\<lambda>(r, x, m1). cbind (on_tree (\<lambda>f. release f ino (Some p)) m1) (\<lambda>m2. fin r x m2))"
  shows "with_path (\<lambda>f. acquire f ino) body l =
    cbind (g (l_user l)) (\<lambda>(r, x, s). cbind (fin r x (l\<lparr>l_user := s\<rparr>)) (\<lambda>(rep, l1). Inr (Replied rep, l1)))"
proof -
  from acquire_release [OF assms(1)] obtain f' where
    f': "acquire (l_f l) ino = Inr (Answer 0 [(p, None)], f')" "release f' ino (Some p) = Inr (l_f l)" by blast
  have "l\<lparr>l_f := f', l_user := s, l_f := l_f l\<rparr> = l\<lparr>l_user := s\<rparr>" for s by simp
  with f' show ?thesis
    by (cases "g (l_user l)") (simp_all add: with_path_def assms(2) user_fill_def on_tree_def split: prod.split)
qed

end

definition standing :: "fuse \<Rightarrow> fuse_ino_t \<Rightarrow> string \<Rightarrow> bool" where
  "standing f ino p \<longleftrightarrow> f_lockq f = [] \<and> (\<exists>as. get_node f ino = Inr (hd as) \<and> lineage f as \<and> distinct as \<and>
     length as \<le> f_fresh f + 1 \<and> ino_of f (last as) = FUSE_ROOT_ID \<and> (\<forall>a \<in> set as. 0 \<le> lock_of f a) \<and>
     c_string (path_of f as) \<and> length (path_of f as) < UINT_MAX \<and>
     p = (if path_of f as = [] then ''/'' else path_of f as))"

lemma fold_lock1_lockq [simp]: "f_lockq (fold lock1 as f) = f_lockq f"
  by (induction as arbitrary: f) (simp_all add: lock1_def)

lemma unlock_walk_lockq: "unlock_walk n f a b = Inr f' \<Longrightarrow> f_lockq f' = f_lockq f"
  by (induction n f a b rule: unlock_walk.induct)
    (auto simp: Let_def split: if_splits option.splits elim!: cbind_InrE)

lemma standing_path:
  assumes "\<forall>n. mem n" "standing f ino p"
  shows "\<exists>f'. try_get_path mem f ino None False True = Inr (0, Some (p, None), f') \<and>
    free_path mem f' ino (Some p) = Inr f"
proof -
  from assms(2) obtain as where as: "get_node f ino = Inr (hd as)" "lineage f as" "distinct as"
    "length as \<le> f_fresh f + 1" "ino_of f (last as) = FUSE_ROOT_ID" "\<forall>a \<in> set as. 0 \<le> lock_of f a"
    "c_string (path_of f as @ tail_text None)" "length (path_of f as @ tail_text None) < UINT_MAX"
    and p: "p = (if path_of f as = [] then ''/'' else path_of f as)" "f_lockq f = []"
    by (auto simp: standing_def tail_text_def)
  have "path_of f as @ tail_text None = path_of f as" by (simp add: tail_text_def)
  with try_get_path_ok [OF assms(1) as] p show ?thesis
    by (intro exI [of _ "fold lock1 (butlast as) f"]) (simp add: free_path_def free_path_wrlock_def)
qed

lemma standing_get_path:
  assumes "\<forall>n. mem n" "standing f ino p"
  shows "\<exists>f'. get_path mem f k ino = Inr (Answer 0 [(p, None)], f') \<and> free_path mem f' ino (Some p) = Inr f"
  using standing_path [OF assms] by (auto simp: get_path_def get_path_common_def errno_defs)

interpretation strict: path_provider "\<lambda>f ino p. (\<forall>n. mem n) \<and> standing f ino p" "\<lambda>f ino. get_path mem f k ino" "free_path mem"
  for mem k
  by unfold_locales (use standing_get_path in blast)

interpretation lenient: path_provider "\<lambda>f ino p. (\<forall>n. mem n) \<and> standing f ino p \<and> \<not> f_nullpath_ok f"
    "\<lambda>f ino. get_path_nullok mem f k ino" "free_path mem" for mem k
proof unfold_locales
  fix f ino p
  assume "(\<forall>n. mem n) \<and> standing f ino p \<and> \<not> f_nullpath_ok f"
  then show "\<exists>f'. get_path_nullok mem f k ino = Inr (Answer 0 [(p, None)], f') \<and> free_path mem f' ino (Some p) = Inr f"
    using standing_get_path [of mem f ino p k] by (auto simp: get_path_nullok_def get_path_def errno_defs)
qed

lemma ask_path_cases:
  "ask_path env ino True = (\<lambda>f. get_path_nullok (le_mem env) f (le_req env) ino)"
  "ask_path env ino False = (\<lambda>f. get_path (le_mem env) f (le_req env) ino)"
  by (simp_all add: ask_path_def fun_eq_iff)

section \<open>Handlers on a standing node\<close>

lemma user_call_fill: "user_call g l = cbind (user_fill (\<lambda>s. cbind (g s) (\<lambda>(r, s1). Inr (r, (), s1))) l) (\<lambda>(r, x, l1). Inr (r, l1))"
  by (cases "g (l_user l)") (auto simp: user_call_def user_fill_def)

lemma read_standing:
  assumes "\<forall>n. le_mem env n" "standing (l_f l) ino p" "\<not> f_nullpath_ok (l_f l)"
  shows "fuse_lib_read env l ino sz off fi =
    cbind (fuse_fs_read_buf (le_mem env) (le_ops env) (l_user l) (Some p) None sz off fi) (\<lambda>(res, buf, s).
      if res \<noteq> 0 then Inr (Replied (reply_err res), l\<lparr>l_user := s\<rparr>)
      else case buf of None \<Rightarrow> Inl NullDeref | Some v \<Rightarrow> Inr (Replied (ReplyData v), l\<lparr>l_user := s\<rparr>))"
proof -
  have ready: "(\<forall>n. le_mem env n) \<and> standing (l_f l) ino p \<and> \<not> f_nullpath_ok (l_f l)" using assms by blast
  have "fuse_lib_read env l ino sz off fi =
    cbind (fuse_fs_read_buf (le_mem env) (le_ops env) (l_user l) (Some p) None sz off fi) (\<lambda>(res, buf, s).
      cbind (if res \<noteq> 0 then Inr (reply_err res, l\<lparr>l_user := s\<rparr>)
             else case buf of None \<Rightarrow> Inl NullDeref | Some v \<Rightarrow> Inr (ReplyData v, l\<lparr>l_user := s\<rparr>))
        (\<lambda>(rep, l1). Inr (Replied rep, l1)))"
    unfolding fuse_lib_read_def ask_path_cases
    by (rule lenient.one_call [OF ready]) (simp add: read_body_def stale_ok_def path_in_def errno_defs)
  also have "\<dots> = cbind (fuse_fs_read_buf (le_mem env) (le_ops env) (l_user l) (Some p) None sz off fi) (\<lambda>(res, buf, s).
      if res \<noteq> 0 then Inr (Replied (reply_err res), l\<lparr>l_user := s\<rparr>)
      else case buf of None \<Rightarrow> Inl NullDeref | Some v \<Rightarrow> Inr (Replied (ReplyData v), l\<lparr>l_user := s\<rparr>))"
    by (intro cbind_cong refl) (auto split: option.split)
  finally show ?thesis .
qed

lemma write_standing:
  assumes "\<forall>n. le_mem env n" "standing (l_f l) ino p" "\<not> f_nullpath_ok (l_f l)"
  shows "fuse_lib_write_buf env l ino buf off fi =
    cbind (fuse_fs_write_buf (le_mem env) (le_sys env) (le_ops env) (l_user l) (Some p) buf off fi) (\<lambda>(res, s).
      Inr (Replied (if 0 \<le> res then ReplyWrite res else reply_err res), l\<lparr>l_user := s\<rparr>))"
proof -
  let ?g = "\<lambda>s. fuse_fs_write_buf (le_mem env) (le_sys env) (le_ops env) s (Some p) buf off fi"
  have ready: "(\<forall>n. le_mem env n) \<and> standing (l_f l) ino p \<and> \<not> f_nullpath_ok (l_f l)" using assms by blast
  have "fuse_lib_write_buf env l ino buf off fi =
    cbind (cbind (?g (l_user l)) (\<lambda>(r, s). Inr (r, (), s))) (\<lambda>(res, x, s).
      cbind (Inr (if 0 \<le> res then ReplyWrite res else reply_err res, l\<lparr>l_user := s\<rparr>)) (\<lambda>(rep, l1). Inr (Replied rep, l1)))"
    unfolding fuse_lib_write_buf_def ask_path_cases
    by (rule lenient.one_call [OF ready])
      (auto simp: write_body_def path_call_def stale_ok_def path_in_def errno_defs user_call_fill cbind_assoc
         intro!: cbind_cong)
  then show ?thesis by (cases "?g (l_user l)") (auto split: prod.split)
qed

end
