(* ===== verification/Hello_Fuse.thy ===== *)
theory Hello_Fuse
  imports Fuse_Ops_Props Fuse_Lib_Correct
begin

text \<open>
  The program mounted: \<^verbatim>\<open>main.c\<close>'s table \<^verbatim>\<open>hello_oper\<close> plugged into libfuse. Requests of the kernel, in
  terms of node numbers, reach the callbacks of \<open>Fuse_Ops\<close> through the handlers, and the theorems
  about the callbacks become theorems about requests.
\<close>

section \<open>The table of callbacks\<close>

text \<open>A callback that looks at its path crashes when libfuse has none to give.\<close>

definition with_cpath :: "string option \<Rightarrow> (string \<Rightarrow> cerror + 'a) \<Rightarrow> cerror + 'a" where
  "with_cpath path g = (case path of None \<Rightarrow> Inl NullDeref | Some p \<Rightarrow> g p)"

definition full_stat :: "stat \<Rightarrow> file_stat" where
  "full_stat st = file_stat_zero\<lparr>st_mode := st_mode st, st_nlink := st_nlink st, st_size := st_size st\<rparr>"

text \<open>\<^verbatim>\<open>hello_readdir\<close> hands the names to the filler one by one, without attributes or offsets, and does not
  look at what the filler returns.\<close>

fun fill_names :: "('d \<Rightarrow> dirent \<Rightarrow> cerror + int \<times> 'd) \<Rightarrow> string list \<Rightarrow> 'd \<Rightarrow> cerror + 'd" where
  "fill_names filler [] d = Inr d"
| "fill_names filler (nm # nms) d =
     cbind (filler d \<lparr>d_name = nm, d_stat = None, d_off = 0, d_flags = 0\<rparr>) (\<lambda>(r, d1). fill_names filler nms d1)"

text \<open>\<^verbatim>\<open>setxattr\<close> and \<^verbatim>\<open>utimens\<close> look at none of their arguments.\<close>

definition hello_oper :: "'w env \<Rightarrow> ('d, 'w fs) fuse_operations" where
  "hello_oper env =
     \<lparr>op_getattr = Some (\<lambda>s path st fi. with_cpath path (\<lambda>p. cbind (hello_getattr s p) (\<lambda>(r, st1). Inr (r, full_stat st1, s)))),
      op_readlink = None, op_mknod = None,
      op_mkdir = Some (\<lambda>s path mode. with_cpath path (\<lambda>p. hello_mkdir env s p)),
      op_unlink = Some (\<lambda>s path. with_cpath path (\<lambda>p. hello_unlink env s p)),
      op_rmdir = Some (\<lambda>s path. with_cpath path (\<lambda>p. hello_rmdir env s p)),
      op_symlink = None, op_rename = None, op_link = None, op_chmod = None, op_chown = None, op_truncate = None,
      op_open = Some (\<lambda>s path fi. with_cpath path (\<lambda>p. cbind (hello_open s p) (\<lambda>r. Inr (r, fi, s)))),
      op_read = Some (\<lambda>s path sz off fi. with_cpath path (\<lambda>p. hello_read env s p sz off)),
      op_write = Some (\<lambda>s path buf sz off fi. with_cpath path (\<lambda>p. hello_write env s p buf sz off)),
      op_statfs = None, op_flush = None, op_release = None, op_fsync = None,
      op_setxattr = Some (\<lambda>s path name val sz flags. Inr (0, s)),
      op_getxattr = None, op_listxattr = None, op_removexattr = None, op_opendir = None,
      op_readdir = Some (\<lambda>s path filler d off fi flags. with_cpath path (\<lambda>p.
        cbind (hello_readdir s p) (\<lambda>(r, names). cbind (fill_names filler names d) (\<lambda>d1. Inr (r, d1, s))))),
      op_releasedir = None, op_fsyncdir = None,
      op_init = Some (\<lambda>s conn cfg. case hello_init conn of (conn1, k) \<Rightarrow> Inr (conn1, cfg\<lparr>cf_kernel_cache := k\<rparr>, s)),
      op_destroy = Some (\<lambda>s. Inr (hello_destroy s)),
      op_access = None,
      op_create = Some (\<lambda>s path mode fi. with_cpath path (\<lambda>p. cbind (hello_create env s p) (\<lambda>(r, s1). Inr (r, fi, s1)))),
      op_lock = None,
      op_utimens = Some (\<lambda>s path tv fi. Inr (0, s)),
      op_bmap = None, op_ioctl = None, op_poll = None, op_write_buf = None, op_read_buf = None, op_flock = None,
      op_fallocate = None, op_copy_file_range = None, op_lseek = None\<rparr>"

lemma hello_oper_ops [simp]:
  "op_read (hello_oper env) = Some (\<lambda>s path sz off fi. with_cpath path (\<lambda>p. hello_read env s p sz off))"
  "op_write (hello_oper env) = Some (\<lambda>s path buf sz off fi. with_cpath path (\<lambda>p. hello_write env s p buf sz off))"
  "op_read_buf (hello_oper env) = None" "op_write_buf (hello_oper env) = None"
  "op_rename (hello_oper env) = None"
  "op_readdir (hello_oper env) = Some (\<lambda>s path filler d off fi flags. with_cpath path (\<lambda>p.
     cbind (hello_readdir s p) (\<lambda>(r, names). cbind (fill_names filler names d) (\<lambda>d1. Inr (r, d1, s)))))"
  by (simp_all add: hello_oper_def)

lemma with_cpath_Some [simp]: "with_cpath (Some p) g = g p" "with_cpath None g = Inl NullDeref"
  by (simp_all add: with_cpath_def)

section \<open>Data through the buffers\<close>

text \<open>A write depends on the bytes of its length only.\<close>

lemma hello_write_prefix:
  assumes "unat sz \<le> length buf"
  shows "hello_write env s p buf sz off = hello_write env s p (take (unat sz) buf) sz off"
proof -
  have "read_cells buf 0 (unat sz) = read_cells (take (unat sz) buf) 0 (unat sz)"
    using assms by (simp add: read_cells_def)
  then have eq: "write_back env s' f data buf sz off = write_back env s' f data (take (unat sz) buf) sz off" for s' f data
    by (simp add: write_back_def buffer_insert_def)
  show ?thesis unfolding hello_write_def eq ..
qed

lemma int_of_ssize_small: "0 \<le> i \<Longrightarrow> i < 2 ^ 31 \<Longrightarrow> int_of_ssize i = i"
  unfolding int_of_ssize_def by (subst sint_sbintrunc') (simp add: signed_take_bit_int_eq_self)

text \<open>Whether the data come in one buffer or in many, the callback gets all of them, in order.\<close>

lemma write_buf_flat:
  assumes ops: "op_write_buf ops = None" "op_write ops = Some w"
    and vec: "\<forall>b \<in> set bs. in_memory b" "length bs < 2 ^ 63" "0 < length (flat bs)" "length (flat bs) < 2 ^ 31"
    and mem: "\<forall>n. mem n"
  shows "\<exists>buf. fuse_fs_write_buf mem sys ops s path \<lparr>bv_idx = 0, bv_off = 0, bv_buf = bs\<rparr> off fi =
      w s path buf (of_nat (length (flat bs))) off fi \<and>
    length (flat bs) \<le> length buf \<and> take (length (flat bs)) buf = flat bs"
proof (cases "length bs = 1 \<and> \<not> flagged (bs ! 0) FUSE_BUF_IS_FD")
  case True
  then obtain b where b: "bs = [b]" "in_memory b" using vec(1) by (auto simp: length_Suc_conv)
  then have "fb_size b = of_nat (length (flat bs))" "take (length (flat bs)) (fb_mem b) = flat bs"
    "length (flat bs) \<le> length (fb_mem b)"
    by (simp_all add: contents_of_def in_memory_def)
  then show ?thesis using True b(1) ops by (intro exI [of _ "fb_mem b"]) (simp add: fuse_fs_write_buf_def Let_def)
next
  case False
  let ?n = "length (flat bs)" and ?v = "\<lparr>bv_idx = 0, bv_off = 0, bv_buf = bs\<rparr>"
  let ?d = "\<lparr>fb_size = of_nat ?n, fb_flags = 0, fb_mem = replicate ?n None, fb_fd = -1, fb_pos = 0\<rparr>"
  have sz: "fuse_buf_size ?v = of_nat ?n"
    using size_is_flat [OF vec(1), of 0] vec(4) by (simp add: fuse_buf_size_def)
  have un: "unat (of_nat ?n :: size_t) = ?n" using vec(4) by simp
  have "\<exists>v srcv d'. fuse_buf_copy sys \<lparr>bv_idx = 0, bv_off = 0, bv_buf = [?d]\<rparr> ?v 0 s = Inr (int ?n, v, srcv, s) \<and>
      bv_buf v = [d'] \<and> fb_mem d' = flat bs @ drop ?n (fb_mem ?d)"
    using un vec(4) by (intro copy_to_block [OF vec(1,2)]) simp_all
  then obtain v srcv d' where c: "fuse_buf_copy sys \<lparr>bv_idx = 0, bv_off = 0, bv_buf = [?d]\<rparr> ?v 0 s = Inr (int ?n, v, srcv, s)"
    "bv_buf v = [d']" "fb_mem d' = flat bs" by auto
  have r: "int_of_ssize (int ?n) = int ?n" using vec(4) by (intro int_of_ssize_small) simp_all
  have "fuse_fs_write_buf mem sys ops s path ?v off fi = w s path (flat bs) (of_nat ?n) off fi"
    using False ops mem c r vec(3) by (subst fuse_fs_write_buf_def) (auto simp: Let_def sz un)
  then show ?thesis by auto
qed

lemma read_buf_plain:
  assumes "op_read_buf ops = None" "op_read ops = Some rd" "\<forall>n. mem n"
    and "rd s path sz off fi = Inr (int (length out), out, s1)" "length out \<le> unat sz" "length out < 2 ^ 31"
  shows "\<exists>b. fuse_fs_read_buf mem ops s path None sz off fi = Inr (0, Some \<lparr>bv_idx = 0, bv_off = 0, bv_buf = [b]\<rparr>, s1) \<and>
    in_memory b \<and> contents_of b = out"
  using assms by (simp add: fuse_fs_read_buf_def memcpy_cells_def contents_of_def in_memory_def Let_def)

text \<open>What the kernel writes to a file it reads back: a write request for the file's node, its data spread over any
  number of buffers, uploads the data and is answered with their length; a later read request for any part of the
  file is answered with one buffer of exactly those bytes. Both leave the tree of nodes and its locks as they were. The
  conditions on the file and the server are those of a first write to an empty file.\<close>

lemma request_write_read:
  assumes lib: "\<forall>n. le_mem lenv n" "le_ops lenv = hello_oper env" "standing (l_f l) ino p" "\<not> f_nullpath_ok (l_f l)"
      "\<forall>n. le_mem lenv' n" "le_ops lenv' = hello_oper env"
    and vec: "\<forall>b \<in> set bs. in_memory b" "length bs < 2 ^ 63" "flat bs = map Some d"
    and fls: "fs_ok (l_user l) xs" "path_map xs p = Some f" "tf_type f = TG_FILE" "tf_file_size f = 0" "fresh_ids f"
      "json_ok (g_json (l_user l))" "curl_works env (g_world (l_user l))" "p \<noteq> ''/''"
    and d: "0 < length d" "length d < 2 ^ 31" "e_alloc env 100" "e_alloc env (length d)"
    and send: "e_perform env \<lparr>rq_url = send_url (g_config (l_user l)) f,
        rq_mime = Some (upload_part f (map Some d))\<rparr> (g_world (l_user l)) = (code, [r], w')"
      "reply_fits r" "status_is r ''true''" "quoted_field r ''file_id'' i" "plain_field r ''message_id'' m"
      "i \<noteq> []"
    and serve: "serves env (g_config (l_user l)) i w' d w2"
    and rd: "unat off < 2 ^ 63" "unat sz < 2 ^ 31"
  shows "\<exists>l1 l2 b. fuse_lib_write_buf lenv l ino \<lparr>bv_idx = 0, bv_off = 0, bv_buf = bs\<rparr> 0 fi =
      Inr (Replied (ReplyWrite (int (length d))), l1) \<and> l_f l1 = l_f l \<and>
    fuse_lib_read lenv' l1 ino sz off fi' = Inr (Replied (ReplyData \<lparr>bv_idx = 0, bv_off = 0, bv_buf = [b]\<rparr>), l2) \<and>
    l_f l2 = l_f l \<and> in_memory b \<and> contents_of b = map Some (take (unat sz) (drop (unat off) d))"
proof -
  let ?out = "map Some (take (unat sz) (drop (unat off) d)) :: carr"
  from write_then_read [OF fls d send serve rd] obtain s1 s2 where
    w: "hello_write env (l_user l) p (map Some d) (of_nat (length d)) 0 = Inr (int (length d), s1)" and
    r: "hello_read env s1 p sz off = Inr (int (length (take (unat sz) (drop (unat off) d))), ?out, s2)" by blast
  have n: "length (flat bs) = length d" using vec(3) by simp
  have ops: "op_write_buf (le_ops lenv) = None" "op_read_buf (le_ops lenv) = None"
    "op_write (le_ops lenv) = Some (\<lambda>s path buf sz off fi. with_cpath path (\<lambda>p. hello_write env s p buf sz off))"
    "op_read (le_ops lenv) = Some (\<lambda>s path sz off fi. with_cpath path (\<lambda>p. hello_read env s p sz off))"
    using lib(2) by simp_all
  have "0 < length (flat bs)" "length (flat bs) < 2 ^ 31" using n d(1,2) by simp_all
  from write_buf_flat [OF ops(1,3) vec(1,2) this lib(1), of "le_sys lenv" "l_user l" "Some p" 0 fi] obtain buf where
    buf: "fuse_fs_write_buf (le_mem lenv) (le_sys lenv) (le_ops lenv) (l_user l) (Some p)
        \<lparr>bv_idx = 0, bv_off = 0, bv_buf = bs\<rparr> 0 fi = hello_write env (l_user l) p buf (of_nat (length d)) 0"
      "length d \<le> length buf" "take (length d) buf = map Some d"
    unfolding n vec(3) by auto
  have "unat (of_nat (length d) :: size_t) = length d" using d(2) by simp
  then have "hello_write env (l_user l) p buf (of_nat (length d)) 0 = Inr (int (length d), s1)"
    using hello_write_prefix [of "of_nat (length d)" buf env "l_user l" p 0] buf(2,3) w by simp
  then have wr: "fuse_lib_write_buf lenv l ino \<lparr>bv_idx = 0, bv_off = 0, bv_buf = bs\<rparr> 0 fi =
      Inr (Replied (ReplyWrite (int (length d))), l\<lparr>l_user := s1\<rparr>)"
    using write_standing [OF lib(1,3,4)] buf(1) by simp
  have "\<exists>b. fuse_fs_read_buf (le_mem lenv') (le_ops lenv') s1 (Some p) None sz off fi' =
      Inr (0, Some \<lparr>bv_idx = 0, bv_off = 0, bv_buf = [b]\<rparr>, s2) \<and> in_memory b \<and> contents_of b = ?out"
    by (rule read_buf_plain [of _ "\<lambda>s path sz off fi. with_cpath path (\<lambda>p. hello_read env s p sz off)"])
      (use lib(5,6) r rd(2) in simp_all)
  then obtain b where b: "fuse_fs_read_buf (le_mem lenv') (le_ops lenv') s1 (Some p) None sz off fi' =
      Inr (0, Some \<lparr>bv_idx = 0, bv_off = 0, bv_buf = [b]\<rparr>, s2)" "in_memory b" "contents_of b = ?out" by blast
  have "fuse_lib_read lenv' (l\<lparr>l_user := s1\<rparr>) ino sz off fi' =
      Inr (Replied (ReplyData \<lparr>bv_idx = 0, bv_off = 0, bv_buf = [b]\<rparr>), l\<lparr>l_user := s1, l_user := s2\<rparr>)"
    using read_standing [OF lib(5), of "l\<lparr>l_user := s1\<rparr>" ino p sz off fi'] lib(3,4) b(1) by simp
  with wr b(2,3) show ?thesis
    by (intro exI [of _ "l\<lparr>l_user := s1\<rparr>"] exI [of _ "l\<lparr>l_user := s1, l_user := s2\<rparr>"] exI [of _ b]) simp
qed

section \<open>A mounted sample\<close>

definition sample_conf :: fuse_config where
  "sample_conf = \<lparr>cf_set_gid = False, cf_gid = 0, cf_set_uid = False, cf_uid = 0, cf_set_mode = False, cf_umask = 0,
     cf_entry_timeout = 1, cf_negative_timeout = 0, cf_attr_timeout = 1, cf_intr = False, cf_intr_signal = 10,
     cf_remember = 0, cf_hard_remove = False, cf_use_ino = False, cf_readdir_ino = False, cf_direct_io = False,
     cf_kernel_cache = 1, cf_auto_cache = False, cf_ac_attr_timeout_set = False, cf_ac_attr_timeout = 1,
     cf_nullpath_ok = False, cf_show_help = False, cf_modules = None, cf_debug = False, cf_fmask = 0, cf_dmask = 0,
     cf_no_rofd_flush = False, cf_parallel_direct_writes = False\<rparr>"

definition sample_lib :: "fuse \<Rightarrow> 's \<Rightarrow> 's lib" where
  "sample_lib f s = \<lparr>l_f = f, l_conf = sample_conf, l_hidectr = 0, l_cache = (\<lambda>a. node_cache_zero),
     l_locks = (\<lambda>a. []), l_dirs = (\<lambda>h. if h = 9 then Some (dh_new 3) else None), l_forgets = [], l_user = s\<rparr>"

text \<open>System calls that all fail, over any world.\<close>

definition dead_sys :: "'w sys" where
  "dead_sys = \<lparr>sys_write = (\<lambda>w fd d p. (Inl EINVAL, w)), sys_read = (\<lambda>w fd n p. (Inl EINVAL, w)),
     sys_splice = (\<lambda>w i p j q n fl. (Inl EINVAL, w))\<rparr>"

definition sample_lenv :: "'w env \<Rightarrow> (dirbuf, 'w fs) lib_env" where
  "sample_lenv env = \<lparr>le_mem = (\<lambda>n. True), le_sys = dead_sys, le_ops = hello_oper env, le_now = (0, 0),
     le_expired = (\<lambda>t u. False), le_gone = False, le_req = 0, le_handle = 9\<rparr>"

lemma sample_lib_simps [simp]:
  "l_f (sample_lib f s) = f" "l_user (sample_lib f s) = s" "le_mem (sample_lenv env) = (\<lambda>n. True)"
  "le_ops (sample_lenv env) = hello_oper env"
  by (simp_all add: sample_lib_def sample_lenv_def)

lemma sample_standing: "standing (sample_tree 0) 3 ''/d/x''"
proof -
  have "get_node (sample_tree 0) 3 = Inr (hd [2, 1, 0])" using sample_get_node by simp
  moreover have "f_lockq (sample_tree 0) = []" by (simp add: sample_tree_def sample_base_def hash_id_def)
  moreover have "\<forall>a \<in> set [2, 1, 0]. 0 \<le> lock_of (sample_tree 0) a" using sample_locks(1-3) [of 0] by simp
  moreover have "ino_of (sample_tree 0) (last [2, 1, 0]) = FUSE_ROOT_ID" using sample_locks(4) by simp
  ultimately show ?thesis
    unfolding standing_def using sample_lineage [of 0] sample_path [of 0]
    by (intro conjI exI [of _ "[2, 1, 0]"]) (auto simp del: path_of.simps lineage.simps simp: c_string_def)
qed

lemma sample_nullpath: "\<not> f_nullpath_ok (sample_tree 0)"
  by (simp add: sample_tree_def sample_base_def hash_id_def)

text \<open>A file whose node is no longer connected to the root, as after the removal of its directory
  while it is open, has no path: a read request for it passes the null pointer to \<^verbatim>\<open>hello_read\<close>, and
  the program crashes.\<close>

theorem read_detached_crashes:
  assumes "\<forall>n. le_mem lenv n" "le_ops lenv = hello_oper env" "\<not> f_nullpath_ok (l_f l)"
    and "get_node (l_f l) ino = Inr (hd as)" "lineage (l_f l) as" "distinct as" "length as \<le> f_fresh (l_f l) + 1"
    and "ino_of (l_f l) (last as) \<noteq> FUSE_ROOT_ID" "\<forall>a \<in> set as. 0 \<le> lock_of (l_f l) a"
    and "length (path_of (l_f l) as) < UINT_MAX"
  shows "fuse_lib_read lenv l ino sz off fi = Inl NullDeref"
proof -
  have len: "length (path_of (l_f l) as @ tail_text None) < UINT_MAX" using assms(10) by (simp add: tail_text_def)
  have "get_path_nullok (le_mem lenv) (l_f l) (le_req lenv) ino = Inr (Answer 0 [], l_f l)"
    using try_get_path_stale [OF assms(1,4-9) len] assms(3)
    by (simp add: get_path_nullok_def get_path_common_def errno_defs)
  then show ?thesis
    using assms(1,2) by (simp add: fuse_lib_read_def ask_path_cases with_path_def read_body_def stale_ok_def path_in_def
        errno_defs user_fill_def fuse_fs_read_buf_def)
qed

text \<open>The sample tree after the removal of the directory \<^verbatim>\<open>d\<close>.\<close>

definition cut_tree :: fuse where
  "cut_tree = update 1 (\<lambda>n. n\<lparr>n_name := None, n_parent := None\<rparr>) (sample_tree 0)"

lemma cut_tree_get: "get_node cut_tree 3 = Inr 2"
proof -
  have "ino_of cut_tree = ino_of (sample_tree 0)"
    by (rule ext) (auto simp: cut_tree_def ino_of_def node_at_def heap_update split: option.split)
  then show ?thesis using sample_get_node [of 0] by (simp add: get_node_def find_id_def cut_tree_def)
qed

theorem read_detached_crashes_witness:
  "fuse_lib_read (sample_lenv agreeable) (sample_lib cut_tree (sample_fs [root, file_x] ())) 3 100 0 file_info_zero =
     Inl NullDeref"
proof (rule read_detached_crashes [of _ agreeable _ _ "[2, 1]"])
  show "lineage (l_f (sample_lib cut_tree (sample_fs [root, file_x] ()))) [2, 1]"
    by (simp add: cut_tree_def heap_update sample_base_def sample_node_def FUSE_ROOT_ID_def)
  show "ino_of (l_f (sample_lib cut_tree (sample_fs [root, file_x] ()))) (last [2, 1]) \<noteq> FUSE_ROOT_ID"
    by (simp add: cut_tree_def ino_of_def node_at_def heap_update)
      (simp add: sample_base_def sample_node_def FUSE_ROOT_ID_def)
  show "\<forall>a \<in> set [2, 1]. 0 \<le> lock_of (l_f (sample_lib cut_tree (sample_fs [root, file_x] ()))) a"
    by (simp add: cut_tree_def lock_of_def node_at_def heap_update) (simp add: sample_base_def sample_node_def)
  show "length (path_of (l_f (sample_lib cut_tree (sample_fs [root, file_x] ()))) [2, 1]) < UINT_MAX"
    by (simp add: cut_tree_def name_of_def node_at_def heap_update) (simp add: sample_base_def sample_node_def)
  show "\<not> f_nullpath_ok (l_f (sample_lib cut_tree (sample_fs [root, file_x] ())))"
    using sample_nullpath by (simp add: cut_tree_def update_def)
qed (use cut_tree_get in \<open>simp_all add: cut_tree_def\<close>)

end
