(* ===== verification/Fuse_Mount_Correct.thy ===== *)
theory Fuse_Mount_Correct
  imports Fuse_Mount Fuse_Session_Sample Hello_Fuse
begin

unbundle bit_operations_syntax

text \<open>
  The whole way: messages of the kernel to a session on which the library is mounted, and the messages that go
  back. Every request is answered, and what a write message carries a read message brings back, down to the
  bytes of both and up to the server.
\<close>

section \<open>Messages and answers\<close>


text \<open>C20: an operation of the library is answered with the structure the kernel expects for it: an entry for lookups and new
  names, attributes for attributes, data for reads, a count for writes, and so on, or an error; only forgets
  have no answer. This holds for every file system and every state.\<close>

theorem replies_fit_requests:
  assumes "lib_run env req c l = Inr (Replied r, l1)"
  shows "fits_call c r"
  using assms by (simp add: lib_run_def lib_call_fits)

text \<open>The messages of a write and a read, as the kernel lays them out.\<close>

definition write_msg ::
    "session_conn \<Rightarrow> 64 word \<Rightarrow> fuse_ino_t \<Rightarrow> 32 word \<Rightarrow> 32 word \<Rightarrow> 32 word \<Rightarrow> 64 word \<Rightarrow> string \<Rightarrow> carr" where
  "write_msg conn u ino uid gid pid off d =
     in_header (of_nat (80 + length d)) FUSE_WRITE u ino uid gid pid @ body conn (K_write 0 off 0 0 0 d)"

definition read_msg ::
    "session_conn \<Rightarrow> 64 word \<Rightarrow> fuse_ino_t \<Rightarrow> 32 word \<Rightarrow> 32 word \<Rightarrow> 32 word \<Rightarrow> 64 word \<Rightarrow> 32 word \<Rightarrow> carr" where
  "read_msg conn u ino uid gid pid off sz =
     in_header 80 FUSE_READ u ino uid gid pid @ body conn (K_read 0 off sz 0 0 0)"

lemma send_one_buffer:
  assumes "in_memory b"
  shows "fuse_send_data mem sys \<lparr>bv_idx = 0, bv_off = 0, bv_buf = [b]\<rparr> w = Inr (Inr (contents_of b), w)"
proof -
  have "fuse_buf_size \<lparr>bv_idx = 0, bv_off = 0, bv_buf = [b]\<rparr> = fb_size b"
    using word_order.extremum_unique [of "fb_size b"] by (auto simp: fuse_buf_size_def)
  then show ?thesis
    using assms by (simp add: fuse_send_data_def in_memory_def contents_of_def read_cells_def Let_def)
qed

lemma open_file_allowed:
  assumes "se_got_init se" "opc = FUSE_READ \<or> opc = FUSE_WRITE"
  shows "refused env se opc uid = 0"
  using assms by (auto simp: refused_def on_open_files_def)

lemma read_message_replied:
  assumes "session_fresh se" "se_interrupts se = []" "se_got_init se" "12 \<le> proto_minor (se_conn se)" "se_has se Op_read"
    and env: "\<forall>n. ll_mem env n"
    and run: "ll_run env (new_req se u uid gid pid) (Call_read ino (ucast sz) off file_info_zero) l =
      Inr (Replied (ReplyData \<lparr>bv_idx = 0, bv_off = 0, bv_buf = [b]\<rparr>), l1)" and b: "in_memory b"
  shows "fuse_session_process_buf env se (received (read_msg (se_conn se) u ino uid gid pid off sz)) l =
    Inr ([fuse_send_msg u 0 (contents_of b)], None, se\<lparr>se_fresh := se_fresh se + 1\<rparr>, l1)"
proof (rule process_replied [where opc = FUSE_READ and len = 80 and ino = ino and uid = uid and gid = gid and pid = pid and u = u
      and a = "body (se_conn se) (K_read 0 off sz 0 0 0)" and action = "meant ino [] (K_read 0 off sz 0 0 0)"
      and c = "Call_read ino (ucast sz) off file_info_zero" and r = "ReplyData \<lparr>bv_idx = 0, bv_off = 0, bv_buf = [b]\<rparr>"])
  show "dispatch env req FUSE_READ ino (body (se_conn se) (K_read 0 off sz 0 0 0)) buf se1 l = act env req (meant ino [] (K_read 0 off sz 0 0 0)) se1 l"
    if "se_conn se1 = se_conn se" "se_has se1 = se_has se" for se1 req buf
    using dispatch_request [of se1 "K_read 0 off sz 0 0 0" env req ino "[]" buf l] that assms(4,5) env by simp
qed (use assms in \<open>simp_all add: open_file_allowed memory_msg_def read_msg_def call_of_def mask_of_def handle_def file_info_zero_def
    reply_msg_def send_one_buffer Fuse_Reply.send_reply_def\<close>)

lemma write_message_replied:
  assumes "session_fresh se" "se_interrupts se = []" "se_got_init se" "12 \<le> proto_minor (se_conn se)" "se_has se Op_write_buf"
    and env: "ll_mem env 128" and d: "length d < 2 ^ 31"
    and run: "ll_run env (new_req se u uid gid pid) (Call_write_buf ino \<lparr>bv_idx = 0, bv_off = 0, bv_buf =
        [(received (write_msg (se_conn se) u ino uid gid pid off d))\<lparr>fb_mem := map Some d, fb_size := of_nat (length d)\<rparr>]\<rparr> off
        file_info_zero) l = Inr (Replied (ReplyWrite (int (length d))), l1)"
  shows "fuse_session_process_buf env se (received (write_msg (se_conn se) u ino uid gid pid off d)) l =
    Inr ([fuse_send_msg u 0 (put32 (of_nat (length d)) @ put32 0)], None, se\<lparr>se_fresh := se_fresh se + 1\<rparr>, l1)"
proof (rule process_replied [where opc = FUSE_WRITE and len = "of_nat (80 + length d)" and ino = ino and uid = uid and gid = gid
      and pid = pid and u = u and a = "body (se_conn se) (K_write 0 off 0 0 0 d)"
      and action = "Call None (Call_write_buf ino \<lparr>bv_idx = 0, bv_off = 0, bv_buf =
        [(received (write_msg (se_conn se) u ino uid gid pid off d))\<lparr>fb_mem := map Some d, fb_size := of_nat (length d)\<rparr>]\<rparr> off
        file_info_zero)"
      and c = "Call_write_buf ino \<lparr>bv_idx = 0, bv_off = 0, bv_buf =
        [(received (write_msg (se_conn se) u ino uid gid pid off d))\<lparr>fb_mem := map Some d, fb_size := of_nat (length d)\<rparr>]\<rparr> off
        file_info_zero" and r = "ReplyWrite (int (length d))" and ?l1.0 = l1])
  let ?buf = "received (write_msg (se_conn se) u ino uid gid pid off d)"
  have len: "80 + length d \<le> unat (fb_size ?buf)"
  proof -
    have "fb_size ?buf = of_nat (80 + length d)" by (simp add: write_msg_def)
    moreover have "unat (of_nat (80 + length d) :: size_t) = 80 + length d" using d unfolding unat_of_nat by (intro mod_less) simp
    ultimately show ?thesis by simp
  qed
  show "dispatch env req FUSE_WRITE ino (body (se_conn se) (K_write 0 off 0 0 0 d)) ?buf se1 l =
      act env req (Call None (Call_write_buf ino \<lparr>bv_idx = 0, bv_off = 0, bv_buf =
        [?buf\<lparr>fb_mem := map Some d, fb_size := of_nat (length d)\<rparr>]\<rparr> off file_info_zero)) se1 l"
    if "se_conn se1 = se_conn se" "se_has se1 = se_has se" for se1 req
    using dispatch_write [of se1 ?buf d env req ino 0 off 0 0 0 "[]" l] that assms(4,5) d len recent [OF assms(4)]
    by (simp add: handle_def file_info_zero_def)
qed (use assms in \<open>simp_all add: open_file_allowed memory_msg_def write_msg_def call_of_def mask_of_def reply_msg_def
    Fuse_Reply.send_reply_def\<close>)

text \<open>C1: what the kernel writes to a file it reads back, from message to message: the bytes of a write message for the file's
  node, sent to a session on which \<^verbatim>\<open>hello_oper\<close> is mounted, upload the data and are answered with their
  length; the bytes of a later read message for any part of the file are answered with a message that carries exactly
  those bytes. The conditions on the file and the server are those of a first write to an empty file.\<close>

theorem message_write_read:
  assumes se: "session_reach (mounted known page lenv) se" "se_interrupts se = []" "se_got_init se" "12 \<le> proto_minor (se_conn se)"
      "se_has se = mounted_ops (le_ops lenv)"
    and lib: "\<forall>n. le_mem lenv n" "le_ops lenv = hello_oper env" "standing (l_f l) ino p" "\<not> f_nullpath_ok (l_f l)"
    and fls: "fs_ok (l_user l) xs" "path_map xs p = Some f" "tf_type f = TG_FILE" "tf_file_size f = 0" "fresh_ids f"
      "json_ok (g_json (l_user l))" "curl_works env (g_world (l_user l))" "p \<noteq> ''/''"
    and d: "0 < length d" "length d < 2 ^ 31" "e_alloc env 100" "e_alloc env (length d)"
    and send: "e_perform env \<lparr>rq_url = send_url (g_config (l_user l)) f,
        rq_mime = Some (upload_part f (map Some d))\<rparr> (g_world (l_user l)) = (code, [r], w')"
      "reply_fits r" "status_is r ''true''" "quoted_field r ''file_id'' i" "plain_field r ''message_id'' m" "i \<noteq> []"
    and serve: "serves env (g_config (l_user l)) i w' d w2"
    and rd: "unat off < 2 ^ 63" "unat sz < 2 ^ 31"
  shows "\<exists>se1 l1 se2 l2.
    fuse_session_process_buf (mounted known page lenv) se (received (write_msg (se_conn se) u1 ino uid1 gid1 pid1 0 d)) l =
      Inr ([fuse_send_msg u1 0 (put32 (of_nat (length d)) @ put32 0)], None, se1, l1) \<and>
    fuse_session_process_buf (mounted known page lenv) se1 (received (read_msg (se_conn se1) u2 ino uid2 gid2 pid2 off sz)) l1 =
      Inr ([fuse_send_msg u2 0 (map Some (take (unat sz) (drop (unat off) d)))], None, se2, l2)"
proof -
  let ?wmsg = "received (write_msg (se_conn se) u1 ino uid1 gid1 pid1 0 d)" and ?se1 = "se\<lparr>se_fresh := se_fresh se + 1\<rparr>"
  let ?w = "?wmsg\<lparr>fb_mem := map Some d, fb_size := of_nat (length d)\<rparr>"
  let ?lenv1 = "lenv\<lparr>le_req := se_fresh se\<rparr>" and ?lenv2 = "lenv\<lparr>le_req := se_fresh se + 1\<rparr>"
  have vec: "\<forall>b\<in>set [?w]. in_memory b" "length [?w] < 2 ^ 63" "flat [?w] = map Some d"
    using d(2) by (simp_all add: in_memory_def flat_def contents_of_def unat_of_nat)
  have z: "unat (ucast sz :: size_t) = unat sz" using rd(2) by (simp add: unsigned_ucast_eq take_bit_nat_eq_self)
  have lib1: "\<forall>n. le_mem ?lenv1 n" "le_ops ?lenv1 = hello_oper env" and lib2: "\<forall>n. le_mem ?lenv2 n" "le_ops ?lenv2 = hello_oper env"
    using lib(1,2) by simp_all
  have rd2: "unat (ucast sz :: size_t) < 2 ^ 31" using rd(2) z by simp
  obtain l1 l2 b where w: "fuse_lib_write_buf ?lenv1 l ino \<lparr>bv_idx = 0, bv_off = 0, bv_buf = [?w]\<rparr> 0 file_info_zero =
      Inr (Replied (ReplyWrite (int (length d))), l1)"
    and r: "fuse_lib_read ?lenv2 l1 ino (ucast sz) off file_info_zero =
      Inr (Replied (ReplyData \<lparr>bv_idx = 0, bv_off = 0, bv_buf = [b]\<rparr>), l2)"
    and b: "in_memory b" "contents_of b = map Some (take (unat sz) (drop (unat off) d))"
    using request_write_read [OF lib1 lib(3,4) lib2 vec fls d send serve rd(1) rd2, of file_info_zero file_info_zero] z by auto
  have fresh: "session_fresh se" "session_fresh ?se1"
    using session_reach_fresh [OF se(1)] by (auto simp: session_fresh_def)
  have "fuse_session_process_buf (mounted known page lenv) se ?wmsg l =
      Inr ([fuse_send_msg u1 0 (put32 (of_nat (length d)) @ put32 0)], None, ?se1, l1)"
    by (rule write_message_replied)
      (use fresh se lib(1) d(2) w in \<open>simp_all add: mounted_ops_def fuse_path_ops_def lib_run_def\<close>)
  moreover have "fuse_session_process_buf (mounted known page lenv) ?se1 (received (read_msg (se_conn ?se1) u2 ino uid2 gid2 pid2 off sz)) l1 =
      Inr ([fuse_send_msg u2 0 (contents_of b)], None, ?se1\<lparr>se_fresh := se_fresh ?se1 + 1\<rparr>, l2)"
    by (rule read_message_replied)
      (use fresh se lib(1) r b(1) in \<open>simp_all add: mounted_ops_def fuse_path_ops_def lib_run_def\<close>)
  ultimately show ?thesis unfolding b(2) by blast
qed

text \<open>The program's own \<^verbatim>\<open>init\<close> leaves what is possible as it is, so that \<open>init_asks_only_offered\<close> holds for it.\<close>

lemma feature_capable: "capable_ext (snd (fuse_set_feature_flag conn flag)) = capable_ext conn"
  "capable_ext (fuse_unset_feature_flag conn flag) = capable_ext conn"
  by (simp_all add: fuse_set_feature_flag_def fuse_unset_feature_flag_def)

lemma convert_capable: "capable_ext (snd (convert_to_conn_want_ext conn d e)) = capable_ext conn"
  by (simp add: convert_to_conn_want_ext_def Let_def)

lemma hello_init_capable: "capable_ext (fst (hello_init conn)) = capable_ext conn"
  by (simp add: hello_init_def feature_capable Let_def)

lemma fs_init_capable:
  assumes "fuse_fs_init ops s conn cfg = Inr (conn1, cfg1, s1)"
    and "\<And>f c cf c1 cf1 s1. op_init ops = Some f \<Longrightarrow> f s c cf = Inr (c1, cf1, s1) \<Longrightarrow> capable_ext c1 = capable_ext c"
  shows "capable_ext conn1 = capable_ext conn"
proof (cases "op_init ops")
  case None
  then show ?thesis using assms(1) by (auto simp: fuse_fs_init_def feature_capable Let_def)
next
  case (Some f)
  define c3 where "c3 = (let c1 = (if op_write_buf ops = None then fuse_unset_feature_flag conn FUSE_CAP_SPLICE_READ else conn);
      c2 = (if op_lock ops = None then fuse_unset_feature_flag c1 FUSE_CAP_POSIX_LOCKS else c1)
      in if op_flock ops = None then fuse_unset_feature_flag c2 FUSE_CAP_FLOCK_LOCKS else c2)"
  have c3: "capable_ext c3 = capable_ext conn" by (simp add: c3_def feature_capable Let_def)
  obtain c4 cfg2 s2 where f: "f s (c3\<lparr>want := fuse_lower_32_bits (want_ext c3)\<rparr>) cfg = Inr (c4, cfg2, s2)"
    and "conn1 = snd (convert_to_conn_want_ext c4 (want_ext c3) (fuse_lower_32_bits (want_ext c3)))"
    using assms(1) [unfolded fuse_fs_init_def Let_def Some option.case, folded c3_def [unfolded Let_def]]
    by (auto simp: cbind_Inr_iff split_beta split: if_split_asm)
  moreover have "capable_ext c4 = capable_ext conn" using assms(2) [OF Some f] c3 by simp
  ultimately show ?thesis by (simp add: convert_capable)
qed

lemma hello_keeps_capable: "le_ops lenv = hello_oper env \<Longrightarrow> keeps_capable (lib_start lenv)"
  unfolding keeps_capable_def
proof (intro allI impI)
  fix conn l conn1 l1
  assume ops: "le_ops lenv = hello_oper env" and "lib_start lenv conn l = Inr (conn1, l1)"
  then obtain c where c: "fuse_lib_init lenv l (fuse_conn_info.truncate conn) = Inr (c, l1)" "capable_ext conn1 = capable_ext c"
    by (auto simp: lib_start_def cbind_Inr_iff)
  then obtain c1 cfg s where "fuse_fs_init (le_ops lenv) (l_user l)
      (snd (fuse_set_feature_flag (fuse_conn_info.truncate conn) FUSE_CAP_EXPORT_SUPPORT)) (l_conf l) = Inr (c1, cfg, s)"
    "capable_ext c = capable_ext c1"
    by (auto simp: fuse_lib_init_def cbind_Inr_iff Let_def split: if_splits)
  moreover have "capable_ext c1 = capable_ext c0" if "op_init (le_ops lenv) = Some f" "f s0 c0 cf0 = Inr (c1, cf1, s1)" for f s0 c0 cf0 c1 cf1 s1
    using that ops hello_init_capable [of c0] by (auto simp: hello_oper_def split_beta)
  ultimately show "capable_ext conn1 = capable_ext conn"
    using fs_init_capable c(2) by (fastforce simp: feature_capable fuse_conn_info.defs)
qed

section \<open>A mounted session\<close>

definition mounted_session :: session where
  "mounted_session = started\<lparr>se_has := mounted_ops (le_ops (sample_lenv scripted))\<rparr>"

lemma mounted_session_simps [simp]:
  "se_got_init mounted_session" "se_interrupts mounted_session = []" "proto_minor (se_conn mounted_session) = 40"
  "se_has mounted_session = mounted_ops (le_ops (sample_lenv scripted))" "se_fresh mounted_session = 0" "se_list mounted_session = []"
  by (simp_all add: mounted_session_def)


text \<open>Statistics of the root, for which the file system has no callback.\<close>

theorem replies_fit_requests_witness:
  "\<exists>r l1. lib_run (sample_lenv scripted) (new_req started 5 0 0 7) (Call_statfs 0) (sample_lib (sample_tree 0) (sample_fs [root] [])) =
     Inr (Replied r, l1) \<and> fits_call (Call_statfs 0) r"
proof -
  have "\<exists>r l1. lib_run (sample_lenv scripted) (new_req started 5 0 0 7) (Call_statfs 0) (sample_lib (sample_tree 0) (sample_fs [root] [])) =
     Inr (Replied r, l1)"
    by (simp add: lib_run_def fuse_lib_statfs_def fill_body_def path_fill_def user_fill_def statfs_call_def fuse_fs_statfs_def hello_oper_def stale_ok_def path_in_def
        on_tree_def free_path_def)
  then show ?thesis using replies_fit_requests by blast
qed

theorem message_write_read_witness:
  "\<exists>se1 l1 se2 l2.
    fuse_session_process_buf (mounted (\<lambda>e. True) 4096 (sample_lenv scripted)) mounted_session
      (received (write_msg (se_conn mounted_session) 7 3 0 0 9 0 ''hello''))
      (sample_lib (sample_tree 0) (sample_fs [root, file_x]
        [(CURLE_OK, [sent_reply]), (CURLE_OK, [path_reply]), (CURLE_OK, [''hello''])])) =
      Inr ([fuse_send_msg 7 0 (put32 5 @ put32 0)], None, se1, l1) \<and>
    fuse_session_process_buf (mounted (\<lambda>e. True) 4096 (sample_lenv scripted)) se1
      (received (read_msg (se_conn se1) 8 3 0 0 9 2 100)) l1 = Inr ([fuse_send_msg 8 0 (map Some ''llo'')], None, se2, l2)"
proof -
  let ?w = "[(CURLE_OK, [sent_reply]), (CURLE_OK, [path_reply]), (CURLE_OK, [''hello''])]"
  let ?s = "sample_fs [root, file_x] ?w"
  let ?l = "sample_lib (sample_tree 0) ?s"
  have se: "session_reach (mounted (\<lambda>e. True) 4096 (sample_lenv scripted)) mounted_session" "se_interrupts mounted_session = []"
    "se_got_init mounted_session" "12 \<le> proto_minor (se_conn mounted_session)"
    "se_has mounted_session = mounted_ops (le_ops (sample_lenv scripted))"
    by (simp_all add: session_reach.start)
  have lib: "\<forall>n. le_mem (sample_lenv scripted) n" "le_ops (sample_lenv scripted) = hello_oper scripted"
    "standing (l_f ?l) 3 ''/d/x''" "\<not> f_nullpath_ok (l_f ?l)"
    using sample_standing sample_nullpath by simp_all
  have fs: "fs_ok (l_user ?l) [root, file_x]" by (simp add: sample_fs_ok)
  have f: "path_map [root, file_x] ''/d/x'' = Some file_x" "tf_type file_x = TG_FILE" "tf_file_size file_x = 0"
    "fresh_ids file_x" "json_ok (g_json (l_user ?l))" "curl_works scripted (g_world (l_user ?l))" "''/d/x'' \<noteq> ''/''"
    by (simp_all add: record_for_fresh json_ok_zeros)
  have d: "0 < length ''hello''" "length ''hello'' < 2 ^ 31" "e_alloc scripted 100"
    "e_alloc scripted (length ''hello'')" by simp_all
  have send: "e_perform scripted \<lparr>rq_url = send_url (g_config (l_user ?l)) file_x,
      rq_mime = Some (upload_part file_x (map Some ''hello''))\<rparr> (g_world (l_user ?l)) =
      (CURLE_OK, [sent_reply], [(CURLE_OK, [path_reply]), (CURLE_OK, [''hello''])])" by simp
  have srv: "serves scripted (g_config (l_user ?l)) ''AbC'' [(CURLE_OK, [path_reply]), (CURLE_OK, [''hello''])] ''hello'' []"
    by (simp add: scripted_serves)
  have b: "unat (2 :: off_t) < 2 ^ 63" "unat (100 :: 32 word) < 2 ^ 31" by simp_all
  have e: "take (unat (100 :: 32 word)) (drop (unat (2 :: off_t)) ''hello'') = ''llo''" "(of_nat (length ''hello'') :: 32 word) = 5"
    by simp_all
  have i: "''AbC'' \<noteq> []" by simp
  from message_write_read [OF se lib fs f d send sent_reply_ok(1-4) i srv b, of 7 0 0 9 8 0 0 9] show ?thesis unfolding e by blast
qed

end
