(* ===== verification/Fuse_Loop_Correct.thy ===== *)
theory Fuse_Loop_Correct
  imports Fuse_Mount_Correct
begin

unbundle bit_operations_syntax

text \<open>
  The loop on the mounted library: a single thread that reads messages, has the library work on them and
  sends the answers.
\<close>

text \<open>C2: the loop reads messages one after the other; when it waits for the device again, every message it read has been
  answered, in the order of the messages, each by one message with the number of its request and the right
  length (after an interrupt that went back to the kernel, perhaps). This holds for every file system, for
  messages of any length, and whatever earlier messages have left in the buffer; the messages are read into memory, and no
  signal arrives.\<close>

theorem loop_answers_in_order:
  assumes "lp_ll env = mounted known page lenv" "known EAGAIN" "le_mem lenv 128" "no_pipes env" "ls_pipe st = None"
    and "\<forall>q\<in>set qs. \<not> silent_opcode (kq_opcode q)" "ls_dev st = map (\<lambda>q. (Bytes (kernel_msg q), False)) qs"
    and "fuse_session_loop env res st = Inr (msgs, Waits_for_device, st')"
  shows "\<exists>parts. msgs = concat parts \<and> list_all2 answered qs parts"
  by (rule lib.loop_answers [OF _ _ _ assms(4-8)]) (use assms(1-3) in simp_all)

text \<open>Two requests to a session that has not started.\<close>

definition sample_loop_env :: "'l ll_env \<Rightarrow> 'l loop_env" where
  "sample_loop_env env = \<lparr>lp_ll = env, lp_pipe = (\<lambda>l. (None, l)), lp_resize = (\<lambda>fd n l. (Inl EINVAL, l)),
     lp_pipe_max = (\<lambda>l. (Inl ENOENT, l)), lp_fill = (\<lambda>fd d l. l), lp_left = (\<lambda>fd l. False)\<rparr>"

definition sample_query :: "64 word \<Rightarrow> kernel_request" where
  "sample_query u = \<lparr>kq_len = 40, kq_opcode = FUSE_STATFS, kq_unique = u, kq_ino = 1, kq_uid = 0, kq_gid = 0, kq_pid = 7, kq_args = []\<rparr>"

definition idle_session :: "nat \<Rightarrow> session" where
  "idle_session n = sample_session n\<lparr>se_buf_reallocable := True\<rparr>"

definition sample_loop_state :: "session \<Rightarrow> recv_buf \<Rightarrow> 'l \<Rightarrow> dev_event list \<Rightarrow> 'l loop_state" where
  "sample_loop_state se rb l evs = \<lparr>ls_se = se, ls_rb = rb, ls_pipe = None, ls_l = l, ls_dev = evs\<rparr>"

lemma sample_loop_simps [simp]:
  "lp_ll (sample_loop_env env) = env" "no_pipes (sample_loop_env env)" "\<not> silent_opcode (kq_opcode (sample_query u))"
  "kq_unique (sample_query u) = u" "length (kernel_msg (sample_query u)) = 40"
  by (simp_all add: sample_loop_env_def no_pipes_def sample_query_def silent_opcode_def kernel_msg_def)

lemma sample_receives:
  assumes "rb_mem rb = Some m" "40 \<le> length m" "rb_mem_size rb = 0x21000"
  shows "fuse_session_receive_buf (sample_loop_env env) (sample_loop_state (idle_session n) rb l ((Bytes (kernel_msg (sample_query u)), False) # evs)) =
    Inr (Some (40, mem_buf (kernel_msg (sample_query u) @ drop 40 m) 40,
      sample_loop_state (idle_session n) (rb\<lparr>rb_mem := Some (kernel_msg (sample_query u) @ drop 40 m)\<rparr>) l evs))"
  using assms by (simp add: fuse_session_receive_buf_def usable_pipe_def fuse_ll_get_pipe_def sample_loop_env_def receive_read_def sample_loop_state_def signalled_def memcpy_cells_def idle_session_def sample_session_def Let_def)

text \<open>The session turns such a message away, so that the library is not asked.\<close>

lemma sample_refused:
  assumes "ll_mem env 128"
  shows "fuse_session_process_buf env (idle_session n) (mem_buf (kernel_msg (sample_query u) @ stale) 40) l =
    Inr ([send_reply (ll_known env) u (Inl EIO)], None, idle_session (n + 1), l)"
proof -
  have "memory_msg (in_header 40 FUSE_STATFS u 1 0 0 7 @ stale) (mem_buf (kernel_msg (sample_query u) @ stale) 40)"
    by (simp add: memory_msg_def mem_buf_def kernel_msg_def sample_query_def)
  from process_memory [OF this assms] show ?thesis
    by (simp add: refused_def idle_session_def sample_session_def answer_err_def fuse_free_req_def new_req_def sample_conn_def EIO_def)
qed

lemma sample_first_block: "ll_page env = 4096 \<Longrightarrow> ll_mem env 139264 \<Longrightarrow> buf_alloc env 0x21000 = Some (replicate 135248 None)"
  by (simp add: buf_alloc_def ROUND_UP_def write_header_size_def)

lemma sample_first_receive:
  assumes "ll_page env = 4096" "ll_mem env 139264"
  shows "fuse_session_receive_buf (sample_loop_env env) (sample_loop_state (idle_session n) \<lparr>rb_mem = None, rb_mem_size = 0\<rparr> l evs) =
    fuse_session_receive_buf (sample_loop_env env)
      (sample_loop_state (idle_session n) \<lparr>rb_mem = Some (replicate 135248 None), rb_mem_size = 0x21000\<rparr> l evs)"
  using sample_first_block [OF assms]
  by (simp add: fuse_session_receive_buf_def usable_pipe_def fuse_ll_get_pipe_def sample_loop_env_def receive_read_def
      sample_loop_state_def idle_session_def sample_session_def sample_conn_def Let_def)

lemma sample_turn:
  assumes "fuse_session_receive_buf (sample_loop_env env) (sample_loop_state (idle_session n) rb0 l ((Bytes (kernel_msg (sample_query u)), False) # evs)) =
      Inr (Some (40, mem_buf (kernel_msg (sample_query u) @ stale) 40, sample_loop_state (idle_session n) rb l evs))"
    and "ll_mem env 128"
  shows "fuse_session_loop (sample_loop_env env) res (sample_loop_state (idle_session n) rb0 l ((Bytes (kernel_msg (sample_query u)), False) # evs)) =
    cbind (fuse_session_loop (sample_loop_env env) 40 (sample_loop_state (idle_session (n + 1)) rb l evs)) (\<lambda>(ms, e, st).
      Inr (send_reply (ll_known env) u (Inl EIO) # ms, e, st))"
proof -
  have "handled (sample_loop_env env) (mem_buf m 40) se l (sample_loop_state se0 rb l evs) = sample_loop_state se rb l evs" for m se se0
    by (simp add: handled_def mem_buf_def sample_loop_state_def Let_def)
  moreover have "\<not> se_exited (idle_session n)" by (simp add: idle_session_def sample_session_def)
  ultimately show ?thesis
    using assms sample_refused [OF assms(2)]
    by (subst fuse_session_loop.simps) (simp add: EINTR_def Let_def sample_loop_state_def)
qed

lemma sample_waits:
  assumes "rb_mem rb = Some m"
  shows "fuse_session_loop (sample_loop_env env) res (sample_loop_state (idle_session n) rb l []) =
    Inr ([], Waits_for_device, sample_loop_state (idle_session n) rb l [])"
  using assms
  by (subst fuse_session_loop.simps) (simp add: fuse_session_receive_buf_def usable_pipe_def fuse_ll_get_pipe_def
      sample_loop_env_def receive_read_def sample_loop_state_def idle_session_def sample_session_def sample_conn_def Let_def)

theorem loop_answers_in_order_witness:
  "\<exists>st' parts.
    fuse_session_loop (sample_loop_env (mounted (\<lambda>e. True) 4096 (sample_lenv scripted))) 0
      (sample_loop_state (idle_session 0) \<lparr>rb_mem = None, rb_mem_size = 0\<rparr> (sample_lib (sample_tree 0) (sample_fs [root] []))
        (map (\<lambda>q. (Bytes (kernel_msg q), False)) [sample_query 5, sample_query 6])) =
      Inr (concat parts, Waits_for_device, st') \<and> list_all2 answered [sample_query 5, sample_query 6] parts"
proof -
  let ?env = "mounted (\<lambda>e. True) 4096 (sample_lenv scripted)" and ?l = "sample_lib (sample_tree 0) (sample_fs [root] [])"
  let ?qs = "[sample_query 5, sample_query 6]"
  let ?st = "sample_loop_state (idle_session 0) \<lparr>rb_mem = None, rb_mem_size = 0\<rparr> ?l (map (\<lambda>q. (Bytes (kernel_msg q), False)) ?qs)"
  have run: "\<exists>msgs st'. fuse_session_loop (sample_loop_env ?env) 0 ?st = Inr (msgs, Waits_for_device, st')"
    by (simp add: sample_turn [OF sample_first_receive [THEN trans, OF _ _ sample_receives]] sample_turn [OF sample_receives] sample_waits)
  then obtain msgs st' where r: "fuse_session_loop (sample_loop_env ?env) 0 ?st = Inr (msgs, Waits_for_device, st')" by blast
  have "lp_ll (sample_loop_env ?env) = ?env" "(\<lambda>e :: int. True) EAGAIN" "le_mem (sample_lenv scripted) 128"
    "no_pipes (sample_loop_env ?env)" "ls_pipe ?st = None" "\<forall>q\<in>set ?qs. \<not> silent_opcode (kq_opcode q)"
    "ls_dev ?st = map (\<lambda>q. (Bytes (kernel_msg q), False)) ?qs"
    by (simp_all add: sample_loop_state_def)
  from loop_answers_in_order [OF this r] r show ?thesis by blast
qed

end
