(* ===== verification/Node_Tree_Inv.thy ===== *)
theory Node_Tree_Inv
  imports Node_Path_Correct
begin

text \<open>
  The tree of nodes as a whole (\<^verbatim>\<open>fuse-3.17.2/lib/fuse.c\<close>): the two tables agree with the heap, the reference
  count of a node is one for the kernel plus one for each child, and every node leads to one the
  kernel knows. This theory has the invariant, the search for a fresh node number, and what
  releasing a reference does, including the deletions it causes up the tree.
\<close>

section \<open>Fresh node numbers\<close>

text \<open>The numbers tried one after the other are different, up to the width of the counter.\<close>

lemma low_mask: "unat (and (w :: 64 word) 0xffffffff) = unat w mod 2 ^ 32"
proof -
  have "and w 0xffffffff = take_bit 32 w" by (simp add: take_bit_eq_mask mask_eq_exp_minus_1)
  then show ?thesis by (simp only: unsigned_take_bit_eq) (simp only: take_bit_eq_mod)
qed

lemma tab_find_id:
  assumes "tab_ok (id_key f) (f_ids f)" "inj_on (ino_of f) (elems (f_ids f))"
  shows "find_id f ino = Some a \<longleftrightarrow> a \<in> elems (f_ids f) \<and> ino_of f a = ino"
  unfolding find_id_def get_node_nocheck_def id_hash_def
  by (rule find_in_bucket [OF assms(1)]) (auto dest: inj_onD [OF assms(2)])


definition tried :: "fuse \<Rightarrow> nat \<Rightarrow> fuse_ino_t" where
  "tried f k = and (f_ctr f + of_nat k) 0xffffffff"

lemma tried_nat: "unat (tried f k) = (unat (f_ctr f) + k) mod 2 ^ 32"
proof -
  have "unat (f_ctr f + of_nat k) mod 2 ^ 32 = (unat (f_ctr f) + k) mod 2 ^ 64 mod 2 ^ 32"
    by (simp add: unat_word_ariths unat_of_nat mod_simps)
  also have "\<dots> = (unat (f_ctr f) + k) mod 2 ^ 32" by (rule mod_mod_cancel) simp
  finally show ?thesis by (simp add: tried_def low_mask)
qed

lemma tried_next:
  assumes "f_ctr f1 = tried f 1"
  shows "tried f1 k = tried f (Suc k)"
  unfolding word_unat_eq_iff tried_nat assms by (simp add: mod_simps)

lemma tried_inj: "n \<le> 2 ^ 32 \<Longrightarrow> inj_on (tried f) {1..n}"
proof (rule inj_onI)
  fix i j assume *: "n \<le> 2 ^ 32" "i \<in> {1..n}" "j \<in> {1..n}" "tried f i = tried f j"
  have "i mod 2 ^ 32 = j mod 2 ^ 32"
    using arg_cong [OF *(4), of unat] unfolding tried_nat by (simp add: nat_mod_eq_iff)
  with *(1-3) show "i = j"
    by (cases "i = 2 ^ 32"; cases "j = 2 ^ 32") simp_all
qed

text \<open>The loop ends at the first number that is not taken.\<close>

lemma next_id_loop_ends:
  assumes "\<exists>k \<in> {1..fuel}. tried f k \<noteq> 0 \<and> tried f k \<noteq> FUSE_UNKNOWN_INO \<and> find_id f (tried f k) = None"
  shows "\<exists>c g. next_id_loop fuel f = Inr (f\<lparr>f_ctr := c, f_generation := g\<rparr>) \<and> unat c < 2 ^ 32 \<and>
    c \<noteq> 0 \<and> c \<noteq> FUSE_UNKNOWN_INO \<and> find_id f c = None"
  using assms
proof (induction fuel arbitrary: f)
  case (Suc fuel)
  let ?c = "tried f 1"
  let ?f1 = "f\<lparr>f_ctr := ?c, f_generation := (if ?c = 0 then f_generation f + 1 else f_generation f)\<rparr>"
  have same: "find_id (f\<lparr>f_ctr := c, f_generation := g\<rparr>) x = find_id f x" for c g x
    by (simp add: find_id_def ino_of_def [abs_def] node_at_def)
  have run: "next_id_loop (Suc fuel) f =
      (if ?c = 0 \<or> ?c = FUSE_UNKNOWN_INO \<or> find_id f ?c \<noteq> None then next_id_loop fuel ?f1 else Inr ?f1)"
    by (simp add: Let_def same tried_def)
  show ?case
  proof (cases "?c = 0 \<or> ?c = FUSE_UNKNOWN_INO \<or> find_id f ?c \<noteq> None")
    case True
    from Suc.prems obtain k where k: "k \<in> {1..Suc fuel}" "tried f k \<noteq> 0" "tried f k \<noteq> FUSE_UNKNOWN_INO"
      "find_id f (tried f k) = None" by blast
    from k(1) have "1 \<le> k" by simp
    moreover from True k have "k \<noteq> 1" by auto
    ultimately obtain j where j: "k = Suc j" "1 \<le> j" by (cases k) auto
    have "tried ?f1 j = tried f k" using tried_next [of ?f1 f j] j(1) by simp
    with k j(1,2) have "\<exists>k \<in> {1..fuel}. tried ?f1 k \<noteq> 0 \<and> tried ?f1 k \<noteq> FUSE_UNKNOWN_INO \<and>
        find_id ?f1 (tried ?f1 k) = None"
      by (intro bexI [of _ j]) (simp_all only: same, auto)
    from Suc.IH [OF this] show ?thesis using True unfolding run same by auto
  next
    case False
    have "unat ?c < 2 ^ 32" unfolding tried_nat by simp
    with False show ?thesis unfolding run
      by (intro exI [of _ ?c] exI [of _ "f_generation f"]) simp
  qed
qed simp

lemma next_id_ok:
  assumes "tab_ok (id_key f) (f_ids f)" "t_use (f_ids f) = card (elems (f_ids f))"
    "inj_on (ino_of f) (elems (f_ids f))" "t_use (f_ids f) + 3 \<le> 2 ^ 32"
  shows "\<exists>c g. next_id f = Inr (c, f\<lparr>f_ctr := c, f_generation := g\<rparr>) \<and> unat c < 2 ^ 32 \<and>
    c \<noteq> 0 \<and> c \<noteq> FUSE_UNKNOWN_INO \<and> c \<notin> ino_of f ` elems (f_ids f)"
proof -
  let ?n = "t_use (f_ids f) + 3" and ?B = "insert 0 (insert FUSE_UNKNOWN_INO (ino_of f ` elems (f_ids f)))"
  have taken: "find_id f c = None \<longleftrightarrow> c \<notin> ino_of f ` elems (f_ids f)" for c
  proof -
    have "find_id f c \<noteq> None \<longleftrightarrow> c \<in> ino_of f ` elems (f_ids f)"
      unfolding not_None_eq tab_find_id [OF assms(1,3)] by auto
    then show ?thesis by blast
  qed
  have "card ?B \<le> card (ino_of f ` elems (f_ids f)) + 2" by (simp add: card_insert_if finite_elems)
  also have "\<dots> < ?n" using assms(2) card_image_le [OF finite_elems, of "ino_of f" "f_ids f"] by simp
  also have "?n = card (tried f ` {1..?n})" using card_image [OF tried_inj [OF assms(4)], of f] by simp
  finally have "\<not> tried f ` {1..?n} \<subseteq> ?B" using card_mono [of ?B "tried f ` {1..?n}"] finite_elems by fastforce
  then have "\<exists>k \<in> {1..?n}. tried f k \<noteq> 0 \<and> tried f k \<noteq> FUSE_UNKNOWN_INO \<and> find_id f (tried f k) = None"
    unfolding taken by blast
  from next_id_loop_ends [OF this] show ?thesis unfolding next_id_def taken by auto
qed

section \<open>Well-formed trees\<close>

definition links :: "fuse \<Rightarrow> (addr \<times> addr) set" where
  "links f = {(a, p). a \<in> elems (f_names f) \<and> n_parent (node_at f a) = Some p}"

definition kids :: "fuse \<Rightarrow> addr \<Rightarrow> addr set" where
  "kids f p = {a. (a, p) \<in> links f}"

definition ancestors :: "fuse \<Rightarrow> addr \<Rightarrow> addr set" where
  "ancestors f a = {q. (a, q) \<in> (links f)\<^sup>*}"

text \<open>The references a node has: one for the lookups of the kernel, one for each child.\<close>

definition owed :: "fuse \<Rightarrow> addr \<Rightarrow> int" where
  "owed f a = (if n_nlookup (node_at f a) = 0 then 0 else 1) + int (card (kids f a))"

definition ids_ok :: "fuse \<Rightarrow> bool" where
  "ids_ok f \<longleftrightarrow> idx_ok (id_key f) (f_ids f) \<and> elems (f_ids f) = dom (f_heap f) \<and>
     inj_on (ino_of f) (dom (f_heap f)) \<and> (\<forall>a \<in> dom (f_heap f). a < f_fresh f)"

text \<open>The nodes in \<open>S\<close> are being deleted: out of their chain, but still with a name.\<close>

definition names_ok :: "fuse \<Rightarrow> addr set \<Rightarrow> bool" where
  "names_ok f S \<longleftrightarrow> tab_ok (name_key f) (f_names f) \<and> finite S \<and> S \<subseteq> dom (f_heap f) \<and> S \<inter> elems (f_names f) = {} \<and>
     t_use (f_names f) = card (elems (f_names f)) + card S \<and>
     (\<forall>a \<in> elems (f_names f). a \<in> dom (f_heap f) \<and> n_name (node_at f a) \<noteq> None \<and> ino_of f a \<noteq> FUSE_ROOT_ID \<and>
        (\<exists>p \<in> dom (f_heap f). n_parent (node_at f a) = Some p)) \<and>
     (\<forall>a \<in> dom (f_heap f) - elems (f_names f) - S. n_parent (node_at f a) = None \<and>
        (n_name (node_at f a) = None \<or> ino_of f a = FUSE_ROOT_ID)) \<and>
     inj_on (\<lambda>a. (parent_ino f a, name_of f a)) (elems (f_names f)) \<and> acyclic (links f)"

definition counted :: "fuse \<Rightarrow> bool" where
  "counted f \<longleftrightarrow> (\<forall>a \<in> dom (f_heap f). n_refctr (node_at f a) = owed f a)"

definition tree_ok :: "fuse \<Rightarrow> bool" where
  "tree_ok f \<longleftrightarrow> ids_ok f \<and> names_ok f {} \<and> counted f \<and> (\<forall>a \<in> dom (f_heap f). 0 < owed f a) \<and>
     (\<exists>r \<in> dom (f_heap f). ino_of f r = FUSE_ROOT_ID \<and> n_nlookup (node_at f r) \<noteq> 0)"

lemma ids_okD:
  assumes "ids_ok f"
  shows "idx_ok (id_key f) (f_ids f)" "elems (f_ids f) = dom (f_heap f)" "inj_on (ino_of f) (dom (f_heap f))"
    "a \<in> dom (f_heap f) \<Longrightarrow> a < f_fresh f" "finite (dom (f_heap f))"
  using assms finite_elems [of "f_ids f"] by (auto simp: ids_ok_def)

lemma names_okD:
  assumes "names_ok f S"
  shows "tab_ok (name_key f) (f_names f)" "finite S" "S \<subseteq> dom (f_heap f)" "S \<inter> elems (f_names f) = {}"
    "t_use (f_names f) = card (elems (f_names f)) + card S"
    "inj_on (\<lambda>a. (parent_ino f a, name_of f a)) (elems (f_names f))" "acyclic (links f)"
  using assms by (auto simp: names_ok_def)

lemma named:
  assumes "names_ok f S" "a \<in> elems (f_names f)"
  obtains n nm p where "f_heap f a = Some n" "n_name n = Some nm" "n_parent n = Some p" "f_heap f p \<noteq> None"
    "n_nodeid n \<noteq> FUSE_ROOT_ID" "node_at f a = n" "(a, p) \<in> links f"
  using assms that by (force simp: names_ok_def node_at_def ino_of_def links_def dom_def)

lemma unnamed:
  assumes "names_ok f S" "a \<in> dom (f_heap f)" "a \<notin> elems (f_names f)" "a \<notin> S"
  shows "n_parent (node_at f a) = None" "n_name (node_at f a) = None \<or> ino_of f a = FUSE_ROOT_ID"
  using assms by (auto simp: names_ok_def)

lemma find_id_iff: "ids_ok f \<Longrightarrow> find_id f ino = Some a \<longleftrightarrow> a \<in> dom (f_heap f) \<and> ino_of f a = ino"
  using tab_find_id [of f ino a] by (simp add: ids_ok_def idx_ok_def)

lemma find_name_iff:
  assumes "names_ok f S"
  shows "find_name f dir nm = Some a \<longleftrightarrow> a \<in> elems (f_names f) \<and> parent_ino f a = dir \<and> name_of f a = nm"
  unfolding find_name_def lookup_node_def name_hash_def
proof (rule find_in_bucket [OF names_okD(1) [OF assms]])
  fix x y
  assume "x \<in> elems (f_names f)" "y \<in> elems (f_names f)" "parent_ino f x = dir \<and> name_of f x = nm"
    "parent_ino f y = dir \<and> name_of f y = nm"
  then show "x = y" by (intro inj_onD [OF names_okD(6) [OF assms]]) auto
qed simp

section \<open>The tables under changes of the heap\<close>

lemma tab_ok_cong:
  assumes "tab_ok raw t" "\<And>x. x \<in> elems t \<Longrightarrow> raw' x = raw x"
  shows "tab_ok raw' t"
  using assms unfolding tab_ok_def bucket_of_def elems_nth by fastforce

lemma idx_ok_cong: "idx_ok raw t \<Longrightarrow> (\<And>x. x \<in> elems t \<Longrightarrow> raw' x = raw x) \<Longrightarrow> idx_ok raw' t"
  unfolding idx_ok_def using tab_ok_cong [of raw t raw'] by blast

lemma unlink_chain_ok:
  assumes ok: "tab_ok raw t"
  shows "tab_ok raw (unlink_chain raw t x)" "elems (unlink_chain raw t x) = elems t - {x}"
    "t_use (unlink_chain raw t x) = t_use t"
proof -
  let ?b = "bucket_of raw t x" let ?c = "remove1 x (t_array t ! ?b)"
  note b = bucket_in_range [OF ok, of x]
  note dist = tab_okD(1) [OF ok b]
  have "\<forall>y \<in> set ?c. bucket_of raw t y = ?b" using tab_okD(2) [OF ok b] by (auto simp: dist)
  note t = write_bucket [OF ok b distinct_remove1 [OF dist, of x] this, of "t_use t"]
  have u: "unlink_chain raw t x = t\<lparr>t_array := (t_array t)[?b := ?c], t_use := t_use t\<rparr>"
    by (simp add: unlink_chain_def Let_def)
  show "tab_ok raw (unlink_chain raw t x)" "t_use (unlink_chain raw t x) = t_use t" using t(1) unfolding u by simp_all
  have "set ?c = set (t_array t ! ?b) - {x}" using dist by (rule set_remove1_eq)
  moreover have "set (t_array t ! ?b) \<subseteq> elems t" using b by (auto simp: elems_nth)
  moreover have "x \<in> elems t \<Longrightarrow> x \<in> set (t_array t ! ?b)" using elems_iff [OF ok] by simp
  ultimately show "elems (unlink_chain raw t x) = elems t - {x}" using t(2) unfolding u by blast
qed

lemma drop_use_ok:
  assumes "tab_ok raw t"
  shows "tab_ok raw (drop_use mem t)" "elems (drop_use mem t) = elems t" "t_use (drop_use mem t) = t_use t - 1"
proof -
  have "tab_ok raw (t\<lparr>t_use := t_use t - 1\<rparr>)" using assms by (simp add: tab_ok_def bucket_of_def)
  from remerge_ok [OF this, of mem] this show "tab_ok raw (drop_use mem t)" "elems (drop_use mem t) = elems t"
    "t_use (drop_use mem t) = t_use t - 1"
    by (simp_all add: drop_use_def Let_def elems_def)
qed

section \<open>Deleting a node, step by step\<close>

text \<open>Taking a node out of its chain, clearing its name, and freeing it.\<close>

definition unchain :: "addr \<Rightarrow> fuse \<Rightarrow> fuse" where
  "unchain a f = f\<lparr>f_names := unlink_chain (name_key f) (f_names f) a\<rparr>"

definition clear_name :: "(nat \<Rightarrow> bool) \<Rightarrow> addr \<Rightarrow> fuse \<Rightarrow> fuse" where
  "clear_name mem a f =
     (let f2 = update a (\<lambda>n. n\<lparr>n_name := None, n_parent := None\<rparr>) f in f2\<lparr>f_names := drop_use mem (f_names f2)\<rparr>)"

definition dispose :: "(nat \<Rightarrow> bool) \<Rightarrow> addr \<Rightarrow> fuse \<Rightarrow> fuse" where
  "dispose mem a f = (let f2 = (if lru_enabled f then remove_node_lru a f else f) in free_node (unhash_id mem f2 a) a)"

lemma same_heap:
  assumes "f_heap g = f_heap f"
  shows "node_at g = node_at f" "ino_of g = ino_of f" "parent_ino g = parent_ino f" "name_of g = name_of f"
proof -
  show n: "node_at g = node_at f" using assms by (simp add: node_at_def [abs_def])
  then show i: "ino_of g = ino_of f" "name_of g = name_of f" by (simp_all add: ino_of_def [abs_def] name_of_def [abs_def])
  show "parent_ino g = parent_ino f" unfolding parent_ino_def [abs_def] n i ..
qed

lemma same_names:
  assumes "f_heap g = f_heap f" "f_names g = f_names f"
  shows "names_ok g S = names_ok f S" "links g = links f" "owed g = owed f" "find_name g = find_name f"
proof -
  note h = same_heap [OF assms(1)]
  show l: "links g = links f" by (simp add: links_def h assms)
  then show "owed g = owed f" by (simp add: owed_def [abs_def] kids_def h)
  show "names_ok g S = names_ok f S" by (simp add: names_ok_def h assms l)
  show "find_name g = find_name f" by (simp add: find_name_def [abs_def] h assms)
qed

lemma unchain_frame [simp]:
  "f_heap (unchain a f) = f_heap f" "f_ids (unchain a f) = f_ids f" "f_fresh (unchain a f) = f_fresh f"
  by (simp_all add: unchain_def)

lemma unchain_keys [simp]:
  "node_at (unchain a f) = node_at f" "ino_of (unchain a f) = ino_of f" "parent_ino (unchain a f) = parent_ino f"
  "name_of (unchain a f) = name_of f"
  by (rule same_heap; simp add: unchain_def)+

lemma unchain_ok:
  assumes ids: "ids_ok f" and nok: "names_ok f S" and a: "a \<in> elems (f_names f)"
  shows "ids_ok (unchain a f)" "names_ok (unchain a f) (insert a S)" "links (unchain a f) = links f - {a} \<times> UNIV"
    "elems (f_names (unchain a f)) = elems (f_names f) - {a}"
proof -
  note t = unlink_chain_ok [OF names_okD(1) [OF nok], of a]
  show el: "elems (f_names (unchain a f)) = elems (f_names f) - {a}" by (simp add: unchain_def t(2))
  show l: "links (unchain a f) = links f - {a} \<times> UNIV" by (auto simp: links_def el)
  show "ids_ok (unchain a f)" using ids by (simp add: ids_ok_def)
  have "a \<notin> S" using nok a by (auto simp: names_ok_def)
  moreover have "card (elems (f_names f) - {a}) = card (elems (f_names f)) - 1" "0 < card (elems (f_names f))"
    using a finite_elems [of "f_names f"] by (auto simp: card_gt_0_iff)
  ultimately have use: "t_use (f_names (unchain a f)) = card (elems (f_names f) - {a}) + card (insert a S)"
    using names_okD(2,5) [OF nok] by (simp add: unchain_def t(3))
  have tab: "tab_ok (name_key f) (f_names (unchain a f))" using t(1) by (simp add: unchain_def)
  have inj: "inj_on (\<lambda>x. (parent_ino f x, name_of f x)) (elems (f_names f) - {a})"
    using names_okD(6) [OF nok] by (rule inj_on_subset) auto
  have ac: "acyclic (links (unchain a f))" using names_okD(7) [OF nok] unfolding l by (rule acyclic_subset) auto
  have rest: "\<forall>x \<in> dom (f_heap f) - (elems (f_names f) - {a}) - insert a S. n_parent (node_at f x) = None \<and>
      (n_name (node_at f x) = None \<or> ino_of f x = FUSE_ROOT_ID)"
    using nok by (auto simp: names_ok_def)
  have mem: "\<forall>x \<in> elems (f_names f) - {a}. x \<in> dom (f_heap f) \<and> n_name (node_at f x) \<noteq> None \<and>
      ino_of f x \<noteq> FUSE_ROOT_ID \<and> (\<exists>p \<in> dom (f_heap f). n_parent (node_at f x) = Some p)"
    using nok by (auto simp: names_ok_def)
  show "names_ok (unchain a f) (insert a S)"
    unfolding names_ok_def el
    using tab names_okD(2-4) [OF nok] use mem rest inj ac a nok by (auto simp: names_ok_def)
qed

text \<open>What the invariants need to know of a change of the heap that leaves the name table's nodes alone.\<close>

lemma names_ok_heap:
  assumes nok: "names_ok f (S \<union> T)" and disj: "S \<inter> T = {}"
    and tab: "tab_ok (name_key f) (f_names g)" "elems (f_names g) = elems (f_names f)"
      "t_use (f_names g) + card T = t_use (f_names f)"
    and node: "\<And>x. x \<in> elems (f_names f) \<Longrightarrow> f_heap g x = f_heap f x"
    and par: "\<And>x p. (x, p) \<in> links f \<Longrightarrow> p \<in> dom (f_heap g) \<and> ino_of g p = ino_of f p"
    and sub: "S \<subseteq> dom (f_heap g)"
    and rest: "\<And>x. x \<in> dom (f_heap g) - elems (f_names f) - S \<Longrightarrow>
      n_parent (node_at g x) = None \<and> (n_name (node_at g x) = None \<or> ino_of g x = FUSE_ROOT_ID)"
  shows "names_ok g S" "links g = links f"
proof -
  have n: "node_at g x = node_at f x" if "x \<in> elems (f_names f)" for x using node [OF that] by (simp add: node_at_def)
  show l: "links g = links f" using n by (auto simp: links_def tab(2))
  have keys: "parent_ino g x = parent_ino f x \<and> name_of g x = name_of f x \<and> ino_of g x = ino_of f x"
    if x: "x \<in> elems (f_names f)" for x
  proof -
    from named [OF nok x] obtain p where "n_parent (node_at f x) = Some p" "(x, p) \<in> links f" by auto
    with par [of x p] n [OF x] show ?thesis by (simp add: parent_ino_def name_of_def ino_of_def)
  qed
  have "tab_ok (name_key g) (f_names g)"
    using tab(1) by (rule tab_ok_cong) (simp add: keys tab(2))
  moreover have "finite S" "S \<inter> elems (f_names g) = {}" "t_use (f_names g) = card (elems (f_names g)) + card S"
    using names_okD(2,4,5) [OF nok] tab(2,3) disj by (auto simp: card_Un_disjoint)
  moreover have "\<forall>x \<in> elems (f_names g). x \<in> dom (f_heap g) \<and> n_name (node_at g x) \<noteq> None \<and>
      ino_of g x \<noteq> FUSE_ROOT_ID \<and> (\<exists>p \<in> dom (f_heap g). n_parent (node_at g x) = Some p)"
  proof
    fix x assume "x \<in> elems (f_names g)"
    then have x: "x \<in> elems (f_names f)" using tab(2) by simp
    from named [OF nok x] obtain k nm p where *: "f_heap f x = Some k" "n_name k = Some nm" "n_parent k = Some p"
      "n_nodeid k \<noteq> FUSE_ROOT_ID" "node_at f x = k" "(x, p) \<in> links f" by metis
    then have "f_heap g x = Some k" "node_at g x = k" using node [OF x] n [OF x] by simp_all
    with * par [of x p] show "x \<in> dom (f_heap g) \<and> n_name (node_at g x) \<noteq> None \<and>
      ino_of g x \<noteq> FUSE_ROOT_ID \<and> (\<exists>p \<in> dom (f_heap g). n_parent (node_at g x) = Some p)"
      by (auto simp: ino_of_def)
  qed
  moreover have "inj_on (\<lambda>a. (parent_ino g a, name_of g a)) (elems (f_names g))"
    using names_okD(6) [OF nok] keys tab(2) by (simp add: inj_on_def)
  moreover have "acyclic (links g)" using names_okD(7) [OF nok] l by simp
  ultimately show "names_ok g S" unfolding names_ok_def using sub rest tab(2) by auto
qed

lemma clear_name_frame [simp]:
  "f_heap (clear_name mem a f) = (f_heap f)(a := map_option (\<lambda>n. n\<lparr>n_name := None, n_parent := None\<rparr>) (f_heap f a))"
  "f_ids (clear_name mem a f) = f_ids f" "f_fresh (clear_name mem a f) = f_fresh f"
  "f_names (clear_name mem a f) = drop_use mem (f_names f)"
  by (simp_all add: clear_name_def Let_def update_def)

lemma clear_name_node [simp]:
  "ino_of (clear_name mem a f) x = ino_of f x" "x \<noteq> a \<Longrightarrow> node_at (clear_name mem a f) x = node_at f x"
  "n_name (node_at (clear_name mem a f) a) = None" "n_parent (node_at (clear_name mem a f) a) = None"
  by (auto simp: ino_of_def node_at_def node_zero_def split: option.splits)

lemma clear_name_ok:
  assumes ids: "ids_ok f" and nok: "names_ok f (insert a S)" and a: "a \<notin> S"
  shows "ids_ok (clear_name mem a f)" "names_ok (clear_name mem a f) S" "links (clear_name mem a f) = links f"
proof -
  let ?g = "clear_name mem a f"
  have d: "dom (f_heap ?g) = dom (f_heap f)" by (auto split: if_splits)
  have "ino_of ?g = ino_of f" by (rule ext) simp
  then show "ids_ok ?g" using ids unfolding ids_ok_def d by simp
  note t = drop_use_ok [OF names_okD(1) [OF nok], of mem]
  have el: "a \<notin> elems (f_names f)" using names_okD(4) [OF nok] by auto
  have use: "t_use (f_names ?g) + card {a} = t_use (f_names f)"
    using names_okD(2,5) [OF nok] a by (simp add: t(3))
  have Sa: "names_ok f (S \<union> {a})" "S \<inter> {a} = {}" using nok a by auto
  have rest: "n_parent (node_at ?g x) = None \<and> (n_name (node_at ?g x) = None \<or> ino_of ?g x = FUSE_ROOT_ID)"
    if "x \<in> dom (f_heap ?g) - elems (f_names f) - S" for x
    using that [unfolded d] unnamed [OF nok, of x] by (cases "x = a") auto
  have "x \<in> elems (f_names f) \<Longrightarrow> f_heap ?g x = f_heap f x" for x using el by auto
  moreover have "p \<in> dom (f_heap ?g) \<and> ino_of ?g p = ino_of f p" if "(x, p) \<in> links f" for x p
    using that nok unfolding d by (auto simp: names_ok_def links_def)
  moreover have "S \<subseteq> dom (f_heap ?g)" using names_okD(3) [OF nok] unfolding d by auto
  ultimately show "names_ok ?g S" "links ?g = links f"
    using names_ok_heap [OF Sa, of ?g] t(1,2) use rest by simp_all
qed

lemma dispose_frame [simp]:
  "f_heap (dispose mem a f) = (f_heap f)(a := None)" "f_names (dispose mem a f) = f_names f"
  "f_fresh (dispose mem a f) = f_fresh f"
  by (simp_all add: dispose_def Let_def free_node_def unhash_id_def remove_node_lru_def)

lemma dispose_ids: "f_ids (dispose mem a f) = unhash_node mem (id_key f) (f_ids f) a"
proof -
  have "ino_of (remove_node_lru a f) = ino_of f" by (rule same_heap) (simp add: remove_node_lru_def)
  then show ?thesis by (simp add: dispose_def Let_def free_node_def unhash_id_def) (simp add: remove_node_lru_def)
qed

lemma dispose_node [simp]: "x \<noteq> a \<Longrightarrow> node_at (dispose mem a f) x = node_at f x"
  "x \<noteq> a \<Longrightarrow> ino_of (dispose mem a f) x = ino_of f x"
  by (simp_all add: node_at_def ino_of_def)

lemma dispose_ok:
  assumes ids: "ids_ok f" and nok: "names_ok f S" and a: "a \<in> dom (f_heap f)" "a \<notin> S" "a \<notin> elems (f_names f)"
    and leaf: "kids f a = {}"
  shows "ids_ok (dispose mem a f)" "names_ok (dispose mem a f) S" "links (dispose mem a f) = links f"
proof -
  let ?g = "dispose mem a f"
  have d: "dom (f_heap ?g) = dom (f_heap f) - {a}" by (auto split: if_splits)
  from unhash_node_ok [OF ids_okD(1) [OF ids], of mem a] ids_okD(2) [OF ids]
  have t: "idx_ok (id_key f) (f_ids ?g)" "elems (f_ids ?g) = dom (f_heap ?g)" unfolding dispose_ids d by simp_all
  have "idx_ok (id_key ?g) (f_ids ?g)"
    using t(1) by (rule idx_ok_cong) (metis t(2) d DiffE dispose_node(2) insertCI)
  moreover have "inj_on (ino_of ?g) (dom (f_heap ?g))"
    using ids_okD(3) [OF ids] unfolding d by (auto simp: inj_on_def)
  ultimately show "ids_ok ?g" unfolding ids_ok_def using t(2) ids_okD(4) [OF ids] d by auto
  have nok2: "names_ok f (S \<union> {})" "S \<inter> {} = {}" using nok by auto
  have "x \<in> elems (f_names f) \<Longrightarrow> f_heap ?g x = f_heap f x" for x using a(3) by auto
  moreover have "p \<in> dom (f_heap ?g) \<and> ino_of ?g p = ino_of f p" if l: "(x, p) \<in> links f" for x p
  proof -
    have "p \<noteq> a" using l leaf by (auto simp: kids_def)
    moreover have "p \<in> dom (f_heap f)" using l nok by (auto simp: names_ok_def links_def)
    ultimately show ?thesis unfolding d by simp
  qed
  moreover have "S \<subseteq> dom (f_heap ?g)" using names_okD(3) [OF nok] a(2) unfolding d by auto
  moreover have "n_parent (node_at ?g x) = None \<and> (n_name (node_at ?g x) = None \<or> ino_of ?g x = FUSE_ROOT_ID)"
    if "x \<in> dom (f_heap ?g) - elems (f_names f) - S" for x
    using that unnamed [OF nok, of x] unfolding d by auto
  ultimately show "names_ok ?g S" "links ?g = links f"
    using names_ok_heap [OF nok2, of ?g] names_okD(1) [OF nok] by simp_all
qed

text \<open>Changing counts or locks of a node changes neither table.\<close>

lemma update_soft:
  assumes "\<And>n. n_nodeid (g n) = n_nodeid n \<and> n_name (g n) = n_name n \<and> n_parent (g n) = n_parent n"
  shows "ids_ok (update a g f) = ids_ok f" "names_ok (update a g f) S = names_ok f S" "links (update a g f) = links f"
    "dom (f_heap (update a g f)) = dom (f_heap f)" "kids (update a g f) = kids f" "ancestors (update a g f) = ancestors f"
    "ino_of (update a g f) = ino_of f" "find_id (update a g f) = find_id f" "find_name (update a g f) = find_name f"
proof -
  have n: "n_nodeid (node_at (update a g f) x) = n_nodeid (node_at f x) \<and>
      n_name (node_at (update a g f) x) = n_name (node_at f x) \<and>
      n_parent (node_at (update a g f) x) = n_parent (node_at f x)" for x
    using assms by (auto simp: node_at_def heap_update split: option.split)
  then have i: "ino_of (update a g f) = ino_of f" "name_of (update a g f) = name_of f"
    by (auto simp: ino_of_def name_of_def)
  have p: "parent_ino (update a g f) = parent_ino f" unfolding parent_ino_def [abs_def] i using n by simp
  show d: "dom (f_heap (update a g f)) = dom (f_heap f)" by (auto simp: heap_update split: if_splits)
  show l: "links (update a g f) = links f" using n by (auto simp: links_def)
  then show "kids (update a g f) = kids f" "ancestors (update a g f) = ancestors f"
    by (simp_all add: kids_def [abs_def] ancestors_def [abs_def])
  show "ids_ok (update a g f) = ids_ok f" unfolding ids_ok_def d i by simp
  show "names_ok (update a g f) S = names_ok f S" unfolding names_ok_def d i l p using n by simp
  show "find_id (update a g f) = find_id f" "find_name (update a g f) = find_name f"
    unfolding find_id_def [abs_def] find_name_def [abs_def] i p by simp_all
qed (auto simp: ino_of_def node_at_def heap_update assms split: option.split)

section \<open>Releasing a reference\<close>

text \<open>\<open>pruned f D f'\<close>: the nodes in \<open>D\<close>, none of them known to the kernel, are gone, and of the others at most the
  reference count has changed.\<close>

definition pruned :: "fuse \<Rightarrow> addr set \<Rightarrow> fuse \<Rightarrow> bool" where
  "pruned f D f' \<longleftrightarrow> (\<forall>x \<in> D. f_heap f' x = None \<and> n_nlookup (node_at f x) = 0) \<and>
     (\<forall>x. x \<notin> D \<longrightarrow> (\<exists>r. f_heap f' x = map_option (\<lambda>n. n\<lparr>n_refctr := r\<rparr>) (f_heap f x))) \<and>
     elems (f_names f') = elems (f_names f) - D \<and> f_fresh f' = f_fresh f \<and> f_ctr f' = f_ctr f \<and>
     f_generation f' = f_generation f \<and> f_remember f' = f_remember f \<and> f_lockq f' = f_lockq f"

lemma pruned_node:
  assumes "pruned f D f'" "x \<notin> D"
  shows "\<exists>r. node_at f' x = (node_at f x)\<lparr>n_refctr := r\<rparr>" "x \<in> dom (f_heap f') \<longleftrightarrow> x \<in> dom (f_heap f)"
proof -
  from assms obtain r where r: "f_heap f' x = map_option (\<lambda>n. n\<lparr>n_refctr := r\<rparr>) (f_heap f x)"
    unfolding pruned_def by blast
  then show "\<exists>r. node_at f' x = (node_at f x)\<lparr>n_refctr := r\<rparr>"
    by (cases "f_heap f x") (auto simp: node_at_def node_zero_def)
  from r show "x \<in> dom (f_heap f') \<longleftrightarrow> x \<in> dom (f_heap f)" by (cases "f_heap f x") auto
qed

lemma pruned_same:
  assumes "pruned f D f'" "x \<notin> D"
  shows "n_parent (node_at f' x) = n_parent (node_at f x)" "n_name (node_at f' x) = n_name (node_at f x)"
    "n_nlookup (node_at f' x) = n_nlookup (node_at f x)" "n_treelock (node_at f' x) = n_treelock (node_at f x)"
    "ino_of f' x = ino_of f x" "name_of f' x = name_of f x"
  using pruned_node(1) [OF assms] by (auto simp: ino_of_def name_of_def)

lemma pruned_dom: "pruned f D f' \<Longrightarrow> dom (f_heap f') = dom (f_heap f) - D"
proof (rule set_eqI)
  fix x assume *: "pruned f D f'"
  show "x \<in> dom (f_heap f') \<longleftrightarrow> x \<in> dom (f_heap f) - D"
    using * pruned_node(2) [OF *, of x] by (cases "x \<in> D") (auto simp: pruned_def)
qed

lemma pruned_links: "pruned f D f' \<Longrightarrow> links f' = links f - D \<times> UNIV"
  using pruned_same(1) [of f D f'] by (auto simp: links_def pruned_def)

lemma unhash_name_step:
  assumes nok: "names_ok f S" and a: "a \<in> elems (f_names f)" "(a, q) \<in> links f"
  shows "unhash_name mem (Suc k) f a = cbind (unref_node mem k (unchain a f) q) (\<lambda>f1. Inr (clear_name mem a f1))"
proof -
  from named [OF nok a(1)] obtain n nm where n: "f_heap f a = Some n" "n_name n = Some nm" "node_at f a = n" by metis
  with a(2) have "n_parent n = Some q" by (auto simp: links_def)
  moreover have "a \<in> set (t_array (f_names f) ! bucket_of (name_key f) (f_names f) a)"
    using a(1) elems_iff [OF names_okD(1) [OF nok]] by simp
  ultimately show ?thesis using n by (simp add: deref_def unchain_def clear_name_def Let_def)
qed

lemma delete_node_step:
  assumes "f_heap f a = Some n" "n_treelock n = 0"
  shows "delete_node mem (Suc k) f a = cbind (unhash_name mem k f a) (\<lambda>f1. Inr (dispose mem a f1))"
  using assms by (simp add: deref_def dispose_def Let_def)

lemma finite_kids: "finite (kids f a)"
  using finite_elems [of "f_names f"] by (rule rev_finite_subset) (auto simp: kids_def links_def)

lemma ancestors_dom: "names_ok f S \<Longrightarrow> a \<in> dom (f_heap f) \<Longrightarrow> ancestors f a \<subseteq> dom (f_heap f)"
proof
  fix q assume "names_ok f S" "a \<in> dom (f_heap f)" "q \<in> ancestors f a"
  then have "(a, q) \<in> (links f)\<^sup>*" by (simp add: ancestors_def)
  then show "q \<in> dom (f_heap f)"
    using \<open>names_ok f S\<close> \<open>a \<in> dom (f_heap f)\<close> by induction (auto simp: names_ok_def links_def)
qed

lemma ancestors_parent:
  assumes nok: "names_ok f S" and a: "(a, q) \<in> links f" and g: "links g \<subseteq> links f"
  shows "ancestors g q \<subseteq> ancestors f a - {a}"
proof
  fix x assume "x \<in> ancestors g q"
  then have x: "(q, x) \<in> (links f)\<^sup>*" using g rtrancl_mono by (auto simp: ancestors_def)
  with a have "(a, x) \<in> (links f)\<^sup>+" by (rule rtrancl_into_trancl2)
  with names_okD(7) [OF nok] show "x \<in> ancestors f a - {a}" by (auto simp: ancestors_def acyclic_def)
qed

text \<open>One reference too many at \<open>p\<close>, and the state after it has been released.\<close>

definition releasable :: "fuse \<Rightarrow> addr set \<Rightarrow> addr \<Rightarrow> bool" where
  "releasable f S p \<longleftrightarrow> ids_ok f \<and> names_ok f S \<and> p \<in> dom (f_heap f) \<and>
     (\<forall>x \<in> dom (f_heap f). n_refctr (node_at f x) = owed f x + (if x = p then 1 else 0)) \<and>
     (\<forall>x \<in> dom (f_heap f) - S - {p}. 0 < owed f x) \<and> S \<inter> ancestors f p = {} \<and>
     (\<forall>x \<in> dom (f_heap f). n_nlookup (node_at f x) = 0 \<longrightarrow> n_treelock (node_at f x) = 0 \<and> ino_of f x \<noteq> FUSE_ROOT_ID)"

definition released :: "fuse \<Rightarrow> addr set \<Rightarrow> addr \<Rightarrow> fuse \<Rightarrow> bool" where
  "released f S p f' \<longleftrightarrow> ids_ok f' \<and> names_ok f' S \<and> counted f' \<and> (\<forall>x \<in> dom (f_heap f') - S. 0 < owed f' x) \<and>
     (\<forall>x. x \<notin> ancestors f p \<longrightarrow> f_heap f' x = f_heap f x) \<and> (\<exists>D. pruned f D f')"

definition dec_ref :: "addr \<Rightarrow> fuse \<Rightarrow> fuse" where
  "dec_ref p = update p (\<lambda>n. n\<lparr>n_refctr := n_refctr n - 1\<rparr>)"

lemma more_frames:
  "f_ctr (dispose mem a f) = f_ctr f" "f_generation (dispose mem a f) = f_generation f"
  "f_remember (dispose mem a f) = f_remember f" "f_lockq (dispose mem a f) = f_lockq f"
  "f_ctr (clear_name mem a f) = f_ctr f" "f_generation (clear_name mem a f) = f_generation f"
  "f_remember (clear_name mem a f) = f_remember f" "f_lockq (clear_name mem a f) = f_lockq f"
  "f_ctr (unchain a f) = f_ctr f" "f_generation (unchain a f) = f_generation f"
  "f_remember (unchain a f) = f_remember f" "f_lockq (unchain a f) = f_lockq f"
  "f_ctr (dec_ref a f) = f_ctr f" "f_generation (dec_ref a f) = f_generation f"
  "f_remember (dec_ref a f) = f_remember f" "f_lockq (dec_ref a f) = f_lockq f"
  by (simp_all add: dispose_def clear_name_def unchain_def dec_ref_def update_def free_node_def unhash_id_def
      remove_node_lru_def Let_def)

lemma dec_ref_node:
  "node_at (dec_ref p f) x = (if x = p \<and> p \<in> dom (f_heap f) then (node_at f p)\<lparr>n_refctr := n_refctr (node_at f p) - 1\<rparr>
     else node_at f x)"
  by (auto simp: dec_ref_def node_at_def heap_update split: option.split)

lemmas dec_ref_soft [simp] =
  update_soft [of "\<lambda>n. n\<lparr>n_refctr := n_refctr n - 1\<rparr>", simplified, folded dec_ref_def]

lemma dec_ref_frame [simp]:
  "f_names (dec_ref p f) = f_names f" "f_fresh (dec_ref p f) = f_fresh f" "owed (dec_ref p f) = owed f"
  "f_heap (dec_ref p f) x = (if x = p then map_option (\<lambda>n. n\<lparr>n_refctr := n_refctr n - 1\<rparr>) (f_heap f p) else f_heap f x)"
  by (simp_all add: dec_ref_def heap_update)
    (auto simp: owed_def [abs_def] dec_ref_node [unfolded dec_ref_def] dec_ref_soft(5) [unfolded dec_ref_def])

lemma release_stays:
  assumes r: "releasable f S p" and more: "n_refctr (node_at f p) \<noteq> 1"
  shows "released f S p (dec_ref p f)"
proof -
  let ?g = "dec_ref p f"
  have "counted ?g" unfolding counted_def using r by (auto simp: releasable_def dec_ref_node)
  moreover have "0 < owed f x" if "x \<in> dom (f_heap f) - S" for x
  proof (cases "x = p")
    case True
    have "owed f p \<noteq> 0" using r more by (simp add: releasable_def)
    moreover have "0 \<le> owed f p" by (simp add: owed_def)
    ultimately show ?thesis using True by simp
  qed (use that r in \<open>auto simp: releasable_def\<close>)
  moreover have "p \<in> ancestors f p" by (simp add: ancestors_def)
  moreover have "pruned f {} ?g" unfolding pruned_def
  proof (intro conjI allI impI)
    fix x
    show "\<exists>r. f_heap ?g x = map_option (\<lambda>n. n\<lparr>n_refctr := r\<rparr>) (f_heap f x)"
      by (cases "f_heap f x") (auto intro: exI [of _ "n_refctr (the (f_heap f x))"] simp: exI)
  qed (simp_all add: dec_ref_def update_def)
  ultimately show ?thesis using r unfolding released_def releasable_def by auto
qed

text \<open>The last reference is gone: no lookups, no children, not locked, not the root.\<close>

lemma release_last:
  assumes r: "releasable f S p" and one: "n_refctr (node_at f p) = 1"
  shows "n_nlookup (node_at f p) = 0" "kids f p = {}" "n_treelock (node_at f p) = 0" "ino_of f p \<noteq> FUSE_ROOT_ID" "p \<notin> S"
proof -
  have "owed f p = 0" using r one by (auto simp: releasable_def)
  then show l: "n_nlookup (node_at f p) = 0" and "kids f p = {}"
    using finite_kids [of f p] by (auto simp: owed_def split: if_splits)
  then show "n_treelock (node_at f p) = 0" "ino_of f p \<noteq> FUSE_ROOT_ID" using r by (auto simp: releasable_def)
  have "p \<in> ancestors f p" by (simp add: ancestors_def)
  then show "p \<notin> S" using r by (auto simp: releasable_def)
qed

lemma owed_links: "n_nlookup (node_at g x) = n_nlookup (node_at f x) \<Longrightarrow> links g = links f \<Longrightarrow> owed g x = owed f x"
  by (simp add: owed_def kids_def)

lemma release_leaf:
  assumes r: "releasable f S p" and one: "n_refctr (node_at f p) = 1" and p: "p \<notin> elems (f_names f)"
  shows "released f S p (dispose mem p (dec_ref p f))"
proof -
  let ?g = "dispose mem p (dec_ref p f)"
  note last = release_last [OF r one]
  have ok: "ids_ok (dec_ref p f)" "names_ok (dec_ref p f) S" "p \<in> dom (f_heap (dec_ref p f))" "p \<notin> elems (f_names (dec_ref p f))"
    "kids (dec_ref p f) p = {}" using r p last by (simp_all add: releasable_def)
  note d = dispose_ok [OF ok(1,2,3) last(5) ok(4,5), of mem]
  have dom: "dom (f_heap ?g) = dom (f_heap f) - {p}" by (auto split: if_splits)
  have n: "node_at ?g x = node_at f x" if "x \<noteq> p" for x using that by (simp add: dec_ref_node)
  have o: "owed ?g x = owed f x" if "x \<noteq> p" for x by (rule owed_links) (use n [OF that] d(3) in simp_all)
  have "counted ?g" unfolding counted_def dom using r o n by (auto simp: releasable_def)
  moreover have "\<forall>x \<in> dom (f_heap ?g) - S. 0 < owed ?g x" unfolding dom using r o by (auto simp: releasable_def)
  moreover have "p \<in> ancestors f p" by (simp add: ancestors_def)
  moreover have "pruned f {p} ?g" unfolding pruned_def
  proof (intro conjI allI impI)
    fix x assume "x \<notin> {p}"
    then show "\<exists>r. f_heap ?g x = map_option (\<lambda>n. n\<lparr>n_refctr := r\<rparr>) (f_heap f x)"
      by (cases "f_heap f x") (auto intro: exI [of _ "n_refctr (the (f_heap f x))"])
  qed (use last p in \<open>simp_all add: more_frames\<close>)
  ultimately show ?thesis unfolding released_def using d(1,2) by auto
qed

text \<open>Taking a name away leaves one reference too many at the parent.\<close>

lemma unchain_releasable:
  assumes ids: "ids_ok f" and nok: "names_ok f S" and cnt: "counted f" and q: "(p, q) \<in> links f"
    and pos: "\<forall>x \<in> dom (f_heap f) - S - {p}. 0 < owed f x" and anc: "S \<inter> ancestors f p = {}"
    and quiet: "\<forall>x \<in> dom (f_heap f). n_nlookup (node_at f x) = 0 \<longrightarrow> n_treelock (node_at f x) = 0 \<and> ino_of f x \<noteq> FUSE_ROOT_ID"
  shows "releasable (unchain p f) (insert p S) q"
proof -
  let ?g = "unchain p f"
  have p: "p \<in> elems (f_names f)" using q by (simp add: links_def)
  note u = unchain_ok [OF ids nok p]
  have only: "(p, x) \<in> links f \<longleftrightarrow> x = q" for x using q by (auto simp: links_def)
  have kids: "kids ?g x = (if x = q then kids f q - {p} else kids f x)" for x
    using only [of x] by (auto simp: kids_def u(3))
  have "p \<in> kids f q" using q by (simp add: kids_def)
  then have card: "int (card (kids f q)) = int (card (kids ?g q)) + 1"
    using card_Suc_Diff1 [OF finite_kids] kids by fastforce
  have o: "owed f x = owed ?g x + (if x = q then 1 else 0)" for x
    unfolding owed_def unchain_keys using card kids [of x] by (cases "x = q") simp_all
  have "n_refctr (node_at ?g x) = owed ?g x + (if x = q then 1 else 0)" if "x \<in> dom (f_heap f)" for x
    using cnt that o [of x] by (simp add: counted_def)
  moreover have "0 < owed ?g x" if "x \<in> dom (f_heap f) - insert p S - {q}" for x
  proof -
    have "0 < owed f x" using that pos by simp
    then show ?thesis using that o [of x] by simp
  qed
  moreover have "q \<in> dom (f_heap f)" using nok q by (auto simp: names_ok_def links_def)
  moreover have "links ?g \<subseteq> links f" using u(3) by auto
  from ancestors_parent [OF nok q this] anc have "insert p S \<inter> ancestors ?g q = {}" by auto
  ultimately show ?thesis using u(1,2) quiet unfolding releasable_def by simp
qed

lemma release_up:
  assumes r: "releasable f S p" and one: "n_refctr (node_at f p) = 1" and q: "(p, q) \<in> links f"
  shows "releasable (unchain p (dec_ref p f)) (insert p S) q"
proof (rule unchain_releasable)
  have "n_refctr (node_at f x) = owed f x + (if x = p then 1 else 0)" if "x \<in> dom (f_heap f)" for x
    using r that by (simp add: releasable_def)
  then show "counted (dec_ref p f)" by (auto simp: counted_def dec_ref_node)
qed (use r q in \<open>simp_all add: releasable_def dec_ref_node\<close>)

lemma release_down:
  assumes r: "releasable f S p" and one: "n_refctr (node_at f p) = 1" and q: "(p, q) \<in> links f"
    and up: "released (unchain p (dec_ref p f)) (insert p S) q f3"
  shows "released f S p (dispose mem p (clear_name mem p f3))"
proof -
  let ?f2 = "unchain p (dec_ref p f)" and ?f5 = "clear_name mem p f3"
  let ?g = "dispose mem p ?f5"
  note last = release_last [OF r one]
  have nok: "names_ok f S" and ok: "ids_ok (dec_ref p f)" "names_ok (dec_ref p f) S" "p \<in> elems (f_names (dec_ref p f))"
    using r q by (auto simp: releasable_def links_def)
  note u = unchain_ok [OF ok]
  have anc: "ancestors ?f2 q \<subseteq> ancestors f p - {p}" using u(3) by (intro ancestors_parent [OF nok q]) auto
  from up obtain D where D: "pruned ?f2 D f3" and f3: "ids_ok f3" "names_ok f3 (insert p S)" "counted f3"
    "\<forall>x \<in> dom (f_heap f3) - insert p S. 0 < owed f3 x" "\<forall>x. x \<notin> ancestors ?f2 q \<longrightarrow> f_heap f3 x = f_heap ?f2 x"
    unfolding released_def by blast
  note c = clear_name_ok [OF f3(1,2) last(5), of mem]
  have p3: "f_heap f3 p = f_heap ?f2 p" using f3(5) anc by blast
  have pdom: "p \<in> dom (f_heap f)" using r by (simp add: releasable_def)
  have pD: "p \<notin> D" using D p3 pdom by (auto simp: pruned_def)
  have el: "elems (f_names ?f5) = elems (f_names f) - {p} - D"
    using drop_use_ok(2) [OF names_okD(1) [OF f3(2)]] D u(4) by (simp add: pruned_def)
  have "kids f3 p \<subseteq> kids f p" using pruned_links [OF D] u(3) by (auto simp: kids_def)
  then have leaf: "kids ?f5 p = {}" using last(2) by (simp add: kids_def c(3))
  have p5: "p \<in> dom (f_heap ?f5)" "p \<notin> elems (f_names ?f5)" using p3 pdom el by auto
  note d = dispose_ok [OF c(1,2) p5(1) last(5) p5(2) leaf, of mem]
  have dom: "dom (f_heap ?g) = dom (f_heap f3) - {p}" by (auto split: if_splits)
  have n: "node_at ?g x = node_at f3 x" if "x \<noteq> p" for x using that by simp
  have o: "owed ?g x = owed f3 x" if "x \<noteq> p" for x
    by (rule owed_links) (use n [OF that] d(3) c(3) in simp_all)
  have "counted ?g" unfolding counted_def dom using f3(3) o n by (auto simp: counted_def)
  moreover have "\<forall>x \<in> dom (f_heap ?g) - S. 0 < owed ?g x" unfolding dom using f3(4) o by auto
  moreover have "f_heap ?g x = f_heap f x" if "x \<notin> ancestors f p" for x
  proof -
    have "x \<noteq> p" using that by (auto simp: ancestors_def)
    then show ?thesis using f3(5) anc that by auto
  qed
  moreover have "pruned f (insert p D) ?g" unfolding pruned_def
  proof (intro conjI allI impI ballI)
    fix x
    show "f_heap ?g x = None" if "x \<in> insert p D" using that D by (auto simp: pruned_def)
    show "n_nlookup (node_at f x) = 0" if "x \<in> insert p D"
      using that D last(1) pD by (auto simp: pruned_def dec_ref_node split: if_splits)
    show "\<exists>r. f_heap ?g x = map_option (\<lambda>n. n\<lparr>n_refctr := r\<rparr>) (f_heap f x)" if "x \<notin> insert p D"
    proof -
      from that D have "\<exists>r. f_heap f3 x = map_option (\<lambda>n. n\<lparr>n_refctr := r\<rparr>) (f_heap ?f2 x)" unfolding pruned_def by blast
      with that show ?thesis by simp
    qed
  qed (use D el in \<open>auto simp: pruned_def more_frames\<close>)
  ultimately show ?thesis unfolding released_def using d(1,2) by blast
qed

text \<open>Releasing ends, whatever it deletes on the way up, with fuel for three calls per ancestor.\<close>

lemma unref_ok:
  assumes "releasable f S p" "3 * card (ancestors f p) \<le> fuel"
  shows "\<exists>f'. unref_node mem fuel f p = Inr f' \<and> released f S p f'"
  using assms
proof (induction fuel arbitrary: f S p rule: less_induct)
  case (less fuel)
  note r = less.prems(1)
  have nok: "names_ok f S" and pdom: "p \<in> dom (f_heap f)" using r by (simp_all add: releasable_def)
  have fin: "finite (ancestors f p)" using ancestors_dom [OF nok pdom] ids_okD(5) r
    by (auto intro: finite_subset simp: releasable_def)
  have "p \<in> ancestors f p" by (simp add: ancestors_def)
  then have "1 \<le> card (ancestors f p)" using fin by (simp add: Suc_le_eq card_gt_0_iff) blast
  then obtain k where k: "fuel = Suc (Suc (Suc k))" "3 * (card (ancestors f p) - 1) \<le> k"
    using less.prems(2) by (cases fuel; cases "fuel - 1"; cases "fuel - 2") auto
  from pdom obtain n where n: "f_heap f p = Some n" "node_at f p = n" by (auto simp: node_at_def)
  have "0 \<le> owed f p" by (simp add: owed_def)
  moreover have "n_refctr (node_at f p) = owed f p + (if p = p then 1 else 0)" using r pdom unfolding releasable_def by blast
  ultimately have pos: "0 < n_refctr n" using n(2) by simp
  have step: "unref_node mem fuel f p =
      (if n_refctr n = 1 then delete_node mem (Suc (Suc k)) (dec_ref p f) p else Inr (dec_ref p f))"
    using pos n by (simp add: k(1) deref_def Let_def dec_ref_def del: delete_node.simps)
  show ?case
  proof (cases "n_refctr n = 1")
    case False
    then show ?thesis using release_stays [OF r] step n(2) by simp
  next
    case True
    note one = True [folded n(2)]
    note last = release_last [OF r one]
    have d: "f_heap (dec_ref p f) p = Some (n\<lparr>n_refctr := n_refctr n - 1\<rparr>)" "node_at (dec_ref p f) p = n\<lparr>n_refctr := n_refctr n - 1\<rparr>"
      using n pdom by (simp_all add: dec_ref_node)
    have del: "unref_node mem fuel f p = cbind (unhash_name mem (Suc k) (dec_ref p f) p) (\<lambda>f1. Inr (dispose mem p f1))"
      unfolding step using True delete_node_step [OF d(1)] last(3) n(2) by simp
    show ?thesis
    proof (cases "p \<in> elems (f_names f)")
      case False
      then have "n_name n = None" using unnamed(2) [OF nok pdom] last(4,5) n(2) by auto
      then have "unhash_name mem (Suc k) (dec_ref p f) p = Inr (dec_ref p f)" using n(1) by (simp add: deref_def)
      with del release_leaf [OF r one False] show ?thesis by simp
    next
      case True
      with named [OF nok] obtain q where q: "(p, q) \<in> links f" by metis
      let ?f2 = "unchain p (dec_ref p f)"
      have ok: "ids_ok (dec_ref p f)" "names_ok (dec_ref p f) S" "p \<in> elems (f_names (dec_ref p f))"
        using r True by (simp_all add: releasable_def)
      note up = release_up [OF r one q]
      have "links ?f2 \<subseteq> links f" using unchain_ok(3) [OF ok] by auto
      from ancestors_parent [OF nok q this] have "card (ancestors ?f2 q) \<le> card (ancestors f p - {p})"
        using fin by (intro card_mono) auto
      also have "\<dots> = card (ancestors f p) - 1" using \<open>p \<in> ancestors f p\<close> fin by simp
      finally have "3 * card (ancestors ?f2 q) \<le> k" using k(2) by linarith
      from less.IH [OF _ up this] k(1) obtain f3 where
        f3: "unref_node mem k ?f2 q = Inr f3" "released ?f2 (insert p S) q f3" by auto
      have "unhash_name mem (Suc k) (dec_ref p f) p = Inr (clear_name mem p f3)"
        using unhash_name_step [OF ok(2,3), of q mem k] q f3(1) by simp
      with del release_down [OF r one q f3(2)] show ?thesis by simp
    qed
  qed
qed

end
