(* ===== verification/Node_Tree_Correct.thy ===== *)
theory Node_Tree_Correct
  imports Node_Tree_Inv
begin

text \<open>
  The operations on the tree of nodes (\<^verbatim>\<open>fuse-3.17.2/lib/fuse.c\<close>): looking up, forgetting, removing and
  renaming keep the tree well-formed in every order, and what each of them does to the names and
  the counts.
\<close>

section \<open>Forgetting and removing\<close>

text \<open>No node the kernel has forgotten is locked.\<close>

definition unlocked :: "fuse \<Rightarrow> bool" where
  "unlocked f \<longleftrightarrow> (\<forall>x \<in> dom (f_heap f). n_nlookup (node_at f x) = 0 \<longrightarrow> n_treelock (node_at f x) = 0)"

lemma tree_okD:
  assumes "tree_ok f"
  shows "ids_ok f" "names_ok f {}" "counted f" "\<forall>a \<in> dom (f_heap f). 0 < owed f a"
    "a \<in> dom (f_heap f) \<Longrightarrow> ino_of f a = FUSE_ROOT_ID \<Longrightarrow> n_nlookup (node_at f a) \<noteq> 0"
proof -
  show "ids_ok f" "names_ok f {}" "counted f" "\<forall>a \<in> dom (f_heap f). 0 < owed f a"
    using assms unfolding tree_ok_def by blast+
  from assms obtain r where r: "r \<in> dom (f_heap f)" "ino_of f r = FUSE_ROOT_ID" "n_nlookup (node_at f r) \<noteq> 0"
    unfolding tree_ok_def by blast
  assume "a \<in> dom (f_heap f)" "ino_of f a = FUSE_ROOT_ID"
  with r have "a = r" by (intro inj_onD [OF ids_okD(3) [OF \<open>ids_ok f\<close>]]) simp_all
  with r(3) show "n_nlookup (node_at f a) \<noteq> 0" by simp
qed

lemma tree_ok_lru [simp]: "tree_ok (f\<lparr>f_lru := x\<rparr>) = tree_ok f"
proof -
  let ?g = "f\<lparr>f_lru := x\<rparr>"
  have h: "node_at ?g = node_at f" "ino_of ?g = ino_of f" "parent_ino ?g = parent_ino f" "name_of ?g = name_of f"
    by (rule same_heap; simp)+
  have l: "links ?g = links f" by (simp add: links_def h)
  then have "owed ?g = owed f" by (simp add: owed_def [abs_def] kids_def h)
  then show ?thesis by (simp add: tree_ok_def ids_ok_def names_ok_def counted_def h l)
qed

lemma fuel_enough:
  assumes "ids_ok f" "names_ok f S" "a \<in> dom (f_heap f)"
  shows "3 * card (ancestors f a) \<le> fuel_of f - 3"
proof -
  have "ancestors f a \<subseteq> {..<f_fresh f}" using ancestors_dom [OF assms(2,3)] ids_okD(4) [OF assms(1)] by auto
  then have "card (ancestors f a) \<le> f_fresh f" using card_mono [OF finite_lessThan] by fastforce
  then show ?thesis by (simp add: fuel_of_def)
qed

text \<open>A release that started from a well-formed tree ends in one.\<close>

lemma released_tree:
  assumes r: "released f {} p f'" and root: "\<exists>r \<in> dom (f_heap f). ino_of f r = FUSE_ROOT_ID \<and> n_nlookup (node_at f r) \<noteq> 0"
  shows "tree_ok f'"
proof -
  from r obtain D where D: "pruned f D f'" by (auto simp: released_def)
  from root obtain r where r0: "r \<in> dom (f_heap f)" "ino_of f r = FUSE_ROOT_ID" "n_nlookup (node_at f r) \<noteq> 0" by blast
  then have "r \<notin> D" using D by (auto simp: pruned_def)
  with r0 have "\<exists>r \<in> dom (f_heap f'). ino_of f' r = FUSE_ROOT_ID \<and> n_nlookup (node_at f' r) \<noteq> 0"
    using pruned_same(3,5) [OF D] pruned_dom [OF D] by (intro bexI [of _ r]) auto
  with r show ?thesis by (simp add: released_def tree_ok_def)
qed

text \<open>Every node of a well-formed tree leads down to one that the kernel knows.\<close>

lemma leads_to_known:
  assumes t: "tree_ok f" and a: "a \<in> dom (f_heap f)"
  shows "\<exists>y. (y, a) \<in> (links f)\<^sup>* \<and> y \<in> dom (f_heap f) \<and> n_nlookup (node_at f y) \<noteq> 0"
proof -
  have "finite (links f)"
  proof (rule finite_subset)
    show "links f \<subseteq> elems (f_names f) \<times> dom (f_heap f)" using tree_okD(2) [OF t] by (auto simp: names_ok_def links_def)
    show "finite (elems (f_names f) \<times> dom (f_heap f))"
      by (intro finite_cartesian_product finite_elems ids_okD(5) [OF tree_okD(1) [OF t]])
  qed
  then have "wf (links f)" using names_okD(7) [OF tree_okD(2) [OF t]] by (rule finite_acyclic_wf)
  then show ?thesis using a
  proof (induction a rule: wf_induct_rule)
    case (less a)
    have o: "0 < owed f a" using less.prems tree_okD(4) [OF t] by blast
    show ?case
    proof (cases "n_nlookup (node_at f a) = 0")
      case True
      with o obtain k where k: "(k, a) \<in> links f" by (cases "kids f a = {}") (auto simp: owed_def kids_def)
      then have "k \<in> dom (f_heap f)" using tree_okD(2) [OF t] by (auto simp: names_ok_def links_def)
      from less.IH [OF k this] k show ?thesis by (meson rtrancl.rtrancl_into_rtrancl)
    qed (use less.prems in blast)
  qed
qed

lemma pruned_survivors:
  assumes t: "tree_ok f'" and p: "pruned f D f'" and nok: "names_ok f S"
  shows "x \<in> dom (f_heap f') \<longleftrightarrow> x \<in> dom (f_heap f) \<and>
    (\<exists>y \<in> dom (f_heap f). (y, x) \<in> (links f)\<^sup>* \<and> n_nlookup (node_at f y) \<noteq> 0)"
proof
  assume x: "x \<in> dom (f_heap f')"
  from leads_to_known [OF t x] obtain y where y: "(y, x) \<in> (links f')\<^sup>*" "y \<in> dom (f_heap f')" "n_nlookup (node_at f' y) \<noteq> 0"
    by blast
  have "links f' \<subseteq> links f" using pruned_links [OF p] by auto
  with y(1) have "(y, x) \<in> (links f)\<^sup>*" using rtrancl_mono by blast
  moreover have "y \<in> dom (f_heap f)" "n_nlookup (node_at f y) \<noteq> 0" "x \<in> dom (f_heap f)"
    using y(2,3) x pruned_dom [OF p] pruned_same(3) [OF p, of y] by auto
  ultimately show "x \<in> dom (f_heap f) \<and> (\<exists>y \<in> dom (f_heap f). (y, x) \<in> (links f)\<^sup>* \<and> n_nlookup (node_at f y) \<noteq> 0)" by blast
next
  assume "x \<in> dom (f_heap f) \<and> (\<exists>y \<in> dom (f_heap f). (y, x) \<in> (links f)\<^sup>* \<and> n_nlookup (node_at f y) \<noteq> 0)"
  then obtain y where y: "(y, x) \<in> (links f)\<^sup>*" "y \<in> dom (f_heap f)" "n_nlookup (node_at f y) \<noteq> 0" by blast
  then have "y \<in> dom (f_heap f')" using p pruned_dom [OF p] by (auto simp: pruned_def)
  with y(1) show "x \<in> dom (f_heap f')"
  proof induction
    case (step u v)
    then have "u \<notin> D" using pruned_dom [OF p] by blast
    with step.hyps(2) have "(u, v) \<in> links f'" using pruned_links [OF p] by auto
    then show ?case using tree_okD(2) [OF t] by (auto simp: names_ok_def links_def)
  qed
qed

definition set_lookups :: "addr \<Rightarrow> 64 word \<Rightarrow> fuse \<Rightarrow> fuse" where
  "set_lookups a c = update a (\<lambda>n. n\<lparr>n_nlookup := c\<rparr>)"

lemmas set_lookups_soft [simp] =
  update_soft [of "\<lambda>n. n\<lparr>n_nlookup := c\<rparr>", simplified, folded set_lookups_def] for c

lemma set_lookups_node:
  "node_at (set_lookups a c f) x = (if x = a \<and> a \<in> dom (f_heap f) then (node_at f a)\<lparr>n_nlookup := c\<rparr> else node_at f x)"
  by (auto simp: set_lookups_def node_at_def heap_update split: option.split)

lemma update_lru [simp]: "lru_enabled (update a g f) = lru_enabled f"
  by (simp add: update_def lru_enabled_def)

lemma set_lookups_frame [simp]:
  "f_fresh (set_lookups a c f) = f_fresh f" "f_names (set_lookups a c f) = f_names f" "lru_enabled (set_lookups a c f) = lru_enabled f"
  by (simp_all add: set_lookups_def update_def lru_enabled_def)

lemma set_lookups_ok:
  assumes t: "tree_ok f" and a: "n_nlookup (node_at f a) \<noteq> 0" "c \<noteq> 0"
  shows "tree_ok (set_lookups a c f)"
proof -
  have o: "owed (set_lookups a c f) = owed f" using a by (auto simp: owed_def [abs_def] set_lookups_node)
  have "counted (set_lookups a c f)" using tree_okD(3) [OF t] by (auto simp: counted_def o set_lookups_node)
  with t a(2) show ?thesis unfolding tree_ok_def o by (auto simp: set_lookups_node)
qed

lemma forget_last:
  assumes t: "tree_ok f" and u: "unlocked f" and a: "a \<in> dom (f_heap f)" "n_nlookup (node_at f a) \<noteq> 0"
    "ino_of f a \<noteq> FUSE_ROOT_ID" "n_treelock (node_at f a) = 0"
  shows "releasable (set_lookups a 0 f) {} a"
proof -
  let ?g = "set_lookups a 0 f"
  have o: "owed f x = owed ?g x + (if x = a then 1 else 0)" for x using a(1,2) by (simp add: owed_def set_lookups_node)
  have "n_refctr (node_at ?g x) = owed ?g x + (if x = a then 1 else 0)" if "x \<in> dom (f_heap f)" for x
    using tree_okD(3) [OF t] that o [of x] by (auto simp: counted_def set_lookups_node)
  moreover have "0 < owed ?g x" if "x \<in> dom (f_heap f) - {a}" for x
  proof -
    have "0 < owed f x" using tree_okD(4) [OF t] that by blast
    then show ?thesis using that o [of x] by simp
  qed
  moreover have "n_treelock (node_at ?g x) = 0 \<and> ino_of f x \<noteq> FUSE_ROOT_ID"
    if "x \<in> dom (f_heap f)" "n_nlookup (node_at ?g x) = 0" for x
    using that u a tree_okD(5) [OF t that(1)] by (auto simp: set_lookups_node unlocked_def split: if_splits)
  ultimately show ?thesis using tree_okD(1,2) [OF t] a(1) unfolding releasable_def by simp
qed

lemma forget_node_ok:
  assumes t: "tree_ok f" and u: "unlocked f" and a: "find_id f nodeid = Some a" "nodeid \<noteq> FUSE_ROOT_ID"
    "0 < k" "k \<le> n_nlookup (node_at f a)" "n_nlookup (node_at f a) = k \<Longrightarrow> n_treelock (node_at f a) = 0"
  shows "\<exists>f'. forget_node mem f nodeid k = Inr (Some f') \<and> tree_ok f' \<and>
    dom (f_heap f') = {x \<in> dom (f_heap f). \<exists>y \<in> dom (f_heap f). (y, x) \<in> (links f)\<^sup>* \<and>
      n_nlookup (node_at f y) \<noteq> (if y = a then k else 0)}"
proof -
  let ?left = "n_nlookup (node_at f a) - k"
  let ?f1 = "set_lookups a ?left f"
  have adom: "a \<in> dom (f_heap f)" "ino_of f a = nodeid" using a(1) find_id_iff [OF tree_okD(1) [OF t]] by auto
  then obtain n where n: "f_heap f a = Some n" "node_at f a = n" by (auto simp: node_at_def)
  have nz: "n_nlookup (node_at f a) \<noteq> 0" using a(3,4) by (auto simp: word_le_nat_alt word_less_nat_alt)
  have left: "n_nlookup (node_at ?f1 y) \<noteq> 0 \<longleftrightarrow> n_nlookup (node_at f y) \<noteq> (if y = a then k else 0)" for y
    using adom(1) by (simp add: set_lookups_node)
  have run: "forget_node mem f nodeid k =
      (if ?left = 0 then cbind (unref_node mem (fuel_of ?f1) ?f1 a) (\<lambda>f2. Inr (Some f2))
       else if lru_enabled ?f1 \<and> ?left = 1 then Inr (Some (set_forget_time a ?f1)) else Inr (Some ?f1))"
    using a(1,2,5) n leD [OF a(4)] by (auto simp: forget_node_def get_node_def deref_def Let_def set_lookups_def)
  show ?thesis
  proof (cases "?left = 0")
    case False
    have t1: "tree_ok ?f1" using set_lookups_ok [OF t nz False] .
    have "dom (f_heap f) = {x \<in> dom (f_heap f). \<exists>y \<in> dom (f_heap f). (y, x) \<in> (links f)\<^sup>* \<and>
      n_nlookup (node_at f y) \<noteq> (if y = a then k else 0)}"
      using leads_to_known [OF t1] unfolding left set_lookups_soft by blast
    with t1 False show ?thesis unfolding run by (auto simp: set_forget_time_def)
  next
    case True
    then have r: "releasable ?f1 {} a" using forget_last [OF t u adom(1) nz] a(2,5) adom(2) by simp
    have ok: "ids_ok ?f1" "names_ok ?f1 {}" "a \<in> dom (f_heap ?f1)" using tree_okD(1,2) [OF t] adom(1) by simp_all
    have "3 * card (ancestors ?f1 a) \<le> fuel_of ?f1" using fuel_enough [OF ok] by linarith
    from unref_ok [OF r this, of mem] obtain f' where
      f': "unref_node mem (fuel_of ?f1) ?f1 a = Inr f'" "released ?f1 {} a f'" by blast
    have "\<exists>r \<in> dom (f_heap ?f1). ino_of ?f1 r = FUSE_ROOT_ID \<and> n_nlookup (node_at ?f1 r) \<noteq> 0"
      using t a(2) adom(2) unfolding tree_ok_def by (auto simp: set_lookups_node)
    from released_tree [OF f'(2) this] have t': "tree_ok f'" .
    from f'(2) obtain D where D: "pruned ?f1 D f'" by (auto simp: released_def)
    have "dom (f_heap f') = {x \<in> dom (f_heap f). \<exists>y \<in> dom (f_heap f). (y, x) \<in> (links f)\<^sup>* \<and>
      n_nlookup (node_at f y) \<noteq> (if y = a then k else 0)}"
      using pruned_survivors [OF t' D ok(2)] unfolding left set_lookups_soft by blast
    with t' f'(1) True show ?thesis unfolding run by auto
  qed
qed

text \<open>Taking a node's name away: the node stays, and so do its ancestors, except those only it kept alive.\<close>

definition trimmed :: "fuse \<Rightarrow> addr \<Rightarrow> addr set \<Rightarrow> fuse \<Rightarrow> bool" where
  "trimmed f a D f' \<longleftrightarrow> a \<notin> D \<and> dom (f_heap f') = dom (f_heap f) - D \<and>
     elems (f_names f') = elems (f_names f) - insert a D \<and> (\<forall>x \<in> D. n_nlookup (node_at f x) = 0) \<and>
     (\<forall>x. x \<notin> D \<longrightarrow> ino_of f' x = ino_of f x \<and> n_nlookup (node_at f' x) = n_nlookup (node_at f x) \<and>
        n_treelock (node_at f' x) = n_treelock (node_at f x) \<and>
        (x \<noteq> a \<longrightarrow> n_parent (node_at f' x) = n_parent (node_at f x) \<and> n_name (node_at f' x) = n_name (node_at f x))) \<and>
     f_fresh f' = f_fresh f \<and> f_ctr f' = f_ctr f \<and> f_generation f' = f_generation f \<and> f_remember f' = f_remember f"

lemma unhash_name_ok:
  assumes t: "tree_ok f" and u: "unlocked f" and a: "a \<in> elems (f_names f)"
  shows "\<exists>f' D. unhash_name mem (fuel_of f) f a = Inr f' \<and> tree_ok f' \<and> trimmed f a D f' \<and> a \<in> dom (f_heap f')"
proof -
  note ids = tree_okD(1) [OF t] and nok = tree_okD(2) [OF t]
  from named [OF nok a] obtain q n where q: "(a, q) \<in> links f" and n: "f_heap f a = Some n" by metis
  let ?f2 = "unchain a f"
  have r: "releasable ?f2 {a} q"
  proof (rule unchain_releasable [OF ids nok tree_okD(3) [OF t] q])
    show "\<forall>x \<in> dom (f_heap f). n_nlookup (node_at f x) = 0 \<longrightarrow>
        n_treelock (node_at f x) = 0 \<and> ino_of f x \<noteq> FUSE_ROOT_ID"
      using u tree_okD(5) [OF t] by (auto simp: unlocked_def)
  qed (use tree_okD(4) [OF t] in simp_all)
  have f2: "ids_ok ?f2" "names_ok ?f2 {a}" "q \<in> dom (f_heap ?f2)" using r by (simp_all add: releasable_def)
  have fuel: "fuel_of f = Suc (fuel_of f - 1)" by (simp add: fuel_of_def)
  have "3 * card (ancestors ?f2 q) \<le> fuel_of f - 1" using fuel_enough [OF f2] by (simp add: fuel_of_def)
  from unref_ok [OF r this, of mem] obtain f3 where
    f3: "unref_node mem (fuel_of f - 1) ?f2 q = Inr f3" "released ?f2 {a} q f3" by blast
  let ?f' = "clear_name mem a f3"
  have run: "unhash_name mem (fuel_of f) f a = Inr ?f'"
    by (subst fuel, subst unhash_name_step [OF nok a q]) (simp only: f3(1) cbind_simps)
  from f3(2) obtain D where D: "pruned ?f2 D f3" and g: "ids_ok f3" "names_ok f3 {a}" "counted f3"
    "\<forall>x \<in> dom (f_heap f3) - {a}. 0 < owed f3 x" "\<forall>x. x \<notin> ancestors ?f2 q \<longrightarrow> f_heap f3 x = f_heap ?f2 x"
    unfolding released_def by blast
  note c = clear_name_ok [OF g(1,2), of mem, simplified]
  have "links ?f2 \<subseteq> links f" using unchain_ok(3) [OF ids nok a] by auto
  then have "a \<notin> ancestors ?f2 q" using ancestors_parent [OF nok q] by blast
  then have a3: "f_heap f3 a = Some n" "node_at f3 a = node_at f a" using g(5) n by (simp_all add: node_at_def)
  have aD: "a \<notin> D" using D a3(1) by (auto simp: pruned_def)
  have dom: "dom (f_heap ?f') = dom (f_heap f) - D" using pruned_dom [OF D] a3(1) by (auto split: if_splits)
  have el: "elems (f_names ?f') = elems (f_names f) - insert a D"
    using drop_use_ok(2) [OF names_okD(1) [OF g(2)]] D unchain_ok(4) [OF ids nok a] by (auto simp: pruned_def)
  have soft: "n_nlookup (node_at ?f' x) = n_nlookup (node_at f3 x)" "n_treelock (node_at ?f' x) = n_treelock (node_at f3 x)"
    "n_refctr (node_at ?f' x) = n_refctr (node_at f3 x)" for x
    by (auto simp: node_at_def node_zero_def split: option.splits)
  have tr: "trimmed f a D ?f'" unfolding trimmed_def
    using aD dom el D pruned_same [OF D] by (auto simp: soft pruned_def more_frames)
  have o: "owed ?f' x = owed f3 x" for x by (rule owed_links) (simp_all only: soft c(3))
  have d3: "dom (f_heap ?f') = dom (f_heap f3)" using a3(1) by (auto split: if_splits)
  have "counted ?f'" using g(3) unfolding counted_def d3 o soft .
  moreover have "\<forall>x \<in> dom (f_heap ?f'). 0 < owed ?f' x"
  proof
    fix x assume x: "x \<in> dom (f_heap ?f')"
    have "a \<in> dom (f_heap f3)" "a \<in> dom (f_heap f)" using a3(1) n by auto
    then have "owed f3 a = owed f a" "0 < owed f a" using g(3) a3(2) tree_okD(3,4) [OF t] by (metis counted_def, blast)
    then have "0 < owed f3 a" by simp
    then show "0 < owed ?f' x" using x g(4) unfolding d3 o by (cases "x = a") auto
  qed
  moreover have "\<exists>r \<in> dom (f_heap ?f'). ino_of ?f' r = FUSE_ROOT_ID \<and> n_nlookup (node_at ?f' r) \<noteq> 0"
    using t tr unfolding tree_ok_def trimmed_def by (metis DiffI)
  ultimately have "tree_ok ?f'" unfolding tree_ok_def using c(1,2) by blast
  then show ?thesis using run tr dom aD n by blast
qed

lemma trimmed_find:
  assumes t: "tree_ok f" "tree_ok f'" and tr: "trimmed f a D f'"
  shows "find_name f' d nm = Some x \<longleftrightarrow> find_name f d nm = Some x \<and> x \<notin> insert a D"
proof -
  have keys: "parent_ino f' x = parent_ino f x \<and> name_of f' x = name_of f x" if x: "x \<in> elems (f_names f')"
  proof -
    have n: "x \<notin> D" "x \<noteq> a" "n_parent (node_at f' x) = n_parent (node_at f x)" "n_name (node_at f' x) = n_name (node_at f x)"
      using tr x by (auto simp: trimmed_def)
    from named [OF tree_okD(2) [OF t(2)] x] obtain p where p: "n_parent (node_at f' x) = Some p" "f_heap f' p \<noteq> None" by metis
    have "p \<in> dom (f_heap f) - D" using tr p(2) unfolding trimmed_def by blast
    then have "ino_of f' p = ino_of f p" using tr by (simp add: trimmed_def)
    moreover have "n_parent (node_at f x) = Some p" using n(3) p(1) by simp
    ultimately show ?thesis using n(4) p(1) by (simp add: parent_ino_def name_of_def)
  qed
  have el: "x \<in> elems (f_names f') \<longleftrightarrow> x \<in> elems (f_names f) \<and> x \<notin> insert a D" using tr by (auto simp: trimmed_def)
  show ?thesis
    unfolding find_name_iff [OF tree_okD(2) [OF t(1)]] find_name_iff [OF tree_okD(2) [OF t(2)]] using keys el by auto
qed

text \<open>With remembered nodes, removal also takes back the lookup kept by the library itself.\<close>

definition unmark :: "addr \<Rightarrow> fuse \<Rightarrow> fuse" where
  "unmark a f = (if f_remember f = 0 then f else set_lookups a (n_nlookup (node_at f a) - 1) f)"

lemma unmark_ok:
  assumes t: "tree_ok f" and u: "unlocked f" and a: "a \<in> dom (f_heap f)"
    and re: "f_remember f \<noteq> 0 \<Longrightarrow> 1 < n_nlookup (node_at f a)"
  shows "tree_ok (unmark a f)" "unlocked (unmark a f)" "find_name (unmark a f) = find_name f" "f_names (unmark a f) = f_names f"
    "f_heap (unmark a f) b = None \<longleftrightarrow> f_heap f b = None" "ino_of (unmark a f) = ino_of f" "links (unmark a f) = links f"
    "n_treelock (node_at (unmark a f) x) = n_treelock (node_at f x)"
    "n_nlookup (node_at (unmark a f) x) = 0 \<longleftrightarrow> n_nlookup (node_at f x) = 0"
proof -
  have *: "n_nlookup (node_at f a) \<noteq> 0 \<and> n_nlookup (node_at f a) - 1 \<noteq> 0" if "f_remember f \<noteq> 0"
    using re [OF that] by (auto simp: word_less_nat_alt)
  show "tree_ok (unmark a f)" using set_lookups_ok [OF t] * t by (auto simp: unmark_def)
  show z: "n_nlookup (node_at (unmark a f) x) = 0 \<longleftrightarrow> n_nlookup (node_at f x) = 0" for x
    using * by (auto simp: unmark_def set_lookups_node)
  show l: "n_treelock (node_at (unmark a f) x) = n_treelock (node_at f x)" for x by (simp add: unmark_def set_lookups_node)
  show d: "f_heap (unmark a f) b = None \<longleftrightarrow> f_heap f b = None" for b by (simp add: unmark_def set_lookups_def heap_update)
  show "unlocked (unmark a f)" using u z l d by (auto simp: unlocked_def dom_def)
qed (simp_all add: unmark_def)

lemma unlink_node_ok:
  assumes t: "tree_ok f" and u: "unlocked f" and a: "a \<in> elems (f_names f)"
    and re: "f_remember f \<noteq> 0 \<Longrightarrow> 1 < n_nlookup (node_at f a)"
  shows "\<exists>f' D. unlink_node mem f a = Inr f' \<and> tree_ok f' \<and> trimmed (unmark a f) a D f' \<and> a \<in> dom (f_heap f')"
proof -
  from named [OF tree_okD(2) [OF t] a] obtain n where n: "f_heap f a = Some n" "node_at f a = n" by metis
  have ad: "a \<in> dom (f_heap f)" using n by auto
  note m = unmark_ok [OF t u ad re]
  have "unlink_node mem f a = unhash_name mem (fuel_of (unmark a f)) (unmark a f) a"
  proof (cases "f_remember f = 0")
    case False
    have "update a (\<lambda>k. k\<lparr>n_nlookup := n_nlookup k - 1\<rparr>) f = update a (\<lambda>k. k\<lparr>n_nlookup := n_nlookup n - 1\<rparr>) f"
      using n(1) by (rule update_cong) simp
    with False n leD [of "n_nlookup n" 1] re [OF False] show ?thesis
      by (auto simp: unlink_node_def deref_def unmark_def set_lookups_def Let_def)
  qed (use n in \<open>simp add: unlink_node_def deref_def unmark_def\<close>)
  with unhash_name_ok [OF m(1,2), of a mem] a m(4) show ?thesis by simp
qed

section \<open>Giving a node its name\<close>

text \<open>The node \<open>a\<close> becomes a child of \<open>p\<close>.\<close>

definition attach :: "(nat \<Rightarrow> bool) \<Rightarrow> addr \<Rightarrow> addr \<Rightarrow> string \<Rightarrow> fuse \<Rightarrow> fuse" where
  "attach mem a p nm f =
     (let f2 = update a (\<lambda>n. n\<lparr>n_name := Some nm, n_parent := Some p\<rparr>) (update p (\<lambda>n. n\<lparr>n_refctr := n_refctr n + 1\<rparr>) f)
      in f2\<lparr>f_names := hash_node mem (name_key f2) (f_names f2) a\<rparr>)"

lemma attach_node:
  assumes "a \<noteq> p" "a \<in> dom (f_heap f)" "p \<in> dom (f_heap f)"
  shows "node_at (attach mem a p nm f) x =
      (if x = a then (node_at f a)\<lparr>n_name := Some nm, n_parent := Some p\<rparr>
       else if x = p then (node_at f p)\<lparr>n_refctr := n_refctr (node_at f p) + 1\<rparr> else node_at f x)"
    "dom (f_heap (attach mem a p nm f)) = dom (f_heap f)"
  using assms by (auto simp: attach_def Let_def node_at_def heap_update split: if_splits)

lemma attach_frame [simp]:
  "f_ids (attach mem a p nm f) = f_ids f" "f_fresh (attach mem a p nm f) = f_fresh f"
  "f_remember (attach mem a p nm f) = f_remember f" "f_ctr (attach mem a p nm f) = f_ctr f"
  by (simp_all add: attach_def Let_def update_def)

lemma hash_name_attach:
  assumes "get_node f dir = Inr p" "length nm < 32 \<or> mem (length nm + 1)"
  shows "hash_name mem f a dir nm = Inr (0, attach mem a p nm f)"
  using assms by (auto simp: hash_name_def attach_def Let_def)

lemma attach_ok:
  assumes nok: "names_ok f {}" and p: "p \<in> dom (f_heap f)" and a: "a \<in> dom (f_heap f)" "a \<notin> elems (f_names f)"
      "ino_of f a \<noteq> FUSE_ROOT_ID" "a \<notin> ancestors f p"
    and new: "find_name f (ino_of f p) nm = None"
  shows "names_ok (attach mem a p nm f) {}" "links (attach mem a p nm f) = insert (a, p) (links f)"
    "elems (f_names (attach mem a p nm f)) = insert a (elems (f_names f))"
    "ino_of (attach mem a p nm f) = ino_of f" "parent_ino (attach mem a p nm f) a = ino_of f p"
    "name_of (attach mem a p nm f) a = nm"
    "\<And>x. x \<in> elems (f_names f) \<Longrightarrow> parent_ino (attach mem a p nm f) x = parent_ino f x \<and>
       name_of (attach mem a p nm f) x = name_of f x"
proof -
  let ?g = "attach mem a p nm f"
  have ap: "a \<noteq> p" using a(4) by (auto simp: ancestors_def)
  note n = attach_node [OF ap a(1) p, of mem nm]
  show ino: "ino_of ?g = ino_of f" by (rule ext) (simp add: ino_of_def n(1))
  have xa: "x \<noteq> a" if "x \<in> elems (f_names f)" for x using that a(2) by auto
  show own: "parent_ino ?g a = ino_of f p" "name_of ?g a = nm" using n(1) ino by (simp_all add: parent_ino_def name_of_def)
  show keys: "parent_ino ?g x = parent_ino f x \<and> name_of ?g x = name_of f x" if "x \<in> elems (f_names f)" for x
    unfolding parent_ino_def name_of_def ino using xa [OF that] n(1) [of x] by simp
  let ?f2 = "update a (\<lambda>n. n\<lparr>n_name := Some nm, n_parent := Some p\<rparr>) (update p (\<lambda>n. n\<lparr>n_refctr := n_refctr n + 1\<rparr>) f)"
  have "f_heap ?f2 = f_heap ?g" by (simp add: attach_def Let_def)
  note h = same_heap [OF this]
  have "f_names ?g = hash_node mem (name_key ?f2) (f_names f) a" by (simp add: attach_def Let_def)
  then have fn: "f_names ?g = hash_node mem (name_key ?g) (f_names f) a" unfolding h .
  have "tab_ok (name_key ?g) (f_names f)" using names_okD(1) [OF nok] by (rule tab_ok_cong) (simp add: keys)
  then have "idx_ok (name_key ?g) (f_names f)" using names_okD(5) [OF nok] by (simp add: idx_ok_def)
  from hash_node_ok [OF this a(2), of mem] have tab: "idx_ok (name_key ?g) (f_names ?g)"
    and el: "elems (f_names ?g) = insert a (elems (f_names f))"
    unfolding fn by auto
  show "elems (f_names ?g) = insert a (elems (f_names f))" by (rule el)
  show l: "links ?g = insert (a, p) (links f)" using xa by (auto simp: links_def el n(1) split: if_splits)
  have "(p, a) \<notin> (links f)\<^sup>*" using a(4) by (simp add: ancestors_def)
  then have "acyclic (links ?g)" using names_okD(7) [OF nok] unfolding l by (simp add: acyclic_insert)
  moreover have "inj_on (\<lambda>x. (parent_ino ?g x, name_of ?g x)) (elems (f_names ?g))"
  proof -
    have "inj_on (\<lambda>x. (parent_ino ?g x, name_of ?g x)) (elems (f_names f))"
      using names_okD(6) [OF nok] keys by (simp add: inj_on_def)
    moreover have "(parent_ino ?g x, name_of ?g x) \<noteq> (ino_of f p, nm)" if "x \<in> elems (f_names f)" for x
      using find_name_iff [OF nok, of "ino_of f p" nm x] new keys [OF that] that by auto
    ultimately show ?thesis unfolding el inj_on_insert using own by force
  qed
  moreover have "x \<in> dom (f_heap ?g) \<and> n_name (node_at ?g x) \<noteq> None \<and> ino_of ?g x \<noteq> FUSE_ROOT_ID \<and>
      (\<exists>p \<in> dom (f_heap ?g). n_parent (node_at ?g x) = Some p)" if "x \<in> elems (f_names ?g)" for x
  proof (cases "x = a")
    case True
    then show ?thesis using a(1,3) p n ino by simp
  next
    case False
    then have "x \<in> elems (f_names f)" using that el by simp
    with nok have "x \<in> dom (f_heap f) \<and> n_name (node_at f x) \<noteq> None \<and> ino_of f x \<noteq> FUSE_ROOT_ID \<and>
        (\<exists>p \<in> dom (f_heap f). n_parent (node_at f x) = Some p)" unfolding names_ok_def by blast
    with False show ?thesis unfolding n ino by auto
  qed
  moreover have "n_parent (node_at ?g x) = None \<and> (n_name (node_at ?g x) = None \<or> ino_of ?g x = FUSE_ROOT_ID)"
    if "x \<in> dom (f_heap ?g) - elems (f_names ?g) - {}" for x
  proof -
    from that have "x \<noteq> a" "x \<in> dom (f_heap f)" "x \<notin> elems (f_names f)" using el n(2) by auto
    with unnamed [OF nok, of x] show ?thesis unfolding n ino by auto
  qed
  ultimately show "names_ok ?g {}" unfolding names_ok_def using tab by (simp add: idx_ok_def)
qed

lemma attach_find:
  assumes nok: "names_ok f {}" and p: "p \<in> dom (f_heap f)" and a: "a \<in> dom (f_heap f)" "a \<notin> elems (f_names f)"
      "ino_of f a \<noteq> FUSE_ROOT_ID" "a \<notin> ancestors f p"
    and new: "find_name f (ino_of f p) nm = None"
  shows "find_name (attach mem a p nm f) d m = (if (d, m) = (ino_of f p, nm) then Some a else find_name f d m)"
proof -
  note ok = attach_ok [where mem = mem, OF assms]
  have free: "\<not> (x \<in> elems (f_names f) \<and> parent_ino f x = ino_of f p \<and> name_of f x = nm)" for x
    using find_name_iff [OF nok, of "ino_of f p" nm x] new by simp
  have "find_name (attach mem a p nm f) d m = Some x \<longleftrightarrow>
      (if (d, m) = (ino_of f p, nm) then Some a else find_name f d m) = Some x" for x
    unfolding find_name_iff [OF ok(1)] ok(3)
    using ok(5,6) ok(7) [of x] find_name_iff [OF nok, of d m x] free [of x] a(2) by (cases "x = a") auto
  then show ?thesis by (metis option.exhaust)
qed

lemma attach_owed:
  assumes l: "links (attach mem a p nm f) = insert (a, p) (links f)" and a: "a \<notin> elems (f_names f)" "a \<noteq> p"
    "a \<in> dom (f_heap f)" "p \<in> dom (f_heap f)"
  shows "owed (attach mem a p nm f) x = owed f x + (if x = p then 1 else 0)"
proof -
  have "kids (attach mem a p nm f) x = (if x = p then insert a (kids f p) else kids f x)"
    using l by (auto simp: kids_def)
  moreover have "a \<notin> kids f p" using a(1) by (simp add: kids_def links_def)
  moreover have "n_nlookup (node_at (attach mem a p nm f) x) = n_nlookup (node_at f x)"
    using attach_node(1) [OF a(2-4)] by simp
  ultimately show ?thesis using finite_kids [of f p] by (simp add: owed_def)
qed

text \<open>A detached node gets a name: the tree stays well-formed, and searches find the node under that name.\<close>

lemma attach_tree:
  assumes t: "tree_ok f" and p: "find_id f dir = Some p" and a: "a \<in> dom (f_heap f)" "a \<notin> elems (f_names f)"
      "ino_of f a \<noteq> FUSE_ROOT_ID" "a \<notin> ancestors f p"
    and new: "find_name f dir nm = None"
  shows "tree_ok (attach mem a p nm f)"
    "find_name (attach mem a p nm f) d m = (if (d, m) = (dir, nm) then Some a else find_name f d m)"
proof -
  let ?g = "attach mem a p nm f"
  have p': "p \<in> dom (f_heap f)" "ino_of f p = dir" using p find_id_iff [OF tree_okD(1) [OF t]] by auto
  have ap: "a \<noteq> p" using a(4) by (auto simp: ancestors_def)
  note n = attach_node [OF ap a(1) p'(1), of mem nm]
  note ok = attach_ok [where mem = mem, OF tree_okD(2) [OF t] p'(1) a, unfolded p'(2), OF new]
  note o = attach_owed [OF ok(2) a(2) ap a(1) p'(1)]
  have "ids_ok ?g" using tree_okD(1) [OF t] unfolding ids_ok_def n(2) ok(4) by simp
  moreover have "counted ?g"
    using tree_okD(3) [OF t] ap unfolding counted_def n o by auto
  moreover have "\<forall>x \<in> dom (f_heap ?g). 0 < owed ?g x" using tree_okD(4) [OF t] unfolding n(2) o by (intro ballI add_pos_nonneg) auto
  moreover have "n_nlookup (node_at ?g x) = n_nlookup (node_at f x)" for x using n(1) by simp
  ultimately show "tree_ok ?g" using ok(1) t unfolding tree_ok_def n(2) ok(4) by simp
  show "find_name ?g d m = (if (d, m) = (dir, nm) then Some a else find_name f d m)"
    using attach_find [OF tree_okD(2) [OF t] p'(1) a, of nm mem d m] new p'(2) by simp
qed

section \<open>Looking up\<close>

lemmas inc_soft [simp] = update_soft [of inc_nlookup, unfolded inc_nlookup_def, simplified, folded inc_nlookup_def]

lemma inc_node:
  "node_at (update a inc_nlookup f) x = (if x = a \<and> a \<in> dom (f_heap f) then inc_nlookup (node_at f a) else node_at f x)"
  by (auto simp: node_at_def heap_update split: option.split)

lemma inc_ok:
  assumes ok: "ids_ok f" "names_ok f {}" "counted f" "\<forall>x \<in> dom (f_heap f) - {a}. 0 < owed f x"
    and root: "\<exists>r \<in> dom (f_heap f). ino_of f r = FUSE_ROOT_ID \<and> n_nlookup (node_at f r) \<noteq> 0"
    and a: "a \<in> dom (f_heap f)" "n_nlookup (node_at f a) \<noteq> - 1"
  shows "tree_ok (update a inc_nlookup f)"
proof -
  let ?g = "update a inc_nlookup f"
  have nz: "n_nlookup (node_at f a) + 1 \<noteq> 0" using a(2) by (simp add: add_eq_0_iff2)
  have o: "owed ?g x = owed f x + (if x = a \<and> n_nlookup (node_at f a) = 0 then 1 else 0)" for x
    using a(1) nz by (simp add: owed_def inc_node inc_nlookup_def)
  have "counted ?g" using ok(3) a(1) unfolding counted_def o by (auto simp: inc_node inc_nlookup_def)
  moreover have "0 < owed ?g x" if x: "x \<in> dom (f_heap f)" for x
  proof (cases "x = a")
    case True
    then show ?thesis using a(1) nz by (simp add: owed_def inc_node inc_nlookup_def)
  next
    case False
    with x ok(4) have "0 < owed f x" by blast
    then show ?thesis unfolding o using False by simp
  qed
  moreover have "\<exists>r \<in> dom (f_heap ?g). ino_of ?g r = FUSE_ROOT_ID \<and> n_nlookup (node_at ?g r) \<noteq> 0"
    using root nz by (auto simp: inc_node inc_nlookup_def)
  ultimately show ?thesis using ok(1,2) unfolding tree_ok_def by simp
qed

text \<open>The new node before it has its place: known by neither table.\<close>

lemma blank_node_ok:
  assumes t: "tree_ok f" and a: "a = f_fresh f"
    and g: "f_heap g = (f_heap f)(a \<mapsto> n)" "f_names g = f_names f" "n_name n = None" "n_parent n = None"
  shows "names_ok g {}" "links g = links f" "find_name g = find_name f" "a \<notin> dom (f_heap f)" "a \<notin> elems (f_names f)"
proof -
  note nok = tree_okD(2) [OF t]
  show fresh: "a \<notin> dom (f_heap f)" using ids_okD(4) [OF tree_okD(1) [OF t], of a] a by blast
  then show ae: "a \<notin> elems (f_names f)" using nok by (auto simp: names_ok_def)
  have node: "x \<noteq> a \<Longrightarrow> node_at g x = node_at f x \<and> ino_of g x = ino_of f x" for x by (simp add: node_at_def ino_of_def g(1))
  have n0: "node_at g a = n" by (simp add: node_at_def g(1))
  have ok: "names_ok f ({} \<union> {})" "{} \<inter> {} = {}" using nok by simp_all
  have par: "p \<in> dom (f_heap g) \<and> ino_of g p = ino_of f p" if "(x, p) \<in> links f" for x p
  proof -
    have "p \<in> dom (f_heap f)" using that nok by (auto simp: names_ok_def links_def)
    then show ?thesis using fresh node [of p] by (cases "p = a") (auto simp: g(1))
  qed
  have rest: "n_parent (node_at g x) = None \<and> (n_name (node_at g x) = None \<or> ino_of g x = FUSE_ROOT_ID)"
    if "x \<in> dom (f_heap g) - elems (f_names f) - {}" for x
    using that unnamed [OF nok, of x] node [of x] n0 g by (cases "x = a") auto
  have same: "f_heap g x = f_heap f x" if "x \<in> elems (f_names f)" for x using that ae by (auto simp: g(1))
  note h = names_ok_heap [OF ok, of g, simplified g(2), OF names_okD(1) [OF nok] refl _ same par _ rest, simplified]
  show nok': "names_ok g {}" and l: "links g = links f" using h by simp_all
  have keys: "parent_ino g x = parent_ino f x \<and> name_of g x = name_of f x" if x: "x \<in> elems (f_names f)" for x
  proof -
    from named [OF nok x] obtain p where p: "n_parent (node_at f x) = Some p" "(x, p) \<in> links f" by metis
    have "x \<noteq> a" using x ae by auto
    with node p(1) par [OF p(2)] show ?thesis by (simp add: parent_ino_def name_of_def)
  qed
  have "find_name g d m = Some x \<longleftrightarrow> find_name f d m = Some x" for d m x
    unfolding find_name_iff [OF nok] find_name_iff [OF nok'] g(2) using keys by auto
  then show "find_name g = find_name f" by (intro ext) (metis option.exhaust)
qed

lemma hash_id_ok:
  assumes tab: "idx_ok (id_key f) (f_ids f)" "elems (f_ids f) = dom (f_heap f) - {a}" and a: "a \<in> dom (f_heap f)"
    and rest: "inj_on (ino_of f) (dom (f_heap f))" "\<forall>x \<in> dom (f_heap f). x < f_fresh f"
  shows "ids_ok (hash_id mem f a)"
proof -
  let ?h = "hash_id mem f a"
  have h: "ino_of ?h = ino_of f" by (rule same_heap) (simp add: hash_id_def)
  have "idx_ok (id_key f) (f_ids ?h) \<and> elems (f_ids ?h) = dom (f_heap f)"
    using hash_node_ok [OF tab(1), of a mem] tab(2) a by (simp add: hash_id_def insert_absorb)
  with rest show ?thesis unfolding ids_ok_def h by (simp add: hash_id_def)
qed

text \<open>Putting it in its place: into the chain of its name, then into the chain of its number.\<close>

lemma place_node:
  assumes t: "tree_ok f" and a: "a = f_fresh f"
    and g: "f_heap g = (f_heap f)(a \<mapsto> n)" "f_names g = f_names f" "n_name n = None" "n_parent n = None"
      "f_ids g = f_ids f" "f_fresh g = a + 1"
    and n: "n_nodeid n \<notin> ino_of f ` dom (f_heap f)" "n_nlookup n \<noteq> - 1" "n_refctr n = (if n_nlookup n = 0 then 0 else 1)"
    and p: "find_id f dir = Some p" and new: "find_name f dir nm = None"
    and h: "h = hash_id mem (attach mem a p nm g) a"
  shows "get_node g dir = Inr p" "tree_ok (update a inc_nlookup h)"
    "find_name h d m = (if (d, m) = (dir, nm) then Some a else find_name f d m)"
    "dom (f_heap h) = insert a (dom (f_heap f))" "n_nlookup (node_at h a) = n_nlookup n" "ino_of h a = n_nodeid n"
    "n_treelock (node_at h a) = n_treelock n"
    "\<And>x. x \<in> dom (f_heap f) \<Longrightarrow> ino_of h x = ino_of f x \<and> n_nlookup (node_at h x) = n_nlookup (node_at f x) \<and>
       n_treelock (node_at h x) = n_treelock (node_at f x)"
proof -
  note ids = tree_okD(1) [OF t] and b = blank_node_ok [OF t a g(1-4)]
  have pd: "p \<in> dom (f_heap f)" "ino_of f p = dir" using p find_id_iff [OF ids] by auto
  have node: "x \<noteq> a \<Longrightarrow> node_at g x = node_at f x" "node_at g a = n" for x by (simp_all add: node_at_def g(1))
  have ino: "ino_of g x = ino_of f x" if "x \<in> dom (f_heap f)" for x using that b(4) node(1) [of x] by (cases "x = a") (auto simp: ino_of_def)
  have inoa: "ino_of g a = n_nodeid n" by (simp add: ino_of_def node(2))
  have dg: "dom (f_heap g) = insert a (dom (f_heap f))" by (simp add: g(1))
  have "tab_ok (id_key g) (f_ids g)"
    using ids_okD(1,2) [OF ids] ino unfolding g(5) by (auto simp: idx_ok_def intro: tab_ok_cong)
  moreover have "inj_on (ino_of g) (elems (f_ids g))" using ids_okD(2,3) [OF ids] ino unfolding g(5) by (auto simp: inj_on_def)
  ultimately have "find_id g dir = Some p" using tab_find_id [of g dir p] pd ino ids_okD(2) [OF ids] g(5) by simp
  then show "get_node g dir = Inr p" by (simp add: get_node_def)
  have root: "\<exists>r \<in> dom (f_heap f). ino_of f r = FUSE_ROOT_ID \<and> n_nlookup (node_at f r) \<noteq> 0" using t by (simp add: tree_ok_def)
  then have nroot: "ino_of g a \<noteq> FUSE_ROOT_ID" using n(1) inoa by (metis imageI)
  let ?k = "attach mem a p nm g"
  have pa: "a \<noteq> p" using pd(1) b(4) by auto
  have anc: "a \<notin> ancestors g p"
    using ancestors_dom [OF tree_okD(2) [OF t] pd(1)] b(2,4) by (auto simp: ancestors_def)
  have in_g: "p \<in> dom (f_heap g)" "a \<in> dom (f_heap g)" "a \<notin> elems (f_names g)" "find_name g (ino_of g p) nm = None"
    using pd b(3,5) new ino [OF pd(1)] by (simp_all add: dg g(2))
  note k = attach_ok [where mem = mem, OF b(1) in_g(1-3) nroot anc in_g(4)]
  note kn = attach_node [OF pa in_g(2,1), of mem nm]
  have hk: "f_heap h = f_heap ?k" "f_names h = f_names ?k" by (simp_all add: h hash_id_def)
  note sh = same_heap [OF hk(1)] and sn = same_names [OF hk]
  have o: "owed h x = owed g x + (if x = p then 1 else 0)" for x
    unfolding sn using attach_owed [OF k(2) in_g(3) pa in_g(2,1)] .
  have "kids g a = {}" using b(2,4) tree_okD(2) [OF t] by (auto simp: kids_def names_ok_def links_def)
  then have oa: "owed g a = (if n_nlookup n = 0 then 0 else 1)" by (simp add: owed_def node(2))
  have og: "owed g x = owed f x" if "x \<noteq> a" for x by (rule owed_links) (use that node(1) b(2) in simp_all)
  have dh: "dom (f_heap h) = insert a (dom (f_heap f))" using kn(2) dg hk(1) by simp
  have ih: "ino_of h = ino_of g" using sh(2) k(4) by simp
  have ids_h: "ids_ok h" unfolding h
  proof (rule hash_id_ok)
    have ik: "ino_of ?k = ino_of g" by (rule k(4))
    show "idx_ok (id_key ?k) (f_ids ?k)"
      using ids_okD(1) [OF ids] unfolding attach_frame g(5) ik by (rule idx_ok_cong) (use ino ids_okD(2) [OF ids] in simp)
    have "ino_of g ` dom (f_heap f) = ino_of f ` dom (f_heap f)" using ino by (rule image_cong [OF refl])
    moreover have "inj_on (ino_of g) (dom (f_heap f))" using ids_okD(3) [OF ids] ino by (auto simp: inj_on_def)
    ultimately show "inj_on (ino_of ?k) (dom (f_heap ?k))" unfolding ik kn(2) dg using n(1) inoa b(4) by simp
    show "\<forall>x \<in> dom (f_heap ?k). x < f_fresh ?k"
      unfolding kn(2) dg using ids_okD(4) [OF ids] g(6) a by (auto dest: less_SucI)
  qed (use kn(2) dg ids_okD(2) [OF ids] b(4) g(5) in auto)
  have kept: "x \<noteq> a" "node_at h x = (if x = p then (node_at f p)\<lparr>n_refctr := n_refctr (node_at f p) + 1\<rparr> else node_at f x)"
    if "x \<in> dom (f_heap f)" for x using that b(4) pa kn(1) [of x] node(1) sh(1) by auto
  have ha: "node_at h a = n\<lparr>n_name := Some nm, n_parent := Some p\<rparr>" using kn(1) [of a] node(2) sh(1) by simp
  have of_f: "owed h x = owed f x + (if x = p then 1 else 0)" if "x \<in> dom (f_heap f)" for x using o [of x] og [OF kept(1) [OF that]] by simp
  have cnt: "counted h" unfolding counted_def dh
  proof
    fix x assume "x \<in> insert a (dom (f_heap f))"
    then consider "x = a" | "x \<in> dom (f_heap f)" by blast
    then show "n_refctr (node_at h x) = owed h x"
    proof cases
      case 1
      then show ?thesis using ha n(3) oa o [of a] pa by simp
    next
      case 2
      then show ?thesis using kept(2) of_f tree_okD(3) [OF t] by (auto simp: counted_def)
    qed
  qed
  have pos: "\<forall>x \<in> dom (f_heap h) - {a}. 0 < owed h x"
  proof
    fix x assume "x \<in> dom (f_heap h) - {a}"
    then have x: "x \<in> dom (f_heap f)" using dh by auto
    then have "0 < owed f x" using tree_okD(4) [OF t] by blast
    then show "0 < owed h x" using of_f [OF x] by (cases "x = p") simp_all
  qed
  show rest: "ino_of h x = ino_of f x \<and> n_nlookup (node_at h x) = n_nlookup (node_at f x) \<and>
       n_treelock (node_at h x) = n_treelock (node_at f x)" if "x \<in> dom (f_heap f)" for x
    using kept(2) [OF that] ih ino [OF that] by simp
  have "\<exists>r \<in> dom (f_heap h). ino_of h r = FUSE_ROOT_ID \<and> n_nlookup (node_at h r) \<noteq> 0" using root rest dh by auto
  from inc_ok [OF ids_h _ cnt pos this] show "tree_ok (update a inc_nlookup h)" using sn(1) k(1) dh ha n(2) by simp
  show "dom (f_heap h) = insert a (dom (f_heap f))" "n_nlookup (node_at h a) = n_nlookup n" "ino_of h a = n_nodeid n"
    "n_treelock (node_at h a) = n_treelock n" using dh ha ih inoa by simp_all
  show "find_name h d m = (if (d, m) = (dir, nm) then Some a else find_name f d m)"
    unfolding sn(4) using attach_find [OF b(1) in_g(1-3) nroot anc in_g(4)] b(3) ino [OF pd(1)] pd(2) by simp
qed

lemma new_node_ok:
  assumes t: "tree_ok f" and mem: "\<forall>n. mem n" and p: "find_id f dir = Some p" and new: "find_name f dir nm = None"
    and room: "t_use (f_ids f) + 3 \<le> 2 ^ 32" and a: "a = f_fresh f"
  shows "\<exists>h. new_node mem f dir nm = Inr (Some a, h) \<and> tree_ok (update a inc_nlookup h) \<and> a \<notin> dom (f_heap f) \<and>
    (\<forall>d m. find_name h d m = (if (d, m) = (dir, nm) then Some a else find_name f d m)) \<and>
    dom (f_heap h) = insert a (dom (f_heap f)) \<and> n_nlookup (node_at h a) = (if f_remember f = 0 then 0 else 1) \<and>
    ino_of h a \<notin> {0, FUSE_UNKNOWN_INO} \<union> ino_of f ` dom (f_heap f) \<and>
    n_treelock (node_at h a) = 0 \<and> (\<forall>x \<in> dom (f_heap f). n_nlookup (node_at h x) = n_nlookup (node_at f x) \<and>
      n_treelock (node_at h x) = n_treelock (node_at f x))"
proof -
  let ?f1 = "f\<lparr>f_heap := (f_heap f)(a \<mapsto> node_zero), f_fresh := a + 1\<rparr>"
  note ids = tree_okD(1) [OF t]
  have fresh: "a \<notin> dom (f_heap f)" using ids_okD(4) [OF ids, of a] a by blast
  have i1: "ino_of ?f1 x = ino_of f x" if "x \<in> dom (f_heap f)" for x
    using that fresh by (cases "x = a") (auto simp: ino_of_def node_at_def)
  have "tab_ok (id_key ?f1) (f_ids f)"
    using ids_okD(1,2) [OF ids] i1 by (auto simp: idx_ok_def intro: tab_ok_cong)
  moreover have "inj_on (ino_of ?f1) (elems (f_ids f))" using ids_okD(2,3) [OF ids] i1 by (auto simp: inj_on_def)
  moreover have "ino_of ?f1 ` elems (f_ids f) = ino_of f ` dom (f_heap f)"
    unfolding ids_okD(2) [OF ids] using i1 by (rule image_cong [OF refl])
  ultimately obtain c g where nx: "next_id ?f1 = Inr (c, ?f1\<lparr>f_ctr := c, f_generation := g\<rparr>)"
    and c: "c \<notin> {0, FUSE_UNKNOWN_INO} \<union> ino_of f ` dom (f_heap f)"
    using next_id_ok [of ?f1] ids_okD(1) [OF ids] room by (auto simp: idx_ok_def)
  define n where "n = (if f_remember f \<noteq> 0 then inc_nlookup else id) (node_zero\<lparr>n_nodeid := c, n_generation := g\<rparr>)"
  define f4 where "f4 = ?f1\<lparr>f_ctr := c, f_generation := g, f_heap := (f_heap f)(a \<mapsto> n)\<rparr>"
  have n: "n_name n = None" "n_parent n = None" "n_nodeid n = c" "n_nlookup n = (if f_remember f = 0 then 0 else 1)"
    "n_refctr n = (if n_nlookup n = 0 then 0 else 1)" "n_treelock n = 0" by (simp_all add: n_def node_zero_def inc_nlookup_def)
  have f4: "f_heap f4 = (f_heap f)(a \<mapsto> n)" "f_names f4 = f_names f" "f_ids f4 = f_ids f" "f_fresh f4 = a + 1"
    by (simp_all add: f4_def)
  have "n_nodeid n \<notin> ino_of f ` dom (f_heap f)" "n_nlookup n \<noteq> - 1" using c n(3,4) by auto
  note place = place_node [where mem = mem, OF t a f4(1,2) n(1,2) f4(3,4) this n(5) p new refl]
  have "new_node mem f dir nm = cbind (hash_name mem f4 a dir nm) (\<lambda>(res, f5).
      if res = -1 then Inr (None, free_node f5 a) else Inr (Some a, hash_id mem f5 a))"
    using mem nx by (simp add: new_node_def alloc_node_def a [symmetric] Let_def update_def f4_def n_def)
  also have "\<dots> = Inr (Some a, hash_id mem (attach mem a p nm f4) a)"
    using hash_name_attach [OF place(1), of nm mem a] mem by simp
  finally show ?thesis
    using place(2-) fresh c n(3,4,6) by (intro exI [of _ "hash_id mem (attach mem a p nm f4) a"]) simp
qed

lemma inc_tree:
  assumes "tree_ok f" "a \<in> dom (f_heap f)" "n_nlookup (node_at f a) \<noteq> - 1"
  shows "tree_ok (update a inc_nlookup f)"
  using inc_ok [of f a] assms unfolding tree_ok_def by blast

lemma lru_frame [simp]:
  "f_heap (remove_node_lru a f) = f_heap f" "f_names (remove_node_lru a f) = f_names f"
  "tree_ok (remove_node_lru a f) = tree_ok f" "node_at (remove_node_lru a f) = node_at f"
  "find_name (remove_node_lru a f) = find_name f"
proof -
  show h: "f_heap (remove_node_lru a f) = f_heap f" and n: "f_names (remove_node_lru a f) = f_names f"
    by (simp_all add: remove_node_lru_def)
  show "node_at (remove_node_lru a f) = node_at f" "find_name (remove_node_lru a f) = find_name f"
    by (rule same_heap(1) [OF h], rule same_names(4) [OF h n])
  show "tree_ok (remove_node_lru a f) = tree_ok f" by (simp add: remove_node_lru_def)
qed

lemma find_node_known:
  assumes "find_name f dir nm = Some a"
  shows "\<exists>f1. find_node mem f dir (Some nm) = Inr (Some a, update a inc_nlookup f1) \<and> (f1 = f \<or> f1 = remove_node_lru a f)"
  using assms by (auto simp: find_node_def Let_def)

lemma find_node_ok:
  assumes t: "tree_ok f" and mem: "\<forall>n. mem n" and dir: "find_id f dir \<noteq> None"
    and room: "t_use (f_ids f) + 3 \<le> 2 ^ 32" "\<And>a. find_name f dir nm = Some a \<Longrightarrow> n_nlookup (node_at f a) \<noteq> - 1"
  shows "\<exists>a f'. find_node mem f dir (Some nm) = Inr (Some a, f') \<and> tree_ok f' \<and>
    (\<forall>d m. find_name f' d m = (if (d, m) = (dir, nm) then Some a else find_name f d m)) \<and>
    dom (f_heap f') = insert a (dom (f_heap f)) \<and>
    (\<forall>x \<in> dom (f_heap f). n_nlookup (node_at f' x) = n_nlookup (node_at f x) + (if x = a then 1 else 0) \<and>
       n_treelock (node_at f' x) = n_treelock (node_at f x)) \<and>
    (find_name f dir nm = None \<longrightarrow> a \<notin> dom (f_heap f) \<and> n_nlookup (node_at f' a) = (if f_remember f = 0 then 1 else 2) \<and>
      n_treelock (node_at f' a) = 0 \<and>
      ino_of f' a \<notin> {0, FUSE_UNKNOWN_INO} \<union> ino_of f ` dom (f_heap f))"
proof (cases "find_name f dir nm")
  case None
  from dir obtain p where p: "find_id f dir = Some p" by blast
  from new_node_ok [OF t mem p None room(1) refl] obtain h where
    h: "new_node mem f dir nm = Inr (Some (f_fresh f), h)" "tree_ok (update (f_fresh f) inc_nlookup h)"
      "f_fresh f \<notin> dom (f_heap f)" "\<forall>d m. find_name h d m = (if (d, m) = (dir, nm) then Some (f_fresh f) else find_name f d m)"
      "dom (f_heap h) = insert (f_fresh f) (dom (f_heap f))"
      "n_nlookup (node_at h (f_fresh f)) = (if f_remember f = 0 then 0 else 1)"
      "ino_of h (f_fresh f) \<notin> {0, FUSE_UNKNOWN_INO} \<union> ino_of f ` dom (f_heap f)"
      "n_treelock (node_at h (f_fresh f)) = 0" "\<forall>x \<in> dom (f_heap f). n_nlookup (node_at h x) = n_nlookup (node_at f x) \<and>
        n_treelock (node_at h x) = n_treelock (node_at f x)" by blast
  have "find_node mem f dir (Some nm) = Inr (Some (f_fresh f), update (f_fresh f) inc_nlookup h)"
    using None h(1) by (simp add: find_node_def)
  moreover have "x \<in> dom (f_heap f) \<Longrightarrow> x \<noteq> f_fresh f" for x using h(3) by auto
  ultimately show ?thesis
    using h(2-9) None by (intro exI [of _ "f_fresh f"] exI [of _ "update (f_fresh f) inc_nlookup h"])
      (auto simp: inc_node inc_nlookup_def)
next
  case (Some a)
  then have a: "a \<in> dom (f_heap f)" using find_name_iff [OF tree_okD(2) [OF t]] tree_okD(2) [OF t] by (auto simp: names_ok_def)
  from find_node_known [OF Some, of mem] obtain f1 where
    f1: "find_node mem f dir (Some nm) = Inr (Some a, update a inc_nlookup f1)" "f1 = f \<or> f1 = remove_node_lru a f" by blast
  from f1(2) have s: "f_heap f1 = f_heap f" "tree_ok f1" "node_at f1 = node_at f" "find_name f1 = find_name f" using t by auto
  have "tree_ok (update a inc_nlookup f1)" using inc_tree [OF s(2), of a] a room(2) [OF Some] s by simp
  then show ?thesis using f1(1) a s Some
    by (intro exI [of _ a] exI [of _ "update a inc_nlookup f1"]) (auto simp: inc_node inc_nlookup_def)
qed

section \<open>Removing and renaming\<close>

text \<open>When the kernel knows the directory, taking a name away deletes no node.\<close>

lemma trimmed_step:
  assumes t': "tree_ok f'" and tr: "trimmed f a D f'" and l: "(y, z) \<in> links f" "y \<noteq> a" "y \<in> dom (f_heap f) - D"
  shows "z \<in> dom (f_heap f) - D"
proof -
  have "y \<in> elems (f_names f')" "n_parent (node_at f' y) = Some z" using tr l by (auto simp: trimmed_def links_def)
  then have "z \<in> dom (f_heap f')" using tree_okD(2) [OF t'] by (auto simp: names_ok_def)
  then show ?thesis using tr unfolding trimmed_def by blast
qed

lemma trimmed_known:
  assumes t: "tree_ok f" "tree_ok f'" and tr: "trimmed f a D f'" and q: "(a, q) \<in> links f" "n_nlookup (node_at f q) \<noteq> 0"
  shows "dom (f_heap f') = dom (f_heap f)"
proof -
  have known: "y \<in> dom (f_heap f) - D" if "y \<in> dom (f_heap f)" "n_nlookup (node_at f y) \<noteq> 0" for y
    using that tr by (auto simp: trimmed_def)
  have "x \<in> dom (f_heap f) - D" if x: "x \<in> dom (f_heap f)" for x
  proof (cases "(a, x) \<in> (links f)\<^sup>+")
    case False
    from leads_to_known [OF t(1) x] obtain y where y: "(y, x) \<in> (links f)\<^sup>*" "y \<in> dom (f_heap f)" "n_nlookup (node_at f y) \<noteq> 0" by blast
    from y(1) known [OF y(2,3)] show ?thesis
    proof (induction rule: converse_rtrancl_induct)
      case (step y z)
      have "y \<noteq> a" using False rtrancl_into_trancl2 [OF step.hyps] by auto
      from step.IH [OF trimmed_step [OF t(2) tr step.hyps(1) this step.prems]] show ?case .
    qed
  next
    case True
    then obtain z where z: "(a, z) \<in> links f" "(z, x) \<in> (links f)\<^sup>*" by (auto dest: tranclD)
    then have "z = q" using q(1) by (auto simp: links_def)
    then have qx: "(q, x) \<in> (links f)\<^sup>*" using z(2) by simp
    have "q \<in> dom (f_heap f)" using q(1) tree_okD(2) [OF t(1)] by (auto simp: names_ok_def links_def)
    note qk = known [OF this q(2)]
    show ?thesis using qx
    proof induction
      case (step u v)
      have "u \<noteq> a" using rtrancl_into_trancl2 [OF q(1) step.hyps(1)] names_okD(7) [OF tree_okD(2) [OF t(1)]]
        unfolding acyclic_def by auto
      from trimmed_step [OF t(2) tr step.hyps(2) this step.IH] show ?case .
    qed (rule qk)
  qed
  then show ?thesis using tr unfolding trimmed_def by blast
qed

text \<open>A node without its name, in a tree that is otherwise the same.\<close>

definition detached :: "fuse \<Rightarrow> fuse_ino_t \<Rightarrow> string \<Rightarrow> addr \<Rightarrow> fuse \<Rightarrow> bool" where
  "detached f dir nm a f' \<longleftrightarrow> tree_ok f' \<and> unlocked f' \<and> dom (f_heap f') = dom (f_heap f) \<and>
     (\<forall>x \<in> dom (f_heap f). ino_of f' x = ino_of f x \<and> (n_nlookup (node_at f' x) = 0 \<longleftrightarrow> n_nlookup (node_at f x) = 0)) \<and>
     links f' \<subseteq> links f \<and> a \<notin> elems (f_names f') \<and> f_remember f' = f_remember f \<and>
     (\<forall>d m. find_name f' d m = (if (d, m) = (dir, nm) then None else find_name f d m))"

lemma trimmed_detached:
  assumes t: "tree_ok f" "tree_ok f'" and u: "unlocked f" and tr: "trimmed f a D f'" and a: "find_name f dir nm = Some a"
    and q: "find_id f dir = Some q" "n_nlookup (node_at f q) \<noteq> 0"
  shows "detached f dir nm a f'"
proof -
  have a': "a \<in> elems (f_names f)" "parent_ino f a = dir" "name_of f a = nm"
    using a find_name_iff [OF tree_okD(2) [OF t(1)]] by auto
  from named [OF tree_okD(2) [OF t(1)] a'(1)] obtain p where p: "n_parent (node_at f a) = Some p" "f_heap f p \<noteq> None" "(a, p) \<in> links f"
    by metis
  have q': "q \<in> dom (f_heap f)" "ino_of f q = dir" using q(1) find_id_iff [OF tree_okD(1) [OF t(1)]] by auto
  have "ino_of f p = dir" using a'(2) p(1) by (simp add: parent_ino_def)
  then have "p = q" using q' p(2) by (intro inj_onD [OF ids_okD(3) [OF tree_okD(1) [OF t(1)]]]) auto
  then have dom: "dom (f_heap f') = dom (f_heap f)" using trimmed_known [OF t tr p(3)] q(2) by simp
  have "dom (f_heap f') = dom (f_heap f) - D" using tr by (simp add: trimmed_def)
  with dom have D: "x \<in> dom (f_heap f) \<Longrightarrow> x \<notin> D" for x by blast
  have same: "ino_of f' x = ino_of f x" "n_nlookup (node_at f' x) = n_nlookup (node_at f x)"
    "n_treelock (node_at f' x) = n_treelock (node_at f x)" if "x \<in> dom (f_heap f)" for x
    using tr D [OF that] by (simp_all add: trimmed_def)
  have "unlocked f'" using u same unfolding unlocked_def dom by simp
  moreover have "links f' \<subseteq> links f" using tr by (auto simp: links_def trimmed_def)
  moreover have "find_name f' d m = (if (d, m) = (dir, nm) then None else find_name f d m)" for d m
  proof -
    have in_dom: "x \<in> dom (f_heap f)" if "find_name f d m = Some x" for x
      using that find_name_iff [OF tree_okD(2) [OF t(1)]] tree_okD(2) [OF t(1)] by (auto simp: names_ok_def)
    have "find_name f' d m = Some x \<longleftrightarrow> find_name f d m = Some x \<and> x \<noteq> a" for x
      using trimmed_find [OF t tr, of d m x] in_dom D by auto
    moreover have "find_name f d m = Some a \<longleftrightarrow> (d, m) = (dir, nm)"
      using a a' find_name_iff [OF tree_okD(2) [OF t(1)], of d m a] by auto
    ultimately have "find_name f' d m = Some x \<longleftrightarrow> (if (d, m) = (dir, nm) then None else find_name f d m) = Some x" for x
      by (metis option.inject option.distinct(1))
    then show ?thesis by (metis option.exhaust)
  qed
  moreover have "a \<notin> elems (f_names f')" "f_remember f' = f_remember f" using tr by (auto simp: trimmed_def)
  ultimately show ?thesis unfolding detached_def using t(2) dom same by simp
qed

lemma detach_node:
  assumes t: "tree_ok f" and u: "unlocked f" and a: "find_name f dir nm = Some a"
    and q: "find_id f dir = Some q" "n_nlookup (node_at f q) \<noteq> 0"
  shows "\<exists>f'. unhash_name mem (fuel_of f) f a = Inr f' \<and> detached f dir nm a f'"
proof -
  have "a \<in> elems (f_names f)" using a find_name_iff [OF tree_okD(2) [OF t]] by auto
  from unhash_name_ok [OF t u this, of mem] obtain f' D where
    f': "unhash_name mem (fuel_of f) f a = Inr f'" "tree_ok f'" "trimmed f a D f'" by blast
  with trimmed_detached [OF t f'(2) u f'(3) a q] show ?thesis by blast
qed

lemma unlink_detaches:
  assumes t: "tree_ok f" and u: "unlocked f" and a: "find_name f dir nm = Some a"
    and q: "find_id f dir = Some q" "n_nlookup (node_at f q) \<noteq> 0" and re: "f_remember f \<noteq> 0 \<Longrightarrow> 1 < n_nlookup (node_at f a)"
  shows "\<exists>f'. unlink_node mem f a = Inr f' \<and> detached f dir nm a f'"
proof -
  have ae: "a \<in> elems (f_names f)" using a find_name_iff [OF tree_okD(2) [OF t]] by auto
  then have ad: "a \<in> dom (f_heap f)" using tree_okD(2) [OF t] by (auto simp: names_ok_def)
  note m = unmark_ok [OF t u ad re]
  from unlink_node_ok [OF t u ae re, of mem] obtain f' D where
    f': "unlink_node mem f a = Inr f'" "tree_ok f'" "trimmed (unmark a f) a D f'" by blast
  have fid: "find_id (unmark a f) = find_id f" by (simp add: unmark_def)
  have dom: "dom (f_heap (unmark a f)) = dom (f_heap f)" by (simp add: unmark_def)
  have rem: "f_remember (unmark a f) = f_remember f" by (simp add: unmark_def set_lookups_def update_def)
  have "detached (unmark a f) dir nm a f'"
    using trimmed_detached [OF m(1) f'(2) m(2) f'(3), of dir nm q] a q m(3,9) fid by simp
  then have "detached f dir nm a f'" by (simp add: detached_def dom rem m(3,6,7,9))
  with f'(1) show ?thesis by blast
qed

lemma rename_node_ok:
  assumes t: "tree_ok f" and u: "unlocked f" and mem: "\<forall>n. mem n" and a: "find_name f olddir oldname = Some a"
    and q: "find_id f olddir = Some q" "n_nlookup (node_at f q) \<noteq> 0"
    and p: "find_id f newdir = Some p" "n_nlookup (node_at f p) \<noteq> 0" "a \<notin> ancestors f p"
    and ne: "(olddir, oldname) \<noteq> (newdir, newname)"
    and re: "\<And>b. find_name f newdir newname = Some b \<Longrightarrow> f_remember f \<noteq> 0 \<Longrightarrow> 1 < n_nlookup (node_at f b)"
  shows "\<exists>f'. rename_node mem f olddir oldname newdir newname False = Inr (0, f') \<and> tree_ok f' \<and>
    (\<forall>d m. find_name f' d m = (if (d, m) = (newdir, newname) then Some a
       else if (d, m) = (olddir, oldname) then None else find_name f d m))"
proof -
  have a': "a \<in> elems (f_names f)" "ino_of f a \<noteq> FUSE_ROOT_ID" "a \<in> dom (f_heap f)"
    using a find_name_iff [OF tree_okD(2) [OF t]] tree_okD(2) [OF t] by (auto simp: names_ok_def)
  note fid = find_id_iff [OF tree_okD(1)]
  have pq: "p \<in> dom (f_heap f)" "ino_of f p = newdir" "q \<in> dom (f_heap f)" "ino_of f q = olddir"
    using p(1) q(1) fid [OF t] by auto
  obtain f1 where f1: "(case find_name f newdir newname of None \<Rightarrow> Inr f | Some b \<Rightarrow> unlink_node mem f b) = Inr f1"
    and g: "tree_ok f1" "unlocked f1" "dom (f_heap f1) = dom (f_heap f)" "links f1 \<subseteq> links f"
      "\<forall>x \<in> dom (f_heap f). ino_of f1 x = ino_of f x \<and> (n_nlookup (node_at f1 x) = 0 \<longleftrightarrow> n_nlookup (node_at f x) = 0)"
      "\<forall>d m. find_name f1 d m = (if (d, m) = (newdir, newname) then None else find_name f d m)"
  proof (cases "find_name f newdir newname")
    case None
    then show ?thesis using that [of f] t u by auto
  next
    case (Some b)
    from unlink_detaches [OF t u Some p(1,2) re [OF Some], of mem] obtain f1 where
      "unlink_node mem f b = Inr f1" "detached f newdir newname b f1" by blast
    with Some show ?thesis using that [of f1] by (simp add: detached_def)
  qed
  have "find_id f1 olddir = Some q" "n_nlookup (node_at f1 q) \<noteq> 0" "find_name f1 olddir oldname = Some a"
    using g(3,5,6) pq q(2) a ne fid [OF g(1)] by auto
  from detach_node [OF g(1,2) this(3,1,2), of mem] obtain f2 where
    f2: "unhash_name mem (fuel_of f1) f1 a = Inr f2" "detached f1 olddir oldname a f2" by blast
  then have h: "tree_ok f2" "dom (f_heap f2) = dom (f_heap f)" "links f2 \<subseteq> links f" "a \<notin> elems (f_names f2)"
    "\<forall>x \<in> dom (f_heap f). ino_of f2 x = ino_of f x"
    "\<forall>d m. find_name f2 d m = (if (d, m) = (olddir, oldname) then None else find_name f1 d m)"
    using g by (auto simp: detached_def)
  have p2: "find_id f2 newdir = Some p" using fid [OF h(1)] h(2,5) pq by simp
  have anc: "a \<notin> ancestors f2 p" using p(3) h(3) rtrancl_mono [of "links f2" "links f"] by (auto simp: ancestors_def)
  have "a \<in> dom (f_heap f2)" "ino_of f2 a \<noteq> FUSE_ROOT_ID" "find_name f2 newdir newname = None"
    using h(2,5,6) a' g(6) ne by auto
  note att = attach_tree [where mem = mem, OF h(1) p2 this(1) h(4) this(2) anc this(3)]
  have "hash_name mem f2 a newdir newname = Inr (0, attach mem a p newname f2)"
    using p2 mem by (intro hash_name_attach) (simp_all add: get_node_def)
  then have "rename_node mem f olddir oldname newdir newname False = Inr (0, attach mem a p newname f2)"
    using a f1 f2(1) by (simp add: rename_node_def Let_def)
  with att h(6) g(6) show ?thesis by (intro exI [of _ "attach mem a p newname f2"]) auto
qed

lemma exchange_node_ok:
  assumes t: "tree_ok f" and u: "unlocked f" and mem: "\<forall>n. mem n"
    and a: "find_name f olddir oldname = Some a" and b: "find_name f newdir newname = Some b"
    and q: "find_id f olddir = Some q" "n_nlookup (node_at f q) \<noteq> 0" "b \<notin> ancestors f q"
    and p: "find_id f newdir = Some p" "n_nlookup (node_at f p) \<noteq> 0" "a \<notin> ancestors f p"
    and ne: "(olddir, oldname) \<noteq> (newdir, newname)"
  shows "\<exists>f'. exchange_node mem f olddir oldname newdir newname = Inr (0, f') \<and> tree_ok f' \<and>
    (\<forall>d m. find_name f' d m = (if (d, m) = (newdir, newname) then Some a
       else if (d, m) = (olddir, oldname) then Some b else find_name f d m))"
proof -
  note fid = find_id_iff [OF tree_okD(1)]
  have ab: "a \<in> elems (f_names f)" "ino_of f a \<noteq> FUSE_ROOT_ID" "a \<in> dom (f_heap f)"
    "b \<in> elems (f_names f)" "ino_of f b \<noteq> FUSE_ROOT_ID" "b \<in> dom (f_heap f)" "a \<noteq> b"
    using a b ne find_name_iff [OF tree_okD(2) [OF t]] tree_okD(2) [OF t] by (auto simp: names_ok_def)
  have pq: "p \<in> dom (f_heap f)" "ino_of f p = newdir" "q \<in> dom (f_heap f)" "ino_of f q = olddir"
    using p(1) q(1) fid [OF t] by auto
  from detach_node [OF t u a q(1,2), of mem] obtain f1 where
    f1: "unhash_name mem (fuel_of f) f a = Inr f1" "detached f olddir oldname a f1" by blast
  then have g: "tree_ok f1" "unlocked f1" "dom (f_heap f1) = dom (f_heap f)" "links f1 \<subseteq> links f" "a \<notin> elems (f_names f1)"
    "\<forall>x \<in> dom (f_heap f). ino_of f1 x = ino_of f x \<and> (n_nlookup (node_at f1 x) = 0 \<longleftrightarrow> n_nlookup (node_at f x) = 0)"
    "\<forall>d m. find_name f1 d m = (if (d, m) = (olddir, oldname) then None else find_name f d m)"
    by (simp_all add: detached_def)
  have "find_id f1 newdir = Some p" "n_nlookup (node_at f1 p) \<noteq> 0" "find_name f1 newdir newname = Some b"
    using g(3,6,7) pq p(2) b ne fid [OF g(1)] by auto
  from detach_node [OF g(1,2) this(3,1,2), of mem] obtain f2 where
    f2: "unhash_name mem (fuel_of f1) f1 b = Inr f2" "detached f1 newdir newname b f2" by blast
  then have h: "tree_ok f2" "dom (f_heap f2) = dom (f_heap f)" "links f2 \<subseteq> links f" "b \<notin> elems (f_names f2)"
    "\<forall>x \<in> dom (f_heap f). ino_of f2 x = ino_of f x"
    "\<forall>d m. find_name f2 d m = (if (d, m) = (newdir, newname) then None else find_name f1 d m)"
    using g by (auto simp: detached_def)
  have "links f2 \<subseteq> links f1" using f2(2) by (simp add: detached_def)
  have a2: "a \<notin> elems (f_names f2)"
  proof
    assume "a \<in> elems (f_names f2)"
    with named [OF tree_okD(2) [OF h(1)]] obtain y where "(a, y) \<in> links f2" by metis
    with \<open>links f2 \<subseteq> links f1\<close> g(5) show False by (auto simp: links_def)
  qed
  have p2: "find_id f2 newdir = Some p" using fid [OF h(1)] h(2,5) pq by simp
  have sub: "(links f2)\<^sup>* \<subseteq> (links f)\<^sup>*" using h(3) by (rule rtrancl_mono)
  have a': "a \<in> dom (f_heap f2)" "ino_of f2 a \<noteq> FUSE_ROOT_ID" "a \<notin> ancestors f2 p" "find_name f2 newdir newname = None"
    using h(2,5,6) ab p(3) sub by (auto simp: ancestors_def)
  let ?f3 = "attach mem a p newname f2" and ?f4 = "attach mem b q oldname (attach mem a p newname f2)"
  note t3 = attach_tree [where mem = mem, OF h(1) p2 a'(1) a2 a'(2-4)]
  have p2': "p \<in> dom (f_heap f2)" "a \<noteq> p" using pq(1) h(2) a'(3) by (auto simp: ancestors_def)
  have new: "find_name f2 (ino_of f2 p) newname = None" using a'(4) h(5) pq by simp
  note ok3 = attach_ok [where mem = mem, OF tree_okD(2) [OF h(1)] p2'(1) a'(1) a2 a'(2,3) new]
  have dom3: "dom (f_heap ?f3) = dom (f_heap f)" using attach_node(2) [OF p2'(2) a'(1) p2'(1)] h(2) by simp
  have q3: "find_id ?f3 olddir = Some q" using fid [OF t3(1)] dom3 ok3(4) h(5) pq by simp
  have b3: "b \<in> dom (f_heap ?f3)" "b \<notin> elems (f_names ?f3)" "ino_of ?f3 b \<noteq> FUSE_ROOT_ID" "find_name ?f3 olddir oldname = None"
    using dom3 ok3(3,4) h(4,5,6) ab t3(2) [of olddir oldname] g(7) ne by auto
  have "b \<notin> ancestors ?f3 q"
  proof
    assume "b \<in> ancestors ?f3 q"
    then consider "(q, b) \<in> (links f2)\<^sup>*" | "(q, a) \<in> (links f2)\<^sup>*" unfolding ancestors_def ok3(2) rtrancl_insert by auto
    then show False
    proof cases
      case 2
      from named [OF tree_okD(2) [OF t] ab(1)] obtain y where y: "(a, y) \<in> links f" "n_parent (node_at f a) = Some y" "f_heap f y \<noteq> None" by metis
      have "parent_ino f a = olddir" using a find_name_iff [OF tree_okD(2) [OF t]] by simp
      then have "ino_of f y = ino_of f q" using y(2) pq by (simp add: parent_ino_def)
      then have "y = q" using y(3) pq by (intro inj_onD [OF ids_okD(3) [OF tree_okD(1) [OF t]]]) auto
      with y(1) 2 sub have "(a, a) \<in> (links f)\<^sup>+" by (auto intro: rtrancl_into_trancl2)
      then show False using names_okD(7) [OF tree_okD(2) [OF t]] by (simp add: acyclic_def)
    qed (use q(3) sub in \<open>auto simp: ancestors_def\<close>)
  qed
  note t4 = attach_tree [where mem = mem, OF t3(1) q3 b3(1-3) this b3(4)]
  have "hash_name mem f2 a newdir newname = Inr (0, ?f3)" "hash_name mem ?f3 b olddir oldname = Inr (0, ?f4)"
    using p2 q3 mem by (auto intro!: hash_name_attach simp: get_node_def)
  then have "exchange_node mem f olddir oldname newdir newname = Inr (0, ?f4)"
    using a b f1(1) f2(1) by (simp add: exchange_node_def Let_def)
  with t4 t3(2) h(6) g(7) ne show ?thesis by (intro exI [of _ ?f4]) auto
qed

section \<open>The tree at start-up\<close>

lemma new_tree_root:
  assumes "new_tree mem r nul = Some f"
  shows "f_heap f = [0 \<mapsto> inc_nlookup (node_zero\<lparr>n_name := Some ''/'', n_parent := None, n_nodeid := FUSE_ROOT_ID\<rparr>)]"
    "f_names f = node_table_init" "f_ids f = hash_node mem (id_key f) node_table_init 0" "f_fresh f = 1" "f_remember f = r"
proof -
  let ?h = "[0 \<mapsto> inc_nlookup (node_zero\<lparr>n_name := Some ''/'', n_parent := None, n_nodeid := FUSE_ROOT_ID\<rparr>)]"
  define f0 where "f0 = \<lparr>f_heap = ?h, f_fresh = 1, f_names = node_table_init, f_ids = node_table_init,
                 f_lru = [], f_ctr = 0, f_generation = 0, f_remember = r, f_lockq = [], f_nullpath_ok = nul\<rparr>"
  have f: "f = hash_id mem f0 0"
    using assms by (auto simp: new_tree_def alloc_node_def update_def f0_def split: if_splits)
  show h: "f_heap f = ?h" "f_names f = node_table_init" "f_fresh f = 1" "f_remember f = r"
    unfolding f by (simp_all add: hash_id_def f0_def)
  have "f_heap f = f_heap f0" unfolding f by (simp add: hash_id_def)
  then have "ino_of f = ino_of f0" by (rule same_heap)
  then show "f_ids f = hash_node mem (id_key f) node_table_init 0" unfolding f by (simp add: hash_id_def) (simp add: f0_def)
qed

lemma new_tree_ok:
  assumes "new_tree mem r nul = Some f"
  shows "tree_ok f" "elems (f_names f) = {}" "dom (f_heap f) = {0}" "ino_of f 0 = FUSE_ROOT_ID" "n_nlookup (node_at f 0) = 1"
proof -
  note f = new_tree_root [OF assms]
  show el: "elems (f_names f) = {}" unfolding f(2) by (rule idx_ok_init(2))
  show dom: "dom (f_heap f) = {0}" by (simp add: f(1))
  show ino: "ino_of f 0 = FUSE_ROOT_ID" and lk: "n_nlookup (node_at f 0) = 1"
    by (simp_all add: ino_of_def node_at_def f(1) inc_nlookup_def node_zero_def)
  have p: "n_parent (node_at f 0) = None" "n_refctr (node_at f 0) = 1"
    by (simp_all add: node_at_def f(1) inc_nlookup_def node_zero_def)
  have l: "links f = {}" by (simp add: links_def el)
  then have o: "owed f 0 = 1" by (simp add: owed_def kids_def lk)
  from hash_node_ok [OF idx_ok_init(1), of 0 "id_key f" mem]
  have "idx_ok (id_key f) (f_ids f)" "elems (f_ids f) = {0}" unfolding f(3) by (simp_all add: idx_ok_init(2))
  then have "ids_ok f" unfolding ids_ok_def dom using f(4) by simp
  moreover have "names_ok f {}"
    unfolding names_ok_def el l dom using idx_ok_init(1) [of "name_key f"] p(1) ino
    by (simp add: f(2) idx_ok_def idx_ok_init(2) acyclic_def)
  moreover have "counted f" by (simp add: counted_def dom o p(2))
  ultimately show "tree_ok f" unfolding tree_ok_def dom using o ino lk by simp
qed

text \<open>A tree right after start-up, and with one node looked up in it.\<close>

definition fresh_tree :: fuse where
  "fresh_tree = (case new_tree (\<lambda>_. True) 0 False of Some f \<Rightarrow> f)"

lemma fresh_tree: "new_tree (\<lambda>_. True) 0 False = Some fresh_tree"
  by (simp add: fresh_tree_def new_tree_def alloc_node_def)

lemma fresh_tree_facts:
  "tree_ok fresh_tree" "dom (f_heap fresh_tree) = {0}" "f_remember fresh_tree = 0" "find_id fresh_tree 1 = Some 0"
  "find_name fresh_tree d m = None" "t_use (f_ids fresh_tree) = 1" "n_nlookup (node_at fresh_tree 0) = 1"
  "ino_of fresh_tree 0 = 1" "n_treelock (node_at fresh_tree 0) = 0"
proof -
  show "n_treelock (node_at fresh_tree 0) = 0"
    by (simp add: node_at_def new_tree_root(1) [OF fresh_tree] inc_nlookup_def node_zero_def)
  note f = new_tree_ok [OF fresh_tree]
  show t: "tree_ok fresh_tree" "dom (f_heap fresh_tree) = {0}" "n_nlookup (node_at fresh_tree 0) = 1" by fact+
  show "f_remember fresh_tree = 0" by (rule new_tree_root(5) [OF fresh_tree])
  show "find_id fresh_tree 1 = Some 0" using f(3,4) find_id_iff [OF tree_okD(1) [OF t(1)]] by (simp add: FUSE_ROOT_ID_def)
  show "find_name fresh_tree d m = None"
    using find_name_iff [OF tree_okD(2) [OF t(1)], of d m] f(2) by (cases "find_name fresh_tree d m") auto
  have "t_use (f_ids fresh_tree) = card (dom (f_heap fresh_tree))"
    using ids_okD(1,2) [OF tree_okD(1) [OF t(1)]] by (simp add: idx_ok_def)
  then show "t_use (f_ids fresh_tree) = 1" using f(3) by simp
  show "ino_of fresh_tree 0 = 1" using f(4) by (simp add: FUSE_ROOT_ID_def)
qed

lemma sample_child:
  obtains a f1 where "find_node (\<lambda>_. True) fresh_tree 1 (Some ''x'') = Inr (Some a, f1)" "tree_ok f1" "dom (f_heap f1) = {a, 0}"
    "find_name f1 1 ''x'' = Some a" "find_name f1 1 ''y'' = None" "n_nlookup (node_at f1 a) = 1" "n_nlookup (node_at f1 0) \<noteq> 0"
    "find_id f1 1 = Some 0" "a \<noteq> 0" "n_treelock (node_at f1 a) = 0" "n_treelock (node_at f1 0) = 0"
proof -
  note s = fresh_tree_facts
  have "t_use (f_ids fresh_tree) + 3 \<le> 2 ^ 32" by (simp add: s(6))
  from find_node_ok [where mem = "\<lambda>_. True" and nm = "''x''" and dir = 1, OF s(1) _ _ this] obtain a f1 where
    f1: "find_node (\<lambda>_. True) fresh_tree 1 (Some ''x'') = Inr (Some a, f1)" "tree_ok f1"
      "\<forall>d m. find_name f1 d m = (if (d, m) = (1, ''x'') then Some a else None)" "dom (f_heap f1) = {a, 0}" "a \<noteq> 0"
      "n_nlookup (node_at f1 a) = 1" "n_treelock (node_at f1 a) = 0" "ino_of f1 a \<noteq> 1" "n_nlookup (node_at f1 0) \<noteq> 0"
      "n_treelock (node_at f1 0) = 0"
    by (auto simp: s)
  have "find_id f1 1 = Some 0"
    using f1(2,4,8) find_id_iff [OF tree_okD(1) [OF f1(2)]] by (auto simp: tree_ok_def FUSE_ROOT_ID_def)
  with that [of a f1] f1 show ?thesis by simp
qed

text \<open>C10: forgetting lookups of a node always ends, and leaves a well-formed tree that holds exactly the nodes
  that lead down to a node the kernel still knows: the node and the ancestors that only it kept
  alive are deleted, and nothing else. The node is not the root, has at least the lookups that
  are forgotten, and no node that is or becomes forgotten is locked.\<close>

theorem forget_collects:
  assumes t: "tree_ok f" and u: "unlocked f" and a: "find_id f nodeid = Some a" "nodeid \<noteq> FUSE_ROOT_ID"
    "0 < k" "k \<le> n_nlookup (node_at f a)" "n_nlookup (node_at f a) = k \<Longrightarrow> n_treelock (node_at f a) = 0"
  shows "\<exists>f'. forget_node mem f nodeid k = Inr (Some f') \<and> tree_ok f' \<and>
    dom (f_heap f') = {x \<in> dom (f_heap f). \<exists>y \<in> dom (f_heap f). (y, x) \<in> (links f)\<^sup>* \<and>
      n_nlookup (node_at f y) \<noteq> (if y = a then k else 0)}"
  by (rule forget_node_ok [OF assms])

theorem forget_collects_witness:
  "\<exists>a f1 f2. find_node (\<lambda>_. True) fresh_tree 1 (Some ''x'') = Inr (Some a, f1) \<and>
    forget_node (\<lambda>_. True) f1 (ino_of f1 a) 1 = Inr (Some f2) \<and> a \<in> dom (f_heap f1) \<and> a \<notin> dom (f_heap f2)"
proof -
  obtain a f1 where a: "find_node (\<lambda>_. True) fresh_tree 1 (Some ''x'') = Inr (Some a, f1)" "tree_ok f1" "dom (f_heap f1) = {a, 0}"
    "n_nlookup (node_at f1 a) = 1" "n_nlookup (node_at f1 0) \<noteq> 0" "find_id f1 1 = Some 0" "a \<noteq> 0"
    "n_treelock (node_at f1 a) = 0" "find_name f1 1 ''x'' = Some a" by (rule sample_child)
  note fid = find_id_iff [OF tree_okD(1) [OF a(2)]] and nok = tree_okD(2) [OF a(2)]
  have "ino_of f1 a \<noteq> FUSE_ROOT_ID" using a(3,6,7) fid [of 1 a] by (auto simp: FUSE_ROOT_ID_def)
  moreover have "unlocked f1" "find_id f1 (ino_of f1 a) = Some a" "0 < (1 :: 64 word)" "1 \<le> n_nlookup (node_at f1 a)"
    "n_nlookup (node_at f1 a) = 1 \<Longrightarrow> n_treelock (node_at f1 a) = 0"
    using a(3-8) fid by (auto simp: unlocked_def)
  ultimately obtain f2 where f2: "forget_node (\<lambda>_. True) f1 (ino_of f1 a) 1 = Inr (Some f2)"
    "dom (f_heap f2) = {x \<in> dom (f_heap f1). \<exists>y \<in> dom (f_heap f1). (y, x) \<in> (links f1)\<^sup>* \<and>
      n_nlookup (node_at f1 y) \<noteq> (if y = a then 1 else 0)}"
    using forget_collects [OF a(2), of "ino_of f1 a" a 1 "\<lambda>_. True"] by blast
  have "0 \<notin> elems (f_names f1)" using nok a(3,6) fid [of 1 0] by (auto simp: names_ok_def FUSE_ROOT_ID_def)
  then have "(0, a) \<notin> (links f1)\<^sup>*" using a(7) by (auto simp: links_def elim: converse_rtranclE)
  then have "a \<notin> dom (f_heap f2)" unfolding f2(2) a(3) using a(4) by simp
  moreover have "a \<in> dom (f_heap f1)" by (simp add: a(3))
  ultimately show ?thesis using a(1) f2(1) by (intro exI [of _ a] exI [of _ f1] exI [of _ f2]) simp
qed

text \<open>C15: a lookup of a name always ends with a node, in a well-formed tree where that name leads to that
  node and every other name to the node it led to before; the kernel has one more lookup of the
  node and as many as before of every other. A new node has a number that no node has, and that
  is not one of the two reserved ones. The directory exists, memory is available, fewer than
  \<open>2\<^sup>3\<^sup>2 - 2\<close> nodes exist, and the count of lookups has room for one more.\<close>

theorem lookup_counts:
  assumes t: "tree_ok f" and mem: "\<forall>n. mem n" and dir: "find_id f dir \<noteq> None"
    and room: "t_use (f_ids f) + 3 \<le> 2 ^ 32" "\<And>a. find_name f dir nm = Some a \<Longrightarrow> n_nlookup (node_at f a) \<noteq> - 1"
  shows "\<exists>a f'. find_node mem f dir (Some nm) = Inr (Some a, f') \<and> tree_ok f' \<and>
    (\<forall>d m. find_name f' d m = (if (d, m) = (dir, nm) then Some a else find_name f d m)) \<and>
    dom (f_heap f') = insert a (dom (f_heap f)) \<and>
    (\<forall>x \<in> dom (f_heap f). n_nlookup (node_at f' x) = n_nlookup (node_at f x) + (if x = a then 1 else 0) \<and>
       n_treelock (node_at f' x) = n_treelock (node_at f x)) \<and>
    (find_name f dir nm = None \<longrightarrow> a \<notin> dom (f_heap f) \<and> n_nlookup (node_at f' a) = (if f_remember f = 0 then 1 else 2) \<and>
      n_treelock (node_at f' a) = 0 \<and>
      ino_of f' a \<notin> {0, FUSE_UNKNOWN_INO} \<union> ino_of f ` dom (f_heap f))"
  by (rule find_node_ok [OF assms])

theorem lookup_counts_witness:
  "\<exists>a f'. find_node (\<lambda>_. True) fresh_tree 1 (Some ''x'') = Inr (Some a, f') \<and> find_name f' 1 ''x'' = Some a \<and>
    n_nlookup (node_at f' a) = 1 \<and> ino_of f' a \<noteq> 0"
proof -
  note s = fresh_tree_facts
  have "t_use (f_ids fresh_tree) + 3 \<le> 2 ^ 32" by (simp add: s(6))
  from lookup_counts [where mem = "\<lambda>_. True" and nm = "''x''" and dir = 1, OF s(1) _ _ this] show ?thesis
    by (auto simp: s)
qed

text \<open>C14: renaming a node always ends with success, in a well-formed tree where the new name leads to the
  node, the old one leads nowhere, and every other name leads where it led before; a node that had
  the new name loses it. The two directories are known to the kernel, the new one is not
  the node itself or below it, and no forgotten node is locked.\<close>

theorem rename_moves:
  assumes t: "tree_ok f" and u: "unlocked f" and mem: "\<forall>n. mem n" and a: "find_name f olddir oldname = Some a"
    and q: "find_id f olddir = Some q" "n_nlookup (node_at f q) \<noteq> 0"
    and p: "find_id f newdir = Some p" "n_nlookup (node_at f p) \<noteq> 0" "a \<notin> ancestors f p"
    and ne: "(olddir, oldname) \<noteq> (newdir, newname)"
    and re: "\<And>b. find_name f newdir newname = Some b \<Longrightarrow> f_remember f \<noteq> 0 \<Longrightarrow> 1 < n_nlookup (node_at f b)"
  shows "\<exists>f'. rename_node mem f olddir oldname newdir newname False = Inr (0, f') \<and> tree_ok f' \<and>
    (\<forall>d m. find_name f' d m = (if (d, m) = (newdir, newname) then Some a
       else if (d, m) = (olddir, oldname) then None else find_name f d m))"
  by (rule rename_node_ok [OF assms])

theorem rename_moves_witness:
  "\<exists>a f1 f2. find_node (\<lambda>_. True) fresh_tree 1 (Some ''x'') = Inr (Some a, f1) \<and>
    rename_node (\<lambda>_. True) f1 1 ''x'' 1 ''y'' False = Inr (0, f2) \<and> find_name f2 1 ''y'' = Some a \<and> find_name f2 1 ''x'' = None"
proof -
  obtain a f1 where a: "find_node (\<lambda>_. True) fresh_tree 1 (Some ''x'') = Inr (Some a, f1)" "tree_ok f1" "dom (f_heap f1) = {a, 0}"
    "find_name f1 1 ''x'' = Some a" "find_name f1 1 ''y'' = None" "n_nlookup (node_at f1 a) = 1" "n_nlookup (node_at f1 0) \<noteq> 0"
    "find_id f1 1 = Some 0" "a \<noteq> 0" by (rule sample_child)
  note nok = tree_okD(2) [OF a(2)]
  have u: "unlocked f1" "(1, ''x'') \<noteq> (1 :: fuse_ino_t, ''y'')" "\<forall>n. (\<lambda>_. True) n" using a(3,6,7) by (auto simp: unlocked_def)
  have "0 \<notin> elems (f_names f1)"
    using nok a(3,8) find_id_iff [OF tree_okD(1) [OF a(2)], of 1 0] by (auto simp: names_ok_def FUSE_ROOT_ID_def)
  then have anc: "a \<notin> ancestors f1 0" using a(9) by (auto simp: ancestors_def links_def elim: converse_rtranclE)
  from rename_moves [OF a(2) u(1,3) a(4,8,7,8,7) anc u(2)] a(5) obtain f2 where
    "rename_node (\<lambda>_. True) f1 1 ''x'' 1 ''y'' False = Inr (0, f2)" "\<forall>d m. find_name f2 d m = (if (d, m) = (1, ''y'') then Some a
       else if (d, m) = (1, ''x'') then None else find_name f1 d m)" by auto
  with a(1) show ?thesis by (intro exI [of _ a] exI [of _ f1] exI [of _ f2]) simp
qed

end
