(* ===== verification/Node_Clean.thy ===== *)
theory Node_Clean
  imports Node_Tree_Correct "HOL-Library.Signed_Division"
begin

text \<open>
  The clean-up of remembered nodes (\<^verbatim>\<open>fuse-3.17.2/lib/fuse.c\<close>). With the option \<^verbatim>\<open>remember\<close> the library keeps a lookup of
  every node for itself, so that a node stays when the kernel has forgotten it. Such nodes are in a list, in the
  order they were forgotten, and are removed when they have been in it for too long.

  \<open>expired\<close> says of which nodes that is the case. The last part is about the trees that all the operations together
  can lead to.
\<close>

section \<open>The clean-up\<close>

definition clean_delay :: "fuse \<Rightarrow> int" where
  "clean_delay f =
     (let min_sleep = 60; max_sleep = 3600; sleep_time = f_remember f sdiv 10
      in if max_sleep < sleep_time then max_sleep else if sleep_time < min_sleep then min_sleep else sleep_time)"

text \<open>What happens to a node of the list: \<open>None\<close> ends the walk.\<close>

definition clean_node :: "(nat \<Rightarrow> bool) \<Rightarrow> (addr \<Rightarrow> bool) \<Rightarrow> fuse \<Rightarrow> addr \<Rightarrow> cerror + fuse option" where
  "clean_node mem expired f a =
     cbind (deref f a) (\<lambda>n.
       if \<not> expired a then Inr None
       else if n_nlookup n \<noteq> 1 then Inl AssertFail
       else if 1 < n_refctr n then Inr (Some f)
       else
         let f1 = update a (\<lambda>n. n\<lparr>n_nlookup := 0\<rparr>) f
         in cbind (unhash_name mem (fuel_of f1) f1 a) (\<lambda>f2.
            cbind (unref_node mem (fuel_of f2) f2 a) (\<lambda>f3. Inr (Some f3))))"

text \<open>The next node is read before a node is removed, the one after it from the list as it is then.\<close>

function clean_from :: "(nat \<Rightarrow> bool) \<Rightarrow> (addr \<Rightarrow> bool) \<Rightarrow> fuse \<Rightarrow> addr list \<Rightarrow> cerror + fuse" where
  "clean_from mem expired f [] = Inr f"
| "clean_from mem expired f (a # todo) =
     cbind (clean_node mem expired f a) (\<lambda>r.
       case r of
         None \<Rightarrow> Inr f
       | Some f1 \<Rightarrow>
           clean_from mem expired f1
             (case todo of [] \<Rightarrow> [] | b # rest \<Rightarrow> b # filter (\<lambda>x. x \<in> set (f_lru f1)) rest))"
  by pat_completeness auto
termination
  by (relation "measure (\<lambda>(mem, expired, f, todo). length todo)")
    (auto split: list.splits intro: le_imp_less_Suc)

definition fuse_clean_cache :: "(nat \<Rightarrow> bool) \<Rightarrow> (addr \<Rightarrow> bool) \<Rightarrow> fuse \<Rightarrow> cerror + int \<times> fuse" where
  "fuse_clean_cache mem expired f =
     cbind (clean_from mem expired f (f_lru f)) (\<lambda>f1. Inr (clean_delay f1, f1))"

section \<open>Deletions do not look at the lookups\<close>

lemma set_lookups_through:
  "deref (set_lookups a c f) x = cbind (deref f x) (\<lambda>n. Inr (if x = a then n\<lparr>n_nlookup := c\<rparr> else n))"
  "update x (\<lambda>n. n\<lparr>n_refctr := n_refctr n - 1\<rparr>) (set_lookups a c f) =
     set_lookups a c (update x (\<lambda>n. n\<lparr>n_refctr := n_refctr n - 1\<rparr>) f)"
  "update x (\<lambda>n. n\<lparr>n_name := None, n_parent := None\<rparr>) (set_lookups a c f) =
     set_lookups a c (update x (\<lambda>n. n\<lparr>n_name := None, n_parent := None\<rparr>) f)"
  "free_node (set_lookups a c f) x = set_lookups a c (free_node f x)"
  "unhash_id mem (set_lookups a c f) x = set_lookups a c (unhash_id mem f x)"
  "remove_node_lru x (set_lookups a c f) = set_lookups a c (remove_node_lru x f)"
  "(set_lookups a c f)\<lparr>f_names := t\<rparr> = set_lookups a c (f\<lparr>f_names := t\<rparr>)"
  "name_key (set_lookups a c f) = name_key f"
proof -
  have n: "n_name (node_at (set_lookups a c f) x) = n_name (node_at f x)"
    "n_parent (node_at (set_lookups a c f) x) = n_parent (node_at f x)" for x
    by (simp_all add: set_lookups_node)
  have i: "ino_of (set_lookups a c f) = ino_of f" by simp
  show "name_key (set_lookups a c f) = name_key f"
    by (auto simp: fun_eq_iff name_of_def parent_ino_def n i split: option.split)
  show "unhash_id mem (set_lookups a c f) x = set_lookups a c (unhash_id mem f x)"
    unfolding unhash_id_def i by (simp add: set_lookups_def update_def)
qed (auto simp: deref_def set_lookups_def update_def free_node_def remove_node_lru_def fun_eq_iff map_option_case
    split: option.split)

lemma lookups_unused:
  "unref_node mem k (set_lookups a c f) x = cbind (unref_node mem k f x) (\<lambda>g. Inr (set_lookups a c g))"
  "delete_node mem k (set_lookups a c f) x = cbind (delete_node mem k f x) (\<lambda>g. Inr (set_lookups a c g))"
  "unhash_name mem k (set_lookups a c f) x = cbind (unhash_name mem k f x) (\<lambda>g. Inr (set_lookups a c g))"
proof (induction mem k f x and mem k f x and mem k f x rule: unref_node_delete_node_unhash_name.induct)
  case (2 mem fuel f x)
  then show ?case by (cases "deref f x") (auto simp: set_lookups_through Let_def)
next
  case (4 mem fuel f x)
  then show ?case
    by (cases "deref f x"; cases "unhash_name mem fuel f x") (auto simp: set_lookups_through Let_def)
next
  case (6 mem fuel f x)
  have i: "name_key (set_lookups a c f) = name_key f" by (rule set_lookups_through(8))
  show ?case
  proof (cases "deref f x")
    case (Inr n)
    note d = 6 [OF Inr]
    show ?thesis
    proof (cases "n_name n = None \<or> n_parent n = None")
      case True
      with Inr show ?thesis by (cases "n_name n") (auto simp: set_lookups_through)
    next
      case False
      then obtain nm p where np: "n_name n = Some nm" "n_parent n = Some p" by auto
      show ?thesis
        using d [OF np] Inr np
        by (cases "unref_node mem fuel (f\<lparr>f_names := unlink_chain (name_key f) (f_names f) x\<rparr>) p")
          (auto simp: set_lookups_through(1-7) i Let_def)
    qed
  qed (simp add: set_lookups_through)
qed simp_all

section \<open>The list of forgotten nodes\<close>

definition lru_ok :: "fuse \<Rightarrow> bool" where
  "lru_ok f \<longleftrightarrow> distinct (f_lru f) \<and> set (f_lru f) \<subseteq> dom (f_heap f) \<and>
     (\<forall>a \<in> set (f_lru f). ino_of f a \<noteq> FUSE_ROOT_ID) \<and> (\<not> lru_enabled f \<longrightarrow> f_lru f = [])"

text \<open>Deletions take the nodes they delete out of the list.\<close>

definition swept :: "fuse \<Rightarrow> fuse \<Rightarrow> bool" where
  "swept f f' \<longleftrightarrow> f_lru f' = filter (\<lambda>x. x \<in> dom (f_heap f')) (f_lru f) \<and> dom (f_heap f') \<subseteq> dom (f_heap f) \<and>
     (\<forall>x \<in> dom (f_heap f'). ino_of f' x = ino_of f x) \<and> f_remember f' = f_remember f"

lemma swept_trans: "swept f g \<Longrightarrow> swept g h \<Longrightarrow> swept f h"
  unfolding swept_def by (metis (mono_tags, lifting) filter_cong filter_filter order_trans subsetD)

lemma swept_lru: "swept f f' \<Longrightarrow> lru_ok f \<Longrightarrow> lru_ok f'"
  by (auto simp: swept_def lru_ok_def lru_enabled_def)

lemma swept_same:
  assumes "lru_ok f" "f_lru g = f_lru f" "\<And>x. f_heap g x = None \<longleftrightarrow> f_heap f x = None" "ino_of g = ino_of f" "f_remember g = f_remember f"
  shows "swept f g"
proof -
  have "dom (f_heap g) = dom (f_heap f)" using assms(3) by (auto simp: dom_def)
  then show ?thesis using assms unfolding swept_def by (auto simp: lru_ok_def intro: filter_True [symmetric])
qed

lemma swept_update:
  assumes "lru_ok f" "\<And>n. n_nodeid (g n) = n_nodeid n"
  shows "swept f (update x g f)"
proof (rule swept_same [OF assms(1)])
  show "ino_of (update x g f) = ino_of f"
    by (auto simp: fun_eq_iff ino_of_def node_at_def heap_update assms(2) split: option.split)
qed (simp_all add: update_def)

lemma swept_dispose:
  assumes "lru_ok f"
  shows "swept f (dispose mem a f)"
proof -
  have "f_lru (dispose mem a f) = (if lru_enabled f then remove1 a (f_lru f) else f_lru f)"
    by (simp add: dispose_def Let_def free_node_def unhash_id_def remove_node_lru_def)
  also have "\<dots> = filter (\<lambda>x. x \<in> dom (f_heap (dispose mem a f))) (f_lru f)"
    using assms by (auto simp: lru_ok_def distinct_remove1_removeAll removeAll_filter_not_eq intro!: filter_cong)
  finally show ?thesis by (auto simp: swept_def more_frames split: if_splits)
qed

lemma deletions_sweep:
  "unref_node mem k f x = Inr f' \<Longrightarrow> lru_ok f \<Longrightarrow> swept f f'"
  "delete_node mem k f x = Inr f' \<Longrightarrow> lru_ok f \<Longrightarrow> swept f f'"
  "unhash_name mem k f x = Inr f' \<Longrightarrow> lru_ok f \<Longrightarrow> swept f f'"
proof (induction mem k f x and mem k f x and mem k f x arbitrary: f' and f' and f' rule: unref_node_delete_node_unhash_name.induct)
  case (2 mem fuel f x)
  let ?f1 = "update x (\<lambda>n. n\<lparr>n_refctr := n_refctr n - 1\<rparr>) f"
  have s: "swept f ?f1" using 2(3) by (intro swept_update) simp_all
  from 2(2) consider "f' = ?f1" | n where "deref f x = Inr n" "\<not> n_refctr n \<le> 0" "n_refctr n - 1 = 0" "delete_node mem fuel ?f1 x = Inr f'"
    by (auto simp: cbind_Inr_iff Let_def split: if_splits)
  then show ?case
  proof cases
    case (2 n)
    from "2.IH" [OF this(1,2) refl this(3,4) swept_lru [OF s "2.prems"(2)]] show ?thesis by (rule swept_trans [OF s])
  qed (simp add: s)
next
  case (4 mem fuel f x)
  then obtain n f1 where n: "deref f x = Inr n" "\<not> n_treelock n \<noteq> 0" "unhash_name mem fuel f x = Inr f1" "f' = dispose mem x f1"
    by (auto simp: cbind_Inr_iff Let_def dispose_def split: if_splits)
  from "4.IH" [OF n(1-3) "4.prems"(2)] have s: "swept f f1" .
  from swept_dispose [OF swept_lru [OF this "4.prems"(2)]] n(4) swept_trans [OF s] show ?case by blast
next
  case (6 mem fuel f x)
  let ?f1 = "f\<lparr>f_names := unlink_chain (name_key f) (f_names f) x\<rparr>"
  have "ino_of ?f1 = ino_of f" by (rule same_heap) simp
  then have s: "swept f ?f1" using 6(3) by (intro swept_same) simp_all
  from 6(2) obtain n where n: "deref f x = Inr n" by (auto simp: cbind_Inr_iff)
  show ?case
  proof (cases "n_name n = None")
    case True
    with 6(2) n have "f' = f" by simp
    then show ?thesis using swept_same [OF 6(3)] by simp
  next
    case False
    with 6(2) n obtain nm p f2 where p: "n_name n = Some nm" "n_parent n = Some p"
      "x \<in> set (t_array (f_names f) ! bucket_of (name_key f) (f_names f) x)"
      "unref_node mem fuel ?f1 p = Inr f2" "f' = clear_name mem x f2"
      by (auto simp: cbind_Inr_iff clear_name_def Let_def split: option.splits if_splits)
    from "6.IH" [OF n p(1-4) swept_lru [OF s "6.prems"(2)]] have "swept f f2" by (rule swept_trans [OF s])
    moreover have "swept f2 (clear_name mem x f2)"
    proof (rule swept_same [OF swept_lru [OF \<open>swept f f2\<close> "6.prems"(2)]])
      show "ino_of (clear_name mem x f2) = ino_of f2"
        by (auto simp: clear_name_def Let_def fun_eq_iff ino_of_def node_at_def heap_update split: option.split)
    qed (simp_all add: clear_name_def Let_def update_def)
    ultimately show ?thesis unfolding p(5) by (rule swept_trans)
  qed
qed simp_all

section \<open>What the clean-up leaves\<close>

text \<open>Some nodes are gone; the others have their parents, lookups and locks.\<close>

definition kept :: "fuse \<Rightarrow> fuse \<Rightarrow> bool" where
  "kept f f' \<longleftrightarrow> dom (f_heap f') \<subseteq> dom (f_heap f) \<and> links f' = links f \<inter> dom (f_heap f') \<times> UNIV \<and>
     (\<forall>x \<in> dom (f_heap f'). n_nlookup (node_at f' x) = n_nlookup (node_at f x) \<and>
        n_treelock (node_at f' x) = n_treelock (node_at f x))"

lemma kept_trans: "kept f g \<Longrightarrow> kept g h \<Longrightarrow> kept f h"
  by (auto simp: kept_def subset_iff)

lemma kept_refl: "names_ok f S \<Longrightarrow> kept f f"
  by (auto simp: kept_def names_ok_def links_def)

lemma kept_unlocked: "kept f f' \<Longrightarrow> unlocked f \<Longrightarrow> unlocked f'"
  unfolding kept_def unlocked_def by (metis subsetD)

text \<open>Such a tree holds exactly what leads down to a node that is known and has been kept.\<close>

lemma kept_known:
  assumes t: "tree_ok f'" and k: "kept f f'"
  shows "dom (f_heap f') = {x \<in> dom (f_heap f). \<exists>y \<in> dom (f_heap f'). (y, x) \<in> (links f)\<^sup>* \<and> n_nlookup (node_at f y) \<noteq> 0}"
proof (intro set_eqI iffI)
  fix x assume x: "x \<in> dom (f_heap f')"
  from leads_to_known [OF t x] obtain y where y: "(y, x) \<in> (links f')\<^sup>*" "y \<in> dom (f_heap f')" "n_nlookup (node_at f' y) \<noteq> 0" by blast
  have "(y, x) \<in> (links f)\<^sup>*" by (rule subsetD [OF rtrancl_mono y(1)]) (use k in \<open>simp add: kept_def\<close>)
  with x y(2,3) k show "x \<in> {x \<in> dom (f_heap f). \<exists>y \<in> dom (f_heap f'). (y, x) \<in> (links f)\<^sup>* \<and> n_nlookup (node_at f y) \<noteq> 0}"
    by (auto simp: kept_def)
next
  fix x assume "x \<in> {x \<in> dom (f_heap f). \<exists>y \<in> dom (f_heap f'). (y, x) \<in> (links f)\<^sup>* \<and> n_nlookup (node_at f y) \<noteq> 0}"
  then obtain y where "(y, x) \<in> (links f)\<^sup>*" "y \<in> dom (f_heap f')" by blast
  then show "x \<in> dom (f_heap f')"
  proof induction
    case (step v w)
    then have "(v, w) \<in> links f'" using k by (auto simp: kept_def)
    then show ?case using tree_okD(2) [OF t] by (auto simp: names_ok_def links_def)
  qed
qed

lemma clean_node_sweeps:
  assumes "clean_node mem expired f a = Inr (Some f')" "lru_ok f"
  shows "swept f f'"
proof -
  let ?f1 = "update a (\<lambda>n. n\<lparr>n_nlookup := 0\<rparr>) f"
  have s: "swept f ?f1" using assms(2) by (intro swept_update) simp_all
  from assms(1) consider "f' = f" | f2 where "unhash_name mem (fuel_of ?f1) ?f1 a = Inr f2" "unref_node mem (fuel_of f2) f2 a = Inr f'"
    by (auto simp: clean_node_def cbind_Inr_iff Let_def split: if_splits)
  then show ?thesis
  proof cases
    case (2 f2)
    from deletions_sweep(3) [OF 2(1) swept_lru [OF s assms(2)]] have s2: "swept f f2" by (rule swept_trans [OF s])
    from deletions_sweep(1) [OF 2(2) swept_lru [OF s2 assms(2)]] show ?thesis by (rule swept_trans [OF s2])
  qed (use swept_same [OF assms(2)] in simp)
qed

text \<open>A node that lost its name, and what only it kept alive.\<close>

lemma trimmed_links: "trimmed f a D f' \<Longrightarrow> links f' = links f - insert a D \<times> UNIV"
  by (auto simp: trimmed_def links_def)

lemma trimmed_unlocked: "trimmed f a D f' \<Longrightarrow> unlocked f \<Longrightarrow> unlocked f'"
  by (auto simp: trimmed_def unlocked_def)

lemma unname_ok:
  assumes t: "tree_ok f" and u: "unlocked f" and a: "a \<in> dom (f_heap f)" "ino_of f a \<noteq> FUSE_ROOT_ID"
  shows "\<exists>f' D. unhash_name mem (fuel_of f) f a = Inr f' \<and> tree_ok f' \<and> trimmed f a D f' \<and> a \<in> dom (f_heap f')"
proof (cases "a \<in> elems (f_names f)")
  case False
  from a(1) obtain n where n: "f_heap f a = Some n" "node_at f a = n" by (auto simp: node_at_def)
  have "n_name n = None" using unnamed(2) [OF tree_okD(2) [OF t] a(1)] False a(2) n(2) by auto
  then have "unhash_name mem (Suc k) f a = Inr f" for k using n(1) by (simp add: deref_def)
  then have "unhash_name mem (fuel_of f) f a = Inr f" by (simp only: fuel_of_def Suc_pred add_Suc_right numeral_3_eq_3)
  moreover have "trimmed f a {} f" using False by (simp add: trimmed_def)
  ultimately show ?thesis using t a(1) by blast
qed (rule unhash_name_ok [OF t u])

lemma clean_node_ok:
  assumes t: "tree_ok f" and u: "unlocked f" and a: "a \<in> dom (f_heap f)" "ino_of f a \<noteq> FUSE_ROOT_ID"
    "n_nlookup (node_at f a) = 1" "n_treelock (node_at f a) = 0" "n_refctr (node_at f a) \<le> 1" "expired a"
  shows "\<exists>f'. clean_node mem expired f a = Inr (Some f') \<and> tree_ok f' \<and> kept f f' \<and> a \<notin> dom (f_heap f') \<and>
    (\<forall>y \<in> dom (f_heap f) - {a}. n_nlookup (node_at f y) \<noteq> 0 \<longrightarrow> y \<in> dom (f_heap f'))"
proof -
  from unname_ok [OF t u a(1,2), of mem] obtain f1 D where
    f1: "unhash_name mem (fuel_of f) f a = Inr f1" "tree_ok f1" "trimmed f a D f1" "a \<in> dom (f_heap f1)" by blast
  let ?g = "set_lookups a 0 f" and ?g1 = "set_lookups a 0 f1"
  have D: "a \<notin> D" "dom (f_heap f1) = dom (f_heap f) - D" "\<And>x. x \<in> D \<Longrightarrow> n_nlookup (node_at f x) = 0"
    "\<And>x. x \<notin> D \<Longrightarrow> ino_of f1 x = ino_of f x \<and> n_nlookup (node_at f1 x) = n_nlookup (node_at f x) \<and>
       n_treelock (node_at f1 x) = n_treelock (node_at f x)"
    using f1(3) by (simp_all add: trimmed_def)
  have "n_nlookup (node_at f1 a) \<noteq> 0" "ino_of f1 a \<noteq> FUSE_ROOT_ID" "n_treelock (node_at f1 a) = 0" using D(1,4) a by auto
  note r = forget_last [OF f1(2) trimmed_unlocked [OF f1(3) u] f1(4) this]
  have ok: "ids_ok ?g1" "names_ok ?g1 {}" "a \<in> dom (f_heap ?g1)" using tree_okD(1,2) [OF f1(2)] f1(4) by simp_all
  have "3 * card (ancestors ?g1 a) \<le> fuel_of ?g1" using fuel_enough [OF ok] by linarith
  from unref_ok [OF r this, of mem] obtain f2 where
    f2: "unref_node mem (fuel_of ?g1) ?g1 a = Inr f2" "released ?g1 {} a f2" by blast
  have "\<exists>r \<in> dom (f_heap ?g1). ino_of ?g1 r = FUSE_ROOT_ID \<and> n_nlookup (node_at ?g1 r) \<noteq> 0"
  proof -
    from f1(2) obtain r where r0: "r \<in> dom (f_heap f1)" "ino_of f1 r = FUSE_ROOT_ID" "n_nlookup (node_at f1 r) \<noteq> 0"
      unfolding tree_ok_def by blast
    then have "r \<noteq> a" using D(1,4) a(2) by auto
    with r0 show ?thesis by (intro bexI [of _ r]) (simp_all add: set_lookups_node)
  qed
  from released_tree [OF f2(2) this] have t2: "tree_ok f2" .
  from f2(2) obtain E where E: "pruned ?g1 E f2" by (auto simp: released_def)
  have links2: "links f2 = links f - insert a D \<times> UNIV - E \<times> UNIV"
    using pruned_links [OF E] trimmed_links [OF f1(3)] by simp
  have dom2: "dom (f_heap f2) = dom (f_heap f) - D - E" using pruned_dom [OF E] D(2) by simp
  have nk: "n_nlookup (node_at f2 x) = (if x = a then 0 else n_nlookup (node_at f x))"
    "n_treelock (node_at f2 x) = n_treelock (node_at f x)" if "x \<in> dom (f_heap f2)" for x
    using that dom2 pruned_same(3,4) [OF E, of x] D(4) [of x] f1(4) by (auto simp: set_lookups_node)
  have "n_refctr (node_at f a) = owed f a" using tree_okD(3) [OF t] a(1) by (simp add: counted_def)
  then have leaf: "kids f a = {}" using a(3,5) finite_kids [of f a] by (simp add: owed_def)
  have gone: "a \<notin> dom (f_heap f2)"
  proof
    assume *: "a \<in> dom (f_heap f2)"
    then have "0 < owed f2 a" using tree_okD(4) [OF t2] by blast
    then have "kids f2 a \<noteq> {}" using nk(1) [OF *] by (auto simp: owed_def)
    then show False using leaf links2 by (auto simp: kids_def)
  qed
  have "y \<in> dom (f_heap f2)" if y: "y \<in> dom (f_heap f) - {a}" "n_nlookup (node_at f y) \<noteq> 0" for y
  proof -
    have "y \<notin> D" using D(3) [of y] y(2) by blast
    moreover from this have "n_nlookup (node_at ?g1 y) \<noteq> 0" using D(4) [of y] y by (simp add: set_lookups_node)
    ultimately show ?thesis using dom2 y(1) E by (auto simp: pruned_def)
  qed
  moreover have "kept f f2"
  proof -
    have "x \<in> dom (f_heap f2) \<longleftrightarrow> x \<notin> insert a D \<union> E" if l: "(x, p) \<in> links f" for x p
    proof -
      have "x \<in> elems (f_names f)" using l by (simp add: links_def)
      then have "x \<in> dom (f_heap f)" by (rule named [OF tree_okD(2) [OF t]]) blast
      then show ?thesis using gone D(1) a(1) unfolding dom2 by blast
    qed
    then have "links f2 = links f \<inter> dom (f_heap f2) \<times> UNIV" unfolding links2 by fastforce
    moreover have "x \<noteq> a" if "x \<in> dom (f_heap f2)" for x using that gone by blast
    ultimately show ?thesis using nk dom2 unfolding kept_def by auto
  qed
  moreover have "clean_node mem expired f a = Inr (Some f2)"
  proof -
    from a(1) obtain n where n: "f_heap f a = Some n" "node_at f a = n" by (auto simp: node_at_def)
    have "fuel_of ?g = fuel_of f" "fuel_of ?g1 = fuel_of f1" by (simp_all add: fuel_of_def)
    then have "unhash_name mem (fuel_of ?g) ?g a = Inr ?g1" using f1(1) by (simp add: lookups_unused)
    with f2(1) n a(3,5,6) show ?thesis by (simp add: clean_node_def deref_def set_lookups_def)
  qed
  ultimately show ?thesis using t2 gone by blast
qed

lemma clean_from_ok:
  assumes "tree_ok f" "unlocked f" "lru_ok f" "set todo \<subseteq> set (f_lru f)" "distinct todo"
    "\<And>a. a \<in> set (f_lru f) \<Longrightarrow> n_nlookup (node_at f a) = 1 \<and> n_treelock (node_at f a) = 0"
  shows "\<exists>f'. clean_from mem expired f todo = Inr f' \<and> tree_ok f' \<and> kept f f' \<and> swept f f' \<and>
    (\<forall>y \<in> dom (f_heap f) - set (takeWhile expired todo). n_nlookup (node_at f y) \<noteq> 0 \<longrightarrow> y \<in> dom (f_heap f')) \<and>
    (\<forall>a \<in> set (takeWhile expired todo). kids f a = {} \<longrightarrow> a \<notin> dom (f_heap f'))"
  using assms
proof (induction todo arbitrary: f)
  case Nil
  then show ?case using kept_refl [OF tree_okD(2)] swept_same by auto
next
  case (Cons a todo f)
  note t = Cons.prems(1)
  have a: "a \<in> dom (f_heap f)" "ino_of f a \<noteq> FUSE_ROOT_ID" "n_nlookup (node_at f a) = 1" "n_treelock (node_at f a) = 0"
    using Cons.prems(3,4,6) by (auto simp: lru_ok_def)
  then obtain n where n: "f_heap f a = Some n" "node_at f a = n" by (auto simp: node_at_def)
  have refs: "n_refctr n = 1 + int (card (kids f a))" using bspec [OF tree_okD(3) [OF t, unfolded counted_def] a(1)] a(3) n(2) by (simp add: owed_def)
  show ?case
  proof (cases "expired a")
    case False
    then have "clean_from mem expired f (a # todo) = Inr f" using n by (simp add: clean_node_def deref_def)
    then show ?thesis using False t kept_refl [OF tree_okD(2) [OF t]] swept_same [OF Cons.prems(3)] by auto
  next
    case True
    obtain f1 where f1: "clean_node mem expired f a = Inr (Some f1)" "tree_ok f1" "kept f f1" "swept f f1"
      "\<forall>y \<in> dom (f_heap f) - {a}. n_nlookup (node_at f y) \<noteq> 0 \<longrightarrow> y \<in> dom (f_heap f1)"
      "kids f a = {} \<Longrightarrow> a \<notin> dom (f_heap f1)"
    proof (cases "n_refctr n \<le> 1")
      case leaf: True
      then have "n_refctr (node_at f a) \<le> 1" using n(2) by simp
      from clean_node_ok [where mem = mem and expired = expired, OF t Cons.prems(2) a(1-4) this True] obtain f1 where
        "clean_node mem expired f a = Inr (Some f1)" "tree_ok f1" "kept f f1" "a \<notin> dom (f_heap f1)"
        "\<forall>y \<in> dom (f_heap f) - {a}. n_nlookup (node_at f y) \<noteq> 0 \<longrightarrow> y \<in> dom (f_heap f1)" by blast
      with clean_node_sweeps [OF this(1) Cons.prems(3)] show ?thesis by (intro that [of f1])
    next
      case False
      then have "clean_node mem expired f a = Inr (Some f)" using n a(3) True by (simp add: clean_node_def deref_def)
      moreover have "kids f a \<noteq> {}" using False refs by auto
      ultimately show ?thesis
        using that [of f] t kept_refl [OF tree_okD(2) [OF t]] swept_same [OF Cons.prems(3), of f] by simp
    qed
    have lru: "f_lru f1 = filter (\<lambda>x. x \<in> dom (f_heap f1)) (f_lru f)" using f1(4) by (simp add: swept_def)
    have todo: "x \<in> set (f_lru f1)" if "x \<in> set todo" for x
    proof -
      have x: "x \<in> set (f_lru f)" "x \<noteq> a" using that Cons.prems(4,5) by auto
      moreover have "x \<in> dom (f_heap f)" "n_nlookup (node_at f x) \<noteq> 0" using x(1) Cons.prems(3) Cons.prems(6) [OF x(1)] by (auto simp: lru_ok_def)
      with x(2) have "x \<in> dom (f_heap f1)" using f1(5) by blast
      ultimately show ?thesis unfolding lru by auto
    qed
    then have "filter (\<lambda>x. x \<in> set (f_lru f1)) (tl todo) = tl todo" by (cases todo) (auto intro: filter_True)
    then have run: "clean_from mem expired f (a # todo) = clean_from mem expired f1 todo"
      using f1(1) by (cases todo) (simp_all del: clean_from.simps add: clean_from.simps(2))
    have sub: "set todo \<subseteq> set (f_lru f1)" and dist: "distinct todo" using todo Cons.prems(5) by auto
    have "n_nlookup (node_at f1 x) = 1 \<and> n_treelock (node_at f1 x) = 0" if "x \<in> set (f_lru f1)" for x
      using that Cons.prems(6) [of x] f1(3) unfolding lru by (auto simp: kept_def)
    from Cons.IH [OF f1(2) kept_unlocked [OF f1(3) Cons.prems(2)] swept_lru [OF f1(4) Cons.prems(3)] sub dist this]
    obtain f' where f': "clean_from mem expired f1 todo = Inr f'" "tree_ok f'" "kept f1 f'" "swept f1 f'"
      "\<forall>y \<in> dom (f_heap f1) - set (takeWhile expired todo). n_nlookup (node_at f1 y) \<noteq> 0 \<longrightarrow> y \<in> dom (f_heap f')"
      "\<forall>a \<in> set (takeWhile expired todo). kids f1 a = {} \<longrightarrow> a \<notin> dom (f_heap f')" by blast
    have "y \<in> dom (f_heap f')" if "y \<in> dom (f_heap f) - set (takeWhile expired (a # todo))" "n_nlookup (node_at f y) \<noteq> 0" for y
    proof -
      have "y \<in> dom (f_heap f1)" using f1(5) that True by simp
      then show ?thesis using f'(5) f1(3) that True by (auto simp: kept_def)
    qed
    moreover have "x \<notin> dom (f_heap f')" if "x \<in> set (takeWhile expired (a # todo))" "kids f x = {}" for x
    proof -
      have "dom (f_heap f') \<subseteq> dom (f_heap f1)" using f'(3) by (simp add: kept_def)
      moreover have "kids f1 x = {}" using that(2) f1(3) by (auto simp: kids_def kept_def)
      ultimately show ?thesis using that True f1(6) f'(6) by (cases "x = a") auto
    qed
    ultimately show ?thesis
      unfolding run using f'(1,2) kept_trans [OF f1(3) f'(3)] swept_trans [OF f1(4) f'(4)] by blast
  qed
qed

text \<open>C11: the clean-up of remembered nodes always ends, with a well-formed tree. Of the nodes that are due, those without
  children go, perhaps others whose children went before them, and with them the nodes that only they kept alive; every
  other node stays, with its lookups. No node that is forgotten or in the list is locked, and those in the list are known only
  to the library itself.\<close>

theorem clean_up_collects:
  assumes t: "tree_ok f" and u: "unlocked f" and l: "lru_ok f"
    and only: "\<And>a. a \<in> set (f_lru f) \<Longrightarrow> n_nlookup (node_at f a) = 1 \<and> n_treelock (node_at f a) = 0"
  shows "\<exists>f' gone. fuse_clean_cache mem expired f = Inr (clean_delay f, f') \<and> tree_ok f' \<and>
    gone \<subseteq> set (takeWhile expired (f_lru f)) \<and> {a \<in> set (takeWhile expired (f_lru f)). kids f a = {}} \<subseteq> gone \<and>
    f_lru f' = filter (\<lambda>a. a \<notin> gone) (f_lru f) \<and>
    dom (f_heap f') = {x \<in> dom (f_heap f). \<exists>y \<in> dom (f_heap f) - gone. (y, x) \<in> (links f)\<^sup>* \<and> n_nlookup (node_at f y) \<noteq> 0} \<and>
    (\<forall>x \<in> dom (f_heap f'). n_nlookup (node_at f' x) = n_nlookup (node_at f x))"
proof -
  let ?E = "set (takeWhile expired (f_lru f))"
  have "distinct (f_lru f)" and sub: "set (f_lru f) \<subseteq> dom (f_heap f)" using l by (simp_all add: lru_ok_def)
  from clean_from_ok [OF t u l subset_refl this(1) only, of mem expired] obtain f' where
    f': "clean_from mem expired f (f_lru f) = Inr f'" "tree_ok f'" "kept f f'" "swept f f'"
    "\<forall>y \<in> dom (f_heap f) - ?E. n_nlookup (node_at f y) \<noteq> 0 \<longrightarrow> y \<in> dom (f_heap f')"
    "\<forall>a \<in> ?E. kids f a = {} \<longrightarrow> a \<notin> dom (f_heap f')" by blast
  define gone where "gone = ?E - dom (f_heap f')"
  have E: "?E \<subseteq> set (f_lru f)" by (auto dest: set_takeWhileD)
  have "fuse_clean_cache mem expired f = Inr (clean_delay f, f')"
    using f'(1,4) by (simp add: fuse_clean_cache_def clean_delay_def swept_def)
  moreover have dom: "y \<in> dom (f_heap f') \<longleftrightarrow> y \<in> dom (f_heap f) - gone" if "n_nlookup (node_at f y) \<noteq> 0" for y
    using f'(5) that f'(3) by (auto simp: gone_def kept_def)
  have "f_lru f' = filter (\<lambda>a. a \<notin> gone) (f_lru f)"
  proof -
    have "a \<in> dom (f_heap f') \<longleftrightarrow> a \<notin> gone" if "a \<in> set (f_lru f)" for a using dom [of a] only [OF that] sub that by auto
    then show ?thesis using f'(4) by (simp add: swept_def cong: filter_cong)
  qed
  moreover have "dom (f_heap f') = {x \<in> dom (f_heap f). \<exists>y \<in> dom (f_heap f) - gone. (y, x) \<in> (links f)\<^sup>* \<and> n_nlookup (node_at f y) \<noteq> 0}"
    by (rule trans [OF kept_known [OF f'(2,3)]]) (use dom in blast)
  moreover have "{a \<in> ?E. kids f a = {}} \<subseteq> gone" using f'(6) by (auto simp: gone_def)
  moreover have "\<forall>x \<in> dom (f_heap f'). n_nlookup (node_at f' x) = n_nlookup (node_at f x)" using f'(3) by (simp add: kept_def)
  moreover have "gone \<subseteq> ?E" by (simp add: gone_def)
  ultimately show ?thesis using f'(2) by blast
qed

section \<open>The trees that are reached\<close>

text \<open>Every operation keeps the list in order.\<close>

lemma lru_okI:
  assumes "lru_ok f" "f_lru g = f_lru f" "f_remember g = f_remember f"
    "\<And>x. x \<in> set (f_lru f) \<Longrightarrow> f_heap g x \<noteq> None \<and> ino_of g x = ino_of f x"
  shows "lru_ok g"
  using assms by (auto simp: lru_ok_def lru_enabled_def dom_def)

lemma unlink_node_sweeps: "unlink_node mem f a = Inr f' \<Longrightarrow> lru_ok f \<Longrightarrow> swept f f'"
proof -
  assume *: "unlink_node mem f a = Inr f'" "lru_ok f"
  let ?f1 = "update a (\<lambda>n. n\<lparr>n_nlookup := n_nlookup n - 1\<rparr>) f"
  have s: "swept f ?f1" using *(2) by (intro swept_update) simp_all
  from *(1) consider "unhash_name mem (fuel_of ?f1) ?f1 a = Inr f'" | "unhash_name mem (fuel_of f) f a = Inr f'"
    by (auto simp: unlink_node_def cbind_Inr_iff Let_def split: if_splits)
  then show ?thesis
  proof cases
    case 1
    from deletions_sweep(3) [OF this swept_lru [OF s *(2)]] show ?thesis by (rule swept_trans [OF s])
  qed (rule deletions_sweep(3) [OF _ *(2)])
qed

lemma hash_name_sweeps:
  assumes "hash_name mem f a d nm = Inr (r, g)" "lru_ok f"
  shows "swept f g"
proof -
  from assms(1) consider "g = f" | p where "g = attach mem a p nm f"
    by (auto simp: hash_name_def attach_def cbind_Inr_iff Let_def split: if_splits)
  then show ?thesis
  proof cases
    case (2 p)
    let ?f1 = "update p (\<lambda>n. n\<lparr>n_refctr := n_refctr n + 1\<rparr>) f"
    let ?f2 = "update a (\<lambda>n. n\<lparr>n_name := Some nm, n_parent := Some p\<rparr>) ?f1"
    have s1: "swept f ?f1" by (rule swept_update [OF assms(2)]) simp
    have s2: "swept ?f1 ?f2" by (rule swept_update [OF swept_lru [OF s1 assms(2)]]) simp
    have h: "f_heap g = f_heap ?f2" by (simp add: 2 attach_def Let_def)
    have "swept ?f2 g"
    proof (rule swept_same [OF swept_lru [OF s2 swept_lru [OF s1 assms(2)]]])
      show "ino_of g = ino_of ?f2" by (rule same_heap [OF h])
      show "f_lru g = f_lru ?f2" "f_remember g = f_remember ?f2" by (simp_all add: 2 attach_def Let_def)
    qed (simp add: h)
    with s1 s2 show ?thesis using swept_trans by blast
  qed (use swept_same [OF assms(2)] in simp)
qed

lemma rename_node_lru:
  assumes "rename_node mem f olddir oldname newdir newname False = Inr (err, f')" "lru_ok f"
  shows "lru_ok f'"
proof (cases "find_name f olddir oldname")
  case (Some a)
  with assms(1) obtain f1 f2 r where
    f1: "(case find_name f newdir newname of None \<Rightarrow> Inr f | Some b \<Rightarrow> unlink_node mem f b) = Inr f1"
    and f2: "unhash_name mem (fuel_of f1) f1 a = Inr f2" and f3: "hash_name mem f2 a newdir newname = Inr (r, f')"
    by (auto simp: rename_node_def cbind_Inr_iff Let_def split: if_splits)
  have "lru_ok f1"
    using f1 assms(2) swept_lru [OF unlink_node_sweeps [OF _ assms(2)] assms(2)] by (auto split: option.splits)
  from swept_lru [OF deletions_sweep(3) [OF f2 this] this] have "lru_ok f2" .
  from swept_lru [OF hash_name_sweeps [OF f3 this] this] show ?thesis .
qed (use assms in \<open>simp add: rename_node_def\<close>)

lemma exchange_node_lru:
  assumes run: "exchange_node mem f olddir oldname newdir newname = Inr (err, f')" and l: "lru_ok f"
    and found: "find_name f olddir oldname = Some a" "find_name f newdir newname = Some b"
  shows "lru_ok f'"
proof -
  from run found obtain f1 f2 r1 f3 where f: "unhash_name mem (fuel_of f) f a = Inr f1"
    "unhash_name mem (fuel_of f1) f1 b = Inr f2" "hash_name mem f2 a newdir newname = Inr (r1, f3)"
    "f' = f3 \<or> (\<exists>r2. hash_name mem f3 b olddir oldname = Inr (r2, f'))"
    by (auto simp: exchange_node_def cbind_Inr_iff Let_def split: if_splits)
  have "lru_ok f3"
    by (meson f(1-3) l deletions_sweep(3) hash_name_sweeps swept_lru)
  with f(4) hash_name_sweeps swept_lru show ?thesis by blast
qed

lemma forget_node_lru:
  assumes "forget_node mem f ino k = Inr (Some f')" "lru_ok f" "ids_ok f"
  shows "lru_ok f'"
proof (cases "ino = FUSE_ROOT_ID")
  case False
  with assms(1) obtain a n where a: "get_node f ino = Inr a" "deref f a = Inr n"
    by (auto simp: forget_node_def cbind_Inr_iff split: if_splits)
  let ?f1 = "update a (\<lambda>m. m\<lparr>n_nlookup := n_nlookup n - k\<rparr>) f"
  have l1: "lru_ok ?f1" using swept_lru [OF swept_update] assms(2) by simp
  have in_tree: "a \<in> dom (f_heap ?f1)" "ino_of ?f1 a \<noteq> FUSE_ROOT_ID"
    using a find_id_iff [OF assms(3)] False
    by (auto simp: get_node_def deref_def heap_update ino_of_def node_at_def split: option.splits)
  from assms(1) a False consider "unref_node mem (fuel_of ?f1) ?f1 a = Inr f'"
    | "lru_enabled ?f1" "f' = set_forget_time a ?f1" | "f' = ?f1"
    by (auto simp: forget_node_def cbind_Inr_iff Let_def split: if_splits)
  then show ?thesis
  proof cases
    case 2
    have "ino_of f' = ino_of ?f1" by (rule same_heap) (simp add: 2(2) set_forget_time_def)
    then show ?thesis using l1 in_tree 2
      by (auto simp: lru_ok_def set_forget_time_def lru_enabled_def set_remove1_eq)
  qed (use l1 deletions_sweep(1) swept_lru in \<open>blast, simp\<close>)
qed (use assms in \<open>simp add: forget_node_def\<close>)

lemma next_id_loop_frame: "next_id_loop k f = Inr g \<Longrightarrow> \<exists>c v. g = f\<lparr>f_ctr := c, f_generation := v\<rparr>"
proof (induction k arbitrary: f)
  case (Suc k)
  let ?c = "and (f_ctr f + 1) 0xffffffff"
  let ?f1 = "f\<lparr>f_ctr := ?c, f_generation := (if ?c = 0 then f_generation f + 1 else f_generation f)\<rparr>"
  show ?case
  proof (cases "?c = 0 \<or> ?c = FUSE_UNKNOWN_INO \<or> find_id ?f1 ?c \<noteq> None")
    case True
    with Suc.prems have "next_id_loop k ?f1 = Inr g" by (simp only: next_id_loop.simps Let_def if_True)
    from Suc.IH [OF this] show ?thesis by auto
  next
    case False
    with Suc.prems have "(Inr ?f1 :: cerror + fuse) = Inr g" by (simp only: next_id_loop.simps Let_def if_False)
    then show ?thesis by blast
  qed
qed simp

lemma new_node_lru:
  assumes run: "new_node mem f dir nm = Inr (r, f')" and l: "lru_ok f" and ids: "ids_ok f"
  shows "lru_ok f' \<and> f_remember f' = f_remember f"
proof (cases "mem 128")
  case True
  let ?a = "f_fresh f"
  let ?f1 = "f\<lparr>f_heap := (f_heap f)(?a \<mapsto> node_zero), f_fresh := ?a + 1\<rparr>"
  have "?a \<notin> dom (f_heap f)" using ids_okD(4) [OF ids] by blast
  then have fresh: "?a \<notin> set (f_lru f)" using l by (auto simp: lru_ok_def)
  have old: "lru_ok g \<and> f_lru g = f_lru f"
    if g: "f_lru g = f_lru f" "f_remember g = f_remember f" "\<And>x. x \<noteq> ?a \<Longrightarrow> f_heap g x = f_heap f x" for g
  proof -
    have "f_heap g x \<noteq> None \<and> ino_of g x = ino_of f x" if x: "x \<in> set (f_lru f)" for x
    proof -
      have "x \<in> dom (f_heap f)" "x \<noteq> ?a" using x fresh l by (auto simp: lru_ok_def)
      then show ?thesis using g(3) [of x] by (auto simp: ino_of_def node_at_def)
    qed
    then show ?thesis using lru_okI [OF l, of g] g(1,2) by blast
  qed
  from run True obtain c f2 where f2: "next_id ?f1 = Inr (c, f2)"
    by (auto simp: new_node_def alloc_node_def cbind_Inr_iff)
  then obtain v where v: "f2 = ?f1\<lparr>f_ctr := c, f_generation := v\<rparr>"
    by (auto simp: next_id_def cbind_Inr_iff dest!: next_id_loop_frame)
  let ?f3 = "update ?a (\<lambda>n. n\<lparr>n_nodeid := c, n_generation := f_generation f2\<rparr>) f2"
  let ?f4 = "if f_remember ?f3 \<noteq> 0 then update ?a inc_nlookup ?f3 else ?f3"
  have l4: "lru_ok ?f4" "f_lru ?f4 = f_lru f" using old [of ?f4] by (simp_all add: v update_def)
  from run True f2 obtain res f5 where f5: "hash_name mem ?f4 ?a dir nm = Inr (res, f5)"
    and f': "f' = (if res = -1 then free_node f5 ?a else hash_id mem f5 ?a)"
    by (auto simp: new_node_def alloc_node_def cbind_Inr_iff Let_def split: if_splits)
  from hash_name_sweeps [OF f5 l4(1)] have s: "swept ?f4 f5" .
  have l5: "lru_ok f5" using swept_lru [OF s l4(1)] .
  have "ino_of (hash_id mem f5 ?a) = ino_of f5" by (rule same_heap) (simp add: hash_id_def)
  then have "lru_ok (hash_id mem f5 ?a)" using l5 by (intro swept_lru [OF swept_same [OF l5] l5]) (simp_all add: hash_id_def)
  moreover have "lru_ok (free_node f5 ?a)"
  proof (rule lru_okI [OF l5])
    fix x assume x: "x \<in> set (f_lru f5)"
    then have "x \<noteq> ?a" using s l4(2) fresh by (auto simp: swept_def)
    then show "f_heap (free_node f5 ?a) x \<noteq> None \<and> ino_of (free_node f5 ?a) x = ino_of f5 x"
      using l5 x by (auto simp: lru_ok_def free_node_def ino_of_def node_at_def)
  qed (simp_all add: free_node_def)
  moreover have "f_remember f5 = f_remember f" using s by (simp add: swept_def v update_def)
  ultimately show ?thesis unfolding f' by (simp add: free_node_def hash_id_def)
qed (use run l in \<open>simp add: new_node_def alloc_node_def\<close>)

lemma inc_nlookup_lru: "lru_ok f \<Longrightarrow> lru_ok (update a inc_nlookup f)" "f_remember (update a inc_nlookup f) = f_remember f"
  using swept_lru [OF swept_update] by (simp_all add: inc_nlookup_def update_def)

lemma find_node_lru:
  assumes "find_node mem f dir (Some nm) = Inr (r, f')" "lru_ok f" "ids_ok f"
  shows "lru_ok f' \<and> f_remember f' = f_remember f"
proof (cases "find_name f dir nm")
  case None
  with assms(1) obtain r1 f1 where "new_node mem f dir nm = Inr (r1, f1)" "f' = (case r1 of None \<Rightarrow> f1 | Some a \<Rightarrow> update a inc_nlookup f1)"
    by (auto simp: find_node_def cbind_Inr_iff split: option.splits)
  with new_node_lru [OF this(1) assms(2,3)] inc_nlookup_lru show ?thesis by (auto split: option.split)
next
  case (Some a)
  have "ino_of (remove_node_lru a f) = ino_of f" by (rule same_heap) (simp add: remove_node_lru_def)
  then have "lru_ok (remove_node_lru a f)"
    using assms(2) by (auto simp: lru_ok_def remove_node_lru_def lru_enabled_def set_remove1_eq)
  with Some assms(1,2) inc_nlookup_lru show ?thesis
    by (auto simp: find_node_def Let_def remove_node_lru_def split: if_splits)
qed

lemma new_tree_lru: "new_tree mem r nul = Some f \<Longrightarrow> f_lru f = []"
  by (auto simp: new_tree_def alloc_node_def hash_id_def update_def split: if_splits)

text \<open>A clean-up that ends leaves a well-formed tree, whatever is in the list.\<close>

lemma clean_from_tree:
  assumes "clean_from mem expired f todo = Inr f'" "tree_ok f" "unlocked f" "lru_ok f"
    "\<And>a. a \<in> set todo \<Longrightarrow> a \<in> dom (f_heap f) \<Longrightarrow> ino_of f a \<noteq> FUSE_ROOT_ID \<and> n_treelock (node_at f a) = 0"
  shows "tree_ok f' \<and> lru_ok f'"
  using assms
proof (induction mem expired f todo rule: clean_from.induct)
  case (2 mem expired f a todo)
  from 2(2) obtain r where r: "clean_node mem expired f a = Inr r"
    and run: "(case r of None \<Rightarrow> Inr f | Some f1 \<Rightarrow> clean_from mem expired f1
      (case todo of [] \<Rightarrow> [] | b # rest \<Rightarrow> b # filter (\<lambda>x. x \<in> set (f_lru f1)) rest)) = Inr f'"
    by (auto simp: cbind_Inr_iff)
  show ?case
  proof (cases r)
    case (Some f1)
    from r Some obtain n where n: "f_heap f a = Some n" "node_at f a = n" "expired a" "n_nlookup n = 1"
      by (auto simp: clean_node_def cbind_Inr_iff deref_def node_at_def split: option.splits if_splits)
    then have a: "a \<in> dom (f_heap f)" by blast
    have f1: "tree_ok f1" "kept f f1"
    proof -
      consider "f1 = f" | "n_refctr n \<le> 1" using r Some n by (auto simp: clean_node_def deref_def split: if_splits)
      then have "tree_ok f1 \<and> kept f f1"
      proof cases
        case 2
        from clean_node_ok [where mem = mem and expired = expired, OF "2.prems"(2,3) a] "2.prems"(5) [of a] a n 2 r Some
        show ?thesis by fastforce
      qed (use 2(3) kept_refl [OF tree_okD(2)] in blast)
      then show "tree_ok f1" "kept f f1" by blast+
    qed
    have s: "swept f f1" using clean_node_sweeps r Some 2(5) by blast
    have old: "ino_of f1 x \<noteq> FUSE_ROOT_ID \<and> n_treelock (node_at f1 x) = 0"
      if "x \<in> set (a # todo)" "x \<in> dom (f_heap f1)" for x
      using that 2(6) [of x] f1(2) s by (auto simp: kept_def swept_def)
    let ?todo = "case todo of [] \<Rightarrow> [] | b # rest \<Rightarrow> b # filter (\<lambda>x. x \<in> set (f_lru f1)) rest"
    have "set ?todo \<subseteq> set todo" by (auto split: list.split)
    with 2(1) [OF r Some _ f1(1) kept_unlocked [OF f1(2) 2(4)] swept_lru [OF s 2(5)]] run Some old show ?thesis by auto
  qed (use run 2(3,5) in simp)
qed simp

text \<open>What the library does with its tree from start-up on, in any order: lookups, forgets, removals,
  renames and exchanges under the conditions the kernel keeps, clean-ups while no remembered node is locked, and
  changes of locks, open counts and marks on a node by the requests in progress.\<close>

definition marks_only :: "(node \<Rightarrow> node) \<Rightarrow> bool" where
  "marks_only g \<longleftrightarrow> (\<forall>n. n_nodeid (g n) = n_nodeid n \<and> n_name (g n) = n_name n \<and> n_parent (g n) = n_parent n \<and>
     n_nlookup (g n) = n_nlookup n \<and> n_refctr (g n) = n_refctr n)"

inductive tree_reach :: "(nat \<Rightarrow> bool) \<Rightarrow> fuse \<Rightarrow> bool" for mem where
  start: "new_tree mem r nul = Some f \<Longrightarrow> tree_reach mem f"
| lookup: "tree_reach mem f \<Longrightarrow> find_id f dir \<noteq> None \<Longrightarrow> t_use (f_ids f) + 3 \<le> 2 ^ 32 \<Longrightarrow>
    (\<And>a. find_name f dir nm = Some a \<Longrightarrow> n_nlookup (node_at f a) \<noteq> - 1) \<Longrightarrow>
    find_node mem f dir (Some nm) = Inr (a, f') \<Longrightarrow> tree_reach mem f'"
| forget: "tree_reach mem f \<Longrightarrow> unlocked f \<Longrightarrow> find_id f ino = Some a \<Longrightarrow> ino \<noteq> FUSE_ROOT_ID \<Longrightarrow>
    0 < k \<Longrightarrow> k \<le> n_nlookup (node_at f a) \<Longrightarrow> forget_node mem f ino k = Inr (Some f') \<Longrightarrow> tree_reach mem f'"
| remove: "tree_reach mem f \<Longrightarrow> unlocked f \<Longrightarrow>
    (\<And>a. find_name f dir nm = Some a \<Longrightarrow> f_remember f \<noteq> 0 \<Longrightarrow> 1 < n_nlookup (node_at f a)) \<Longrightarrow>
    remove_node mem f dir nm = Inr f' \<Longrightarrow> tree_reach mem f'"
| rename: "tree_reach mem f \<Longrightarrow> unlocked f \<Longrightarrow> find_name f olddir oldname = Some a \<Longrightarrow>
    find_id f olddir = Some q \<Longrightarrow> n_nlookup (node_at f q) \<noteq> 0 \<Longrightarrow> find_id f newdir = Some p \<Longrightarrow>
    n_nlookup (node_at f p) \<noteq> 0 \<Longrightarrow> a \<notin> ancestors f p \<Longrightarrow> (olddir, oldname) \<noteq> (newdir, newname) \<Longrightarrow>
    (\<And>b. find_name f newdir newname = Some b \<Longrightarrow> f_remember f \<noteq> 0 \<Longrightarrow> 1 < n_nlookup (node_at f b)) \<Longrightarrow>
    rename_node mem f olddir oldname newdir newname False = Inr (err, f') \<Longrightarrow> tree_reach mem f'"
| exchange: "tree_reach mem f \<Longrightarrow> unlocked f \<Longrightarrow> find_name f olddir oldname = Some a \<Longrightarrow> find_name f newdir newname = Some b \<Longrightarrow>
    find_id f olddir = Some q \<Longrightarrow> n_nlookup (node_at f q) \<noteq> 0 \<Longrightarrow> b \<notin> ancestors f q \<Longrightarrow> find_id f newdir = Some p \<Longrightarrow>
    n_nlookup (node_at f p) \<noteq> 0 \<Longrightarrow> a \<notin> ancestors f p \<Longrightarrow> (olddir, oldname) \<noteq> (newdir, newname) \<Longrightarrow>
    exchange_node mem f olddir oldname newdir newname = Inr (err, f') \<Longrightarrow> tree_reach mem f'"
| clean: "tree_reach mem f \<Longrightarrow> unlocked f \<Longrightarrow> (\<And>a. a \<in> set (f_lru f) \<Longrightarrow> n_treelock (node_at f a) = 0) \<Longrightarrow>
    fuse_clean_cache mem expired f = Inr (delay, f') \<Longrightarrow> tree_reach mem f'"
| mark: "tree_reach mem f \<Longrightarrow> marks_only g \<Longrightarrow> tree_reach mem (update a g f)"

lemma marks_ok:
  assumes t: "tree_ok f" and g: "marks_only g"
  shows "tree_ok (update a g f)"
proof -
  have soft: "\<And>n. n_nodeid (g n) = n_nodeid n \<and> n_name (g n) = n_name n \<and> n_parent (g n) = n_parent n"
    using g by (simp add: marks_only_def)
  note s = update_soft [of g, OF soft]
  have n: "n_nlookup (node_at (update a g f) x) = n_nlookup (node_at f x)" "n_refctr (node_at (update a g f) x) = n_refctr (node_at f x)" for x
    using g by (auto simp: node_at_def heap_update marks_only_def split: option.split)
  have o: "owed (update a g f) = owed f" by (simp add: owed_def [abs_def] n s)
  then show ?thesis using t by (simp add: tree_ok_def counted_def n s)
qed

lemma forgets_unlocked:
  assumes "forget_node mem f ino k = Inr (Some f')" "find_id f ino = Some a" "ino \<noteq> FUSE_ROOT_ID" "n_nlookup (node_at f a) = k"
    "a \<in> dom (f_heap f)"
  shows "n_treelock (node_at f a) = 0"
  using assms by (auto simp: forget_node_def get_node_def deref_def node_at_def split: if_splits option.splits)

lemma reach_ok:
  assumes "tree_reach mem f" "\<forall>n. mem n"
  shows "tree_ok f \<and> lru_ok f"
  using assms(1)
proof induction
  case (start r nul f)
  then show ?case using new_tree_ok(1) new_tree_lru by (simp add: lru_ok_def)
next
  case (lookup f dir nm a f')
  then have t: "tree_ok f" "lru_ok f" by blast+
  have "\<exists>b g. find_node mem f dir (Some nm) = Inr (Some b, g) \<and> tree_ok g"
    using find_node_ok [OF t(1) assms(2) lookup.hyps(2,3), of nm] lookup.hyps(4) by blast
  with lookup.hyps(5) find_node_lru [OF _ t(2) tree_okD(1) [OF t(1)]] show ?case by fastforce
next
  case (forget f ino a k f')
  then have t: "tree_ok f" "lru_ok f" by blast+
  have "a \<in> dom (f_heap f)" using forget.hyps(3) find_id_iff [OF tree_okD(1) [OF t(1)]] by auto
  note lock = forgets_unlocked [OF forget.hyps(7,3,4) _ this]
  from forget_node_ok [OF t(1) forget.hyps(2-6) lock, of mem] forget.hyps(7)
    forget_node_lru [OF forget.hyps(7) t(2) tree_okD(1) [OF t(1)]] show ?case by auto
next
  case (remove f dir nm f')
  then have t: "tree_ok f" "lru_ok f" by blast+
  show ?case
  proof (cases "find_name f dir nm")
    case (Some a)
    then have "a \<in> elems (f_names f)" using find_name_iff [OF tree_okD(2) [OF t(1)]] by auto
    from unlink_node_ok [OF t(1) remove.hyps(2) this remove.hyps(3) [OF Some], of mem] remove.hyps(4) Some
      swept_lru [OF unlink_node_sweeps [OF _ t(2)] t(2)] show ?thesis by (auto simp: remove_node_def)
  qed (use remove t in \<open>simp add: remove_node_def\<close>)
next
  case (rename f olddir oldname a q newdir p newname err f')
  then have t: "tree_ok f" "lru_ok f" by blast+
  from rename_node_ok [OF t(1) rename.hyps(2) assms(2) rename.hyps(3-10)] rename.hyps(11)
    rename_node_lru [OF rename.hyps(11) t(2)] show ?case by auto
next
  case (exchange f olddir oldname a newdir newname b q p err f')
  then have t: "tree_ok f" "lru_ok f" by blast+
  from exchange_node_ok [OF t(1) exchange.hyps(2) assms(2) exchange.hyps(3-11)] exchange.hyps(12)
    exchange_node_lru [OF exchange.hyps(12) t(2) exchange.hyps(3,4)] show ?case by auto
next
  case (clean f expired delay f')
  then obtain f1 where "clean_from mem expired f (f_lru f) = Inr f1" "f' = f1" by (auto simp: fuse_clean_cache_def cbind_Inr_iff)
  with clean_from_tree [OF this(1)] clean show ?case by (auto simp: lru_ok_def)
next
  case (mark f g a)
  moreover from this have "swept f (update a g f)" by (intro swept_update) (simp_all add: marks_only_def)
  ultimately show ?case using marks_ok swept_lru by blast
qed

text \<open>C7: in every reachable tree the tables, the heap and the counts agree: each node is found by its number
  and, if it has a parent, by the number of the parent and its name; the reference count of a
  node is one for the kernel's lookups and one for each child, and never zero; and the tree has no
  cycles. Trees are reached from start-up by lookups, forgets, removals, renames, exchanges,
  clean-ups and changes of locks and marks, in any order, when memory is available. Every remembered node in the list is a node of
  the tree, and in it once.\<close>

theorem reachable_trees_ok:
  assumes "tree_reach mem f" "\<forall>n. mem n"
  shows "acyclic (links f) \<and> distinct (f_lru f) \<and> set (f_lru f) \<subseteq> dom (f_heap f) \<and> (\<forall>a n. f_heap f a = Some n \<longrightarrow> find_id f (n_nodeid n) = Some a \<and>
    (\<forall>p. n_parent n = Some p \<longrightarrow> find_name f (ino_of f p) (name_of f a) = Some a) \<and>
    n_refctr n = (if n_nlookup n = 0 then 0 else 1) + int (card (kids f a)) \<and> 0 < n_refctr n)"
proof -
  have t: "tree_ok f" and l: "lru_ok f" using reach_ok [OF assms] by blast+
  note nok = tree_okD(2) [OF t]
  have "find_id f (n_nodeid n) = Some a \<and> (\<forall>p. n_parent n = Some p \<longrightarrow> find_name f (ino_of f p) (name_of f a) = Some a) \<and>
    n_refctr n = (if n_nlookup n = 0 then 0 else 1) + int (card (kids f a)) \<and> 0 < n_refctr n" if n: "f_heap f a = Some n" for a n
  proof -
    have a: "a \<in> dom (f_heap f)" "node_at f a = n" using n by (auto simp: node_at_def)
    have "find_name f (ino_of f p) (name_of f a) = Some a" if p: "n_parent n = Some p" for p
      using unnamed(1) [OF nok a(1)] p a(2) unfolding find_name_iff [OF nok] by (auto simp: parent_ino_def)
    moreover have "n_refctr n = owed f a" "0 < owed f a" using tree_okD(3,4) [OF t] a by (auto simp: counted_def)
    ultimately show ?thesis using a find_id_iff [OF tree_okD(1) [OF t]] by (simp add: owed_def ino_of_def)
  qed
  then show ?thesis using names_okD(7) [OF nok] l [unfolded lru_ok_def] by blast
qed

theorem reachable_trees_ok_witness:
  "\<exists>a f1 n. find_node (\<lambda>_. True) fresh_tree 1 (Some ''x'') = Inr (Some a, f1) \<and> f_heap f1 a = Some n \<and>
    find_id f1 (n_nodeid n) = Some a \<and> n_refctr n = 1 + int (card (kids f1 a))"
proof -
  obtain a f1 where a: "find_node (\<lambda>_. True) fresh_tree 1 (Some ''x'') = Inr (Some a, f1)" "dom (f_heap f1) = {a, 0}"
    "n_nlookup (node_at f1 a) = 1" by (rule sample_child)
  have "tree_reach (\<lambda>_. True) f1"
    by (rule tree_reach.lookup [OF tree_reach.start [OF fresh_tree] _ _ _ a(1)]) (simp_all add: fresh_tree_facts)
  from reachable_trees_ok [OF this] have r: "f_heap f1 a = Some n \<longrightarrow> find_id f1 (n_nodeid n) = Some a \<and>
      n_refctr n = (if n_nlookup n = 0 then 0 else 1) + int (card (kids f1 a))" for n by blast
  from a(2) obtain n where n: "f_heap f1 a = Some n" by blast
  then have "n_nlookup n = 1" using a(3) by (simp add: node_at_def)
  with r [of n] n a(1) show ?thesis by (intro exI [of _ a] exI [of _ f1] exI [of _ n]) simp
qed

text \<open>A node that the kernel looked up once and forgot stays until the clean-up comes to it.\<close>

definition remembering_tree :: fuse where
  "remembering_tree = (case new_tree (\<lambda>_. True) 100 False of Some f \<Rightarrow> f)"

lemma remembering_tree: "new_tree (\<lambda>_. True) 100 False = Some remembering_tree"
  by (simp add: remembering_tree_def new_tree_def alloc_node_def)

lemma remembered_child:
  obtains a f1 f2 where "find_node (\<lambda>_. True) remembering_tree 1 (Some ''x'') = Inr (Some a, f1)"
    "forget_node (\<lambda>_. True) f1 (ino_of f1 a) 1 = Inr (Some f2)" "tree_ok f2" "unlocked f2" "lru_ok f2" "f_lru f2 = [a]"
    "n_nlookup (node_at f2 a) = 1" "n_treelock (node_at f2 a) = 0" "kids f2 a = {}" "a \<in> dom (f_heap f2)" "f_remember f2 = 100"
proof -
  let ?f = remembering_tree
  note f = new_tree_ok [OF remembering_tree]
  note fid = find_id_iff [OF tree_okD(1)] and fnm = find_name_iff [OF tree_okD(2)]
  have lru: "f_lru ?f = []" "f_remember ?f = 100" by (rule new_tree_lru [OF remembering_tree], rule new_tree_root(5) [OF remembering_tree])
  have root: "find_id ?f 1 = Some 0" using f(3,4) fid [OF f(1)] by (simp add: FUSE_ROOT_ID_def)
  have "n_treelock (node_at ?f 0) = 0"
    by (simp add: node_at_def new_tree_root(1) [OF remembering_tree] inc_nlookup_def node_zero_def)
  have none: "find_name ?f d m = None" for d m using fnm [OF f(1), of d m] f(2) by (cases "find_name ?f d m") auto
  have "t_use (f_ids ?f) = card (dom (f_heap ?f))" using ids_okD(1,2) [OF tree_okD(1) [OF f(1)]] by (simp add: idx_ok_def)
  then have "t_use (f_ids ?f) + 3 \<le> 2 ^ 32" using f(3) by simp
  from find_node_ok [where mem = "\<lambda>_. True" and nm = "''x''" and dir = 1, OF f(1) _ _ this] obtain a f1 where
    f1: "find_node (\<lambda>_. True) ?f 1 (Some ''x'') = Inr (Some a, f1)" "tree_ok f1"
      "\<forall>d m. find_name f1 d m = (if (d, m) = (1, ''x'') then Some a else None)" "dom (f_heap f1) = {a, 0}" "a \<noteq> 0"
      "n_nlookup (node_at f1 a) = 2" "n_treelock (node_at f1 a) = 0" "ino_of f1 a \<noteq> 1" "n_nlookup (node_at f1 0) = 1"
      "n_treelock (node_at f1 0) = 0"
    using \<open>n_treelock (node_at ?f 0) = 0\<close> f(3,4,5) by (auto simp: root none lru FUSE_ROOT_ID_def)
  have l1: "lru_ok f1" "f_remember f1 = 100"
    using find_node_lru [OF f1(1) _ tree_okD(1) [OF f(1)]] lru by (simp_all add: lru_ok_def)
  let ?f2 = "set_forget_time a (set_lookups a 1 f1)"
  obtain n where n: "f_heap f1 a = Some n" "node_at f1 a = n" using f1(4) by (auto simp: node_at_def)
  have ino: "find_id f1 (ino_of f1 a) = Some a" "ino_of f1 a \<noteq> FUSE_ROOT_ID"
    using fid [OF f1(2)] f1(4,8) by (simp_all add: FUSE_ROOT_ID_def)
  have run: "forget_node (\<lambda>_. True) f1 (ino_of f1 a) 1 = Inr (Some ?f2)"
    using n ino f1(6) l1(2) by (simp add: forget_node_def get_node_def deref_def lru_enabled_def set_lookups_def update_def)
  have t2: "tree_ok ?f2" using set_lookups_ok [OF f1(2), of a 1] f1(6) by (simp add: set_forget_time_def)
  have l2: "lru_ok ?f2" by (rule forget_node_lru [OF run l1(1) tree_okD(1) [OF f1(2)]])
  have h2: "f_heap ?f2 = f_heap (set_lookups a 1 f1)" by (simp add: set_forget_time_def)
  note s2 = same_heap [OF h2]
  have dom2: "dom (f_heap ?f2) = {a, 0}" using f1(4) by (simp add: h2)
  have nodes: "n_nlookup (node_at ?f2 a) = 1" "n_treelock (node_at ?f2 a) = 0" "n_nlookup (node_at ?f2 0) = 1"
    using f1(4-10) by (simp_all add: s2 set_lookups_node)
  have "find_id f1 1 = Some 0" using f1(2,4,8) fid [OF f1(2)] by (auto simp: tree_ok_def FUSE_ROOT_ID_def)
  then have "ino_of ?f2 0 = FUSE_ROOT_ID" using fid [OF f1(2)] by (simp add: s2 FUSE_ROOT_ID_def)
  then have "set (f_lru ?f2) \<subseteq> {a}" using l2 dom2 by (auto simp: lru_ok_def)
  then have lru2: "f_lru ?f2 = [a]" using l2 by (cases "remove1 a (f_lru (set_lookups a 1 f1))") (auto simp: set_forget_time_def lru_ok_def)
  have kids2: "kids ?f2 a = {}"
  proof -
    have "x = a" if "x \<in> elems (f_names f1)" for x using fnm [OF f1(2), of "parent_ino f1 x" "name_of f1 x" x] that f1(3) by (auto split: if_splits)
    moreover have "(a, a) \<notin> links f1" using names_okD(7) [OF tree_okD(2) [OF f1(2)]] by (auto simp: acyclic_def)
    moreover have "x \<in> elems (f_names f1)" if "(x, a) \<in> links f1" for x using that by (simp add: links_def)
    ultimately have "kids f1 a = {}" unfolding kids_def by blast
    moreover have "links ?f2 = links f1"
    proof -
      have "f_names ?f2 = f_names f1" by (simp add: set_forget_time_def)
      then have "links ?f2 = links (set_lookups a 1 f1)" by (simp add: links_def s2)
      then show ?thesis by simp
    qed
    ultimately show ?thesis by (simp add: kids_def)
  qed
  have u2: "unlocked ?f2" using nodes dom2 by (auto simp: unlocked_def)
  have r2: "f_remember ?f2 = 100" using l1(2) by (simp add: set_forget_time_def set_lookups_def update_def)
  have "a \<in> dom (f_heap ?f2)" unfolding dom2 by simp
  from that [OF f1(1) run t2 u2 l2 lru2 nodes(1,2) kids2 this r2] show ?thesis .
qed

theorem clean_up_collects_witness:
  "\<exists>a f1 f2 f3. find_node (\<lambda>_. True) remembering_tree 1 (Some ''x'') = Inr (Some a, f1) \<and>
    forget_node (\<lambda>_. True) f1 (ino_of f1 a) 1 = Inr (Some f2) \<and> a \<in> dom (f_heap f2) \<and>
    fuse_clean_cache (\<lambda>_. True) (\<lambda>_. True) f2 = Inr (60, f3) \<and> a \<notin> dom (f_heap f3) \<and> f_lru f3 = []"
proof -
  obtain a f1 f2 where f: "find_node (\<lambda>_. True) remembering_tree 1 (Some ''x'') = Inr (Some a, f1)"
    "forget_node (\<lambda>_. True) f1 (ino_of f1 a) 1 = Inr (Some f2)" "tree_ok f2" "unlocked f2" "lru_ok f2" "f_lru f2 = [a]"
    "n_nlookup (node_at f2 a) = 1" "n_treelock (node_at f2 a) = 0" "kids f2 a = {}" "a \<in> dom (f_heap f2)" "f_remember f2 = 100"
    by (rule remembered_child)
  have "n_nlookup (node_at f2 x) = 1 \<and> n_treelock (node_at f2 x) = 0" if "x \<in> set (f_lru f2)" for x using that f(6-8) by simp
  from clean_up_collects [OF f(3-5) this, of "\<lambda>_. True" "\<lambda>_. True"] obtain f3 gone where
    g: "fuse_clean_cache (\<lambda>_. True) (\<lambda>_. True) f2 = Inr (clean_delay f2, f3)" "gone \<subseteq> {a}" "{b \<in> {a}. kids f2 b = {}} \<subseteq> gone" "f_lru f3 = filter (\<lambda>a. a \<notin> gone) (f_lru f2)"
    "dom (f_heap f3) = {x \<in> dom (f_heap f2). \<exists>y \<in> dom (f_heap f2) - gone. (y, x) \<in> (links f2)\<^sup>* \<and> n_nlookup (node_at f2 y) \<noteq> 0}"
    using f(6) by auto
  have "gone = {a}" using g(2,3) f(9) by auto
  have "(y, a) \<in> (links f2)\<^sup>* \<Longrightarrow> y = a" for y using f(9) by (auto simp: kids_def elim: rtranclE)
  then have "a \<notin> dom (f_heap f3)" using g(5) \<open>gone = {a}\<close> by auto
  moreover have "clean_delay f2 = 60" by (simp add: clean_delay_def f(11))
  ultimately show ?thesis using f(1,2,6,10) g(1,4) \<open>gone = {a}\<close> by (intro exI [of _ a] exI [of _ f1] exI [of _ f2] exI [of _ f3]) simp
qed

end
