(* ===== verification/Fuse_Remember.thy ===== *)
theory Fuse_Remember
  imports Fuse_Loop_Correct Node_Clean
begin

unbundle bit_operations_syntax

text \<open>
  The loop of a library that remembers nodes (\<^verbatim>\<open>fuse_session_loop_remember\<close> and \<^verbatim>\<open>fuse_loop\<close> in
  \<^verbatim>\<open>fuse-3.17.2/lib/fuse.c\<close>): it polls the device, and when nothing is to be read for some time it cleans up.

  The results of polling are a list, as what the device gives is.
\<close>

datatype poll_result =
    Poll_failed int
  | Readable
  | Nothing_to_read "addr \<Rightarrow> bool" \<comment> \<open>the nodes that have been remembered for long enough by then\<close>

text \<open>At the end the buffer is freed as if it were the start of the block it lies in.\<close>

definition remember_stop :: "int \<Rightarrow> 'l loop_state \<Rightarrow> cerror + carr list \<times> loop_end \<times> 'l loop_state" where
  "remember_stop res st =
     (if rb_mem (ls_rb st) \<noteq> None then Inl InvalidFree
      else Inr ([], Ended (if res < 0 then -1 else 0), st\<lparr>ls_se := fuse_session_reset (ls_se st)\<rparr>))"

fun fuse_session_loop_remember ::
    "(nat \<Rightarrow> bool) \<Rightarrow> 's lib loop_env \<Rightarrow> int \<Rightarrow> 's lib loop_state \<Rightarrow> poll_result list \<Rightarrow>
       cerror + carr list \<times> loop_end \<times> 's lib loop_state" where
  "fuse_session_loop_remember mem env res st [] =
     (if se_exited (ls_se st) then remember_stop res st else Inr ([], Waits_for_device, st))"
| "fuse_session_loop_remember mem env res st (p # ps) =
     (if se_exited (ls_se st) then remember_stop res st
      else case p of
        Poll_failed e \<Rightarrow> if e = EINTR then fuse_session_loop_remember mem env (-1) st ps else remember_stop (-1) st
      | Readable \<Rightarrow>
          cbind (fuse_session_receive_buf env st) (\<lambda>r.
            case r of
              None \<Rightarrow> Inr ([], Waits_for_device, st)
            | Some (res1, buf, st1) \<Rightarrow>
                if res1 = - EINTR then fuse_session_loop_remember mem env res1 st1 ps
                else if res1 \<le> 0 then remember_stop res1 st1
                else cbind (fuse_session_process_buf (lp_ll env) (ls_se st1) buf (ls_l st1)) (\<lambda>(msgs, qe, se2, l2).
                  let st2 = handled env buf se2 l2 st1
                  in case qe of
                       Some q \<Rightarrow> Inr (msgs, Waits_for_path q, st2)
                     | None \<Rightarrow> cbind (fuse_session_loop_remember mem env res1 st2 ps) (\<lambda>(msgs2, e, st3).
                                 Inr (msgs @ msgs2, e, st3))))
      | Nothing_to_read expired \<Rightarrow>
          cbind (fuse_clean_cache mem expired (l_f (ls_l st))) (\<lambda>(delay, f1).
          fuse_session_loop_remember mem env 0 (st\<lparr>ls_l := (ls_l st)\<lparr>l_f := f1\<rparr>\<rparr>) ps))"

definition fuse_loop ::
    "(nat \<Rightarrow> bool) \<Rightarrow> 's lib loop_env \<Rightarrow> 's lib loop_state \<Rightarrow> poll_result list \<Rightarrow>
       cerror + carr list \<times> loop_end \<times> 's lib loop_state" where
  "fuse_loop mem env st polls =
     (if lru_enabled (l_f (ls_l st)) then fuse_session_loop_remember mem env 0 st polls else fuse_session_loop env 0 st)"

section \<open>Every request is answered, with clean-ups in between\<close>

lemma remember_waits_exited:
  "se_exited (ls_se st) \<Longrightarrow> fuse_session_loop_remember mem env res st polls \<noteq> Inr (msgs, Waits_for_device, st')"
  by (cases polls) (auto simp: remember_stop_def)

text \<open>C13: between the clean-ups the requests are answered as without them: each message that polling has announced is
  answered in its turn.\<close>

theorem remembering_loop_answers:
  assumes "lp_ll env = mounted known page lenv" "known EAGAIN" "le_mem lenv 128" "no_pipes env" "ls_pipe st = None"
    and "\<forall>q\<in>set qs. \<not> silent_opcode (kq_opcode q)" "ls_dev st = map (\<lambda>q. (Bytes (kernel_msg q), False)) qs"
    and "fuse_session_loop_remember mem env res st polls = Inr (msgs, Waits_for_device, st')"
  shows "\<exists>parts. msgs = concat parts \<and> list_all2 answered (take (length (filter (\<lambda>p. p = Readable) polls)) qs) parts"
  using assms(5-)
proof (induction polls arbitrary: st res qs msgs)
  case (Cons p polls)
  note IH = Cons.IH and prems = Cons.prems
  have up: "\<not> se_exited (ls_se st)" using prems(4) remember_waits_exited by blast
  show ?case
  proof (cases p)
    case (Poll_failed e)
    with prems(4) up have "fuse_session_loop_remember mem env (-1) st polls = Inr (msgs, Waits_for_device, st')"
      by (auto simp: remember_stop_def split: if_splits)
    from IH [OF prems(1-3) this] Poll_failed show ?thesis by simp
  next
    case (Nothing_to_read expired)
    with prems(4) up obtain f1 where
      "fuse_session_loop_remember mem env 0 (st\<lparr>ls_l := (ls_l st)\<lparr>l_f := f1\<rparr>\<rparr>) polls = Inr (msgs, Waits_for_device, st')"
      by (auto simp: cbind_Inr_iff)
    from IH [OF _ _ _ this] prems(1-3) Nothing_to_read show ?thesis by simp
  next
    case Readable
    from prems(4) up Readable obtain r where r: "fuse_session_receive_buf env st = Inr r" by (auto simp: cbind_Inr_iff)
    show ?thesis
    proof (cases qs)
      case Nil
      have "res1 = - ENOMEM" if "r = Some (res1, buf, st1)" for res1 buf st1
        using receive_shorter [of env st res1 buf st1] r that prems(3) Nil by simp
      then have "r = None" using prems(4) up Readable r
        by (cases r) (auto simp: remember_stop_def EINTR_def ENOMEM_def split: if_splits)
      with prems(4) up Readable r Nil show ?thesis by simp
    next
      case (Cons q qs')
      have dev: "ls_dev st = (Bytes (kernel_msg q), False) # map (\<lambda>q. (Bytes (kernel_msg q), False)) qs'"
        and q: "\<not> silent_opcode (kq_opcode q)" using prems(2,3) Cons by simp_all
      note received = message_received [OF assms(4) prems(1) dev up, unfolded r]
      then obtain res1 buf st1 where res1: "r = Some (res1, buf, st1)" by (cases r) auto
      with received(2) have "res1 \<noteq> - EINTR" by auto
      with prems(4) up Readable r res1 have pos: "0 < res1" by (auto simp: remember_stop_def split: if_splits)
      with \<open>res1 \<noteq> - EINTR\<close> prems(4) up Readable r res1 obtain ms se2 l2 ms2 where
        p: "fuse_session_process_buf (lp_ll env) (ls_se st1) buf (ls_l st1) = Inr (ms, None, se2, l2)"
        "fuse_session_loop_remember mem env res1 (handled env buf se2 l2 st1) polls = Inr (ms2, Waits_for_device, st')" "msgs = ms @ ms2"
        by (auto simp: cbind_Inr_iff Let_def split: option.splits)
      note turn = lib.turn_answers [OF _ _ _ assms(4) prems(1) dev up q r [unfolded res1] pos p(1)]
      have a: "answered q ms" "ls_dev (handled env buf se2 l2 st1) = map (\<lambda>q. (Bytes (kernel_msg q), False)) qs'"
        "ls_pipe (handled env buf se2 l2 st1) = None"
        using turn assms(1-3) by simp_all
      from IH [OF a(3) _ a(2) p(2)] prems(2) Cons obtain parts where
        "ms2 = concat parts" "list_all2 answered (take (length (filter (\<lambda>p. p = Readable) polls)) qs') parts" by auto
      with a(1) p(3) Readable Cons show ?thesis by (intro exI [of _ "ms # parts"]) simp
    qed
  qed
qed (auto simp: remember_stop_def split: if_splits)

text \<open>Two requests with a clean-up between them.\<close>

lemma sample_remember_turn:
  assumes "fuse_session_receive_buf (sample_loop_env env) (sample_loop_state (idle_session n) rb0 l ((Bytes (kernel_msg (sample_query u)), False) # evs)) =
      Inr (Some (40, mem_buf (kernel_msg (sample_query u) @ stale) 40, sample_loop_state (idle_session n) rb l evs))"
    and "ll_mem env 128"
  shows "fuse_session_loop_remember mem (sample_loop_env env) res
      (sample_loop_state (idle_session n) rb0 l ((Bytes (kernel_msg (sample_query u)), False) # evs)) (Readable # ps) =
    cbind (fuse_session_loop_remember mem (sample_loop_env env) 40 (sample_loop_state (idle_session (n + 1)) rb l evs) ps) (\<lambda>(ms, e, st).
      Inr (send_reply (ll_known env) u (Inl EIO) # ms, e, st))"
proof -
  have "handled (sample_loop_env env) (mem_buf m 40) se l (sample_loop_state se0 rb l evs) = sample_loop_state se rb l evs" for m se se0
    by (simp add: handled_def mem_buf_def sample_loop_state_def Let_def)
  moreover have "\<not> se_exited (idle_session n)" by (simp add: idle_session_def sample_session_def)
  ultimately show ?thesis
    using assms sample_refused [OF assms(2)] by (simp add: EINTR_def Let_def sample_loop_state_def)
qed

lemma sample_quiet:
  "fuse_session_loop_remember mem env res (sample_loop_state (idle_session n) rb (sample_lib (sample_tree 0) s) evs) (Nothing_to_read e # ps) =
     fuse_session_loop_remember mem env 0 (sample_loop_state (idle_session n) rb (sample_lib (sample_tree 0) s) evs) ps"
  by (simp add: sample_loop_state_def idle_session_def sample_session_def sample_lib_def fuse_clean_cache_def
      sample_tree_def hash_id_def sample_base_def)

theorem remembering_loop_answers_witness:
  "\<exists>st' parts.
    fuse_session_loop_remember (\<lambda>_. True) (sample_loop_env (mounted (\<lambda>e. True) 4096 (sample_lenv scripted))) 0
      (sample_loop_state (idle_session 0) \<lparr>rb_mem = None, rb_mem_size = 0\<rparr> (sample_lib (sample_tree 0) (sample_fs [root] []))
        (map (\<lambda>q. (Bytes (kernel_msg q), False)) [sample_query 5, sample_query 6])) [Readable, Nothing_to_read (\<lambda>_. True), Readable] =
      Inr (concat parts, Waits_for_device, st') \<and> list_all2 answered [sample_query 5, sample_query 6] parts"
proof -
  let ?env = "mounted (\<lambda>e. True) 4096 (sample_lenv scripted)" and ?l = "sample_lib (sample_tree 0) (sample_fs [root] [])"
  let ?qs = "[sample_query 5, sample_query 6]"
  let ?st = "sample_loop_state (idle_session 0) \<lparr>rb_mem = None, rb_mem_size = 0\<rparr> ?l (map (\<lambda>q. (Bytes (kernel_msg q), False)) ?qs)"
  let ?ps = "[Readable, Nothing_to_read (\<lambda>_. True), Readable]"
  have "\<exists>msgs st'. fuse_session_loop_remember (\<lambda>_. True) (sample_loop_env ?env) 0 ?st ?ps = Inr (msgs, Waits_for_device, st')"
    by (simp add: sample_remember_turn [OF sample_first_receive [THEN trans, OF _ _ sample_receives]] sample_quiet
        sample_remember_turn [OF sample_receives] del: fuse_session_loop_remember.simps(2))
      (simp add: sample_loop_state_def idle_session_def sample_session_def)
  then obtain msgs st' where r: "fuse_session_loop_remember (\<lambda>_. True) (sample_loop_env ?env) 0 ?st ?ps = Inr (msgs, Waits_for_device, st')" by blast
  have "lp_ll (sample_loop_env ?env) = ?env" "(\<lambda>e :: int. True) EAGAIN" "le_mem (sample_lenv scripted) 128"
    "no_pipes (sample_loop_env ?env)" "ls_pipe ?st = None" "\<forall>q\<in>set ?qs. \<not> silent_opcode (kq_opcode q)"
    "ls_dev ?st = map (\<lambda>q. (Bytes (kernel_msg q), False)) ?qs"
    by (simp_all add: sample_loop_state_def)
  from remembering_loop_answers [OF this r] r show ?thesis by simp
qed

section \<open>The end of the loop\<close>

lemma read_device_keeps:
  "read_device env se rb m n evs = Inr (Some (res, m1, se1, rb1, evs1)) \<Longrightarrow> rb_mem rb \<noteq> None \<Longrightarrow> rb_mem rb1 \<noteq> None"
proof (induction env se rb m n evs rule: read_device.induct)
  case (2 env se rb m n ev evs)
  then show ?case by (cases "fst ev") (auto simp: Let_def cbind_Inr_iff split: if_splits option.splits)
qed simp

lemma receive_keeps_buffer:
  assumes "fuse_session_receive_buf env st = Inr (Some (res, buf, st1))" "rb_mem (ls_rb st) \<noteq> None"
  shows "rb_mem (ls_rb st1) \<noteq> None"
proof -
  have read: "rb_mem (ls_rb st1) \<noteq> None" if "receive_read env s = Inr (Some (res, buf, st1))" "rb_mem (ls_rb s) \<noteq> None" for s
    using that by (auto simp: receive_read_def Let_def cbind_Inr_iff dest: read_device_keeps split: option.splits)
  have pipe: "ls_rb s1 = ls_rb s" if "usable_pipe env s = (p, s1)" for s s1 p
    using that by (auto simp: usable_pipe_def fuse_ll_get_pipe_def Let_def split: option.splits prod.splits sum.splits if_splits)
  have splice: "rb_mem (ls_rb st1) \<noteq> None" if "receive_splice env p s = Inr (Some (res, buf, st1))" "rb_mem (ls_rb s) \<noteq> None" for p s
    using that by (auto simp: receive_splice_def receive_small_def fuse_ll_clear_pipe_def Let_def cbind_Inr_iff
        split: list.splits dev_read.splits option.splits if_splits)
  define st0 where "st0 = (if \<not> se_got_init (ls_se st) \<and> \<not> se_buf_reallocable (ls_se st)
    then st\<lparr>ls_se := (ls_se st)\<lparr>se_buf_reallocable := True\<rparr>\<rparr> else st)"
  have m: "rb_mem (ls_rb st0) \<noteq> None" using assms(2) by (simp add: st0_def)
  obtain p s where u: "usable_pipe env st0 = (p, s)" by (cases "usable_pipe env st0")
  have "receive_read env st0 = Inr (Some (res, buf, st1)) \<or> receive_read env s = Inr (Some (res, buf, st1)) \<or>
      (\<exists>p. receive_splice env p s = Inr (Some (res, buf, st1)))"
    using assms(1) u unfolding fuse_session_receive_buf_def Let_def st0_def [symmetric] by (auto split: if_splits option.splits)
  moreover have "rb_mem (ls_rb s) \<noteq> None" using m pipe [OF u] by simp
  ultimately show ?thesis using read splice m by blast
qed



end
