(* ===== verification/Fuse_Opt.thy ===== *)
theory Fuse_Opt
  imports Prelude
begin

text \<open>
  Option parsing of libfuse (\<^verbatim>\<open>fuse-3.17.2/lib/fuse_opt.c\<close>): argument vectors, templates, the
  comma-separated \<^verbatim>\<open>-o\<close> groups with their escapes, and the pass over the arguments that sorts
  them into options and the rest. Strings are NUL-free texts; the object the options are stored in
  is a map from offsets to values; \<^verbatim>\<open>sscanf\<close> on a caller's format, the allocator and the caller's
  processing function are parameters.
\<close>

section \<open>Argument vectors\<close>

record fuse_args =
  fa_argv :: "string list option"
  fa_allocated :: bool

record fuse_opt =
  templ :: string
  offset :: nat
  opt_value :: int

definition fa_list :: "fuse_args \<Rightarrow> string list" where
  "fa_list args = (case fa_argv args of None \<Rightarrow> [] | Some xs \<Rightarrow> xs)"

definition FUSE_OPT_KEY_OPT :: int where "FUSE_OPT_KEY_OPT = -1"
definition FUSE_OPT_KEY_NONOPT :: int where "FUSE_OPT_KEY_NONOPT = -2"
definition FUSE_OPT_KEY_KEEP :: int where "FUSE_OPT_KEY_KEEP = -3"
definition FUSE_OPT_KEY_DISCARD :: int where "FUSE_OPT_KEY_DISCARD = -4"

lemmas opt_keys = FUSE_OPT_KEY_OPT_def FUSE_OPT_KEY_NONOPT_def FUSE_OPT_KEY_KEEP_def
  FUSE_OPT_KEY_DISCARD_def

text \<open>The offset \<^verbatim>\<open>-1U\<close> of an entry that has no variable.\<close>

definition no_offset :: nat where "no_offset = 4294967295"

definition fuse_opt_free_args :: "fuse_args \<Rightarrow> fuse_args" where
  "fuse_opt_free_args args = \<lparr>fa_argv = None, fa_allocated = False\<rparr>"

definition fuse_opt_add_arg :: "(nat \<Rightarrow> bool) \<Rightarrow> fuse_args \<Rightarrow> string \<Rightarrow> cerror + int \<times> fuse_args" where
  "fuse_opt_add_arg mem args arg =
     (if fa_argv args \<noteq> None \<and> \<not> fa_allocated args then Inl AssertFail
      else if \<not> mem (length arg + 1) then Inr (-1, args)
      else if \<not> mem (8 * (length (fa_list args) + 2)) then Inr (-1, args)
      else Inr (0, \<lparr>fa_argv = Some (fa_list args @ [arg]), fa_allocated = True\<rparr>))"

text \<open>The new argument is appended and then moved to its place by shifting the ones behind it.\<close>

definition fuse_opt_insert_arg ::
    "(nat \<Rightarrow> bool) \<Rightarrow> fuse_args \<Rightarrow> nat \<Rightarrow> string \<Rightarrow> cerror + int \<times> fuse_args" where
  "fuse_opt_insert_arg mem args pos arg =
     (if length (fa_list args) < pos then Inl AssertFail
      else cbind (fuse_opt_add_arg mem args arg) (\<lambda>(res, args1).
        if res = -1 then Inr (-1, args1)
        else
          let v = fa_list args1; argc = length v in
          if pos \<noteq> argc - 1
          then let newarg = v ! (argc - 1);
                   moved = take (pos + 1) v @ take (argc - pos - 1) (drop pos v)
               in Inr (0, args1\<lparr>fa_argv := Some (moved[pos := newarg])\<rparr>)
          else Inr (0, args1)))"

section \<open>The context of a run\<close>

datatype optval = OInt int | OStr string | OScanned string string

type_synonym opt_data = "nat \<rightharpoonup> optval"

type_synonym opt_proc = "opt_data \<Rightarrow> string \<Rightarrow> int \<Rightarrow> fuse_args \<Rightarrow> cerror + int \<times> opt_data \<times> fuse_args"

record opt_env =
  oe_mem :: "nat \<Rightarrow> bool"
  oe_sscanf :: "string \<Rightarrow> string \<Rightarrow> optval option"

record fuse_opt_context =
  c_data :: opt_data
  c_opt :: "fuse_opt list"
  c_proc :: "opt_proc option"
  c_argctr :: nat
  c_argv :: "string list"
  c_outargs :: fuse_args
  c_opts :: "string option"
  c_nonopt :: nat

definition next_arg :: "fuse_opt_context \<Rightarrow> int \<times> fuse_opt_context" where
  "next_arg ctx =
     (if length (c_argv ctx) \<le> c_argctr ctx + 1 then (-1, ctx)
      else (0, ctx\<lparr>c_argctr := c_argctr ctx + 1\<rparr>))"

definition add_arg :: "opt_env \<Rightarrow> fuse_opt_context \<Rightarrow> string \<Rightarrow> cerror + int \<times> fuse_opt_context" where
  "add_arg env ctx arg =
     cbind (fuse_opt_add_arg (oe_mem env) (c_outargs ctx) arg) (\<lambda>(res, out).
       Inr (res, ctx\<lparr>c_outargs := out\<rparr>))"

abbreviation comma :: char where "comma \<equiv> CHR '',''"
abbreviation backslash :: char where "backslash \<equiv> CHR 0x5C"

fun escape :: "bool \<Rightarrow> string \<Rightarrow> string" where
  "escape esc [] = []"
| "escape esc (c # s) =
     (if esc \<and> (c = comma \<or> c = backslash) then backslash # c # escape esc s else c # escape esc s)"

definition add_opt_common ::
    "(nat \<Rightarrow> bool) \<Rightarrow> string option \<Rightarrow> string \<Rightarrow> bool \<Rightarrow> int \<times> string option" where
  "add_opt_common mem opts opt esc =
     (let old = (case opts of None \<Rightarrow> [] | Some s \<Rightarrow> s)
      in if \<not> mem (length old + 1 + length opt * 2 + 1) then (-1, opts)
         else (0, Some (old @ (if old = [] then [] else [comma]) @ escape esc opt)))"

definition fuse_opt_add_opt :: "(nat \<Rightarrow> bool) \<Rightarrow> string option \<Rightarrow> string \<Rightarrow> int \<times> string option" where
  "fuse_opt_add_opt mem opts opt = add_opt_common mem opts opt False"

definition fuse_opt_add_opt_escaped :: "(nat \<Rightarrow> bool) \<Rightarrow> string option \<Rightarrow> string \<Rightarrow> int \<times> string option" where
  "fuse_opt_add_opt_escaped mem opts opt = add_opt_common mem opts opt True"

definition add_opt :: "opt_env \<Rightarrow> fuse_opt_context \<Rightarrow> string \<Rightarrow> int \<times> fuse_opt_context" where
  "add_opt env ctx opt =
     (let (res, opts) = add_opt_common (oe_mem env) (c_opts ctx) opt True
      in (res, ctx\<lparr>c_opts := opts\<rparr>))"

definition call_proc ::
    "opt_env \<Rightarrow> fuse_opt_context \<Rightarrow> string \<Rightarrow> int \<Rightarrow> bool \<Rightarrow> cerror + int \<times> fuse_opt_context" where
  "call_proc env ctx arg key is_o =
     (let keep = (\<lambda>ctx1. if is_o then Inr (add_opt env ctx1 arg) else add_arg env ctx1 arg)
      in if key = FUSE_OPT_KEY_DISCARD then Inr (0, ctx)
         else case c_proc ctx of
                None \<Rightarrow> keep ctx
              | Some proc \<Rightarrow>
                  if key = FUSE_OPT_KEY_KEEP then keep ctx
                  else cbind (proc (c_data ctx) arg key (c_outargs ctx)) (\<lambda>(res, dat, out).
                       let ctx1 = ctx\<lparr>c_data := dat, c_outargs := out\<rparr>
                       in if res = -1 \<or> res = 0 then Inr (res, ctx1) else keep ctx1))"

section \<open>Templates\<close>

text \<open>The byte at an index of a string, the terminator included.\<close>

definition char_at :: "string \<Rightarrow> nat \<Rightarrow> char" where
  "char_at s i = (if i < length s then s ! i else NUL)"

text \<open>\<open>Some sep\<close> when the argument matches; \<open>sep\<close> is zero for a match of the whole text.\<close>

definition match_template :: "string \<Rightarrow> string \<Rightarrow> nat option" where
  "match_template t arg =
     (let whole = (if t = arg then Some 0 else None)
      in case (case strchr t CHR ''='' of Some i \<Rightarrow> Some i | None \<Rightarrow> strchr t CHR '' '') of
           None \<Rightarrow> whole
         | Some sep \<Rightarrow>
             if char_at t (sep + 1) = NUL \<or> char_at t (sep + 1) = CHR ''%''
             then let tlen = (if t ! sep = CHR ''='' then sep + 1 else sep)
                  in if tlen \<le> length arg \<and> take tlen arg = take tlen t then Some sep else whole
             else whole)"

fun find_opt :: "fuse_opt list \<Rightarrow> string \<Rightarrow> (fuse_opt \<times> nat \<times> fuse_opt list) option" where
  "find_opt [] arg = None"
| "find_opt (opt # opts) arg =
     (case match_template (templ opt) arg of
        Some sep \<Rightarrow> Some (opt, sep, opts)
      | None \<Rightarrow> find_opt opts arg)"

definition fuse_opt_match :: "fuse_opt list \<Rightarrow> string \<Rightarrow> bool" where
  "fuse_opt_match opts opt = (find_opt opts opt \<noteq> None)"

lemma find_opt_shorter: "find_opt opts arg = Some (opt, sep, rest) \<Longrightarrow> length rest < length opts"
  by (induction opts) (auto split: option.splits)

section \<open>Processing one option\<close>

definition process_opt_param ::
    "opt_env \<Rightarrow> opt_data \<Rightarrow> nat \<Rightarrow> string \<Rightarrow> string \<Rightarrow> cerror + int \<times> opt_data" where
  "process_opt_param env dat var fmt param =
     (if char_at fmt 0 \<noteq> CHR ''%'' then Inl AssertFail
      else if char_at fmt 1 = CHR ''s''
      then if oe_mem env (length param + 1) then Inr (0, dat(var \<mapsto> OStr param)) else Inr (-1, dat)
      else case oe_sscanf env fmt param of
             None \<Rightarrow> Inr (-1, dat)
           | Some v \<Rightarrow> Inr (0, dat(var \<mapsto> v)))"

definition process_opt ::
    "opt_env \<Rightarrow> fuse_opt_context \<Rightarrow> fuse_opt \<Rightarrow> nat \<Rightarrow> string \<Rightarrow> bool \<Rightarrow> cerror + int \<times> fuse_opt_context" where
  "process_opt env ctx opt sep arg is_o =
     (if offset opt = no_offset
      then cbind (call_proc env ctx arg (opt_value opt) is_o) (\<lambda>(res, ctx1).
             Inr (if res = -1 then -1 else 0, ctx1))
      else if sep \<noteq> 0 \<and> char_at (templ opt) (sep + 1) \<noteq> NUL
      then let param = drop (if char_at (templ opt) sep = CHR ''='' then sep + 1 else sep) arg
           in cbind (process_opt_param env (c_data ctx) (offset opt) (drop (sep + 1) (templ opt)) param)
                (\<lambda>(res, dat). Inr (if res = -1 then -1 else 0, ctx\<lparr>c_data := dat\<rparr>))
      else Inr (0, ctx\<lparr>c_data := (c_data ctx)(offset opt \<mapsto> OInt (opt_value opt))\<rparr>))"

definition process_opt_sep_arg ::
    "opt_env \<Rightarrow> fuse_opt_context \<Rightarrow> fuse_opt \<Rightarrow> nat \<Rightarrow> string \<Rightarrow> bool \<Rightarrow> cerror + int \<times> fuse_opt_context" where
  "process_opt_sep_arg env ctx opt sep arg is_o =
     (let (res, ctx1) = next_arg ctx
      in if res = -1 then Inr (-1, ctx1)
         else let param = c_argv ctx1 ! c_argctr ctx1
              in if \<not> oe_mem env (sep + length param + 1) then Inr (-1, ctx1)
                 else process_opt env ctx1 opt sep (take sep arg @ param) is_o)"

text \<open>Every matching entry of the table is processed, from the first match on.\<close>

function process_matches ::
    "opt_env \<Rightarrow> fuse_opt_context \<Rightarrow> string \<Rightarrow> bool \<Rightarrow> fuse_opt list \<Rightarrow> cerror + int \<times> fuse_opt_context" where
  "process_matches env ctx arg is_o opts =
     (case find_opt opts arg of
        None \<Rightarrow> Inr (0, ctx)
      | Some (opt, sep, rest) \<Rightarrow>
          cbind (if sep \<noteq> 0 \<and> char_at (templ opt) sep = CHR '' '' \<and> char_at arg sep = NUL
                 then process_opt_sep_arg env ctx opt sep arg is_o
                 else process_opt env ctx opt sep arg is_o) (\<lambda>(res, ctx1).
            if res = -1 then Inr (-1, ctx1) else process_matches env ctx1 arg is_o rest))"
  by pat_completeness auto
termination
  by (relation "measure (\<lambda>(env, ctx, arg, is_o, opts). length opts)") (auto dest: find_opt_shorter)

declare process_matches.simps [simp del]

definition process_gopt ::
    "opt_env \<Rightarrow> fuse_opt_context \<Rightarrow> string \<Rightarrow> bool \<Rightarrow> cerror + int \<times> fuse_opt_context" where
  "process_gopt env ctx arg is_o =
     (if find_opt (c_opt ctx) arg \<noteq> None then process_matches env ctx arg is_o (c_opt ctx)
      else call_proc env ctx arg FUSE_OPT_KEY_OPT is_o)"

section \<open>Groups of options\<close>

definition is_octal :: "char \<Rightarrow> bool" where
  "is_octal c \<longleftrightarrow> c \<in> set ''01234567''"

definition octal_char :: "char \<Rightarrow> char \<Rightarrow> char \<Rightarrow> char" where
  "octal_char a b c = char_of ((of_char a - 48) * 64 + (of_char b - 48) * 8 + (of_char c - 48) :: nat)"

text \<open>
  The group is decoded in place: \<open>d\<close> is the text decoded since the last comma. An escaped NUL
  ends the text that is processed.
\<close>

fun process_real_option_group ::
    "opt_env \<Rightarrow> fuse_opt_context \<Rightarrow> string \<Rightarrow> string \<Rightarrow> cerror + int \<times> fuse_opt_context" where
  "process_real_option_group env ctx d [] =
     cbind (process_gopt env ctx (takeWhile (\<lambda>c. c \<noteq> NUL) d) True) (\<lambda>(res, ctx1).
       Inr (if res = -1 then -1 else 0, ctx1))"
| "process_real_option_group env ctx d (c # s) =
     (if c = comma
      then cbind (process_gopt env ctx (takeWhile (\<lambda>c. c \<noteq> NUL) d) True) (\<lambda>(res, ctx1).
             if res = -1 then Inr (-1, ctx1) else process_real_option_group env ctx1 [] s)
      else if c = backslash \<and> s \<noteq> []
      then if hd s \<in> set ''0123'' \<and> is_octal (char_at s 1) \<and> is_octal (char_at s 2)
           then process_real_option_group env ctx
                  (d @ [octal_char (hd s) (char_at s 1) (char_at s 2)]) (drop 3 s)
           else process_real_option_group env ctx (d @ [hd s]) (tl s)
      else process_real_option_group env ctx (d @ [c]) s)"

definition process_option_group ::
    "opt_env \<Rightarrow> fuse_opt_context \<Rightarrow> string \<Rightarrow> cerror + int \<times> fuse_opt_context" where
  "process_option_group env ctx opts =
     (if oe_mem env (length opts + 1) then process_real_option_group env ctx [] opts else Inr (-1, ctx))"

section \<open>The whole argument vector\<close>

definition process_one ::
    "opt_env \<Rightarrow> fuse_opt_context \<Rightarrow> string \<Rightarrow> cerror + int \<times> fuse_opt_context" where
  "process_one env ctx arg =
     (if c_nonopt ctx \<noteq> 0 \<or> char_at arg 0 \<noteq> CHR ''-'' then call_proc env ctx arg FUSE_OPT_KEY_NONOPT False
      else if char_at arg 1 = CHR ''o''
      then if char_at arg 2 \<noteq> NUL then process_option_group env ctx (drop 2 arg)
           else let (res, ctx1) = next_arg ctx
                in if res = -1 then Inr (-1, ctx1)
                   else process_option_group env ctx1 (c_argv ctx1 ! c_argctr ctx1)
      else if arg = ''--''
      then cbind (add_arg env ctx arg) (\<lambda>(res, ctx1).
             if res = -1 then Inr (-1, ctx1)
             else Inr (0, ctx1\<lparr>c_nonopt := length (fa_list (c_outargs ctx1))\<rparr>))
      else process_gopt env ctx arg False)"

text \<open>Processing only moves the argument counter forward, which is why the loop ends.\<close>

definition ahead :: "fuse_opt_context \<Rightarrow> fuse_opt_context \<Rightarrow> bool" where
  "ahead ctx ctx' \<longleftrightarrow> c_argv ctx' = c_argv ctx \<and> c_argctr ctx \<le> c_argctr ctx'"

lemma ahead_refl [simp]: "ahead ctx ctx"
  by (simp add: ahead_def)

lemma ahead_trans: "ahead a b \<Longrightarrow> ahead b c \<Longrightarrow> ahead a c"
  by (simp add: ahead_def)

lemma add_arg_ahead: "add_arg env ctx arg = Inr (r, ctx') \<Longrightarrow> ahead ctx ctx'"
  by (auto simp: add_arg_def ahead_def elim!: cbind_InrE)

lemma add_opt_ahead: "add_opt env ctx arg = (r, ctx') \<Longrightarrow> ahead ctx ctx'"
  by (auto simp: add_opt_def ahead_def Let_def split: prod.splits)

lemma next_arg_ahead: "next_arg ctx = (r, ctx') \<Longrightarrow> ahead ctx ctx'"
  by (auto simp: next_arg_def ahead_def split: if_splits)

lemma keep_ahead:
  "(if is_o then Inr (add_opt env ctx arg) else add_arg env ctx arg) = Inr (r, ctx') \<Longrightarrow> ahead ctx ctx'"
  by (auto split: if_splits dest: add_opt_ahead add_arg_ahead)

lemma call_proc_ahead:
  assumes "call_proc env ctx arg key is_o = Inr (r, ctx')"
  shows "ahead ctx ctx'"
proof (cases "c_proc ctx")
  case None
  then show ?thesis
    using assms by (auto simp: call_proc_def Let_def split: if_splits dest: add_opt_ahead add_arg_ahead)
next
  case (Some proc)
  have *: "ahead ctx ctx'" if "ahead (ctx\<lparr>c_data := dat, c_outargs := out\<rparr>) ctx'" for dat out
    using that by (simp add: ahead_def)
  from assms Some show ?thesis
    by (auto simp: call_proc_def Let_def cbind_Inr_iff split: if_splits
        dest!: add_opt_ahead add_arg_ahead intro: *) (simp_all add: ahead_def)
qed

lemma process_opt_ahead:
  "process_opt env ctx opt sep arg is_o = Inr (r, ctx') \<Longrightarrow> ahead ctx ctx'"
  by (auto simp: process_opt_def Let_def split: if_splits dest: call_proc_ahead elim!: cbind_InrE)
    (simp_all add: ahead_def)

lemma process_opt_sep_arg_ahead:
  "process_opt_sep_arg env ctx opt sep arg is_o = Inr (r, ctx') \<Longrightarrow> ahead ctx ctx'"
  by (auto simp: process_opt_sep_arg_def Let_def split: if_splits prod.splits
      dest!: next_arg_ahead process_opt_ahead intro: ahead_trans)

lemma process_matches_ahead:
  "process_matches env ctx arg is_o opts = Inr (r, ctx') \<Longrightarrow> ahead ctx ctx'"
proof (induction env ctx arg is_o opts rule: process_matches.induct)
  case (1 env ctx arg is_o opts)
  show ?case
  proof (cases "find_opt opts arg")
    case None
    with "1.prems" show ?thesis by (simp add: process_matches.simps [of env ctx arg is_o opts])
  next
    case (Some t)
    then obtain opt sep rest where t: "find_opt opts arg = Some (opt, sep, rest)" by (metis prod_cases3)
    let ?step = "if sep \<noteq> 0 \<and> char_at (templ opt) sep = CHR '' '' \<and> char_at arg sep = NUL
      then process_opt_sep_arg env ctx opt sep arg is_o else process_opt env ctx opt sep arg is_o"
    from "1.prems" t obtain res ctx1 where s: "?step = Inr (res, ctx1)"
      "(if res = -1 then Inr (-1, ctx1) else process_matches env ctx1 arg is_o rest) = Inr (r, ctx')"
      by (subst (asm) process_matches.simps) (auto elim!: cbind_InrE)
    have "ahead ctx ctx1" using s(1) by (auto split: if_splits dest: process_opt_ahead process_opt_sep_arg_ahead)
    moreover have "ahead ctx1 ctx'"
    proof (cases "res = -1")
      case True
      with s(2) show ?thesis by simp
    next
      case False
      with "1.IH" [OF t refl refl s(1)] s(2) show ?thesis by simp
    qed
    ultimately show ?thesis by (rule ahead_trans)
  qed
qed

lemma process_gopt_ahead:
  "process_gopt env ctx arg is_o = Inr (r, ctx') \<Longrightarrow> ahead ctx ctx'"
  by (auto simp: process_gopt_def split: if_splits dest: process_matches_ahead call_proc_ahead)

lemma option_group_ahead:
  "process_real_option_group env ctx d s = Inr (r, ctx') \<Longrightarrow> ahead ctx ctx'"
proof (induction env ctx d s rule: process_real_option_group.induct)
  case (1 env ctx d)
  then show ?case by (auto dest!: process_gopt_ahead elim!: cbind_InrE split: if_splits)
next
  case (2 env ctx d c s)
  show ?case
  proof (cases "c = comma")
    case True
    with "2.prems" obtain res ctx1 where
      g: "process_gopt env ctx (takeWhile (\<lambda>c. c \<noteq> NUL) d) True = Inr (res, ctx1)"
      "(if res = -1 then Inr (-1, ctx1) else process_real_option_group env ctx1 [] s) = Inr (r, ctx')"
      by (auto elim!: cbind_InrE)
    from process_gopt_ahead [OF g(1)] "2.IH"(1) [OF True g(1) refl] g(2) show ?thesis
      by (auto split: if_splits intro: ahead_trans)
  next
    case False
    with "2.prems" "2.IH"(2-4) show ?thesis by (auto split: if_splits)
  qed
qed

lemma process_one_ahead: "process_one env ctx arg = Inr (r, ctx') \<Longrightarrow> ahead ctx ctx'"
  by (auto simp: process_one_def process_option_group_def Let_def split: if_splits prod.splits
      dest!: call_proc_ahead option_group_ahead next_arg_ahead add_arg_ahead process_gopt_ahead
      intro: ahead_trans elim!: cbind_InrE)
    (auto simp: ahead_def)

function opt_loop :: "opt_env \<Rightarrow> fuse_opt_context \<Rightarrow> cerror + int \<times> fuse_opt_context" where
  "opt_loop env ctx =
     (if c_argctr ctx < length (c_argv ctx)
      then cbind (process_one env ctx (c_argv ctx ! c_argctr ctx)) (\<lambda>(res, ctx1).
             if res = -1 then Inr (-1, ctx1)
             else opt_loop env (ctx1\<lparr>c_argctr := c_argctr ctx1 + 1\<rparr>))
      else Inr (0, ctx))"
  by pat_completeness auto
termination
  by (relation "measure (\<lambda>(env, ctx). length (c_argv ctx) - c_argctr ctx)")
    (auto dest!: process_one_ahead simp: ahead_def)

declare opt_loop.simps [simp del]

definition insert_opts :: "opt_env \<Rightarrow> fuse_opt_context \<Rightarrow> cerror + int \<times> fuse_opt_context" where
  "insert_opts env ctx =
     (case c_opts ctx of
        None \<Rightarrow> Inr (0, ctx)
      | Some opts \<Rightarrow>
          cbind (fuse_opt_insert_arg (oe_mem env) (c_outargs ctx) 1 ''-o'') (\<lambda>(r1, out1).
            if r1 = -1 then Inr (-1, ctx\<lparr>c_outargs := out1\<rparr>)
            else cbind (fuse_opt_insert_arg (oe_mem env) out1 2 opts) (\<lambda>(r2, out2).
              Inr (if r2 = -1 then -1 else 0, ctx\<lparr>c_outargs := out2\<rparr>))))"

definition drop_separator :: "fuse_opt_context \<Rightarrow> fuse_opt_context" where
  "drop_separator ctx =
     (let v = fa_list (c_outargs ctx)
      in if c_nonopt ctx \<noteq> 0 \<and> c_nonopt ctx = length v \<and> v ! (length v - 1) = ''--''
         then ctx\<lparr>c_outargs := (c_outargs ctx)\<lparr>fa_argv := Some (butlast v)\<rparr>\<rparr>
         else ctx)"

definition opt_parse :: "opt_env \<Rightarrow> fuse_opt_context \<Rightarrow> cerror + int \<times> fuse_opt_context" where
  "opt_parse env ctx =
     cbind (if c_argv ctx \<noteq> [] then add_arg env ctx (c_argv ctx ! 0) else Inr (0, ctx)) (\<lambda>(r0, ctx0).
     if r0 = -1 then Inr (-1, ctx0)
     else cbind (opt_loop env (ctx0\<lparr>c_argctr := 1\<rparr>)) (\<lambda>(r1, ctx1).
     if r1 = -1 then Inr (-1, ctx1)
     else cbind (insert_opts env ctx1) (\<lambda>(r2, ctx2).
     if r2 = -1 then Inr (-1, ctx2)
     else Inr (0, drop_separator ctx2))))"

text \<open>The caller's vector is replaced only when parsing succeeds; the other one is freed.\<close>

definition fuse_opt_parse ::
    "opt_env \<Rightarrow> fuse_args \<Rightarrow> opt_data \<Rightarrow> fuse_opt list \<Rightarrow> opt_proc option \<Rightarrow> cerror + int \<times> fuse_args \<times> opt_data" where
  "fuse_opt_parse env args dat opts proc =
     (if fa_list args = [] then Inr (0, args, dat)
      else
        let ctx = \<lparr>c_data = dat, c_opt = opts, c_proc = proc, c_argctr = 0, c_argv = fa_list args,
                   c_outargs = \<lparr>fa_argv = None, fa_allocated = False\<rparr>, c_opts = None, c_nonopt = 0\<rparr>
        in cbind (opt_parse env ctx) (\<lambda>(res, ctx1).
             Inr (res, if res \<noteq> -1 then c_outargs ctx1 else args, c_data ctx1)))"

section \<open>Escaping and splitting\<close>

text \<open>Handing a list of options one by one to \<^verbatim>\<open>process_gopt\<close>, and the list an application builds
  with \<^verbatim>\<open>fuse_opt_add_opt_escaped\<close>.\<close>

fun process_all ::
    "opt_env \<Rightarrow> fuse_opt_context \<Rightarrow> string list \<Rightarrow> cerror + int \<times> fuse_opt_context" where
  "process_all env ctx [] = Inr (0, ctx)"
| "process_all env ctx (o1 # os) =
     cbind (process_gopt env ctx o1 True) (\<lambda>(res, ctx1).
       if res = -1 then Inr (-1, ctx1) else process_all env ctx1 os)"

definition joined :: "string list \<Rightarrow> string option" where
  "joined os = foldl (\<lambda>opts opt. snd (fuse_opt_add_opt_escaped (\<lambda>_. True) opts opt)) None os"

lemma option_group_escaped:
  "process_real_option_group env ctx d (escape True opt @ rest) =
     process_real_option_group env ctx (d @ opt) rest"
proof (induction opt arbitrary: d)
  case (Cons c opt)
  have "process_real_option_group env ctx d (escape True (c # opt) @ rest) =
      process_real_option_group env ctx (d @ [c]) (escape True opt @ rest)"
  proof (cases "c = comma \<or> c = backslash")
    case True
    then have "c \<notin> set ''0123''" by auto
    with True show ?thesis by simp
  next
    case False
    then show ?thesis by simp
  qed
  also have "\<dots> = process_real_option_group env ctx ((d @ [c]) @ opt) rest" by (rule Cons)
  finally show ?case by (simp only: append_assoc append_Cons append_Nil)
qed simp

lemma takeWhile_c_string: "c_string s \<Longrightarrow> takeWhile (\<lambda>c. c \<noteq> NUL) s = s"
  by (simp add: c_string_def)

lemma escape_Nil_iff [simp]: "escape e s = [] \<longleftrightarrow> s = []"
  by (cases s) auto

lemma joined_snoc:
  assumes "joined os = Some s" "s \<noteq> []"
  shows "joined (os @ [opt]) = Some (s @ comma # escape True opt)"
  using assms by (simp add: joined_def fuse_opt_add_opt_escaped_def add_opt_common_def)

lemma joined_Cons:
  assumes "o1 \<noteq> []"
  shows "joined (o1 # os) = Some (escape True o1 @ concat (map (\<lambda>opt. comma # escape True opt) os))"
proof (induction os rule: rev_induct)
  case Nil
  then show ?case by (simp add: joined_def fuse_opt_add_opt_escaped_def add_opt_common_def)
next
  case (snoc opt os)
  with joined_snoc [OF snoc, of opt] assms show ?case by simp
qed

lemma option_group_concat:
  assumes "\<forall>opt \<in> set (o1 # os). c_string opt"
  shows "process_real_option_group env ctx [] (escape True o1 @ concat (map (\<lambda>opt. comma # escape True opt) os)) =
    process_all env ctx (o1 # os)"
  using assms
proof (induction os arbitrary: o1 ctx)
  case Nil
  then have tw: "takeWhile (\<lambda>c. c \<noteq> NUL) o1 = o1" by (simp add: takeWhile_c_string)
  have "process_real_option_group env ctx [] (escape True o1 @ []) = process_real_option_group env ctx ([] @ o1) []"
    by (rule option_group_escaped)
  also have "\<dots> = process_all env ctx [o1]"
    by (cases "process_gopt env ctx o1 True") (simp_all add: tw split: prod.split)
  finally show ?case by (simp only: list.map concat.simps)
next
  case (Cons o2 os)
  then have tw: "takeWhile (\<lambda>c. c \<noteq> NUL) o1 = o1" by (simp add: takeWhile_c_string)
  let ?rest = "escape True o2 @ concat (map (\<lambda>opt. comma # escape True opt) os)"
  have rest: "process_real_option_group env ctx1 [] ?rest = process_all env ctx1 (o2 # os)" for ctx1
    using Cons.prems by (intro Cons.IH) simp
  have "process_real_option_group env ctx [] (escape True o1 @ comma # ?rest) =
      process_real_option_group env ctx ([] @ o1) (comma # ?rest)"
    by (rule option_group_escaped)
  also have "\<dots> = process_all env ctx (o1 # o2 # os)"
    by (simp only: process_real_option_group.simps(2) process_all.simps(2) [of env ctx o1 "o2 # os"]
        append_Nil tw rest if_True simp_thms)
  finally show ?case by (simp only: list.map concat.simps append_Cons append_assoc)
qed

section \<open>Arguments that are not options\<close>

definition plenty :: "opt_env \<Rightarrow> bool" where
  "plenty env \<longleftrightarrow> (\<forall>n. oe_mem env n)"

definition out_ok :: "fuse_args \<Rightarrow> bool" where
  "out_ok args \<longleftrightarrow> fa_argv args = None \<or> fa_allocated args"

lemma add_arg_plenty:
  assumes "plenty env" "out_ok (c_outargs ctx)"
  shows "add_arg env ctx arg =
    Inr (0, ctx\<lparr>c_outargs := \<lparr>fa_argv = Some (fa_list (c_outargs ctx) @ [arg]), fa_allocated = True\<rparr>\<rparr>)"
  using assms by (auto simp: add_arg_def fuse_opt_add_arg_def plenty_def out_ok_def)

lemma insert_arg_list:
  assumes "\<forall>n. mem n" "out_ok args" "pos \<le> length (fa_list args)"
  shows "\<exists>args'. fuse_opt_insert_arg mem args pos arg = Inr (0, args') \<and> fa_allocated args' \<and>
    fa_argv args' = Some (take pos (fa_list args) @ arg # drop pos (fa_list args))"
proof -
  let ?v = "fa_list args" let ?w = "?v @ [arg]"
  have add: "fuse_opt_add_arg mem args arg = Inr (0, \<lparr>fa_argv = Some ?w, fa_allocated = True\<rparr>)"
    using assms by (auto simp: fuse_opt_add_arg_def out_ok_def)
  show ?thesis
  proof (cases "pos = length ?v")
    case True
    then show ?thesis using add by (simp add: fuse_opt_insert_arg_def fa_list_def Let_def)
  next
    case False
    then have lt: "pos < length ?v" using assms(3) by simp
    have "take (Suc pos) ?w = take pos ?v @ [?v ! pos]"
      using lt by (simp add: take_Suc_conv_app_nth)
    then have "(take (pos + 1) ?w @ take (length ?v - pos) (drop pos ?w))[pos := arg] =
        take pos ?v @ arg # drop pos ?v"
      using lt by (simp add: list_update_append)
    then show ?thesis
      using add lt by (simp add: fuse_opt_insert_arg_def fa_list_def Let_def nth_append)
  qed
qed

lemma opt_loop_plain:
  assumes "plenty env" "c_proc ctx = None"
  shows "out_ok (c_outargs ctx) \<Longrightarrow> c_argctr ctx \<le> length (c_argv ctx) \<Longrightarrow>
    (c_nonopt ctx \<noteq> 0 \<or> (\<forall>a \<in> set (drop (c_argctr ctx) (c_argv ctx)). char_at a 0 \<noteq> CHR ''-'')) \<Longrightarrow>
    \<exists>out. opt_loop env ctx = Inr (0, ctx\<lparr>c_argctr := length (c_argv ctx), c_outargs := out\<rparr>) \<and> out_ok out \<and>
      fa_list out = fa_list (c_outargs ctx) @ drop (c_argctr ctx) (c_argv ctx)"
  using assms(2)
proof (induction "length (c_argv ctx) - c_argctr ctx" arbitrary: ctx)
  case 0
  then show ?case by (intro exI [of _ "c_outargs ctx"]) (simp add: opt_loop.simps [of env ctx])
next
  case (Suc n)
  let ?arg = "c_argv ctx ! c_argctr ctx"
  have lt: "c_argctr ctx < length (c_argv ctx)" using Suc.hyps(2) by simp
  then have dr: "drop (c_argctr ctx) (c_argv ctx) = ?arg # drop (Suc (c_argctr ctx)) (c_argv ctx)"
    by (simp add: Cons_nth_drop_Suc)
  define out where "out = \<lparr>fa_argv = Some (fa_list (c_outargs ctx) @ [?arg]), fa_allocated = True\<rparr>"
  define ctx1 where "ctx1 = ctx\<lparr>c_outargs := out, c_argctr := c_argctr ctx + 1\<rparr>"
  have "process_one env ctx ?arg = call_proc env ctx ?arg FUSE_OPT_KEY_NONOPT False"
    using Suc.prems(3) dr by (auto simp: process_one_def)
  also have "\<dots> = Inr (0, ctx\<lparr>c_outargs := out\<rparr>)"
    using Suc.prems(4) add_arg_plenty [OF assms(1) Suc.prems(1), of ?arg]
    by (simp add: call_proc_def opt_keys Let_def out_def)
  finally have step: "opt_loop env ctx = opt_loop env ctx1"
    using lt by (simp add: opt_loop.simps [of env ctx] ctx1_def)
  have "n = length (c_argv ctx1) - c_argctr ctx1" "out_ok (c_outargs ctx1)"
    "c_argctr ctx1 \<le> length (c_argv ctx1)" "c_proc ctx1 = None"
    using Suc.hyps(2) lt Suc.prems(4) by (simp_all add: ctx1_def out_def out_ok_def)
  moreover have "c_nonopt ctx1 \<noteq> 0 \<or> (\<forall>a \<in> set (drop (c_argctr ctx1) (c_argv ctx1)). char_at a 0 \<noteq> CHR ''-'')"
    using Suc.prems(3) unfolding dr by (auto simp: ctx1_def)
  ultimately have "\<exists>out. opt_loop env ctx1 = Inr (0, ctx1\<lparr>c_argctr := length (c_argv ctx1), c_outargs := out\<rparr>) \<and>
      out_ok out \<and> fa_list out = fa_list (c_outargs ctx1) @ drop (c_argctr ctx1) (c_argv ctx1)"
    using Suc.hyps(1) [of ctx1] by blast
  then show ?case unfolding step by (auto simp: ctx1_def out_def fa_list_def dr)
qed

section \<open>Properties\<close>

text \<open>Unlimited memory and no conversions, and the context of a run over a vector.\<close>

definition opt_env_ok :: opt_env where
  "opt_env_ok = \<lparr>oe_mem = (\<lambda>_. True), oe_sscanf = (\<lambda>_ _. None)\<rparr>"

lemma plenty_ok [simp]: "plenty opt_env_ok"
  by (simp add: plenty_def opt_env_ok_def)

definition opt_context :: "string list \<Rightarrow> fuse_opt list \<Rightarrow> fuse_opt_context" where
  "opt_context argv opts = \<lparr>c_data = Map.empty, c_opt = opts, c_proc = None, c_argctr = 0, c_argv = argv,
     c_outargs = \<lparr>fa_argv = None, fa_allocated = False\<rparr>, c_opts = None, c_nonopt = 0\<rparr>"

text \<open>Options added with escaping survive the trip through one \<^verbatim>\<open>-o\<close> group: whatever commas and
  backslashes they contain, splitting the group hands exactly these options, in order, to the option
  handler, stopping at the first failure. The first option must not be empty.\<close>

theorem option_group_roundtrip:
  assumes "os \<noteq> []" "hd os \<noteq> []" "\<forall>opt \<in> set os. NUL \<notin> set opt"
  shows "\<exists>s. joined os = Some s \<and> process_real_option_group env ctx [] s = process_all env ctx os"
proof -
  obtain o1 os' where os: "os = o1 # os'" using assms(1) by (cases os) auto
  have "\<forall>opt \<in> set (o1 # os'). c_string opt" using assms(3) os by (simp add: c_string_def)
  from option_group_concat [OF this, of env ctx] joined_Cons [of o1 os'] assms(2) os show ?thesis by simp
qed

theorem option_group_roundtrip_witness:
  "\<exists>s. joined [''a,b'', ''c''] = Some s \<and>
     process_real_option_group opt_env_ok (opt_context [] []) [] s =
       process_all opt_env_ok (opt_context [] []) [''a,b'', ''c'']"
  by (rule option_group_roundtrip) simp_all

text \<open>Arguments that are not options pass through unchanged when no processing function is
  given: without a leading dash anywhere the vector comes out as it went in, and behind \<^verbatim>\<open>--\<close> any
  argument is kept, dashes or not.\<close>

theorem nonoptions_pass_through:
  assumes "plenty env" "rest \<noteq> []"
  shows "((\<forall>a \<in> set rest. char_at a 0 \<noteq> CHR ''-'') \<longrightarrow> (\<exists>out.
      fuse_opt_parse env \<lparr>fa_argv = Some (prog # rest), fa_allocated = al\<rparr> dat opts None = Inr (0, out, dat) \<and>
      fa_list out = prog # rest)) \<and>
    (\<exists>out. fuse_opt_parse env \<lparr>fa_argv = Some (prog # ''--'' # rest), fa_allocated = al\<rparr> dat opts None =
        Inr (0, out, dat) \<and> fa_list out = prog # ''--'' # rest)"
proof (intro conjI impI)
  let ?out1 = "\<lparr>fa_argv = Some [prog], fa_allocated = True\<rparr>"
  let ?ctx = "\<lambda>argv k out n. \<lparr>c_data = dat, c_opt = opts, c_proc = None, c_argctr = k, c_argv = argv,
    c_outargs = out, c_opts = None, c_nonopt = n\<rparr>"
  let ?out0 = "\<lparr>fa_argv = None, fa_allocated = False\<rparr>"
  have first: "add_arg env (?ctx argv k ?out0 n) prog = Inr (0, ?ctx argv k ?out1 n)" for argv k n
    using add_arg_plenty [OF assms(1), of "?ctx argv k ?out0 n" prog] by (simp add: out_ok_def fa_list_def)
  {
    assume plain: "\<forall>a \<in> set rest. char_at a 0 \<noteq> CHR ''-''"
    from opt_loop_plain [OF assms(1), of "?ctx (prog # rest) 1 ?out1 0"] plain obtain out where
      "opt_loop env (?ctx (prog # rest) 1 ?out1 0) = Inr (0, ?ctx (prog # rest) (Suc (length rest)) out 0)"
      "fa_list out = prog # rest" by (auto simp: out_ok_def fa_list_def)
    then show "\<exists>out. fuse_opt_parse env \<lparr>fa_argv = Some (prog # rest), fa_allocated = al\<rparr> dat opts None =
        Inr (0, out, dat) \<and> fa_list out = prog # rest"
      using first by (simp add: fuse_opt_parse_def opt_parse_def fa_list_def insert_opts_def drop_separator_def Let_def)
  }
  let ?argv = "prog # ''--'' # rest"
  let ?out2 = "\<lparr>fa_argv = Some [prog, ''--''], fa_allocated = True\<rparr>"
  have "process_one env (?ctx ?argv 1 ?out1 0) ''--'' = Inr (0, ?ctx ?argv 1 ?out2 2)"
    using add_arg_plenty [OF assms(1), of "?ctx ?argv 1 ?out1 0" "''--''"]
    by (simp add: process_one_def char_at_def out_ok_def fa_list_def)
  then have "opt_loop env (?ctx ?argv 1 ?out1 0) = opt_loop env (?ctx ?argv 2 ?out2 2)"
    by (simp add: opt_loop.simps [of env "?ctx ?argv (Suc 0) ?out1 0"] numeral_2_eq_2)
  with opt_loop_plain [OF assms(1), of "?ctx ?argv 2 ?out2 2"] obtain out where
    out: "opt_loop env (?ctx ?argv 1 ?out1 0) = Inr (0, ?ctx ?argv (length ?argv) out 2)"
      "fa_list out = ?argv" by (auto simp: out_ok_def fa_list_def numeral_2_eq_2)
  have "length (fa_list out) \<noteq> 2" using out(2) assms(2) by simp
  with out show "\<exists>out. fuse_opt_parse env \<lparr>fa_argv = Some ?argv, fa_allocated = al\<rparr> dat opts None =
      Inr (0, out, dat) \<and> fa_list out = ?argv"
    using first by (simp add: fuse_opt_parse_def opt_parse_def fa_list_def insert_opts_def drop_separator_def Let_def)
qed

theorem nonoptions_pass_through_witness:
  "\<exists>out. fuse_opt_parse opt_env_ok \<lparr>fa_argv = Some (''prog'' # ''--'' # [''-x'']), fa_allocated = False\<rparr>
      Map.empty [] None = Inr (0, out, Map.empty) \<and> fa_list out = ''prog'' # ''--'' # [''-x'']"
  using nonoptions_pass_through [of opt_env_ok "[''-x'']" "''prog''" False Map.empty "[]"] by simp

lemma group_plain:
  assumes "set s \<inter> {comma, backslash} = {}"
  shows "escape True s = s"
  using assms by (induction s) auto

text \<open>A separator \<^verbatim>\<open>--\<close> at the end of the vector is removed only when no option was kept for a
  \<^verbatim>\<open>-o\<close> group. After inserting the two arguments of the group, the position of the separator that
  was remembered is stale, and the separator stays.\<close>

theorem trailing_separator_stays:
  assumes "plenty env" "opt \<noteq> []" "set opt \<inter> {comma, backslash, NUL} = {}"
  shows "(\<exists>out. fuse_opt_parse env \<lparr>fa_argv = Some [prog, ''-o'', opt, ''--''], fa_allocated = al\<rparr> dat [] None =
      Inr (0, out, dat) \<and> fa_list out = [prog, ''-o'', opt, ''--'']) \<and>
    (\<exists>out. fuse_opt_parse env \<lparr>fa_argv = Some [prog, ''--''], fa_allocated = al\<rparr> dat [] None =
      Inr (0, out, dat) \<and> fa_list out = [prog])"
proof
  let ?vec = "\<lambda>v. \<lparr>fa_argv = Some v, fa_allocated = True\<rparr>"
  let ?ctx = "\<lambda>argv k out os n. \<lparr>c_data = dat, c_opt = [], c_proc = None, c_argctr = k, c_argv = argv,
    c_outargs = out, c_opts = os, c_nonopt = n\<rparr>"
  let ?out0 = "\<lparr>fa_argv = None, fa_allocated = False\<rparr>"
  have first: "add_arg env (?ctx argv k ?out0 os n) prog = Inr (0, ?ctx argv k (?vec [prog]) os n)" for argv k os n
    using add_arg_plenty [OF assms(1), of "?ctx argv k ?out0 os n" prog] by (simp add: out_ok_def fa_list_def)
  have sep: "process_one env (?ctx argv k (?vec [prog]) os 0) ''--'' =
      Inr (0, ?ctx argv k (?vec [prog, ''--'']) os 2)" for argv k os
    using add_arg_plenty [OF assms(1), of "?ctx argv k (?vec [prog]) os 0" "''--''"]
    by (simp add: process_one_def char_at_def out_ok_def fa_list_def)
  let ?argv = "[prog, ''-o'', opt, ''--'']"
  have gopt: "process_gopt env (?ctx ?argv 2 (?vec [prog]) None 0) opt True =
      Inr (0, ?ctx ?argv 2 (?vec [prog]) (Some opt) 0)"
    using assms by (simp add: process_gopt_def call_proc_def opt_keys add_opt_def add_opt_common_def
        plenty_def group_plain)
  have tw: "takeWhile (\<lambda>c. c \<noteq> NUL) opt = opt" using assms(3) by auto
  have "process_real_option_group env (?ctx ?argv 2 (?vec [prog]) None 0) [] (escape True opt @ []) =
      process_real_option_group env (?ctx ?argv 2 (?vec [prog]) None 0) ([] @ opt) []"
    by (rule option_group_escaped)
  then have group: "process_real_option_group env (?ctx ?argv 2 (?vec [prog]) None 0) [] opt =
      Inr (0, ?ctx ?argv 2 (?vec [prog]) (Some opt) 0)"
    using assms(3) by (simp add: group_plain tw gopt)
  have o: "process_one env (?ctx ?argv 1 (?vec [prog]) None 0) ''-o'' =
      Inr (0, ?ctx ?argv 2 (?vec [prog]) (Some opt) 0)"
    using group assms(1)
    by (simp add: process_one_def char_at_def next_arg_def process_option_group_def plenty_def numeral_2_eq_2)
  have loop: "opt_loop env (?ctx ?argv 1 (?vec [prog]) None 0) =
      Inr (0, ?ctx ?argv 4 (?vec [prog, ''--'']) (Some opt) 2)"
    using o sep [of 3 ?argv "Some opt"]
    by (simp add: opt_loop.simps [of env "?ctx ?argv (Suc 0) (?vec [prog]) None 0"]
        opt_loop.simps [of env "?ctx ?argv 3 (?vec [prog]) (Some opt) 0"]
        opt_loop.simps [of env "?ctx ?argv 4 (?vec [prog, ''--'']) (Some opt) 2"])
  from insert_arg_list [of "oe_mem env" "?vec [prog, ''--'']" 1 "''-o''"] assms(1) obtain a1 where
    a1: "fuse_opt_insert_arg (oe_mem env) (?vec [prog, ''--'']) 1 ''-o'' = Inr (0, a1)" "fa_allocated a1"
      "fa_argv a1 = Some [prog, ''-o'', ''--'']" by (auto simp: plenty_def out_ok_def fa_list_def)
  from insert_arg_list [of "oe_mem env" a1 2 opt] assms(1) a1 obtain a2 where
    a2: "fuse_opt_insert_arg (oe_mem env) a1 2 opt = Inr (0, a2)" "fa_argv a2 = Some [prog, ''-o'', opt, ''--'']"
    by (auto simp: plenty_def out_ok_def fa_list_def)
  show "\<exists>out. fuse_opt_parse env \<lparr>fa_argv = Some ?argv, fa_allocated = al\<rparr> dat [] None = Inr (0, out, dat) \<and>
      fa_list out = ?argv"
    using first loop a1(1) a2
    by (simp add: fuse_opt_parse_def opt_parse_def fa_list_def insert_opts_def drop_separator_def Let_def)
  have "opt_loop env (?ctx [prog, ''--''] 1 (?vec [prog]) None 0) =
      Inr (0, ?ctx [prog, ''--''] 2 (?vec [prog, ''--'']) None 2)"
    using sep [of 1 "[prog, ''--'']" None]
    by (simp add: opt_loop.simps [of env "?ctx [prog, ''--''] (Suc 0) (?vec [prog]) None 0"]
        opt_loop.simps [of env "?ctx [prog, ''--''] (Suc (Suc 0)) (?vec [prog, ''--'']) None (Suc (Suc 0))"]
        numeral_2_eq_2)
  then show "\<exists>out. fuse_opt_parse env \<lparr>fa_argv = Some [prog, ''--''], fa_allocated = al\<rparr> dat [] None =
      Inr (0, out, dat) \<and> fa_list out = [prog]"
    using first by (simp add: fuse_opt_parse_def opt_parse_def fa_list_def insert_opts_def drop_separator_def Let_def)
qed

theorem trailing_separator_stays_witness:
  "\<exists>out. fuse_opt_parse opt_env_ok \<lparr>fa_argv = Some [''prog'', ''-o'', ''ro'', ''--''], fa_allocated = False\<rparr>
      Map.empty [] None = Inr (0, out, Map.empty) \<and> fa_list out = [''prog'', ''-o'', ''ro'', ''--'']"
  using trailing_separator_stays [of opt_env_ok "''ro''" "''prog''" False Map.empty] by simp

text \<open>An option of the form \<^verbatim>\<open>key=value\<close> whose table entry is \<^verbatim>\<open>key=%s\<close> stores exactly the value in
  the entry's variable and leaves every other variable alone.\<close>

theorem option_value_is_stored:
  assumes "plenty env" "key \<noteq> []" "CHR ''='' \<notin> set key"
    "c_opt ctx = [\<lparr>templ = key @ ''=%s'', offset = off, opt_value = v\<rparr>]" "off \<noteq> no_offset"
  shows "process_gopt env ctx (key @ ''='' @ val) is_o = Inr (0, ctx\<lparr>c_data := (c_data ctx)(off \<mapsto> OStr val)\<rparr>)"
proof -
  have sep: "strchr (key @ ''=%s'') CHR ''='' = Some (length key)"
    using assms(3) by (auto simp: strchr_Some)
  then have "match_template (key @ ''=%s'') (key @ ''='' @ val) = Some (length key)"
    by (simp add: match_template_def char_at_def nth_append)
  then have "find_opt (c_opt ctx) (key @ ''='' @ val) =
      Some (\<lparr>templ = key @ ''=%s'', offset = off, opt_value = v\<rparr>, length key, [])"
    using assms(4) by simp
  then show ?thesis
    using assms(1,2,5)
    by (simp add: process_gopt_def process_matches.simps [of env ctx _ is_o "c_opt ctx"]
        process_matches.simps [of env _ _ is_o "[]"] process_opt_def process_opt_param_def char_at_def
        nth_append plenty_def Let_def)
qed

theorem option_value_is_stored_witness:
  "process_gopt opt_env_ok (opt_context [] [\<lparr>templ = ''fsname'' @ ''=%s'', offset = 8, opt_value = 0\<rparr>])
      (''fsname'' @ ''='' @ ''tg'') True =
     Inr (0, (opt_context [] [\<lparr>templ = ''fsname'' @ ''=%s'', offset = 8, opt_value = 0\<rparr>])\<lparr>c_data :=
       (c_data (opt_context [] [\<lparr>templ = ''fsname'' @ ''=%s'', offset = 8, opt_value = 0\<rparr>]))(8 \<mapsto> OStr ''tg'')\<rparr>)"
  by (rule option_value_is_stored [where v = 0]) (simp_all add: opt_context_def no_offset_def)

end
