(* ===== verification/Fuse_Subdir.thy ===== *)
theory Fuse_Subdir
  imports Fuse_Fs Fuse_Opt Node_Tree
begin

text \<open>
  The module \<^verbatim>\<open>subdir\<close> of libfuse (\<^verbatim>\<open>fuse-3.17.2/lib/modules/subdir.c\<close>): a file system on top of another one that
  shows one directory of it. Every path gets the directory in front; absolute symbolic links into the directory
  can be made relative. Paths are NUL-free texts; the allocator is a parameter, and so are the system calls for copying
  data. The pointer to the module's own data has become an argument.
\<close>

section \<open>Paths\<close>

record subdir =
  sd_base :: string
  sd_rellinks :: bool

abbreviation slash :: char where "slash \<equiv> CHR ''/''"

text \<open>The length is an \<^verbatim>\<open>unsigned\<close>, which wraps; the copies that follow must fit.\<close>

definition subdir_addpath :: "(nat \<Rightarrow> bool) \<Rightarrow> subdir \<Rightarrow> string option \<Rightarrow> cerror + int + string option" where
  "subdir_addpath mem d path =
     (case path of
        None \<Rightarrow> Inr (Inr None)
      | Some p \<Rightarrow>
          let newlen = (of_nat (length (sd_base d) + length p) :: 32 word); block = unat (newlen + 2);
              p1 = (if char_at p 0 = slash then tl p else p); newpath = sd_base d @ p1
          in if \<not> mem block then Inr (Inl (- ENOMEM))
             else if block < length newpath + 1 then Inl OutOfBounds
             else Inr (Inr (Some (if newpath = [] then ''.'' else newpath))))"

text \<open>The operations have the same form: the path is extended, or its error returned.\<close>

definition below ::
    "(nat \<Rightarrow> bool) \<Rightarrow> subdir \<Rightarrow> string option \<Rightarrow> (int \<Rightarrow> 'a) \<Rightarrow> (string option \<Rightarrow> cerror + 'a) \<Rightarrow> cerror + 'a" where
  "below mem d path failed k =
     cbind (subdir_addpath mem d path) (\<lambda>r. case r of Inl err \<Rightarrow> Inr (failed err) | Inr newpath \<Rightarrow> k newpath)"

section \<open>Symbolic links\<close>

abbreviation skip_slashes :: "string \<Rightarrow> string" where "skip_slashes \<equiv> dropWhile (\<lambda>c. c = slash)"
abbreviation skip_name :: "string \<Rightarrow> string" where "skip_name \<equiv> dropWhile (\<lambda>c. c \<noteq> slash)"

lemma skip_le: "length (skip_slashes p) \<le> length p" "length (skip_slashes (skip_name p)) \<le> length p"
  using order_trans [OF length_dropWhile_le length_dropWhile_le] by (simp_all add: length_dropWhile_le)

text \<open>One turn of the outer loop skips a name and the slashes behind it; at a slash there is no name to skip.\<close>

function count_from :: "string \<Rightarrow> nat" where
  "count_from [] = 0"
| "count_from (c # p) = 1 + count_from (if c = slash then skip_slashes p else skip_slashes (skip_name p))"
  by pat_completeness auto
termination
  by (relation "measure length") (auto simp: less_Suc_eq_le skip_le)

definition count_components :: "string \<Rightarrow> nat" where
  "count_components p = count_from (skip_slashes p)"

text \<open>The common part of two names, up to a slash.\<close>

fun skip_common :: "string \<Rightarrow> string \<Rightarrow> string \<times> string" where
  "skip_common (c # s) (d # t) = (if c = d \<and> c \<noteq> slash then skip_common s t else (c # s, d # t))"
| "skip_common s t = (s, t)"

definition more_common :: "string \<Rightarrow> string \<Rightarrow> bool" where
  "more_common s t \<longleftrightarrow> (char_at s 0 = char_at t 0 \<and> char_at s 0 \<noteq> NUL) \<or> (char_at s 0 = NUL \<and> char_at t 0 = slash) \<or>
     (char_at s 0 = slash \<and> char_at t 0 = NUL)"

lemma skip_common_le: "skip_common s t = (s1, t1) \<Longrightarrow> length s1 \<le> length s \<and> length t1 \<le> length t"
  by (induction s t rule: skip_common.induct) (auto split: if_splits)

lemma skip_common_same:
  "skip_common s t = (s1, t1) \<Longrightarrow> length s1 = length s \<Longrightarrow> s1 = s \<and> t1 = t"
  by (induction s t rule: skip_common.induct) (auto split: if_splits dest: skip_common_le)

lemma no_slash [simp]: "char_at (skip_slashes p) 0 \<noteq> slash"
  by (induction p) (auto simp: char_at_def split: if_splits)

lemma more_common_progress:
  assumes "skip_common (skip_slashes s) (skip_slashes t) = (s1, t1)" "more_common s1 t1"
  shows "length s1 + length t1 < length s + length t"
proof (rule ccontr)
  assume "\<not> ?thesis"
  moreover note skip_common_le [OF assms(1)] skip_le(1) [of s] skip_le(1) [of t]
  ultimately have l: "length s1 = length (skip_slashes s)" "length (skip_slashes s) = length s" "length (skip_slashes t) = length t"
    by linarith+
  then have "s1 = skip_slashes s" "t1 = skip_slashes t" using skip_common_same [OF assms(1)] by blast+
  moreover note no_slash
  ultimately have "char_at s1 0 = char_at t1 0" "char_at s1 0 \<noteq> NUL" "char_at s1 0 \<noteq> slash"
    using assms(2) by (auto simp: more_common_def)
  then obtain c s2 t2 where "s1 = c # s2" "t1 = c # t2" "c \<noteq> slash"
    by (cases s1; cases t1) (auto simp: char_at_def)
  with assms(1) skip_common_le [of s2 t2] \<open>s1 = skip_slashes s\<close> \<open>t1 = skip_slashes t\<close> show False by fastforce
qed

function strip_common :: "string \<Rightarrow> string \<Rightarrow> string \<times> string" where
  "strip_common s t =
     (case skip_common (skip_slashes s) (skip_slashes t) of
        (s1, t1) \<Rightarrow> if more_common s1 t1 then strip_common s1 t1 else (skip_slashes s, skip_slashes t))"
  by pat_completeness auto
termination
  by (relation "measure (\<lambda>(s, t). length s + length t)") (auto split: prod.split intro: more_common_progress)

declare strip_common.simps [simp del]

text \<open>The link is rewritten in the buffer when it is absolute, leads to something below the common directory and the result
  fits. What follows the common part is moved to its place, then the way up is written in front of it.\<close>

definition transform_symlink :: "subdir \<Rightarrow> string option \<Rightarrow> carr \<Rightarrow> size_t \<Rightarrow> cerror + carr" where
  "transform_symlink d path buf n =
     cbind (read_cells buf 0 1) (\<lambda>c.
     if c = [None] then Inl Uninit
     else if c \<noteq> [Some slash] \<or> char_at (sd_base d) 0 \<noteq> slash then Inr buf
     else case path of
            None \<Rightarrow> Inl NullDeref
          | Some p \<Rightarrow>
              cbind (cstr buf) (\<lambda>text.
              case strip_common text p of
                (l, p1) \<Rightarrow>
                  if length text - length l < length (sd_base d) then Inr buf
                  else if count_components p1 = 0 then Inr buf
                  else let dotdots = count_components p1 - 1
                       in if unat n < dotdots * 3 + length l + 2 then Inr buf
                          else cbind (memcpy_cells buf (dotdots * 3)
                                        (map Some ((if l \<noteq> [] then l else if dotdots = 0 then ''.'' else []) @ [NUL]))) (\<lambda>b1.
                               memcpy_cells b1 0 (map Some (concat (replicate dotdots ''../''))))))"

section \<open>The operations\<close>

text \<open>What a failed operation leaves in the caller's objects is what was there.\<close>

definition subdir_getattr where
  "subdir_getattr mem d next_fs s path buf fi = below mem d path (\<lambda>e. (e, buf, s)) (\<lambda>p. fuse_fs_getattr next_fs s p buf fi)"

definition subdir_access where
  "subdir_access mem d next_fs s path amode = below mem d path (\<lambda>e. (e, s)) (\<lambda>p. fuse_fs_access next_fs s p amode)"

definition subdir_opendir where
  "subdir_opendir mem d next_fs s path fi = below mem d path (\<lambda>e. (e, fi, s)) (\<lambda>p. fuse_fs_opendir next_fs s p fi)"

definition subdir_readdir where
  "subdir_readdir mem d next_fs s path filler dat off fi flags = below mem d path (\<lambda>e. (e, dat, s)) (\<lambda>p. fuse_fs_readdir next_fs s p filler dat off fi flags)"

definition subdir_releasedir where
  "subdir_releasedir mem d next_fs s path fi = below mem d path (\<lambda>e. (e, s)) (\<lambda>p. fuse_fs_releasedir next_fs s p fi)"

definition subdir_mknod where
  "subdir_mknod mem d next_fs s path mode rdev = below mem d path (\<lambda>e. (e, s)) (\<lambda>p. fuse_fs_mknod next_fs s p mode rdev)"

definition subdir_mkdir where
  "subdir_mkdir mem d next_fs s path mode = below mem d path (\<lambda>e. (e, s)) (\<lambda>p. fuse_fs_mkdir next_fs s p mode)"

definition subdir_unlink where
  "subdir_unlink mem d next_fs s path = below mem d path (\<lambda>e. (e, s)) (\<lambda>p. fuse_fs_unlink next_fs s p)"

definition subdir_rmdir where
  "subdir_rmdir mem d next_fs s path = below mem d path (\<lambda>e. (e, s)) (\<lambda>p. fuse_fs_rmdir next_fs s p)"

definition subdir_symlink where
  "subdir_symlink mem d next_fs s linkname path = below mem d path (\<lambda>e. (e, s)) (\<lambda>p. fuse_fs_symlink next_fs s linkname p)"

definition subdir_rename where
  "subdir_rename mem d next_fs s oldpath newpath flags =
     below mem d oldpath (\<lambda>e. (e, s)) (\<lambda>p. below mem d newpath (\<lambda>e. (e, s)) (\<lambda>q. fuse_fs_rename next_fs s p q flags))"

definition subdir_link where
  "subdir_link mem d next_fs s oldpath newpath =
     below mem d oldpath (\<lambda>e. (e, s)) (\<lambda>p. below mem d newpath (\<lambda>e. (e, s)) (\<lambda>q. fuse_fs_link next_fs s p q))"

definition subdir_chmod where
  "subdir_chmod mem d next_fs s path mode fi = below mem d path (\<lambda>e. (e, s)) (\<lambda>p. fuse_fs_chmod next_fs s p mode fi)"

definition subdir_chown where
  "subdir_chown mem d next_fs s path uid gid fi = below mem d path (\<lambda>e. (e, s)) (\<lambda>p. fuse_fs_chown next_fs s p uid gid fi)"

definition subdir_truncate where
  "subdir_truncate mem d next_fs s path sz fi = below mem d path (\<lambda>e. (e, s)) (\<lambda>p. fuse_fs_truncate next_fs s p sz fi)"

definition subdir_utimens where
  "subdir_utimens mem d next_fs s path ts fi = below mem d path (\<lambda>e. (e, s)) (\<lambda>p. fuse_fs_utimens next_fs s p ts fi)"

definition subdir_create where
  "subdir_create mem d next_fs s path mode fi = below mem d path (\<lambda>e. (e, fi, s)) (\<lambda>p. fuse_fs_create next_fs s p mode fi)"

definition subdir_open where
  "subdir_open mem d next_fs s path fi = below mem d path (\<lambda>e. (e, fi, s)) (\<lambda>p. fuse_fs_open next_fs s p fi)"

definition subdir_statfs where
  "subdir_statfs mem d next_fs s path stbuf = below mem d path (\<lambda>e. (e, stbuf, s)) (\<lambda>p. fuse_fs_statfs next_fs s p stbuf)"

definition subdir_flush where
  "subdir_flush mem d next_fs s path fi = below mem d path (\<lambda>e. (e, s)) (\<lambda>p. fuse_fs_flush next_fs s p fi)"

definition subdir_release where
  "subdir_release mem d next_fs s path fi = below mem d path (\<lambda>e. (e, s)) (\<lambda>p. fuse_fs_release next_fs s p fi)"

definition subdir_fsync where
  "subdir_fsync mem d next_fs s path isdatasync fi = below mem d path (\<lambda>e. (e, s)) (\<lambda>p. fuse_fs_fsync next_fs s p isdatasync fi)"

definition subdir_fsyncdir where
  "subdir_fsyncdir mem d next_fs s path isdatasync fi = below mem d path (\<lambda>e. (e, s)) (\<lambda>p. fuse_fs_fsyncdir next_fs s p isdatasync fi)"

definition subdir_setxattr where
  "subdir_setxattr mem d next_fs s path name val sz flags = below mem d path (\<lambda>e. (e, s)) (\<lambda>p. fuse_fs_setxattr next_fs s p name val sz flags)"

definition subdir_getxattr where
  "subdir_getxattr mem d next_fs s path name sz = below mem d path (\<lambda>e. (e, [], s)) (\<lambda>p. fuse_fs_getxattr next_fs s p name sz)"

definition subdir_listxattr where
  "subdir_listxattr mem d next_fs s path sz = below mem d path (\<lambda>e. (e, [], s)) (\<lambda>p. fuse_fs_listxattr next_fs s p sz)"

definition subdir_removexattr where
  "subdir_removexattr mem d next_fs s path name = below mem d path (\<lambda>e. (e, s)) (\<lambda>p. fuse_fs_removexattr next_fs s p name)"

definition subdir_lock where
  "subdir_lock mem d next_fs s path fi cmd lck = below mem d path (\<lambda>e. (e, lck, s)) (\<lambda>p. fuse_fs_lock next_fs s p fi cmd lck)"

definition subdir_flock where
  "subdir_flock mem d next_fs s path fi op = below mem d path (\<lambda>e. (e, s)) (\<lambda>p. fuse_fs_flock next_fs s p fi op)"

definition subdir_bmap where
  "subdir_bmap mem d next_fs s path blocksize idx = below mem d path (\<lambda>e. (e, idx, s)) (\<lambda>p. fuse_fs_bmap next_fs s p blocksize idx)"

text \<open>The position goes through an \<^verbatim>\<open>int\<close>.\<close>

definition subdir_lseek where
  "subdir_lseek mem d next_fs s path off whence fi =
     below mem d path (\<lambda>e. (e, s)) (\<lambda>p.
       cbind (fuse_fs_lseek next_fs s p off whence fi) (\<lambda>(res, s1). Inr (int_of_ssize res, s1)))"

text \<open>The next file system reads into the caller's block of \<open>n\<close> bytes.\<close>

definition subdir_readlink where
  "subdir_readlink mem d next_fs s path n =
     below mem d path (\<lambda>e. (e, [], s)) (\<lambda>p.
       cbind (fuse_fs_readlink next_fs s p n) (\<lambda>(err, out, s1).
       cbind (memcpy_cells (replicate (unat n) None) 0 out) (\<lambda>buf.
       if err = 0 \<and> sd_rellinks d then cbind (transform_symlink d p buf n) (\<lambda>buf1. Inr (err, buf1, s1))
       else Inr (err, buf, s1))))"

text \<open>Where there is no vector yet, none is returned.\<close>

definition subdir_read_buf where
  "subdir_read_buf mem d next_fs s path sz off fi =
     below mem d path (\<lambda>e. (e, None, s)) (\<lambda>p. fuse_fs_read_buf mem next_fs s p None sz off fi)"

definition subdir_write_buf where
  "subdir_write_buf mem sys d next_fs s path buf off fi =
     below mem d path (\<lambda>e. (e, s)) (\<lambda>p.
       cbind (fuse_fs_write_buf mem sys next_fs s p buf off fi) (\<lambda>(res, s1). Inr (int_of_ssize res, s1)))"

definition subdir_init where
  "subdir_init next_fs s conn cfg = fuse_fs_init next_fs s conn cfg"

definition subdir_destroy where
  "subdir_destroy next_fs s = fuse_fs_destroy next_fs s"

definition subdir_oper ::
    "(nat \<Rightarrow> bool) \<Rightarrow> 's sys \<Rightarrow> subdir \<Rightarrow> ('d, 's) fuse_operations \<Rightarrow> ('d, 's) fuse_operations" where
  "subdir_oper mem sys d next_fs =
     \<lparr>op_getattr = Some (subdir_getattr mem d next_fs),
      op_readlink = Some (subdir_readlink mem d next_fs),
      op_mknod = Some (subdir_mknod mem d next_fs),
      op_mkdir = Some (subdir_mkdir mem d next_fs),
      op_unlink = Some (subdir_unlink mem d next_fs),
      op_rmdir = Some (subdir_rmdir mem d next_fs),
      op_symlink = Some (subdir_symlink mem d next_fs),
      op_rename = Some (subdir_rename mem d next_fs),
      op_link = Some (subdir_link mem d next_fs),
      op_chmod = Some (subdir_chmod mem d next_fs),
      op_chown = Some (subdir_chown mem d next_fs),
      op_truncate = Some (subdir_truncate mem d next_fs),
      op_open = Some (subdir_open mem d next_fs),
      op_read = None,
      op_write = None,
      op_statfs = Some (subdir_statfs mem d next_fs),
      op_flush = Some (subdir_flush mem d next_fs),
      op_release = Some (subdir_release mem d next_fs),
      op_fsync = Some (subdir_fsync mem d next_fs),
      op_setxattr = Some (subdir_setxattr mem d next_fs),
      op_getxattr = Some (subdir_getxattr mem d next_fs),
      op_listxattr = Some (subdir_listxattr mem d next_fs),
      op_removexattr = Some (subdir_removexattr mem d next_fs),
      op_opendir = Some (subdir_opendir mem d next_fs),
      op_readdir = Some (subdir_readdir mem d next_fs),
      op_releasedir = Some (subdir_releasedir mem d next_fs),
      op_fsyncdir = Some (subdir_fsyncdir mem d next_fs),
      op_init = Some (subdir_init next_fs),
      op_destroy = Some (subdir_destroy next_fs),
      op_access = Some (subdir_access mem d next_fs),
      op_create = Some (subdir_create mem d next_fs),
      op_lock = Some (subdir_lock mem d next_fs),
      op_utimens = Some (subdir_utimens mem d next_fs),
      op_bmap = Some (subdir_bmap mem d next_fs),
      op_ioctl = None,
      op_poll = None,
      op_write_buf = Some (subdir_write_buf mem sys d next_fs),
      op_read_buf = Some (subdir_read_buf mem d next_fs),
      op_flock = Some (subdir_flock mem d next_fs),
      op_fallocate = None,
      op_copy_file_range = None,
      op_lseek = Some (subdir_lseek mem d next_fs)\<rparr>"

section \<open>A new module\<close>

text \<open>The options are stored at the offsets of \<^verbatim>\<open>struct subdir\<close>.\<close>

definition subdir_opts :: "fuse_opt list" where
  "subdir_opts =
     [\<lparr>templ = ''-h'', offset = no_offset, opt_value = 0\<rparr>,
      \<lparr>templ = ''--help'', offset = no_offset, opt_value = 0\<rparr>,
      \<lparr>templ = ''subdir=%s'', offset = 0, opt_value = 0\<rparr>,
      \<lparr>templ = ''rellinks'', offset = 16, opt_value = 1\<rparr>,
      \<lparr>templ = ''norellinks'', offset = 16, opt_value = 0\<rparr>]"

definition subdir_opt_proc :: opt_proc where
  "subdir_opt_proc dat arg key outargs = Inr (if key = 0 then -1 else 1, dat, outargs)"

text \<open>The directory ends in a slash, unless it is empty.\<close>

definition subdir_new ::
    "opt_env \<Rightarrow> 's sys \<Rightarrow> fuse_args \<Rightarrow> ('d, 's) fuse_operations list \<Rightarrow>
       cerror + fuse_args \<times> ('d, 's) fuse_operations option" where
  "subdir_new env sys args next_fs =
     (let mem = oe_mem env
      in if \<not> mem 32 then Inr (args, None)
         else cbind (fuse_opt_parse env args (\<lambda>_. None) subdir_opts (Some subdir_opt_proc)) (\<lambda>(res, args1, dat).
           if res = -1 then Inr (args1, None)
           else if length next_fs \<noteq> 1 then Inr (args1, None)
           else case dat 0 of
                  Some (OStr base) \<Rightarrow>
                    let closed = (base = [] \<or> last base = slash)
                    in if \<not> closed \<and> \<not> mem (length base + 2) then Inr (args1, None)
                       else let d = \<lparr>sd_base = (if closed then base else base @ [slash]), sd_rellinks = (dat 16 = Some (OInt 1))\<rparr>
                            in Inr (args1, Some (subdir_oper mem sys d (hd next_fs)))
                | _ \<Rightarrow> Inr (args1, None)))"

section \<open>Names\<close>

lemma path_elements_word:
  "cur @ takeWhile (\<lambda>c. c \<noteq> slash) s \<noteq> [] \<Longrightarrow>
    path_elements cur s = (cur @ takeWhile (\<lambda>c. c \<noteq> slash) s) # path_elements [] (skip_name s)"
  by (induction s arbitrary: cur) auto

abbreviation names :: "string \<Rightarrow> string list" where "names \<equiv> path_elements []"

lemma names_skip [simp]: "names (skip_slashes s) = names s"
  by (induction s) auto

lemma names_head:
  assumes "c \<noteq> slash"
  shows "names (c # s) = takeWhile (\<lambda>c. c \<noteq> slash) (c # s) # names (skip_name s)"
  using path_elements_word [of "[]" "c # s"] assms by simp

lemma names_prefix:
  assumes "u \<noteq> []" "slash \<notin> set u" "s = [] \<or> hd s = slash"
  shows "names (u @ s) = u # names s"
proof -
  have "takeWhile (\<lambda>c. c \<noteq> slash) (u @ s) = u" "skip_name (u @ s) = s"
    using assms(2,3) by (cases s; auto simp: takeWhile_append dropWhile_append)+
  then show ?thesis using path_elements_word [of "[]" "u @ s"] assms(1) by simp
qed

lemma skip_slashes_hd: "skip_slashes p = [] \<or> hd (skip_slashes p) \<noteq> slash"
  using hd_dropWhile [of "\<lambda>c. c = slash" p] by blast

lemma count_from_names: "p = [] \<or> hd p \<noteq> slash \<Longrightarrow> count_from p = length (names p)"
proof (induction p rule: count_from.induct)
  case (2 c p)
  then show ?case using names_head [of c p] skip_slashes_hd [of "skip_name p"] by (auto simp del: path_elements.simps)
qed simp

lemma count_components_names: "count_components p = length (names p)"
  using count_from_names [OF skip_slashes_hd] by (simp add: count_components_def)

section \<open>The common part of two paths\<close>

lemma skip_common_split:
  "skip_common s t = (s1, t1) \<Longrightarrow> \<exists>u. s = u @ s1 \<and> t = u @ t1 \<and> slash \<notin> set u \<and>
    (s1 \<noteq> [] \<and> t1 \<noteq> [] \<and> hd s1 = hd t1 \<longrightarrow> hd s1 = slash)"
proof (induction s t rule: skip_common.induct)
  case (1 c s d t)
  show ?case
  proof (cases "c = d \<and> c \<noteq> slash")
    case True
    then have "skip_common s t = (s1, t1)" using 1(2) by (auto split: if_splits)
    from 1(1) [OF True this] obtain u where "s = u @ s1" "t = u @ t1" "slash \<notin> set u"
      "s1 \<noteq> [] \<and> t1 \<noteq> [] \<and> hd s1 = hd t1 \<longrightarrow> hd s1 = slash"
      by blast
    with True show ?thesis by (intro exI [of _ "c # u"]) auto
  next
    case False
    with 1(2) show ?thesis by (intro exI [of _ "[]"]) auto
  qed
qed auto

lemma char_at_0: "c_string s \<Longrightarrow> char_at s 0 = NUL \<longleftrightarrow> s = []" "s \<noteq> [] \<Longrightarrow> char_at s 0 = hd s"
  by (cases s; auto simp: char_at_def c_string_def)+

lemma c_string_parts: "c_string (u @ s) \<longleftrightarrow> c_string u \<and> c_string s"
  by (auto simp: c_string_def)

lemma c_string_skip: "c_string s \<Longrightarrow> c_string (skip_slashes s)"
  by (auto simp: c_string_def dest: set_dropWhileD)

lemma strip_common_names:
  "strip_common s t = (l, p) \<Longrightarrow> c_string s \<Longrightarrow> c_string t \<Longrightarrow>
    \<exists>common. names s = common @ names l \<and> names t = common @ names p"
proof (induction s t arbitrary: l p rule: strip_common.induct)
  case (1 s t)
  obtain s1 t1 where sc: "skip_common (skip_slashes s) (skip_slashes t) = (s1, t1)" by (cases "skip_common (skip_slashes s) (skip_slashes t)")
  show ?case
  proof (cases "more_common s1 t1")
    case False
    with 1(2) sc show ?thesis by (subst (asm) strip_common.simps) (auto intro: exI [of _ "[]"])
  next
    case True
    obtain u where u: "skip_slashes s = u @ s1" "skip_slashes t = u @ t1" "slash \<notin> set u"
      "s1 \<noteq> [] \<and> t1 \<noteq> [] \<and> hd s1 = hd t1 \<longrightarrow> hd s1 = slash"
      using skip_common_split [OF sc] by blast
    have c: "c_string s1" "c_string t1"
      using c_string_skip [OF 1(3)] c_string_skip [OF 1(4)] u(1,2) by (simp_all add: c_string_parts)
    have ends: "s1 = [] \<or> hd s1 = slash" "t1 = [] \<or> hd t1 = slash" "s1 \<noteq> [] \<or> t1 \<noteq> []"
      using True u(4) char_at_0 [of s1] char_at_0 [of t1] c by (auto simp: more_common_def)
    have "u \<noteq> []" using ends u(1,2) skip_slashes_hd [of s] skip_slashes_hd [of t] by auto
    then have "names s = u # names s1" "names t = u # names t1"
      using names_prefix [OF _ u(3)] ends u(1,2) names_skip by metis+
    moreover obtain common where "names s1 = common @ names l" "names t1 = common @ names p"
      using 1(1) [OF sc [symmetric] True _ c] 1(2) True sc by (subst (asm) strip_common.simps [of s t]) auto
    ultimately show ?thesis by (intro exI [of _ "u # common"]) simp
  qed
qed

text \<open>What is left of a name has no slash in front, and is not longer than what follows a directory both are in.\<close>

lemma strip_common_slash: "strip_common s t = (l, p) \<Longrightarrow> char_at l 0 \<noteq> slash"
proof (induction s t arbitrary: l p rule: strip_common.induct)
  case (1 s t)
  from 1(2) show ?case
    by (subst (asm) strip_common.simps) (use 1(1) in \<open>auto split: prod.splits if_splits\<close>)
qed

lemma strip_common_le: "strip_common s t = (l, p) \<Longrightarrow> length l \<le> length s"
proof (induction s t arbitrary: l p rule: strip_common.induct)
  case (1 s t)
  obtain s1 t1 where sc: "skip_common (skip_slashes s) (skip_slashes t) = (s1, t1)"
    by (cases "skip_common (skip_slashes s) (skip_slashes t)")
  have "length s1 \<le> length s" using skip_common_le [OF sc] skip_le(1) [of s] by simp
  with 1(2) sc 1(1) [OF sc [symmetric]] skip_le(1) [of s] show ?case
    by (subst (asm) strip_common.simps) (fastforce split: if_splits)
qed

lemma strip_common_string: "strip_common s t = (l, p) \<Longrightarrow> c_string s \<Longrightarrow> c_string l"
proof (induction s t arbitrary: l p rule: strip_common.induct)
  case (1 s t)
  obtain s1 t1 where sc: "skip_common (skip_slashes s) (skip_slashes t) = (s1, t1)"
    by (cases "skip_common (skip_slashes s) (skip_slashes t)")
  then have "c_string s1" using skip_common_split [OF sc] c_string_skip [OF 1(3)] by (fastforce simp: c_string_parts c_string_def)
  with 1(2) sc 1(1) [OF sc [symmetric]] c_string_skip [OF 1(3)] show ?case
    by (subst (asm) strip_common.simps) (auto split: if_splits)
qed

lemma skip_same: "slash \<notin> set v \<Longrightarrow> skip_common (v @ slash # s) (v @ slash # t) = (slash # s, slash # t)"
  by (induction v) auto

lemma strip_common_below:
  "strip_common (b @ s) (b @ t) = (l, p) \<Longrightarrow> b = [] \<or> last b = slash \<Longrightarrow> length l \<le> length s"
proof (induction "length b" arbitrary: b rule: less_induct)
  case less
  show ?case
  proof (cases "skip_slashes b")
    case Nil
    then have skip: "skip_slashes (b @ x) = skip_slashes x" for x by (simp add: dropWhile_append)
    have "strip_common (b @ s) (b @ t) = strip_common s t" by (simp only: strip_common.simps [of "b @ s"] strip_common.simps [of s] skip)
    with less(2) strip_common_le show ?thesis by simp
  next
    case (Cons c b1)
    then have skip: "skip_slashes (b @ x) = (c # b1) @ x" for x
      using Cons by (metis append_Cons dropWhile_append1 dropWhile_eq_Nil_conv list.distinct(1))
    have "c \<noteq> slash" using skip_slashes_hd [of b] Cons by simp
    have "last (c # b1) = slash"
      using less(3) Cons by (metis dropWhile.simps(1) last_appendR list.distinct(1) takeWhile_dropWhile_id)
    then have "slash \<in> set (c # b1)" by (metis last_in_set list.distinct(1))
    then obtain v w where vw: "c # b1 = v @ slash # w" "slash \<notin> set v" by (meson split_list_first)
    with \<open>c \<noteq> slash\<close> have "v \<noteq> []" by auto
    have "strip_common (b @ s) (b @ t) = strip_common ((slash # w) @ s) ((slash # w) @ t)"
      using skip_same [OF vw(2)] by (subst strip_common.simps) (simp add: skip vw(1) more_common_def char_at_def)
    moreover have "length (slash # w) < length b"
      using \<open>v \<noteq> []\<close> arg_cong [OF vw(1), of length] skip_le(1) [of b] Cons by (cases v) auto
    moreover have "last (slash # w) = slash" using \<open>last (c # b1) = slash\<close> vw(1) by simp
    ultimately show ?thesis using less(1) [of "slash # w"] less(2) by simp
  qed
qed

section \<open>Where a link leads\<close>

text \<open>From a directory, given by the names on the way from the root: one name further, up, or not at all.\<close>

definition step :: "string list \<Rightarrow> string \<Rightarrow> string list" where
  "step dir nm = (if nm = ''.'' then dir else if nm = ''..'' then butlast dir else dir @ [nm])"

definition leads_to :: "string list \<Rightarrow> string \<Rightarrow> string list" where
  "leads_to dir link = foldl step (if char_at link 0 = slash then [] else dir) (names link)"

definition plain_dir :: "string list \<Rightarrow> bool" where
  "plain_dir dir \<longleftrightarrow> ''.'' \<notin> set dir \<and> ''..'' \<notin> set dir"

lemma steps_down: "plain_dir ns \<Longrightarrow> foldl step dir ns = dir @ ns"
  by (induction ns arbitrary: dir) (auto simp: step_def plain_dir_def)

lemma steps_up: "foldl step (dir @ ns) (replicate (length ns) ''..'') = dir"
  by (induction ns rule: rev_induct) (simp_all add: step_def butlast_append)

lemma names_dotdots: "names (concat (replicate n ''../'') @ l) = replicate n ''..'' @ names l"
  by (induction n) simp_all

text \<open>The rewritten text leads to the same place: up to the common directory, and down from there.\<close>

lemma rewritten_leads:
  assumes "names str = common @ names l" "names p = common @ names p1" "names p = dir @ [nm]" "plain_dir dir" "names p1 \<noteq> []"
    and "char_at str 0 = slash" "char_at l 0 \<noteq> slash"
  defines "new \<equiv> concat (replicate (length (names p1) - 1) ''../'') @ (if l \<noteq> [] then l else if length (names p1) = 1 then ''.'' else [])"
  shows "leads_to dir new = leads_to dir str" "char_at new 0 \<noteq> slash"
proof -
  let ?up = "butlast (names p1)"
  have dir: "dir = common @ ?up" using assms(2,3,5) by (metis butlast_append butlast_snoc)
  then have plain: "plain_dir common" using assms(4) by (simp add: plain_dir_def)
  show not_slash: "char_at new 0 \<noteq> slash"
    using assms(7) by (cases "length (names p1) - 1") (auto simp: new_def char_at_def)
  have "names new = replicate (length ?up) ''..'' @ (if l = [] \<and> length (names p1) = 1 then [''.''] else names l)"
    unfolding new_def by (simp add: names_dotdots)
  moreover have "foldl step common (if l = [] \<and> length (names p1) = 1 then [''.''] else names l) = foldl step common (names l)"
    by (simp add: step_def)
  ultimately have "leads_to dir new = foldl step common (names l)"
    using not_slash by (simp add: leads_to_def dir steps_up del: length_butlast)
  moreover have "leads_to dir str = foldl step common (names l)"
    using steps_down [OF plain, of "[]"] assms(1,6) by (simp add: leads_to_def)
  ultimately show "leads_to dir new = leads_to dir str" by simp
qed

lemma write_link:
  assumes "memcpy_cells buf (length pre) (map Some (l @ [NUL])) = Inr b1" "memcpy_cells b1 0 (map Some pre) = Inr b2"
    and "c_string pre" "c_string l"
  shows "cstr b2 = Inr (pre @ l)"
  using assms by (auto simp: memcpy_cells_Inr cstr_Inr_iff c_string_parts)

text \<open>C23: making a link relative does not change where it leads. When the link of the path \<open>p\<close>, in a directory reached without
  \<^verbatim>\<open>.\<close> and \<^verbatim>\<open>..\<close>, is read through the module, the text in the buffer afterwards leads to the same names from the root as
  the text before; and when both the link and its target are below the module's directory, the target is not below the
  link itself and the buffer has room, the new text is relative, so that it also works where that directory is mounted.\<close>

theorem relative_links_lead_there:
  assumes "c_string p" "names p = dir @ [nm]" "plain_dir dir" "cstr buf = Inr str"
    and "transform_symlink d (Some p) buf n = Inr buf'"
  shows "\<exists>str'. cstr buf' = Inr str' \<and> leads_to dir str' = leads_to dir str \<and>
    (\<forall>s t. str = sd_base d @ s \<and> p = sd_base d @ t \<and> char_at (sd_base d) 0 = slash \<and> last (sd_base d) = slash \<and>
       take (length (names p)) (names str) \<noteq> names p \<and> length str + 3 * length (names p) + 2 \<le> unat n \<longrightarrow> char_at str' 0 \<noteq> slash)"
proof -
  obtain xs where buf: "buf = map Some str @ Some NUL # xs" and str: "c_string str" using assms(4) by (auto simp: cstr_Inr_iff)
  have first: "read_cells buf 0 1 = Inr [Some (char_at str 0)]" by (cases str) (simp_all add: buf read_cells_def char_at_def)
  obtain l p1 where sc: "strip_common str p = (l, p1)" by (cases "strip_common str p")
  obtain common where common: "names str = common @ names l" "names p = common @ names p1"
    using strip_common_names [OF sc str assms(1)] by blast
  define up where "up = concat (replicate (length (names p1) - 1) ''../'')"
  define down where "down = (if l \<noteq> [] then l else if length (names p1) = 1 then ''.'' else [])"
  have down: "(if l \<noteq> [] then l else if length (names p1) - 1 = 0 then ''.'' else []) = down" if "names p1 \<noteq> []"
    using that by (cases "names p1") (simp_all add: down_def)
  have up: "length up = (length (names p1) - 1) * 3" by (simp add: up_def length_concat sum_list_replicate)
  let ?rewrite = "char_at str 0 = slash \<and> char_at (sd_base d) 0 = slash \<and> length (sd_base d) \<le> length str - length l \<and> names p1 \<noteq> [] \<and>
    (length (names p1) - 1) * 3 + length l + 2 \<le> unat n"
  have result: "if ?rewrite then \<exists>b1. memcpy_cells buf (length up) (map Some (down @ [NUL])) = Inr b1 \<and> memcpy_cells b1 0 (map Some up) = Inr buf'
      else buf' = buf"
    using assms(4,5) down unfolding transform_symlink_def first count_components_names up
    by (auto simp: sc cbind_Inr_iff Let_def up_def not_less split: if_splits)
  show ?thesis
  proof (cases ?rewrite)
    case False
    have no: False if "str = sd_base d @ s" "p = sd_base d @ t" "char_at (sd_base d) 0 = slash" "last (sd_base d) = slash"
      "take (length (names p)) (names str) \<noteq> names p" "length str + 3 * length (names p) + 2 \<le> unat n" for s t
    proof -
      have "sd_base d \<noteq> []" using that(3) by (auto simp: char_at_def)
      then have "char_at str 0 = slash" using that(1,3) by (simp add: char_at_def nth_append)
      moreover have "length l \<le> length s" using strip_common_below [of "sd_base d" s t l p1] sc that(1,2,4) by simp
      moreover have "names p1 \<noteq> []" using common that(5) by auto
      ultimately show False using False that(1,3,6) common(2) strip_common_le [OF sc] by auto
    qed
    have "buf' = buf" using False result by presburger
    then have "cstr buf' = Inr str" using assms(4) by simp
    then show ?thesis using no by (intro exI [of _ str]) blast
  next
    case True
    then obtain b1 where b: "memcpy_cells buf (length up) (map Some (down @ [NUL])) = Inr b1" "memcpy_cells b1 0 (map Some up) = Inr buf'"
      using result by auto
    have "c_string l" using strip_common_string [OF sc str] .
    then have "c_string up" "c_string down" by (simp_all add: up_def down_def c_string_def)
    with write_link [OF b] have "cstr buf' = Inr (up @ down)" by simp
    with rewritten_leads [OF common assms(2,3) _ _ strip_common_slash [OF sc]] True show ?thesis by (auto simp: up_def down_def)
  qed
qed

text \<open>A link in \<^verbatim>\<open>/srv/d\<close> to \<^verbatim>\<open>/srv/a\<close>, seen through a module for \<^verbatim>\<open>/srv/\<close>.\<close>

definition sample_subdir :: subdir where
  "sample_subdir = \<lparr>sd_base = ''/srv/'', sd_rellinks = True\<rparr>"

definition sample_target :: carr where
  "sample_target = map Some ''/srv/a'' @ Some NUL # replicate 5 None"

lemma sample_stripped: "strip_common ''/srv/a'' ''/srv/d/x'' = (''a'', ''d/x'')"
  by (simp add: strip_common.simps more_common_def char_at_def)

lemma sample_rewritten:
  "transform_symlink sample_subdir (Some ''/srv/d/x'') sample_target 12 = Inr (map Some ''../a'' @ Some NUL # map Some ''a'' @ Some NUL # replicate 5 None)"
  using cstr_append_NUL [of "''/srv/a''" "replicate 5 None"]
  by (simp add: transform_symlink_def sample_target_def sample_subdir_def sample_stripped c_string_def read_cells_def char_at_def
      count_components_def memcpy_cells_def)

theorem relative_links_lead_there_witness:
  "\<exists>buf'. transform_symlink sample_subdir (Some ''/srv/d/x'') sample_target 12 = Inr buf' \<and> cstr buf' = Inr ''../a'' \<and>
     leads_to [''srv'', ''d''] ''../a'' = leads_to [''srv'', ''d''] ''/srv/a'' \<and> char_at ''../a'' 0 \<noteq> slash"
proof -
  have "c_string ''/srv/d/x''" "names ''/srv/d/x'' = [''srv'', ''d''] @ [''x'']" "plain_dir [''srv'', ''d'']"
    "cstr sample_target = Inr ''/srv/a''"
    by (simp_all add: c_string_def plain_dir_def sample_target_def)
  from relative_links_lead_there [OF this sample_rewritten] sample_rewritten
  have "leads_to [''srv'', ''d''] ''../a'' = leads_to [''srv'', ''d''] ''/srv/a'' \<and>
    (\<forall>s t. ''/srv/a'' = sd_base sample_subdir @ s \<and> ''/srv/d/x'' = sd_base sample_subdir @ t \<and> char_at (sd_base sample_subdir) 0 = slash \<and>
       last (sd_base sample_subdir) = slash \<and> take (length (names ''/srv/d/x'')) (names ''/srv/a'') \<noteq> names ''/srv/d/x'' \<and>
       length ''/srv/a'' + 3 * length (names ''/srv/d/x'') + 2 \<le> unat (12 :: size_t) \<longrightarrow> char_at ''../a'' 0 \<noteq> slash)"
    by simp
  then show ?thesis using sample_rewritten by (simp add: char_at_def)
qed

section \<open>Names below the directory\<close>

text \<open>A path of the kernel starts with a slash, which the directory's own takes the place of.\<close>

lemma subdir_addpath_ok:
  assumes "\<forall>n. mem n" "length (sd_base d) + length p + 2 < 2 ^ 32" "sd_base d \<noteq> []"
  shows "subdir_addpath mem d (Some p) = Inr (Inr (Some (sd_base d @ (if char_at p 0 = slash then tl p else p))))"
proof -
  have "(of_nat (length (sd_base d) + length p) :: 32 word) + 2 = of_nat (length (sd_base d) + length p + 2)" by simp
  then have "unat ((of_nat (length (sd_base d) + length p) :: 32 word) + 2) = length (sd_base d) + length p + 2"
    using assms(2) by (simp only: unsigned_of_nat) (simp add: take_bit_nat_eq_self)
  then show ?thesis using assms(1,3) by (cases p) (auto simp: subdir_addpath_def Let_def)
qed

text \<open>Two modules on top of each other are one for the inner directory in the outer one, when the inner one is not absolute.\<close>

lemma stacked_subdirs:
  assumes "\<forall>n. mem n" "sd_base d1 \<noteq> []" "sd_base d2 \<noteq> []" "char_at (sd_base d1) 0 \<noteq> slash"
    and "length (sd_base d1) + length (sd_base d2) + length p + 2 < 2 ^ 32"
  shows "below mem d1 (Some p) failed (\<lambda>q. below mem d2 q failed k) =
    below mem (d2\<lparr>sd_base := sd_base d2 @ sd_base d1\<rparr>) (Some p) failed k"
  using assms by (cases p) (simp_all add: below_def subdir_addpath_ok char_at_def nth_append)

text \<open>\<^verbatim>\<open>lseek\<close> through the module loses the upper half of a position: the hole at 4 GiB is reported at the start.\<close>

lemma subdir_lseek_truncates:
  assumes "fuse_fs_lseek next_fs s p off whence fi = Inr (0x100000000, s1)" "subdir_addpath mem d path = Inr (Inr p)"
  shows "subdir_lseek mem d next_fs s path off whence fi = Inr (0, s1)"
  using assms by (simp add: subdir_lseek_def below_def int_of_ssize_def)

end
