(* ===== verification/Node_Way.thy ===== *)
theory Node_Way
  imports Node_Tree_Correct
begin

text \<open>
  Every node of a well-formed tree has one way up to the root, or to the node where it is detached. The
  path computed along it leads back to the node.
\<close>

section \<open>The way to the root\<close>

fun climb :: "nat \<Rightarrow> fuse \<Rightarrow> addr \<Rightarrow> addr list" where
  "climb 0 f a = [a]"
| "climb (Suc k) f a = (case n_parent (node_at f a) of None \<Rightarrow> [a] | Some p \<Rightarrow> a # climb k f p)"

definition way :: "fuse \<Rightarrow> addr \<Rightarrow> addr list" where
  "way f a = climb (f_fresh f) f a"

lemma climb_hd [simp]: "hd (climb k f a) = a" "climb k f a \<noteq> []"
  by (cases k; simp split: option.split)+

lemma parent_link:
  assumes "names_ok f S" "S = {}" "a \<in> dom (f_heap f)" "n_parent (node_at f a) = Some p"
  shows "a \<in> elems (f_names f)" "(a, p) \<in> links f" "p \<in> dom (f_heap f)"
    "f_heap f a = Some (node_at f a)" "n_name (node_at f a) \<noteq> None" "n_nodeid (node_at f a) \<noteq> FUSE_ROOT_ID"
proof -
  show el: "a \<in> elems (f_names f)" using unnamed(1) [OF assms(1,3)] assms(2,4) by auto
  obtain n nm q where n: "f_heap f a = Some n" "n_name n = Some nm" "n_parent n = Some q" "f_heap f q \<noteq> None"
    "n_nodeid n \<noteq> FUSE_ROOT_ID" "node_at f a = n" "(a, q) \<in> links f" by (rule named [OF assms(1) el])
  then have "q = p" using assms(4) by simp
  with n show "(a, p) \<in> links f" "p \<in> dom (f_heap f)" "f_heap f a = Some (node_at f a)" "n_name (node_at f a) \<noteq> None"
    "n_nodeid (node_at f a) \<noteq> FUSE_ROOT_ID" by (simp_all add: domIff)
qed

lemma climb_chain:
  assumes "names_ok f {}"
  shows "a \<in> dom (f_heap f) \<Longrightarrow> set (climb k f a) \<subseteq> dom (f_heap f) \<and>
    (\<forall>x \<in> set (climb k f a). (a, x) \<in> (links f)\<^sup>*) \<and> sorted_wrt (\<lambda>x y. (x, y) \<in> (links f)\<^sup>+) (climb k f a) \<and>
    (length (climb k f a) \<le> k \<longrightarrow> lineage f (climb k f a))"
proof (induction k arbitrary: a)
  case (Suc k)
  show ?case
  proof (cases "n_parent (node_at f a)")
    case None
    then show ?thesis using Suc.prems by (auto simp: node_at_def)
  next
    case (Some p)
    note l = parent_link [OF assms refl Suc.prems Some]
    note IH = Suc.IH [OF l(3)]
    obtain bs where bs: "climb k f p = p # bs" by (metis climb_hd list.exhaust_sel)
    show ?thesis using Some IH Suc.prems l(2,4-6)
      by (auto simp: bs intro: rtrancl_into_trancl2 converse_rtrancl_into_rtrancl)
  qed
qed simp

lemma way_ok:
  assumes t: "tree_ok f" and a: "a \<in> dom (f_heap f)"
  shows "lineage f (way f a)" "distinct (way f a)" "length (way f a) \<le> f_fresh f + 1" "hd (way f a) = a"
    "set (way f a) \<subseteq> ancestors f a"
proof -
  note c = climb_chain [OF tree_okD(2) [OF t] a, of "f_fresh f"]
  have "irrefl ((links f)\<^sup>+)" using names_okD(7) [OF tree_okD(2) [OF t]] by (simp add: acyclic_irrefl)
  then show d: "distinct (way f a)"
    using c unfolding way_def distinct_conv_nth sorted_wrt_iff_nth_less
    by (metis irreflD linorder_neqE_nat)
  have "dom (f_heap f) \<subseteq> {..<f_fresh f}" using ids_okD(4) [OF tree_okD(1) [OF t]] by auto
  moreover have "set (way f a) \<subseteq> dom (f_heap f)" using c unfolding way_def by blast
  ultimately have "set (way f a) \<subseteq> {..<f_fresh f}" by blast
  then have len: "length (way f a) \<le> f_fresh f"
    using card_mono [of "{..<f_fresh f}" "set (way f a)"] distinct_card [OF d] by simp
  then show "length (way f a) \<le> f_fresh f + 1" by simp
  show "lineage f (way f a)" using c len by (simp add: way_def)
  show "hd (way f a) = a" by (simp add: way_def)
  show "set (way f a) \<subseteq> ancestors f a" using c by (auto simp: way_def ancestors_def)
qed

section \<open>Paths lead back\<close>

definition plain_name :: "string \<Rightarrow> bool" where
  "plain_name nm \<longleftrightarrow> nm \<noteq> [] \<and> c_string nm \<and> CHR ''/'' \<notin> set nm"

lemma path_elements_plain: "CHR ''/'' \<notin> set nm \<Longrightarrow> path_elements cur nm = (if cur @ nm = [] then [] else [cur @ nm])"
  by (induction nm arbitrary: cur) auto

lemma path_elements_snoc:
  "nm \<noteq> [] \<Longrightarrow> CHR ''/'' \<notin> set nm \<Longrightarrow> path_elements cur (s @ CHR ''/'' # nm) = path_elements cur s @ [nm]"
  by (induction cur s rule: path_elements.induct) (auto simp: path_elements_plain)

lemma walk_names_append:
  "walk_names f ino (es @ [e]) = (case walk_names f ino es of (err, j) \<Rightarrow>
     if err \<noteq> 0 then (err, j) else case find_name f j e of None \<Rightarrow> (- ENOENT, j) | Some a \<Rightarrow> (0, ino_of f a))"
  by (induction es arbitrary: ino) (auto simp: errno_defs split: option.split)

lemma walk_names_path:
  assumes "names_ok f {}"
  shows "lineage f as \<Longrightarrow> ino_of f (last as) = FUSE_ROOT_ID \<Longrightarrow> \<forall>x \<in> set (butlast as). plain_name (name_of f x) \<Longrightarrow>
    walk_names f FUSE_ROOT_ID (path_elements [] (path_of f as)) = (0, ino_of f (hd as))"
proof (induction as)
  case (Cons a as)
  show ?case
  proof (cases as)
    case Nil
    with Cons.prems(2) show ?thesis by simp
  next
    case (Cons b bs)
    then obtain n where n: "f_heap f a = Some n" "n_parent n = Some b" and lin: "lineage f as"
      using Cons.prems(1) by (auto split: option.splits)
    have a: "a \<in> dom (f_heap f)" "n_parent (node_at f a) = Some b" using n by (auto simp: node_at_def)
    have nm: "plain_name (name_of f a)" using Cons.prems(3) Cons by simp
    have "find_name f (ino_of f b) (name_of f a) = Some a"
      using find_name_iff [OF assms] parent_link(1) [OF assms refl a] a(2) by (simp add: parent_ino_def)
    moreover have "walk_names f FUSE_ROOT_ID (path_elements [] (path_of f as)) = (0, ino_of f b)"
      using Cons.IH [OF lin] Cons.prems(2,3) Cons by simp
    moreover have "path_elements [] (path_of f (a # as)) = path_elements [] (path_of f as) @ [name_of f a]"
      using nm Cons by (simp add: path_elements_snoc plain_name_def del: path_elements.simps)
    ultimately show ?thesis by (simp add: walk_names_append del: path_of.simps)
  qed
qed simp

lemma relock_find_name:
  "find_name (update a (\<lambda>n. n\<lparr>n_treelock := h n\<rparr>) f) = find_name f"
  "ino_of (update a (\<lambda>n. n\<lparr>n_treelock := h n\<rparr>) f) = ino_of f"
proof -
  let ?g = "update a (\<lambda>n. n\<lparr>n_treelock := h n\<rparr>) f"
  have "parent_ino ?g = parent_ino f" "name_of ?g = name_of f"
    by (rule ext, simp add: parent_ino_def node_at_relock split: option.split)+
  then show "find_name ?g = find_name f" by (intro ext) (simp add: find_name_def)
  show "ino_of ?g = ino_of f" by (rule ext) simp
qed

lemma fold_lock1_names:
  "find_name (fold lock1 as f) = find_name f" "ino_of (fold lock1 as f) = ino_of f"
  by (induction as arbitrary: f) (simp_all add: lock1_def relock_find_name)

lemma fold_lock1_walk: "walk_names (fold lock1 as f) ino es = walk_names f ino es"
  by (induction es arbitrary: ino) (simp_all add: fold_lock1_names split: option.split)

lemma path_of_plain:
  "as \<noteq> [] \<Longrightarrow> \<forall>x \<in> set (butlast as). plain_name (name_of f x) \<Longrightarrow> c_string (path_of f as)"
  by (induction as) (auto simp: plain_name_def c_string_def)

text \<open>C17: in a well-formed tree, the path of a node leads back to the node: the path computed for a node number
  is found again in the cache, as that number. The node is connected to the root, no node on the way
  is locked for writing, the names on the way are file names (not empty, without slashes and
  zero bytes), the path fits the buffer's largest size, and memory is available.\<close>

theorem path_leads_back:
  assumes "tree_ok f" "\<forall>n. mem n" "find_id f nodeid = Some a" "ino_of f (last (way f a)) = FUSE_ROOT_ID"
    and "\<forall>x \<in> set (way f a). 0 \<le> lock_of f x" "\<forall>x \<in> set (butlast (way f a)). plain_name (name_of f x)"
    and "length (path_of f (way f a)) < UINT_MAX"
  shows "\<exists>path f'. try_get_path mem f nodeid None False True = Inr (0, Some (path, None), f') \<and>
    lookup_path_in_cache mem f' path = (0, Some nodeid)"
proof -
  let ?as = "way f a" and ?f = "fold lock1 (butlast (way f a)) f"
  have a: "a \<in> dom (f_heap f)" "ino_of f a = nodeid"
    using assms(3) find_id_iff [OF tree_okD(1) [OF assms(1)]] by simp_all
  note w = way_ok [OF assms(1) a(1)]
  have ne: "?as \<noteq> []" by (simp add: way_def)
  have node: "get_node f nodeid = Inr (hd ?as)" using assms(3) w(4) by (simp add: get_node_def)
  have no_tail: "path_of f ?as @ tail_text None = path_of f ?as" by (simp add: tail_text_def)
  have text_ok: "c_string (path_of f ?as @ tail_text None)" "length (path_of f ?as @ tail_text None) < UINT_MAX"
    unfolding no_tail using path_of_plain [OF ne assms(6)] assms(7) by blast+
  note got = try_get_path_ok(1) [OF assms(2) node w(1-3) assms(4,5) text_ok, unfolded no_tail]
  let ?p = "if path_of f ?as = [] then ''/'' else path_of f ?as"
  have "walk_names f FUSE_ROOT_ID (path_elements [] ?p) = (0, nodeid)"
    using walk_names_path [OF tree_okD(2) [OF assms(1)] w(1) assms(4,6)] w(4) a(2) by auto
  then have "lookup_path_in_cache mem ?f ?p = (0, Some nodeid)"
    using assms(2) by (simp add: lookup_path_in_cache_def fold_lock1_walk)
  with got show ?thesis by blast
qed

text \<open>A fresh tree with one child \<^verbatim>\<open>x\<close> of the root.\<close>

lemma sample_way:
  obtains a f1 where "find_node (\<lambda>_. True) fresh_tree 1 (Some ''x'') = Inr (Some a, f1)" "tree_ok f1" "a \<noteq> 0"
    "f_heap f1 a \<noteq> None" "f_heap f1 0 \<noteq> None" "find_id f1 (ino_of f1 a) = Some a" "find_id f1 1 = Some 0" "find_name f1 1 ''x'' = Some a"
    "way f1 a = [a, 0]" "way f1 0 = [0]" "ino_of f1 0 = FUSE_ROOT_ID" "lock_of f1 a = 0" "lock_of f1 0 = 0" "name_of f1 a = ''x''"
proof -
  obtain a f1 where a: "find_node (\<lambda>_. True) fresh_tree 1 (Some ''x'') = Inr (Some a, f1)" "tree_ok f1" "dom (f_heap f1) = {a, 0}"
    "find_name f1 1 ''x'' = Some a" "find_id f1 1 = Some 0" "a \<noteq> 0" "n_treelock (node_at f1 a) = 0" "n_treelock (node_at f1 0) = 0"
    by (rule sample_child)
  note fid = find_id_iff [OF tree_okD(1) [OF a(2)]] and nok = tree_okD(2) [OF a(2)]
  have el: "a \<in> elems (f_names f1)" "parent_ino f1 a = 1" "name_of f1 a = ''x''"
    using a(4) find_name_iff [OF nok] by simp_all
  obtain p where p: "n_parent (node_at f1 a) = Some p" "p \<in> dom (f_heap f1)"
    by (rule named [OF nok el(1)]) (auto simp: domIff)
  have root: "ino_of f1 0 = 1" using a(5) fid by simp
  have "ino_of f1 p = 1" using el(2) p(1) by (simp add: parent_ino_def)
  then have par: "n_parent (node_at f1 a) = Some 0" using p fid [of 1 p] a(5) by simp
  have "0 \<notin> elems (f_names f1)" using nok root by (auto simp: names_ok_def FUSE_ROOT_ID_def)
  then have "n_parent (node_at f1 0) = None" using unnamed(1) [OF nok, of 0] a(3) by simp
  then have top: "climb k f1 0 = [0]" for k by (cases k) simp_all
  have "a < f_fresh f1" using ids_okD(4) [OF tree_okD(1) [OF a(2)]] a(3) by simp
  then obtain k where "f_fresh f1 = Suc k" by (cases "f_fresh f1") auto
  then have w: "way f1 a = [a, 0]" "way f1 0 = [0]" using par top by (simp_all add: way_def)
  have live: "f_heap f1 a \<noteq> None" "f_heap f1 0 \<noteq> None" "find_id f1 (ino_of f1 a) = Some a"
    using domIff [of a "f_heap f1"] domIff [of 0 "f_heap f1"] fid [of "ino_of f1 a" a] unfolding a(3) by auto
  show thesis
    by (rule that [of a f1]) (use a w live root el(3) in \<open>simp_all add: lock_of_def FUSE_ROOT_ID_def\<close>)
qed

theorem path_leads_back_witness:
  "\<exists>a f1 path f'. find_node (\<lambda>_. True) fresh_tree 1 (Some ''x'') = Inr (Some a, f1) \<and>
     try_get_path (\<lambda>_. True) f1 (ino_of f1 a) None False True = Inr (0, Some (path, None), f') \<and>
     lookup_path_in_cache (\<lambda>_. True) f' path = (0, Some (ino_of f1 a))"
proof -
  obtain a f1 where a: "find_node (\<lambda>_. True) fresh_tree 1 (Some ''x'') = Inr (Some a, f1)" "tree_ok f1" "a \<noteq> 0"
    "find_id f1 (ino_of f1 a) = Some a" "way f1 a = [a, 0]" "ino_of f1 0 = FUSE_ROOT_ID" "lock_of f1 a = 0" "lock_of f1 0 = 0"
    "name_of f1 a = ''x''" by (rule sample_way)
  have "\<exists>path f'. try_get_path (\<lambda>_. True) f1 (ino_of f1 a) None False True = Inr (0, Some (path, None), f') \<and>
     lookup_path_in_cache (\<lambda>_. True) f' path = (0, Some (ino_of f1 a))"
    by (rule path_leads_back [OF a(2) _ a(4)]) (use a in \<open>simp_all add: plain_name_def c_string_def\<close>)
  with a(1) show ?thesis by blast
qed

end
