(* ===== verification/Node_Queue.thy ===== *)
theory Node_Queue
  imports Node_Way
begin

text \<open>
  Requests that wait in the queue for a node that is locked for writing, and that the release of the lock
  answers all of them.
\<close>

section \<open>Requests that wait for a writer\<close>

text \<open>The requests that ask for a path: number in the queue, node, last component, and the nodes on the
  way to the root.\<close>

type_synonym reader = "nat \<times> fuse_ino_t \<times> string option \<times> addr list"

fun reader_text :: "fuse \<Rightarrow> reader \<Rightarrow> string" where
  "reader_text f (k, ino, name, as) =
     (let t = path_of f as @ tail_text name in if t = [] then ''/'' else t)"

text \<open>A request that could be answered at once: its node is connected to the root and no node on the way is
  locked for writing.\<close>

fun readable :: "fuse \<Rightarrow> reader \<Rightarrow> bool" where
  "readable f (k, ino, name, as) \<longleftrightarrow>
     get_node f ino = Inr (hd as) \<and> lineage f as \<and> distinct as \<and> length as \<le> f_fresh f + 1 \<and>
     ino_of f (last as) = FUSE_ROOT_ID \<and> (\<forall>a \<in> set as. 0 \<le> lock_of f a) \<and>
     c_string (path_of f as @ tail_text name) \<and> length (path_of f as @ tail_text name) < UINT_MAX"

fun below :: "addr \<Rightarrow> reader \<Rightarrow> bool" where
  "below w (k, ino, name, as) \<longleftrightarrow> w \<in> set (butlast as)"

fun waiting_reader :: "reader \<Rightarrow> lock_queue_element" where
  "waiting_reader (k, ino, name, as) =
     \<lparr>q_id = k, q_nodeid1 = ino, q_name1 = name, q_path1 = True, q_wnode1 = False,
      q_nodeid2 = 0, q_name2 = None, q_path2 = False, q_wnode2 = False, q_err = 0,
      q_done = False, q_signals = 0, q_result = []\<rparr>"

definition answered_reader :: "fuse \<Rightarrow> reader \<Rightarrow> lock_queue_element" where
  "answered_reader f r = (waiting_reader r)\<lparr>q_done := True, q_signals := 1, q_result := [(reader_text f r, None)]\<rparr>"

text \<open>The requests come in one after the other, each through \<^verbatim>\<open>get_path_common\<close>.\<close>

fun readers_ask ::
    "(nat \<Rightarrow> bool) \<Rightarrow> fuse \<Rightarrow> reader list \<Rightarrow> cerror + path_reply list \<times> fuse" where
  "readers_ask mem f [] = Inr ([], f)"
| "readers_ask mem f ((k, ino, name, as) # rs) =
     cbind (get_path_common mem f k ino name False) (\<lambda>(r, f1).
     cbind (readers_ask mem f1 rs) (\<lambda>(qs, f2). Inr (r # qs, f2)))"

subsection \<open>What the queue does not change\<close>

lemma lockq_keys [simp]:
  "node_at (f\<lparr>f_lockq := q\<rparr>) = node_at f" "ino_of (f\<lparr>f_lockq := q\<rparr>) = ino_of f"
  "name_of (f\<lparr>f_lockq := q\<rparr>) = name_of f" "lock_of (f\<lparr>f_lockq := q\<rparr>) = lock_of f"
  by (rule ext, simp add: node_at_def ino_of_def name_of_def lock_of_def)+

lemma lockq_get_node [simp]: "get_node (f\<lparr>f_lockq := q\<rparr>) ino = get_node f ino"
  by (simp add: get_node_def find_id_def)

lemma lockq_lineage [simp]: "lineage (f\<lparr>f_lockq := q\<rparr>) as = lineage f as"
  by (induction f as rule: lineage.induct) (auto split: option.splits)

lemma lockq_path_of [simp]: "path_of (f\<lparr>f_lockq := q\<rparr>) as = path_of f as"
  by (induction as) simp_all

lemma lockq_readable [simp]: "readable (f\<lparr>f_lockq := q\<rparr>) r = readable f r"
  by (cases r) simp

lemma lockq_update: "update a g (f\<lparr>f_lockq := q\<rparr>) = (update a g f)\<lparr>f_lockq := q\<rparr>"
  by (simp add: update_def)

lemma lockq_fold_lock1: "fold lock1 as (f\<lparr>f_lockq := q\<rparr>) = (fold lock1 as f)\<lparr>f_lockq := q\<rparr>"
  by (induction as arbitrary: f) (simp_all add: lock1_def lockq_update)

lemma lock1_keys [simp]:
  "ino_of (fold lock1 as f) x = ino_of f x" "path_of (fold lock1 as f) bs = path_of f bs"
  "f_lockq (fold lock1 as f) = f_lockq f"
  by (induction as arbitrary: f) (simp_all add: lock1_def)

lemma lock1_readable:
  assumes "lineage f bs" "distinct bs" "readable f r"
  shows "readable (fold lock1 (butlast bs) f) r"
proof -
  have "\<forall>a \<in> set (butlast bs). f_heap f a \<noteq> None" using lineage_live [OF assms(1)] by (blast dest: in_set_butlastD)
  then have "lock_of f x \<le> lock_of (fold lock1 (butlast bs) f) x" for x
    using fold_lock1_lock_of [of "butlast bs" f x] assms(2) by (simp add: distinct_butlast)
  with assms(3) show ?thesis by (cases r) (auto intro: order_trans)
qed

subsection \<open>The wake-up\<close>

lemma reader_wakes:
  assumes "\<forall>n. mem n" "readable f r"
  obtains bs where "queue_element_wakeup mem f (waiting_reader r) = Inr (answered_reader f r, fold lock1 (butlast bs) f)"
    "lineage f bs" "distinct bs"
proof -
  obtain k ino name as where r: "r = (k, ino, name, as)" by (cases r)
  have ans: "try_get_path mem f ino name False True =
      Inr (0, Some (reader_text f r, None), fold lock1 (butlast as) f)"
    using try_get_path_ok(1) [of mem f ino as name] assms by (simp add: r Let_def)
  show thesis
    by (rule that [of as])
      (use assms ans in \<open>auto simp: r queue_element_wakeup_def answered_reader_def errno_defs\<close>)
qed

lemma readers_wake:
  assumes "\<forall>n. mem n"
  shows "list_all (readable f) rs \<Longrightarrow>
    \<exists>f'. wake_list mem f (map waiting_reader rs) = Inr (map (answered_reader f) rs, f')"
proof (induction rs arbitrary: f)
  case (Cons r rs)
  then have r: "readable f r" by simp
  from reader_wakes [OF assms r] obtain bs where
    w: "queue_element_wakeup mem f (waiting_reader r) = Inr (answered_reader f r, fold lock1 (butlast bs) f)"
      "lineage f bs" "distinct bs" .
  let ?g = "fold lock1 (butlast bs) f"
  have "list_all (readable ?g) rs" using Cons.prems lock1_readable [OF w(2,3)] by (auto simp: list_all_iff)
  with Cons.IH obtain f' where f': "wake_list mem ?g (map waiting_reader rs) = Inr (map (answered_reader ?g) rs, f')"
    by blast
  have "answered_reader ?g x = answered_reader f x" for x
    by (cases x) (simp add: answered_reader_def)
  with w(1) f' show ?case by simp
qed simp

subsection \<open>The writer\<close>

text \<open>A request for a path with a write lock on its last component, when that node is free, is granted at
  once; releasing the path restores the state.\<close>

lemma write_granted:
  assumes mem: "\<forall>n. mem n" and r: "readable f (k, dir, Some nm, ds)"
    and w: "find_name f dir nm = Some w" "lock_of f w = 0" "w \<notin> set ds"
  shows "get_path_wrlock mem f k dir nm = Inr (Answer 0 [(reader_text f (k, dir, Some nm, ds), Some w)],
    fold lock1 (butlast ds) (update w (\<lambda>n. n\<lparr>n_treelock := TREELOCK_WRITE\<rparr>) f))"
proof -
  let ?g = "update w (\<lambda>n. n\<lparr>n_treelock := TREELOCK_WRITE\<rparr>) f" and ?t = "path_of f ds @ tail_text (Some nm)"
  have len: "length (path_of ?g ds) + length (tail_text (Some nm)) + 1 \<le> UINT_MAX" using r by simp
  then have "length (tail_text (Some nm)) + 1 \<le> UINT_MAX" by simp
  from start_buffer [OF mem this] obtain buf s where
    b: "add_name mem (replicate 255 None @ [Some NUL]) 255 nm = Inr (Some (buf, s))"
      "path_at buf s (tail_text (Some nm))" "0 < length buf" by auto
  have g: "get_node ?g dir = Inr (hd ds)" "lineage ?g ds" "distinct ds" "length ds \<le> f_fresh ?g + 1"
    "ino_of ?g (last ds) = FUSE_ROOT_ID" using r by simp_all
  have lock: "0 \<le> lock_of ?g a" if "a \<in> set ds" for a
    using that r w(3) by (auto simp: lock_of_def node_at_relock)
  from path_walk_lineage [OF mem g(2-4) b(2,3) len] obtain i err b' s' where
    p: "path_walk mem True (f_fresh ?g + 1) ?g (hd ds) buf s = Inr (err, fold lock1 (take i ds) ?g, ds ! i, b', s')"
      "i < length ds" "err = 0 \<longrightarrow> i = length ds - 1 \<and> path_at b' s' (path_of ?g ds @ tail_text (Some nm))"
      "err \<noteq> 0 \<longrightarrow> lock_of ?g (ds ! i) < 0 \<or> ino_of ?g (last ds) \<noteq> FUSE_ROOT_ID" by blast
  have err: "err = 0" using p(4) g(5) lock [of "ds ! i"] p(2) by fastforce
  then have "take i ds = butlast ds" "path_at b' s' ?t" using p(3) by (simp_all add: butlast_conv_take)
  moreover have "finish_path b' s' = Inr (if ?t = [] then ''/'' else ?t)"
    using finish_path_ok [OF calculation(2)] r by simp
  moreover have "lock_last f dir nm = Inr (Some w, ?g)" using w(1,2) by (simp add: lock_last_def lock_of_def)
  ultimately have "try_get_path mem f dir (Some nm) True True =
      Inr (0, Some (reader_text f (k, dir, Some nm, ds), Some w), fold lock1 (butlast ds) ?g)"
    using mem b(1) g(1) p(1) err by (simp add: try_get_path_def Let_def del: path_walk.simps)
  then show ?thesis by (simp add: get_path_wrlock_def get_path_common_def errno_defs)
qed

lemma write_released:
  assumes lin: "get_node f dir = Inr (hd ds)" "lineage f ds" "distinct ds" "length ds \<le> f_fresh f + 1"
    and w: "lock_of f w = 0" "f_heap f w \<noteq> None" "w \<notin> set (butlast ds)" "\<forall>a \<in> set (butlast ds). 0 \<le> lock_of f a"
      "ino_of f (last ds) = FUSE_ROOT_ID"
  shows "unlock_path (fold lock1 (butlast ds) (update w (\<lambda>n. n\<lparr>n_treelock := TREELOCK_WRITE\<rparr>) f)) dir (Some w) None = Inr f"
proof -
  let ?g = "fold lock1 (butlast ds) (update w (\<lambda>n. n\<lparr>n_treelock := TREELOCK_WRITE\<rparr>) f)"
  obtain n where n: "f_heap f w = Some n" "n_treelock n = 0" using w(1,2) by (auto simp: lock_of_def node_at_def)
  have d: "deref ?g w = Inr (n\<lparr>n_treelock := TREELOCK_WRITE\<rparr>)"
    using n(1) w(3) by (simp add: deref_def fold_lock1_heap_other heap_update)
  have "update w (\<lambda>n. n\<lparr>n_treelock := 0\<rparr>) ?g = fold lock1 (butlast ds) f"
    using fold_lock1_swap [OF w(3)] n by (simp add: update_update update_id)
  moreover have "unlock_path (fold lock1 (butlast ds) f) dir None None = Inr f"
  proof -
    have k: "length ds - 1 < length ds" using lin(2) by (cases ds) auto
    have "\<forall>i < length ds - 1. 0 \<le> lock_of f (ds ! i)" using w(4) by (metis length_butlast nth_butlast nth_mem)
    from unlock_path_undoes [OF lin(1-3) k lin(4) this, of None] w(5) show ?thesis
      by (simp add: butlast_conv_take)
  qed
  ultimately show ?thesis using d by (simp add: unlock_path_def del: unlock_walk.simps)
qed

subsection \<open>Waiting and release\<close>

text \<open>The state while a node is locked for writing and other requests wait.\<close>

definition held :: "fuse \<Rightarrow> addr list \<Rightarrow> addr \<Rightarrow> lock_queue_element list \<Rightarrow> fuse" where
  "held f ds w q = (fold lock1 (butlast ds) (update w (\<lambda>n. n\<lparr>n_treelock := TREELOCK_WRITE\<rparr>) f))\<lparr>f_lockq := q\<rparr>"

lemma held_keys [simp]:
  "get_node (held f ds w q) ino = get_node f ino" "lineage (held f ds w q) as = lineage f as"
  "f_fresh (held f ds w q) = f_fresh f" "path_of (held f ds w q) as = path_of f as"
  "ino_of (held f ds w q) x = ino_of f x" "f_lockq (held f ds w q) = q"
  by (simp_all add: held_def)

lemma held_write: "w \<notin> set (butlast ds) \<Longrightarrow> f_heap f w \<noteq> None \<Longrightarrow> lock_of (held f ds w q) w = TREELOCK_WRITE"
  by (auto simp: held_def lock_of_def node_at_def fold_lock1_heap_other heap_update)

lemma reader_waits:
  assumes mem: "\<forall>n. mem n" and r: "readable f (k, ino, name, as)" "below w (k, ino, name, as)"
    and w: "lock_of (held f ds w q) w < 0"
  shows "get_path_common mem (held f ds w q) k ino name False =
    Inr (Waiting (waiting_reader (k, ino, name, as)), held f ds w (q @ [waiting_reader (k, ino, name, as)]))"
proof -
  let ?g = "held f ds w q"
  have g: "get_node ?g ino = Inr (hd as)" "lineage ?g as" "distinct as" "length as \<le> f_fresh ?g + 1"
    "length (path_of ?g as) + length (tail_text name) + 1 \<le> UINT_MAX" "ino_of ?g (last as) = FUSE_ROOT_ID"
    using r by simp_all
  from try_get_path_walk [OF mem g(1-5)] obtain i err b s' where
    t: "try_get_path mem ?g ino name False True =
      (if err \<noteq> 0 then Inr (err, None, ?g)
       else cbind (finish_path b s') (\<lambda>path. Inr (0, Some (path, None), fold lock1 (take i as) ?g)))"
      "err = 0 \<longrightarrow> i = length as - 1 \<and> (\<forall>j < i. 0 \<le> lock_of ?g (as ! j))"
      "err \<noteq> 0 \<longrightarrow> err = - EAGAIN \<or> (err = - ESTALE \<and> ino_of ?g (last as) \<noteq> FUSE_ROOT_ID)" by blast
  from r(2) obtain j where j: "j < length as - 1" "as ! j = w"
    by (metis below.simps in_set_conv_nth length_butlast nth_butlast)
  have "err \<noteq> 0" using t(2) j w by fastforce
  with t(3) g(6) have "err = - EAGAIN" by blast
  with t(1) have "try_get_path mem ?g ino name False True = Inr (- EAGAIN, None, ?g)" by (simp add: errno_defs)
  then show ?thesis by (simp add: get_path_common_def queue_path_def held_def Let_def)
qed

lemma readers_wait:
  assumes mem: "\<forall>n. mem n" and w: "\<And>q. lock_of (held f ds w q) w < 0"
  shows "list_all (\<lambda>r. readable f r \<and> below w r) rs \<Longrightarrow>
    readers_ask mem (held f ds w q) rs =
      Inr (map (Waiting \<circ> waiting_reader) rs, held f ds w (q @ map waiting_reader rs))"
proof (induction rs arbitrary: q)
  case (Cons r rs)
  obtain k ino name as where r: "r = (k, ino, name, as)" by (cases r)
  with Cons.prems have "readable f (k, ino, name, as)" "below w (k, ino, name, as)" by simp_all
  from reader_waits [OF mem this w] Cons show ?case by (simp add: r del: waiting_reader.simps)
qed simp


lemma lockq_find_name [simp]: "find_name (f\<lparr>f_lockq := q\<rparr>) = find_name f"
proof -
  have "parent_ino (f\<lparr>f_lockq := q\<rparr>) = parent_ino f" by (rule ext) (simp add: parent_ino_def split: option.split)
  then show ?thesis by (intro ext) (simp add: find_name_def)
qed

text \<open>A node of a well-formed tree that is connected to the root by unlocked nodes can be asked for.\<close>

lemma tree_readable:
  assumes "tree_ok f" "find_id f ino = Some a" "ino_of f (last (way f a)) = FUSE_ROOT_ID" "\<forall>x \<in> set (way f a). 0 \<le> lock_of f x"
    "c_string (path_of f (way f a) @ tail_text name)" "length (path_of f (way f a) @ tail_text name) < UINT_MAX"
  shows "readable f (k, ino, name, way f a)"
proof -
  have "a \<in> dom (f_heap f)" using assms(2) find_id_iff [OF tree_okD(1) [OF assms(1)]] by simp
  from way_ok [OF assms(1) this] assms show ?thesis by (simp add: get_node_def)
qed


end
