(* ===== verification/Fuse_Opt_Safe.thy ===== *)
theory Fuse_Opt_Safe
  imports Fuse_Opt
begin

text \<open>
  Parsing of options never ends in an assertion (\<^verbatim>\<open>fuse-3.17.2/lib/fuse_opt.c\<close>): whatever the arguments are and however
  memory runs out, the parser returns, provided the caller's function does on the options it is called for.
\<close>

definition ends :: "cerror + int \<times> 'c \<Rightarrow> ('c \<Rightarrow> bool) \<Rightarrow> bool" where
  "ends m P \<longleftrightarrow> (\<exists>r c. m = Inr (r, c) \<and> P c)"

lemma ends_Inr [simp]: "ends (Inr (r, c)) P = P c" and ends_Inl [simp]: "\<not> ends (Inl e) P"
  by (simp_all add: ends_def)

lemma ends_cbind:
  assumes "ends m P" "\<And>r c. P c \<Longrightarrow> ends (k (r, c)) Q"
  shows "ends (cbind m k) Q"
  using assms by (auto simp: ends_def)

lemma ends_if: "(b \<Longrightarrow> ends x P) \<Longrightarrow> (\<not> b \<Longrightarrow> ends y P) \<Longrightarrow> ends (if b then x else y) P"
  by simp

text \<open>A vector that the parser is building: allocated, and with the name of the program.\<close>

definition building :: "fuse_args \<Rightarrow> bool" where
  "building args \<longleftrightarrow> fa_allocated args \<and> fa_list args \<noteq> []"

definition safe_proc :: "fuse_opt list \<Rightarrow> opt_proc \<Rightarrow> bool" where
  "safe_proc opts proc \<longleftrightarrow> (\<forall>dat arg key out. building out \<longrightarrow>
     key = FUSE_OPT_KEY_OPT \<or> key = FUSE_OPT_KEY_NONOPT \<or>
       (\<exists>opt \<in> set opts. offset opt = no_offset \<and> opt_value opt = key \<and> match_template (templ opt) arg \<noteq> None) \<longrightarrow>
     (\<exists>r dat1 out1. proc dat arg key out = Inr (r, dat1, out1) \<and> building out1))"

definition safe_ctx :: "fuse_opt list \<Rightarrow> fuse_opt_context \<Rightarrow> bool" where
  "safe_ctx opts ctx \<longleftrightarrow> c_opt ctx = opts \<and> building (c_outargs ctx) \<and>
     (\<forall>proc. c_proc ctx = Some proc \<longrightarrow> safe_proc opts proc)"

definition no_spaces :: "fuse_opt list \<Rightarrow> bool" where
  "no_spaces opts \<longleftrightarrow> (\<forall>opt \<in> set opts. CHR '' '' \<notin> set (templ opt))"

lemma add_arg_safe: "safe_ctx opts ctx \<Longrightarrow> ends (add_arg env ctx arg) (safe_ctx opts)"
  by (auto simp: add_arg_def fuse_opt_add_arg_def safe_ctx_def building_def fa_list_def)

lemma add_opt_safe: "safe_ctx opts ctx \<Longrightarrow> ends (Inr (add_opt env ctx arg)) (safe_ctx opts)"
  by (auto simp: add_opt_def safe_ctx_def split: prod.split)

lemma keep_safe:
  "safe_ctx opts ctx \<Longrightarrow> ends (if is_o then Inr (add_opt env ctx arg) else add_arg env ctx arg) (safe_ctx opts)"
  by (cases is_o) (simp_all only: if_True if_False add_arg_safe add_opt_safe)

lemma call_proc_safe:
  assumes c: "safe_ctx opts ctx" and key: "key = FUSE_OPT_KEY_OPT \<or> key = FUSE_OPT_KEY_NONOPT \<or>
       (\<exists>opt \<in> set opts. offset opt = no_offset \<and> opt_value opt = key \<and> match_template (templ opt) arg \<noteq> None)"
  shows "ends (call_proc env ctx arg key is_o) (safe_ctx opts)"
proof (cases "c_proc ctx")
  case None
  then show ?thesis using c keep_safe [OF c] by (simp add: call_proc_def)
next
  case (Some proc)
  have "safe_proc opts proc" "building (c_outargs ctx)" using c Some by (simp_all add: safe_ctx_def)
  with key obtain r dat out where p: "proc (c_data ctx) arg key (c_outargs ctx) = Inr (r, dat, out)" "building out"
    unfolding safe_proc_def by metis
  have c1: "safe_ctx opts (ctx\<lparr>c_data := dat, c_outargs := out\<rparr>)" using c p(2) by (simp add: safe_ctx_def)
  show ?thesis using Some p(1) c c1 keep_safe [OF c] keep_safe [OF c1] by (simp add: call_proc_def Let_def)
qed

lemma process_opt_safe:
  assumes c: "safe_ctx opts ctx" and opt: "opt \<in> set opts" "match_template (templ opt) arg = Some sep"
  shows "ends (process_opt env ctx opt sep arg is_o) (safe_ctx opts)"
proof -
  have upd: "safe_ctx opts (ctx\<lparr>c_data := dat\<rparr>)" for dat using c by (simp add: safe_ctx_def)
  have "char_at (templ opt) (sep + 1) = CHR ''%''" if "sep \<noteq> 0" "char_at (templ opt) (sep + 1) \<noteq> NUL"
    using opt(2) that by (auto simp: match_template_def Let_def split: option.splits if_splits)
  then have "char_at (drop (sep + 1) (templ opt)) 0 = CHR ''%''" if "sep \<noteq> 0" "char_at (templ opt) (sep + 1) \<noteq> NUL"
    using that by (auto simp: char_at_def split: if_splits)
  then have param: "ends (process_opt_param env (c_data ctx) (offset opt) (drop (sep + 1) (templ opt)) param) (\<lambda>_. True)"
    if "sep \<noteq> 0 \<and> char_at (templ opt) (sep + 1) \<noteq> NUL" for param
    using that by (auto simp: process_opt_param_def split: option.split)
  have stored: "ends (cbind (process_opt_param env (c_data ctx) (offset opt) (drop (sep + 1) (templ opt)) param)
      (\<lambda>(res, dat). Inr (if res = -1 then -1 else 0, ctx\<lparr>c_data := dat\<rparr>))) (safe_ctx opts)"
    if "sep \<noteq> 0 \<and> char_at (templ opt) (sep + 1) \<noteq> NUL" for param
    by (rule ends_cbind [OF param [OF that]]) (simp add: upd)
  have called: "ends (cbind (call_proc env ctx arg (opt_value opt) is_o) (\<lambda>(res, ctx1). Inr (if res = -1 then -1 else 0, ctx1)))
      (safe_ctx opts)" if "offset opt = no_offset"
    by (rule ends_cbind [OF call_proc_safe [OF c]]) (use opt that in auto)
  show ?thesis unfolding process_opt_def Let_def by (intro ends_if called stored) (simp_all add: upd)
qed

lemma find_opt_found: "find_opt opts arg = Some (opt, sep, rest) \<Longrightarrow>
    opt \<in> set opts \<and> match_template (templ opt) arg = Some sep \<and> set rest \<subseteq> set opts"
  by (induction opts) (auto split: option.splits)

lemma no_separate_argument:
  assumes "no_spaces opts" "opt \<in> set opts"
  shows "char_at (templ opt) sep \<noteq> CHR '' ''"
proof -
  have "CHR '' '' \<notin> set (templ opt)" using assms by (simp add: no_spaces_def)
  then show ?thesis by (auto simp: char_at_def dest: nth_mem)
qed

lemma process_matches_safe:
  assumes "no_spaces opts" "safe_ctx opts ctx" "set rest \<subseteq> set opts"
  shows "ends (process_matches env ctx arg is_o rest) (safe_ctx opts)"
  using assms(2-)
proof (induction env ctx arg is_o rest rule: process_matches.induct)
  case (1 env ctx arg is_o rest)
  show ?case
  proof (cases "find_opt rest arg")
    case None
    then show ?thesis using "1.prems" by (subst process_matches.simps) simp
  next
    case (Some t)
    then obtain opt sep more where t: "find_opt rest arg = Some (opt, sep, more)" by (metis prod_cases3)
    from find_opt_found [OF t] "1.prems"(2) have opt: "opt \<in> set opts" "match_template (templ opt) arg = Some sep" "set more \<subseteq> set opts"
      by auto
    let ?step = "if sep \<noteq> 0 \<and> char_at (templ opt) sep = CHR '' '' \<and> char_at arg sep = NUL
      then process_opt_sep_arg env ctx opt sep arg is_o else process_opt env ctx opt sep arg is_o"
    have step: "?step = process_opt env ctx opt sep arg is_o" using no_separate_argument [OF assms(1) opt(1)] by simp
    obtain r ctx1 where s: "process_opt env ctx opt sep arg is_o = Inr (r, ctx1)" "safe_ctx opts ctx1"
      using process_opt_safe [OF "1.prems"(1) opt(1,2), of env is_o] by (auto simp: ends_def)
    have "ends (process_matches env ctx1 arg is_o more) (safe_ctx opts)" if "r \<noteq> -1"
      using "1.IH" [OF t refl refl trans [OF step s(1)] refl that s(2) opt(3)] .
    then show ?thesis using t s step by (subst process_matches.simps) auto
  qed
qed

lemma process_gopt_safe:
  "no_spaces opts \<Longrightarrow> safe_ctx opts ctx \<Longrightarrow> ends (process_gopt env ctx arg is_o) (safe_ctx opts)"
  using process_matches_safe [of opts ctx opts] call_proc_safe [of opts ctx]
  by (auto simp: process_gopt_def safe_ctx_def)

lemma option_group_safe:
  assumes "no_spaces opts"
  shows "safe_ctx opts ctx \<Longrightarrow> ends (process_real_option_group env ctx d s) (safe_ctx opts)"
proof (induction env ctx d s rule: process_real_option_group.induct)
  case (1 env ctx d)
  show ?case unfolding process_real_option_group.simps by (rule ends_cbind [OF process_gopt_safe [OF assms 1]]) simp
next
  case (2 env ctx d c s)
  show ?case
  proof (cases "c = comma")
    case True
    from process_gopt_safe [OF assms "2.prems"] obtain r ctx1 where
      g: "process_gopt env ctx (takeWhile (\<lambda>c. c \<noteq> NUL) d) True = Inr (r, ctx1)" "safe_ctx opts ctx1" unfolding ends_def by metis
    with "2.IH"(1) [OF True g(1) refl] True show ?thesis by simp
  next
    case False
    with "2.prems" "2.IH"(2-4) show ?thesis by (auto split: if_splits)
  qed
qed

lemma next_arg_safe: "safe_ctx opts ctx \<Longrightarrow> next_arg ctx = (r, ctx1) \<Longrightarrow> safe_ctx opts ctx1"
  by (auto simp: next_arg_def safe_ctx_def split: if_splits)

lemma process_one_safe:
  assumes n: "no_spaces opts" and c: "safe_ctx opts ctx"
  shows "ends (process_one env ctx arg) (safe_ctx opts)"
proof -
  have group: "ends (process_option_group env ctx1 g) (safe_ctx opts)" if "safe_ctx opts ctx1" for ctx1 g
    using option_group_safe [OF n that] that by (simp add: process_option_group_def)
  have sep: "ends (cbind (add_arg env ctx ''--'') (\<lambda>(res, ctx1).
             if res = -1 then Inr (-1, ctx1)
             else Inr (0, ctx1\<lparr>c_nonopt := length (fa_list (c_outargs ctx1))\<rparr>))) (safe_ctx opts)"
    by (rule ends_cbind [OF add_arg_safe [OF c]]) (simp add: safe_ctx_def)
  obtain r ctx1 where nx: "next_arg ctx = (r, ctx1)" by (cases "next_arg ctx")
  show ?thesis
    using call_proc_safe [OF c, of FUSE_OPT_KEY_NONOPT] process_gopt_safe [OF n c] group [OF c] group [OF next_arg_safe [OF c nx]]
      next_arg_safe [OF c nx] sep nx
    by (simp add: process_one_def Let_def)
qed

lemma opt_loop_safe:
  assumes n: "no_spaces opts"
  shows "safe_ctx opts ctx \<Longrightarrow> ends (opt_loop env ctx) (safe_ctx opts)"
proof (induction env ctx rule: opt_loop.induct)
  case (1 env ctx)
  show ?case
  proof (cases "c_argctr ctx < length (c_argv ctx)")
    case True
    from process_one_safe [OF n "1.prems"] obtain r ctx1 where
      s: "process_one env ctx (c_argv ctx ! c_argctr ctx) = Inr (r, ctx1)" "safe_ctx opts ctx1" unfolding ends_def by metis
    have "safe_ctx opts (ctx1\<lparr>c_argctr := c_argctr ctx1 + 1\<rparr>)" using s(2) by (simp add: safe_ctx_def)
    with "1.IH" [OF True s(1) refl] s True show ?thesis by (subst opt_loop.simps) auto
  qed (use "1.prems" in \<open>simp add: opt_loop.simps [of env ctx]\<close>)
qed

lemma insert_arg_building:
  assumes "building args" "pos \<le> length (fa_list args)"
  shows "ends (fuse_opt_insert_arg mem args pos arg) (\<lambda>a. building a \<and> length (fa_list args) \<le> length (fa_list a))"
    "fuse_opt_insert_arg mem args pos arg = Inr (r, a) \<Longrightarrow> r \<noteq> -1 \<Longrightarrow> length (fa_list a) = length (fa_list args) + 1"
  using assms by (auto simp: fuse_opt_insert_arg_def fuse_opt_add_arg_def building_def fa_list_def Let_def split: option.splits if_splits)

lemma insert_opts_ends: "safe_ctx opts ctx \<Longrightarrow> ends (insert_opts env ctx) (\<lambda>_. True)"
proof (cases "c_opts ctx")
  case (Some s)
  assume c: "safe_ctx opts ctx"
  then have b: "building (c_outargs ctx)" "1 \<le> length (fa_list (c_outargs ctx))"
    by (auto simp: safe_ctx_def building_def Suc_le_eq)
  from insert_arg_building(1) [OF b, of "oe_mem env" "''-o''"] obtain r1 a1 where
    i1: "fuse_opt_insert_arg (oe_mem env) (c_outargs ctx) 1 ''-o'' = Inr (r1, a1)" "building a1" unfolding ends_def by blast
  have "2 \<le> length (fa_list a1)" if "r1 \<noteq> -1" using insert_arg_building(2) [OF b i1(1) that] b(2) by simp
  then have "ends (fuse_opt_insert_arg (oe_mem env) a1 2 s) (\<lambda>_. True)" if "r1 \<noteq> -1"
    using insert_arg_building(1) [OF i1(2), of 2 "oe_mem env" s] that unfolding ends_def by blast
  then show ?thesis using Some i1(1) by (auto simp: insert_opts_def ends_def)
qed (simp add: insert_opts_def)

lemma fuse_opt_parse_ends:
  assumes n: "no_spaces opts" and p: "\<And>proc. f = Some proc \<Longrightarrow> safe_proc opts proc"
  shows "\<exists>r args1 dat1. fuse_opt_parse env args dat opts f = Inr (r, args1, dat1)"
proof (cases "fa_list args")
  case (Cons prog rest)
  let ?ctx = "\<lparr>c_data = dat, c_opt = opts, c_proc = f, c_argctr = 0, c_argv = fa_list args,
    c_outargs = \<lparr>fa_argv = None, fa_allocated = False\<rparr>, c_opts = None, c_nonopt = 0\<rparr>"
  obtain r0 ctx0 where first: "add_arg env ?ctx prog = Inr (r0, ctx0)" "r0 \<noteq> -1 \<Longrightarrow> safe_ctx opts ctx0"
  proof -
    let ?ctx1 = "?ctx\<lparr>c_outargs := \<lparr>fa_argv = Some [prog], fa_allocated = True\<rparr>\<rparr>"
    have "add_arg env ?ctx prog =
        (if oe_mem env (length prog + 1) \<and> oe_mem env 16 then Inr (0, ?ctx1) else Inr (-1, ?ctx))"
      by (simp add: add_arg_def fuse_opt_add_arg_def) (simp add: fa_list_def)
    moreover have "safe_ctx opts ?ctx1" using p by (simp add: safe_ctx_def building_def) (simp add: fa_list_def)
    ultimately show ?thesis
      using that [of 0 ?ctx1] that [of "-1" ?ctx] by (cases "oe_mem env (length prog + 1) \<and> oe_mem env 16") auto
  qed
  have "ends (opt_parse env ?ctx) (\<lambda>_. True)"
  proof (cases "r0 = -1")
    case True
    then show ?thesis using first(1) Cons by (simp add: opt_parse_def)
  next
    case False
    then have "safe_ctx opts (ctx0\<lparr>c_argctr := 1\<rparr>)" using first(2) by (simp add: safe_ctx_def)
    from opt_loop_safe [OF n this] obtain r1 ctx1 where l: "opt_loop env (ctx0\<lparr>c_argctr := 1\<rparr>) = Inr (r1, ctx1)" "safe_ctx opts ctx1"
      unfolding ends_def by metis
    from insert_opts_ends [OF l(2)] obtain r2 ctx2 where "insert_opts env ctx1 = Inr (r2, ctx2)" unfolding ends_def by metis
    with False l(1) first(1) Cons show ?thesis by (simp add: opt_parse_def)
  qed
  then obtain r ctx1 where "opt_parse env ?ctx = Inr (r, ctx1)" unfolding ends_def by blast
  then show ?thesis using Cons by (simp add: fuse_opt_parse_def Let_def)
qed (simp add: fuse_opt_parse_def)

end
