(* ===== verification/Fuse_Kmount.thy ===== *)
theory Fuse_Kmount
  imports Fuse_Opt_Safe
begin

unbundle bit_operations_syntax

text \<open>
  Mounting (\<^verbatim>\<open>fuse-3.17.2/lib/mount.c\<close>): the options a mount takes, the flags of the kernel, and the system calls
  around \<^verbatim>\<open>mount\<close>, which are parameters.

  \<^verbatim>\<open>struct mount_opts\<close> is the object that the parser stores options in, a map from offsets; what is not set is zero.
\<close>

section \<open>The object of the options\<close>

definition MO_allow_other :: nat where "MO_allow_other = 0"
definition MO_flags :: nat where "MO_flags = 4"
definition MO_auto_unmount :: nat where "MO_auto_unmount = 8"
definition MO_blkdev :: nat where "MO_blkdev = 12"
definition MO_fsname :: nat where "MO_fsname = 16"
definition MO_subtype :: nat where "MO_subtype = 24"
definition MO_subtype_opt :: nat where "MO_subtype_opt = 32"
definition MO_mtab_opts :: nat where "MO_mtab_opts = 40"
definition MO_fusermount_opts :: nat where "MO_fusermount_opts = 48"
definition MO_kernel_opts :: nat where "MO_kernel_opts = 56"
definition MO_max_read :: nat where "MO_max_read = 64"

lemmas mount_offsets = MO_allow_other_def MO_flags_def MO_auto_unmount_def MO_blkdev_def MO_fsname_def MO_subtype_def
  MO_subtype_opt_def MO_mtab_opts_def MO_fusermount_opts_def MO_kernel_opts_def MO_max_read_def

definition int_at :: "opt_data \<Rightarrow> nat \<Rightarrow> int" where
  "int_at dat off = (case dat off of Some (OInt i) \<Rightarrow> i | _ \<Rightarrow> 0)"

definition str_at :: "opt_data \<Rightarrow> nat \<Rightarrow> string option" where
  "str_at dat off = (case dat off of Some (OStr s) \<Rightarrow> Some s | _ \<Rightarrow> None)"

section \<open>Flags of the kernel\<close>

definition MS_RDONLY :: int where "MS_RDONLY = 1"
definition MS_NOSUID :: int where "MS_NOSUID = 2"
definition MS_NODEV :: int where "MS_NODEV = 4"
definition MS_NOEXEC :: int where "MS_NOEXEC = 8"
definition MS_SYNCHRONOUS :: int where "MS_SYNCHRONOUS = 16"
definition MS_DIRSYNC :: int where "MS_DIRSYNC = 128"
definition MS_NOSYMFOLLOW :: int where "MS_NOSYMFOLLOW = 256"
definition MS_NOATIME :: int where "MS_NOATIME = 1024"
definition MS_NODIRATIME :: int where "MS_NODIRATIME = 2048"
definition MS_RELATIME :: int where "MS_RELATIME = 0x200000"
definition MS_STRICTATIME :: int where "MS_STRICTATIME = 0x1000000"

lemmas ms_flags = MS_RDONLY_def MS_NOSUID_def MS_NODEV_def MS_NOEXEC_def MS_SYNCHRONOUS_def MS_DIRSYNC_def
  MS_NOSYMFOLLOW_def MS_NOATIME_def MS_NODIRATIME_def MS_RELATIME_def MS_STRICTATIME_def

definition mount_flags :: "(string \<times> int \<times> bool) list" where
  "mount_flags =
     [(''rw'', MS_RDONLY, False), (''ro'', MS_RDONLY, True), (''suid'', MS_NOSUID, False), (''nosuid'', MS_NOSUID, True),
      (''dev'', MS_NODEV, False), (''nodev'', MS_NODEV, True), (''exec'', MS_NOEXEC, False), (''noexec'', MS_NOEXEC, True),
      (''async'', MS_SYNCHRONOUS, False), (''sync'', MS_SYNCHRONOUS, True), (''noatime'', MS_NOATIME, True),
      (''nodiratime'', MS_NODIRATIME, True), (''norelatime'', MS_RELATIME, False), (''nostrictatime'', MS_STRICTATIME, False),
      (''symfollow'', MS_NOSYMFOLLOW, False), (''nosymfollow'', MS_NOSYMFOLLOW, True), (''dirsync'', MS_DIRSYNC, True)]"

text \<open>A name that is not in the table ends the program.\<close>

definition set_mount_flag :: "string \<Rightarrow> int \<Rightarrow> cerror + int" where
  "set_mount_flag s flags =
     (case find (\<lambda>(opt, flag, on). opt = s) mount_flags of
        None \<Rightarrow> Inl AssertFail
      | Some (opt, flag, on) \<Rightarrow> Inr (if on then flags OR flag else flags AND NOT flag))"

section \<open>The options of a mount\<close>

definition KEY_KERN_FLAG :: int where "KEY_KERN_FLAG = 0"
definition KEY_KERN_OPT :: int where "KEY_KERN_OPT = 1"
definition KEY_FUSERMOUNT_OPT :: int where "KEY_FUSERMOUNT_OPT = 2"
definition KEY_SUBTYPE_OPT :: int where "KEY_SUBTYPE_OPT = 3"
definition KEY_MTAB_OPT :: int where "KEY_MTAB_OPT = 4"
definition KEY_RO :: int where "KEY_RO = 6"

lemmas mount_keys = KEY_KERN_FLAG_def KEY_KERN_OPT_def KEY_FUSERMOUNT_OPT_def KEY_SUBTYPE_OPT_def KEY_MTAB_OPT_def KEY_RO_def

definition FUSE_OPT_KEY :: "string \<Rightarrow> int \<Rightarrow> fuse_opt" where
  "FUSE_OPT_KEY t key = \<lparr>templ = t, offset = no_offset, opt_value = key\<rparr>"

definition FUSE_MOUNT_OPT :: "string \<Rightarrow> nat \<Rightarrow> fuse_opt" where
  "FUSE_MOUNT_OPT t p = \<lparr>templ = t, offset = p, opt_value = 1\<rparr>"

definition fuse_mount_opts :: "fuse_opt list" where
  "fuse_mount_opts =
     [FUSE_MOUNT_OPT ''allow_other'' MO_allow_other, FUSE_MOUNT_OPT ''blkdev'' MO_blkdev,
      FUSE_MOUNT_OPT ''auto_unmount'' MO_auto_unmount, FUSE_MOUNT_OPT ''fsname=%s'' MO_fsname,
      FUSE_MOUNT_OPT ''max_read=%u'' MO_max_read, FUSE_MOUNT_OPT ''subtype=%s'' MO_subtype,
      FUSE_OPT_KEY ''allow_other'' KEY_KERN_OPT, FUSE_OPT_KEY ''auto_unmount'' KEY_FUSERMOUNT_OPT,
      FUSE_OPT_KEY ''blkdev'' KEY_FUSERMOUNT_OPT, FUSE_OPT_KEY ''fsname='' KEY_FUSERMOUNT_OPT,
      FUSE_OPT_KEY ''subtype='' KEY_SUBTYPE_OPT, FUSE_OPT_KEY ''blksize='' KEY_KERN_OPT,
      FUSE_OPT_KEY ''default_permissions'' KEY_KERN_OPT, FUSE_OPT_KEY ''context='' KEY_KERN_OPT,
      FUSE_OPT_KEY ''fscontext='' KEY_KERN_OPT, FUSE_OPT_KEY ''defcontext='' KEY_KERN_OPT,
      FUSE_OPT_KEY ''rootcontext='' KEY_KERN_OPT, FUSE_OPT_KEY ''max_read='' KEY_KERN_OPT,
      FUSE_OPT_KEY ''user='' KEY_MTAB_OPT, FUSE_OPT_KEY ''-n'' KEY_MTAB_OPT, FUSE_OPT_KEY ''-r'' KEY_RO,
      FUSE_OPT_KEY ''ro'' KEY_KERN_FLAG, FUSE_OPT_KEY ''rw'' KEY_KERN_FLAG, FUSE_OPT_KEY ''suid'' KEY_KERN_FLAG,
      FUSE_OPT_KEY ''nosuid'' KEY_KERN_FLAG, FUSE_OPT_KEY ''dev'' KEY_KERN_FLAG, FUSE_OPT_KEY ''nodev'' KEY_KERN_FLAG,
      FUSE_OPT_KEY ''exec'' KEY_KERN_FLAG, FUSE_OPT_KEY ''noexec'' KEY_KERN_FLAG, FUSE_OPT_KEY ''async'' KEY_KERN_FLAG,
      FUSE_OPT_KEY ''sync'' KEY_KERN_FLAG, FUSE_OPT_KEY ''dirsync'' KEY_KERN_FLAG, FUSE_OPT_KEY ''noatime'' KEY_KERN_FLAG,
      FUSE_OPT_KEY ''nodiratime'' KEY_KERN_FLAG, FUSE_OPT_KEY ''nostrictatime'' KEY_KERN_FLAG,
      FUSE_OPT_KEY ''symfollow'' KEY_KERN_FLAG, FUSE_OPT_KEY ''nosymfollow'' KEY_KERN_FLAG]"

text \<open>An option is added to one of the lists of the object.\<close>

definition add_opt_at ::
    "((nat \<Rightarrow> bool) \<Rightarrow> string option \<Rightarrow> string \<Rightarrow> int \<times> string option) \<Rightarrow> (nat \<Rightarrow> bool) \<Rightarrow> nat \<Rightarrow> opt_data \<Rightarrow> string \<Rightarrow> int \<times> opt_data" where
  "add_opt_at add mem off dat arg =
     (case add mem (str_at dat off) arg of (res, s) \<Rightarrow> (res, dat(off := map_option OStr s)))"

definition fuse_mount_opt_proc :: "(nat \<Rightarrow> bool) \<Rightarrow> opt_proc" where
  "fuse_mount_opt_proc mem dat arg key outargs =
     (let keep = (\<lambda>(res, dat1). Inr (res, dat1, outargs))
      in if key = KEY_RO \<or> key = KEY_KERN_FLAG
         then cbind (set_mount_flag (if key = KEY_RO then ''ro'' else arg) (int_at dat MO_flags)) (\<lambda>fl.
              Inr (0, dat(MO_flags \<mapsto> OInt fl), outargs))
         else if key = KEY_KERN_OPT then keep (add_opt_at fuse_opt_add_opt mem MO_kernel_opts dat arg)
         else if key = KEY_FUSERMOUNT_OPT then keep (add_opt_at fuse_opt_add_opt_escaped mem MO_fusermount_opts dat arg)
         else if key = KEY_SUBTYPE_OPT then keep (add_opt_at fuse_opt_add_opt mem MO_subtype_opt dat arg)
         else if key = KEY_MTAB_OPT then keep (add_opt_at fuse_opt_add_opt mem MO_mtab_opts dat arg)
         else if key = FUSE_OPT_KEY_OPT \<and> take 2 arg = ''x-''
         then keep (add_opt_at fuse_opt_add_opt mem MO_mtab_opts dat arg)
         else Inr (1, dat, outargs))"

text \<open>\<open>None\<close>: no memory, or an option with a bad value.\<close>

definition parse_mount_opts :: "opt_env \<Rightarrow> fuse_args option \<Rightarrow> cerror + (opt_data \<times> fuse_args option) option" where
  "parse_mount_opts env args =
     (if \<not> oe_mem env 72 then Inr None
      else let mo = [MO_flags \<mapsto> OInt (MS_NOSUID OR MS_NODEV)]
           in case args of
                None \<Rightarrow> Inr (Some (mo, None))
              | Some a \<Rightarrow>
                  cbind (fuse_opt_parse env a mo fuse_mount_opts (Some (fuse_mount_opt_proc (oe_mem env)))) (\<lambda>(res, a1, mo1).
                  Inr (if res = -1 then None else Some (mo1, Some a1))))"

fun flag_opts :: "(nat \<Rightarrow> bool) \<Rightarrow> int \<Rightarrow> string option \<Rightarrow> (string \<times> int \<times> bool) list \<Rightarrow> int \<times> string option" where
  "flag_opts mem flags opts [] = (0, opts)"
| "flag_opts mem flags opts ((opt, flag, on) # fs) =
     (if on \<and> flags AND flag \<noteq> 0
      then case fuse_opt_add_opt mem opts opt of
             (res, opts1) \<Rightarrow> if res = -1 then (-1, opts1) else flag_opts mem flags opts1 fs
      else flag_opts mem flags opts fs)"

definition get_mnt_flag_opts :: "(nat \<Rightarrow> bool) \<Rightarrow> string option \<Rightarrow> int \<Rightarrow> int \<times> string option" where
  "get_mnt_flag_opts mem opts flags =
     (if flags AND MS_RDONLY = 0
      then case fuse_opt_add_opt mem opts ''rw'' of
             (res, opts1) \<Rightarrow> if res = -1 then (-1, opts1) else flag_opts mem flags opts1 mount_flags
      else flag_opts mem flags opts mount_flags)"

section \<open>Parsing never aborts\<close>

lemma table_opts:
  "FUSE_OPT_KEY t k \<in> set fuse_mount_opts \<Longrightarrow> k = KEY_KERN_FLAG \<Longrightarrow> t \<in> fst ` set mount_flags \<and> strchr t CHR ''='' = None"
  by (auto simp: fuse_mount_opts_def FUSE_OPT_KEY_def FUSE_MOUNT_OPT_def mount_keys mount_offsets no_offset_def mount_flags_def strchr_def)

lemma flag_known: "s \<in> fst ` set mount_flags \<Longrightarrow> \<exists>fl. set_mount_flag s flags = Inr fl"
proof -
  assume "s \<in> fst ` set mount_flags"
  then obtain flag on where "(s, flag, on) \<in> set mount_flags" by auto
  then have "find (\<lambda>(opt, flag, on). opt = s) mount_flags \<noteq> None" unfolding find_None_iff by force
  then show ?thesis by (auto simp: set_mount_flag_def)
qed

lemma no_spaces_mount: "no_spaces fuse_mount_opts"
  by (simp add: no_spaces_def fuse_mount_opts_def FUSE_OPT_KEY_def FUSE_MOUNT_OPT_def)

lemma kern_flag_argument:
  assumes "opt \<in> set fuse_mount_opts" "offset opt = no_offset" "opt_value opt = KEY_KERN_FLAG" "match_template (templ opt) arg \<noteq> None"
  shows "arg \<in> fst ` set mount_flags"
proof -
  have opt: "opt = FUSE_OPT_KEY (templ opt) KEY_KERN_FLAG" using assms(2,3) by (cases opt) (simp add: FUSE_OPT_KEY_def)
  with assms(1) table_opts [of "templ opt" KEY_KERN_FLAG] have t: "templ opt \<in> fst ` set mount_flags" "strchr (templ opt) CHR ''='' = None" by auto
  have "strchr (templ opt) CHR '' '' = None" using no_spaces_mount assms(1) by (auto simp: no_spaces_def strchr_def)
  with assms(4) t(2) have "templ opt = arg" by (simp add: match_template_def split: if_splits)
  with t(1) show ?thesis by simp
qed

lemma known_flag:
  assumes "key = KEY_RO \<or> key = KEY_KERN_FLAG"
    "key = FUSE_OPT_KEY_OPT \<or> key = FUSE_OPT_KEY_NONOPT \<or>
     (\<exists>opt \<in> set fuse_mount_opts. offset opt = no_offset \<and> opt_value opt = key \<and> match_template (templ opt) arg \<noteq> None)"
  shows "\<exists>fl. set_mount_flag (if key = KEY_RO then ''ro'' else arg) flags = Inr fl"
proof (cases "key = KEY_RO")
  case True
  have "''ro'' \<in> fst ` set mount_flags" by (simp add: mount_flags_def)
  from flag_known [OF this] True show ?thesis by simp
next
  case False
  then have key: "key = KEY_KERN_FLAG" using assms(1) by simp
  then have "key \<noteq> FUSE_OPT_KEY_OPT" "key \<noteq> FUSE_OPT_KEY_NONOPT" by (simp_all add: mount_keys opt_keys)
  with assms(2) key obtain opt where "opt \<in> set fuse_mount_opts" "offset opt = no_offset" "opt_value opt = KEY_KERN_FLAG"
    "match_template (templ opt) arg \<noteq> None" by auto
  from flag_known [OF kern_flag_argument [OF this]] False show ?thesis by simp
qed

lemma safe_mount_proc: "safe_proc fuse_mount_opts (fuse_mount_opt_proc mem)"
  unfolding safe_proc_def
proof (intro allI impI)
  fix dat arg key out
  assume b: "building out" and key: "key = FUSE_OPT_KEY_OPT \<or> key = FUSE_OPT_KEY_NONOPT \<or>
    (\<exists>opt \<in> set fuse_mount_opts. offset opt = no_offset \<and> opt_value opt = key \<and> match_template (templ opt) arg \<noteq> None)"
  show "\<exists>r dat1 out1. fuse_mount_opt_proc mem dat arg key out = Inr (r, dat1, out1) \<and> building out1"
  proof (cases "key = KEY_RO \<or> key = KEY_KERN_FLAG")
    case True
    from known_flag [OF True key] obtain fl where
      "set_mount_flag (if key = KEY_RO then ''ro'' else arg) (int_at dat MO_flags) = Inr fl" by blast
    then show ?thesis using True b unfolding fuse_mount_opt_proc_def Let_def by simp
  next
    case False
    then show ?thesis using b unfolding fuse_mount_opt_proc_def Let_def by (simp split: prod.split)
  qed
qed

text \<open>C37: whatever the options are and however memory runs out, reading the options of a mount never aborts: no assertion
  of the parser fails, and every flag of the kernel that the table of options lets through is in the table of flags.\<close>

theorem mount_options_never_abort: "\<exists>r. parse_mount_opts env args = Inr r"
proof -
  have "\<exists>r a1 mo1. fuse_opt_parse env a mo fuse_mount_opts (Some (fuse_mount_opt_proc (oe_mem env))) = Inr (r, a1, mo1)" for a mo
    using fuse_opt_parse_ends [OF no_spaces_mount, of "Some (fuse_mount_opt_proc (oe_mem env))"] safe_mount_proc by auto
  then show ?thesis by (auto simp: parse_mount_opts_def Let_def cbind_Inr_iff split: option.split)
qed

section \<open>Flags survive the trip through the text\<close>

text \<open>A name without an equals sign is matched as a whole.\<close>

lemma match_name:
  assumes "CHR ''='' \<notin> set s" "CHR '' '' \<notin> set t"
  shows "match_template t s = (if t = s then Some 0 else None)"
proof (cases "strchr t CHR ''=''")
  case None
  moreover have "strchr t CHR '' '' = None" using assms(2) by (simp add: strchr_None)
  ultimately show ?thesis unfolding match_template_def Let_def by simp
next
  case (Some i)
  then have i: "i < length t" "t ! i = CHR ''=''" by (auto simp: strchr_Some)
  have "take (i + 1) s \<noteq> take (i + 1) t"
  proof
    assume eq: "take (i + 1) s = take (i + 1) t"
    have "CHR ''='' \<in> set (take (i + 1) t)" using i by (auto simp: in_set_conv_nth intro!: exI [of _ i])
    with eq show False using assms(1) in_set_takeD by metis
  qed
  moreover have "t \<noteq> s" using i assms(1) nth_mem by metis
  ultimately show ?thesis using Some i unfolding match_template_def Let_def by simp
qed

fun find_templ :: "fuse_opt list \<Rightarrow> string \<Rightarrow> (fuse_opt \<times> fuse_opt list) option" where
  "find_templ [] s = None"
| "find_templ (opt # opts) s = (if templ opt = s then Some (opt, opts) else find_templ opts s)"

lemma find_opt_name:
  "no_spaces opts \<Longrightarrow> CHR ''='' \<notin> set s \<Longrightarrow> find_opt opts s = map_option (\<lambda>(opt, rest). (opt, 0, rest)) (find_templ opts s)"
  by (induction opts) (auto simp: no_spaces_def match_name)

definition kern_flag_option :: "string \<Rightarrow> bool" where
  "kern_flag_option s =
     (CHR ''='' \<notin> set s \<and>
      (case find_templ fuse_mount_opts s of
         Some (opt, rest) \<Rightarrow> offset opt = no_offset \<and> opt_value opt = KEY_KERN_FLAG \<and> find_templ rest s = None
       | None \<Rightarrow> False))"

definition printed_flags :: "(string \<times> int) list" where
  "printed_flags = [(''ro'', MS_RDONLY), (''nosuid'', MS_NOSUID), (''nodev'', MS_NODEV), (''noexec'', MS_NOEXEC),
     (''sync'', MS_SYNCHRONOUS), (''noatime'', MS_NOATIME), (''nodiratime'', MS_NODIRATIME), (''nosymfollow'', MS_NOSYMFOLLOW),
     (''dirsync'', MS_DIRSYNC)]"

lemma all_kern_flag_options: "list_all kern_flag_option (''rw'' # map fst printed_flags)"
  by (simp add: kern_flag_option_def printed_flags_def fuse_mount_opts_def FUSE_OPT_KEY_def FUSE_MOUNT_OPT_def)

lemma kern_flag_options: "(s, fl) \<in> set printed_flags \<or> s = ''rw'' \<Longrightarrow> kern_flag_option s"
  using all_kern_flag_options by (auto simp: list_all_iff)

lemma all_printed_flags:
  "list_all (\<lambda>(s, fl). find (\<lambda>(opt, flag, on). opt = s) mount_flags = Some (s, fl, True)) printed_flags"
  by code_simp

lemma set_printed_flag: "(s, fl) \<in> set printed_flags \<Longrightarrow> set_mount_flag s flags = Inr (flags OR fl)"
  using all_printed_flags by (auto simp: list_all_iff set_mount_flag_def)

lemma set_rw: "set_mount_flag ''rw'' flags = Inr (flags AND NOT MS_RDONLY)"
  by (simp add: set_mount_flag_def mount_flags_def)

lemma find_templ_rest: "find_templ opts s = Some (opt, rest) \<Longrightarrow> set rest \<subseteq> set opts"
  by (induction opts) (auto split: if_splits)

definition mount_context :: "opt_env \<Rightarrow> fuse_opt_context \<Rightarrow> int \<Rightarrow> bool" where
  "mount_context env ctx flags \<longleftrightarrow> c_opt ctx = fuse_mount_opts \<and> c_proc ctx = Some (fuse_mount_opt_proc (oe_mem env)) \<and>
     c_data ctx = [MO_flags \<mapsto> OInt flags]"

lemma flag_is_set:
  assumes "mount_context env ctx flags" "kern_flag_option s" "set_mount_flag s flags = Inr fl"
  shows "process_gopt env ctx s True = Inr (0, ctx\<lparr>c_data := [MO_flags \<mapsto> OInt fl]\<rparr>)"
proof -
  obtain opt rest where f: "find_templ fuse_mount_opts s = Some (opt, rest)" "find_templ rest s = None" "CHR ''='' \<notin> set s"
    "offset opt = no_offset" "opt_value opt = KEY_KERN_FLAG"
    using assms(2) by (auto simp: kern_flag_option_def split: option.splits)
  from find_templ_rest [OF f(1)] have "no_spaces rest" using no_spaces_mount by (auto simp: no_spaces_def)
  with f have find: "find_opt fuse_mount_opts s = Some (opt, 0, rest)" "find_opt rest s = None"
    by (simp_all add: find_opt_name no_spaces_mount)
  have "call_proc env ctx s KEY_KERN_FLAG True = Inr (0, ctx\<lparr>c_data := [MO_flags \<mapsto> OInt fl]\<rparr>)"
    using assms(1,3) by (simp add: mount_context_def call_proc_def fuse_mount_opt_proc_def int_at_def mount_keys opt_keys)
  then show ?thesis using assms(1) f(4,5) find
    by (simp add: mount_context_def process_gopt_def process_matches.simps [of env ctx] process_matches.simps [of env _ s True rest]
        process_opt_def)
qed

lemma flags_are_set:
  assumes "set ps \<subseteq> set printed_flags"
  shows "mount_context env ctx flags \<Longrightarrow> process_all env ctx (map fst ps) =
    Inr (0, ctx\<lparr>c_data := [MO_flags \<mapsto> OInt (foldl (\<lambda>f (s, fl). f OR fl) flags ps)]\<rparr>)"
  using assms
proof (induction ps arbitrary: ctx flags)
  case Nil
  then show ?case by (cases ctx) (auto simp: mount_context_def fun_upd_def)
next
  case (Cons p ps)
  obtain s fl where p: "p = (s, fl)" by (cases p)
  then have m: "(s, fl) \<in> set printed_flags" using Cons.prems by simp
  let ?ctx1 = "ctx\<lparr>c_data := [MO_flags \<mapsto> OInt (flags OR fl)]\<rparr>"
  have "process_gopt env ctx s True = Inr (0, ?ctx1)"
    using flag_is_set [OF Cons.prems(1) kern_flag_options set_printed_flag] m by blast
  moreover have "mount_context env ?ctx1 (flags OR fl)" using Cons.prems(1) by (simp add: mount_context_def)
  ultimately show ?case using Cons.IH [of ?ctx1 "flags OR fl"] Cons.prems(2) p by simp
qed

text \<open>The names that are printed for some flags.\<close>

definition names_of :: "int \<Rightarrow> string list" where
  "names_of flags = (if flags AND MS_RDONLY = 0 then [''rw''] else []) @ map fst (filter (\<lambda>(s, fl). flags AND fl \<noteq> 0) printed_flags)"

definition known_flags :: int where
  "known_flags = foldl (\<lambda>f (s, fl). f OR fl) 0 printed_flags"

lemma foldl_flags: "foldl (\<lambda>f (s, fl). f OR fl) acc ps = acc OR foldl (\<lambda>f (s, fl). f OR fl) (0 :: int) ps"
proof (induction ps arbitrary: acc)
  case (Cons p ps)
  obtain s fl where "p = (s, fl)" by (cases p)
  then show ?case using Cons [of "acc OR fl"] Cons [of fl] by (simp add: or.assoc)
qed simp

lemma collected_flags:
  assumes "\<forall>(s, fl) \<in> set ps. \<exists>k. fl = 2 ^ k"
  shows "foldl (\<lambda>f (s, fl). f OR fl) 0 (filter (\<lambda>(s, fl). flags AND fl \<noteq> 0) ps) =
    flags AND foldl (\<lambda>f (s, fl). f OR fl) (0 :: int) ps"
  using assms
proof (induction ps)
  case (Cons p ps)
  obtain s fl where p: "p = (s, fl)" by (cases p)
  with Cons.prems obtain k where k: "fl = 2 ^ k" by auto
  have "flags AND fl = (if bit flags k then fl else 0)" unfolding k by (rule bit_eqI) (auto simp: bit_simps)
  then have "(if flags AND fl \<noteq> 0 then fl else 0) = flags AND fl" by simp
  with Cons p show ?case
    by (simp add: foldl_flags [of fl] bit.conj_disj_distrib split: if_splits)
qed simp

lemma printed_flags_are_bits: "\<forall>(s, fl) \<in> set printed_flags. \<exists>k. fl = 2 ^ k"
proof -
  have "list_all (\<lambda>(s, fl). fl \<in> (\<lambda>k. 2 ^ k) ` {..<12 :: nat}) printed_flags"
    by code_simp
  then show ?thesis by (fastforce simp: list_all_iff)
qed

lemma escape_plain: "comma \<notin> set s \<Longrightarrow> backslash \<notin> set s \<Longrightarrow> escape esc s = s"
  by (induction s) auto

lemma printed_names: "list_all (\<lambda>s. comma \<notin> set s \<and> backslash \<notin> set s \<and> s \<noteq> [] \<and> c_string s) (''rw'' # map fst printed_flags)"
  by (simp add: printed_flags_def c_string_def)

lemma printed_table: "map (\<lambda>(s, fl, on). (s, fl)) (filter (\<lambda>(s, fl, on). on) mount_flags) = printed_flags"
  by (simp add: mount_flags_def printed_flags_def)

lemma add_plain:
  assumes "\<forall>n. mem n" "comma \<notin> set s" "backslash \<notin> set s"
  shows "fuse_opt_add_opt mem opts s = (0, snd (fuse_opt_add_opt_escaped (\<lambda>_. True) opts s))"
  using assms by (simp add: fuse_opt_add_opt_def fuse_opt_add_opt_escaped_def add_opt_common_def escape_plain Let_def)

lemma flag_opts_joined:
  assumes "\<forall>n. mem n" "\<forall>(s, fl, on) \<in> set ts. on \<longrightarrow> comma \<notin> set s \<and> backslash \<notin> set s"
  shows "flag_opts mem flags opts ts = (0, foldl (\<lambda>opts opt. snd (fuse_opt_add_opt_escaped (\<lambda>_. True) opts opt)) opts
    (map fst (filter (\<lambda>(s, fl, on). on \<and> flags AND fl \<noteq> 0) ts)))"
  using assms(2)
proof (induction ts arbitrary: opts)
  case (Cons t ts)
  obtain s fl on where t: "t = (s, fl, on)" by (cases t)
  with Cons add_plain [OF assms(1), of s] show ?case by simp
qed simp

lemma flags_joined:
  assumes "\<forall>n. mem n"
  shows "get_mnt_flag_opts mem None flags = (0, joined (names_of flags))"
proof -
  have on: "map fst (filter (\<lambda>(s, fl, on). on \<and> flags AND fl \<noteq> 0) mount_flags) =
      map fst (filter (\<lambda>(s, fl). flags AND fl \<noteq> 0) printed_flags)"
    unfolding printed_table [symmetric] by (simp add: filter_map comp_def case_prod_unfold conj_commute)
  have "\<forall>(s, fl, on) \<in> set mount_flags. on \<longrightarrow> comma \<notin> set s \<and> backslash \<notin> set s"
    by (simp add: mount_flags_def)
  note joined = flag_opts_joined [OF assms this]
  show ?thesis using add_plain [OF assms, of "''rw''"] by (simp add: get_mnt_flag_opts_def joined on names_of_def joined_def)
qed

lemma names_are_set:
  assumes "mount_context env ctx (MS_NOSUID OR MS_NODEV)" "flags = MS_NOSUID OR MS_NODEV OR (x AND known_flags)"
  shows "process_all env ctx (names_of flags) = Inr (0, ctx\<lparr>c_data := [MO_flags \<mapsto> OInt flags]\<rparr>)"
proof -
  let ?ps = "filter (\<lambda>(s, fl). flags AND fl \<noteq> 0) printed_flags"
  have "foldl (\<lambda>f (s, fl). f OR fl) (MS_NOSUID OR MS_NODEV) ?ps = (MS_NOSUID OR MS_NODEV) OR (flags AND known_flags)"
    using collected_flags [OF printed_flags_are_bits] by (subst foldl_flags) (simp add: known_flags_def)
  also have "\<dots> = flags" unfolding assms(2) by (rule bit_eqI) (auto simp: bit_simps)
  finally have all: "process_all env ctx (map fst ?ps) = Inr (0, ctx\<lparr>c_data := [MO_flags \<mapsto> OInt flags]\<rparr>)"
    using flags_are_set [OF _ assms(1), of ?ps] by auto
  have rw: "process_gopt env ctx ''rw'' True = Inr (0, ctx\<lparr>c_data := [MO_flags \<mapsto> OInt (MS_NOSUID OR MS_NODEV)]\<rparr>)"
    using flag_is_set [OF assms(1) kern_flag_options set_rw] by (simp add: ms_flags)
  have same: "ctx\<lparr>c_data := [MO_flags \<mapsto> OInt (MS_NOSUID OR MS_NODEV)]\<rparr> = ctx"
    using assms(1) by (cases ctx) (auto simp: mount_context_def fun_upd_def)
  show ?thesis using all rw same by (simp add: names_of_def)
qed

lemma parse_group:
  assumes mem: "plenty env"
    and g: "\<And>ctx. mount_context env ctx fl0 \<Longrightarrow> process_real_option_group env ctx [] s = Inr (0, ctx\<lparr>c_data := [MO_flags \<mapsto> OInt fl]\<rparr>)"
  shows "fuse_opt_parse env \<lparr>fa_argv = Some [prog, ''-o'', s], fa_allocated = al\<rparr> [MO_flags \<mapsto> OInt fl0] fuse_mount_opts
      (Some (fuse_mount_opt_proc (oe_mem env))) =
    Inr (0, \<lparr>fa_argv = Some [prog], fa_allocated = True\<rparr>, [MO_flags \<mapsto> OInt fl])"
proof -
  let ?ctx = "\<lambda>dat n out. \<lparr>c_data = dat, c_opt = fuse_mount_opts, c_proc = Some (fuse_mount_opt_proc (oe_mem env)), c_argctr = n,
    c_argv = [prog, ''-o'', s], c_outargs = out, c_opts = None, c_nonopt = 0\<rparr>"
  let ?out = "\<lparr>fa_argv = Some [prog], fa_allocated = True\<rparr>" and ?dat0 = "[MO_flags \<mapsto> OInt fl0]"
  have first: "add_arg env (?ctx ?dat0 0 \<lparr>fa_argv = None, fa_allocated = False\<rparr>) prog = Inr (0, ?ctx ?dat0 0 ?out)"
    using add_arg_plenty [OF mem] by (simp add: out_ok_def fa_list_def)
  have "process_real_option_group env (?ctx ?dat0 2 ?out) [] s = Inr (0, ?ctx [MO_flags \<mapsto> OInt fl] 2 ?out)"
    using g [of "?ctx ?dat0 2 ?out"] by (simp add: mount_context_def)
  then have one: "process_one env (?ctx ?dat0 1 ?out) ''-o'' = Inr (0, ?ctx [MO_flags \<mapsto> OInt fl] 2 ?out)"
    using mem by (simp add: process_one_def process_option_group_def next_arg_def char_at_def plenty_def numeral_2_eq_2)
  have stop: "opt_loop env (?ctx d 3 ?out) = Inr (0, ?ctx d 3 ?out)" for d by (subst opt_loop.simps) simp
  have "opt_loop env (?ctx ?dat0 1 ?out) = Inr (0, ?ctx [MO_flags \<mapsto> OInt fl] 3 ?out)"
    using one stop by (simp add: opt_loop.simps [of env "?ctx ?dat0 (Suc 0) ?out"] numeral_3_eq_3 numeral_2_eq_2)
  then show ?thesis using first
    by (simp add: fuse_opt_parse_def opt_parse_def fa_list_def insert_opts_def drop_separator_def Let_def)
qed



end
