(* ===== verification/Fuse_Kern_Mount.thy ===== *)
theory Fuse_Kern_Mount
  imports Fuse_Kmount Fuse_Loop
begin

unbundle bit_operations_syntax

text \<open>
  Mounting and unmounting (\<^verbatim>\<open>fuse-3.17.2/lib/mount.c\<close>, \<^verbatim>\<open>mount_util.c\<close>, and the mounting of a session in
  \<^verbatim>\<open>fuse_lowlevel.c\<close>): system calls in the order the code makes them.

  The operating system is a parameter that answers a call after everything that was called before. A run leaves the
  calls and their answers behind it; it returns, or the process is gone (it runs another program or has exited), or
  it is still waiting. Log messages are left out, with the look into \<^verbatim>\<open>/proc/filesystems\<close> that only chooses one.
\<close>

section \<open>System calls\<close>

datatype spawn_action = Spawn_open int string | Spawn_close int

datatype syscall =
    Sys_stat string
  | Sys_lstat string
  | Sys_access string
  | Sys_open string
  | Sys_close int
  | Sys_getuid
  | Sys_getgid
  | Sys_geteuid
  | Sys_setuid int
  | Sys_setreuid int int
  | Sys_mount string string string int "string option"
  | Sys_umount2 string int
  | Sys_block_sigchld
  | Sys_restore_signals
  | Sys_fork
  | Sys_execle string "string list"
  | Sys_waitpid int
  | Sys_realpath string
  | Sys_socketpair
  | Sys_setenv string string
  | Sys_posix_spawn bool "spawn_action list" "string list"
  | Sys_recvmsg int
  | Sys_set_cloexec int
  | Sys_getfd int
  | Sys_poll int

text \<open>The result, the error number, what is written through pointers, and a path that is written.\<close>

record answer =
  a_ret :: int
  a_errno :: int
  a_out :: "int list"
  a_path :: string

definition a_nth :: "answer \<Rightarrow> nat \<Rightarrow> int" where
  "a_nth a i = (if i < length (a_out a) then a_out a ! i else 0)"

type_synonym sys_trace = "(syscall \<times> answer) list"

text \<open>The answers, the allocator, and how many interrupted calls in a row are followed.\<close>

record sys_env =
  sy_os :: "sys_trace \<Rightarrow> syscall \<Rightarrow> answer"
  sy_mem :: "nat \<Rightarrow> bool"
  sy_wait :: nat

datatype 'a ending = Returns 'a | Process_gone | Crashes cerror | Keeps_waiting

type_synonym 'a sys_run = "sys_trace \<Rightarrow> 'a ending \<times> sys_trace"

definition give :: "'a \<Rightarrow> 'a sys_run" where
  "give x tr = (Returns x, tr)"

definition ask :: "sys_env \<Rightarrow> syscall \<Rightarrow> answer sys_run" where
  "ask env c tr = (let a = sy_os env tr c in (Returns a, tr @ [(c, a)]))"

definition rbind :: "'a sys_run \<Rightarrow> ('a \<Rightarrow> 'b sys_run) \<Rightarrow> 'b sys_run" where
  "rbind m f tr =
     (case m tr of
        (Returns x, tr1) \<Rightarrow> f x tr1
      | (Process_gone, tr1) \<Rightarrow> (Process_gone, tr1)
      | (Crashes e, tr1) \<Rightarrow> (Crashes e, tr1)
      | (Keeps_waiting, tr1) \<Rightarrow> (Keeps_waiting, tr1))"

definition rdo :: "'a sys_run \<Rightarrow> 'b sys_run \<Rightarrow> 'b sys_run" where
  "rdo m k = rbind m (\<lambda>_. k)"

definition rwhen :: "bool \<Rightarrow> 'a sys_run \<Rightarrow> unit sys_run" where
  "rwhen b m = (if b then rdo m (give ()) else give ())"

section \<open>Numbers as text\<close>

fun digits :: "nat \<Rightarrow> nat \<Rightarrow> string" where
  "digits b n =
     (if b < 2 \<or> n < b then [''0123456789'' ! n] else digits b (n div b) @ [''0123456789'' ! (n mod b)])"

declare digits.simps [simp del]

definition int_text :: "int \<Rightarrow> string" where
  "int_text i = (if i < 0 then CHR ''-'' # digits 10 (nat (- i)) else digits 10 (nat i))"

definition unsigned_text :: "nat \<Rightarrow> int \<Rightarrow> string" where
  "unsigned_text b i = digits b (nat (i mod 2 ^ 32))"

definition snprintf :: "nat \<Rightarrow> string \<Rightarrow> string" where
  "snprintf n s = take (n - 1) s"

text \<open>A string is written to an allocated block.\<close>

definition write_string :: "nat \<Rightarrow> string \<Rightarrow> string sys_run" where
  "write_string n s tr = (if length s < n then (Returns s, tr) else (Crashes OutOfBounds, tr))"

section \<open>The table of mounts\<close>

definition EROFS :: int where "EROFS = 30"

definition PATH_MOUNTED :: string where "PATH_MOUNTED = ''/etc/mtab''"

definition mtab_needs_update :: "sys_env \<Rightarrow> string \<Rightarrow> bool sys_run" where
  "mtab_needs_update env mnt =
     (if take (length mnt) PATH_MOUNTED = mnt \<and> char_at PATH_MOUNTED (length mnt) = CHR ''/'' then give False
      else rbind (ask env (Sys_lstat PATH_MOUNTED)) (\<lambda>l.
        if a_ret l = -1 then give (a_errno l \<noteq> ENOENT)
        else rbind (ask env Sys_getuid) (\<lambda>u.
          let ruid = a_ret u
          in rdo (rwhen (ruid \<noteq> 0) (ask env (Sys_setreuid 0 (-1))))
               (rbind (ask env (Sys_access PATH_MOUNTED)) (\<lambda>acc.
                rdo (rwhen (ruid \<noteq> 0) (ask env (Sys_setreuid ruid (-1))))
                 (give (\<not> (a_ret acc = -1 \<and> a_errno acc = EROFS))))))))"

text \<open>A program is run in a child process and waited for. The child that may not change its user comes back as
  a second process with the result of the caller.\<close>

definition run_child :: "sys_env \<Rightarrow> string list \<Rightarrow> int sys_run" where
  "run_child env argv =
     rbind (ask env Sys_block_sigchld) (\<lambda>b.
       if a_ret b = -1 then give (-1)
       else rbind (ask env Sys_fork) (\<lambda>f.
         if a_ret f = -1 then rdo (ask env Sys_restore_signals) (give (-1))
         else if a_ret f = 0
         then rdo (ask env Sys_restore_signals)
               (rbind (ask env Sys_geteuid) (\<lambda>e.
                rbind (ask env (Sys_setuid (a_ret e))) (\<lambda>s.
                  if a_ret s = -1 then rdo (ask env Sys_restore_signals) (give (-1))
                  else rdo (ask env (Sys_execle (hd argv) argv)) (\<lambda>tr. (Process_gone, tr)))))
         else rbind (ask env (Sys_waitpid (a_ret f))) (\<lambda>w.
           rdo (ask env Sys_restore_signals)
            (give (if a_ret w = -1 \<or> a_nth w 0 \<noteq> 0 then -1 else a_ret w)))))"

definition add_mount :: "sys_env \<Rightarrow> string \<Rightarrow> string \<Rightarrow> string \<Rightarrow> string \<Rightarrow> int sys_run" where
  "add_mount env fsname mnt type opts =
     run_child env [''/bin/mount'', ''--no-canonicalize'', ''-i'', ''-f'', ''-t'', type, ''-o'', opts, fsname, mnt]"

definition fuse_mnt_add_mount :: "sys_env \<Rightarrow> string \<Rightarrow> string \<Rightarrow> string \<Rightarrow> string \<Rightarrow> int sys_run" where
  "fuse_mnt_add_mount env fsname mnt type opts =
     rbind (mtab_needs_update env mnt) (\<lambda>needs. if \<not> needs then give 0 else add_mount env fsname mnt type opts)"

definition exec_umount :: "sys_env \<Rightarrow> string \<Rightarrow> bool \<Rightarrow> int sys_run" where
  "exec_umount env rel_mnt lazy =
     run_child env ([''/bin/umount'', ''-i'', rel_mnt] @ (if lazy then [''-l''] else []))"

definition fuse_mnt_umount :: "sys_env \<Rightarrow> string \<Rightarrow> string \<Rightarrow> bool \<Rightarrow> int sys_run" where
  "fuse_mnt_umount env abs_mnt rel_mnt lazy =
     rbind (mtab_needs_update env abs_mnt) (\<lambda>needs.
       if \<not> needs then rbind (ask env (Sys_umount2 rel_mnt (if lazy then 2 else 0))) (\<lambda>u. give (a_ret u))
       else exec_umount env rel_mnt lazy)"

definition remove_mount :: "sys_env \<Rightarrow> string \<Rightarrow> int sys_run" where
  "remove_mount env mnt = run_child env [''/bin/umount'', ''--no-canonicalize'', ''-i'', ''--fake'', mnt]"

definition fuse_mnt_remove_mount :: "sys_env \<Rightarrow> string \<Rightarrow> int sys_run" where
  "fuse_mnt_remove_mount env mnt =
     rbind (mtab_needs_update env mnt) (\<lambda>needs. if \<not> needs then give 0 else remove_mount env mnt)"

section \<open>The path of a mount point\<close>

text \<open>What the system resolves, and the last name, which it does not: it may be the root of a file system that is
  not answering.\<close>

definition without_slashes :: "string \<Rightarrow> string" where
  "without_slashes s = hd s # rev (dropWhile (\<lambda>c. c = CHR ''/'') (rev (tl s)))"

definition mount_point_parts :: "string \<Rightarrow> string \<times> string option" where
  "mount_point_parts orig =
     (let copy = without_slashes orig
      in if last copy = CHR ''/'' then (orig, None)
         else let (lastcomp, toresolv) =
                (case strrchr copy CHR ''/'' of
                   None \<Rightarrow> (copy, ''.'')
                 | Some i \<Rightarrow> (drop (i + 1) copy, if i = 0 then ''/'' else take i copy))
              in if lastcomp = ''.'' \<or> lastcomp = ''..'' then (copy, None) else (toresolv, Some lastcomp))"

definition fuse_mnt_resolve_path :: "sys_env \<Rightarrow> string \<Rightarrow> string option sys_run" where
  "fuse_mnt_resolve_path env orig =
     (if char_at orig 0 = NUL then give None
      else if \<not> sy_mem env (length orig + 1) then give None
      else case mount_point_parts orig of (toresolv, lastcomp) \<Rightarrow>
        rbind (ask env (Sys_realpath toresolv)) (\<lambda>r.
          if a_ret r = -1 then give None
          else let buf = a_path r
               in case lastcomp of
                    None \<Rightarrow> give (if sy_mem env (length buf + 1) then Some buf else None)
                  | Some l \<Rightarrow>
                      give (if \<not> sy_mem env (length buf + 1 + length l + 1) then None
                            else if buf \<noteq> [] \<and> last buf = CHR ''/'' then Some (buf @ l)
                            else Some (buf @ CHR ''/'' # l))))"

section \<open>The kernel mounts\<close>

definition DEVNULL :: string where "DEVNULL = ''/dev/null''"
definition DEVNAME :: string where "DEVNAME = ''/dev/fuse''"
definition S_IFMT_bits :: int where "S_IFMT_bits = 61440"

definition close_device :: "sys_env \<Rightarrow> int \<Rightarrow> int \<Rightarrow> opt_data \<Rightarrow> (int \<times> opt_data) sys_run" where
  "close_device env fd res mo = rdo (ask env (Sys_close fd)) (give (res, mo))"

definition mount_text :: "opt_data \<Rightarrow> string" where
  "mount_text mo = (if int_at mo MO_blkdev \<noteq> 0 then ''fuseblk'' else ''fuse'')"

text \<open>The type and the source of a mount, in blocks of the size the code computes.\<close>

definition type_size :: "opt_data \<Rightarrow> nat" where
  "type_size mo = (case str_at mo MO_subtype of None \<Rightarrow> 0 | Some s \<Rightarrow> length s) + 32"

definition source_size :: "opt_data \<Rightarrow> nat" where
  "source_size mo = (case str_at mo MO_fsname of None \<Rightarrow> 0 | Some s \<Rightarrow> length s) +
     (case str_at mo MO_subtype of None \<Rightarrow> 0 | Some s \<Rightarrow> length s) + length DEVNAME + 32"

definition write_type :: "opt_data \<Rightarrow> string sys_run" where
  "write_type mo =
     rbind (write_string (type_size mo) (mount_text mo)) (\<lambda>type.
       case str_at mo MO_subtype of
         None \<Rightarrow> give type
       | Some s \<Rightarrow> rbind (write_string (type_size mo) (type @ ''.'')) (\<lambda>type1. write_string (type_size mo) (type1 @ s)))"

definition write_source :: "opt_data \<Rightarrow> string sys_run" where
  "write_source mo = write_string (source_size mo)
     (case str_at mo MO_fsname of Some s \<Rightarrow> s | None \<Rightarrow> (case str_at mo MO_subtype of Some s \<Rightarrow> s | None \<Rightarrow> DEVNAME))"

definition source_without_subtype :: "opt_data \<Rightarrow> string \<Rightarrow> string \<Rightarrow> string \<Rightarrow> string sys_run" where
  "source_without_subtype mo subtype source type =
     (case str_at mo MO_fsname of
        None \<Rightarrow> write_string (source_size mo) type
      | Some s \<Rightarrow> if int_at mo MO_blkdev \<noteq> 0 then give source
                  else write_string (source_size mo) (subtype @ CHR ''#'' # s))"

text \<open>The call, and once more without the subtype where the kernel does not know it: the answer, and source and type.\<close>

definition mount_call :: "sys_env \<Rightarrow> string \<Rightarrow> opt_data \<Rightarrow> (answer \<times> string \<times> string) sys_run" where
  "mount_call env mnt mo =
     rbind (write_type mo) (\<lambda>type.
     rbind (write_source mo) (\<lambda>source.
     rbind (ask env (Sys_mount source mnt type (int_at mo MO_flags) (str_at mo MO_kernel_opts))) (\<lambda>r.
       case str_at mo MO_subtype of
         Some subtype \<Rightarrow>
           if a_ret r = -1 \<and> a_errno r = ENODEV
           then rbind (write_string (type_size mo) (mount_text mo)) (\<lambda>type1.
                rbind (source_without_subtype mo subtype source type1) (\<lambda>source1.
                rbind (ask env (Sys_mount source1 mnt type1 (int_at mo MO_flags) (str_at mo MO_kernel_opts))) (\<lambda>r1.
                  give (r1, source1, type1))))
           else give (r, source, type)
       | None \<Rightarrow> give (r, source, type))))"

text \<open>The entry in the table of mounts, which only root writes.\<close>

definition record_mount :: "sys_env \<Rightarrow> string \<Rightarrow> string \<Rightarrow> string \<Rightarrow> string \<Rightarrow> bool sys_run" where
  "record_mount env mnt source type mnt_opts =
     rbind (ask env Sys_geteuid) (\<lambda>e.
       if a_ret e \<noteq> 0 then give True
       else rbind (fuse_mnt_resolve_path env mnt) (\<lambda>newmnt.
         case newmnt of
           None \<Rightarrow> give False
         | Some m \<Rightarrow> rbind (fuse_mnt_add_mount env source m type mnt_opts) (\<lambda>r. give (r \<noteq> -1))))"

definition device_options :: "int \<Rightarrow> int \<Rightarrow> int \<Rightarrow> int \<Rightarrow> string" where
  "device_options fd mode uid gid = snprintf 128
     (''fd='' @ int_text fd @ '',rootmode='' @ unsigned_text 8 (mode AND S_IFMT_bits) @
      '',user_id='' @ unsigned_text 10 uid @ '',group_id='' @ unsigned_text 10 gid)"

text \<open>With the device open; where memory is missing for the source or the type, the result is that of adding the option.\<close>

definition mount_device :: "sys_env \<Rightarrow> string \<Rightarrow> opt_data \<Rightarrow> string \<Rightarrow> string \<Rightarrow> int \<Rightarrow> (int \<times> opt_data) sys_run" where
  "mount_device env mnt mo tmp mnt_opts fd =
     (case add_opt_at fuse_opt_add_opt (sy_mem env) MO_kernel_opts mo tmp of
        (res, mo1) \<Rightarrow>
          if res = -1 then close_device env fd (-1) mo1
          else if \<not> sy_mem env (source_size mo1) \<or> \<not> sy_mem env (type_size mo1) then close_device env fd res mo1
          else rbind (mount_call env mnt mo1) (\<lambda>(r, source, type).
            if a_ret r = -1 then close_device env fd (if a_errno r = EPERM then -2 else -1) mo1
            else rbind (record_mount env mnt source type mnt_opts) (\<lambda>recorded.
              if recorded then give (fd, mo1)
              else rdo (ask env (Sys_umount2 mnt 2)) (close_device env fd (-1) mo1))))"

definition fuse_mount_sys :: "sys_env \<Rightarrow> string option \<Rightarrow> opt_data \<Rightarrow> string \<Rightarrow> (int \<times> opt_data) sys_run" where
  "fuse_mount_sys env mountpoint mo mnt_opts =
     (case mountpoint of
        None \<Rightarrow> give (-1, mo)
      | Some mnt \<Rightarrow>
          rbind (ask env (Sys_stat mnt)) (\<lambda>st.
          if a_ret st = -1 then give (-1, mo)
          else rbind (ask env (Sys_open DEVNAME)) (\<lambda>dev.
          if a_ret dev = -1 then give (-1, mo)
          else rbind (ask env Sys_getuid) (\<lambda>u.
          rbind (ask env Sys_getgid) (\<lambda>g.
          mount_device env mnt mo (device_options (a_ret dev) (a_nth st 0) (a_ret u) (a_ret g)) mnt_opts (a_ret dev))))))"

section \<open>The helper program mounts\<close>

definition FUSERMOUNT_PROG :: string where "FUSERMOUNT_PROG = ''fusermount3''"
definition FUSE_COMMFD_ENV :: string where "FUSE_COMMFD_ENV = ''_FUSE_COMMFD''"
definition FUSE_COMMFD2_ENV :: string where "FUSE_COMMFD2_ENV = ''_FUSE_COMMFD2''"
definition SCM_RIGHTS :: int where "SCM_RIGHTS = 1"

text \<open>First the path it was installed to, then the search path of the system. With a result the number of the process is
  left to the caller, otherwise it is waited for.\<close>

definition fusermount_posix_spawn :: "sys_env \<Rightarrow> spawn_action list \<Rightarrow> string list \<Rightarrow> bool \<Rightarrow> (int \<times> int) sys_run" where
  "fusermount_posix_spawn env action argv out_pid =
     rbind (ask env (Sys_posix_spawn True action argv)) (\<lambda>s1.
     rbind (if a_ret s1 \<noteq> 0 then ask env (Sys_posix_spawn False action argv) else give s1) (\<lambda>s.
       if a_ret s \<noteq> 0 then give (- a_ret s, 0)
       else if out_pid then give (0, a_nth s 0)
       else rdo (ask env (Sys_waitpid (a_nth s 0))) (give (0, 0))))"

text \<open>The descriptor that the helper sends; a message without one has no control header.\<close>

fun receive_fd :: "sys_env \<Rightarrow> nat \<Rightarrow> int \<Rightarrow> int sys_run" where
  "receive_fd env 0 fd = (\<lambda>tr. (Keeps_waiting, tr))"
| "receive_fd env (Suc n) fd =
     rbind (ask env (Sys_recvmsg fd)) (\<lambda>r.
       if a_ret r = -1 then if a_errno r = EINTR then receive_fd env n fd else give (-1)
       else if a_ret r = 0 then give (-1)
       else if a_out r = [] then (\<lambda>tr. (Crashes NullDeref, tr))
       else if a_nth r 0 \<noteq> SCM_RIGHTS then give (-1)
       else give (a_nth r 1))"

definition spawn_actions :: "bool \<Rightarrow> int \<Rightarrow> spawn_action list" where
  "spawn_actions quiet fd1 =
     (if quiet then [Spawn_open 1 DEVNULL, Spawn_open 2 DEVNULL] else []) @ [Spawn_close fd1]"

definition tell_descriptors :: "sys_env \<Rightarrow> int \<Rightarrow> int \<Rightarrow> unit sys_run" where
  "tell_descriptors env fd0 fd1 =
     rdo (ask env (Sys_setenv FUSE_COMMFD_ENV (snprintf 30 (int_text fd0))))
      (rdo (ask env (Sys_setenv FUSE_COMMFD2_ENV (snprintf 30 (int_text fd1)))) (give ()))"

definition setup_auto_unmount :: "sys_env \<Rightarrow> string option \<Rightarrow> bool \<Rightarrow> int sys_run" where
  "setup_auto_unmount env mountpoint quiet =
     (case mountpoint of
        None \<Rightarrow> give (-1)
      | Some mnt \<Rightarrow>
          rbind (ask env Sys_socketpair) (\<lambda>sp.
          if a_ret sp = -1 then give (-1)
          else let fd0 = a_nth sp 0; fd1 = a_nth sp 1
          in rdo (tell_descriptors env fd0 fd1)
            (rbind (fusermount_posix_spawn env (spawn_actions quiet fd1) [FUSERMOUNT_PROG, ''--auto-unmount'', ''--'', mnt] True)
              (\<lambda>(status, pid).
                if status \<noteq> 0
                then rdo (ask env (Sys_close fd0)) (rdo (ask env (Sys_close fd1)) (give (-1)))
                else rdo (ask env (Sys_close fd0)) (give 0)))))"

text \<open>With the option to unmount at the end the helper stays until the socket is closed.\<close>

definition helper_done :: "sys_env \<Rightarrow> opt_data \<Rightarrow> int \<Rightarrow> int \<Rightarrow> int \<Rightarrow> int sys_run" where
  "helper_done env mo fd1 pid fd =
     rdo (rwhen (int_at mo MO_auto_unmount = 0) (rdo (ask env (Sys_close fd1)) (ask env (Sys_waitpid pid))))
      (rdo (rwhen (fd \<ge> 0) (ask env (Sys_set_cloexec fd))) (give fd))"

definition fuse_mount_fusermount :: "sys_env \<Rightarrow> string option \<Rightarrow> opt_data \<Rightarrow> string \<Rightarrow> bool \<Rightarrow> int sys_run" where
  "fuse_mount_fusermount env mountpoint mo opts quiet =
     (case mountpoint of
        None \<Rightarrow> give (-1)
      | Some mnt \<Rightarrow>
          rbind (ask env Sys_socketpair) (\<lambda>sp.
          if a_ret sp = -1 then give (-1)
          else let fd0 = a_nth sp 0; fd1 = a_nth sp 1
          in rdo (tell_descriptors env fd0 fd1)
            (rbind (fusermount_posix_spawn env (spawn_actions quiet fd1) [FUSERMOUNT_PROG, ''-o'', opts, ''--'', mnt] True)
              (\<lambda>(status, pid).
                if status \<noteq> 0
                then rdo (ask env (Sys_close fd0)) (rdo (ask env (Sys_close fd1)) (give (-1)))
                else rdo (ask env (Sys_close fd0))
                      (rbind (receive_fd env (sy_wait env) fd1) (helper_done env mo fd1 pid))))))"

section \<open>Mounting\<close>

text \<open>The options that are handed over as text; the results are those of \<^verbatim>\<open>fuse_opt_add_opt\<close>.\<close>

definition mount_options_text :: "(nat \<Rightarrow> bool) \<Rightarrow> opt_data \<Rightarrow> int \<times> string option" where
  "mount_options_text mem mo =
     (case get_mnt_flag_opts mem None (int_at mo MO_flags) of (r0, o0) \<Rightarrow>
      if r0 = -1 then (-1, o0)
      else case (case str_at mo MO_kernel_opts of None \<Rightarrow> (0, o0) | Some k \<Rightarrow> fuse_opt_add_opt mem o0 k) of (r1, o1) \<Rightarrow>
      if r1 = -1 then (-1, o1)
      else case (case str_at mo MO_mtab_opts of None \<Rightarrow> (0, o1) | Some m \<Rightarrow> fuse_opt_add_opt mem o1 m) of (r2, o2) \<Rightarrow>
      (r2, o2))"

text \<open>The kernel does not let this user mount: the helper is asked, first with the subtype if there is one.\<close>

definition mount_by_helper :: "sys_env \<Rightarrow> string option \<Rightarrow> opt_data \<Rightarrow> string \<Rightarrow> int sys_run" where
  "mount_by_helper env mountpoint mo mnt_opts =
     (case (case str_at mo MO_fusermount_opts of
              None \<Rightarrow> (0, Some mnt_opts)
            | Some f \<Rightarrow> fuse_opt_add_opt (sy_mem env) (Some mnt_opts) f) of (r0, opts0) \<Rightarrow>
      if r0 = -1 then give (-2)
      else let opts = (case opts0 of None \<Rightarrow> [] | Some s \<Rightarrow> s)
      in case str_at mo MO_subtype of
           None \<Rightarrow> fuse_mount_fusermount env mountpoint mo opts False
         | Some _ \<Rightarrow>
             (case fuse_opt_add_opt (sy_mem env) None opts of (r1, t1) \<Rightarrow>
              if r1 = -1 then give (-1)
              else case str_at mo MO_subtype_opt of
                None \<Rightarrow> (\<lambda>tr. (Crashes NullDeref, tr))
              | Some s \<Rightarrow>
                  (case fuse_opt_add_opt (sy_mem env) t1 s of (r2, t2) \<Rightarrow>
                   if r2 = -1 then give (-1)
                   else rbind (fuse_mount_fusermount env mountpoint mo (case t2 of None \<Rightarrow> [] | Some x \<Rightarrow> x) True) (\<lambda>res.
                     if res = -1 then fuse_mount_fusermount env mountpoint mo opts False else give res))))"

definition fuse_kern_mount :: "sys_env \<Rightarrow> string option \<Rightarrow> opt_data \<Rightarrow> (int \<times> opt_data) sys_run" where
  "fuse_kern_mount env mountpoint mo =
     (case mount_options_text (sy_mem env) mo of (r0, opts0) \<Rightarrow>
      if r0 = -1 then give (-1, mo)
      else let mnt_opts = (case opts0 of None \<Rightarrow> [] | Some s \<Rightarrow> s)
      in rbind (fuse_mount_sys env mountpoint mo mnt_opts) (\<lambda>(res, mo1).
           if res \<ge> 0 \<and> int_at mo1 MO_auto_unmount \<noteq> 0
           then rbind (setup_auto_unmount env mountpoint False) (\<lambda>r.
             if r < 0 then rdo (ask env (Sys_umount2 (case mountpoint of Some m \<Rightarrow> m | None \<Rightarrow> []) 2)) (give (-1, mo1))
             else give (res, mo1))
           else if res = -2
           then rbind (mount_by_helper env mountpoint mo1 mnt_opts) (\<lambda>fd. give (fd, mo1))
           else give (res, mo1)))"

definition POLLERR :: int where "POLLERR = 8"

definition ask_unmount :: "sys_env \<Rightarrow> string \<Rightarrow> unit sys_run" where
  "ask_unmount env mountpoint =
     rbind (ask env Sys_geteuid) (\<lambda>e.
       if a_ret e = 0 then rdo (fuse_mnt_umount env mountpoint mountpoint True) (give ())
       else rbind (ask env (Sys_umount2 mountpoint 2)) (\<lambda>u.
         if a_ret u = 0 then give ()
         else rdo (fusermount_posix_spawn env [] [FUSERMOUNT_PROG, ''--unmount'', ''--quiet'', ''--lazy'', ''--'', mountpoint] False)
               (give ())))"

definition fuse_kern_unmount :: "sys_env \<Rightarrow> string \<Rightarrow> int \<Rightarrow> unit sys_run" where
  "fuse_kern_unmount env mountpoint fd =
     (if fd \<noteq> -1
      then rbind (ask env (Sys_poll fd)) (\<lambda>p.
           rdo (ask env (Sys_close fd))
            (if a_ret p = 1 \<and> a_nth p 0 AND POLLERR \<noteq> 0 then give () else ask_unmount env mountpoint))
      else ask_unmount env mountpoint)"

section \<open>The mount of a session\<close>

text \<open>\<^verbatim>\<open>sscanf\<close> with \<^verbatim>\<open>/dev/fd/%u%n\<close>: the number may have blanks and a sign before it; what is too big for
  64 bits is the largest such number; the number is stored in 32 bits.\<close>

definition is_digit :: "char \<Rightarrow> bool" where
  "is_digit c \<longleftrightarrow> c \<in> set ''0123456789''"

definition is_blank :: "char \<Rightarrow> bool" where
  "is_blank c \<longleftrightarrow> c = CHR '' '' \<or> c \<in> set (map char_of [9 :: nat, 10, 11, 12, 13])"

definition digits_value :: "string \<Rightarrow> nat" where
  "digits_value s = foldl (\<lambda>n c. 10 * n + (of_char c - 48)) 0 s"

definition scan_unsigned :: "string \<Rightarrow> (int \<times> string) option" where
  "scan_unsigned s =
     (let s1 = dropWhile is_blank s;
          minus = (char_at s1 0 = CHR ''-'');
          s2 = (if minus \<or> char_at s1 0 = CHR ''+'' then tl s1 else s1);
          ds = takeWhile is_digit s2;
          n = int (digits_value ds);
          v = (if n \<ge> 2 ^ 64 then 2 ^ 64 - 1 else if minus then (- n) mod 2 ^ 64 else n)
      in if ds = [] then None else Some (signed_take_bit 31 v, dropWhile is_digit s2))"

definition fuse_mnt_parse_fuse_fd :: "string \<Rightarrow> int" where
  "fuse_mnt_parse_fuse_fd mountpoint =
     (if take 8 mountpoint = ''/dev/fd/''
      then case scan_unsigned (drop 8 mountpoint) of
             Some (fd, rest) \<Rightarrow> if rest = [] then fd else -1
           | None \<Rightarrow> -1
      else -1)"

text \<open>The descriptor of the device and the mount point, of the session.\<close>

record channel =
  ch_fd :: int
  ch_mountpoint :: "string option"

text \<open>The first three descriptors are opened, if they are not.\<close>

fun open_standard :: "sys_env \<Rightarrow> nat \<Rightarrow> unit sys_run" where
  "open_standard env 0 = (\<lambda>tr. (Keeps_waiting, tr))"
| "open_standard env (Suc n) =
     rbind (ask env (Sys_open DEVNULL)) (\<lambda>o1.
       rdo (rwhen (a_ret o1 > 2) (ask env (Sys_close (a_ret o1))))
        (if 0 \<le> a_ret o1 \<and> a_ret o1 \<le> 2 then open_standard env n else give ()))"

definition fuse_session_mount :: "sys_env \<Rightarrow> string option \<Rightarrow> opt_data \<Rightarrow> channel \<Rightarrow> (int \<times> opt_data \<times> channel) sys_run" where
  "fuse_session_mount env mountpoint mo ch =
     (case mountpoint of
        None \<Rightarrow> give (-1, mo, ch)
      | Some mnt \<Rightarrow>
          rdo (open_standard env 4)
           (let fd = fuse_mnt_parse_fuse_fd mnt
            in if fd \<noteq> -1
               then rbind (ask env (Sys_getfd fd)) (\<lambda>g.
                    if a_ret g = -1 then give (-1, mo, ch) else give (0, mo, ch\<lparr>ch_fd := fd\<rparr>))
               else rbind (fuse_kern_mount env mountpoint mo) (\<lambda>(fd, mo1).
                    if fd = -1 then give (-1, mo1, ch)
                    else if sy_mem env (length mnt + 1)
                    then give (0, mo1, ch\<lparr>ch_fd := fd, ch_mountpoint := Some mnt\<rparr>)
                    else rdo (fuse_kern_unmount env mnt fd)
                          (give (-1, mo1, ch\<lparr>ch_fd := fd, ch_mountpoint := None\<rparr>)))))"

definition fuse_session_unmount :: "sys_env \<Rightarrow> channel \<Rightarrow> channel sys_run" where
  "fuse_session_unmount env ch =
     (case ch_mountpoint ch of
        None \<Rightarrow> give ch
      | Some mnt \<Rightarrow> rdo (fuse_kern_unmount env mnt (ch_fd ch)) (give (ch\<lparr>ch_fd := -1, ch_mountpoint := None\<rparr>)))"

end
