(* ===== verification/Fuse_Kern_Mount_Correct.thy ===== *)
theory Fuse_Kern_Mount_Correct
  imports Fuse_Kern_Mount "HOL-Library.Multiset"
begin

text \<open>
  What mounting does to the descriptors of the process, whatever the system answers: the descriptors are read off
  the calls and their answers, and each run is taken through its calls by weakest preconditions, of the runs that return.
\<close>

section \<open>Blocks are large enough\<close>

lemma write_string_fits: "length s < n \<Longrightarrow> write_string n s tr = (Returns s, tr)"
  by (simp add: write_string_def)

lemma type_fits: "\<exists>s. write_type mo tr = (Returns s, tr) \<and> length s < type_size mo"
  by (auto simp: write_type_def rbind_def give_def write_string_fits mount_text_def type_size_def split: option.split)

lemma source_fits: "\<exists>s. write_source mo tr = (Returns s, tr) \<and> length s < source_size mo"
  by (auto simp: write_source_def write_string_fits source_size_def split: option.split)

lemma other_source_fits:
  assumes "str_at mo MO_subtype = Some subtype" "length type < 32"
  shows "\<exists>s. source_without_subtype mo subtype source type tr = (Returns s, tr)"
  using assms by (auto simp: source_without_subtype_def give_def write_string_fits source_size_def split: option.split)

section \<open>What holds after a run\<close>

definition wp :: "'a sys_run \<Rightarrow> ('a \<Rightarrow> sys_trace \<Rightarrow> bool) \<Rightarrow> sys_trace \<Rightarrow> bool" where
  "wp m P tr = (case m tr of (Returns x, tr1) \<Rightarrow> P x tr1 | _ \<Rightarrow> True)"

lemmas run_defs = wp_def ask_def give_def rbind_def rdo_def

lemma wp_ask: "wp (ask env c) P tr = (let a = sy_os env tr c in P a (tr @ [(c, a)]))"
  by (simp add: run_defs Let_def)

lemma wp_give [simp]: "wp (give x) P = P x"
  by (simp add: run_defs fun_eq_iff)

lemma wp_rbind [simp]: "wp (rbind m f) P = wp m (\<lambda>x. wp (f x) P)"
  by (auto simp: run_defs fun_eq_iff split: prod.splits ending.splits)

lemma wp_rdo [simp]: "wp (rdo m k) P = wp m (\<lambda>_. wp k P)"
  unfolding rdo_def by simp

lemma wp_stops [simp]: "wp (\<lambda>tr. (Process_gone, tr)) P tr" "wp (\<lambda>tr. (Keeps_waiting, tr)) P tr" "wp (\<lambda>tr. (Crashes e, tr)) P tr"
  by (simp_all add: wp_def)

lemma wp_returns: "wp m P tr \<Longrightarrow> m tr = (Returns x, tr1) \<Longrightarrow> P x tr1"
  by (simp add: wp_def)

lemma wp_mono: "wp m P tr \<Longrightarrow> (\<And>x tr1. P x tr1 \<Longrightarrow> Q x tr1) \<Longrightarrow> wp m Q tr"
  by (auto simp: wp_def split: prod.splits ending.splits)

text \<open>The descriptors that a process has after its calls.\<close>

fun held_after :: "syscall \<Rightarrow> answer \<Rightarrow> int multiset \<Rightarrow> int multiset" where
  "held_after (Sys_open path) a h = (if a_ret a = -1 then h else add_mset (a_ret a) h)"
| "held_after (Sys_close fd) a h = h - {#fd#}"
| "held_after Sys_socketpair a h = (if a_ret a = -1 then h else add_mset (a_nth a 0) (add_mset (a_nth a 1) h))"
| "held_after (Sys_recvmsg fd) a h =
     (if a_ret a = -1 \<or> a_ret a = 0 \<or> a_out a = [] \<or> a_nth a 0 \<noteq> SCM_RIGHTS \<or> a_nth a 1 = -1 then h
      else add_mset (a_nth a 1) h)"
| "held_after _ a h = h"

definition held_fds :: "sys_trace \<Rightarrow> int multiset" where
  "held_fds tr = foldl (\<lambda>h (c, a). held_after c a h) {#} tr"

lemma held_fds_snoc [simp]: "held_fds (tr @ [(c, a)]) = held_after c a (held_fds tr)"
  by (simp add: held_fds_def)

text \<open>Runs after which the process has the descriptors it had.\<close>

definition neutral :: "'a sys_run \<Rightarrow> bool" where
  "neutral m \<longleftrightarrow> (\<forall>tr. wp m (\<lambda>_ tr1. held_fds tr1 = held_fds tr) tr)"

named_theorems neutrals \<open>runs that keep the descriptors\<close>

lemma neutral_ask: "(\<And>a h. held_after c a h = h) \<Longrightarrow> neutral (ask env c)"
  by (simp add: neutral_def wp_ask)

lemma neutral_asks [neutrals]:
  "neutral (ask env (Sys_stat s))" "neutral (ask env (Sys_lstat s))" "neutral (ask env (Sys_access s))"
  "neutral (ask env Sys_getuid)" "neutral (ask env Sys_getgid)" "neutral (ask env Sys_geteuid)"
  "neutral (ask env (Sys_setuid i))" "neutral (ask env (Sys_setreuid i j))" "neutral (ask env (Sys_mount s u v i ko))"
  "neutral (ask env (Sys_umount2 s i))" "neutral (ask env Sys_block_sigchld)" "neutral (ask env Sys_restore_signals)"
  "neutral (ask env Sys_fork)" "neutral (ask env (Sys_execle s ss))" "neutral (ask env (Sys_waitpid i))"
  "neutral (ask env (Sys_realpath s))" "neutral (ask env (Sys_setenv s u))" "neutral (ask env (Sys_posix_spawn b acts ss))"
  "neutral (ask env (Sys_set_cloexec i))" "neutral (ask env (Sys_getfd i))" "neutral (ask env (Sys_poll i))"
  by (rule neutral_ask, simp)+

lemma neutral_give [neutrals]: "neutral (give x)"
  and neutral_stops [neutrals]: "neutral (\<lambda>tr. (Process_gone, tr))" "neutral (\<lambda>tr. (Keeps_waiting, tr))" "neutral (\<lambda>tr. (Crashes e, tr))"
  by (simp_all add: neutral_def wp_def give_def)

lemma neutral_wp: "neutral m \<Longrightarrow> (\<And>x tr1. held_fds tr1 = held_fds tr \<Longrightarrow> P x tr1) \<Longrightarrow> wp m P tr"
  unfolding neutral_def by (blast intro: wp_mono)

lemma neutral_rbind [neutrals]:
  assumes "neutral m" "\<And>x. neutral (f x)"
  shows "neutral (rbind m f)"
proof -
  have "wp m (\<lambda>x. wp (f x) (\<lambda>_ tr2. held_fds tr2 = held_fds tr)) tr" for tr
  proof (rule neutral_wp [OF assms(1)])
    fix x tr1
    assume "held_fds tr1 = held_fds tr"
    then show "wp (f x) (\<lambda>_ tr2. held_fds tr2 = held_fds tr) tr1" by (intro neutral_wp [OF assms(2)]) simp
  qed
  then show ?thesis by (simp add: neutral_def)
qed

lemma neutral_rdo [neutrals]: "neutral m \<Longrightarrow> neutral k \<Longrightarrow> neutral (rdo m k)"
  unfolding rdo_def by (rule neutral_rbind)

lemma neutral_if [neutrals]: "neutral m \<Longrightarrow> neutral k \<Longrightarrow> neutral (if b then m else k)"
  and neutral_option [neutrals]: "neutral n \<Longrightarrow> (\<And>x. neutral (f x)) \<Longrightarrow> neutral (case opt of None \<Rightarrow> n | Some x \<Rightarrow> f x)"
  and neutral_pair [neutrals]: "(\<And>x y. neutral (g x y)) \<Longrightarrow> neutral (case p of (x, y) \<Rightarrow> g x y)"
  by (simp_all split: option.split prod.split)

lemma neutral_rwhen [neutrals]: "neutral m \<Longrightarrow> neutral (rwhen b m)"
  unfolding rwhen_def by (intro neutrals)

lemma neutral_write [neutrals]: "neutral (write_string n s)"
  by (simp add: neutral_def wp_def write_string_def)

lemma neutral_table [neutrals]: "neutral (mtab_needs_update env mnt)" "neutral (run_child env argv)"
  unfolding mtab_needs_update_def run_child_def Let_def by (intro neutrals)+

lemma neutral_entries [neutrals]:
  "neutral (fuse_mnt_add_mount env s m ty op)" "neutral (fuse_mnt_umount env am rm lazy)" "neutral (fuse_mnt_resolve_path env orig)"
  unfolding fuse_mnt_add_mount_def add_mount_def fuse_mnt_umount_def exec_umount_def fuse_mnt_resolve_path_def Let_def
  by (intro neutrals)+

lemma neutral_mount [neutrals]: "neutral (mount_call env mnt mo)" "neutral (record_mount env mnt source type opts)"
  unfolding mount_call_def record_mount_def write_type_def write_source_def source_without_subtype_def Let_def
  by (intro neutrals)+

lemma neutral_spawn [neutrals]: "neutral (fusermount_posix_spawn env action argv pid)" "neutral (tell_descriptors env a b)"
  "neutral (ask_unmount env mnt)"
  unfolding ask_unmount_def fusermount_posix_spawn_def tell_descriptors_def by (intro neutrals)+

section \<open>No descriptor is lost\<close>

text \<open>The system gives a descriptor, which is not negative, or -1.\<close>

definition opens_descriptors :: "sys_env \<Rightarrow> bool" where
  "opens_descriptors env \<longleftrightarrow> (\<forall>tr path. a_ret (sy_os env tr (Sys_open path)) \<ge> -1)"

lemma wp_open:
  assumes "opens_descriptors env"
    and "\<And>a tr1. held_fds tr1 = held_after (Sys_open s) a (held_fds tr) \<Longrightarrow> a_ret a \<ge> -1 \<Longrightarrow> P a tr1"
  shows "wp (ask env (Sys_open s)) P tr"
  using assms by (simp add: wp_ask Let_def opens_descriptors_def)

lemma wp_close: "(\<And>a tr1. held_fds tr1 = held_fds tr - {#fd#} \<Longrightarrow> P a tr1) \<Longrightarrow> wp (ask env (Sys_close fd)) P tr"
  by (simp add: wp_ask Let_def)

lemma wp_socketpair:
  "(\<And>a tr1. held_fds tr1 = held_after Sys_socketpair a (held_fds tr) \<Longrightarrow> P a tr1) \<Longrightarrow> wp (ask env Sys_socketpair) P tr"
  by (simp add: wp_ask Let_def)

lemma wp_recvmsg:
  "(\<And>a tr1. held_fds tr1 = held_after (Sys_recvmsg fd) a (held_fds tr) \<Longrightarrow> P a tr1) \<Longrightarrow> wp (ask env (Sys_recvmsg fd)) P tr"
  by (simp add: wp_ask Let_def)

lemma wp_if: "(b \<Longrightarrow> wp m P tr) \<Longrightarrow> (\<not> b \<Longrightarrow> wp k P tr) \<Longrightarrow> wp (if b then m else k) P tr"
  by simp

lemma wp_close_device:
  "held_fds tr = add_mset fd h \<Longrightarrow> (\<And>tr1. held_fds tr1 = h \<Longrightarrow> P (r, mo) tr1) \<Longrightarrow> wp (close_device env fd r mo) P tr"
  unfolding close_device_def wp_rdo wp_give by (rule wp_close) simp

text \<open>What a mount comes down to: with the result comes the descriptor, or there is none. The kernel may say that
  another way must be taken.\<close>

definition descriptor_kept :: "int multiset \<Rightarrow> int \<Rightarrow> int multiset \<Rightarrow> bool" where
  "descriptor_kept h fd h1 \<longleftrightarrow> h1 = (if fd = -1 then h else add_mset fd h)"

lemma nothing_kept [simp]: "descriptor_kept h (-1) h1 \<longleftrightarrow> h1 = h"
  by (simp add: descriptor_kept_def)

definition mounted_or_refused :: "int multiset \<Rightarrow> opt_data \<Rightarrow> int \<times> opt_data \<Rightarrow> sys_trace \<Rightarrow> bool" where
  "mounted_or_refused h mo = (\<lambda>(r, mo1) tr1. (r \<ge> -1 \<and> descriptor_kept h r (held_fds tr1) \<or> held_fds tr1 = h \<and> r = -2) \<and>
     int_at mo1 MO_auto_unmount = int_at mo MO_auto_unmount)"

lemma mounted_or_refused_simps [simp]:
  "held_fds tr = h \<Longrightarrow> mounted_or_refused h mo (-1, mo) tr"
  "fd \<ge> 0 \<Longrightarrow> held_fds tr = add_mset fd h \<Longrightarrow> int_at mo1 MO_auto_unmount = int_at mo MO_auto_unmount \<Longrightarrow> mounted_or_refused h mo (fd, mo1) tr"
  by (simp_all add: mounted_or_refused_def descriptor_kept_def)

lemma close_device_refused:
  assumes "held_fds tr = add_mset fd h" "r = -1 \<or> r = -2" "int_at mo1 MO_auto_unmount = int_at mo MO_auto_unmount"
  shows "wp (close_device env fd r mo1) (mounted_or_refused h mo) tr"
  using assms(2,3) by (intro wp_close_device [OF assms(1)]) (auto simp: mounted_or_refused_def descriptor_kept_def)

lemma mount_device_descriptors:
  assumes mem: "\<forall>n. sy_mem env n" and h: "held_fds tr = add_mset fd h" "fd \<ge> 0"
  shows "wp (mount_device env mnt mo tmp opts fd) (mounted_or_refused h mo) tr"
proof -
  obtain ko where ko: "add_opt_at fuse_opt_add_opt (sy_mem env) MO_kernel_opts mo tmp = (0, mo(MO_kernel_opts \<mapsto> OStr ko))"
    using mem by (simp add: add_opt_at_def fuse_opt_add_opt_def add_opt_common_def Let_def)
  let ?mo = "mo(MO_kernel_opts \<mapsto> OStr ko)"
  have auto: "int_at ?mo MO_auto_unmount = int_at mo MO_auto_unmount" by (simp add: int_at_def mount_offsets)
  have rec: "wp (record_mount env mnt source type opts)
      (\<lambda>recorded. wp (if recorded then give (fd, ?mo) else rdo (ask env (Sys_umount2 mnt 2)) (close_device env fd (-1) ?mo))
         (mounted_or_refused h mo)) tr0" if "held_fds tr0 = add_mset fd h" for source type tr0
    by (rule neutral_wp [OF neutral_mount(2)], rule wp_if)
      (use that auto h(2) in \<open>auto intro!: neutral_wp [OF neutral_asks(10)] close_device_refused\<close>)
  have "wp (mount_call env mnt ?mo)
      (\<lambda>(r, source, type). wp (if a_ret r = -1 then close_device env fd (if a_errno r = EPERM then -2 else -1) ?mo
            else rbind (record_mount env mnt source type opts) (\<lambda>recorded.
              if recorded then give (fd, ?mo)
              else rdo (ask env (Sys_umount2 mnt 2)) (close_device env fd (-1) ?mo))) (mounted_or_refused h mo)) tr"
    by (rule neutral_wp [OF neutral_mount(1)]) (use h auto in \<open>auto intro!: close_device_refused rec\<close>)
  then show ?thesis using mem unfolding mount_device_def ko prod.case by (simp add: case_prod_unfold)
qed

lemma mount_sys_descriptors:
  assumes mem: "\<forall>n. sy_mem env n" and os: "opens_descriptors env"
  shows "wp (fuse_mount_sys env mountpoint mo opts) (mounted_or_refused (held_fds tr) mo) tr"
proof (cases mountpoint)
  case (Some mnt)
  have dev: "wp (rbind (ask env Sys_getuid) (\<lambda>u. rbind (ask env Sys_getgid) (\<lambda>g. mount_device env mnt mo (f u g) opts fd)))
      (mounted_or_refused (held_fds tr) mo) tr1" if "held_fds tr1 = add_mset fd (held_fds tr)" "fd \<ge> 0" for f fd tr1
    unfolding wp_rbind
    by (rule neutral_wp [OF neutral_asks(4)], rule neutral_wp [OF neutral_asks(5)]) (simp add: that mount_device_descriptors [OF mem])
  show ?thesis unfolding Some fuse_mount_sys_def option.case
    unfolding wp_rbind
    by (rule neutral_wp [OF neutral_asks(1)], rule wp_if)
      (auto intro!: wp_open [OF os] dev [unfolded wp_rbind] wp_if)
qed (simp add: fuse_mount_sys_def)

lemma receive_fd_descriptors:
  "wp (receive_fd env n fd) (\<lambda>r tr1. descriptor_kept (held_fds tr) r (held_fds tr1)) tr"
proof (induction n arbitrary: tr)
  case (Suc n)
  show ?case unfolding receive_fd.simps wp_rbind
  proof (rule wp_recvmsg)
    fix a tr1
    assume h: "held_fds tr1 = held_after (Sys_recvmsg fd) a (held_fds tr)"
    show "wp (if a_ret a = -1 then if a_errno a = EINTR then receive_fd env n fd else give (-1)
       else if a_ret a = 0 then give (-1)
       else if a_out a = [] then (\<lambda>tr. (Crashes NullDeref, tr))
       else if a_nth a 0 \<noteq> SCM_RIGHTS then give (-1)
       else give (a_nth a 1)) (\<lambda>r tr1. descriptor_kept (held_fds tr) r (held_fds tr1)) tr1"
      using h Suc [of tr1] by (intro wp_if) (auto simp: descriptor_kept_def)
  qed
qed simp

lemma wp_rwhen: "(b \<Longrightarrow> wp m (\<lambda>_. P ()) tr) \<Longrightarrow> (\<not> b \<Longrightarrow> P () tr) \<Longrightarrow> wp (rwhen b m) P tr"
  by (simp add: rwhen_def)

lemma helper_done_descriptors:
  assumes "int_at mo MO_auto_unmount = 0" "descriptor_kept (add_mset fd1 h) fd (held_fds tr)"
  shows "wp (helper_done env mo fd1 pid fd) (\<lambda>r tr1. descriptor_kept h r (held_fds tr1)) tr"
proof -
  have cloexec: "wp (rwhen (fd \<ge> 0) (ask env (Sys_set_cloexec fd))) (\<lambda>_ tr1. descriptor_kept h fd (held_fds tr1)) tr1"
    if "descriptor_kept h fd (held_fds tr1)" for tr1
    by (rule neutral_wp) (use that in \<open>auto intro: neutrals\<close>)
  have "descriptor_kept h fd (held_fds tr - {#fd1#})" using assms(2) by (auto simp: descriptor_kept_def)
  then show ?thesis unfolding helper_done_def wp_rdo wp_give
    by (intro wp_rwhen cloexec) (auto simp: assms(1) intro!: wp_close neutral_wp [OF neutral_asks(15)] cloexec)
qed

lemma fusermount_descriptors:
  assumes auto: "int_at mo MO_auto_unmount = 0"
  shows "wp (fuse_mount_fusermount env mountpoint mo opts quiet) (\<lambda>r tr1. descriptor_kept (held_fds tr) r (held_fds tr1)) tr"
proof (cases mountpoint)
  case (Some mnt)
  let ?kept = "\<lambda>r tr1. descriptor_kept (held_fds tr) r (held_fds tr1)"
  have got: "wp (rbind (receive_fd env (sy_wait env) fd1) (helper_done env mo fd1 pid)) ?kept tr1"
    if "held_fds tr1 = add_mset fd1 (held_fds tr)" for fd1 pid tr1
    unfolding wp_rbind
    by (rule wp_mono [OF receive_fd_descriptors]) (use that in \<open>auto intro!: helper_done_descriptors [OF auto]\<close>)
  show ?thesis unfolding Some fuse_mount_fusermount_def option.case wp_rbind Let_def
    by (auto intro!: wp_socketpair wp_if neutral_wp [OF neutral_spawn(2)] neutral_wp [OF neutral_spawn(1)] wp_close
        got [unfolded wp_rbind])
qed (simp add: fuse_mount_fusermount_def descriptor_kept_def)

lemma by_helper_descriptors:
  assumes mem: "\<forall>n. sy_mem env n" and auto: "int_at mo MO_auto_unmount = 0"
  shows "wp (mount_by_helper env mountpoint mo opts) (\<lambda>r tr1. descriptor_kept (held_fds tr) r (held_fds tr1)) tr"
proof -
  have add: "\<exists>s1. fuse_opt_add_opt (sy_mem env) o1 s = (0, Some s1)" for o1 s
    using mem by (simp add: fuse_opt_add_opt_def add_opt_common_def Let_def)
  have direct: "wp (fuse_mount_fusermount env mountpoint mo os False) (\<lambda>r tr1. descriptor_kept (held_fds tr) r (held_fds tr1)) tr1"
    if "held_fds tr1 = held_fds tr" for os tr1
    using fusermount_descriptors [OF auto, of env mountpoint os False tr1] that by simp
  have again: "wp (rbind (fuse_mount_fusermount env mountpoint mo os1 True) (\<lambda>res.
        if res = -1 then fuse_mount_fusermount env mountpoint mo os False else give res))
      (\<lambda>r tr1. descriptor_kept (held_fds tr) r (held_fds tr1)) tr" for os os1
    unfolding wp_rbind
    by (rule wp_mono [OF fusermount_descriptors [OF auto]]) (auto intro: direct)
  obtain opts0 where o0: "(case str_at mo MO_fusermount_opts of None \<Rightarrow> (0, Some opts)
            | Some f \<Rightarrow> fuse_opt_add_opt (sy_mem env) (Some opts) f) = (0, Some opts0)"
    using add [of "Some opts"] by (cases "str_at mo MO_fusermount_opts") auto
  obtain t1 where t1: "fuse_opt_add_opt (sy_mem env) None opts0 = (0, Some t1)" using add by blast
  show ?thesis
  proof (cases "str_at mo MO_subtype")
    case None
    then show ?thesis using direct by (simp add: mount_by_helper_def o0)
  next
    case (Some s)
    note subtype = Some
    show ?thesis
    proof (cases "str_at mo MO_subtype_opt")
      case None
      then show ?thesis using subtype by (simp add: mount_by_helper_def o0 t1 wp_def)
    next
      case (Some so)
      obtain t2 where "fuse_opt_add_opt (sy_mem env) (Some t1) so = (0, Some t2)" using add by blast
      then show ?thesis using subtype Some again [of t2 opts0] by (simp add: mount_by_helper_def o0 t1 del: wp_rbind)
    qed
  qed
qed

lemma kern_mount_descriptors:
  assumes mem: "\<forall>n. sy_mem env n" and os: "opens_descriptors env" and auto: "int_at mo MO_auto_unmount = 0"
  shows "wp (fuse_kern_mount env mountpoint mo) (\<lambda>(r, mo1) tr1. descriptor_kept (held_fds tr) r (held_fds tr1)) tr"
proof -
  let ?kept = "\<lambda>(r, mo1) tr1. descriptor_kept (held_fds tr) r (held_fds tr1)"
  have rest: "wp (if res \<ge> 0 \<and> int_at mo1 MO_auto_unmount \<noteq> 0
           then rbind (setup_auto_unmount env mountpoint False) (\<lambda>r.
             if r < 0 then rdo (ask env (Sys_umount2 (case mountpoint of Some m \<Rightarrow> m | None \<Rightarrow> []) 2)) (give (-1, mo1))
             else give (res, mo1))
           else if res = -2
           then rbind (mount_by_helper env mountpoint mo1 opts) (\<lambda>fd. give (fd, mo1))
           else give (res, mo1)) ?kept tr1"
    if "mounted_or_refused (held_fds tr) mo (res, mo1) tr1" for res mo1 opts tr1
  proof -
    have a1: "int_at mo1 MO_auto_unmount = 0" using that auto by (simp add: mounted_or_refused_def)
    show ?thesis
    proof (cases "res = -2")
      case True
      then have "held_fds tr1 = held_fds tr" using that by (simp add: mounted_or_refused_def)
      with True by_helper_descriptors [OF mem a1, of mountpoint opts tr1] show ?thesis by simp
    next
      case False
      with that a1 show ?thesis by (simp add: mounted_or_refused_def)
    qed
  qed
  have "wp (fuse_mount_sys env mountpoint mo opts) (\<lambda>(res, mo1). wp (if res \<ge> 0 \<and> int_at mo1 MO_auto_unmount \<noteq> 0
           then rbind (setup_auto_unmount env mountpoint False) (\<lambda>r.
             if r < 0 then rdo (ask env (Sys_umount2 (case mountpoint of Some m \<Rightarrow> m | None \<Rightarrow> []) 2)) (give (-1, mo1))
             else give (res, mo1))
           else if res = -2
           then rbind (mount_by_helper env mountpoint mo1 opts) (\<lambda>fd. give (fd, mo1))
           else give (res, mo1)) ?kept) tr" for opts
    by (rule wp_mono [OF mount_sys_descriptors [OF mem os]]) (use rest in \<open>auto simp del: wp_rbind\<close>)
  then show ?thesis unfolding fuse_kern_mount_def Let_def
    by (simp add: case_prod_unfold del: wp_rbind) (simp add: wp_rbind)
qed

lemma kern_unmount_descriptors:
  "wp (fuse_kern_unmount env mnt fd) (\<lambda>_ tr1. held_fds tr1 = (if fd = -1 then held_fds tr else held_fds tr - {#fd#})) tr"
  unfolding fuse_kern_unmount_def wp_rbind wp_rdo
  by (auto intro!: wp_if neutral_wp [OF neutral_asks(21)] neutral_wp [OF neutral_spawn(3)] wp_close)

text \<open>Only the first three descriptors may have come.\<close>

definition standard_added :: "int multiset \<Rightarrow> int multiset \<Rightarrow> bool" where
  "standard_added h h1 \<longleftrightarrow> (\<exists>S. set_mset S \<subseteq> {0, 1, 2} \<and> h1 = h + S)"

lemma standard_added_refl [simp]: "standard_added h h"
  unfolding standard_added_def by (rule exI [of _ "{#}"]) simp

lemma standard_added_mset: "standard_added h h1 \<Longrightarrow> standard_added (add_mset fd h) (add_mset fd h1)"
  by (auto simp: standard_added_def)

lemma standard_added_step: "0 \<le> fd \<Longrightarrow> fd \<le> 2 \<Longrightarrow> standard_added (add_mset fd h) h1 \<Longrightarrow> standard_added h h1"
  unfolding standard_added_def by (elim exE conjE, rename_tac S, rule_tac x = "add_mset fd S" in exI) auto

lemma open_standard_descriptors:
  assumes os: "opens_descriptors env"
  shows "wp (open_standard env n) (\<lambda>_ tr1. standard_added (held_fds tr) (held_fds tr1)) tr"
proof (induction n arbitrary: tr)
  case (Suc n)
  show ?case unfolding open_standard.simps wp_rbind
  proof (rule wp_open [OF os])
    fix a tr1
    assume h: "held_fds tr1 = held_after (Sys_open DEVNULL) a (held_fds tr)" "a_ret a \<ge> -1"
    have more: "wp (open_standard env n) (\<lambda>_ tr1. standard_added (held_fds tr) (held_fds tr1)) tr2"
      if "0 \<le> a_ret a" "a_ret a \<le> 2" "held_fds tr2 = add_mset (a_ret a) (held_fds tr)" for tr2
      by (rule wp_mono [OF Suc]) (use that standard_added_step in auto)
    show "wp (rdo (rwhen (a_ret a > 2) (ask env (Sys_close (a_ret a))))
        (if 0 \<le> a_ret a \<and> a_ret a \<le> 2 then open_standard env n else give ()))
      (\<lambda>_ tr1. standard_added (held_fds tr) (held_fds tr1)) tr1"
      unfolding wp_rdo using h by (intro wp_rwhen) (auto intro!: wp_close wp_if more)
  qed
qed simp

text \<open>Four turns are enough where the system gives descriptors that are not in use.\<close>

definition gives_fresh :: "sys_env \<Rightarrow> bool" where
  "gives_fresh env \<longleftrightarrow> (\<forall>tr path. a_ret (sy_os env tr (Sys_open path)) \<notin># held_fds tr)"

lemma open_standard_returns:
  assumes "gives_fresh env" "card ({0, 1, 2} - set_mset (held_fds tr)) < n"
  shows "fst (open_standard env n tr) = Returns ()"
  using assms(2)
proof (induction n arbitrary: tr)
  case (Suc n)
  let ?a = "sy_os env tr (Sys_open DEVNULL)" let ?tr1 = "tr @ [(Sys_open DEVNULL, ?a)]"
  show ?case
  proof (cases "0 \<le> a_ret ?a \<and> a_ret ?a \<le> 2")
    case True
    have fresh: "a_ret ?a \<notin># held_fds tr" using assms(1) by (simp add: gives_fresh_def)
    from True have three: "a_ret ?a \<in> {0, 1, 2}" by auto
    have "{0, 1, 2} - set_mset (held_fds ?tr1) = {0, 1, 2} - set_mset (held_fds tr) - {a_ret ?a}" using True by auto
    then have "card ({0, 1, 2} - set_mset (held_fds ?tr1)) < card ({0, 1, 2} - set_mset (held_fds tr))"
      using fresh three by (simp only:) (rule card_Diff1_less, simp_all)
    with Suc have "fst (open_standard env n ?tr1) = Returns ()" by simp
    with True show ?thesis by (simp add: run_defs rwhen_def Let_def split: prod.split ending.split)
  next
    case False
    then show ?thesis by (auto simp: run_defs rwhen_def Let_def)
  qed
qed simp

lemma four_turns_are_enough: "gives_fresh env \<Longrightarrow> fst (open_standard env 4 tr) = Returns ()"
proof (rule open_standard_returns)
  have "card ({0, 1, 2 :: int} - set_mset (held_fds tr)) \<le> card {0, 1, 2 :: int}" by (intro card_mono) auto
  then show "card ({0, 1, 2} - set_mset (held_fds tr)) < 4" by simp
qed

lemma session_mount_descriptors:
  assumes mem: "\<forall>n. sy_mem env n" and os: "opens_descriptors env" and auto: "int_at mo MO_auto_unmount = 0"
  shows "wp (fuse_session_mount env mountpoint mo ch) (\<lambda>(r, mo1, ch1) tr1.
    r = -1 \<and> ch1 = ch \<and> standard_added (held_fds tr) (held_fds tr1) \<or>
    r = 0 \<and> ch_mountpoint ch1 = ch_mountpoint ch \<and> ch_fd ch1 = fuse_mnt_parse_fuse_fd (the mountpoint) \<and>
      standard_added (held_fds tr) (held_fds tr1) \<or>
    r = 0 \<and> ch_mountpoint ch1 = mountpoint \<and> ch_fd ch1 \<noteq> -1 \<and>
      standard_added (add_mset (ch_fd ch1) (held_fds tr)) (held_fds tr1)) tr"
proof (cases mountpoint)
  case (Some mnt)
  let ?P = "\<lambda>(r, mo1, ch1) tr1.
    r = -1 \<and> ch1 = ch \<and> standard_added (held_fds tr) (held_fds tr1) \<or>
    r = 0 \<and> ch_mountpoint ch1 = ch_mountpoint ch \<and> ch_fd ch1 = fuse_mnt_parse_fuse_fd (the mountpoint) \<and>
      standard_added (held_fds tr) (held_fds tr1) \<or>
    r = 0 \<and> ch_mountpoint ch1 = mountpoint \<and> ch_fd ch1 \<noteq> -1 \<and>
      standard_added (add_mset (ch_fd ch1) (held_fds tr)) (held_fds tr1)"
  let ?fd = "fuse_mnt_parse_fuse_fd mnt"
  have given: "wp (ask env (Sys_getfd ?fd))
      (\<lambda>g. wp (if a_ret g = -1 then give (-1, mo, ch) else give (0, mo, ch\<lparr>ch_fd := ?fd\<rparr>)) ?P) tr1"
    if "standard_added (held_fds tr) (held_fds tr1)" for tr1
    by (rule neutral_wp [OF neutral_asks(20)]) (use that Some in simp)
  have mounted: "wp (fuse_kern_mount env mountpoint mo) (\<lambda>(fd, mo1). wp (if fd = -1 then give (-1, mo1, ch)
                    else if sy_mem env (length mnt + 1)
                    then give (0, mo1, ch\<lparr>ch_fd := fd, ch_mountpoint := Some mnt\<rparr>)
                    else rdo (fuse_kern_unmount env mnt fd)
                          (give (-1, mo1, ch\<lparr>ch_fd := fd, ch_mountpoint := None\<rparr>))) ?P) tr1"
    if "standard_added (held_fds tr) (held_fds tr1)" for tr1
    by (rule wp_mono [OF kern_mount_descriptors [OF mem os auto]])
      (use that mem Some standard_added_mset in \<open>auto simp: descriptor_kept_def\<close>)
  show ?thesis unfolding fuse_session_mount_def Let_def Some option.case wp_rdo
    by (rule wp_mono [OF open_standard_descriptors [OF os]])
      (use given mounted Some in \<open>auto simp: case_prod_unfold\<close>)
qed (simp add: fuse_session_mount_def)

section \<open>Properties\<close>

text \<open>A system in which everything succeeds, with descriptors from 3 on.\<close>

definition willing_os :: "sys_trace \<Rightarrow> syscall \<Rightarrow> answer" where
  "willing_os tr c =
     \<lparr>a_ret = (case c of Sys_open _ \<Rightarrow> 3 | Sys_geteuid \<Rightarrow> 1000 | _ \<Rightarrow> 0), a_errno = 0, a_out = [], a_path = []\<rparr>"

definition willing_env :: "(nat \<Rightarrow> bool) \<Rightarrow> sys_env" where
  "willing_env mem = \<lparr>sy_os = willing_os, sy_mem = mem, sy_wait = 1\<rparr>"

definition plain_options :: opt_data where
  "plain_options = [MO_flags \<mapsto> OInt (MS_NOSUID OR MS_NODEV)]"

lemma willing_opens: "opens_descriptors (willing_env mem)"
  by (simp add: opens_descriptors_def willing_env_def willing_os_def)

lemma willing_mounts:
  "\<exists>mo1 tr1. fuse_session_mount (willing_env (\<lambda>_. True)) (Some ''/mnt'') plain_options \<lparr>ch_fd = -1, ch_mountpoint = None\<rparr> [] =
     (Returns (0, mo1, \<lparr>ch_fd = 3, ch_mountpoint = Some ''/mnt''\<rparr>), tr1)"
proof -
  let ?run = "fuse_session_mount (willing_env (\<lambda>_. True)) (Some ''/mnt'') plain_options \<lparr>ch_fd = -1, ch_mountpoint = None\<rparr> []"
  have "case ?run of (Returns (r, mo1, ch1), tr1) \<Rightarrow> r = 0 \<and> ch_fd ch1 = 3 \<and> ch_mountpoint ch1 = Some ''/mnt'' | _ \<Rightarrow> False"
    by code_simp
  then show ?thesis by (auto split: prod.splits ending.splits)
qed



definition mount_calls :: "sys_trace \<Rightarrow> sys_trace" where
  "mount_calls tr = filter (\<lambda>(c, a). case c of Sys_mount _ _ _ _ _ \<Rightarrow> True | _ \<Rightarrow> False) tr"

definition leaves_nothing :: "sys_trace \<Rightarrow> bool" where
  "leaves_nothing xs \<longleftrightarrow> mount_calls xs = [] \<and> (\<forall>h. foldl (\<lambda>h (c, a). held_after c a h) h xs = h)"

lemma leaves_nothing_append:
  "leaves_nothing xs \<Longrightarrow> held_fds (tr @ xs) = held_fds tr \<and> mount_calls (tr @ xs) = mount_calls tr"
  by (simp add: leaves_nothing_def held_fds_def mount_calls_def)

text \<open>C40: when memory is missing for the source of the mount, after the option has been added, nothing is mounted and the
  device is closed, but the mount of the session succeeds, with descriptor 0.\<close>

theorem mount_without_memory_succeeds:
  assumes os: "\<forall>tr path. a_ret (sy_os env tr (Sys_open path)) > 2" "\<forall>tr. a_ret (sy_os env tr (Sys_stat mnt)) \<noteq> -1"
    and mem: "\<not> sy_mem env (source_size mo)" "sy_mem env (length mnt + 1)"
      "\<forall>tmp. fst (add_opt_at fuse_opt_add_opt (sy_mem env) MO_kernel_opts mo tmp) = 0"
      "fst (mount_options_text (sy_mem env) mo) = 0"
    and "int_at mo MO_auto_unmount = 0" "fuse_mnt_parse_fuse_fd mnt = -1"
  shows "\<exists>mo1 tr1. fuse_session_mount env (Some mnt) mo ch tr =
      (Returns (0, mo1, ch\<lparr>ch_fd := 0, ch_mountpoint := Some mnt\<rparr>), tr1) \<and>
    held_fds tr1 = held_fds tr \<and> mount_calls tr1 = mount_calls tr"
proof -
  have standard: "\<exists>a b. open_standard env 4 tr = (Returns (), tr @ [(Sys_open DEVNULL, a), (Sys_close (a_ret a), b)]) \<and> a_ret a > 2"
    using os(1) by (simp add: numeral_eq_Suc run_defs rwhen_def Let_def not_le [symmetric])
  have device: "\<exists>mo1 b. mount_device env mnt mo tmp opts fd t = (Returns (0, mo1), t @ [(Sys_close fd, b)]) \<and>
      int_at mo1 MO_auto_unmount = 0" for tmp opts fd t
  proof -
    obtain mo1 where add: "add_opt_at fuse_opt_add_opt (sy_mem env) MO_kernel_opts mo tmp = (0, mo1)" using mem(3) by (metis prod.collapse)
    then have "\<not> sy_mem env (source_size mo1)" "int_at mo1 MO_auto_unmount = 0" using mem(1) assms(7)
      by (auto simp: add_opt_at_def source_size_def str_at_def int_at_def mount_offsets split: prod.splits)
    then show ?thesis by (simp add: mount_device_def add close_device_def run_defs Let_def)
  qed
  have kern: "\<exists>mo1 xs. fuse_kern_mount env (Some mnt) mo t = (Returns (0, mo1), t @ xs) \<and> leaves_nothing xs" for t
  proof -
    obtain opts where opts: "mount_options_text (sy_mem env) mo = (0, opts)" using mem(4) by (metis prod.collapse)
    let ?a1 = "sy_os env t (Sys_stat mnt)" let ?t1 = "t @ [(Sys_stat mnt, ?a1)]"
    let ?a2 = "sy_os env ?t1 (Sys_open DEVNAME)" let ?t2 = "?t1 @ [(Sys_open DEVNAME, ?a2)]"
    let ?a3 = "sy_os env ?t2 Sys_getuid" let ?t3 = "?t2 @ [(Sys_getuid, ?a3)]"
    let ?a4 = "sy_os env ?t3 Sys_getgid" let ?t4 = "?t3 @ [(Sys_getgid, ?a4)]"
    have fd: "a_ret ?a2 \<noteq> -1" using os(1) [rule_format, of ?t1 DEVNAME] by simp
    obtain mo1 b where "mount_device env mnt mo (device_options (a_ret ?a2) (a_nth ?a1 0) (a_ret ?a3) (a_ret ?a4))
        (case opts of None \<Rightarrow> [] | Some s \<Rightarrow> s) (a_ret ?a2) ?t4 = (Returns (0, mo1), ?t4 @ [(Sys_close (a_ret ?a2), b)])"
      "int_at mo1 MO_auto_unmount = 0" using device by blast
    then have "fuse_kern_mount env (Some mnt) mo t = (Returns (0, mo1), ?t4 @ [(Sys_close (a_ret ?a2), b)])"
      using os(2) fd by (simp add: fuse_kern_mount_def opts fuse_mount_sys_def run_defs Let_def)
    then show ?thesis using fd by (auto simp: leaves_nothing_def mount_calls_def)
  qed
  obtain a b where st: "open_standard env 4 tr = (Returns (), tr @ [(Sys_open DEVNULL, a), (Sys_close (a_ret a), b)])" "a_ret a > 2"
    using standard by blast
  obtain mo1 xs where k: "fuse_kern_mount env (Some mnt) mo (tr @ [(Sys_open DEVNULL, a), (Sys_close (a_ret a), b)]) =
      (Returns (0, mo1), (tr @ [(Sys_open DEVNULL, a), (Sys_close (a_ret a), b)]) @ xs)" "leaves_nothing xs" using kern by blast
  have "fuse_session_mount env (Some mnt) mo ch tr = (Returns (0, mo1, ch\<lparr>ch_fd := 0, ch_mountpoint := Some mnt\<rparr>),
      tr @ [(Sys_open DEVNULL, a), (Sys_close (a_ret a), b)] @ xs)"
    using st k(1) assms(8) mem(2) by (simp add: fuse_session_mount_def run_defs Let_def)
  moreover have "leaves_nothing ([(Sys_open DEVNULL, a), (Sys_close (a_ret a), b)] @ xs)"
    using st(2) k(2) by (simp add: leaves_nothing_def mount_calls_def)
  ultimately show ?thesis by (auto simp: leaves_nothing_append)
qed

theorem mount_without_memory_succeeds_witness:
  "\<exists>mo1 tr1. fuse_session_mount (willing_env (\<lambda>n. n \<noteq> 41)) (Some ''/mnt'') plain_options \<lparr>ch_fd = -1, ch_mountpoint = None\<rparr> [] =
      (Returns (0, mo1, \<lparr>ch_fd = 0, ch_mountpoint = Some ''/mnt''\<rparr>), tr1) \<and> held_fds tr1 = {#} \<and> mount_calls tr1 = []"
proof -
  let ?mem = "\<lambda>n :: nat. n \<noteq> 41"
  have odd: "fst (add_opt_at fuse_opt_add_opt (sy_mem (willing_env ?mem)) MO_kernel_opts plain_options tmp) = 0" for tmp
  proof -
    have "0 + 1 + length tmp * 2 + 1 \<noteq> 41" by presburger
    then show ?thesis by (simp add: add_opt_at_def fuse_opt_add_opt_def add_opt_common_def str_at_def plain_options_def willing_env_def
          mount_offsets split: prod.split)
  qed
  have flags: "fst (mount_options_text (sy_mem (willing_env ?mem)) plain_options) = 0" by code_simp
  have "\<exists>mo1 tr1. fuse_session_mount (willing_env ?mem) (Some ''/mnt'') plain_options \<lparr>ch_fd = -1, ch_mountpoint = None\<rparr> [] =
      (Returns (0, mo1, \<lparr>ch_fd = -1, ch_mountpoint = None\<rparr>\<lparr>ch_fd := 0, ch_mountpoint := Some ''/mnt''\<rparr>), tr1) \<and>
    held_fds tr1 = held_fds [] \<and> mount_calls tr1 = mount_calls []"
  proof (rule mount_without_memory_succeeds)
    show "fuse_mnt_parse_fuse_fd ''/mnt'' = -1" by code_simp
    show "\<forall>tmp. fst (add_opt_at fuse_opt_add_opt (sy_mem (willing_env ?mem)) MO_kernel_opts plain_options tmp) = 0" using odd by blast
    show "fst (mount_options_text (sy_mem (willing_env ?mem)) plain_options) = 0" by (rule flags)
  qed (simp_all add: willing_env_def willing_os_def source_size_def str_at_def int_at_def plain_options_def
      mount_offsets DEVNAME_def)
  then show ?thesis by (simp add: held_fds_def mount_calls_def)
qed

end
