(* ===== verification/Spec2Isabelle.thy ===== *)
theory Spec2Isabelle
  imports Fuse_Remember Fuse_Subdir Node_Queue Fuse_Kern_Mount_Correct
begin

text \<open>
  A verification of the Telegram file system: a FUSE file system that keeps its files as
  documents of a Telegram chat, together with the parts of libfuse that its requests run through.

  \<^bold>\<open>The program.\<close> The kernel sends a message: a header with a number, an operation and a node, and the
  structure of that operation. The session of libfuse checks it, decodes it and calls the handler of
  the library. The library turns the node number into a path by walking its tree of nodes, locks the nodes
  on the way, and calls the program's callback for that path. The callback looks the path up in a table of records in memory and talks to the
  Telegram server through libcurl: a write uploads the whole new contents as a document and
  records its identifiers, a read downloads the document, a removal deletes the message. The
  answers of the server are searched for fields as text. Then libfuse unlocks the nodes and
  sends the answer, a message with the number of the request.

  \<^bold>\<open>The program's own parts\<close> (\<^verbatim>\<open>src/main.c\<close>, \<^verbatim>\<open>src/src\<close>, \<^verbatim>\<open>src/include\<close>):

  \<^item> \<open>Prelude\<close>: results with the C errors a run can end in (null pointer, out of bounds, indeterminate
    value, failed assertion, no termination), arrays of possibly indeterminate bytes, the string
    functions, error numbers, and list lemmas shared by the components.
  \<^item> \<open>Buffer\<close>: the growable byte buffer of \<^verbatim>\<open>buffer.c\<close> with 64-bit sizes that wrap.
  \<^item> \<open>Json_Field\<close>: the textual search for a field in a response (\<^verbatim>\<open>buffer.c\<close>).
  \<^item> \<open>Tg_File\<close>: configuration and file records as fixed-size arrays, constructors, path helpers
    (\<^verbatim>\<open>tg_config.c\<close>, \<^verbatim>\<open>tg_file.c\<close>).
  \<^item> \<open>Tg_Storage\<close>: the table of files (\<^verbatim>\<open>tg_storage.c\<close>), which implements a finite map from paths.
  \<^item> \<open>Fuse_Ops\<close>: the callbacks and the start of \<^verbatim>\<open>main\<close>; \<open>Tg_Exchange\<close>: the requests to the server
    (\<^verbatim>\<open>tg_file.c\<close>) and what they do to the shared response array.
  \<^item> \<open>Fuse_Ops_Correct\<close>, \<open>Fuse_Ops_Reach\<close>, \<open>Fuse_Ops_Props\<close>: each callback against the map from paths to
    records, the states reachable by callbacks in any order, and the properties.

  \<^bold>\<open>Libfuse\<close> (\<^verbatim>\<open>src/fuse-3.17.2\<close>):

  \<^item> \<open>Fuse_Opt\<close>: option parsing (\<^verbatim>\<open>lib/fuse_opt.c\<close>).
  \<^item> \<open>Node_Table\<close>, \<open>Node_Tree\<close>, \<open>Node_Path\<close>: the two hash tables, the nodes with their counts, and paths,
    tree locks and the queue of waiting requests (\<^verbatim>\<open>lib/fuse.c\<close>). \<open>Node_Path_Correct\<close>: a path is the names
    from the root down, and taking and releasing it leaves the locks as they were. \<open>Node_Tree_Inv\<close> and
    \<open>Node_Tree_Correct\<close>: the invariant of the whole tree, kept by lookups, forgets, removals and
    renames in every order, and what each of them does. \<open>Node_Clean\<close>: the clean-up of remembered nodes, and the trees that
    all operations lead to. \<open>Node_Way\<close>: the path of a node leads back to it.
    \<open>Node_Queue\<close>: requests that wait for a writer are answered when it is done.
  \<^item> \<open>Fuse_Buf\<close>: vectors of memory and descriptor buffers and the copy between them (\<^verbatim>\<open>lib/buffer.c\<close>).
  \<^item> \<open>Fuse_Fs\<close>: the table of callbacks and the dispatch to it; \<open>Posix_Locks\<close>: byte-range locks;
    \<open>Fuse_Lib\<close>, \<open>Fuse_Lib_Io\<close>, \<open>Fuse_Lib_Misc\<close>, \<open>Fuse_Dir\<close>: the request handlers (\<^verbatim>\<open>lib/fuse.c\<close>, and the packing of
    directory entries in \<^verbatim>\<open>lib/fuse_lowlevel.c\<close>).
  \<^item> \<open>Fuse_Lib_Correct\<close>: what a handler comes down to once the path is at hand, for any file system.
  \<^item> \<open>Fuse_Subdir\<close>: the module that puts a directory in front of all paths of a file system
    (\<^verbatim>\<open>lib/modules/subdir.c\<close>), and that the relative links it makes lead where the absolute ones led.
  \<^item> \<open>Hello_Fuse\<close>: the program's callbacks in libfuse's table, and what requests do through the whole
    stack.

  \<^bold>\<open>Sessions\<close> (\<^verbatim>\<open>lib/fuse_lowlevel.c\<close>):

  \<^item> \<open>Fuse_Fields\<close>, \<open>Fuse_Msg\<close>, \<open>Fuse_Reply\<close>: numbers as bytes (little-endian), the decoder of each operation with
    the layouts of older protocols, and the bytes of each answer. \<open>Fuse_Msg_Correct\<close>: a structure laid out as
    the kernel does it is decoded to the call it stands for.
  \<^item> \<open>Fuse_Init\<close>: the start of a connection (\<^verbatim>\<open>do_init\<close>). \<open>Fuse_Init_Correct\<close>: no flag is asked for that was not
    offered, and the agreed sizes are within bounds.
  \<^item> \<open>Fuse_Session\<close>: who may send what, the requests in progress, interrupts, messages in memory or in a
    pipe, and the notifications to the kernel. \<open>Fuse_Session_Inv\<close>: the lists of a session, the numbers of the
    messages it sends, and what never runs; \<open>Fuse_Session_Correct\<close>: what does run, and that it is answered;
    \<open>Fuse_Session_Sample\<close>: a session on which the statements are tried.
  \<^item> \<open>Fuse_Mount\<close>: the handlers of the library as the operations of a session (\<^verbatim>\<open>fuse_path_ops\<close>), and the kind of
    answer each gives. \<open>Fuse_Mount_Correct\<close>: the statements about messages, from the kernel to the server and back.
  \<^item> \<open>Fuse_Loop\<close>: the single-threaded loop that receives messages from the device, by \<^verbatim>\<open>read\<close> or through a pipe, and hands
    them to the session (\<^verbatim>\<open>lib/fuse_loop.c\<close>); \<open>Fuse_Loop_Correct\<close>: what it has read it has answered, in order.
    \<open>Fuse_Remember\<close>: the loop that cleans up in between.

  \<^bold>\<open>Mounting\<close> (\<^verbatim>\<open>lib/mount.c\<close>, \<^verbatim>\<open>lib/mount_util.c\<close>, \<^verbatim>\<open>fuse_session_mount\<close>):

  \<^item> \<open>Fuse_Opt_Safe\<close>: parsing of options ends, with a caller's function that does on what it is called for.
    \<open>Fuse_Kmount\<close>: the options of a mount, which never abort, and the flags of the kernel, which survive as text.
  \<^item> \<open>Fuse_Kern_Mount\<close>: mounting by the kernel or the helper program, and unmounting, as runs that leave their system
    calls behind; the system answers a call after all that came before. \<open>Fuse_Kern_Mount_Correct\<close>: the descriptors of
    the process are read off the calls, and none is lost.

  \<^bold>\<open>Interfaces.\<close> Where a component relies on another only through laws, the laws are a locale: a sink
  of bytes (\<open>Buffer\<close>), a table of records (\<open>Tg_Storage\<close>), an index of nodes (\<open>Node_Table\<close>), a provider of
  paths (\<open>Fuse_Lib_Correct\<close>), a file system that answers every call (\<open>Fuse_Session_Correct\<close>) and with the right
  kind of answer (\<open>Fuse_Mount\<close>). Each is interpreted on the model's own functions.

  \<^bold>\<open>How the code is read.\<close> A pointer into an array is an index; a C string is a list of characters up
  to the terminator; a run that C leaves undefined ends in an error value. Allocation is a
  parameter that says which sizes are granted; the server and libcurl are a parameter that maps a
  request and a world to a result code, the chunks of the answer and a new world. A request that has
  to wait for a path ends in the outcome \<open>Wait\<close> with its place in the queue, and is resumed later. The
  mutex around each operation of the tree makes it atomic. Times to live are whole nanoseconds where the
  code has a \<^verbatim>\<open>double\<close> of seconds.

  \<^bold>\<open>Loops.\<close> The loops over the table end because the slot number grows; the loops over what the device gives and over the list of remembered nodes
  because those lists get shorter; reading and splitting of
  options because the rest of the string or the arguments shrink; inserting a lock because the
  list shrinks and a split happens once. Fuel is used for three walks: to the root of the tree
  (\<open>f_fresh + 1\<close> steps, and three calls per node for deletions, enough since no node repeats, as
  \<open>Node_Path_Correct\<close> and \<open>Node_Tree_Inv\<close> prove), for a fresh node number (one more than the numbers that
  can be taken), and for the copy between buffers (each turn finishes a buffer of one side). The wait for the helper program
  gives up, in the model, after a number of interruptions that is a parameter; the standard descriptors are opened in four turns, since
  three of them can be missing.

  \<^bold>\<open>Not modelled.\<close> Log output; the interruption of threads by signals; the slab allocator behind
  \<^verbatim>\<open>alloc_node\<close> (addresses are a fresh supply); the \<^verbatim>\<open>iconv\<close> module, which
  is the library \<^verbatim>\<open>iconv\<close> around every path; the loop with several threads, its channels and mutexes, and signals, which
  are system calls around the parts above; sending an answer by \<^verbatim>\<open>splice\<close>, where the model takes the copy
  through memory that the code falls back to; character devices in user space; and libcurl, whose requests
  and answers are parameters.
\<close>

end
